(* ===== verification/Prelude.thy ===== *)
theory Prelude
  imports Main "HOL-Library.Char_ord" "HOL-Library.List_Lexorder" "HOL-Library.Multiset"
begin

text \<open>
  Shared vocabulary of the development.

  The program is Python. The conventions of the translation are:
  \<^item> a Python \<^verbatim>\<open>str\<close> is a \<^typ>\<open>string\<close> that holds its UTF-8 bytes, one \<^typ>\<open>char\<close> per
    byte. \<^verbatim>\<open>encode("utf-8")\<close> is then the identity, and comparing code points agrees with
    comparing bytes;
  \<^item> a Python \<^verbatim>\<open>int\<close> is an \<^typ>\<open>int\<close>; a \<^verbatim>\<open>tuple\<close> or \<^verbatim>\<open>list\<close> is a list;
  \<^item> a dataclass is a record whose fields have the annotated types. An \<^verbatim>\<open>isinstance\<close> test
    against the annotated type of a field is true by typing and leaves no trace;
  \<^item> a field annotated \<^verbatim>\<open>Union[SomeEnum, str]\<close> keeps both alternatives (\<open>open_enum\<close>), and the
    corresponding \<^verbatim>\<open>isinstance\<close> test is kept;
  \<^item> a raised exception is an \<open>Inl\<close>.
\<close>

named_theorems canonical_defs \<open>unfolding of the canonical JSON projections\<close>
named_theorems valid_defs \<open>unfolding of the structural validity predicates\<close>
named_theorems branch_defs \<open>unfolding of the reducer's branches\<close>
named_theorems enum_values \<open>unfolding of the wire names of closed enums\<close>

section \<open>Errors as values\<close>

datatype py_error = ValueError string | TypeError string | KeyError string | OSError string | StopIteration

type_synonym 'a res = "py_error + 'a"

definition bind_res :: "'e + 'a \<Rightarrow> ('a \<Rightarrow> 'e + 'b) \<Rightarrow> 'e + 'b" where
  "bind_res r f = (case r of Inl e \<Rightarrow> Inl e | Inr x \<Rightarrow> f x)"

lemma bind_res_simps [simp]:
  "bind_res (Inl e) f = Inl e"
  "bind_res (Inr x) f = f x"
  by (simp_all add: bind_res_def)

lemma bind_res_Inr_iff:
  "bind_res r f = Inr y \<longleftrightarrow> (\<exists>x. r = Inr x \<and> f x = Inr y)"
  by (cases r) simp_all

section \<open>Closed enums with a raw alternative\<close>

datatype 'a open_enum = Closed 'a | Raw string

fun is_closed :: "'a open_enum \<Rightarrow> bool" where
  "is_closed (Closed _) = True"
| "is_closed (Raw _) = False"

fun enum_text :: "('a \<Rightarrow> string) \<Rightarrow> 'a open_enum \<Rightarrow> string" where
  "enum_text f (Closed x) = f x"
| "enum_text f (Raw s) = s"

lemma is_closed_iff: "is_closed x \<longleftrightarrow> (\<exists>v. x = Closed v)"
  by (cases x) simp_all

definition opt_closed :: "'a open_enum option \<Rightarrow> bool" where
  "opt_closed x = (case x of None \<Rightarrow> True | Some v \<Rightarrow> is_closed v)"

lemma opt_closed_simps [simp]:
  "opt_closed None"
  "opt_closed (Some v) = is_closed v"
  by (simp_all add: opt_closed_def)

definition opt_all :: "('a \<Rightarrow> bool) \<Rightarrow> 'a option \<Rightarrow> bool" where
  "opt_all p x = (case x of None \<Rightarrow> True | Some v \<Rightarrow> p v)"

lemma opt_all_simps [simp]:
  "opt_all p None"
  "opt_all p (Some v) = p v"
  by (simp_all add: opt_all_def)

section \<open>Lists\<close>

text \<open>
  \<^verbatim>\<open>next((index for index, item in enumerate(xs) if p(item)), None)\<close>; the companion
  \<^verbatim>\<open>next((item for item in xs if p(item)), None)\<close> is \<^const>\<open>List.find\<close>.
\<close>

fun find_index :: "('a \<Rightarrow> bool) \<Rightarrow> 'a list \<Rightarrow> nat option" where
  "find_index p [] = None"
| "find_index p (x # xs) = (if p x then Some 0 else map_option Suc (find_index p xs))"

lemma find_index_SomeD:
  "find_index p xs = Some i \<Longrightarrow> i < length xs \<and> p (xs ! i)"
proof (induction xs arbitrary: i)
  case Nil
  then show ?case by simp
next
  case (Cons x xs)
  then show ?case by (cases "p x") auto
qed

lemma find_index_None_iff: "find_index p xs = None \<longleftrightarrow> (\<forall>x\<in>set xs. \<not> p x)"
  by (induction xs) auto

lemma find_SomeD: "List.find p xs = Some x \<Longrightarrow> x \<in> set xs \<and> p x"
  by (auto simp: find_Some_iff)

lemma find_index_find:
  "find_index p xs = Some i \<Longrightarrow> List.find p xs = Some (xs ! i)"
proof (induction xs arbitrary: i)
  case Nil
  then show ?case by simp
next
  case (Cons x xs)
  then show ?case by (cases "p x") auto
qed

lemma find_index_None_find: "find_index p xs = None \<longleftrightarrow> List.find p xs = None"
  by (auto simp: find_index_None_iff find_None_iff)

lemma map_list_update_same:
  "f y = f (xs ! i) \<Longrightarrow> map f (xs[i := y]) = map f xs"
  by (metis list_update_id map_update)

lemma list_all_update:
  "list_all P xs \<Longrightarrow> P y \<Longrightarrow> list_all P (xs[i := y])"
  by (auto simp: list_all_iff dest: set_update_subset_insert [THEN subsetD])

lemma distinct_map_find:
  assumes "distinct (map f xs)" and "x \<in> set xs"
  shows "List.find (\<lambda>y. f y = f x) xs = Some x"
  using assms by (induction xs) auto

lemma distinct_map_nth_update:
  assumes "distinct (map f xs)" and "i < length xs" and "f y = f (xs ! i)"
  shows "List.find (\<lambda>z. f z = f y) (xs[i := y]) = Some y"
proof -
  have "distinct (map f (xs[i := y]))"
    using assms by (simp add: map_list_update_same)
  moreover have "y \<in> set (xs[i := y])"
    using assms(2) by (rule set_update_memI)
  ultimately show ?thesis by (rule distinct_map_find)
qed

lemma find_update_other:
  assumes "i < length xs" and "f y = f (xs ! i)" and "f y \<noteq> k"
  shows "List.find (\<lambda>z. f z = k) (xs[i := y]) = List.find (\<lambda>z. f z = k) xs"
  using assms
proof (induction xs arbitrary: i)
  case Nil
  then show ?case by simp
next
  case (Cons x xs)
  then show ?case by (cases i) auto
qed

text \<open>\<^verbatim>\<open>value.split(sep)\<close> for a one-character separator.\<close>

fun split_on :: "char \<Rightarrow> string \<Rightarrow> string list" where
  "split_on c [] = [[]]"
| "split_on c (x # xs) =
     (if x = c then [] # split_on c xs
      else case split_on c xs of [] \<Rightarrow> [[x]] | y # ys \<Rightarrow> (x # y) # ys)"

text \<open>
  \<^verbatim>\<open>PurePosixPath(value).parts\<close> of a relative path: the components, without the empty and the
  \<^verbatim>\<open>"."\<close> ones, which pathlib drops.
\<close>

definition path_parts :: "string \<Rightarrow> string list" where
  "path_parts v = filter (\<lambda>x. x \<noteq> [] \<and> x \<noteq> ''.'') (split_on (CHR ''/'') v)"

text \<open>Sorting by a key that is injective on the elements forgets their order.\<close>

lemma sort_key_perm_eq:
  assumes "mset xs = mset ys" and "inj_on f (set xs)"
  shows "sort_key f xs = sort_key f ys"
proof (rule properties_for_sort_key)
  show "mset (sort_key f ys) = mset xs" using assms(1) by simp
next
  show "sorted (map f (sort_key f ys))" by simp
next
  fix k assume "k \<in> set (sort_key f ys)"
  then have k: "k \<in> set xs" using assms(1) by (metis set_mset_mset mset_sort)
  have only_k: "filter (\<lambda>x. f k = f x) zs = filter (\<lambda>x. k = x) zs"
    if "mset zs = mset xs" for zs
  proof -
    have "set zs = set xs" using that by (rule mset_eq_setD)
    with k assms(2) show ?thesis by (intro filter_cong) (auto dest: inj_onD)
  qed
  have "length (filter (\<lambda>x. k = x) (sort_key f ys)) = length (filter (\<lambda>x. k = x) xs)"
    using assms(1) by (metis mset_filter mset_sort size_mset)
  then have "filter (\<lambda>x. k = x) (sort_key f ys) = filter (\<lambda>x. k = x) xs"
    by (metis replicate_length_filter)
  with only_k [of "sort_key f ys"] only_k [of xs] assms(1)
  show "filter (\<lambda>x. f k = f x) (sort_key f ys) = filter (\<lambda>x. f k = f x) xs"
    by simp
qed

section \<open>The contract of a closed enum\<close>

text \<open>
  \<^verbatim>\<open>SomeEnum(text)\<close>: the member with that value. Every closed enum of the program meets the same
  contract, stated once: its members are all listed, and their wire names are distinct.
\<close>

definition enum_of :: "('a \<Rightarrow> string) \<Rightarrow> 'a list \<Rightarrow> string \<Rightarrow> 'a option" where
  "enum_of f members s = List.find (\<lambda>k. f k = s) members"

locale closed_enum =
  fixes enum_value :: "'a \<Rightarrow> string" and members :: "'a list"
  assumes members_complete: "k \<in> set members"
    and values_distinct: "distinct (map enum_value members)"
begin

lemma value_eq_iff: "enum_value a = enum_value b \<longleftrightarrow> a = b"
  using values_distinct members_complete by (auto simp: distinct_map dest: inj_onD)

lemma enum_of_value: "enum_of enum_value members (enum_value k) = Some k"
proof -
  have "\<exists>x\<in>set members. enum_value x = enum_value k" using members_complete by auto
  then obtain x where "List.find (\<lambda>j. enum_value j = enum_value k) members = Some x"
    by (metis (mono_tags, lifting) find_None_iff option.exhaust)
  with find_SomeD [OF this] show ?thesis by (simp add: enum_of_def value_eq_iff)
qed

lemma enum_of_Some: "enum_of enum_value members s = Some k \<Longrightarrow> enum_value k = s"
  by (auto simp: enum_of_def dest: find_SomeD)

lemma finite_members: "finite (UNIV :: 'a set)"
  by (rule finite_subset [of _ "set members"]) (auto intro: members_complete)

end

end
