(* ===== verification/Sha256.thy ===== *)
theory Sha256
  imports Prelude "HOL-Library.Word"
begin

text \<open>
  \<^verbatim>\<open>hashlib.sha256(payload).hexdigest()\<close> from the standard library, as FIPS 180-4 specifies it:
  padding to 64-byte blocks, the 48-step message schedule, the 64-round compression, and the
  lower-case hexadecimal rendering of the eight state words. Bytes are \<^typ>\<open>char\<close>s.
  The kernel needs the shape of the rendering only (64 lower-case hexadecimal characters);
  the test vector in \<^verbatim>\<open>Sha256_Test\<close> pins the definition to the standard.
\<close>

unbundle bit_operations_syntax

type_synonym u32 = "32 word"
type_synonym sha_state = "u32 \<times> u32 \<times> u32 \<times> u32 \<times> u32 \<times> u32 \<times> u32 \<times> u32"

section \<open>Round functions\<close>

definition rotr :: "nat \<Rightarrow> u32 \<Rightarrow> u32" where
  "rotr n x = drop_bit n x OR push_bit (32 - n) x"

definition sha_ch :: "u32 \<Rightarrow> u32 \<Rightarrow> u32 \<Rightarrow> u32" where
  "sha_ch x y z = (x AND y) XOR (NOT x AND z)"

definition sha_maj :: "u32 \<Rightarrow> u32 \<Rightarrow> u32 \<Rightarrow> u32" where
  "sha_maj x y z = (x AND y) XOR (x AND z) XOR (y AND z)"

definition big_sigma0 :: "u32 \<Rightarrow> u32" where
  "big_sigma0 x = rotr 2 x XOR rotr 13 x XOR rotr 22 x"

definition big_sigma1 :: "u32 \<Rightarrow> u32" where
  "big_sigma1 x = rotr 6 x XOR rotr 11 x XOR rotr 25 x"

definition small_sigma0 :: "u32 \<Rightarrow> u32" where
  "small_sigma0 x = rotr 7 x XOR rotr 18 x XOR drop_bit 3 x"

definition small_sigma1 :: "u32 \<Rightarrow> u32" where
  "small_sigma1 x = rotr 17 x XOR rotr 19 x XOR drop_bit 10 x"

section \<open>Constants\<close>

definition sha_k :: "u32 list" where
  "sha_k = [
     1116352408, 1899447441, 3049323471, 3921009573, 961987163, 1508970993, 2453635748, 2870763221,
     3624381080, 310598401, 607225278, 1426881987, 1925078388, 2162078206, 2614888103, 3248222580,
     3835390401, 4022224774, 264347078, 604807628, 770255983, 1249150122, 1555081692, 1996064986,
     2554220882, 2821834349, 2952996808, 3210313671, 3336571891, 3584528711, 113926993, 338241895,
     666307205, 773529912, 1294757372, 1396182291, 1695183700, 1986661051, 2177026350, 2456956037,
     2730485921, 2820302411, 3259730800, 3345764771, 3516065817, 3600352804, 4094571909, 275423344,
     430227734, 506948616, 659060556, 883997877, 958139571, 1322822218, 1537002063, 1747873779,
     1955562222, 2024104815, 2227730452, 2361852424, 2428436474, 2756734187, 3204031479, 3329325298]"

definition sha_init :: sha_state where
  "sha_init = (1779033703, 3144134277, 1013904242, 2773480762,
     1359893119, 2600822924, 528734635, 1541459225)"

section \<open>Padding and blocks\<close>

definition be_bytes8 :: "int \<Rightarrow> int list" where
  "be_bytes8 n = map (\<lambda>i. n div 256 ^ (7 - i) mod 256) [0..<8]"

definition sha_pad :: "string \<Rightarrow> int list" where
  "sha_pad m =
     (let n = length m
      in map of_char m @ [128] @ replicate ((119 - n mod 64) mod 64) 0 @ be_bytes8 (8 * int n))"

fun be_words :: "int list \<Rightarrow> u32 list" where
  "be_words (a # b # c # d # rest) =
     word_of_int (((a * 256 + b) * 256 + c) * 256 + d) # be_words rest"
| "be_words _ = []"

function chunk16 :: "u32 list \<Rightarrow> u32 list list" where
  "chunk16 [] = []"
| "chunk16 (w # ws) = (w # take 15 ws) # chunk16 (drop 15 ws)"
  by pat_completeness auto
termination by (relation "measure length") auto

section \<open>Schedule and compression\<close>

text \<open>The schedule is kept newest word first, so that the four look-backs are fixed indices.\<close>

fun sha_extend :: "nat \<Rightarrow> u32 list \<Rightarrow> u32 list" where
  "sha_extend 0 ws = ws"
| "sha_extend (Suc k) ws =
     sha_extend k ((small_sigma1 (ws ! 1) + ws ! 6 + small_sigma0 (ws ! 14) + ws ! 15) # ws)"

definition sha_schedule :: "u32 list \<Rightarrow> u32 list" where
  "sha_schedule block = rev (sha_extend 48 (rev block))"

fun sha_round :: "u32 \<times> u32 \<Rightarrow> sha_state \<Rightarrow> sha_state" where
  "sha_round (k, w) (a, b, c, d, e, f, g, h) =
     (let t1 = h + big_sigma1 e + sha_ch e f g + k + w;
          t2 = big_sigma0 a + sha_maj a b c
      in (t1 + t2, a, b, c, d + t1, e, f, g))"

fun sha_add :: "sha_state \<Rightarrow> sha_state \<Rightarrow> sha_state" where
  "sha_add (a, b, c, d, e, f, g, h) (a', b', c', d', e', f', g', h') =
     (a + a', b + b', c + c', d + d', e + e', f + f', g + g', h + h')"

definition sha_block :: "u32 list \<Rightarrow> sha_state \<Rightarrow> sha_state" where
  "sha_block block st = sha_add st (fold sha_round (zip sha_k (sha_schedule block)) st)"

definition sha256_state :: "string \<Rightarrow> sha_state" where
  "sha256_state m = fold sha_block (chunk16 (be_words (sha_pad m))) sha_init"

section \<open>Hexadecimal rendering\<close>

definition hex_digits :: string where
  "hex_digits = ''0123456789abcdef''"

definition hex_char :: "int \<Rightarrow> char" where
  "hex_char n = hex_digits ! nat (n mod 16)"

definition word_hex :: "u32 \<Rightarrow> string" where
  "word_hex w = map (\<lambda>i. hex_char (uint w div 16 ^ (7 - i))) [0..<8]"

fun state_hex :: "sha_state \<Rightarrow> string" where
  "state_hex (a, b, c, d, e, f, g, h) = concat (map word_hex [a, b, c, d, e, f, g, h])"

definition sha256_hex :: "string \<Rightarrow> string" where
  "sha256_hex m = state_hex (sha256_state m)"

section \<open>Shape of a digest\<close>

lemma length_hex_digits: "length hex_digits = 16"
  by (simp add: hex_digits_def)

lemma hex_char_in: "hex_char n \<in> set hex_digits"
  by (simp add: hex_char_def length_hex_digits nat_less_iff)

lemma length_word_hex: "length (word_hex w) = 8"
  by (simp add: word_hex_def)

lemma set_word_hex: "set (word_hex w) \<subseteq> set hex_digits"
  by (auto simp: word_hex_def hex_char_in)

lemma length_sha256_hex [simp]: "length (sha256_hex m) = 64"
  by (cases "sha256_state m" rule: state_hex.cases) (simp add: sha256_hex_def length_word_hex)

lemma set_sha256_hex: "set (sha256_hex m) \<subseteq> set hex_digits"
  by (cases "sha256_state m" rule: state_hex.cases)
    (auto simp: sha256_hex_def dest: subsetD [OF set_word_hex])

end
