(* ===== verification/Json.thy ===== *)
theory Json
  imports Sha256
begin

text \<open>
  JSON values and their canonical text, as \<^verbatim>\<open>_canonical_json\<close> of
  \<^verbatim>\<open>src/valp_cli/protocol_kernel.py\<close> (and its twin \<^verbatim>\<open>canonical_json\<close> of
  \<^verbatim>\<open>protocol_receipts.py\<close>) produce it: \<^verbatim>\<open>json.dumps\<close> with sorted keys, compact separators,
  \<^verbatim>\<open>ensure_ascii=False\<close>, and a final line feed. The values the kernel renders are built from
  strings, integers, booleans, \<^verbatim>\<open>None\<close>, lists and dictionaries; floating-point numbers do not occur
  (and \<^verbatim>\<open>allow_nan=False\<close> has nothing to refuse).

  The main result is that the canonical text determines the value up to the order of
  dictionary entries (\<open>canonical_json_eq_iff\<close>), which is what every digest, every byte
  comparison and every \<^verbatim>\<open>canonical() == canonical()\<close> comparison of the program relies on.
\<close>

section \<open>Values and text\<close>

datatype json =
    JNull
  | JBool bool
  | JInt int
  | JStr string
  | JArr "json list"
  | JObj "(string \<times> json) list"

text \<open>A dictionary lookup, \<^verbatim>\<open>value.get(key)\<close> on an object.\<close>

fun jget :: "string \<Rightarrow> json \<Rightarrow> json option" where
  "jget k (JObj kvs) = map_of kvs k"
| "jget k _ = None"

text \<open>The escapes of \<^verbatim>\<open>json.encoder.ESCAPE_DCT\<close> (the \<^verbatim>\<open>ensure_ascii=False\<close> variant).\<close>

definition backslash :: char where "backslash = CHR 92"
definition dquote :: char where "dquote = CHR 34"

definition esc_table :: "(char \<times> char) list" where
  "esc_table =
     [(dquote, dquote), (backslash, backslash), (CHR 10, CHR ''n''), (CHR 13, CHR ''r''),
      (CHR 9, CHR ''t''), (CHR 12, CHR ''f''), (CHR 8, CHR ''b'')]"

definition esc_char :: "char \<Rightarrow> string" where
  "esc_char c =
     (case map_of esc_table c of
        Some x \<Rightarrow> [backslash, x]
      | None \<Rightarrow>
          if (of_char c :: nat) < 32
          then [backslash, CHR ''u'', CHR ''0'', CHR ''0'',
                hex_char (of_char c div 16), hex_char (of_char c)]
          else [c])"

definition quote :: "string \<Rightarrow> string" where
  "quote s = dquote # concat (map esc_char s) @ [dquote]"

definition digit_char :: "nat \<Rightarrow> char" where
  "digit_char n = char_of (48 + n mod 10)"

fun nat_str :: "nat \<Rightarrow> string" where
  "nat_str n = (if n < 10 then [digit_char n] else nat_str (n div 10) @ [digit_char n])"

declare nat_str.simps [simp del]

definition int_str :: "int \<Rightarrow> string" where
  "int_str i = (if i < 0 then CHR ''-'' # nat_str (nat (- i)) else nat_str (nat i))"

fun commas :: "string list \<Rightarrow> string" where
  "commas [] = []"
| "commas [x] = x"
| "commas (x # y # ys) = x @ CHR '','' # commas (y # ys)"

primrec dumps :: "json \<Rightarrow> string" where
  "dumps JNull = ''null''"
| "dumps (JBool b) = (if b then ''true'' else ''false'')"
| "dumps (JInt i) = int_str i"
| "dumps (JStr s) = quote s"
| "dumps (JArr xs) = CHR ''['' # commas (map dumps xs) @ '']''"
| "dumps (JObj kvs) =
     CHR ''{'' # commas (map (\<lambda>(k, t). quote k @ CHR '':'' # t)
                          (sort_key fst (map (map_prod id dumps) kvs))) @ ''}''"

definition canonical_json :: "json \<Rightarrow> string" where
  "canonical_json v = dumps v @ [CHR 10]"

definition digest :: "json \<Rightarrow> string" where
  "digest v = ''sha256:'' @ sha256_hex (canonical_json v)"

section \<open>Equality of values up to the order of entries\<close>

text \<open>
  Python compares dictionaries without regard to the order of their entries. \<open>norm\<close> sorts the
  entries of every object; two values are equal in Python when their normal forms agree
  (for objects without duplicate keys, which Python dictionaries cannot have).
\<close>

primrec norm :: "json \<Rightarrow> json" where
  "norm JNull = JNull"
| "norm (JBool b) = JBool b"
| "norm (JInt i) = JInt i"
| "norm (JStr s) = JStr s"
| "norm (JArr xs) = JArr (map norm xs)"
| "norm (JObj kvs) = JObj (sort_key fst (map (map_prod id norm) kvs))"

definition json_eq :: "json \<Rightarrow> json \<Rightarrow> bool" where
  "json_eq v w \<longleftrightarrow> norm v = norm w"

primrec show_json :: "json \<Rightarrow> string" where
  "show_json JNull = ''null''"
| "show_json (JBool b) = (if b then ''true'' else ''false'')"
| "show_json (JInt i) = int_str i"
| "show_json (JStr s) = quote s"
| "show_json (JArr xs) = CHR ''['' # commas (map show_json xs) @ '']''"
| "show_json (JObj kvs) =
     CHR ''{'' # commas (map (\<lambda>(k, t). quote k @ CHR '':'' # t) (map (map_prod id show_json) kvs)) @ ''}''"

lemma insort_key_map_prod:
  "insort_key fst (map_prod (\<lambda>k. k) f x) (map (map_prod (\<lambda>k. k) f) xs) =
     map (map_prod (\<lambda>k. k) f) (insort_key fst x xs)"
  by (induction xs) auto

lemma sort_key_map_prod:
  "sort_key fst (map (map_prod (\<lambda>k. k) f) xs) = map (map_prod (\<lambda>k. k) f) (sort_key fst xs)"
  by (induction xs) (simp_all add: insort_key_map_prod)

lemma dumps_show: "dumps v = show_json (norm v)"
proof (induction v)
  case (JArr xs)
  then have "map dumps xs = map (\<lambda>x. show_json (norm x)) xs" by simp
  then show ?case by (simp only: dumps.simps norm.simps show_json.simps map_map comp_def)
next
  case (JObj kvs)
  then have "map (map_prod id dumps) kvs = map (map_prod id (\<lambda>v. show_json (norm v))) kvs"
    by (force simp: map_prod_def split: prod.splits)
  also have "\<dots> = map (map_prod id show_json) (map (map_prod id norm) kvs)"
    by (simp add: map_prod_def case_prod_beta')
  finally show ?case
    using sort_key_map_prod [of show_json "map (map_prod id norm) kvs"]
    by (simp only: dumps.simps norm.simps show_json.simps id_def)
qed simp_all

section \<open>Numbers\<close>

definition is_digit :: "char \<Rightarrow> bool" where
  "is_digit c \<longleftrightarrow> 48 \<le> (of_char c :: nat) \<and> (of_char c :: nat) \<le> 57"

lemma of_char_digit_char: "(of_char (digit_char n) :: nat) = 48 + n mod 10"
proof -
  have "48 + n mod 10 < 256" using mod_less_divisor [of 10 n] by linarith
  then show ?thesis by (simp add: digit_char_def)
qed

lemma is_digit_digit_char: "is_digit (digit_char n)"
  by (simp add: is_digit_def of_char_digit_char)

lemma nat_str_digits: "list_all is_digit (nat_str n)"
proof (induction n rule: nat_str.induct)
  case (1 n)
  then show ?case by (subst nat_str.simps) (simp add: is_digit_digit_char)
qed

lemma nat_str_nonempty: "nat_str n \<noteq> []"
  by (subst nat_str.simps) simp

definition str_nat :: "string \<Rightarrow> nat" where
  "str_nat s = foldl (\<lambda>a c. a * 10 + (of_char c - 48)) 0 s"

lemma str_nat_nat_str: "str_nat (nat_str n) = n"
proof (induction n rule: nat_str.induct)
  case (1 n)
  show ?case
  proof (cases "n < 10")
    case True
    then show ?thesis
      by (subst nat_str.simps) (simp add: str_nat_def of_char_digit_char)
  next
    case False
    with 1 have IH: "foldl (\<lambda>a c. a * 10 + (of_char c - 48)) 0 (nat_str (n div 10)) = n div 10"
      by (simp add: str_nat_def)
    show ?thesis
      using False by (subst nat_str.simps) (simp add: str_nat_def IH of_char_digit_char)
  qed
qed

lemma nat_str_inj: "nat_str m = nat_str n \<Longrightarrow> m = n"
  by (metis str_nat_nat_str)

text \<open>A text that no printed value can continue: what follows a value is a separator or a close.\<close>

definition stops :: "string \<Rightarrow> bool" where
  "stops r \<longleftrightarrow> r = [] \<or> hd r \<in> {CHR '','', CHR '']'', CHR ''}'', CHR 10}"

lemma stops_simps [simp]:
  "stops []" "stops (CHR '','' # r)" "stops (CHR '']'' # r)" "stops (CHR ''}'' # r)" "stops [CHR 10]"
  by (simp_all add: stops_def)

lemma stops_not_digit: "stops r \<Longrightarrow> r = [] \<or> \<not> is_digit (hd r)"
  by (auto simp: stops_def is_digit_def)

lemma takeWhile_digits:
  assumes "list_all is_digit xs" and "stops r"
  shows "takeWhile is_digit (xs @ r) = xs" and "dropWhile is_digit (xs @ r) = r"
proof -
  have "takeWhile is_digit r = []" "dropWhile is_digit r = r"
    using stops_not_digit [OF assms(2)] by (cases r; simp)+
  with assms(1) show "takeWhile is_digit (xs @ r) = xs" "dropWhile is_digit (xs @ r) = r"
    by (simp_all add: list_all_iff)
qed

lemma nat_str_append_inj:
  assumes "nat_str m @ r = nat_str n @ r'" and "stops r" and "stops r'"
  shows "m = n \<and> r = r'"
  using assms takeWhile_digits [OF nat_str_digits] by (metis nat_str_inj)

lemma hd_nat_str: "\<exists>c cs. nat_str n = c # cs \<and> is_digit c"
  using nat_str_digits [of n] nat_str_nonempty [of n] by (cases "nat_str n") auto

lemma hd_int_str: "\<exists>c cs. int_str i = c # cs \<and> (is_digit c \<or> c = CHR ''-'')"
  using hd_nat_str [of "nat i"] by (auto simp: int_str_def)

lemma int_str_append_inj:
  assumes "int_str i @ r = int_str j @ r'" and "stops r" and "stops r'"
  shows "i = j \<and> r = r'"
proof -
  have no_sign: "nat_str n @ u \<noteq> CHR ''-'' # t" for n u t
    using hd_nat_str [of n] by (auto simp: is_digit_def)
  show ?thesis
  proof (cases "i < 0 \<longleftrightarrow> j < 0")
    case True
    then have "nat_str (nat \<bar>i\<bar>) @ r = nat_str (nat \<bar>j\<bar>) @ r'"
      using assms(1) by (auto simp: int_str_def split: if_splits)
    from nat_str_append_inj [OF this assms(2,3)] True show ?thesis by auto
  next
    case False
    then show ?thesis
      using assms(1) no_sign [symmetric] no_sign by (auto simp: int_str_def split: if_splits)
  qed
qed

section \<open>Strings\<close>

lemma hex_char_eqD:
  assumes "hex_char m = hex_char n"
  shows "m mod 16 = n mod 16"
proof -
  have "distinct hex_digits" by (simp add: hex_digits_def)
  then have "nat (m mod 16) = nat (n mod 16)"
    using assms by (simp add: hex_char_def nth_eq_iff_index_eq length_hex_digits nat_less_iff)
  then show ?thesis by (simp add: nat_eq_iff)
qed

lemma byte_nibbles:
  fixes z :: int
  assumes "z mod 256 = z"
  shows "z = 16 * (z div 16 mod 16) + z mod 16"
proof -
  have "0 \<le> z" and "z < 256"
    using assms pos_mod_sign [of 256 z] pos_mod_bound [of 256 z] by simp_all
  then have "z div 16 mod 16 = z div 16" by (simp add: div_less_iff_less_mult mod_pos_pos_trivial pos_imp_zdiv_nonneg_iff)
  then show ?thesis by simp
qed

lemma control_hex_inj:
  assumes "hex_char (of_char c div 16) = hex_char (of_char d div 16)"
    and "hex_char (of_char c) = hex_char (of_char d)"
  shows "c = d"
proof -
  have "(of_char c :: int) mod 16 = of_char d mod 16"
    using assms(2) by (rule hex_char_eqD)
  moreover have "(of_char c :: int) div 16 mod 16 = of_char d div 16 mod 16"
    using assms(1) by (rule hex_char_eqD)
  moreover have "(of_char x :: int) = 16 * (of_char x div 16 mod 16) + of_char x mod 16" for x
    by (rule byte_nibbles) (rule of_char_mod_256)
  ultimately have "(of_char c :: int) = of_char d" by metis
  then show ?thesis by simp
qed

lemma esc_table_inj: "map_of esc_table c = Some x \<Longrightarrow> map_of esc_table d = Some x \<Longrightarrow> c = d"
  by (auto simp: esc_table_def backslash_def dquote_def split: if_splits)

lemma esc_table_not_u: "map_of esc_table c \<noteq> Some (CHR ''u'')"
  by (auto simp: esc_table_def backslash_def dquote_def split: if_splits)

lemma esc_table_None: "map_of esc_table c = None \<Longrightarrow> c \<noteq> backslash \<and> c \<noteq> dquote"
  by (auto simp: esc_table_def backslash_def dquote_def)

lemma esc_char_append_inj:
  assumes "esc_char c @ u = esc_char d @ v"
  shows "c = d \<and> u = v"
proof -
  note tab = esc_table_inj [of c _ d] esc_table_not_u [of c] esc_table_not_u [of d]
    esc_table_None [of c] esc_table_None [of d] control_hex_inj [of c d]
  show ?thesis
    using assms tab by (cases "map_of esc_table c"; cases "map_of esc_table d")
      (simp_all add: esc_char_def split: if_splits)
qed

lemma esc_char_not_dquote: "esc_char c @ w \<noteq> dquote # v"
  using esc_table_None [of c]
  by (cases "map_of esc_table c") (auto simp: esc_char_def backslash_def dquote_def)

lemma esc_concat_append_inj:
  "concat (map esc_char s) @ dquote # u = concat (map esc_char s') @ dquote # v \<Longrightarrow> s = s' \<and> u = v"
proof (induction s arbitrary: s')
  case Nil
  show ?case
  proof (cases s')
    case (Cons d ds)
    with Nil show ?thesis using esc_char_not_dquote [symmetric] by simp
  qed (use Nil in simp)
next
  case (Cons c s)
  show ?case
  proof (cases s')
    case Nil
    with Cons.prems show ?thesis using esc_char_not_dquote by simp
  next
    case (Cons d ds)
    with Cons.prems have "esc_char c @ concat (map esc_char s) @ dquote # u =
        esc_char d @ concat (map esc_char ds) @ dquote # v"
      by simp
    from esc_char_append_inj [OF this] Cons.IH [of ds] Cons show ?thesis by auto
  qed
qed

lemma quote_append_inj: "quote s @ u = quote s' @ v \<Longrightarrow> s = s' \<and> u = v"
  by (auto simp: quote_def dest: esc_concat_append_inj)

section \<open>The text determines the value\<close>

text \<open>A printer is readable on a value when its text can be told apart from any other, in any context.\<close>

definition readable :: "('a \<Rightarrow> string) \<Rightarrow> 'a \<Rightarrow> bool" where
  "readable f x \<longleftrightarrow>
     (\<forall>y r r'. f x @ r = f y @ r' \<longrightarrow> stops r \<longrightarrow> stops r' \<longrightarrow> x = y \<and> r = r')"

lemma readableD:
  "readable f x \<Longrightarrow> f x @ r = f y @ r' \<Longrightarrow> stops r \<Longrightarrow> stops r' \<Longrightarrow> x = y \<and> r = r'"
  by (auto simp: readable_def)

definition opens :: "string \<Rightarrow> bool" where
  "opens t \<longleftrightarrow> (\<exists>c cs. t = c # cs \<and> c \<notin> {CHR '','', CHR '']'', CHR ''}''})"

lemma commas_append_inj:
  assumes "\<forall>x\<in>set xs. readable f x" and "\<forall>x. opens (f x)" and "c \<in> {CHR '']'', CHR ''}''}"
    and "commas (map f xs) @ c # r = commas (map f ys) @ c # r'"
  shows "xs = ys \<and> r = r'"
  using assms(1,4)
proof (induction xs arbitrary: ys)
  case Nil
  then show ?case
  proof (cases ys)
    case (Cons y ys')
    obtain d ds where "f y = d # ds" "d \<notin> {CHR '','', CHR '']'', CHR ''}''}"
      using assms(2) unfolding opens_def by blast
    then have "\<exists>w. commas (map f ys) @ c # r' = d # w" "d \<noteq> c"
      using Cons assms(3) by (cases ys'; auto)+
    with Nil show ?thesis by auto
  qed simp
next
  case (Cons x xs)
  have tail: "commas (map f (z # zs)) @ c # w =
      f z @ (if zs = [] then c # w else CHR '','' # commas (map f zs) @ c # w)" for z zs w
    by (cases zs) simp_all
  have st: "stops (if zs = [] then c # w else CHR '','' # commas (map f zs) @ c # w)"
    for zs :: "'a list" and w
    using assms(3) by auto
  obtain d ds where "f x = d # ds" "d \<noteq> c"
    using assms(2,3) by (fastforce simp: opens_def)
  then have "ys \<noteq> []"
    using Cons.prems(2) by (cases xs) auto
  then obtain y ys' where ys: "ys = y # ys'" by (cases ys) auto
  have "readable f x" using Cons.prems(1) by simp
  from readableD [OF this Cons.prems(2) [unfolded ys tail] st st]
  have "x = y" and rest: "(if xs = [] then c # r else CHR '','' # commas (map f xs) @ c # r) =
      (if ys' = [] then c # r' else CHR '','' # commas (map f ys') @ c # r')"
    by simp_all
  moreover have "xs = ys' \<and> r = r'"
  proof (cases "xs = [] \<or> ys' = []")
    case True
    then show ?thesis using rest assms(3) by (auto split: if_splits)
  next
    case False
    then show ?thesis using rest Cons.IH [of ys'] Cons.prems(1) by simp
  qed
  ultimately show ?case using ys by simp
qed

lemma opens_show_json: "opens (show_json v)"
proof (cases v)
  case (JInt i)
  then show ?thesis using hd_int_str [of i] by (auto simp: opens_def is_digit_def)
qed (simp_all add: opens_def quote_def dquote_def)

definition show_entry :: "string \<times> json \<Rightarrow> string" where
  "show_entry = (\<lambda>(k, v). quote k @ CHR '':'' # show_json v)"

lemma show_json_JObj: "show_json (JObj kvs) = CHR ''{'' # commas (map show_entry kvs) @ ''}''"
  by (simp add: show_entry_def comp_def case_prod_beta')

declare show_json.simps(6) [simp del]

lemma readable_show_entry: "readable show_json v \<Longrightarrow> readable show_entry (k, v)"
  unfolding readable_def show_entry_def by (auto dest: quote_append_inj)

lemma opens_show_entry: "opens (show_entry e)"
  by (auto simp: opens_def show_entry_def quote_def dquote_def split: prod.splits)

text \<open>The first character of a text tells the constructor of its value.\<close>

lemma int_str_hdD: "c # t = int_str i @ r \<Longrightarrow> is_digit c \<or> c = CHR ''-''"
  using hd_int_str [of i] by auto

lemmas first_char_simps = show_json_JObj quote_def dquote_def is_digit_def

lemma readable_JNull: "readable show_json JNull"
  unfolding readable_def
proof (intro allI impI)
  fix w r r' assume "show_json JNull @ r = show_json w @ r'"
  then show "JNull = w \<and> r = r'"
    by (cases w) (auto simp: first_char_simps dest: int_str_hdD split: if_splits)
qed

lemma readable_JBool: "readable show_json (JBool b)"
  unfolding readable_def
proof (intro allI impI)
  fix w r r' assume "show_json (JBool b) @ r = show_json w @ r'"
  then show "JBool b = w \<and> r = r'"
    by (cases w) (auto simp: first_char_simps dest: int_str_hdD split: if_splits)
qed

lemma readable_JInt: "readable show_json (JInt i)"
  unfolding readable_def
proof (intro allI impI)
  fix w r r' assume "show_json (JInt i) @ r = show_json w @ r'" "stops r" "stops r'"
  then show "JInt i = w \<and> r = r'"
    using hd_int_str [of i] int_str_append_inj [of i r _ r']
    by (cases w) (auto simp: first_char_simps split: if_splits)
qed

lemma readable_JStr: "readable show_json (JStr s)"
  unfolding readable_def
proof (intro allI impI)
  fix w r r' assume "show_json (JStr s) @ r = show_json w @ r'"
  then show "JStr s = w \<and> r = r'"
    using quote_append_inj [of s r _ r']
    by (cases w) (auto simp: first_char_simps dest: int_str_hdD split: if_splits)
qed

lemma readable_JArr:
  assumes "\<forall>x\<in>set xs. readable show_json x"
  shows "readable show_json (JArr xs)"
  unfolding readable_def
proof (intro allI impI)
  fix w r r' assume "show_json (JArr xs) @ r = show_json w @ r'"
  then show "JArr xs = w \<and> r = r'"
    using commas_append_inj [OF assms, of "CHR '']''" r _ r']
    by (cases w) (auto simp: first_char_simps opens_show_json dest: int_str_hdD split: if_splits)
qed

lemma readable_JObj:
  assumes "\<forall>e\<in>set kvs. readable show_entry e"
  shows "readable show_json (JObj kvs)"
  unfolding readable_def
proof (intro allI impI)
  fix w r r' assume "show_json (JObj kvs) @ r = show_json w @ r'"
  then show "JObj kvs = w \<and> r = r'"
    using commas_append_inj [OF assms, of "CHR ''}''" r _ r']
    by (cases w) (auto simp: first_char_simps opens_show_entry dest: int_str_hdD split: if_splits)
qed

lemma readable_show_json: "readable show_json v"
proof (induction v)
  case (JObj kvs)
  then have "\<forall>e\<in>set kvs. readable show_entry e" by (auto intro: readable_show_entry)
  then show ?case by (rule readable_JObj)
qed (simp_all add: readable_JNull readable_JBool readable_JInt readable_JStr readable_JArr)

theorem canonical_json_eq_iff: "canonical_json v = canonical_json w \<longleftrightarrow> json_eq v w"
  using readableD [OF readable_show_json, of "norm v" "[CHR 10]" "norm w" "[CHR 10]"]
  by (auto simp: canonical_json_def dumps_show json_eq_def)

section \<open>Reading a value back\<close>

lemma map_of_insort_key: "map_of (insort_key fst x xs) = map_of (x # xs)"
  by (induction xs) (auto simp: fun_eq_iff)

lemma map_of_sort_key: "map_of (sort_key fst xs) = map_of xs"
  by (induction xs) (simp_all add: map_of_insort_key)

lemma jget_norm: "jget k (norm v) = map_option norm (jget k v)"
proof (cases v)
  case (JObj kvs)
  then show ?thesis
    by (simp add: map_of_sort_key map_of_map [of norm, folded map_prod_def id_def]
        map_prod_def map_of_map)
qed simp_all

lemma json_eq_refl [simp]: "json_eq v v"
  by (simp add: json_eq_def)

text \<open>Equal values agree on every key: the rule by which field after field is compared.\<close>

lemma json_eq_jget:
  assumes "json_eq v w"
  shows "map_option norm (jget k v) = map_option norm (jget k w)"
  using assms by (metis jget_norm json_eq_def)

lemma json_eq_field:
  assumes "json_eq v w" and "jget k v = Some a" and "jget k w = Some b"
  shows "json_eq a b"
  using json_eq_jget [OF assms(1), of k] assms(2,3) by (simp add: json_eq_def)

lemma json_eq_JArr_iff: "json_eq (JArr xs) (JArr ys) \<longleftrightarrow> list_all2 json_eq xs ys"
  by (auto simp: json_eq_def list_all2_conv_all_nth list_eq_iff_nth_eq)

lemma norm_eq_json_eq: "norm v = norm w \<longleftrightarrow> json_eq v w"
  by (simp add: json_eq_def)

lemma list_all2_json_eq_map_inj:
  assumes "list_all2 json_eq (map f xs) (map f ys)"
    and "\<And>x y. x \<in> set xs \<Longrightarrow> y \<in> set ys \<Longrightarrow> json_eq (f x) (f y) \<Longrightarrow> x = y"
  shows "xs = ys"
proof -
  have "list_all2 (=) xs ys"
    using assms(1) unfolding list_all2_map1 list_all2_map2
    by (rule list.rel_mono_strong) (use assms(2) in blast)
  then show ?thesis by (simp add: list.rel_eq)
qed

section \<open>Digests\<close>

text \<open>\<^verbatim>\<open>_is_digest\<close>: 71 characters, the prefix, and lower-case hexadecimal digits after it.\<close>

definition is_digest :: "string \<Rightarrow> bool" where
  "is_digest v \<longleftrightarrow> length v = 71 \<and> take 7 v = ''sha256:'' \<and>
     list_all (\<lambda>c. c \<in> set ''0123456789abcdef'') (drop 7 v)"

lemma is_digest_sha256: "is_digest (''sha256:'' @ sha256_hex bs)"
proof -
  have "length (''sha256:'' @ sha256_hex bs) = 71" "take 7 (''sha256:'' @ sha256_hex bs) = ''sha256:''"
    "drop 7 (''sha256:'' @ sha256_hex bs) = sha256_hex bs"
    by simp_all
  then show ?thesis
    using set_sha256_hex [of bs]
    by (simp add: is_digest_def list_all_iff subset_iff flip: hex_digits_def)
qed

lemma is_digest_digest [simp]: "is_digest (digest v)"
  unfolding digest_def by (rule is_digest_sha256)

lemma digest_cong: "json_eq v w \<Longrightarrow> digest v = digest w"
  by (simp add: digest_def canonical_json_eq_iff [THEN iffD2])

text \<open>Two values have the same digest only if they are equal or their texts collide.\<close>

definition sha_collision :: "json \<Rightarrow> json \<Rightarrow> bool" where
  "sha_collision v w \<longleftrightarrow>
     canonical_json v \<noteq> canonical_json w \<and> sha256_hex (canonical_json v) = sha256_hex (canonical_json w)"

lemma digest_eqD: "digest v = digest w \<Longrightarrow> \<not> sha_collision v w \<Longrightarrow> json_eq v w"
  by (auto simp: digest_def sha_collision_def canonical_json_eq_iff)

end
