(* ===== verification/Kernel_Types.thy ===== *)
theory Kernel_Types
  imports Json
begin

text \<open>
  The vocabulary of \<^verbatim>\<open>src/valp_cli/protocol_kernel.py\<close>: its closed enums with their wire names,
  its frozen dataclasses as records, and the \<^verbatim>\<open>canonical()\<close> projection of each to JSON.
  The projections are shown injective: a canonical value identifies the object it came from.
\<close>

section \<open>Closed enums\<close>

datatype identity_kind =
    IK_INSTALLATION | IK_TASK | IK_WORK_ITEM | IK_ATTEMPT | IK_DISPATCH | IK_EVENT |
    IK_EVIDENCE | IK_RECEIPT | IK_CLAIM | IK_RESULT | IK_SUSPENSION | IK_WAIT_POLICY |
    IK_WAKE | IK_PRINCIPAL | IK_INTERRUPT | IK_REDIRECT

primrec identity_kind_value :: "identity_kind \<Rightarrow> string" where
  "identity_kind_value IK_INSTALLATION = ''installation''"
| "identity_kind_value IK_TASK = ''task''"
| "identity_kind_value IK_WORK_ITEM = ''work_item''"
| "identity_kind_value IK_ATTEMPT = ''attempt''"
| "identity_kind_value IK_DISPATCH = ''dispatch''"
| "identity_kind_value IK_EVENT = ''event''"
| "identity_kind_value IK_EVIDENCE = ''evidence''"
| "identity_kind_value IK_RECEIPT = ''receipt''"
| "identity_kind_value IK_CLAIM = ''claim''"
| "identity_kind_value IK_RESULT = ''result''"
| "identity_kind_value IK_SUSPENSION = ''suspension''"
| "identity_kind_value IK_WAIT_POLICY = ''wait_policy''"
| "identity_kind_value IK_WAKE = ''wake''"
| "identity_kind_value IK_PRINCIPAL = ''principal''"
| "identity_kind_value IK_INTERRUPT = ''interrupt''"
| "identity_kind_value IK_REDIRECT = ''redirect''"

definition all_identity_kind :: "identity_kind list" where
  "all_identity_kind =
     [IK_INSTALLATION, IK_TASK, IK_WORK_ITEM, IK_ATTEMPT, IK_DISPATCH, IK_EVENT,
      IK_EVIDENCE, IK_RECEIPT, IK_CLAIM, IK_RESULT, IK_SUSPENSION, IK_WAIT_POLICY, IK_WAKE,
      IK_PRINCIPAL, IK_INTERRUPT, IK_REDIRECT]"

interpretation identity_kind: closed_enum identity_kind_value all_identity_kind
proof
  fix k show "k \<in> set all_identity_kind" by (cases k) (simp_all add: all_identity_kind_def)
  show "distinct (map identity_kind_value all_identity_kind)" by code_simp
qed

datatype task_status =
    TS_PUBLISHED | TS_ROUTING_VALIDATION | TS_DISPATCHING | TS_EXECUTING | TS_VERIFYING |
    TS_REVIEWING | TS_FIXING | TS_APPROVAL_REQUIRED | TS_RECORDING | TS_DONE | TS_BLOCKED |
    TS_FAILED | TS_CANCELLED

primrec task_status_value :: "task_status \<Rightarrow> string" where
  "task_status_value TS_PUBLISHED = ''published''"
| "task_status_value TS_ROUTING_VALIDATION = ''routing_validation''"
| "task_status_value TS_DISPATCHING = ''dispatching''"
| "task_status_value TS_EXECUTING = ''executing''"
| "task_status_value TS_VERIFYING = ''verifying''"
| "task_status_value TS_REVIEWING = ''reviewing''"
| "task_status_value TS_FIXING = ''fixing''"
| "task_status_value TS_APPROVAL_REQUIRED = ''approval_required''"
| "task_status_value TS_RECORDING = ''recording''"
| "task_status_value TS_DONE = ''done''"
| "task_status_value TS_BLOCKED = ''blocked''"
| "task_status_value TS_FAILED = ''failed''"
| "task_status_value TS_CANCELLED = ''cancelled''"

definition all_task_status :: "task_status list" where
  "all_task_status =
     [TS_PUBLISHED, TS_ROUTING_VALIDATION, TS_DISPATCHING, TS_EXECUTING, TS_VERIFYING,
      TS_REVIEWING, TS_FIXING, TS_APPROVAL_REQUIRED, TS_RECORDING, TS_DONE, TS_BLOCKED,
      TS_FAILED, TS_CANCELLED]"

interpretation task_status: closed_enum task_status_value all_task_status
proof
  fix k show "k \<in> set all_task_status" by (cases k) (simp_all add: all_task_status_def)
  show "distinct (map task_status_value all_task_status)" by code_simp
qed

datatype work_item_status =
    WS_PENDING | WS_ELIGIBLE | WS_SUBMITTED | WS_RUNNING | WS_COMPLETED | WS_PARTIAL |
    WS_DEGRADED | WS_BLOCKED | WS_FAILED | WS_CANCELLED | WS_SKIPPED

primrec work_item_status_value :: "work_item_status \<Rightarrow> string" where
  "work_item_status_value WS_PENDING = ''pending''"
| "work_item_status_value WS_ELIGIBLE = ''eligible''"
| "work_item_status_value WS_SUBMITTED = ''submitted''"
| "work_item_status_value WS_RUNNING = ''running''"
| "work_item_status_value WS_COMPLETED = ''completed''"
| "work_item_status_value WS_PARTIAL = ''partial''"
| "work_item_status_value WS_DEGRADED = ''degraded''"
| "work_item_status_value WS_BLOCKED = ''blocked''"
| "work_item_status_value WS_FAILED = ''failed''"
| "work_item_status_value WS_CANCELLED = ''cancelled''"
| "work_item_status_value WS_SKIPPED = ''skipped''"

definition all_work_item_status :: "work_item_status list" where
  "all_work_item_status =
     [WS_PENDING, WS_ELIGIBLE, WS_SUBMITTED, WS_RUNNING, WS_COMPLETED, WS_PARTIAL,
      WS_DEGRADED, WS_BLOCKED, WS_FAILED, WS_CANCELLED, WS_SKIPPED]"

interpretation work_item_status: closed_enum work_item_status_value all_work_item_status
proof
  fix k show "k \<in> set all_work_item_status" by (cases k) (simp_all add: all_work_item_status_def)
  show "distinct (map work_item_status_value all_work_item_status)" by code_simp
qed

datatype requirement =
    RQ_REQUIRED | RQ_OPTIONAL | RQ_SOFT

primrec requirement_value :: "requirement \<Rightarrow> string" where
  "requirement_value RQ_REQUIRED = ''required''"
| "requirement_value RQ_OPTIONAL = ''optional''"
| "requirement_value RQ_SOFT = ''soft''"

definition all_requirement :: "requirement list" where
  "all_requirement =
     [RQ_REQUIRED, RQ_OPTIONAL, RQ_SOFT]"

interpretation requirement: closed_enum requirement_value all_requirement
proof
  fix k show "k \<in> set all_requirement" by (cases k) (simp_all add: all_requirement_def)
  show "distinct (map requirement_value all_requirement)" by code_simp
qed

datatype attempt_status =
    AS_CREATED | AS_SUBMITTED | AS_RUNNING | AS_COMPLETED | AS_FAILED | AS_CANCELLED |
    AS_FENCED

primrec attempt_status_value :: "attempt_status \<Rightarrow> string" where
  "attempt_status_value AS_CREATED = ''created''"
| "attempt_status_value AS_SUBMITTED = ''submitted''"
| "attempt_status_value AS_RUNNING = ''running''"
| "attempt_status_value AS_COMPLETED = ''completed''"
| "attempt_status_value AS_FAILED = ''failed''"
| "attempt_status_value AS_CANCELLED = ''cancelled''"
| "attempt_status_value AS_FENCED = ''fenced''"

definition all_attempt_status :: "attempt_status list" where
  "all_attempt_status =
     [AS_CREATED, AS_SUBMITTED, AS_RUNNING, AS_COMPLETED, AS_FAILED, AS_CANCELLED,
      AS_FENCED]"

interpretation attempt_status: closed_enum attempt_status_value all_attempt_status
proof
  fix k show "k \<in> set all_attempt_status" by (cases k) (simp_all add: all_attempt_status_def)
  show "distinct (map attempt_status_value all_attempt_status)" by code_simp
qed

datatype suspension_status =
    SS_WAITING | SS_RESUMED

primrec suspension_status_value :: "suspension_status \<Rightarrow> string" where
  "suspension_status_value SS_WAITING = ''waiting''"
| "suspension_status_value SS_RESUMED = ''resumed''"

definition all_suspension_status :: "suspension_status list" where
  "all_suspension_status =
     [SS_WAITING, SS_RESUMED]"

interpretation suspension_status: closed_enum suspension_status_value all_suspension_status
proof
  fix k show "k \<in> set all_suspension_status" by (cases k) (simp_all add: all_suspension_status_def)
  show "distinct (map suspension_status_value all_suspension_status)" by code_simp
qed

datatype wake_reason =
    WR_DEPENDENCY_READY

primrec wake_reason_value :: "wake_reason \<Rightarrow> string" where
  "wake_reason_value WR_DEPENDENCY_READY = ''dependency_ready''"

definition all_wake_reason :: "wake_reason list" where
  "all_wake_reason =
     [WR_DEPENDENCY_READY]"

interpretation wake_reason: closed_enum wake_reason_value all_wake_reason
proof
  fix k show "k \<in> set all_wake_reason" by (cases k) (simp_all add: all_wake_reason_def)
  show "distinct (map wake_reason_value all_wake_reason)" by code_simp
qed

datatype control_status =
    CS_ACTIVE | CS_INTERRUPTED

primrec control_status_value :: "control_status \<Rightarrow> string" where
  "control_status_value CS_ACTIVE = ''active''"
| "control_status_value CS_INTERRUPTED = ''interrupted''"

definition all_control_status :: "control_status list" where
  "all_control_status =
     [CS_ACTIVE, CS_INTERRUPTED]"

interpretation control_status: closed_enum control_status_value all_control_status
proof
  fix k show "k \<in> set all_control_status" by (cases k) (simp_all add: all_control_status_def)
  show "distinct (map control_status_value all_control_status)" by code_simp
qed

datatype control_reason =
    CR_USER_REQUESTED | CR_RUNTIME_FAILED | CR_POLICY_ENFORCED | CR_SUPERSEDED_BY_REDIRECT

primrec control_reason_value :: "control_reason \<Rightarrow> string" where
  "control_reason_value CR_USER_REQUESTED = ''user_requested''"
| "control_reason_value CR_RUNTIME_FAILED = ''runtime_failed''"
| "control_reason_value CR_POLICY_ENFORCED = ''policy_enforced''"
| "control_reason_value CR_SUPERSEDED_BY_REDIRECT = ''superseded_by_redirect''"

definition all_control_reason :: "control_reason list" where
  "all_control_reason =
     [CR_USER_REQUESTED, CR_RUNTIME_FAILED, CR_POLICY_ENFORCED, CR_SUPERSEDED_BY_REDIRECT]"

interpretation control_reason: closed_enum control_reason_value all_control_reason
proof
  fix k show "k \<in> set all_control_reason" by (cases k) (simp_all add: all_control_reason_def)
  show "distinct (map control_reason_value all_control_reason)" by code_simp
qed

datatype cancellation_scope =
    SC_TASK | SC_WORK_ITEM | SC_ATTEMPT

primrec cancellation_scope_value :: "cancellation_scope \<Rightarrow> string" where
  "cancellation_scope_value SC_TASK = ''task''"
| "cancellation_scope_value SC_WORK_ITEM = ''work_item''"
| "cancellation_scope_value SC_ATTEMPT = ''attempt''"

definition all_cancellation_scope :: "cancellation_scope list" where
  "all_cancellation_scope =
     [SC_TASK, SC_WORK_ITEM, SC_ATTEMPT]"

interpretation cancellation_scope: closed_enum cancellation_scope_value all_cancellation_scope
proof
  fix k show "k \<in> set all_cancellation_scope" by (cases k) (simp_all add: all_cancellation_scope_def)
  show "distinct (map cancellation_scope_value all_cancellation_scope)" by code_simp
qed

datatype event_kind =
    EK_ROUTING_VALIDATION_STARTED | EK_ROUTING_VALIDATION_PASSED | EK_DISPATCH_ACCEPTED |
    EK_WORK_COMPLETED | EK_VERIFICATION_PASSED | EK_VERIFICATION_FAILED |
    EK_REVIEW_PASSED | EK_REVIEW_REJECTED | EK_APPROVAL_REQUIRED_RAISED |
    EK_FIX_DISPATCH_REQUESTED | EK_APPROVAL_GRANTED | EK_APPROVAL_DENIED |
    EK_RECORDING_COMPLETED | EK_TASK_BLOCKED | EK_BLOCKED_RECOVERY_TO_FIXING |
    EK_TASK_FAILED | EK_TASK_CANCELLED | EK_WORK_ITEM_ELIGIBLE | EK_ATTEMPT_CREATED |
    EK_ATTEMPT_COMPLETED | EK_ATTEMPT_FENCED | EK_ATTEMPT_SUBMITTED | EK_ATTEMPT_RUNNING |
    EK_ATTEMPT_FAILED | EK_ATTEMPT_CANCELLED | EK_WORK_ITEM_PARTIAL |
    EK_WORK_ITEM_DEGRADED | EK_WORK_ITEM_BLOCKED | EK_WORK_ITEM_FAILED |
    EK_WORK_ITEM_CANCELLED | EK_WORK_ITEM_SKIPPED | EK_SUSPENSION_STARTED |
    EK_WAKE_ACCEPTED | EK_INTERRUPT_REQUESTED | EK_INTERRUPT_RESUMED |
    EK_REDIRECT_AUTHORIZED

primrec event_kind_value :: "event_kind \<Rightarrow> string" where
  "event_kind_value EK_ROUTING_VALIDATION_STARTED = ''routing_validation_started''"
| "event_kind_value EK_ROUTING_VALIDATION_PASSED = ''routing_validation_passed''"
| "event_kind_value EK_DISPATCH_ACCEPTED = ''dispatch_accepted''"
| "event_kind_value EK_WORK_COMPLETED = ''work_completed''"
| "event_kind_value EK_VERIFICATION_PASSED = ''verification_passed''"
| "event_kind_value EK_VERIFICATION_FAILED = ''verification_failed''"
| "event_kind_value EK_REVIEW_PASSED = ''review_passed''"
| "event_kind_value EK_REVIEW_REJECTED = ''review_rejected''"
| "event_kind_value EK_APPROVAL_REQUIRED_RAISED = ''approval_required_raised''"
| "event_kind_value EK_FIX_DISPATCH_REQUESTED = ''fix_dispatch_requested''"
| "event_kind_value EK_APPROVAL_GRANTED = ''approval_granted''"
| "event_kind_value EK_APPROVAL_DENIED = ''approval_denied''"
| "event_kind_value EK_RECORDING_COMPLETED = ''recording_completed''"
| "event_kind_value EK_TASK_BLOCKED = ''task_blocked''"
| "event_kind_value EK_BLOCKED_RECOVERY_TO_FIXING = ''blocked_recovery_to_fixing''"
| "event_kind_value EK_TASK_FAILED = ''task_failed''"
| "event_kind_value EK_TASK_CANCELLED = ''task_cancelled''"
| "event_kind_value EK_WORK_ITEM_ELIGIBLE = ''work_item_eligible''"
| "event_kind_value EK_ATTEMPT_CREATED = ''attempt_created''"
| "event_kind_value EK_ATTEMPT_COMPLETED = ''attempt_completed''"
| "event_kind_value EK_ATTEMPT_FENCED = ''attempt_fenced''"
| "event_kind_value EK_ATTEMPT_SUBMITTED = ''attempt_submitted''"
| "event_kind_value EK_ATTEMPT_RUNNING = ''attempt_running''"
| "event_kind_value EK_ATTEMPT_FAILED = ''attempt_failed''"
| "event_kind_value EK_ATTEMPT_CANCELLED = ''attempt_cancelled''"
| "event_kind_value EK_WORK_ITEM_PARTIAL = ''work_item_partial''"
| "event_kind_value EK_WORK_ITEM_DEGRADED = ''work_item_degraded''"
| "event_kind_value EK_WORK_ITEM_BLOCKED = ''work_item_blocked''"
| "event_kind_value EK_WORK_ITEM_FAILED = ''work_item_failed''"
| "event_kind_value EK_WORK_ITEM_CANCELLED = ''work_item_cancelled''"
| "event_kind_value EK_WORK_ITEM_SKIPPED = ''work_item_skipped''"
| "event_kind_value EK_SUSPENSION_STARTED = ''suspension_started''"
| "event_kind_value EK_WAKE_ACCEPTED = ''wake_accepted''"
| "event_kind_value EK_INTERRUPT_REQUESTED = ''interrupt_requested''"
| "event_kind_value EK_INTERRUPT_RESUMED = ''interrupt_resumed''"
| "event_kind_value EK_REDIRECT_AUTHORIZED = ''redirect_authorized''"

definition all_event_kind :: "event_kind list" where
  "all_event_kind =
     [EK_ROUTING_VALIDATION_STARTED, EK_ROUTING_VALIDATION_PASSED, EK_DISPATCH_ACCEPTED,
      EK_WORK_COMPLETED, EK_VERIFICATION_PASSED, EK_VERIFICATION_FAILED, EK_REVIEW_PASSED,
      EK_REVIEW_REJECTED, EK_APPROVAL_REQUIRED_RAISED, EK_FIX_DISPATCH_REQUESTED,
      EK_APPROVAL_GRANTED, EK_APPROVAL_DENIED, EK_RECORDING_COMPLETED, EK_TASK_BLOCKED,
      EK_BLOCKED_RECOVERY_TO_FIXING, EK_TASK_FAILED, EK_TASK_CANCELLED,
      EK_WORK_ITEM_ELIGIBLE, EK_ATTEMPT_CREATED, EK_ATTEMPT_COMPLETED, EK_ATTEMPT_FENCED,
      EK_ATTEMPT_SUBMITTED, EK_ATTEMPT_RUNNING, EK_ATTEMPT_FAILED, EK_ATTEMPT_CANCELLED,
      EK_WORK_ITEM_PARTIAL, EK_WORK_ITEM_DEGRADED, EK_WORK_ITEM_BLOCKED,
      EK_WORK_ITEM_FAILED, EK_WORK_ITEM_CANCELLED, EK_WORK_ITEM_SKIPPED,
      EK_SUSPENSION_STARTED, EK_WAKE_ACCEPTED, EK_INTERRUPT_REQUESTED,
      EK_INTERRUPT_RESUMED, EK_REDIRECT_AUTHORIZED]"

interpretation event_kind: closed_enum event_kind_value all_event_kind
proof
  fix k show "k \<in> set all_event_kind" by (cases k) (simp_all add: all_event_kind_def)
  show "distinct (map event_kind_value all_event_kind)" by code_simp
qed

section \<open>Dataclasses\<close>

record identity =
  id_kind :: identity_kind
  id_value :: string

definition Identity :: "identity_kind \<Rightarrow> string \<Rightarrow> identity" where
  "Identity k v = \<lparr>id_kind = k, id_value = v\<rparr>"

text \<open>\<^verbatim>\<open>Identity.__post_init__\<close>: construction with an empty value raises.\<close>

definition make_identity :: "identity_kind \<Rightarrow> string \<Rightarrow> identity res" where
  "make_identity k v =
     (if v = [] then Inl (ValueError ''identity value must be a non-empty string'')
      else Inr (Identity k v))"

record evidence =
  evd_id :: identity
  evd_digest :: string

record dependency =
  dep_item :: identity
  dep_requirement :: requirement

record attempt =
  at_task :: identity
  at_item :: identity
  at_id :: identity
  at_dispatch :: identity
  at_generation :: int
  at_status :: attempt_status

record work_item =
  wi_task :: identity
  wi_id :: identity
  wi_requirement :: requirement
  wi_status :: work_item_status
  wi_deps :: "dependency list"
  wi_attempt :: "attempt option"

record suspension =
  su_task :: identity
  su_id :: identity
  su_epoch :: int
  su_status :: suspension_status
  su_policy :: identity
  su_policy_digest :: string
  su_required :: "identity list"
  su_wake :: "identity option"
  su_reason :: "wake_reason option"

record control_state =
  ct_version :: int
  ct_status :: control_status
  ct_interrupt :: "identity option"

record event =
  ev_id :: identity
  ev_installation :: identity
  ev_leader_epoch :: int
  ev_task :: identity
  ev_kind :: "event_kind open_enum"
  ev_expected_revision :: int
  ev_item :: "identity option"
  ev_attempt :: "identity option"
  ev_dispatch :: "identity option"
  ev_generation :: "int option"
  ev_suspension :: "identity option"
  ev_epoch :: "int option"
  ev_policy :: "identity option"
  ev_policy_digest :: "string option"
  ev_required :: "identity list"
  ev_wake :: "identity option"
  ev_wake_reason :: "wake_reason open_enum option"
  ev_principal :: "identity option"
  ev_authority :: "identity option"
  ev_control_reason :: "control_reason open_enum option"
  ev_scope :: "cancellation_scope open_enum option"
  ev_interrupt :: "identity option"
  ev_redirect :: "identity option"
  ev_version :: "int option"
  ev_next_version :: "int option"
  ev_superseded :: "identity list"

record accepted_event =
  ae_event :: identity
  ae_result :: identity
  ae_input_digest :: string
  ae_result_digest :: string

record state =
  st_protocol_version :: string
  st_installation :: identity
  st_leader_epoch :: int
  st_task :: identity
  st_revision :: int
  st_status :: "task_status open_enum"
  st_accepted :: "accepted_event list"
  st_items :: "work_item list"
  st_suspension :: "suspension option"
  st_control :: "control_state option"

record accepted =
  ac_result :: identity
  ac_state :: state
  ac_input_digest :: string
  ac_result_digest :: string
  ac_obligations :: "string list"
  ac_facts :: "string list"

record no_op =
  no_state :: state
  no_input_digest :: string
  no_prior_result :: identity
  no_prior_digest :: string

record rejected =
  rj_state :: state
  rj_input_digest :: string
  rj_error_code :: string
  rj_prior_result :: "identity option"
  rj_prior_digest :: "string option"

text \<open>
  \<^verbatim>\<open>Result\<close> holds exactly one of three optional payloads; its \<^verbatim>\<open>__post_init__\<close> refuses every other
  combination. The model is the tagged union, and \<open>make_result\<close> is the constructor with its test.
\<close>

datatype result = Accepted accepted | NoOp no_op | Rejected rejected

definition make_result :: "accepted option \<Rightarrow> no_op option \<Rightarrow> rejected option \<Rightarrow> result res" where
  "make_result a n r =
     (case (a, n, r) of
        (Some x, None, None) \<Rightarrow> Inr (Accepted x)
      | (None, Some x, None) \<Rightarrow> Inr (NoOp x)
      | (None, None, Some x) \<Rightarrow> Inr (Rejected x)
      | _ \<Rightarrow> Inl (ValueError ''Result must contain exactly one variant''))"

datatype result_variant = RV_ACCEPTED | RV_NO_OP | RV_REJECTED

fun variant :: "result \<Rightarrow> result_variant" where
  "variant (Accepted _) = RV_ACCEPTED"
| "variant (NoOp _) = RV_NO_OP"
| "variant (Rejected _) = RV_REJECTED"

fun result_state :: "result \<Rightarrow> state" where
  "result_state (Accepted a) = ac_state a"
| "result_state (NoOp n) = no_state n"
| "result_state (Rejected r) = rj_state r"

section \<open>Canonical projections\<close>

definition opt_entry :: "string \<Rightarrow> ('a \<Rightarrow> json) \<Rightarrow> 'a option \<Rightarrow> (string \<times> json) list" where
  "opt_entry k f x = (case x of None \<Rightarrow> [] | Some v \<Rightarrow> [(k, f v)])"

definition list_entry :: "string \<Rightarrow> ('a \<Rightarrow> json) \<Rightarrow> 'a list \<Rightarrow> (string \<times> json) list" where
  "list_entry k f xs = (if xs = [] then [] else [(k, JArr (map f xs))])"

definition identity_json :: "identity \<Rightarrow> json" where
  "identity_json i =
     JObj [(''kind'', JStr (identity_kind_value (id_kind i))), (''value'', JStr (id_value i))]"

definition evidence_json :: "evidence \<Rightarrow> json" where
  "evidence_json e =
     JObj [(''schema_version'', JStr ''valp-kernel-evidence.v1''),
           (''evidence_id'', identity_json (evd_id e)),
           (''content_digest'', JStr (evd_digest e))]"

definition dependency_json :: "dependency \<Rightarrow> json" where
  "dependency_json d =
     JObj [(''work_item_id'', identity_json (dep_item d)),
           (''requirement'', JStr (requirement_value (dep_requirement d)))]"

definition attempt_json :: "attempt \<Rightarrow> json" where
  "attempt_json a =
     JObj [(''task_id'', identity_json (at_task a)),
           (''work_item_id'', identity_json (at_item a)),
           (''attempt_id'', identity_json (at_id a)),
           (''dispatch_id'', identity_json (at_dispatch a)),
           (''dispatch_generation'', JInt (at_generation a)),
           (''status'', JStr (attempt_status_value (at_status a)))]"

definition work_item_json :: "work_item \<Rightarrow> json" where
  "work_item_json w =
     JObj [(''task_id'', identity_json (wi_task w)),
           (''work_item_id'', identity_json (wi_id w)),
           (''requirement'', JStr (requirement_value (wi_requirement w))),
           (''status'', JStr (work_item_status_value (wi_status w))),
           (''dependencies'', JArr (map dependency_json (wi_deps w))),
           (''current_attempt'',
              (case wi_attempt w of None \<Rightarrow> JNull | Some a \<Rightarrow> attempt_json a))]"

definition suspension_json :: "suspension \<Rightarrow> json" where
  "suspension_json s =
     JObj ([(''task_id'', identity_json (su_task s)),
            (''suspension_id'', identity_json (su_id s)),
            (''suspension_epoch'', JInt (su_epoch s)),
            (''status'', JStr (suspension_status_value (su_status s))),
            (''wait_policy_id'', identity_json (su_policy s)),
            (''wait_policy_digest'', JStr (su_policy_digest s)),
            (''required_work_item_ids'', JArr (map identity_json (su_required s)))]
           @ opt_entry ''accepted_wake_id'' identity_json (su_wake s)
           @ opt_entry ''wake_reason'' (\<lambda>r. JStr (wake_reason_value r)) (su_reason s))"

definition control_json :: "control_state \<Rightarrow> json" where
  "control_json c =
     JObj ([(''intent_version'', JInt (ct_version c)),
            (''status'', JStr (control_status_value (ct_status c)))]
           @ opt_entry ''active_interrupt_id'' identity_json (ct_interrupt c))"

definition event_json :: "event \<Rightarrow> json" where
  "event_json e =
     JObj ([(''schema_version'', JStr ''valp-kernel-event.v1''),
            (''event_id'', identity_json (ev_id e)),
            (''installation_id'', identity_json (ev_installation e)),
            (''leader_epoch'', JInt (ev_leader_epoch e)),
            (''task_id'', identity_json (ev_task e)),
            (''kind'', JStr (enum_text event_kind_value (ev_kind e))),
            (''expected_revision'', JInt (ev_expected_revision e))]
           @ opt_entry ''work_item_id'' identity_json (ev_item e)
           @ opt_entry ''attempt_id'' identity_json (ev_attempt e)
           @ opt_entry ''dispatch_id'' identity_json (ev_dispatch e)
           @ opt_entry ''suspension_id'' identity_json (ev_suspension e)
           @ opt_entry ''wait_policy_id'' identity_json (ev_policy e)
           @ opt_entry ''wake_id'' identity_json (ev_wake e)
           @ opt_entry ''authority_principal_id'' identity_json (ev_principal e)
           @ opt_entry ''authority_evidence_id'' identity_json (ev_authority e)
           @ opt_entry ''interrupt_id'' identity_json (ev_interrupt e)
           @ opt_entry ''redirect_id'' identity_json (ev_redirect e)
           @ opt_entry ''dispatch_generation'' JInt (ev_generation e)
           @ opt_entry ''suspension_epoch'' JInt (ev_epoch e)
           @ opt_entry ''wait_policy_digest'' JStr (ev_policy_digest e)
           @ list_entry ''required_work_item_ids'' identity_json (ev_required e)
           @ opt_entry ''wake_reason'' (\<lambda>r. JStr (enum_text wake_reason_value r)) (ev_wake_reason e)
           @ opt_entry ''control_reason'' (\<lambda>r. JStr (enum_text control_reason_value r))
               (ev_control_reason e)
           @ opt_entry ''cancellation_scope'' (\<lambda>r. JStr (enum_text cancellation_scope_value r))
               (ev_scope e)
           @ opt_entry ''intent_version'' JInt (ev_version e)
           @ opt_entry ''next_intent_version'' JInt (ev_next_version e)
           @ list_entry ''superseded_work_item_ids'' identity_json (ev_superseded e))"

definition accepted_event_json :: "accepted_event \<Rightarrow> json" where
  "accepted_event_json a =
     JObj [(''event_id'', identity_json (ae_event a)),
           (''result_id'', identity_json (ae_result a)),
           (''input_digest'', JStr (ae_input_digest a)),
           (''result_digest'', JStr (ae_result_digest a))]"

definition state_json :: "state \<Rightarrow> json" where
  "state_json s =
     JObj ([(''schema_version'', JStr ''valp-kernel-state.v1''),
            (''protocol_version'', JStr (st_protocol_version s)),
            (''installation_id'', identity_json (st_installation s)),
            (''leader_epoch'', JInt (st_leader_epoch s)),
            (''task_id'', identity_json (st_task s)),
            (''revision'', JInt (st_revision s)),
            (''status'', JStr (enum_text task_status_value (st_status s))),
            (''accepted_events'', JArr (map accepted_event_json (st_accepted s)))]
           @ list_entry ''work_items'' work_item_json (st_items s)
           @ opt_entry ''suspension'' suspension_json (st_suspension s)
           @ opt_entry ''control'' control_json (st_control s))"

definition accepted_json :: "accepted \<Rightarrow> json" where
  "accepted_json a =
     JObj [(''schema_version'', JStr ''valp-kernel-result.v1''),
           (''variant'', JStr ''accepted''),
           (''result_id'', identity_json (ac_result a)),
           (''state'', state_json (ac_state a)),
           (''input_digest'', JStr (ac_input_digest a)),
           (''result_digest'', JStr (ac_result_digest a)),
           (''obligations'', JArr (map JStr (ac_obligations a))),
           (''audit_facts'', JArr (map JStr (ac_facts a)))]"

definition no_op_json :: "no_op \<Rightarrow> json" where
  "no_op_json n =
     JObj [(''schema_version'', JStr ''valp-kernel-result.v1''),
           (''variant'', JStr ''no_op''),
           (''state'', state_json (no_state n)),
           (''input_digest'', JStr (no_input_digest n)),
           (''prior_result_id'', identity_json (no_prior_result n)),
           (''prior_result_digest'', JStr (no_prior_digest n))]"

definition rejected_json :: "rejected \<Rightarrow> json" where
  "rejected_json r =
     JObj ([(''schema_version'', JStr ''valp-kernel-result.v1''),
            (''variant'', JStr ''rejected''),
            (''state'', state_json (rj_state r)),
            (''input_digest'', JStr (rj_input_digest r)),
            (''error_code'', JStr (rj_error_code r))]
           @ opt_entry ''prior_result_id'' identity_json (rj_prior_result r)
           @ opt_entry ''prior_result_digest'' JStr (rj_prior_digest r))"

fun result_json :: "result \<Rightarrow> json" where
  "result_json (Accepted a) = accepted_json a"
| "result_json (NoOp n) = no_op_json n"
| "result_json (Rejected r) = rejected_json r"

end
