(* ===== verification/Kernel_Canonical.thy ===== *)
theory Kernel_Canonical
  imports Kernel_Types
begin

text \<open>
  The \<^verbatim>\<open>canonical()\<close> projections are injective, so equal canonical texts mean equal objects.
  The one proviso concerns fields that admit a raw string besides an enum member: there the
  text does not tell a member from the raw string with the same spelling, so the statement
  asks for members, which is what every validity test of the program asks for first.
\<close>

section \<open>Objects with fixed keys\<close>

definition fresh :: "string \<Rightarrow> (string \<times> json) list \<Rightarrow> bool" where
  "fresh k kvs \<longleftrightarrow> k \<notin> fst ` set kvs"

lemma fresh_simps [simp]:
  "fresh k []"
  "fresh k ((k', v) # kvs) \<longleftrightarrow> k \<noteq> k' \<and> fresh k kvs"
  "fresh k (xs @ ys) \<longleftrightarrow> fresh k xs \<and> fresh k ys"
  by (auto simp: fresh_def)

lemma fresh_opt_entry: "k \<noteq> k' \<Longrightarrow> fresh k (opt_entry k' f x)"
  by (cases x) (simp_all add: opt_entry_def)

lemma fresh_list_entry: "k \<noteq> k' \<Longrightarrow> fresh k (list_entry k' f xs)"
  by (simp add: list_entry_def)

lemmas fresh_entries [simp] = fresh_opt_entry fresh_list_entry

lemma json_eq_atoms [simp]:
  "json_eq (JStr a) (JStr b) \<longleftrightarrow> a = b"
  "json_eq (JInt i) (JInt j) \<longleftrightarrow> i = j"
  "json_eq (JObj []) (JObj [])"
  by (simp_all add: json_eq_def)

lemma filter_insort_key_other:
  "fst x = k \<Longrightarrow> filter (\<lambda>e. fst e \<noteq> k) (insort_key fst x xs) = filter (\<lambda>e. fst e \<noteq> k) xs"
  by (induction xs) auto

lemma filter_fresh:
  assumes "fresh k kvs"
  shows "filter (\<lambda>e. fst e \<noteq> k) (sort_key fst (map (map_prod id norm) kvs)) =
    sort_key fst (map (map_prod id norm) kvs)"
  using assms by (intro filter_True) (auto simp: fresh_def)

lemma json_eq_cons:
  assumes "fresh k xs" and "fresh k ys"
  shows "json_eq (JObj ((k, v) # xs)) (JObj ((k, w) # ys)) \<longleftrightarrow>
    json_eq v w \<and> json_eq (JObj xs) (JObj ys)"
proof
  assume L: "json_eq (JObj ((k, v) # xs)) (JObj ((k, w) # ys))"
  have "json_eq v w" by (rule json_eq_field [OF L, of k]) simp_all
  moreover have "json_eq (JObj xs) (JObj ys)"
    using arg_cong [OF L [unfolded json_eq_def norm.simps json.inject], of "filter (\<lambda>e. fst e \<noteq> k)"]
      filter_fresh [OF assms(1)] filter_fresh [OF assms(2)]
    by (simp add: json_eq_def filter_insort_key_other)
  ultimately show "json_eq v w \<and> json_eq (JObj xs) (JObj ys)" ..
next
  assume "json_eq v w \<and> json_eq (JObj xs) (JObj ys)"
  then show "json_eq (JObj ((k, v) # xs)) (JObj ((k, w) # ys))"
    by (simp add: json_eq_def)
qed

lemma json_eq_cons_nil:
  "\<not> json_eq (JObj ((k, v) # xs)) (JObj [])" "\<not> json_eq (JObj []) (JObj ((k, v) # xs))"
  by (auto simp: json_eq_def dest: arg_cong [of _ _ length])

lemma not_json_eq_fresh:
  assumes "fresh k ys"
  shows "\<not> json_eq (JObj ((k, v) # xs)) (JObj ys)" and "\<not> json_eq (JObj ys) (JObj ((k, v) # xs))"
proof -
  have "map_of ys k = None" using assms by (simp add: fresh_def map_of_eq_None_iff)
  then show "\<not> json_eq (JObj ((k, v) # xs)) (JObj ys)" "\<not> json_eq (JObj ys) (JObj ((k, v) # xs))"
    using json_eq_jget [of "JObj ((k, v) # xs)" "JObj ys" k]
      json_eq_jget [of "JObj ys" "JObj ((k, v) # xs)" k] by auto
qed

lemma json_eq_opt_entry:
  assumes "fresh k xs" and "fresh k ys"
  shows "json_eq (JObj (opt_entry k f x @ xs)) (JObj (opt_entry k f y @ ys)) \<longleftrightarrow>
    rel_option (\<lambda>a b. json_eq (f a) (f b)) x y \<and> json_eq (JObj xs) (JObj ys)"
  using assms
  by (cases x; cases y) (simp_all add: opt_entry_def json_eq_cons not_json_eq_fresh)

lemma json_eq_opt_entry_last:
  "json_eq (JObj (opt_entry k f x)) (JObj (opt_entry k f y)) \<longleftrightarrow>
    rel_option (\<lambda>a b. json_eq (f a) (f b)) x y"
  using json_eq_opt_entry [of k "[]" "[]" f x y] by simp

lemma json_eq_list_entry:
  assumes "fresh k xs" and "fresh k ys"
  shows "json_eq (JObj (list_entry k f x @ xs)) (JObj (list_entry k f y @ ys)) \<longleftrightarrow>
    list_all2 (\<lambda>a b. json_eq (f a) (f b)) x y \<and> json_eq (JObj xs) (JObj ys)"
  using assms
  by (cases x; cases y)
    (simp_all add: list_entry_def json_eq_cons not_json_eq_fresh json_eq_JArr_iff list.rel_map)

lemma json_eq_list_entry_last:
  "json_eq (JObj (list_entry k f x)) (JObj (list_entry k f y)) \<longleftrightarrow>
    list_all2 (\<lambda>a b. json_eq (f a) (f b)) x y"
  using json_eq_list_entry [of k "[]" "[]" f x y] by simp

lemmas json_eq_fields =
  json_eq_cons json_eq_opt_entry json_eq_opt_entry_last json_eq_list_entry json_eq_list_entry_last
  json_eq_JArr_iff list.rel_map option.rel_eq list.rel_eq

section \<open>Injectivity\<close>

lemmas enum_value_simps [simp] =
  identity_kind.value_eq_iff task_status.value_eq_iff work_item_status.value_eq_iff
  requirement.value_eq_iff attempt_status.value_eq_iff suspension_status.value_eq_iff
  wake_reason.value_eq_iff control_status.value_eq_iff control_reason.value_eq_iff
  cancellation_scope.value_eq_iff event_kind.value_eq_iff

lemma identity_json_eq_iff [simp]: "json_eq (identity_json i) (identity_json j) \<longleftrightarrow> i = j"
  by (auto simp: identity_json_def json_eq_fields intro: identity.equality)

lemma evidence_json_eq_iff [simp]: "json_eq (evidence_json a) (evidence_json b) \<longleftrightarrow> a = b"
  by (auto simp: evidence_json_def json_eq_fields intro: evidence.equality)

lemma dependency_json_eq_iff [simp]: "json_eq (dependency_json a) (dependency_json b) \<longleftrightarrow> a = b"
  by (auto simp: dependency_json_def json_eq_fields intro: dependency.equality)

lemma attempt_json_eq_iff [simp]: "json_eq (attempt_json a) (attempt_json b) \<longleftrightarrow> a = b"
  by (auto simp: attempt_json_def json_eq_fields intro: attempt.equality)

lemma attempt_json_not_null [simp]:
  "\<not> json_eq (attempt_json a) JNull" "\<not> json_eq JNull (attempt_json a)"
  by (simp_all add: json_eq_def attempt_json_def)

lemma work_item_json_eq_iff [simp]: "json_eq (work_item_json a) (work_item_json b) \<longleftrightarrow> a = b"
  by (auto simp: work_item_json_def json_eq_fields intro: work_item.equality split: option.splits)

lemma suspension_json_eq_iff [simp]: "json_eq (suspension_json a) (suspension_json b) \<longleftrightarrow> a = b"
  by (auto simp: suspension_json_def json_eq_fields intro: suspension.equality)

lemma control_json_eq_iff [simp]: "json_eq (control_json a) (control_json b) \<longleftrightarrow> a = b"
  by (auto simp: control_json_def json_eq_fields intro: control_state.equality)

lemma accepted_event_json_eq_iff [simp]:
  "json_eq (accepted_event_json a) (accepted_event_json b) \<longleftrightarrow> a = b"
  by (auto simp: accepted_event_json_def json_eq_fields intro: accepted_event.equality)

text \<open>Members only: the events and states whose open fields all hold enum members.\<close>

definition event_closed :: "event \<Rightarrow> bool" where
  "event_closed e \<longleftrightarrow> is_closed (ev_kind e) \<and> opt_closed (ev_wake_reason e) \<and>
     opt_closed (ev_control_reason e) \<and> opt_closed (ev_scope e)"

definition state_closed :: "state \<Rightarrow> bool" where
  "state_closed s \<longleftrightarrow> is_closed (st_status s)"

lemma enum_text_eqD:
  assumes "enum_text f a = enum_text f b" and "is_closed a" and "is_closed b"
    and "\<And>x y. f x = f y \<Longrightarrow> x = y"
  shows "a = b"
  using assms by (cases a; cases b) auto

lemma rel_option_enum_text:
  assumes "rel_option (\<lambda>a b. enum_text f a = enum_text f b) x y" and "opt_closed x" and "opt_closed y"
    and "\<And>u v. f u = f v \<Longrightarrow> u = v"
  shows "x = y"
  using assms by (cases x; cases y) (auto dest: enum_text_eqD)

text \<open>What equal texts say, field by field; the open fields agree in their spelling.\<close>

lemma event_json_eqD:
  assumes "json_eq (event_json a) (event_json b)"
  shows "a\<lparr>ev_kind := k, ev_wake_reason := w, ev_control_reason := c, ev_scope := s\<rparr> =
      b\<lparr>ev_kind := k, ev_wake_reason := w, ev_control_reason := c, ev_scope := s\<rparr>"
    and "enum_text event_kind_value (ev_kind a) = enum_text event_kind_value (ev_kind b)"
    and "rel_option (\<lambda>x y. enum_text wake_reason_value x = enum_text wake_reason_value y)
      (ev_wake_reason a) (ev_wake_reason b)"
    and "rel_option (\<lambda>x y. enum_text control_reason_value x = enum_text control_reason_value y)
      (ev_control_reason a) (ev_control_reason b)"
    and "rel_option (\<lambda>x y. enum_text cancellation_scope_value x = enum_text cancellation_scope_value y)
      (ev_scope a) (ev_scope b)"
  using assms unfolding event_json_def
  by (simp_all add: json_eq_fields)

lemma event_json_inj:
  assumes "json_eq (event_json a) (event_json b)" and "event_closed a" and "event_closed b"
  shows "a = b"
proof -
  note eqs = event_json_eqD [OF assms(1)] and cl = assms(2,3) [unfolded event_closed_def]
  have "ev_kind a = ev_kind b" "ev_wake_reason a = ev_wake_reason b"
    "ev_control_reason a = ev_control_reason b" "ev_scope a = ev_scope b"
    using enum_text_eqD [OF eqs(2)] rel_option_enum_text [OF eqs(3)]
      rel_option_enum_text [OF eqs(4)] rel_option_enum_text [OF eqs(5)] cl by simp_all
  with eqs(1) show ?thesis by (cases a; cases b) simp
qed

lemma state_json_eqD:
  assumes "json_eq (state_json a) (state_json b)"
  shows "a\<lparr>st_status := x\<rparr> = b\<lparr>st_status := x\<rparr>"
    and "enum_text task_status_value (st_status a) = enum_text task_status_value (st_status b)"
  using assms unfolding state_json_def
  by (auto simp: json_eq_fields intro: state.equality)

lemma state_json_inj:
  assumes "json_eq (state_json a) (state_json b)" and "state_closed a" and "state_closed b"
  shows "a = b"
proof -
  note eqs = state_json_eqD [OF assms(1)]
  have "st_status a = st_status b"
    using enum_text_eqD [OF eqs(2)] assms(2,3) by (simp add: state_closed_def)
  with eqs(1) show ?thesis by (cases a; cases b) simp
qed

lemma accepted_json_inj:
  assumes "json_eq (accepted_json a) (accepted_json b)"
    and "state_closed (ac_state a)" and "state_closed (ac_state b)"
  shows "a = b"
proof -
  have "json_eq (state_json (ac_state a)) (state_json (ac_state b))"
    by (rule json_eq_field [OF assms(1), of "''state''"]) (simp_all add: accepted_json_def)
  then have "ac_state a = ac_state b" using assms(2,3) by (rule state_json_inj)
  with assms(1) show ?thesis
    by (intro accepted.equality) (simp_all add: accepted_json_def json_eq_fields)
qed

text \<open>An accepted result is told apart from the other two variants by its text alone.\<close>

lemma result_json_variant:
  assumes "json_eq (result_json r) (accepted_json a)"
  shows "\<exists>b. r = Accepted b"
proof -
  from json_eq_jget [OF assms, of "''variant''"] show ?thesis
    by (cases r) (simp_all add: accepted_json_def no_op_json_def rejected_json_def)
qed

end
