(* ===== verification/Kernel_Valid.thy ===== *)
theory Kernel_Valid
  imports Kernel_Canonical
begin

text \<open>
  The structural validity predicates of \<^verbatim>\<open>src/valp_cli/protocol_kernel.py\<close> (\<^verbatim>\<open>_state_is_valid\<close>,
  \<^verbatim>\<open>_event_is_valid\<close> and the predicates they call), the closed task transition table, and the
  helpers of the reducer that compute without changing the state: authority, staleness,
  eligibility, cancellation of one work item, and the two digests.
\<close>

definition PROTOCOL_VERSION :: string where
  "PROTOCOL_VERSION = ''0.3.0''"

definition UNKNOWN_ENUM_ERROR :: string where
  "UNKNOWN_ENUM_ERROR = ''VALP-E-UNKNOWN-ENUM-VALUE''"

definition STATE_CONFLICT_ERROR :: string where
  "STATE_CONFLICT_ERROR = ''VALP-E-STATE-CONFLICT''"

definition IDEMPOTENCY_CONFLICT_ERROR :: string where
  "IDEMPOTENCY_CONFLICT_ERROR = ''VALP-E-IDEMPOTENCY-CONFLICT''"

section \<open>The task transition table\<close>

definition terminal_task :: "task_status list" where
  "terminal_task = [TS_DONE, TS_FAILED, TS_CANCELLED]"

definition KERNEL_TASK_TRANSITIONS :: "((task_status \<times> event_kind) \<times> task_status) list" where
  "KERNEL_TASK_TRANSITIONS =
     [((TS_PUBLISHED, EK_ROUTING_VALIDATION_STARTED), TS_ROUTING_VALIDATION),
      ((TS_ROUTING_VALIDATION, EK_ROUTING_VALIDATION_PASSED), TS_DISPATCHING),
      ((TS_DISPATCHING, EK_DISPATCH_ACCEPTED), TS_EXECUTING),
      ((TS_EXECUTING, EK_WORK_COMPLETED), TS_VERIFYING),
      ((TS_VERIFYING, EK_VERIFICATION_PASSED), TS_REVIEWING),
      ((TS_VERIFYING, EK_VERIFICATION_FAILED), TS_FIXING),
      ((TS_REVIEWING, EK_REVIEW_PASSED), TS_RECORDING),
      ((TS_REVIEWING, EK_REVIEW_REJECTED), TS_FIXING),
      ((TS_REVIEWING, EK_APPROVAL_REQUIRED_RAISED), TS_APPROVAL_REQUIRED),
      ((TS_FIXING, EK_FIX_DISPATCH_REQUESTED), TS_DISPATCHING),
      ((TS_APPROVAL_REQUIRED, EK_APPROVAL_GRANTED), TS_RECORDING),
      ((TS_APPROVAL_REQUIRED, EK_APPROVAL_DENIED), TS_FIXING),
      ((TS_RECORDING, EK_RECORDING_COMPLETED), TS_DONE),
      ((TS_EXECUTING, EK_TASK_BLOCKED), TS_BLOCKED),
      ((TS_VERIFYING, EK_TASK_BLOCKED), TS_BLOCKED),
      ((TS_REVIEWING, EK_TASK_BLOCKED), TS_BLOCKED),
      ((TS_FIXING, EK_TASK_BLOCKED), TS_BLOCKED),
      ((TS_BLOCKED, EK_BLOCKED_RECOVERY_TO_FIXING), TS_FIXING)]
     @ map (\<lambda>s. ((s, EK_TASK_FAILED), TS_FAILED))
         (filter (\<lambda>s. s \<notin> set terminal_task) all_task_status)
     @ map (\<lambda>s. ((s, EK_TASK_CANCELLED), TS_CANCELLED))
         (filter (\<lambda>s. s \<notin> set terminal_task) all_task_status)"

definition task_transition :: "task_status \<Rightarrow> event_kind \<Rightarrow> task_status option" where
  "task_transition s k = map_of KERNEL_TASK_TRANSITIONS (s, k)"

section \<open>Structural validity\<close>

definition has_identity_kind :: "identity \<Rightarrow> identity_kind \<Rightarrow> bool" where
  "has_identity_kind i k \<longleftrightarrow> id_kind i = k"

definition opt_has_kind :: "identity option \<Rightarrow> identity_kind \<Rightarrow> bool" where
  "opt_has_kind x k = (case x of None \<Rightarrow> False | Some i \<Rightarrow> has_identity_kind i k)"

lemma opt_has_kind_iff: "opt_has_kind x k \<longleftrightarrow> (\<exists>i. x = Some i \<and> has_identity_kind i k)"
  by (cases x) (simp_all add: opt_has_kind_def)

definition accepted_event_is_valid :: "accepted_event \<Rightarrow> bool" where
  "accepted_event_is_valid a \<longleftrightarrow>
     has_identity_kind (ae_event a) IK_EVENT \<and> has_identity_kind (ae_result a) IK_RESULT \<and>
     is_digest (ae_input_digest a) \<and> is_digest (ae_result_digest a)"

definition attempt_is_valid :: "attempt \<Rightarrow> bool" where
  "attempt_is_valid a \<longleftrightarrow>
     has_identity_kind (at_task a) IK_TASK \<and> has_identity_kind (at_item a) IK_WORK_ITEM \<and>
     has_identity_kind (at_id a) IK_ATTEMPT \<and> has_identity_kind (at_dispatch a) IK_DISPATCH \<and>
     0 \<le> at_generation a"

definition work_item_is_valid :: "work_item \<Rightarrow> identity \<Rightarrow> bool" where
  "work_item_is_valid w task \<longleftrightarrow>
     wi_task w = task \<and> has_identity_kind (wi_id w) IK_WORK_ITEM \<and>
     list_all (\<lambda>d. has_identity_kind (dep_item d) IK_WORK_ITEM \<and> dep_item d \<noteq> wi_id w) (wi_deps w) \<and>
     distinct (map dep_item (wi_deps w)) \<and>
     (case wi_attempt w of
        None \<Rightarrow> True
      | Some a \<Rightarrow> attempt_is_valid a \<and> at_task a = wi_task w \<and> at_item a = wi_id w)"

definition suspension_is_valid :: "suspension \<Rightarrow> state \<Rightarrow> bool" where
  "suspension_is_valid u s \<longleftrightarrow>
     su_task u = st_task s \<and> has_identity_kind (su_id u) IK_SUSPENSION \<and> 0 \<le> su_epoch u \<and>
     has_identity_kind (su_policy u) IK_WAIT_POLICY \<and> is_digest (su_policy_digest u) \<and>
     su_required u \<noteq> [] \<and> distinct (su_required u) \<and>
     list_all (\<lambda>i. has_identity_kind i IK_WORK_ITEM) (su_required u) \<and>
     set (su_required u) \<subseteq> wi_id ` set (st_items s) \<and>
     (if su_status u = SS_WAITING then su_wake u = None \<and> su_reason u = None
      else opt_has_kind (su_wake u) IK_WAKE \<and> su_reason u = Some WR_DEPENDENCY_READY)"

definition control_is_valid :: "control_state \<Rightarrow> bool" where
  "control_is_valid c \<longleftrightarrow>
     0 \<le> ct_version c \<and>
     (if ct_status c = CS_ACTIVE then ct_interrupt c = None
      else opt_has_kind (ct_interrupt c) IK_INTERRUPT)"

definition state_is_valid :: "state \<Rightarrow> bool" where
  "state_is_valid s \<longleftrightarrow>
     st_protocol_version s = PROTOCOL_VERSION \<and>
     has_identity_kind (st_installation s) IK_INSTALLATION \<and>
     has_identity_kind (st_task s) IK_TASK \<and>
     0 \<le> st_leader_epoch s \<and> 0 \<le> st_revision s \<and> is_closed (st_status s) \<and>
     st_revision s = int (length (st_accepted s)) \<and>
     (st_revision s = 0 \<longrightarrow> st_status s = Closed TS_PUBLISHED) \<and>
     list_all accepted_event_is_valid (st_accepted s) \<and>
     list_all (\<lambda>w. work_item_is_valid w (st_task s)) (st_items s) \<and>
     (st_suspension s \<noteq> None \<longrightarrow> st_status s = Closed TS_EXECUTING) \<and>
     opt_all (\<lambda>u. suspension_is_valid u s) (st_suspension s) \<and>
     opt_all control_is_valid (st_control s) \<and>
     distinct (map ae_event (st_accepted s)) \<and>
     distinct (map ae_result (st_accepted s)) \<and>
     distinct (map wi_id (st_items s))"

definition opt_kind_ok :: "identity option \<Rightarrow> identity_kind \<Rightarrow> bool" where
  "opt_kind_ok x k = opt_all (\<lambda>i. has_identity_kind i k) x"

definition event_is_valid :: "event \<Rightarrow> bool" where
  "event_is_valid e \<longleftrightarrow>
     has_identity_kind (ev_id e) IK_EVENT \<and>
     has_identity_kind (ev_installation e) IK_INSTALLATION \<and>
     has_identity_kind (ev_task e) IK_TASK \<and>
     0 \<le> ev_leader_epoch e \<and> 0 \<le> ev_expected_revision e \<and> is_closed (ev_kind e) \<and>
     opt_kind_ok (ev_item e) IK_WORK_ITEM \<and> opt_kind_ok (ev_attempt e) IK_ATTEMPT \<and>
     opt_kind_ok (ev_dispatch e) IK_DISPATCH \<and> opt_all (\<lambda>g. 0 \<le> g) (ev_generation e) \<and>
     opt_kind_ok (ev_suspension e) IK_SUSPENSION \<and> opt_all (\<lambda>g. 0 \<le> g) (ev_epoch e) \<and>
     opt_kind_ok (ev_policy e) IK_WAIT_POLICY \<and> opt_all is_digest (ev_policy_digest e) \<and>
     list_all (\<lambda>i. has_identity_kind i IK_WORK_ITEM) (ev_required e) \<and>
     opt_kind_ok (ev_wake e) IK_WAKE \<and> opt_closed (ev_wake_reason e) \<and>
     opt_kind_ok (ev_principal e) IK_PRINCIPAL \<and> opt_kind_ok (ev_authority e) IK_EVIDENCE \<and>
     opt_closed (ev_control_reason e) \<and> opt_closed (ev_scope e) \<and>
     opt_kind_ok (ev_interrupt e) IK_INTERRUPT \<and> opt_kind_ok (ev_redirect e) IK_REDIRECT \<and>
     opt_all (\<lambda>g. 0 \<le> g) (ev_version e) \<and> opt_all (\<lambda>g. 0 \<le> g) (ev_next_version e) \<and>
     list_all (\<lambda>i. has_identity_kind i IK_WORK_ITEM) (ev_superseded e) \<and>
     distinct (ev_superseded e)"

definition evidence_set_is_valid :: "evidence list \<Rightarrow> bool" where
  "evidence_set_is_valid ev \<longleftrightarrow>
     list_all (\<lambda>x. has_identity_kind (evd_id x) IK_EVIDENCE \<and> is_digest (evd_digest x)) ev \<and>
     distinct (map evd_id ev)"

lemmas [valid_defs] =
  has_identity_kind_def opt_kind_ok_def accepted_event_is_valid_def attempt_is_valid_def
  work_item_is_valid_def control_is_valid_def event_is_valid_def evidence_set_is_valid_def

section \<open>Authority, staleness and eligibility\<close>

definition canonical_evidence :: "evidence list \<Rightarrow> json list" where
  "canonical_evidence ev = sort_key canonical_json (map evidence_json ev)"

definition AUTHORITY_BOUND_EVENTS :: "event_kind list" where
  "AUTHORITY_BOUND_EVENTS =
     [EK_TASK_CANCELLED, EK_WORK_ITEM_CANCELLED, EK_ATTEMPT_CANCELLED,
      EK_INTERRUPT_REQUESTED, EK_INTERRUPT_RESUMED, EK_REDIRECT_AUTHORIZED]"

definition authority_is_valid :: "event_kind \<Rightarrow> event \<Rightarrow> evidence list \<Rightarrow> bool" where
  "authority_is_valid k e ev \<longleftrightarrow>
     k \<notin> set AUTHORITY_BOUND_EVENTS \<or>
     (opt_has_kind (ev_principal e) IK_PRINCIPAL \<and> opt_has_kind (ev_authority e) IK_EVIDENCE \<and>
      (case ev_control_reason e of None \<Rightarrow> False | Some r \<Rightarrow> is_closed r) \<and>
      list_ex (\<lambda>x. Some (evd_id x) = ev_authority e) ev)"

lemma authority_is_valid_iff:
  "authority_is_valid k e ev \<longleftrightarrow>
     k \<notin> set AUTHORITY_BOUND_EVENTS \<or>
     (opt_has_kind (ev_principal e) IK_PRINCIPAL \<and> opt_has_kind (ev_authority e) IK_EVIDENCE \<and>
      (\<exists>r. ev_control_reason e = Some (Closed r)) \<and>
      (\<exists>x\<in>set ev. Some (evd_id x) = ev_authority e))"
  by (auto simp: authority_is_valid_def list_ex_iff is_closed_iff split: option.splits)

definition adapter_cancel_obligation :: "attempt \<Rightarrow> string" where
  "adapter_cancel_obligation a =
     ''adapter_cancel:'' @ canonical_json
       (JObj [(''task_id'', JStr (id_value (at_task a))),
              (''work_item_id'', JStr (id_value (at_item a))),
              (''attempt_id'', JStr (id_value (at_id a))),
              (''dispatch_id'', JStr (id_value (at_dispatch a))),
              (''dispatch_generation'', JInt (at_generation a))])"

definition active_attempt :: "attempt_status list" where
  "active_attempt = [AS_CREATED, AS_SUBMITTED, AS_RUNNING]"

definition in_flight :: "attempt_status list" where
  "in_flight = [AS_SUBMITTED, AS_RUNNING]"

definition cancelled_work_item :: "work_item \<Rightarrow> work_item \<times> string list" where
  "cancelled_work_item w =
     (case wi_attempt w of
        None \<Rightarrow> (w\<lparr>wi_status := WS_CANCELLED\<rparr>, [])
      | Some a \<Rightarrow>
          if at_status a \<in> set active_attempt
          then (w\<lparr>wi_status := WS_CANCELLED, wi_attempt := Some (a\<lparr>at_status := AS_CANCELLED\<rparr>)\<rparr>,
                if at_status a \<in> set in_flight then [adapter_cancel_obligation a] else [])
          else (w\<lparr>wi_status := WS_CANCELLED\<rparr>, []))"

definition input_value :: "state \<Rightarrow> event \<Rightarrow> evidence list \<Rightarrow> json" where
  "input_value s e ev =
     JObj [(''protocol_version'', JStr (st_protocol_version s)),
           (''event'', event_json e),
           (''evidence_set'', JArr (canonical_evidence ev))]"

definition input_digest :: "state \<Rightarrow> event \<Rightarrow> evidence list \<Rightarrow> string" where
  "input_digest s e ev = digest (input_value s e ev)"

text \<open>A dictionary comprehension keyed by identity: a later entry overrides an earlier one.\<close>

definition item_lookup :: "work_item list \<Rightarrow> identity \<Rightarrow> work_item option" where
  "item_lookup items i = map_of (rev (map (\<lambda>w. (wi_id w, w)) items)) i"

fun eligible_deps :: "work_item list \<Rightarrow> work_item \<Rightarrow> dependency list \<Rightarrow> string list option" where
  "eligible_deps items w [] = Some []"
| "eligible_deps items w (d # ds) =
     (case item_lookup items (dep_item d) of
        None \<Rightarrow> None
      | Some target \<Rightarrow>
          if dep_requirement d = RQ_REQUIRED
          then (if wi_status target \<noteq> WS_COMPLETED then None else eligible_deps items w ds)
          else if dep_requirement d = RQ_SOFT \<and> wi_status target \<noteq> WS_COMPLETED
          then map_option (\<lambda>facts.
                 (''soft_dependency_unmet:'' @ id_value (wi_id w) @ '':'' @ id_value (wi_id target))
                   # facts) (eligible_deps items w ds)
          else eligible_deps items w ds)"

text \<open>\<^verbatim>\<open>_eligible_work_item\<close>: \<open>None\<close> for \<^verbatim>\<open>(False, ())\<close>, otherwise the audit facts.\<close>

definition eligible_work_item :: "state \<Rightarrow> work_item \<Rightarrow> string list option" where
  "eligible_work_item s w = eligible_deps (st_items s) w (wi_deps w)"

definition ATTEMPT_SCOPED_EVENTS :: "event_kind list" where
  "ATTEMPT_SCOPED_EVENTS =
     [EK_ATTEMPT_CREATED, EK_ATTEMPT_SUBMITTED, EK_ATTEMPT_RUNNING, EK_ATTEMPT_COMPLETED,
      EK_ATTEMPT_FAILED, EK_ATTEMPT_CANCELLED, EK_ATTEMPT_FENCED]"

definition event_tuple :: "event \<Rightarrow> identity option \<times> identity option \<times> int option" where
  "event_tuple e = (ev_attempt e, ev_dispatch e, ev_generation e)"

definition attempt_tuple :: "attempt \<Rightarrow> identity option \<times> identity option \<times> int option" where
  "attempt_tuple a = (Some (at_id a), Some (at_dispatch a), Some (at_generation a))"

definition attempt_event_is_stale :: "state \<Rightarrow> event_kind \<Rightarrow> event \<Rightarrow> bool" where
  "attempt_event_is_stale s k e =
     (if k \<notin> set ATTEMPT_SCOPED_EVENTS then False
      else case List.find (\<lambda>w. Some (wi_id w) = ev_item e) (st_items s) of
        None \<Rightarrow> True
      | Some w \<Rightarrow>
          (case wi_attempt w of
             None \<Rightarrow> k \<noteq> EK_ATTEMPT_CREATED
           | Some a \<Rightarrow>
               if k = EK_ATTEMPT_CREATED
               then (if event_tuple e = attempt_tuple a then False
                     else \<not> (wi_status w = WS_BLOCKED \<and> ev_attempt e \<noteq> Some (at_id a) \<and>
                             (case ev_generation e of None \<Rightarrow> False | Some g \<Rightarrow> at_generation a < g)))
               else event_tuple e \<noteq> attempt_tuple a \<or> at_status a = AS_FENCED))"

section \<open>The digest of an accepted result\<close>

definition accepted_result_digest ::
  "identity \<Rightarrow> identity \<Rightarrow> state \<Rightarrow> state \<Rightarrow> string \<Rightarrow> string list \<Rightarrow> string list \<Rightarrow> string" where
  "accepted_result_digest result_id event_id prior nxt input obligations facts =
     digest (JObj
       [(''variant'', JStr ''accepted''),
        (''result_id'', identity_json result_id),
        (''event_id'', identity_json event_id),
        (''input_digest'', JStr input),
        (''prior_state_digest'', JStr (digest (state_json prior))),
        (''state'',
           (if st_items nxt \<noteq> [] \<or> st_suspension nxt \<noteq> None \<or> st_control nxt \<noteq> None
            then state_json nxt
            else JObj [(''protocol_version'', JStr (st_protocol_version nxt)),
                       (''installation_id'', identity_json (st_installation nxt)),
                       (''leader_epoch'', JInt (st_leader_epoch nxt)),
                       (''task_id'', identity_json (st_task nxt)),
                       (''revision'', JInt (st_revision nxt)),
                       (''status'', JStr (enum_text task_status_value (st_status nxt)))])),
        (''obligations'', JArr (map JStr obligations)),
        (''audit_facts'', JArr (map JStr facts))])"

section \<open>First consequences\<close>

lemma map_of_rev_distinct: "distinct (map fst xs) \<Longrightarrow> map_of (rev xs) = map_of xs"
  by (rule map_of_eqI) (auto simp: rev_map [symmetric])

lemma item_lookup_find:
  assumes "distinct (map wi_id items)"
  shows "item_lookup items i = List.find (\<lambda>w. wi_id w = i) items"
proof -
  have "map_of (rev (map (\<lambda>w. (wi_id w, w)) items)) i = map_of (map (\<lambda>w. (wi_id w, w)) items) i"
    using assms by (simp add: map_of_rev_distinct comp_def)
  also have "\<dots> = List.find (\<lambda>w. wi_id w = i) items"
    by (induction items) auto
  finally show ?thesis by (simp add: item_lookup_def)
qed

lemma task_transition_SomeD:
  "task_transition s k = Some t \<Longrightarrow> ((s, k), t) \<in> set KERNEL_TASK_TRANSITIONS"
  by (auto simp: task_transition_def dest: map_of_SomeD)

lemma transitions_leave_terminal:
  "list_all (\<lambda>x. fst (fst x) \<notin> set terminal_task) KERNEL_TASK_TRANSITIONS"
  by code_simp

lemma task_transition_terminal:
  assumes "s \<in> set terminal_task"
  shows "task_transition s k = None"
proof (rule ccontr)
  assume "task_transition s k \<noteq> None"
  then obtain t where "((s, k), t) \<in> set KERNEL_TASK_TRANSITIONS"
    using task_transition_SomeD by blast
  with transitions_leave_terminal assms show False by (auto simp: list_all_iff)
qed

lemma cancelled_work_item_frame:
  "wi_id (fst (cancelled_work_item w)) = wi_id w"
  "wi_task (fst (cancelled_work_item w)) = wi_task w"
  "wi_deps (fst (cancelled_work_item w)) = wi_deps w"
  "wi_requirement (fst (cancelled_work_item w)) = wi_requirement w"
  "wi_status (fst (cancelled_work_item w)) = WS_CANCELLED"
  by (simp_all add: cancelled_work_item_def split: option.splits)

lemma cancelled_work_item_valid:
  "work_item_is_valid w task \<Longrightarrow> work_item_is_valid (fst (cancelled_work_item w)) task"
  by (auto simp: cancelled_work_item_def work_item_is_valid_def attempt_is_valid_def
      split: option.splits)

end
