(* ===== verification/Kernel_Reduce.thy ===== *)
theory Kernel_Reduce
  imports Kernel_Valid
begin

text \<open>
  \<^verbatim>\<open>reduce(state, event, evidence_set)\<close> of \<^verbatim>\<open>src/valp_cli/protocol_kernel.py\<close>, the pure
  transition function of the kernel. The source is one function whose middle is an
  \<^verbatim>\<open>if/elif\<close> chain over the event kind; here each arm is a definition that returns the local
  variables the arm assigns (\<open>step\<close>), or \<open>None\<close> where the arm returns
  \<^verbatim>\<open>_reject(state, input_digest, STATE_CONFLICT_ERROR)\<close>. \<open>dispatch\<close> is the chain, \<open>finish\<close> the
  common tail, and \<open>reduce\<close> the guards in front.
\<close>

section \<open>The local variables of the reducer\<close>

record step =
  sp_target :: "task_status option"
  sp_items :: "work_item list"
  sp_suspension :: "suspension option"
  sp_control :: "control_state option"
  sp_obligations :: "string list"
  sp_facts :: "string list"

text \<open>The values before the chain: the fields of the state, and the table lookup as the target.\<close>

definition initial_step :: "state \<Rightarrow> task_status \<Rightarrow> event_kind \<Rightarrow> step" where
  "initial_step s status k =
     \<lparr>sp_target = task_transition status k, sp_items = st_items s, sp_suspension = st_suspension s,
      sp_control = st_control s, sp_obligations = [], sp_facts = []\<rparr>"

definition current_control :: "state \<Rightarrow> control_state" where
  "current_control s =
     (case st_control s of
        Some c \<Rightarrow> c
      | None \<Rightarrow> \<lparr>ct_version = 0, ct_status = CS_ACTIVE, ct_interrupt = None\<rparr>)"

text \<open>
  \<^verbatim>\<open>identity.value\<close> on an optional identity. The reducer only takes it where the guards have
  established that the identity is present (\<open>authority_principal\<close> in \<^verbatim>\<open>Kernel_Invariant\<close>).
\<close>

definition opt_value :: "identity option \<Rightarrow> string" where
  "opt_value x = (case x of Some i \<Rightarrow> id_value i | None \<Rightarrow> [])"

text \<open>An optional integer inside an f-string.\<close>

definition opt_int_text :: "int option \<Rightarrow> string" where
  "opt_int_text x = (case x of Some i \<Rightarrow> int_str i | None \<Rightarrow> ''None'')"

section \<open>Interrupt, resume, redirect\<close>

definition do_interrupt_requested :: "state \<Rightarrow> task_status \<Rightarrow> event \<Rightarrow> step option" where
  "do_interrupt_requested s status e =
     (let cc = current_control s in
      if status \<in> set terminal_task
         \<or> ct_status cc \<noteq> CS_ACTIVE
         \<or> ev_interrupt e = None
         \<or> ev_version e \<noteq> Some (ct_version cc)
         \<or> ev_redirect e \<noteq> None
         \<or> ev_next_version e \<noteq> None
         \<or> ev_scope e \<noteq> None
         \<or> ev_superseded e \<noteq> []
      then None
      else Some ((initial_step s status EK_INTERRUPT_REQUESTED)\<lparr>
        sp_control := Some \<lparr>ct_version = ct_version cc, ct_status = CS_INTERRUPTED,
                            ct_interrupt = ev_interrupt e\<rparr>,
        sp_target := Some status,
        sp_facts := [''interrupted:'' @ opt_value (ev_interrupt e) @ '':'' @ opt_value (ev_principal e)]\<rparr>))"

definition do_interrupt_resumed :: "state \<Rightarrow> task_status \<Rightarrow> event \<Rightarrow> step option" where
  "do_interrupt_resumed s status e =
     (let cc = current_control s in
      if ct_status cc \<noteq> CS_INTERRUPTED
         \<or> ev_interrupt e \<noteq> ct_interrupt cc
         \<or> ev_version e \<noteq> Some (ct_version cc)
         \<or> ev_redirect e \<noteq> None
         \<or> ev_next_version e \<noteq> None
         \<or> ev_scope e \<noteq> None
         \<or> ev_superseded e \<noteq> []
      then None
      else Some ((initial_step s status EK_INTERRUPT_RESUMED)\<lparr>
        sp_control := Some \<lparr>ct_version = ct_version cc, ct_status = CS_ACTIVE, ct_interrupt = None\<rparr>,
        sp_target := Some status,
        sp_facts := [''interrupt_resumed:'' @ opt_value (ev_interrupt e) @ '':''
                     @ opt_value (ev_principal e)]\<rparr>))"

definition terminal_item :: "work_item_status list" where
  "terminal_item =
     [WS_COMPLETED, WS_PARTIAL, WS_DEGRADED, WS_FAILED, WS_CANCELLED, WS_SKIPPED]"

text \<open>The loop that cancels the selected items and collects the obligations in item order.\<close>

definition cancel_items :: "(work_item \<Rightarrow> bool) \<Rightarrow> work_item list \<Rightarrow> work_item list \<times> string list" where
  "cancel_items p items =
     (map (\<lambda>w. if p w then fst (cancelled_work_item w) else w) items,
      concat (map (\<lambda>w. if p w then snd (cancelled_work_item w) else []) items))"

definition do_redirect :: "state \<Rightarrow> task_status \<Rightarrow> event \<Rightarrow> step option" where
  "do_redirect s status e =
     (let cc = current_control s in
      if status \<in> set terminal_task
         \<or> ev_redirect e = None
         \<or> ev_interrupt e \<noteq> None
         \<or> ev_version e \<noteq> Some (ct_version cc)
         \<or> ev_next_version e \<noteq> Some (ct_version cc + 1)
         \<or> ev_scope e \<noteq> None
         \<or> list_ex (\<lambda>i. item_lookup (st_items s) i = None) (ev_superseded e)
      then None
      else
        (let (items, emitted) =
               cancel_items (\<lambda>w. wi_id w \<in> set (ev_superseded e) \<and> wi_status w \<notin> set terminal_item)
                 (st_items s)
         in Some \<lparr>
           sp_target = Some TS_FIXING, sp_items = items, sp_suspension = None,
           sp_control = Some \<lparr>ct_version = ct_version cc + 1, ct_status = CS_ACTIVE,
                              ct_interrupt = None\<rparr>,
           sp_obligations = emitted,
           sp_facts = [''redirected:'' @ opt_value (ev_redirect e) @ '':'' @ opt_int_text (ev_version e)
                         @ '':'' @ opt_int_text (ev_next_version e),
                       ''redirect_authority:'' @ opt_value (ev_principal e)]\<rparr>))"

section \<open>Task cancellation\<close>

definition do_task_cancelled :: "state \<Rightarrow> task_status \<Rightarrow> event \<Rightarrow> step option" where
  "do_task_cancelled s status e =
     (if ev_scope e \<noteq> Some (Closed SC_TASK)
         \<or> ev_item e \<noteq> None
         \<or> ev_attempt e \<noteq> None
         \<or> ev_dispatch e \<noteq> None
         \<or> ev_generation e \<noteq> None
         \<or> ev_interrupt e \<noteq> None
         \<or> ev_redirect e \<noteq> None
         \<or> ev_version e \<noteq> None
         \<or> ev_next_version e \<noteq> None
         \<or> ev_superseded e \<noteq> []
         \<or> (case st_suspension s of
              None \<Rightarrow> ev_epoch e \<noteq> None
            | Some u \<Rightarrow> ev_epoch e \<noteq> Some (su_epoch u))
      then None
      else
        (let (items, emitted) =
               cancel_items (\<lambda>w. wi_status w \<notin> set terminal_item) (st_items s)
         in Some \<lparr>
           sp_target = task_transition status EK_TASK_CANCELLED, sp_items = items,
           sp_suspension = None,
           sp_control = Some \<lparr>ct_version = ct_version (current_control s), ct_status = CS_ACTIVE,
                              ct_interrupt = None\<rparr>,
           sp_obligations = emitted,
           sp_facts = [''cancelled:task:'' @ id_value (st_task s) @ '':''
                         @ opt_value (ev_principal e)]\<rparr>))"

section \<open>Suspension and wake\<close>

definition do_suspension_started :: "state \<Rightarrow> task_status \<Rightarrow> event \<Rightarrow> step option" where
  "do_suspension_started s status e =
     (case (ev_suspension e, ev_epoch e, ev_policy e, ev_policy_digest e) of
        (Some sid, Some epoch, Some policy, Some policy_digest) \<Rightarrow>
          if status \<noteq> TS_EXECUTING
             \<or> ev_required e = []
             \<or> \<not> distinct (ev_required e)
             \<or> ev_wake e \<noteq> None
             \<or> ev_wake_reason e \<noteq> None
             \<or> (case st_suspension s of
                  None \<Rightarrow> epoch \<noteq> 0
                | Some u \<Rightarrow> su_status u \<noteq> SS_RESUMED \<or> epoch \<noteq> su_epoch u + 1 \<or> sid = su_id u)
             \<or> \<not> set (ev_required e) \<subseteq> wi_id ` set (st_items s)
          then None
          else Some ((initial_step s status EK_SUSPENSION_STARTED)\<lparr>
            sp_suspension := Some
              \<lparr>su_task = st_task s, su_id = sid, su_epoch = epoch, su_status = SS_WAITING,
               su_policy = policy, su_policy_digest = policy_digest, su_required = ev_required e,
               su_wake = None, su_reason = None\<rparr>,
            sp_target := Some status\<rparr>)
      | _ \<Rightarrow> None)"

definition do_wake_accepted :: "state \<Rightarrow> task_status \<Rightarrow> event \<Rightarrow> step option" where
  "do_wake_accepted s status e =
     (case st_suspension s of
        None \<Rightarrow> None
      | Some u \<Rightarrow>
          if status \<noteq> TS_EXECUTING
             \<or> su_status u \<noteq> SS_WAITING
             \<or> ev_suspension e \<noteq> Some (su_id u)
             \<or> ev_epoch e \<noteq> Some (su_epoch u)
             \<or> ev_policy e \<noteq> Some (su_policy u)
             \<or> ev_policy_digest e \<noteq> Some (su_policy_digest u)
             \<or> ev_required e \<noteq> su_required u
             \<or> ev_wake e = None
             \<or> ev_wake_reason e \<noteq> Some (Closed WR_DEPENDENCY_READY)
             \<or> list_ex (\<lambda>i. case item_lookup (st_items s) i of
                            None \<Rightarrow> True
                          | Some w \<Rightarrow> wi_status w \<noteq> WS_COMPLETED) (su_required u)
          then None
          else Some ((initial_step s status EK_WAKE_ACCEPTED)\<lparr>
            sp_suspension := Some (u\<lparr>su_status := SS_RESUMED, su_wake := ev_wake e,
                                     su_reason := Some WR_DEPENDENCY_READY\<rparr>),
            sp_target := Some status\<rparr>))"

section \<open>Work items and attempts\<close>

text \<open>\<^verbatim>\<open>item_index\<close>, and the replacement of the item at that index.\<close>

definition item_index :: "state \<Rightarrow> event \<Rightarrow> nat option" where
  "item_index s e = find_index (\<lambda>w. Some (wi_id w) = ev_item e) (st_items s)"

definition item_step :: "state \<Rightarrow> task_status \<Rightarrow> event_kind \<Rightarrow> nat \<Rightarrow> work_item \<Rightarrow> string list \<Rightarrow>
    string list \<Rightarrow> step" where
  "item_step s status k i w obligations facts =
     (initial_step s status k)\<lparr>
       sp_items := (st_items s)[i := w], sp_target := Some status,
       sp_obligations := obligations, sp_facts := facts\<rparr>"

definition do_work_item_eligible :: "state \<Rightarrow> task_status \<Rightarrow> event \<Rightarrow> step option" where
  "do_work_item_eligible s status e =
     (case item_index s e of
        None \<Rightarrow> None
      | Some i \<Rightarrow>
          (let w = st_items s ! i in
           case eligible_work_item s w of
             None \<Rightarrow> None
           | Some facts \<Rightarrow>
               if wi_status w \<noteq> WS_PENDING then None
               else Some (item_step s status EK_WORK_ITEM_ELIGIBLE i (w\<lparr>wi_status := WS_ELIGIBLE\<rparr>)
                            [] facts)))"

definition do_attempt_created :: "state \<Rightarrow> task_status \<Rightarrow> event \<Rightarrow> step option" where
  "do_attempt_created s status e =
     (case item_index s e of
        None \<Rightarrow> None
      | Some i \<Rightarrow>
          (let w = st_items s ! i in
           case (ev_attempt e, ev_dispatch e, ev_generation e) of
             (Some aid, Some did, Some g) \<Rightarrow>
               if wi_status w \<notin> {WS_ELIGIBLE, WS_BLOCKED}
                  \<or> (case wi_attempt w of
                       None \<Rightarrow> False
                     | Some a \<Rightarrow> wi_status w \<noteq> WS_BLOCKED \<or> g \<le> at_generation a \<or> aid = at_id a)
               then None
               else Some (item_step s status EK_ATTEMPT_CREATED i
                 (w\<lparr>wi_status := WS_SUBMITTED,
                    wi_attempt := Some \<lparr>at_task = st_task s, at_item = wi_id w, at_id = aid,
                      at_dispatch = did, at_generation = g, at_status = AS_CREATED\<rparr>\<rparr>) [] [])
           | _ \<Rightarrow> None))"

definition do_attempt_fenced :: "state \<Rightarrow> task_status \<Rightarrow> event \<Rightarrow> step option" where
  "do_attempt_fenced s status e =
     (case item_index s e of
        None \<Rightarrow> None
      | Some i \<Rightarrow>
          (let w = st_items s ! i in
           case wi_attempt w of
             None \<Rightarrow> None
           | Some a \<Rightarrow>
               if at_status a \<notin> set active_attempt \<or> attempt_tuple a \<noteq> event_tuple e then None
               else Some (item_step s status EK_ATTEMPT_FENCED i
                 (w\<lparr>wi_attempt := Some (a\<lparr>at_status := AS_FENCED\<rparr>)\<rparr>) [] [])))"

text \<open>The dictionary \<^verbatim>\<open>transitions\<close> of the attempt-progress arm.\<close>

definition attempt_transitions ::
  "(event_kind \<times> (work_item_status option \<times> attempt_status option \<times>
      work_item_status \<times> attempt_status)) list" where
  "attempt_transitions =
     [(EK_ATTEMPT_SUBMITTED, (Some WS_SUBMITTED, Some AS_CREATED, WS_RUNNING, AS_SUBMITTED)),
      (EK_ATTEMPT_RUNNING, (Some WS_RUNNING, Some AS_SUBMITTED, WS_RUNNING, AS_RUNNING)),
      (EK_ATTEMPT_COMPLETED, (Some WS_RUNNING, Some AS_RUNNING, WS_COMPLETED, AS_COMPLETED)),
      (EK_ATTEMPT_FAILED, (None, None, WS_FAILED, AS_FAILED)),
      (EK_ATTEMPT_CANCELLED, (None, None, WS_CANCELLED, AS_CANCELLED))]"

definition control_fields_absent :: "event \<Rightarrow> bool" where
  "control_fields_absent e \<longleftrightarrow> ev_interrupt e = None \<and> ev_redirect e = None \<and>
     ev_version e = None \<and> ev_next_version e = None \<and> ev_superseded e = []"

definition do_attempt_progress :: "state \<Rightarrow> task_status \<Rightarrow> event_kind \<Rightarrow> event \<Rightarrow> step option" where
  "do_attempt_progress s status k e =
     (case (item_index s e, map_of attempt_transitions k) of
        (Some i, Some (need_item, need_attempt, next_item, next_attempt)) \<Rightarrow>
          (let w = st_items s ! i in
           if k = EK_ATTEMPT_CANCELLED \<and>
              (ev_scope e \<noteq> Some (Closed SC_ATTEMPT) \<or> \<not> control_fields_absent e)
           then None
           else case wi_attempt w of
             None \<Rightarrow> None
           | Some a \<Rightarrow>
               if at_status a = AS_FENCED \<or> attempt_tuple a \<noteq> event_tuple e
                  \<or> (need_item \<noteq> None \<and> need_item \<noteq> Some (wi_status w))
                  \<or> (need_attempt \<noteq> None \<and> need_attempt \<noteq> Some (at_status a))
                  \<or> (k \<in> {EK_ATTEMPT_FAILED, EK_ATTEMPT_CANCELLED} \<and>
                     (wi_status w \<notin> {WS_SUBMITTED, WS_RUNNING} \<or> at_status a \<notin> set active_attempt))
               then None
               else Some (item_step s status k i
                 (w\<lparr>wi_status := next_item, wi_attempt := Some (a\<lparr>at_status := next_attempt\<rparr>)\<rparr>)
                 (if k = EK_ATTEMPT_CANCELLED \<and> at_status a \<in> set in_flight
                  then [adapter_cancel_obligation a] else [])
                 (if k = EK_ATTEMPT_CANCELLED
                  then [''cancelled:attempt:'' @ id_value (at_id a) @ '':'' @ opt_value (ev_principal e)]
                  else [])))
      | _ \<Rightarrow> None)"

text \<open>The dictionaries \<^verbatim>\<open>allowed\<close> and \<^verbatim>\<open>targets\<close> of the work-item arm.\<close>

definition item_transitions :: "(event_kind \<times> (work_item_status list \<times> work_item_status)) list" where
  "item_transitions =
     [(EK_WORK_ITEM_PARTIAL, ([WS_RUNNING], WS_PARTIAL)),
      (EK_WORK_ITEM_DEGRADED, ([WS_RUNNING], WS_DEGRADED)),
      (EK_WORK_ITEM_BLOCKED, ([WS_PENDING, WS_ELIGIBLE, WS_SUBMITTED, WS_RUNNING], WS_BLOCKED)),
      (EK_WORK_ITEM_FAILED,
        ([WS_PENDING, WS_ELIGIBLE, WS_SUBMITTED, WS_RUNNING, WS_BLOCKED], WS_FAILED)),
      (EK_WORK_ITEM_CANCELLED,
        ([WS_PENDING, WS_ELIGIBLE, WS_SUBMITTED, WS_RUNNING, WS_BLOCKED], WS_CANCELLED)),
      (EK_WORK_ITEM_SKIPPED, ([WS_PENDING, WS_ELIGIBLE], WS_SKIPPED))]"

definition required_by_another :: "work_item list \<Rightarrow> work_item \<Rightarrow> bool" where
  "required_by_another items w \<longleftrightarrow>
     list_ex (\<lambda>c. list_ex (\<lambda>d. dep_item d = wi_id w \<and> dep_requirement d = RQ_REQUIRED) (wi_deps c))
       items"

definition do_item_transition :: "state \<Rightarrow> task_status \<Rightarrow> event_kind \<Rightarrow> event \<Rightarrow> step option" where
  "do_item_transition s status k e =
     (case (item_index s e, map_of item_transitions k) of
        (Some i, Some (allowed, target)) \<Rightarrow>
          (let w = st_items s ! i in
           if k = EK_WORK_ITEM_CANCELLED \<and>
              (ev_scope e \<noteq> Some (Closed SC_WORK_ITEM) \<or> ev_attempt e \<noteq> None \<or> ev_dispatch e \<noteq> None
               \<or> ev_generation e \<noteq> None \<or> \<not> control_fields_absent e)
           then None
           else if wi_status w \<notin> set allowed
              \<or> (k = EK_WORK_ITEM_SKIPPED \<and>
                 (wi_requirement w = RQ_REQUIRED \<or> required_by_another (st_items s) w))
           then None
           else if k = EK_WORK_ITEM_CANCELLED
           then Some (item_step s status k i (fst (cancelled_work_item w)) (snd (cancelled_work_item w))
                  [''cancelled:work_item:'' @ id_value (wi_id w) @ '':'' @ opt_value (ev_principal e)])
           else Some (item_step s status k i (w\<lparr>wi_status := target\<rparr>) [] []))
      | _ \<Rightarrow> None)"

section \<open>The chain, the tail and the guards\<close>

definition dispatch :: "state \<Rightarrow> task_status \<Rightarrow> event_kind \<Rightarrow> event \<Rightarrow> step option" where
  "dispatch s status k e =
     (if k = EK_INTERRUPT_REQUESTED then do_interrupt_requested s status e
      else if k = EK_INTERRUPT_RESUMED then do_interrupt_resumed s status e
      else if k = EK_REDIRECT_AUTHORIZED then do_redirect s status e
      else if k = EK_TASK_CANCELLED then do_task_cancelled s status e
      else if k = EK_SUSPENSION_STARTED then do_suspension_started s status e
      else if k = EK_WAKE_ACCEPTED then do_wake_accepted s status e
      else if k = EK_WORK_ITEM_ELIGIBLE then do_work_item_eligible s status e
      else if k = EK_ATTEMPT_CREATED then do_attempt_created s status e
      else if k = EK_ATTEMPT_FENCED then do_attempt_fenced s status e
      else if k \<in> fst ` set attempt_transitions then do_attempt_progress s status k e
      else if k \<in> fst ` set item_transitions then do_item_transition s status k e
      else Some (initial_step s status k))"

definition reject :: "state \<Rightarrow> string \<Rightarrow> string \<Rightarrow> identity option \<Rightarrow> string option \<Rightarrow> result" where
  "reject s input code prior prior_digest =
     Rejected \<lparr>rj_state = s, rj_input_digest = input, rj_error_code = code,
               rj_prior_result = prior, rj_prior_digest = prior_digest\<rparr>"

text \<open>The suspension after the tail of the reducer, and whether the tail refuses the step.\<close>

definition wait_blocks :: "task_status \<Rightarrow> event_kind \<Rightarrow> task_status \<Rightarrow> step \<Rightarrow> bool" where
  "wait_blocks status k target sp \<longleftrightarrow>
     target \<noteq> status \<and>
     (case sp_suspension sp of None \<Rightarrow> False | Some u \<Rightarrow> su_status u = SS_WAITING) \<and>
     k \<notin> {EK_TASK_BLOCKED, EK_TASK_FAILED, EK_TASK_CANCELLED}"

definition result_identity :: "event \<Rightarrow> identity" where
  "result_identity e = Identity IK_RESULT (id_value (ev_id e) @ '':accepted'')"

definition next_state :: "state \<Rightarrow> task_status \<Rightarrow> task_status \<Rightarrow> step \<Rightarrow> accepted_event list \<Rightarrow> state" where
  "next_state s status target sp history =
     \<lparr>st_protocol_version = st_protocol_version s, st_installation = st_installation s,
      st_leader_epoch = st_leader_epoch s, st_task = st_task s, st_revision = st_revision s + 1,
      st_status = Closed target, st_accepted = history, st_items = sp_items sp,
      st_suspension = (if target \<noteq> status then None else sp_suspension sp),
      st_control = sp_control sp\<rparr>"

definition finish :: "state \<Rightarrow> task_status \<Rightarrow> event_kind \<Rightarrow> event \<Rightarrow> string \<Rightarrow> step \<Rightarrow> result" where
  "finish s status k e input sp =
     (case sp_target sp of
        None \<Rightarrow> reject s input STATE_CONFLICT_ERROR None None
      | Some target \<Rightarrow>
          if wait_blocks status k target sp then reject s input STATE_CONFLICT_ERROR None None
          else
            (let result_id = result_identity e;
                 facts = (''accepted:'' @ identity_kind_value (id_kind (ev_id e)) @ '':''
                            @ id_value (ev_id e)) # sp_facts sp;
                 rdigest = accepted_result_digest result_id (ev_id e) s
                             (next_state s status target sp []) input (sp_obligations sp) facts
             in Accepted
               \<lparr>ac_result = result_id,
                ac_state = next_state s status target sp (st_accepted s @
                  [\<lparr>ae_event = ev_id e, ae_result = result_id, ae_input_digest = input,
                    ae_result_digest = rdigest\<rparr>]),
                ac_input_digest = input, ac_result_digest = rdigest,
                ac_obligations = sp_obligations sp, ac_facts = facts\<rparr>))"

definition while_interrupted :: "event_kind list" where
  "while_interrupted =
     [EK_INTERRUPT_RESUMED, EK_REDIRECT_AUTHORIZED, EK_TASK_CANCELLED, EK_TASK_FAILED]"

text \<open>The second group of guards: validity of the inputs and identity of their owner.\<close>

definition inputs_ok :: "state \<Rightarrow> event_kind \<Rightarrow> event \<Rightarrow> evidence list \<Rightarrow> bool" where
  "inputs_ok s k e ev \<longleftrightarrow>
     state_is_valid s \<and> event_is_valid e \<and> evidence_set_is_valid ev \<and>
     ev_installation e = st_installation s \<and> ev_leader_epoch e = st_leader_epoch s \<and>
     authority_is_valid k e ev"

definition reduce :: "state \<Rightarrow> event \<Rightarrow> evidence list \<Rightarrow> result" where
  "reduce s e ev =
     (let input = input_digest s e ev in
      case (st_status s, ev_kind e) of
        (Closed status, Closed k) \<Rightarrow>
          if \<not> opt_closed (ev_wake_reason e) \<or> \<not> opt_closed (ev_control_reason e)
             \<or> \<not> opt_closed (ev_scope e)
          then reject s input UNKNOWN_ENUM_ERROR None None
          else if \<not> inputs_ok s k e ev then reject s input STATE_CONFLICT_ERROR None None
          else if attempt_event_is_stale s k e then reject s input STATE_CONFLICT_ERROR None None
          else (case List.find (\<lambda>a. ae_event a = ev_id e) (st_accepted s) of
            Some prior \<Rightarrow>
              if ae_input_digest prior = input
              then NoOp \<lparr>no_state = s, no_input_digest = input, no_prior_result = ae_result prior,
                         no_prior_digest = ae_result_digest prior\<rparr>
              else reject s input IDEMPOTENCY_CONFLICT_ERROR (Some (ae_result prior))
                     (Some (ae_result_digest prior))
          | None \<Rightarrow>
              if ev_task e \<noteq> st_task s \<or> ev_expected_revision e \<noteq> st_revision s
              then reject s input STATE_CONFLICT_ERROR None None
              else if ct_status (current_control s) = CS_INTERRUPTED \<and> k \<notin> set while_interrupted
              then reject s input STATE_CONFLICT_ERROR None None
              else (case dispatch s status k e of
                      None \<Rightarrow> reject s input STATE_CONFLICT_ERROR None None
                    | Some sp \<Rightarrow> finish s status k e input sp))
      | _ \<Rightarrow> reject s input UNKNOWN_ENUM_ERROR None None)"

end
