(* ===== verification/Kernel_Invariant.thy ===== *)
theory Kernel_Invariant
  imports Kernel_Reduce
begin

text \<open>
  What one call of \<open>reduce\<close> can do. \<open>takes\<close> collects the conditions under which the reducer
  accepts, \<open>item_move\<close> the ways in which it changes one work item; every other lemma about the
  reducer goes through these two. On top of them: validity is preserved, histories only grow,
  and the facts about one accepted step that the properties of whole runs need.
\<close>

section \<open>When the reducer accepts\<close>

definition takes :: "state \<Rightarrow> event \<Rightarrow> evidence list \<Rightarrow> task_status \<Rightarrow> event_kind \<Rightarrow> step \<Rightarrow>
    task_status \<Rightarrow> bool" where
  "takes s e ev status k sp target \<longleftrightarrow>
     st_status s = Closed status \<and> ev_kind e = Closed k \<and> inputs_ok s k e ev \<and>
     \<not> attempt_event_is_stale s k e \<and> (\<forall>x\<in>set (st_accepted s). ae_event x \<noteq> ev_id e) \<and>
     ev_task e = st_task s \<and> ev_expected_revision e = st_revision s \<and>
     (ct_status (current_control s) = CS_INTERRUPTED \<longrightarrow> k \<in> set while_interrupted) \<and>
     dispatch s status k e = Some sp \<and> sp_target sp = Some target \<and>
     \<not> wait_blocks status k target sp"

lemma finish_AcceptedD:
  "finish s status k e input sp = Accepted a \<Longrightarrow>
     \<exists>target. sp_target sp = Some target \<and> \<not> wait_blocks status k target sp"
  by (auto simp: finish_def reject_def split: option.splits if_splits)

lemma reduce_Accepted_takes:
  assumes "reduce s e ev = Accepted a"
  obtains status k sp target where "takes s e ev status k sp target"
    and "finish s status k e (input_digest s e ev) sp = Accepted a"
proof (cases "st_status s")
  case (Raw x)
  then show ?thesis using assms by (simp add: reduce_def reject_def)
next
  case (Closed status)
  note st = this
  show ?thesis
  proof (cases "ev_kind e")
    case (Raw x)
    then show ?thesis using assms st by (simp add: reduce_def reject_def)
  next
    case (Closed k)
    from assms st Closed obtain sp where
      "inputs_ok s k e ev" "\<not> attempt_event_is_stale s k e"
      and find: "List.find (\<lambda>a. ae_event a = ev_id e) (st_accepted s) = None"
      and "ev_task e = st_task s" "ev_expected_revision e = st_revision s"
      and "ct_status (current_control s) = CS_INTERRUPTED \<longrightarrow> k \<in> set while_interrupted"
      and "dispatch s status k e = Some sp"
      and fin: "finish s status k e (input_digest s e ev) sp = Accepted a"
      by (auto simp: reduce_def reject_def Let_def split: if_splits option.splits)
    moreover from fin obtain target where "sp_target sp = Some target"
      "\<not> wait_blocks status k target sp"
      using finish_AcceptedD by blast
    moreover from find have "\<forall>x\<in>set (st_accepted s). ae_event x \<noteq> ev_id e"
      by (auto simp: find_None_iff)
    ultimately have "takes s e ev status k sp target"
      using st Closed by (simp add: takes_def)
    then show ?thesis using fin by (rule that)
  qed
qed

lemma takes_reduce:
  assumes "takes s e ev status k sp target"
  shows "reduce s e ev = finish s status k e (input_digest s e ev) sp"
proof -
  have "opt_closed (ev_wake_reason e)" "opt_closed (ev_control_reason e)" "opt_closed (ev_scope e)"
    using assms by (simp_all add: takes_def inputs_ok_def event_is_valid_def)
  moreover have "List.find (\<lambda>a. ae_event a = ev_id e) (st_accepted s) = None"
    using assms by (auto simp: takes_def find_None_iff)
  ultimately show ?thesis using assms
    by (auto simp: takes_def reduce_def Let_def)
qed

lemma finish_takes:
  assumes "takes s e ev status k sp target"
    and "finish s status k e input sp = Accepted a"
  shows "ac_result a = result_identity e"
    and "ac_input_digest a = input"
    and "ac_obligations a = sp_obligations sp"
    and "ac_facts a = (''accepted:'' @ identity_kind_value (id_kind (ev_id e)) @ '':''
           @ id_value (ev_id e)) # sp_facts sp"
    and "ac_result_digest a = accepted_result_digest (ac_result a) (ev_id e) s
           (next_state s status target sp []) input (ac_obligations a) (ac_facts a)"
    and "ac_state a = next_state s status target sp (st_accepted s @
           [\<lparr>ae_event = ev_id e, ae_result = ac_result a, ae_input_digest = input,
             ae_result_digest = ac_result_digest a\<rparr>])"
  using assms by (auto simp: takes_def finish_def Let_def)

lemma takes_accepts:
  assumes "takes s e ev status k sp target"
  shows "\<exists>a. reduce s e ev = Accepted a"
  using assms by (simp add: takes_reduce) (simp add: takes_def finish_def Let_def)

text \<open>The fields of the state after an accepted step.\<close>

lemma next_state_fields [simp]:
  "st_protocol_version (next_state s status target sp h) = st_protocol_version s"
  "st_installation (next_state s status target sp h) = st_installation s"
  "st_leader_epoch (next_state s status target sp h) = st_leader_epoch s"
  "st_task (next_state s status target sp h) = st_task s"
  "st_revision (next_state s status target sp h) = st_revision s + 1"
  "st_status (next_state s status target sp h) = Closed target"
  "st_accepted (next_state s status target sp h) = h"
  "st_items (next_state s status target sp h) = sp_items sp"
  "st_suspension (next_state s status target sp h) =
     (if target \<noteq> status then None else sp_suspension sp)"
  "st_control (next_state s status target sp h) = sp_control sp"
  by (simp_all add: next_state_def)

lemma initial_step_fields [simp]:
  "sp_target (initial_step s status k) = task_transition status k"
  "sp_items (initial_step s status k) = st_items s"
  "sp_suspension (initial_step s status k) = st_suspension s"
  "sp_control (initial_step s status k) = st_control s"
  "sp_obligations (initial_step s status k) = []"
  "sp_facts (initial_step s status k) = []"
  by (simp_all add: initial_step_def)

lemma item_step_fields [simp]:
  "sp_target (item_step s status k i w ob fa) = Some status"
  "sp_items (item_step s status k i w ob fa) = (st_items s)[i := w]"
  "sp_suspension (item_step s status k i w ob fa) = st_suspension s"
  "sp_control (item_step s status k i w ob fa) = st_control s"
  "sp_obligations (item_step s status k i w ob fa) = ob"
  "sp_facts (item_step s status k i w ob fa) = fa"
  by (simp_all add: item_step_def)

section \<open>The arms of the chain, by kind\<close>

lemma dispatch_simps [simp]:
  "dispatch s status EK_INTERRUPT_REQUESTED e = do_interrupt_requested s status e"
  "dispatch s status EK_INTERRUPT_RESUMED e = do_interrupt_resumed s status e"
  "dispatch s status EK_REDIRECT_AUTHORIZED e = do_redirect s status e"
  "dispatch s status EK_TASK_CANCELLED e = do_task_cancelled s status e"
  "dispatch s status EK_SUSPENSION_STARTED e = do_suspension_started s status e"
  "dispatch s status EK_WAKE_ACCEPTED e = do_wake_accepted s status e"
  "dispatch s status EK_WORK_ITEM_ELIGIBLE e = do_work_item_eligible s status e"
  "dispatch s status EK_ATTEMPT_CREATED e = do_attempt_created s status e"
  "dispatch s status EK_ATTEMPT_FENCED e = do_attempt_fenced s status e"
  by (simp_all add: dispatch_def)

definition plain_kind :: "event_kind \<Rightarrow> bool" where
  "plain_kind k \<longleftrightarrow> k \<in> set
     [EK_ROUTING_VALIDATION_STARTED, EK_ROUTING_VALIDATION_PASSED, EK_DISPATCH_ACCEPTED,
      EK_WORK_COMPLETED, EK_VERIFICATION_PASSED, EK_VERIFICATION_FAILED, EK_REVIEW_PASSED,
      EK_REVIEW_REJECTED, EK_APPROVAL_REQUIRED_RAISED, EK_FIX_DISPATCH_REQUESTED,
      EK_APPROVAL_GRANTED, EK_APPROVAL_DENIED, EK_RECORDING_COMPLETED, EK_TASK_BLOCKED,
      EK_BLOCKED_RECOVERY_TO_FIXING, EK_TASK_FAILED]"

lemma dispatch_cases:
  obtains (control) "k \<in> {EK_INTERRUPT_REQUESTED, EK_INTERRUPT_RESUMED, EK_REDIRECT_AUTHORIZED,
                          EK_TASK_CANCELLED}"
  | (wait) "k \<in> {EK_SUSPENSION_STARTED, EK_WAKE_ACCEPTED}"
  | (item) "k \<in> {EK_WORK_ITEM_ELIGIBLE, EK_ATTEMPT_CREATED, EK_ATTEMPT_FENCED}"
  | (progress) "k \<in> fst ` set attempt_transitions"
      "\<And>s status e. dispatch s status k e = do_attempt_progress s status k e"
  | (outcome) "k \<in> fst ` set item_transitions"
      "\<And>s status e. dispatch s status k e = do_item_transition s status k e"
  | (plain) "plain_kind k" "\<And>s status e. dispatch s status k e = Some (initial_step s status k)"
  by (cases k)
     (simp_all add: dispatch_def attempt_transitions_def item_transitions_def plain_kind_def)

section \<open>How one work item can change\<close>

inductive item_move :: "identity \<Rightarrow> event_kind \<Rightarrow> event \<Rightarrow> work_item \<Rightarrow> work_item \<Rightarrow> bool"
  for task k e where
  eligible:
    "k = EK_WORK_ITEM_ELIGIBLE \<Longrightarrow> wi_status w = WS_PENDING \<Longrightarrow> ev_item e = Some (wi_id w) \<Longrightarrow>
     item_move task k e w (w\<lparr>wi_status := WS_ELIGIBLE\<rparr>)"
| created:
    "k = EK_ATTEMPT_CREATED \<Longrightarrow> wi_status w \<in> {WS_ELIGIBLE, WS_BLOCKED} \<Longrightarrow>
     ev_item e = Some (wi_id w) \<Longrightarrow>
     ev_attempt e = Some aid \<Longrightarrow> ev_dispatch e = Some did \<Longrightarrow> ev_generation e = Some g \<Longrightarrow>
     (\<And>a. wi_attempt w = Some a \<Longrightarrow>
        wi_status w = WS_BLOCKED \<and> at_generation a < g \<and> aid \<noteq> at_id a) \<Longrightarrow>
     item_move task k e w
       (w\<lparr>wi_status := WS_SUBMITTED,
          wi_attempt := Some \<lparr>at_task = task, at_item = wi_id w, at_id = aid, at_dispatch = did,
                              at_generation = g, at_status = AS_CREATED\<rparr>\<rparr>)"
| fenced:
    "k = EK_ATTEMPT_FENCED \<Longrightarrow> wi_attempt w = Some a \<Longrightarrow> at_status a \<in> set active_attempt \<Longrightarrow>
     ev_item e = Some (wi_id w) \<Longrightarrow> attempt_tuple a = event_tuple e \<Longrightarrow>
     item_move task k e w (w\<lparr>wi_attempt := Some (a\<lparr>at_status := AS_FENCED\<rparr>)\<rparr>)"
| progress:
    "map_of attempt_transitions k = Some (ni, na, next_item, next_attempt) \<Longrightarrow>
     wi_attempt w = Some a \<Longrightarrow> at_status a \<in> set active_attempt \<Longrightarrow>
     wi_status w \<in> {WS_SUBMITTED, WS_RUNNING} \<Longrightarrow>
     ev_item e = Some (wi_id w) \<Longrightarrow> attempt_tuple a = event_tuple e \<Longrightarrow>
     ni = None \<or> ni = Some (wi_status w) \<Longrightarrow> na = None \<or> na = Some (at_status a) \<Longrightarrow>
     item_move task k e w
       (w\<lparr>wi_status := next_item, wi_attempt := Some (a\<lparr>at_status := next_attempt\<rparr>)\<rparr>)"
| outcome:
    "map_of item_transitions k = Some (allowed, target) \<Longrightarrow> k \<noteq> EK_WORK_ITEM_CANCELLED \<Longrightarrow>
     wi_status w \<in> set allowed \<Longrightarrow> ev_item e = Some (wi_id w) \<Longrightarrow>
     item_move task k e w (w\<lparr>wi_status := target\<rparr>)"
| cancelled:
    "k \<in> {EK_WORK_ITEM_CANCELLED, EK_REDIRECT_AUTHORIZED, EK_TASK_CANCELLED} \<Longrightarrow>
     wi_status w \<notin> set terminal_item \<Longrightarrow>
     (k = EK_WORK_ITEM_CANCELLED \<Longrightarrow> ev_item e = Some (wi_id w)) \<Longrightarrow>
     item_move task k e w (fst (cancelled_work_item w))"

abbreviation moves :: "identity \<Rightarrow> event_kind \<Rightarrow> event \<Rightarrow> work_item \<Rightarrow> work_item \<Rightarrow> bool" where
  "moves task k e w w' \<equiv> w' = w \<or> item_move task k e w w'"

lemma moves_update:
  assumes "i < length items" and "item_move task k e (items ! i) w"
  shows "list_all2 (moves task k e) items (items[i := w])"
  using assms by (auto simp: list_all2_conv_all_nth nth_list_update)

lemma moves_same: "list_all2 (moves task k e) items items"
  by (simp add: list_all2_same)

lemma moves_cancel:
  assumes "k \<in> {EK_REDIRECT_AUTHORIZED, EK_TASK_CANCELLED}"
    and "\<And>w. p w \<Longrightarrow> wi_status w \<notin> set terminal_item"
  shows "list_all2 (moves task k e) items (fst (cancel_items p items))"
  using assms by (auto simp: cancel_items_def list_all2_conv_all_nth intro!: item_move.cancelled)

lemma item_indexD:
  "item_index s e = Some i \<Longrightarrow> i < length (st_items s) \<and> ev_item e = Some (wi_id (st_items s ! i))"
  by (auto simp: item_index_def dest: find_index_SomeD)

lemma attempt_transitions_range:
  "map_of attempt_transitions k = Some (ni, na, next_item, next_attempt) \<Longrightarrow>
     (ni = None \<longrightarrow> k \<in> {EK_ATTEMPT_FAILED, EK_ATTEMPT_CANCELLED}) \<and>
     (na = None \<longrightarrow> k \<in> {EK_ATTEMPT_FAILED, EK_ATTEMPT_CANCELLED}) \<and>
     (\<forall>x. ni = Some x \<longrightarrow> x \<in> {WS_SUBMITTED, WS_RUNNING}) \<and>
     (\<forall>x. na = Some x \<longrightarrow> x \<in> set active_attempt)"
  by (auto simp: attempt_transitions_def active_attempt_def split: if_splits)

lemma do_attempt_progress_moves:
  assumes "do_attempt_progress s status k e = Some sp"
  shows "list_all2 (moves (st_task s) k e) (st_items s) (sp_items sp)"
proof -
  from assms obtain i ni na next_item next_attempt a ob fa where
    i: "item_index s e = Some i"
    and tr: "map_of attempt_transitions k = Some (ni, na, next_item, next_attempt)"
    and a: "wi_attempt (st_items s ! i) = Some a" "attempt_tuple a = event_tuple e"
    and need: "ni = None \<or> ni = Some (wi_status (st_items s ! i))" "na = None \<or> na = Some (at_status a)"
    and live: "k \<in> {EK_ATTEMPT_FAILED, EK_ATTEMPT_CANCELLED} \<longrightarrow>
       wi_status (st_items s ! i) \<in> {WS_SUBMITTED, WS_RUNNING} \<and> at_status a \<in> set active_attempt"
    and sp: "sp = item_step s status k i ((st_items s ! i)\<lparr>wi_status := next_item,
       wi_attempt := Some (a\<lparr>at_status := next_attempt\<rparr>)\<rparr>) ob fa"
    by (auto simp: do_attempt_progress_def Let_def split: option.splits if_splits)
  have st: "at_status a \<in> set active_attempt" "wi_status (st_items s ! i) \<in> {WS_SUBMITTED, WS_RUNNING}"
    using attempt_transitions_range [OF tr] need live by auto
  have "item_move (st_task s) k e (st_items s ! i) ((st_items s ! i)\<lparr>wi_status := next_item,
       wi_attempt := Some (a\<lparr>at_status := next_attempt\<rparr>)\<rparr>)"
    using item_indexD [OF i] by (intro item_move.progress [OF tr a(1) st _ a(2) need]) simp
  then show ?thesis using item_indexD [OF i] sp by (simp add: moves_update)
qed

lemma item_transitions_live:
  "map_of item_transitions k = Some (allowed, target) \<Longrightarrow> x \<in> set allowed \<Longrightarrow> x \<notin> set terminal_item"
  by (auto simp: item_transitions_def terminal_item_def split: if_splits)

lemma do_item_transition_moves:
  assumes "do_item_transition s status k e = Some sp"
  shows "list_all2 (moves (st_task s) k e) (st_items s) (sp_items sp)"
proof -
  from assms obtain i allowed target where
    i: "item_index s e = Some i" and tr: "map_of item_transitions k = Some (allowed, target)"
    and al: "wi_status (st_items s ! i) \<in> set allowed"
    and sp: "sp_items sp = (st_items s)[i := if k = EK_WORK_ITEM_CANCELLED
       then fst (cancelled_work_item (st_items s ! i)) else (st_items s ! i)\<lparr>wi_status := target\<rparr>]"
    by (auto simp: do_item_transition_def Let_def split: option.splits if_splits)
  have "item_move (st_task s) k e (st_items s ! i) (if k = EK_WORK_ITEM_CANCELLED
       then fst (cancelled_work_item (st_items s ! i)) else (st_items s ! i)\<lparr>wi_status := target\<rparr>)"
    using item_indexD [OF i] item_transitions_live [OF tr al] item_move.outcome [OF tr _ al]
    by (auto intro!: item_move.cancelled)
  then show ?thesis using item_indexD [OF i] sp by (simp add: moves_update)
qed

lemma do_item_moves:
  "do_work_item_eligible s status e = Some sp \<Longrightarrow>
     list_all2 (moves (st_task s) EK_WORK_ITEM_ELIGIBLE e) (st_items s) (sp_items sp)"
  "do_attempt_created s status e = Some sp \<Longrightarrow>
     list_all2 (moves (st_task s) EK_ATTEMPT_CREATED e) (st_items s) (sp_items sp)"
  "do_attempt_fenced s status e = Some sp \<Longrightarrow>
     list_all2 (moves (st_task s) EK_ATTEMPT_FENCED e) (st_items s) (sp_items sp)"
    apply (auto simp: do_work_item_eligible_def Let_def dest!: item_indexD
      intro!: moves_update item_move.eligible split: option.splits if_splits)[1]
   apply (auto simp: do_attempt_created_def Let_def dest!: item_indexD
      intro!: moves_update item_move.created split: option.splits if_splits)[1]
  apply (auto simp: do_attempt_fenced_def Let_def dest!: item_indexD
      intro!: moves_update item_move.fenced split: option.splits if_splits)[1]
  done

lemma do_control_moves:
  "do_interrupt_requested s status e = Some sp \<Longrightarrow> sp_items sp = st_items s"
  "do_interrupt_resumed s status e = Some sp \<Longrightarrow> sp_items sp = st_items s"
  "do_suspension_started s status e = Some sp \<Longrightarrow> sp_items sp = st_items s"
  "do_wake_accepted s status e = Some sp \<Longrightarrow> sp_items sp = st_items s"
  by (auto simp: do_interrupt_requested_def do_interrupt_resumed_def do_suspension_started_def
      do_wake_accepted_def Let_def split: option.splits if_splits)

lemma do_redirect_SomeD:
  assumes "do_redirect s status e = Some sp"
  shows "status \<notin> set terminal_task" "ev_redirect e \<noteq> None"
    "ev_version e = Some (ct_version (current_control s))"
    "ev_next_version e = Some (ct_version (current_control s) + 1)"
    "\<forall>i\<in>set (ev_superseded e). item_lookup (st_items s) i \<noteq> None"
    "sp_items sp = fst (cancel_items
       (\<lambda>w. wi_id w \<in> set (ev_superseded e) \<and> wi_status w \<notin> set terminal_item) (st_items s))"
    "sp_obligations sp = snd (cancel_items
       (\<lambda>w. wi_id w \<in> set (ev_superseded e) \<and> wi_status w \<notin> set terminal_item) (st_items s))"
    "sp_target sp = Some TS_FIXING" "sp_suspension sp = None"
    "sp_control sp = Some \<lparr>ct_version = ct_version (current_control s) + 1, ct_status = CS_ACTIVE,
                           ct_interrupt = None\<rparr>"
  using assms by (auto simp: do_redirect_def Let_def list_ex_iff split: prod.splits if_splits)

lemma do_task_cancelled_SomeD:
  assumes "do_task_cancelled s status e = Some sp"
  shows "sp_items sp = fst (cancel_items (\<lambda>w. wi_status w \<notin> set terminal_item) (st_items s))"
    "sp_obligations sp = snd (cancel_items (\<lambda>w. wi_status w \<notin> set terminal_item) (st_items s))"
    "sp_target sp = task_transition status EK_TASK_CANCELLED" "sp_suspension sp = None"
    "sp_control sp = Some \<lparr>ct_version = ct_version (current_control s), ct_status = CS_ACTIVE,
                           ct_interrupt = None\<rparr>"
    "ev_epoch e = map_option su_epoch (st_suspension s)"
  using assms by (auto simp: do_task_cancelled_def Let_def split: prod.splits if_splits option.splits)

theorem dispatch_moves:
  assumes "dispatch s status k e = Some sp"
  shows "list_all2 (moves (st_task s) k e) (st_items s) (sp_items sp)"
proof (cases k rule: dispatch_cases)
  case control
  then show ?thesis using assms
    by (auto simp: do_control_moves do_redirect_SomeD do_task_cancelled_SomeD moves_same
        intro!: moves_cancel)
next
  case wait
  then show ?thesis using assms by (auto simp: do_control_moves moves_same)
next
  case item
  then show ?thesis using assms by (auto simp: do_item_moves)
next
  case progress
  then show ?thesis using assms by (simp add: do_attempt_progress_moves)
next
  case outcome
  then show ?thesis using assms by (simp add: do_item_transition_moves)
next
  case plain
  then show ?thesis using assms by (auto simp: moves_same)
qed

section \<open>What a move keeps\<close>

lemma item_move_frame:
  assumes "item_move task k e w w'"
  shows "wi_id w' = wi_id w" "wi_task w' = wi_task w" "wi_deps w' = wi_deps w"
    "wi_requirement w' = wi_requirement w"
  using assms by (induction) (simp_all add: cancelled_work_item_frame)

lemma moves_ids:
  "list_all2 (moves task k e) items items' \<Longrightarrow> map wi_id items' = map wi_id items"
  by (induction rule: list_all2_induct) (auto simp: item_move_frame)

lemma item_move_valid:
  assumes "item_move task k e w w'" and "work_item_is_valid w task" and "event_is_valid e"
    and "has_identity_kind task IK_TASK"
  shows "work_item_is_valid w' task"
  using assms
proof (induction)
  case (created w aid did g)
  then show ?case by (auto simp: valid_defs)
next
  case (cancelled w)
  then show ?case by (simp add: cancelled_work_item_valid)
qed (auto simp: work_item_is_valid_def attempt_is_valid_def split: option.splits)

lemma moves_valid:
  assumes "list_all2 (moves task k e) items items'"
    and "list_all (\<lambda>w. work_item_is_valid w task) items"
    and "event_is_valid e" and "has_identity_kind task IK_TASK"
  shows "list_all (\<lambda>w. work_item_is_valid w task) items'"
  using assms(1,2)
  by (induction rule: list_all2_induct) (auto intro: item_move_valid assms(3,4))

text \<open>The record of the current suspension: kept, cleared, started or woken.\<close>

lemma do_suspension_started_SomeD:
  assumes "do_suspension_started s status e = Some sp"
  obtains u where "status = TS_EXECUTING" "sp_suspension sp = Some u" "su_status u = SS_WAITING"
    "su_task u = st_task s" "ev_suspension e = Some (su_id u)" "ev_epoch e = Some (su_epoch u)"
    "ev_policy e = Some (su_policy u)" "ev_policy_digest e = Some (su_policy_digest u)"
    "su_required u = ev_required e" "su_wake u = None" "su_reason u = None"
    "ev_required e \<noteq> []" "distinct (ev_required e)"
    "set (ev_required e) \<subseteq> wi_id ` set (st_items s)"
    "st_suspension s = None \<Longrightarrow> su_epoch u = 0"
    "\<And>p. st_suspension s = Some p \<Longrightarrow>
       su_status p = SS_RESUMED \<and> su_epoch u = su_epoch p + 1 \<and> su_id u \<noteq> su_id p"
    "sp_target sp = Some status" "sp_control sp = st_control s" "sp_obligations sp = []"
proof -
  from assms obtain sid ep policy pd where
    "ev_suspension e = Some sid" "ev_epoch e = Some ep" "ev_policy e = Some policy"
    "ev_policy_digest e = Some pd"
    by (auto simp: do_suspension_started_def split: option.splits)
  then show ?thesis using assms
    by (intro that [of "\<lparr>su_task = st_task s, su_id = sid, su_epoch = ep, su_status = SS_WAITING,
          su_policy = policy, su_policy_digest = pd, su_required = ev_required e, su_wake = None,
          su_reason = None\<rparr>"])
       (auto simp: do_suspension_started_def split: option.splits if_splits)
qed

lemma do_wake_accepted_SomeD:
  assumes "do_wake_accepted s status e = Some sp"
  obtains u where "status = TS_EXECUTING" "st_suspension s = Some u" "su_status u = SS_WAITING"
    "ev_suspension e = Some (su_id u)" "ev_epoch e = Some (su_epoch u)"
    "ev_policy e = Some (su_policy u)" "ev_policy_digest e = Some (su_policy_digest u)"
    "ev_required e = su_required u" "ev_wake e \<noteq> None"
    "\<forall>i\<in>set (su_required u). \<exists>w. item_lookup (st_items s) i = Some w \<and> wi_status w = WS_COMPLETED"
    "sp_suspension sp = Some (u\<lparr>su_status := SS_RESUMED, su_wake := ev_wake e,
                               su_reason := Some WR_DEPENDENCY_READY\<rparr>)"
    "sp_target sp = Some status" "sp_control sp = st_control s" "sp_obligations sp = []"
  using assms
  by (auto simp: do_wake_accepted_def list_ex_iff split: option.splits if_splits)

lemma do_attempt_progress_frame:
  assumes "do_attempt_progress s status k e = Some sp"
  shows "sp_target sp = Some status" "sp_suspension sp = st_suspension s" "sp_control sp = st_control s"
  using assms by (auto simp: do_attempt_progress_def Let_def split: option.splits if_splits)

lemma do_item_transition_frame:
  assumes "do_item_transition s status k e = Some sp"
  shows "sp_target sp = Some status" "sp_suspension sp = st_suspension s" "sp_control sp = st_control s"
  using assms by (auto simp: do_item_transition_def Let_def split: option.splits if_splits)

lemma do_item_frame:
  "do_work_item_eligible s status e = Some sp \<Longrightarrow>
     sp_target sp = Some status \<and> sp_suspension sp = st_suspension s \<and> sp_control sp = st_control s"
  "do_attempt_created s status e = Some sp \<Longrightarrow>
     sp_target sp = Some status \<and> sp_suspension sp = st_suspension s \<and> sp_control sp = st_control s"
  "do_attempt_fenced s status e = Some sp \<Longrightarrow>
     sp_target sp = Some status \<and> sp_suspension sp = st_suspension s \<and> sp_control sp = st_control s"
  by (auto simp: do_work_item_eligible_def do_attempt_created_def do_attempt_fenced_def Let_def
      split: option.splits if_splits)

lemma do_interrupt_frame:
  "do_interrupt_requested s status e = Some sp \<Longrightarrow>
     sp_target sp = Some status \<and> sp_suspension sp = st_suspension s \<and> ev_interrupt e \<noteq> None \<and>
     status \<notin> set terminal_task \<and> ct_status (current_control s) = CS_ACTIVE \<and>
     ev_version e = Some (ct_version (current_control s)) \<and>
     sp_control sp = Some \<lparr>ct_version = ct_version (current_control s), ct_status = CS_INTERRUPTED,
                           ct_interrupt = ev_interrupt e\<rparr>"
  "do_interrupt_resumed s status e = Some sp \<Longrightarrow>
     sp_target sp = Some status \<and> sp_suspension sp = st_suspension s \<and>
     ct_status (current_control s) = CS_INTERRUPTED \<and>
     ev_interrupt e = ct_interrupt (current_control s) \<and>
     ev_version e = Some (ct_version (current_control s)) \<and>
     sp_control sp = Some \<lparr>ct_version = ct_version (current_control s), ct_status = CS_ACTIVE,
                           ct_interrupt = None\<rparr>"
  by (auto simp: do_interrupt_requested_def do_interrupt_resumed_def Let_def split: if_splits)

lemmas arm_frames =
  do_attempt_progress_frame do_item_transition_frame do_item_frame do_interrupt_frame

lemma dispatch_suspension:
  assumes "dispatch s status k e = Some sp"
  obtains (kept) "sp_suspension sp = st_suspension s"
      "k \<notin> {EK_SUSPENSION_STARTED, EK_WAKE_ACCEPTED, EK_REDIRECT_AUTHORIZED, EK_TASK_CANCELLED}"
  | (cleared) "sp_suspension sp = None" "k \<in> {EK_REDIRECT_AUTHORIZED, EK_TASK_CANCELLED}"
  | (started) "k = EK_SUSPENSION_STARTED" "do_suspension_started s status e = Some sp"
  | (woken) "k = EK_WAKE_ACCEPTED" "do_wake_accepted s status e = Some sp"
proof (cases k rule: dispatch_cases)
  case control
  then show ?thesis using assms that(1,2)
    by (auto simp: arm_frames do_redirect_SomeD do_task_cancelled_SomeD)
next
  case wait
  then show ?thesis using assms that(3,4) by auto
next
  case item
  then show ?thesis using assms that(1) by (auto simp: arm_frames)
next
  case progress
  then show ?thesis using assms that(1) by (auto simp: arm_frames attempt_transitions_def)
next
  case outcome
  then show ?thesis using assms that(1) by (auto simp: arm_frames item_transitions_def)
next
  case plain
  then show ?thesis using assms that(1) by (auto simp: plain_kind_def)
qed

text \<open>The control record: kept, or rewritten by one of the four control events.\<close>

lemma dispatch_control:
  assumes "dispatch s status k e = Some sp"
  obtains (kept) "sp_control sp = st_control s"
      "k \<notin> {EK_INTERRUPT_REQUESTED, EK_INTERRUPT_RESUMED, EK_REDIRECT_AUTHORIZED, EK_TASK_CANCELLED}"
  | (active) v where "sp_control sp = Some \<lparr>ct_version = v, ct_status = CS_ACTIVE, ct_interrupt = None\<rparr>"
      "v = ct_version (current_control s) + (if k = EK_REDIRECT_AUTHORIZED then 1 else 0)"
      "k \<in> {EK_INTERRUPT_RESUMED, EK_REDIRECT_AUTHORIZED, EK_TASK_CANCELLED}"
  | (interrupted) i where "k = EK_INTERRUPT_REQUESTED" "ev_interrupt e = Some i"
      "sp_control sp = Some \<lparr>ct_version = ct_version (current_control s),
                             ct_status = CS_INTERRUPTED, ct_interrupt = Some i\<rparr>"
proof (cases k rule: dispatch_cases)
  case control
  then consider "k = EK_INTERRUPT_REQUESTED"
    | "k \<in> {EK_INTERRUPT_RESUMED, EK_REDIRECT_AUTHORIZED, EK_TASK_CANCELLED}" by auto
  then show ?thesis
  proof cases
    case 1
    then show ?thesis using assms that(3) do_interrupt_frame(1) [of s status e sp] by auto
  next
    case 2
    then show ?thesis using assms that(2)
      by (auto simp: arm_frames do_redirect_SomeD do_task_cancelled_SomeD)
  qed
next
  case wait
  then show ?thesis using assms that(1)
    by (auto elim!: do_suspension_started_SomeD do_wake_accepted_SomeD)
next
  case item
  then show ?thesis using assms that(1) by (auto simp: arm_frames)
next
  case progress
  then show ?thesis using assms that(1) by (auto simp: arm_frames attempt_transitions_def)
next
  case outcome
  then show ?thesis using assms that(1) by (auto simp: arm_frames item_transitions_def)
next
  case plain
  then show ?thesis using assms that(1) by (auto simp: plain_kind_def)
qed

text \<open>The status: kept, moved to FIXING by a redirect, or moved along the table.\<close>

lemma dispatch_target:
  assumes "dispatch s status k e = Some sp" and "sp_target sp = Some target"
  shows "target = status \<or> (k = EK_REDIRECT_AUTHORIZED \<and> target = TS_FIXING \<and> status \<notin> set terminal_task)
     \<or> task_transition status k = Some target"
proof (cases k rule: dispatch_cases)
  case control
  then show ?thesis using assms
    by (auto simp: arm_frames do_redirect_SomeD do_task_cancelled_SomeD)
next
  case wait
  then show ?thesis using assms
    by (auto elim!: do_suspension_started_SomeD do_wake_accepted_SomeD)
next
  case item
  then show ?thesis using assms by (auto simp: arm_frames)
next
  case progress
  then show ?thesis using assms by (auto simp: arm_frames)
next
  case outcome
  then show ?thesis using assms by (auto simp: arm_frames)
next
  case plain
  then show ?thesis using assms by auto
qed

section \<open>Validity is preserved\<close>

text \<open>
  \<^const>\<open>state_is_valid\<close> asks for distinct result identities but does not say where they come from.
  The reducer always names a result after its event; with that in the invariant, a fresh event
  gives a fresh result.
\<close>

definition results_named :: "state \<Rightarrow> bool" where
  "results_named s \<longleftrightarrow>
     list_all (\<lambda>x. ae_result x = Identity IK_RESULT (id_value (ae_event x) @ '':accepted''))
       (st_accepted s)"

definition kernel_inv :: "state \<Rightarrow> bool" where
  "kernel_inv s \<longleftrightarrow> state_is_valid s \<and> results_named s"

lemma result_identity_inj:
  assumes "has_identity_kind i IK_EVENT" and "has_identity_kind j IK_EVENT"
    and "Identity IK_RESULT (id_value i @ '':accepted'') = Identity IK_RESULT (id_value j @ '':accepted'')"
  shows "i = j"
  using assms by (auto simp: Identity_def has_identity_kind_def)

lemma suspension_is_valid_cong:
  assumes "st_task s' = st_task s" and "map wi_id (st_items s') = map wi_id (st_items s)"
  shows "suspension_is_valid u s' = suspension_is_valid u s"
proof -
  have "wi_id ` set (st_items s') = wi_id ` set (st_items s)"
    using assms(2) by (metis list.set_map)
  with assms(1) show ?thesis by (simp add: suspension_is_valid_def)
qed

lemma dispatch_suspension_valid:
  assumes "dispatch s status k e = Some sp" and "state_is_valid s" and "st_status s = Closed status"
    and "event_is_valid e" and "sp_suspension sp = Some u"
  shows "suspension_is_valid u s \<and> status = TS_EXECUTING"
  using assms(1)
proof (cases rule: dispatch_suspension)
  case kept
  then have "st_suspension s = Some u" using assms(5) by simp
  then show ?thesis using assms(2,3) by (simp add: state_is_valid_def)
next
  case cleared
  then show ?thesis using assms by simp
next
  case started
  then show ?thesis using assms(4,5)
    by (auto elim!: do_suspension_started_SomeD
        simp: suspension_is_valid_def event_is_valid_def opt_kind_ok_def)
next
  case woken
  then obtain p where "st_suspension s = Some p" and ex: "status = TS_EXECUTING"
    and wake: "ev_wake e \<noteq> None"
    and u: "u = p\<lparr>su_status := SS_RESUMED, su_wake := ev_wake e, su_reason := Some WR_DEPENDENCY_READY\<rparr>"
    using assms(5) by (auto elim!: do_wake_accepted_SomeD)
  then have "suspension_is_valid p s" using assms(2) by (simp add: state_is_valid_def)
  moreover have "opt_has_kind (ev_wake e) IK_WAKE"
    using wake assms(4) by (auto simp: event_is_valid_def opt_kind_ok_def opt_has_kind_def)
  ultimately show ?thesis using ex u by (simp add: suspension_is_valid_def)
qed

lemma current_control_valid: "state_is_valid s \<Longrightarrow> control_is_valid (current_control s)"
  by (auto simp: state_is_valid_def current_control_def control_is_valid_def split: option.splits)

lemma dispatch_control_valid:
  assumes "dispatch s status k e = Some sp" and "state_is_valid s" and "event_is_valid e"
  shows "opt_all control_is_valid (sp_control sp)"
  using assms(1)
proof (cases rule: dispatch_control)
  case kept
  then show ?thesis using assms(2) by (simp add: state_is_valid_def)
next
  case (active v)
  then show ?thesis using current_control_valid [OF assms(2)]
    by (auto simp: control_is_valid_def)
next
  case (interrupted i)
  then show ?thesis using current_control_valid [OF assms(2)] assms(3)
    by (auto simp: control_is_valid_def event_is_valid_def opt_kind_ok_def opt_has_kind_def)
qed

lemma takes_valid_next:
  assumes "takes s e ev status k sp target" and "state_is_valid s"
    and h: "h = st_accepted s @ [x]" and x: "accepted_event_is_valid x" "ae_event x = ev_id e"
      "\<forall>y\<in>set (st_accepted s). ae_result y \<noteq> ae_result x"
  shows "state_is_valid (next_state s status target sp h)"
proof -
  let ?n = "next_state s status target sp h"
  note t = assms(1) [unfolded takes_def]
  from t have d: "dispatch s status k e = Some sp" and e: "event_is_valid e"
    and fresh: "\<forall>y\<in>set (st_accepted s). ae_event y \<noteq> ev_id e" by (simp_all add: inputs_ok_def)
  have ids: "map wi_id (sp_items sp) = map wi_id (st_items s)"
    using moves_ids [OF dispatch_moves [OF d]] .
  have items: "list_all (\<lambda>w. work_item_is_valid w (st_task s)) (sp_items sp)"
    using moves_valid [OF dispatch_moves [OF d] _ e] assms(2) by (simp add: state_is_valid_def)
  have "suspension_is_valid u ?n \<and> target = TS_EXECUTING" if "st_suspension ?n = Some u" for u
    using dispatch_suspension_valid [OF d assms(2) _ e] that t ids
    by (auto simp: suspension_is_valid_cong [of ?n s] split: if_splits)
  then have "opt_all (\<lambda>u. suspension_is_valid u ?n) (st_suspension ?n)"
    "st_suspension ?n \<noteq> None \<longrightarrow> st_status ?n = Closed TS_EXECUTING"
    by (auto simp: opt_all_def split: option.splits)
  moreover have "distinct (map ae_event h)" "distinct (map ae_result h)"
    using assms(2) fresh h x by (auto simp: state_is_valid_def)
  ultimately show ?thesis
    using assms(2) items ids dispatch_control_valid [OF d assms(2) e] h x(1)
    by (simp add: state_is_valid_def)
qed

theorem reduce_inv:
  assumes "reduce s e ev = Accepted a" and "kernel_inv s"
  shows "kernel_inv (ac_state a)"
proof -
  from assms(1) obtain status k sp target where
    t: "takes s e ev status k sp target"
    and f: "finish s status k e (input_digest s e ev) sp = Accepted a"
    by (rule reduce_Accepted_takes)
  note a = finish_takes [OF t f]
  let ?x = "\<lparr>ae_event = ev_id e, ae_result = ac_result a, ae_input_digest = input_digest s e ev,
     ae_result_digest = ac_result_digest a\<rparr>"
  have ev: "has_identity_kind (ev_id e) IK_EVENT"
    and fresh: "\<forall>y\<in>set (st_accepted s). ae_event y \<noteq> ev_id e"
    using t by (simp_all add: takes_def inputs_ok_def event_is_valid_def)
  have x: "accepted_event_is_valid ?x"
    using ev a(1,5)
    by (simp add: accepted_event_is_valid_def result_identity_def Identity_def has_identity_kind_def
        input_digest_def accepted_result_digest_def)
  have "ae_result y \<noteq> ac_result a" if y: "y \<in> set (st_accepted s)" for y
  proof
    assume "ae_result y = ac_result a"
    moreover have "has_identity_kind (ae_event y) IK_EVENT"
      using assms(2) y by (auto simp: kernel_inv_def state_is_valid_def list_all_iff
          accepted_event_is_valid_def)
    ultimately have "ae_event y = ev_id e"
      using result_identity_inj [OF _ ev] assms(2) y a(1)
      by (auto simp: kernel_inv_def results_named_def list_all_iff result_identity_def)
    with fresh y show False by blast
  qed
  then have "state_is_valid (ac_state a)"
    using takes_valid_next [OF t _ refl x] assms(2) a(6) by (simp add: kernel_inv_def)
  moreover have "results_named (ac_state a)"
    using assms(2) a by (simp add: kernel_inv_def results_named_def result_identity_def)
  ultimately show ?thesis by (simp add: kernel_inv_def)
qed

section \<open>The identities the facts of a control event mention\<close>

text \<open>
  The f-strings of the control arms read \<^verbatim>\<open>.value\<close> of optional identities. Wherever an arm is
  reached these are present, so \<^const>\<open>opt_value\<close> never takes its default and Python never raises.
\<close>

lemma authority_principal:
  assumes "takes s e ev status k sp target" and "k \<in> set AUTHORITY_BOUND_EVENTS"
  shows "ev_principal e \<noteq> None \<and> (\<exists>x\<in>set ev. Some (evd_id x) = ev_authority e) \<and>
     (\<exists>r. ev_control_reason e = Some (Closed r))"
  using assms
  by (auto simp: takes_def inputs_ok_def authority_is_valid_iff opt_has_kind_iff list_ex_iff
      is_closed_iff)

lemma resumed_interrupt_present:
  assumes "takes s e ev status EK_INTERRUPT_RESUMED sp target"
  shows "ev_interrupt e \<noteq> None"
proof -
  have "ct_status (current_control s) = CS_INTERRUPTED" "ev_interrupt e = ct_interrupt (current_control s)"
    using assms do_interrupt_frame(2) by (auto simp: takes_def)
  moreover have "control_is_valid (current_control s)"
    using assms by (auto simp: takes_def inputs_ok_def intro: current_control_valid)
  ultimately show ?thesis by (auto simp: control_is_valid_def opt_has_kind_iff)
qed

end
