(* ===== verification/Kernel_Run.thy ===== *)
theory Kernel_Run
  imports Kernel_Invariant
begin

text \<open>
  Sequences of accepted steps. A trace records, for each accepted event, the event, its evidence
  and the accepted result; \<open>run s tr t\<close> says that feeding the events of \<open>tr\<close> to \<open>reduce\<close> from
  \<open>s\<close> gives these results and ends in \<open>t\<close>. Rejected and idempotent calls leave the state as it
  is, so these are all the state changes the kernel can make. The theory proves the properties of
  whole runs: what stays valid, what only grows, and what a terminal status tells of its past.
\<close>

type_synonym entry = "event \<times> evidence list \<times> accepted"

abbreviation entry_kind :: "entry \<Rightarrow> event_kind open_enum" where
  "entry_kind x \<equiv> ev_kind (fst x)"

abbreviation entry_result :: "entry \<Rightarrow> accepted" where
  "entry_result x \<equiv> snd (snd x)"

text \<open>The test of \<^verbatim>\<open>replay\<close> on a \<^verbatim>\<open>GenesisRoot\<close>.\<close>

definition genesis_ok :: "state \<Rightarrow> bool" where
  "genesis_ok s \<longleftrightarrow> state_is_valid s \<and> st_status s = Closed TS_PUBLISHED \<and> st_revision s = 0 \<and>
     st_accepted s = []"

inductive run :: "state \<Rightarrow> entry list \<Rightarrow> state \<Rightarrow> bool" where
  run_Nil: "run s [] s"
| run_Cons: "reduce s e ev = Accepted a \<Longrightarrow> run (ac_state a) tr t \<Longrightarrow> run s ((e, ev, a) # tr) t"

inductive_simps run_Nil_iff [simp]: "run s [] t"
inductive_simps run_Cons_iff: "run s (x # tr) t"
inductive_cases run_ConsE: "run s (x # tr) t"

lemma run_append:
  "run s (tr @ tr') t \<longleftrightarrow> (\<exists>u. run s tr u \<and> run u tr' t)"
  by (induction tr arbitrary: s) (auto simp: run_Cons_iff)

lemma run_snoc:
  "run s (tr @ [(e, ev, a)]) t \<longleftrightarrow>
     (\<exists>u. run s tr u \<and> reduce u e ev = Accepted a \<and> t = ac_state a)"
  by (auto simp: run_append run_Cons_iff)

lemma run_deterministic:
  "run s tr t \<Longrightarrow> run s tr t' \<Longrightarrow> t' = t"
  by (induction arbitrary: t' rule: run.induct) (auto simp: run_Cons_iff)

text \<open>Induction over a run for a property that every accepted step preserves.\<close>

lemma run_invariant:
  assumes "run s tr t" and "I s"
    and "\<And>s e ev a. I s \<Longrightarrow> reduce s e ev = Accepted a \<Longrightarrow> I (ac_state a)"
  shows "I t"
  using assms(1,2) by (induction rule: run.induct) (auto intro: assms(3))

text \<open>Induction over a run for a preorder on states, with an invariant in reach.\<close>

lemma run_preorder:
  assumes "run s tr t" and "I s" and "\<And>s. R s s" and "\<And>s t u. R s t \<Longrightarrow> R t u \<Longrightarrow> R s u"
    and "\<And>s e ev a. I s \<Longrightarrow> reduce s e ev = Accepted a \<Longrightarrow> I (ac_state a) \<and> R s (ac_state a)"
  shows "R s t"
  using assms(1,2)
proof (induction rule: run.induct)
  case (run_Nil s)
  show ?case by (rule assms(3))
next
  case (run_Cons s e ev a tr t)
  have "I (ac_state a)" and R: "R s (ac_state a)"
    using assms(5) [OF run_Cons.prems run_Cons.hyps(1)] by blast+
  then have "R (ac_state a) t" using run_Cons.IH by blast
  with R show ?case by (rule assms(4))
qed

section \<open>One accepted step, field by field\<close>

lemma reduce_Accepted_state:
  assumes "reduce s e ev = Accepted a"
  obtains status k sp target where "takes s e ev status k sp target"
    and "ac_state a = next_state s status target sp (st_accepted s @
           [\<lparr>ae_event = ev_id e, ae_result = ac_result a, ae_input_digest = input_digest s e ev,
             ae_result_digest = ac_result_digest a\<rparr>])"
    and "ac_obligations a = sp_obligations sp"
    and "dispatch s status k e = Some sp" and "st_status s = Closed status"
    and "ev_kind e = Closed k" and "sp_target sp = Some target"
proof -
  from assms obtain status k sp target where
    t: "takes s e ev status k sp target"
    and f: "finish s status k e (input_digest s e ev) sp = Accepted a"
    by (rule reduce_Accepted_takes)
  show ?thesis using finish_takes [OF t f] t by (intro that [OF t]) (simp_all add: takes_def)
qed

lemma reduce_frame:
  assumes "reduce s e ev = Accepted a"
  shows "st_protocol_version (ac_state a) = st_protocol_version s"
    and "st_installation (ac_state a) = st_installation s"
    and "st_leader_epoch (ac_state a) = st_leader_epoch s"
    and "st_task (ac_state a) = st_task s"
    and "st_revision (ac_state a) = st_revision s + 1"
    and "st_accepted (ac_state a) = st_accepted s @
           [\<lparr>ae_event = ev_id e, ae_result = ac_result a, ae_input_digest = input_digest s e ev,
             ae_result_digest = ac_result_digest a\<rparr>]"
    and "is_closed (st_status (ac_state a))"
  using assms by (auto elim!: reduce_Accepted_state)

lemma reduce_moves:
  assumes "reduce s e ev = Accepted a" and "ev_kind e = Closed k"
  shows "list_all2 (moves (st_task s) k e) (st_items s) (st_items (ac_state a))"
  using assms by (auto elim!: reduce_Accepted_state intro: dispatch_moves)

lemma reduce_Accepted_valid:
  "reduce s e ev = Accepted a \<Longrightarrow> state_is_valid s \<and> event_is_valid e \<and> evidence_set_is_valid ev"
  by (erule reduce_Accepted_takes) (simp add: takes_def inputs_ok_def)

lemma genesis_inv: "genesis_ok s \<Longrightarrow> kernel_inv s"
  by (simp add: genesis_ok_def kernel_inv_def results_named_def)

lemma run_inv: "run s tr t \<Longrightarrow> kernel_inv s \<Longrightarrow> kernel_inv t"
  by (rule run_invariant) (auto intro: reduce_inv)

section \<open>Reachable states are valid\<close>

text \<open>
  C1. Every state the kernel can reach from a genesis state is structurally valid (so the reducer
  never rejects its own output), belongs to the same installation, epoch and task, and its
  history is exactly the accepted events in order: the revision counts them, each carries the
  digest of its result, and no event identity and no result identity occurs twice.
\<close>

theorem reachable_states_valid:
  assumes "genesis_ok g" and "run g tr t"
  shows "state_is_valid t \<and> st_installation t = st_installation g \<and>
     st_leader_epoch t = st_leader_epoch g \<and> st_task t = st_task g \<and>
     st_revision t = int (length tr) \<and>
     map ae_event (st_accepted t) = map (\<lambda>x. ev_id (fst x)) tr \<and>
     map ae_result_digest (st_accepted t) = map (\<lambda>x. ac_result_digest (entry_result x)) tr \<and>
     distinct (map (\<lambda>x. ev_id (fst x)) tr) \<and> distinct (map (\<lambda>x. ac_result (entry_result x)) tr)"
proof -
  have hist: "st_installation t = st_installation s \<and> st_leader_epoch t = st_leader_epoch s \<and>
      st_task t = st_task s \<and>
      map ae_event (st_accepted t) = map ae_event (st_accepted s) @ map (\<lambda>x. ev_id (fst x)) tr \<and>
      map ae_result (st_accepted t) = map ae_result (st_accepted s)
        @ map (\<lambda>x. ac_result (entry_result x)) tr \<and>
      map ae_result_digest (st_accepted t) = map ae_result_digest (st_accepted s)
        @ map (\<lambda>x. ac_result_digest (entry_result x)) tr" if "run s tr t" for s tr
    using that by (induction rule: run.induct) (simp_all add: reduce_frame)
  have "state_is_valid t"
    using run_inv [OF assms(2) genesis_inv [OF assms(1)]] by (simp add: kernel_inv_def)
  moreover from this have "st_revision t = int (length (map ae_event (st_accepted t)))"
    "distinct (map ae_event (st_accepted t))" "distinct (map ae_result (st_accepted t))"
    by (simp_all add: state_is_valid_def)
  ultimately show ?thesis
    using hist [OF assms(2)] assms(1) by (simp add: genesis_ok_def)
qed

section \<open>Idempotency\<close>

lemma run_history:
  assumes "run s tr t" and "x \<in> set (st_accepted s)"
  shows "x \<in> set (st_accepted t)"
  using assms by (induction rule: run.induct) (simp_all add: reduce_frame)

lemma run_protocol_version: "run s tr t \<Longrightarrow> st_protocol_version t = st_protocol_version s"
  by (induction rule: run.induct) (simp_all add: reduce_frame)

lemma run_owner:
  "run s tr t \<Longrightarrow> st_installation t = st_installation s \<and> st_leader_epoch t = st_leader_epoch s \<and>
     st_task t = st_task s"
  by (induction rule: run.induct) (simp_all add: reduce_frame)

lemma evidence_json_inj: "inj evidence_json"
proof (rule injI)
  fix x y :: evidence
  assume "evidence_json x = evidence_json y"
  then have "json_eq (evidence_json x) (evidence_json y)" by simp
  then show "x = y" by (simp only: evidence_json_eq_iff)
qed

lemma image_mset_inj: "inj f \<Longrightarrow> image_mset f A = image_mset f B \<Longrightarrow> A = B"
  by (metis (no_types, lifting) inv_o_cancel multiset.map_comp multiset.map_id)

lemma canonical_evidence_mset:
  assumes "mset ev = mset ev'"
  shows "canonical_evidence ev = canonical_evidence ev'"
  unfolding canonical_evidence_def
proof (rule sort_key_perm_eq)
  show "mset (map evidence_json ev) = mset (map evidence_json ev')" using assms by simp
  show "inj_on canonical_json (set (map evidence_json ev))"
    by (auto simp: inj_on_def canonical_json_eq_iff)
qed

lemma canonical_evidence_range: "\<exists>xs. canonical_evidence ev = map evidence_json xs \<and> mset xs = mset ev"
proof -
  have "set (canonical_evidence ev) \<subseteq> range evidence_json"
    by (auto simp: canonical_evidence_def)
  then obtain xs where xs: "canonical_evidence ev = map evidence_json xs"
    by (metis ex_map_conv subsetD rangeE)
  have "mset (canonical_evidence ev) = image_mset evidence_json (mset ev)"
    by (simp add: canonical_evidence_def)
  then have "mset xs = mset ev" using xs image_mset_inj [OF evidence_json_inj] by simp
  with xs show ?thesis by blast
qed

lemma canonical_evidence_inj:
  assumes "json_eq (JArr (canonical_evidence ev)) (JArr (canonical_evidence ev'))"
  shows "mset ev = mset ev'"
proof -
  obtain xs ys where "canonical_evidence ev = map evidence_json xs" "mset xs = mset ev"
    "canonical_evidence ev' = map evidence_json ys" "mset ys = mset ev'"
    using canonical_evidence_range by metis
  moreover from calculation assms have "xs = ys"
    by (intro list_all2_json_eq_map_inj [of evidence_json]) (simp_all add: json_eq_JArr_iff)
  ultimately show ?thesis by simp
qed

lemma evidence_set_valid_mset:
  assumes "mset ev = mset ev'"
  shows "evidence_set_is_valid ev = evidence_set_is_valid ev'"
proof -
  have "set ev = set ev'" using assms by (rule mset_eq_setD)
  moreover have "distinct (map evd_id ev) = distinct (map evd_id ev')"
    using assms by (intro mset_eq_imp_distinct_iff) simp
  ultimately show ?thesis by (simp add: evidence_set_is_valid_def list_all_iff)
qed

lemma input_digest_mset:
  assumes "mset ev = mset ev'"
  shows "input_digest s e ev = input_digest s e ev'"
  by (simp add: input_digest_def input_value_def canonical_evidence_mset [OF assms])

lemma inputs_ok_mset:
  assumes "mset ev = mset ev'"
  shows "inputs_ok s k e ev = inputs_ok s k e ev'"
  using mset_eq_setD [OF assms] evidence_set_valid_mset [OF assms]
  by (simp add: inputs_ok_def authority_is_valid_iff list_ex_iff)

lemma event_valid_closed: "event_is_valid e \<Longrightarrow> event_closed e"
  by (simp add: event_is_valid_def event_closed_def)

lemma input_value_inj:
  assumes "json_eq (input_value s e ev) (input_value t e' ev')"
    and "event_is_valid e" and "event_is_valid e'"
  shows "e = e' \<and> mset ev = mset ev'"
proof -
  have "json_eq (event_json e) (event_json e')"
    by (rule json_eq_field [OF assms(1), of "''event''"]) (simp_all add: input_value_def)
  moreover have "json_eq (JArr (canonical_evidence ev)) (JArr (canonical_evidence ev'))"
    by (rule json_eq_field [OF assms(1), of "''evidence_set''"]) (simp_all add: input_value_def)
  ultimately show ?thesis
    using assms(2,3) by (auto intro: event_json_inj event_valid_closed canonical_evidence_inj)
qed

lemma reduce_mset:
  assumes "mset ev = mset ev'"
  shows "reduce s e ev = reduce s e ev'"
  unfolding reduce_def
  by (cases "st_status s"; cases "ev_kind e")
     (simp_all add: Let_def input_digest_mset [OF assms] inputs_ok_mset [OF assms])

text \<open>
  The evidence set is a set: the reducer gives the same result, digests included, whatever
  the order in which the evidence is listed.
\<close>

theorem evidence_order_irrelevant:
  assumes "mset ev = mset ev'"
  shows "reduce s e ev = reduce s e ev'"
  by (rule reduce_mset [OF assms])

text \<open>What the reducer does with an event identity that is already in the history.\<close>

lemma reduce_known_event:
  assumes "kernel_inv t" and "x \<in> set (st_accepted t)" and "ae_event x = ev_id e"
    and "st_status t = Closed status" and "ev_kind e = Closed k" and "inputs_ok t k e ev"
  shows "reduce t e ev =
     (if attempt_event_is_stale t k e
      then reject t (input_digest t e ev) STATE_CONFLICT_ERROR None None
      else if ae_input_digest x = input_digest t e ev
      then NoOp \<lparr>no_state = t, no_input_digest = input_digest t e ev,
                 no_prior_result = ae_result x, no_prior_digest = ae_result_digest x\<rparr>
      else reject t (input_digest t e ev) IDEMPOTENCY_CONFLICT_ERROR (Some (ae_result x))
             (Some (ae_result_digest x)))"
proof -
  have "distinct (map ae_event (st_accepted t))"
    using assms(1) by (simp add: kernel_inv_def state_is_valid_def)
  then have "List.find (\<lambda>a. ae_event a = ev_id e) (st_accepted t) = Some x"
    using distinct_map_find [of ae_event "st_accepted t" x] assms(2,3) by simp
  moreover have "opt_closed (ev_wake_reason e)" "opt_closed (ev_control_reason e)"
    "opt_closed (ev_scope e)"
    using assms(6) by (simp_all add: inputs_ok_def event_is_valid_def)
  ultimately show ?thesis using assms(4-6) by (simp add: reduce_def Let_def)
qed

lemma run_status_closed:
  "run s tr t \<Longrightarrow> is_closed (st_status s) \<Longrightarrow> is_closed (st_status t)"
  by (induction rule: run.induct) (simp_all add: reduce_frame)

lemma accepted_then_later:
  assumes "reduce s e ev = Accepted a" and "kernel_inv s" and "run (ac_state a) tr t"
  obtains x status where "kernel_inv t" "x \<in> set (st_accepted t)" "ae_event x = ev_id e"
    "ae_input_digest x = input_digest s e ev" "ae_result x = ac_result a"
    "ae_result_digest x = ac_result_digest a" "st_status t = Closed status"
    "st_protocol_version t = st_protocol_version s" "st_installation t = st_installation s"
    "st_leader_epoch t = st_leader_epoch s"
proof -
  let ?x = "\<lparr>ae_event = ev_id e, ae_result = ac_result a, ae_input_digest = input_digest s e ev,
    ae_result_digest = ac_result_digest a\<rparr>"
  have "?x \<in> set (st_accepted t)"
    using run_history [OF assms(3), of ?x] reduce_frame [OF assms(1)] by simp
  moreover obtain status where "st_status t = Closed status"
    using run_status_closed [OF assms(3)] reduce_frame(7) [OF assms(1)] by (auto simp: is_closed_iff)
  moreover have "kernel_inv t" using assms by (blast intro: run_inv reduce_inv)
  ultimately show ?thesis
    using run_owner [OF assms(3)] run_protocol_version [OF assms(3)] reduce_frame [OF assms(1)]
    by (intro that [of ?x status]) simp_all
qed

text \<open>
  An attempt-scoped event whose attempt is still the current one of its work item and has been
  cancelled, or, for the event that created it, fenced.
\<close>

definition withdrawn :: "state \<Rightarrow> event_kind \<Rightarrow> event \<Rightarrow> bool" where
  "withdrawn t k e \<longleftrightarrow> k \<in> set ATTEMPT_SCOPED_EVENTS \<and>
     (case List.find (\<lambda>w. Some (wi_id w) = ev_item e) (st_items t) of
        None \<Rightarrow> False
      | Some w \<Rightarrow>
          (case wi_attempt w of
             None \<Rightarrow> False
           | Some a \<Rightarrow> event_tuple e = attempt_tuple a \<and>
               (at_status a = AS_CANCELLED \<or> k = EK_ATTEMPT_CREATED \<and> at_status a = AS_FENCED)))"

lemma withdrawn_not_stale: "withdrawn t k e \<Longrightarrow> \<not> attempt_event_is_stale t k e"
  unfolding withdrawn_def attempt_event_is_stale_def by (auto split: option.split_asm)

text \<open>
  C3. Retry. Take any state reachable from genesis, an event accepted there, and any later state.
  Submitting the event again, with its evidence in any order, never changes the state. First, when
  the event's attempt has not been withdrawn: the answer is the idempotent \<^verbatim>\<open>no_op\<close> that names the
  original result and its digest, except that an attempt-scoped event whose attempt has meanwhile been
  superseded or fenced is refused as stale. Second, where the code departs from SPEC 21.2.1, which
  says that an event bound to a cancelled or fenced attempt is a state conflict and must not be an
  idempotent duplicate: when the attempt is cancelled, or fenced and the event the one that created
  it, the answer is the idempotent \<^verbatim>\<open>no_op\<close> all the same.
\<close>

theorem retry_of_accepted_event:
  assumes "genesis_ok g" and "run g tr0 s" and "reduce s e ev = Accepted a" and "run (ac_state a) tr t"
    and "mset ev' = mset ev" and "ev_kind e = Closed k"
  shows "(\<not> withdrawn t k e \<longrightarrow> reduce t e ev' =
       (if attempt_event_is_stale t k e
        then Rejected \<lparr>rj_state = t, rj_input_digest = ac_input_digest a,
               rj_error_code = STATE_CONFLICT_ERROR, rj_prior_result = None, rj_prior_digest = None\<rparr>
        else NoOp \<lparr>no_state = t, no_input_digest = ac_input_digest a, no_prior_result = ac_result a,
               no_prior_digest = ac_result_digest a\<rparr>)) \<and>
     (withdrawn t k e \<longrightarrow> reduce t e ev' =
        NoOp \<lparr>no_state = t, no_input_digest = ac_input_digest a, no_prior_result = ac_result a,
          no_prior_digest = ac_result_digest a\<rparr>)"
proof -
  have inv: "kernel_inv s" using run_inv [OF assms(2) genesis_inv [OF assms(1)]] .
  from accepted_then_later [OF assms(3) inv assms(4)] obtain x status where
    x: "kernel_inv t" "x \<in> set (st_accepted t)" "ae_event x = ev_id e"
    "ae_input_digest x = input_digest s e ev" "ae_result x = ac_result a"
    "ae_result_digest x = ac_result_digest a" "st_status t = Closed status"
    and owner: "st_protocol_version t = st_protocol_version s" "st_installation t = st_installation s"
    "st_leader_epoch t = st_leader_epoch s" .
  from assms(3) obtain status' k' sp target where tk: "takes s e ev status' k' sp target"
    and f: "finish s status' k' e (input_digest s e ev) sp = Accepted a"
    by (rule reduce_Accepted_takes)
  have "inputs_ok t k e ev"
    using tk owner x(1) assms(6) by (simp add: takes_def inputs_ok_def kernel_inv_def)
  then have ok: "inputs_ok t k e ev'" using inputs_ok_mset [OF assms(5)] by simp
  have "input_digest t e ev' = input_digest s e ev"
    using owner input_digest_mset [OF assms(5)] by (simp add: input_digest_def input_value_def)
  moreover have "ac_input_digest a = input_digest s e ev" using finish_takes [OF tk f] by simp
  ultimately show ?thesis
    using reduce_known_event [OF x(1,2,3,7) assms(6) ok] x(4,5,6) withdrawn_not_stale [of t k e]
    by (simp add: reject_def)
qed

text \<open>
  Reuse of an event identity. Once an event has been accepted, no event with the same
  identity is ever accepted again, and only the same event with the same evidence is treated as
  its duplicate: a \<^verbatim>\<open>no_op\<close> for anything else exhibits a collision of SHA-256.
\<close>

theorem event_identity_used_once:
  assumes "kernel_inv s" and "reduce s e ev = Accepted a" and "run (ac_state a) tr t"
    and "ev_id e' = ev_id e"
  shows "case reduce t e' ev' of
      Accepted b \<Rightarrow> False
    | NoOp n \<Rightarrow> (e' = e \<and> mset ev' = mset ev) \<or> sha_collision (input_value t e' ev') (input_value s e ev)
    | Rejected r \<Rightarrow> rj_state r = t"
proof (cases "reduce t e' ev'")
  case (Accepted b)
  then obtain x where "x \<in> set (st_accepted t)" "ae_event x = ev_id e'"
    using accepted_then_later [OF assms(2,1,3)] assms(4) by metis
  then show ?thesis using Accepted
    by (auto elim!: reduce_Accepted_takes simp: takes_def)
next
  case (NoOp n)
  from accepted_then_later [OF assms(2,1,3)] obtain x status where
    x: "kernel_inv t" "x \<in> set (st_accepted t)" "ae_event x = ev_id e"
    "ae_input_digest x = input_digest s e ev" "st_status t = Closed status" by metis
  from NoOp x(5) obtain k where k: "ev_kind e' = Closed k" "inputs_ok t k e' ev'"
    by (auto simp: reduce_def reject_def Let_def split: open_enum.splits if_splits)
  have "input_digest s e ev = input_digest t e' ev'"
    using reduce_known_event [OF x(1,2) _ x(5) k] NoOp x(3,4) assms(4)
    by (simp add: reject_def split: if_splits)
  then have "digest (input_value t e' ev') = digest (input_value s e ev)"
    by (simp add: input_digest_def)
  moreover have "event_is_valid e'" "event_is_valid e"
    using k(2) reduce_Accepted_valid [OF assms(2)] by (simp_all add: inputs_ok_def)
  ultimately show ?thesis
    using digest_eqD input_value_inj NoOp by fastforce
next
  case (Rejected r)
  then have "rj_state r = t"
    by (auto simp: reduce_def reject_def finish_def Let_def
        split: open_enum.splits if_splits option.splits)
  then show ?thesis using Rejected by simp
qed

end
