(* ===== verification/Kernel_Status.thy ===== *)
theory Kernel_Status
  imports Kernel_Run
begin

text \<open>
  The task status. The transition graph of the protocol document (SPEC.md, section 21.2) is
  stated as an inductive relation, and every accepted step of the reducer is shown to follow it;
  the properties of runs (terminal statuses, what a done task went through) follow from the
  graph.
\<close>

inductive task_edge :: "event_kind \<Rightarrow> task_status \<Rightarrow> task_status \<Rightarrow> bool" where
  "task_edge EK_ROUTING_VALIDATION_STARTED TS_PUBLISHED TS_ROUTING_VALIDATION"
| "task_edge EK_ROUTING_VALIDATION_PASSED TS_ROUTING_VALIDATION TS_DISPATCHING"
| "task_edge EK_DISPATCH_ACCEPTED TS_DISPATCHING TS_EXECUTING"
| "task_edge EK_WORK_COMPLETED TS_EXECUTING TS_VERIFYING"
| "task_edge EK_VERIFICATION_PASSED TS_VERIFYING TS_REVIEWING"
| "task_edge EK_VERIFICATION_FAILED TS_VERIFYING TS_FIXING"
| "task_edge EK_REVIEW_PASSED TS_REVIEWING TS_RECORDING"
| "task_edge EK_REVIEW_REJECTED TS_REVIEWING TS_FIXING"
| "task_edge EK_APPROVAL_REQUIRED_RAISED TS_REVIEWING TS_APPROVAL_REQUIRED"
| "task_edge EK_FIX_DISPATCH_REQUESTED TS_FIXING TS_DISPATCHING"
| "task_edge EK_APPROVAL_GRANTED TS_APPROVAL_REQUIRED TS_RECORDING"
| "task_edge EK_APPROVAL_DENIED TS_APPROVAL_REQUIRED TS_FIXING"
| "task_edge EK_RECORDING_COMPLETED TS_RECORDING TS_DONE"
| "s \<in> {TS_EXECUTING, TS_VERIFYING, TS_REVIEWING, TS_FIXING} \<Longrightarrow> task_edge EK_TASK_BLOCKED s TS_BLOCKED"
| "task_edge EK_BLOCKED_RECOVERY_TO_FIXING TS_BLOCKED TS_FIXING"
| "s \<notin> {TS_DONE, TS_FAILED, TS_CANCELLED} \<Longrightarrow> task_edge EK_TASK_FAILED s TS_FAILED"
| "s \<notin> {TS_DONE, TS_FAILED, TS_CANCELLED} \<Longrightarrow> task_edge EK_TASK_CANCELLED s TS_CANCELLED"
| "s \<notin> {TS_DONE, TS_FAILED, TS_CANCELLED} \<Longrightarrow> task_edge EK_REDIRECT_AUTHORIZED s TS_FIXING"

inductive_simps task_edge_iff: "task_edge k s t"
inductive_simps edge_to:
  "task_edge k s TS_DONE" "task_edge k s TS_RECORDING" "task_edge k s TS_REVIEWING"
  "task_edge k s TS_APPROVAL_REQUIRED" "task_edge k s TS_VERIFYING" "task_edge k s TS_EXECUTING"
inductive_simps redirect_edge: "task_edge EK_REDIRECT_AUTHORIZED s TS_FIXING"

text \<open>The events that move no task.\<close>

definition task_neutral :: "event_kind list" where
  "task_neutral =
     [EK_WORK_ITEM_ELIGIBLE, EK_ATTEMPT_CREATED, EK_ATTEMPT_COMPLETED, EK_ATTEMPT_FENCED,
      EK_ATTEMPT_SUBMITTED, EK_ATTEMPT_RUNNING, EK_ATTEMPT_FAILED, EK_ATTEMPT_CANCELLED,
      EK_WORK_ITEM_PARTIAL, EK_WORK_ITEM_DEGRADED, EK_WORK_ITEM_BLOCKED, EK_WORK_ITEM_FAILED,
      EK_WORK_ITEM_CANCELLED, EK_WORK_ITEM_SKIPPED, EK_SUSPENSION_STARTED, EK_WAKE_ACCEPTED,
      EK_INTERRUPT_REQUESTED, EK_INTERRUPT_RESUMED]"

section \<open>The table of the code is the graph of the protocol\<close>

lemma terminal_task_set: "set terminal_task = {TS_DONE, TS_FAILED, TS_CANCELLED}"
  by (simp add: terminal_task_def)

lemma table_sound:
  "list_all (\<lambda>x. task_edge (snd (fst x)) (fst (fst x)) (snd x)) KERNEL_TASK_TRANSITIONS"
  by (simp add: KERNEL_TASK_TRANSITIONS_def task_edge_iff all_task_status_def terminal_task_def)

lemma table_complete:
  assumes "task_edge k s t" and "k \<noteq> EK_REDIRECT_AUTHORIZED"
  shows "task_transition s k = Some t"
  using assms
proof (cases rule: task_edge.cases)
  case 14
  then show ?thesis
    by (auto simp: task_transition_def KERNEL_TASK_TRANSITIONS_def)
next
  case 16
  then show ?thesis
    by (cases s) (simp_all add: task_transition_def KERNEL_TASK_TRANSITIONS_def all_task_status_def
        terminal_task_def)
next
  case 17
  then show ?thesis
    by (cases s) (simp_all add: task_transition_def KERNEL_TASK_TRANSITIONS_def all_task_status_def
        terminal_task_def)
qed (simp_all add: task_transition_def KERNEL_TASK_TRANSITIONS_def)

lemma task_transition_iff:
  "task_transition s k = Some t \<longleftrightarrow> task_edge k s t \<and> k \<noteq> EK_REDIRECT_AUTHORIZED"
proof
  assume "task_transition s k = Some t"
  then have "((s, k), t) \<in> set KERNEL_TASK_TRANSITIONS" by (rule task_transition_SomeD)
  moreover have "list_all (\<lambda>x. snd (fst x) \<noteq> EK_REDIRECT_AUTHORIZED) KERNEL_TASK_TRANSITIONS"
    by code_simp
  ultimately show "task_edge k s t \<and> k \<noteq> EK_REDIRECT_AUTHORIZED"
    using table_sound by (auto simp: list_all_iff)
qed (auto intro: table_complete)

lemma dispatch_status:
  assumes "dispatch s status k e = Some sp" and "sp_target sp = Some target"
  shows "if k \<in> set task_neutral then target = status else task_edge k status target"
proof (cases k rule: dispatch_cases)
  case control
  have "status \<notin> set terminal_task" if "k = EK_REDIRECT_AUTHORIZED"
    using assms(1) that do_redirect_SomeD(1) by auto
  with control show ?thesis using assms
    by (auto simp: arm_frames do_redirect_SomeD(8) do_task_cancelled_SomeD(3) task_neutral_def
        task_transition_iff redirect_edge terminal_task_set)
next
  case wait
  then show ?thesis using assms
    by (auto simp: task_neutral_def elim!: do_suspension_started_SomeD do_wake_accepted_SomeD)
next
  case item
  then show ?thesis using assms by (auto simp: arm_frames task_neutral_def)
next
  case progress
  then show ?thesis using assms by (auto simp: arm_frames task_neutral_def attempt_transitions_def)
next
  case outcome
  then show ?thesis using assms by (auto simp: arm_frames task_neutral_def item_transitions_def)
next
  case plain
  then show ?thesis using assms by (auto simp: task_neutral_def plain_kind_def task_transition_iff)
qed

lemma reduce_status:
  assumes "reduce s e ev = Accepted a"
  obtains k status target where "ev_kind e = Closed k" "st_status s = Closed status"
    "st_status (ac_state a) = Closed target"
    "if k \<in> set task_neutral then target = status else task_edge k status target"
proof -
  from assms obtain status k sp target where
    "ev_kind e = Closed k" "st_status s = Closed status" "st_status (ac_state a) = Closed target"
    "dispatch s status k e = Some sp" "sp_target sp = Some target"
    by (auto elim!: reduce_Accepted_state)
  with dispatch_status show ?thesis by (intro that [of k status target])
qed

lemma neutral_no_edge: "k \<in> set task_neutral \<Longrightarrow> \<not> task_edge k s t"
  by (auto simp: task_neutral_def task_edge_iff)

text \<open>
  C5. Refinement of the protocol's task graph. Every accepted event moves the task status along
  an edge of the graph of SPEC.md 21.2 (with the redirect edge of 21.2.3), or is one of the
  work-item, attempt, suspension and interrupt events and leaves the status alone; every call
  that is not accepted leaves the whole state alone.
\<close>

theorem task_status_follows_graph:
  "case reduce s e ev of
     Accepted a \<Rightarrow> \<exists>k status target. ev_kind e = Closed k \<and> st_status s = Closed status \<and>
       st_status (ac_state a) = Closed target \<and>
       (if k \<in> set task_neutral then target = status else task_edge k status target)
   | NoOp n \<Rightarrow> no_state n = s
   | Rejected r \<Rightarrow> rj_state r = s"
proof (cases "reduce s e ev")
  case (Accepted a)
  then obtain k status target where "ev_kind e = Closed k" "st_status s = Closed status"
    "st_status (ac_state a) = Closed target"
    "if k \<in> set task_neutral then target = status else task_edge k status target"
    by (rule reduce_status)
  then show ?thesis using Accepted by simp
next
  case (NoOp n)
  then have "no_state n = s"
    by (auto simp: reduce_def reject_def finish_def Let_def
        split: open_enum.splits if_splits option.splits)
  then show ?thesis using NoOp by simp
next
  case (Rejected r)
  then have "rj_state r = s"
    by (auto simp: reduce_def reject_def finish_def Let_def
        split: open_enum.splits if_splits option.splits)
  then show ?thesis using Rejected by simp
qed

section \<open>Terminal statuses\<close>

lemma terminal_step:
  assumes "reduce s e ev = Accepted a" and "st_status s = Closed status"
    and "status \<in> set terminal_task"
  shows "st_status (ac_state a) = Closed status"
  using assms by (auto elim!: reduce_status simp: task_edge_iff terminal_task_set split: if_splits)

text \<open>
  A task that is done, failed or cancelled keeps that status for ever.
\<close>

theorem terminal_status_absorbing:
  assumes "run s tr t" and "st_status s = Closed status" and "status \<in> set terminal_task"
  shows "st_status t = Closed status"
  using assms(1,2) by (induction rule: run.induct) (auto dest: terminal_step intro: assms(3))

section \<open>What a done task went through\<close>

text \<open>The last time a run starts to satisfy a property of states.\<close>

lemma run_last_entry:
  assumes "run s tr t" and "\<not> P s" and "P t"
  obtains tr1 u e ev a tr2 where "tr = tr1 @ (e, ev, a) # tr2" "run s tr1 u" "\<not> P u"
    "reduce u e ev = Accepted a" "P (ac_state a)"
    "list_all (\<lambda>x. P (ac_state (entry_result x))) tr2"
  using assms(1,3)
proof (induction tr arbitrary: t thesis rule: rev_induct)
  case Nil
  then show ?case using assms(2) by simp
next
  case (snoc x tr)
  obtain e ev a where x: "x = (e, ev, a)" by (cases x)
  with snoc.prems(2) obtain u where u: "run s tr u" "reduce u e ev = Accepted a" "t = ac_state a"
    by (auto simp: run_snoc)
  show ?case
  proof (cases "P u")
    case False
    then show ?thesis using snoc.prems(1) [of tr e ev a "[]" u] u x snoc.prems(3) by simp
  next
    case True
    show ?thesis
    proof (rule snoc.IH [OF _ u(1) True])
      fix tr1 e' ev' a' tr2 u'
      assume *: "tr = tr1 @ (e', ev', a') # tr2" "run s tr1 u'" "\<not> P u'"
        "reduce u' e' ev' = Accepted a'" "P (ac_state a')"
        "list_all (\<lambda>x. P (ac_state (entry_result x))) tr2"
      show thesis
        using snoc.prems(1) [of tr1 e' ev' a' "tr2 @ [x]" u'] * x u(3) snoc.prems(3) by simp
    qed
  qed
qed

text \<open>The last entry into a set of statuses, with the event that made it.\<close>

abbreviation in_status :: "task_status set \<Rightarrow> state \<Rightarrow> bool" where
  "in_status S s \<equiv> st_status s \<in> Closed ` S"

lemma run_last_entry_status:
  assumes "run s tr t" and "\<not> in_status S s" and "in_status S t"
  obtains tr1 u x tr2 k status target where "tr = tr1 @ x # tr2" "run s tr1 u"
    "entry_kind x = Closed k" "st_status u = Closed status" "status \<notin> S" "target \<in> S"
    "task_edge k status target"
    "list_all (\<lambda>y. in_status S (ac_state (entry_result y))) tr2"
proof -
  from run_last_entry [of s tr t "in_status S", OF assms] obtain tr1 u e ev a tr2 where
    *: "tr = tr1 @ (e, ev, a) # tr2" "run s tr1 u" "\<not> in_status S u"
    "reduce u e ev = Accepted a" "in_status S (ac_state a)"
    "list_all (\<lambda>x. in_status S (ac_state (entry_result x))) tr2" .
  from *(4) obtain k status target where k: "ev_kind e = Closed k" "st_status u = Closed status"
    "st_status (ac_state a) = Closed target"
    "if k \<in> set task_neutral then target = status else task_edge k status target"
    by (rule reduce_status)
  from * k have "status \<notin> S" "target \<in> S" by auto
  moreover with k(4) have "task_edge k status target" by (auto split: if_splits)
  ultimately show ?thesis using * k by (intro that [of tr1 "(e, ev, a)" tr2 u k status target]) simp_all
qed

text \<open>
  C7. No shortcut to done. A run from genesis that ends with the task done contains, in this
  order, an accepted \<^verbatim>\<open>dispatch_accepted\<close>, \<^verbatim>\<open>work_completed\<close>, \<^verbatim>\<open>verification_passed\<close>, then
  \<^verbatim>\<open>review_passed\<close> or \<^verbatim>\<open>approval_granted\<close>, then \<^verbatim>\<open>recording_completed\<close>; and between two of
  them the task never leaves the phase it is in, so no redirect, fix, block or failure separates
  the verification from the recording.
\<close>

theorem done_requires_verification_and_review:
  assumes "genesis_ok g" and "run g tr t" and "st_status t = Closed TS_DONE"
  shows "\<exists>t0 d t1 w t2 v t3 r t4 c t5.
     tr = t0 @ d # t1 @ w # t2 @ v # t3 @ r # t4 @ c # t5 \<and>
     entry_kind d = Closed EK_DISPATCH_ACCEPTED \<and> entry_kind w = Closed EK_WORK_COMPLETED \<and>
     entry_kind v = Closed EK_VERIFICATION_PASSED \<and>
     entry_kind r \<in> {Closed EK_REVIEW_PASSED, Closed EK_APPROVAL_GRANTED} \<and>
     entry_kind c = Closed EK_RECORDING_COMPLETED \<and>
     list_all (\<lambda>y. in_status {TS_EXECUTING} (ac_state (entry_result y))) t1 \<and>
     list_all (\<lambda>y. in_status {TS_VERIFYING} (ac_state (entry_result y))) t2 \<and>
     list_all (\<lambda>y. in_status {TS_REVIEWING, TS_APPROVAL_REQUIRED} (ac_state (entry_result y))) t3 \<and>
     list_all (\<lambda>y. in_status {TS_RECORDING} (ac_state (entry_result y))) t4"
proof -
  have g: "st_status g = Closed TS_PUBLISHED" using assms(1) by (simp add: genesis_ok_def)
  obtain p4 u4 c t5 where c: "tr = p4 @ c # t5" "run g p4 u4" "st_status u4 = Closed TS_RECORDING"
    "entry_kind c = Closed EK_RECORDING_COMPLETED"
    by (rule run_last_entry_status [OF assms(2), of "{TS_DONE}"])
       (use g assms(3) in \<open>auto simp: edge_to\<close>)
  obtain p3 u3 r t4 where r: "p4 = p3 @ r # t4" "run g p3 u3"
    "in_status {TS_REVIEWING, TS_APPROVAL_REQUIRED} u3"
    "entry_kind r \<in> {Closed EK_REVIEW_PASSED, Closed EK_APPROVAL_GRANTED}"
    "list_all (\<lambda>y. in_status {TS_RECORDING} (ac_state (entry_result y))) t4"
    by (rule run_last_entry_status [OF c(2), of "{TS_RECORDING}"])
       (use g c(3) in \<open>auto simp: edge_to\<close>)
  obtain p2 u2 v t3 where v: "p3 = p2 @ v # t3" "run g p2 u2" "st_status u2 = Closed TS_VERIFYING"
    "entry_kind v = Closed EK_VERIFICATION_PASSED"
    "list_all (\<lambda>y. in_status {TS_REVIEWING, TS_APPROVAL_REQUIRED} (ac_state (entry_result y))) t3"
    by (rule run_last_entry_status [OF r(2), of "{TS_REVIEWING, TS_APPROVAL_REQUIRED}"])
       (use g r(3) in \<open>auto simp: edge_to\<close>)
  obtain p1 u1 w t2 where w: "p2 = p1 @ w # t2" "run g p1 u1" "st_status u1 = Closed TS_EXECUTING"
    "entry_kind w = Closed EK_WORK_COMPLETED"
    "list_all (\<lambda>y. in_status {TS_VERIFYING} (ac_state (entry_result y))) t2"
    by (rule run_last_entry_status [OF v(2), of "{TS_VERIFYING}"])
       (use g v(3) in \<open>auto simp: edge_to\<close>)
  obtain p0 u0 d t1 where d: "p1 = p0 @ d # t1" "entry_kind d = Closed EK_DISPATCH_ACCEPTED"
    "list_all (\<lambda>y. in_status {TS_EXECUTING} (ac_state (entry_result y))) t1"
    by (rule run_last_entry_status [OF w(2), of "{TS_EXECUTING}"])
       (use g w(3) in \<open>auto simp: edge_to\<close>)
  have tr: "tr = p0 @ d # t1 @ w # t2 @ v # t3 @ r # t4 @ c # t5"
    by (simp only: c(1) r(1) v(1) w(1) d(1) append_assoc append_Cons)
  show ?thesis
    by (intro exI conjI) (rule tr c(4) r(4,5) v(4,5) w(4,5) d(2,3))+
qed

end
