(* ===== verification/Kernel_Items.thy ===== *)
theory Kernel_Items
  imports Kernel_Status
begin

text \<open>
  Work items and attempts: the closed graphs of SPEC.md 21.2.1 as relations, the order in which
  an item's attempts succeed one another, fencing of late output, dependencies, and the exact
  obligations of a step.
\<close>

section \<open>The graphs of the protocol\<close>

text \<open>
  Rows of the two tables of SPEC.md 21.2.1. Three rows are not in the tables and are what the
  code does: \<^verbatim>\<open>attempt_submitted\<close> moves the item from submitted to running (the table of work
  items has no edge into running), and \<^verbatim>\<open>task_cancelled\<close> and \<^verbatim>\<open>redirect_authorized\<close> cancel items
  (described in 21.2.3).
\<close>

inductive item_edge :: "event_kind \<Rightarrow> work_item_status \<Rightarrow> work_item_status \<Rightarrow> bool" where
  "item_edge EK_WORK_ITEM_ELIGIBLE WS_PENDING WS_ELIGIBLE"
| "x \<in> {WS_ELIGIBLE, WS_BLOCKED} \<Longrightarrow> item_edge EK_ATTEMPT_CREATED x WS_SUBMITTED"
| "item_edge EK_ATTEMPT_SUBMITTED WS_SUBMITTED WS_RUNNING"
| "item_edge EK_ATTEMPT_COMPLETED WS_RUNNING WS_COMPLETED"
| "x \<in> {WS_SUBMITTED, WS_RUNNING} \<Longrightarrow> item_edge EK_ATTEMPT_FAILED x WS_FAILED"
| "x \<in> {WS_SUBMITTED, WS_RUNNING} \<Longrightarrow> item_edge EK_ATTEMPT_CANCELLED x WS_CANCELLED"
| "item_edge EK_WORK_ITEM_PARTIAL WS_RUNNING WS_PARTIAL"
| "item_edge EK_WORK_ITEM_DEGRADED WS_RUNNING WS_DEGRADED"
| "x \<in> {WS_PENDING, WS_ELIGIBLE, WS_SUBMITTED, WS_RUNNING} \<Longrightarrow>
     item_edge EK_WORK_ITEM_BLOCKED x WS_BLOCKED"
| "x \<in> {WS_PENDING, WS_ELIGIBLE, WS_SUBMITTED, WS_RUNNING, WS_BLOCKED} \<Longrightarrow>
     item_edge EK_WORK_ITEM_FAILED x WS_FAILED"
| "x \<notin> set terminal_item \<Longrightarrow>
     k \<in> {EK_WORK_ITEM_CANCELLED, EK_TASK_CANCELLED, EK_REDIRECT_AUTHORIZED} \<Longrightarrow>
     item_edge k x WS_CANCELLED"
| "x \<in> {WS_PENDING, WS_ELIGIBLE} \<Longrightarrow> item_edge EK_WORK_ITEM_SKIPPED x WS_SKIPPED"

inductive attempt_edge :: "event_kind \<Rightarrow> attempt_status \<Rightarrow> attempt_status \<Rightarrow> bool" where
  "attempt_edge EK_ATTEMPT_SUBMITTED AS_CREATED AS_SUBMITTED"
| "attempt_edge EK_ATTEMPT_RUNNING AS_SUBMITTED AS_RUNNING"
| "attempt_edge EK_ATTEMPT_COMPLETED AS_RUNNING AS_COMPLETED"
| "x \<in> {AS_CREATED, AS_SUBMITTED, AS_RUNNING} \<Longrightarrow> attempt_edge EK_ATTEMPT_FAILED x AS_FAILED"
| "x \<in> {AS_CREATED, AS_SUBMITTED, AS_RUNNING} \<Longrightarrow> attempt_edge EK_ATTEMPT_FENCED x AS_FENCED"
| "x \<in> {AS_CREATED, AS_SUBMITTED, AS_RUNNING} \<Longrightarrow>
     k \<in> {EK_ATTEMPT_CANCELLED, EK_WORK_ITEM_CANCELLED, EK_TASK_CANCELLED, EK_REDIRECT_AUTHORIZED} \<Longrightarrow>
     attempt_edge k x AS_CANCELLED"

text \<open>How far an attempt has come; completed, failed, cancelled and fenced are its ends.\<close>

primrec attempt_rank :: "attempt_status \<Rightarrow> nat" where
  "attempt_rank AS_CREATED = 0"
| "attempt_rank AS_SUBMITTED = 1"
| "attempt_rank AS_RUNNING = 2"
| "attempt_rank AS_COMPLETED = 3"
| "attempt_rank AS_FAILED = 3"
| "attempt_rank AS_CANCELLED = 3"
| "attempt_rank AS_FENCED = 3"

text \<open>
  A later attempt of the same item: the same attempt, not further back and unchanged if ended,
  or one with a higher generation.
\<close>

definition attempt_after :: "attempt \<Rightarrow> attempt \<Rightarrow> bool" where
  "attempt_after a a' \<longleftrightarrow>
     at_generation a < at_generation a' \<or>
     (a' = a\<lparr>at_status := at_status a'\<rparr> \<and>
      (at_status a' = at_status a \<or> attempt_rank (at_status a) < attempt_rank (at_status a')))"

definition item_after :: "work_item \<Rightarrow> work_item \<Rightarrow> bool" where
  "item_after w w' \<longleftrightarrow>
     wi_id w' = wi_id w \<and> wi_requirement w' = wi_requirement w \<and> wi_deps w' = wi_deps w \<and>
     (wi_status w \<in> set terminal_item \<longrightarrow> wi_status w' = wi_status w) \<and>
     (\<forall>a. wi_attempt w = Some a \<longrightarrow> (\<exists>a'. wi_attempt w' = Some a' \<and> attempt_after a a'))"

text \<open>The obligation owed for an item that a step takes from \<open>w\<close> to \<open>w'\<close>.\<close>

definition owed :: "work_item \<Rightarrow> work_item \<Rightarrow> string list" where
  "owed w w' =
     (case (wi_attempt w, wi_attempt w') of
        (Some a, Some a') \<Rightarrow>
          if at_status a \<in> set in_flight \<and> at_status a' = AS_CANCELLED
          then [adapter_cancel_obligation a] else []
      | _ \<Rightarrow> [])"

text \<open>How an item's current attempt may change in one step.\<close>

definition attempt_step :: "event_kind \<Rightarrow> work_item \<Rightarrow> work_item \<Rightarrow> bool" where
  "attempt_step k w w' \<longleftrightarrow>
     wi_attempt w' = wi_attempt w \<or>
     (\<exists>a a'. wi_attempt w = Some a \<and> wi_attempt w' = Some a' \<and> attempt_tuple a' = attempt_tuple a \<and>
        at_task a' = at_task a \<and> at_item a' = at_item a \<and>
        attempt_edge k (at_status a) (at_status a')) \<or>
     (k = EK_ATTEMPT_CREATED \<and>
       (\<exists>a'. wi_attempt w' = Some a' \<and> at_status a' = AS_CREATED \<and>
         (\<forall>a. wi_attempt w = Some a \<longrightarrow> wi_status w = WS_BLOCKED \<and> at_id a' \<noteq> at_id a \<and>
            at_generation a < at_generation a')))"

lemma attempt_step_same: "wi_attempt w' = wi_attempt w \<Longrightarrow> attempt_step k w w'"
  by (simp add: attempt_step_def)

lemma attempt_step_edge:
  assumes "wi_attempt w = Some a" and "wi_attempt w' = Some (a\<lparr>at_status := x\<rparr>)"
    and "attempt_edge k (at_status a) x"
  shows "attempt_step k w w'"
  unfolding attempt_step_def using assms
  by (intro disjI2 disjI1 exI [of _ a] exI [of _ "a\<lparr>at_status := x\<rparr>"]) (simp add: attempt_tuple_def)

lemma cancelled_attempt_step:
  assumes "k \<in> {EK_WORK_ITEM_CANCELLED, EK_REDIRECT_AUTHORIZED, EK_TASK_CANCELLED}"
  shows "attempt_step k w (fst (cancelled_work_item w))"
proof (cases "wi_attempt w")
  case None
  then show ?thesis by (intro attempt_step_same) (simp add: cancelled_work_item_def)
next
  case (Some a)
  show ?thesis
  proof (cases "at_status a \<in> set active_attempt")
    case True
    then have "attempt_edge k (at_status a) AS_CANCELLED"
      using assms by (intro attempt_edge.intros(6)) (auto simp: active_attempt_def)
    with Some True show ?thesis
      by (intro attempt_step_edge) (simp_all add: cancelled_work_item_def)
  next
    case False
    then show ?thesis using Some by (intro attempt_step_same) (simp add: cancelled_work_item_def)
  qed
qed

lemma attempt_transitions_edges:
  assumes "map_of attempt_transitions k = Some (ni, na, next_item, next_attempt)"
    and "x \<in> {WS_SUBMITTED, WS_RUNNING}" and "y \<in> set active_attempt"
    and "ni = None \<or> ni = Some x" and "na = None \<or> na = Some y"
  shows "(next_item = x \<or> item_edge k x next_item) \<and> attempt_edge k y next_attempt"
  using assms
  by (simp add: attempt_transitions_def active_attempt_def split: if_splits)
     (auto simp: item_edge.simps attempt_edge.simps)

lemma item_transitions_edges:
  assumes "map_of item_transitions k = Some (allowed, target)" and "k \<noteq> EK_WORK_ITEM_CANCELLED"
    and "x \<in> set allowed"
  shows "item_edge k x target"
  using assms by (simp add: item_transitions_def split: if_splits) (auto simp: item_edge.simps)

lemma item_move_graph:
  assumes "item_move task k e w w'"
  shows "(wi_status w' = wi_status w \<or> item_edge k (wi_status w) (wi_status w')) \<and> attempt_step k w w'"
  using assms
proof (induction)
  case (eligible w)
  then show ?case by (simp add: attempt_step_same item_edge.intros)
next
  case (created w aid did g)
  then show ?case by (auto simp: attempt_step_def intro: item_edge.intros(2))
next
  case (fenced w a)
  then have "attempt_edge k (at_status a) AS_FENCED"
    by (simp add: active_attempt_def attempt_edge.intros)
  with fenced show ?case by (auto intro: attempt_step_edge)
next
  case (progress ni na next_item next_attempt w a)
  then show ?case
    using attempt_transitions_edges [OF progress(1,4,3,7,8)] attempt_step_edge [OF progress(2)]
    by simp
next
  case (outcome allowed target w)
  then show ?case by (simp add: attempt_step_same item_transitions_edges)
next
  case (cancelled w)
  then have "item_edge k (wi_status w) WS_CANCELLED"
    by (intro item_edge.intros(11)) auto
  with cancelled show ?case by (simp add: cancelled_work_item_frame cancelled_attempt_step)
qed

text \<open>
  C8. Refinement of the protocol's work-item and attempt graphs. An accepted event keeps the work
  item table in place (same identities, requirements and dependencies in the same order); each
  item's status stays or follows an edge of the item graph for this event, and its current
  attempt stays, follows an edge of the attempt graph under the same identity, dispatch and
  generation, or is replaced by a fresh one, which only \<^verbatim>\<open>attempt_created\<close> does, from blocked,
  under a new identity and a higher generation.
\<close>

theorem items_follow_graphs:
  assumes "reduce s e ev = Accepted a" and "ev_kind e = Closed k"
  shows "list_all2 (\<lambda>w w'. wi_id w' = wi_id w \<and> wi_requirement w' = wi_requirement w \<and>
      wi_deps w' = wi_deps w \<and>
      (wi_status w' = wi_status w \<or> item_edge k (wi_status w) (wi_status w')) \<and> attempt_step k w w')
    (st_items s) (st_items (ac_state a))"
  using reduce_moves [OF assms]
  by (rule list.rel_mono_strong)
     (auto simp: item_move_frame attempt_step_same dest: item_move_graph)

section \<open>Attempts only advance\<close>

lemma attempt_edge_rank: "attempt_edge k x y \<Longrightarrow> attempt_rank x < attempt_rank y"
  by (auto simp: attempt_edge.simps)

lemma item_edge_live: "item_edge k x y \<Longrightarrow> x \<notin> set terminal_item"
  by (auto simp: item_edge.simps terminal_item_def)

lemma attempt_after_refl: "attempt_after a a"
  by (simp add: attempt_after_def)

lemma attempt_after_generation:
  "attempt_after a b \<Longrightarrow> at_generation a \<le> at_generation b"
  unfolding attempt_after_def
  by (metis attempt.select_convs(5) attempt.surjective attempt.update_convs(6) order.refl less_imp_le)

lemma attempt_after_same:
  assumes "attempt_after a b" and "at_generation b \<le> at_generation a"
  obtains x where "b = a\<lparr>at_status := x\<rparr>"
    "x = at_status a \<or> attempt_rank (at_status a) < attempt_rank x"
  using assms by (auto simp: attempt_after_def)

lemma attempt_after_trans:
  assumes "attempt_after a b" and "attempt_after b c"
  shows "attempt_after a c"
proof (cases "at_generation a < at_generation c")
  case True
  then show ?thesis by (simp add: attempt_after_def)
next
  case False
  then have "at_generation b \<le> at_generation a" "at_generation c \<le> at_generation b"
    using attempt_after_generation [OF assms(1)] attempt_after_generation [OF assms(2)] by simp_all
  with assms obtain x y where "b = a\<lparr>at_status := x\<rparr>" "c = b\<lparr>at_status := y\<rparr>"
    "x = at_status a \<or> attempt_rank (at_status a) < attempt_rank x"
    "y = at_status b \<or> attempt_rank (at_status b) < attempt_rank y"
    by (metis attempt_after_same)
  then show ?thesis by (auto simp: attempt_after_def)
qed

lemma item_after_refl: "item_after w w"
  by (simp add: item_after_def attempt_after_refl)

lemma item_after_trans: "item_after w w' \<Longrightarrow> item_after w' w'' \<Longrightarrow> item_after w w''"
  unfolding item_after_def by (metis attempt_after_trans)

lemma attempt_tuple_eqD:
  "attempt_tuple a = attempt_tuple b \<Longrightarrow>
     at_id a = at_id b \<and> at_dispatch a = at_dispatch b \<and> at_generation a = at_generation b"
  by (simp add: attempt_tuple_def)

lemma attempt_step_after:
  assumes "attempt_step k w w'" and "wi_attempt w = Some a"
  shows "\<exists>a'. wi_attempt w' = Some a' \<and> attempt_after a a'"
proof -
  have "attempt_after a a'" if "attempt_tuple a' = attempt_tuple a" "at_task a' = at_task a"
    "at_item a' = at_item a" "attempt_edge k (at_status a) (at_status a')" for a'
    using that attempt_tuple_eqD [OF that(1)] attempt_edge_rank [OF that(4)]
    by (simp add: attempt_after_def)
  then show ?thesis using assms
    by (auto simp: attempt_step_def attempt_after_refl attempt_after_def)
qed

lemma item_move_after:
  assumes "item_move task k e w w'"
  shows "item_after w w'"
  using item_move_graph [OF assms] item_move_frame [OF assms]
  by (auto simp: item_after_def dest: item_edge_live attempt_step_after)

lemma reduce_items_after:
  assumes "reduce s e ev = Accepted a"
  shows "list_all2 item_after (st_items s) (st_items (ac_state a))"
proof -
  from assms obtain k where k: "ev_kind e = Closed k" by (auto elim: reduce_Accepted_state)
  show ?thesis
    using reduce_moves [OF assms k]
    by (rule list.rel_mono_strong) (auto simp: item_after_refl dest: item_move_after)
qed

lemma run_items_after: "run s tr t \<Longrightarrow> list_all2 item_after (st_items s) (st_items t)"
  by (rule run_preorder [where I = "\<lambda>_. True"])
     (auto simp: list_all2_same item_after_refl reduce_items_after
       intro: list_all2_trans [OF item_after_trans])

text \<open>
  Attempts only advance. Along any run the table keeps its items; an item whose status is
  terminal keeps it; and an item that has an attempt keeps having one, whose dispatch generation
  never decreases, which is the very same attempt as long as the generation is the same, and
  which, once completed, failed, cancelled or fenced, never changes again.
\<close>

theorem attempts_only_advance:
  assumes "run s tr t" and "i < length (st_items s)"
  shows "length (st_items t) = length (st_items s) \<and> item_after (st_items s ! i) (st_items t ! i)"
  using run_items_after [OF assms(1)] assms(2) by (simp add: list_all2_conv_all_nth)

section \<open>Late output is fenced\<close>

lemma scoped_dispatch:
  assumes "dispatch s status k e = Some sp" and "k \<in> set ATTEMPT_SCOPED_EVENTS"
  obtains i where "item_index s e = Some i"
    and "k \<noteq> EK_ATTEMPT_CREATED \<Longrightarrow> \<exists>a. wi_attempt (st_items s ! i) = Some a \<and>
           attempt_tuple a = event_tuple e \<and> at_status a \<in> set active_attempt"
    and "\<And>a. k = EK_ATTEMPT_CREATED \<Longrightarrow> wi_attempt (st_items s ! i) = Some a \<Longrightarrow>
           \<exists>g. ev_generation e = Some g \<and> at_generation a < g"
proof (cases "k \<in> {EK_ATTEMPT_CREATED, EK_ATTEMPT_FENCED}")
  case True
  then show ?thesis using assms that
    by (auto simp: do_attempt_created_def do_attempt_fenced_def Let_def
        split: option.splits if_splits)
next
  case False
  then have "do_attempt_progress s status k e = Some sp"
    using assms by (auto simp: ATTEMPT_SCOPED_EVENTS_def dispatch_def attempt_transitions_def)
  then obtain i ni na next_item next_attempt a where
    i: "item_index s e = Some i"
    and tr: "map_of attempt_transitions k = Some (ni, na, next_item, next_attempt)"
    and a: "wi_attempt (st_items s ! i) = Some a" "attempt_tuple a = event_tuple e"
    and need: "na = None \<or> na = Some (at_status a)"
    and live: "k \<in> {EK_ATTEMPT_FAILED, EK_ATTEMPT_CANCELLED} \<longrightarrow> at_status a \<in> set active_attempt"
    by (auto simp: do_attempt_progress_def Let_def split: option.splits if_splits)
  have "at_status a \<in> set active_attempt" using attempt_transitions_range [OF tr] need live by auto
  then show ?thesis using that [OF i] a False by auto
qed

lemma item_index_unique:
  assumes "state_is_valid s" and "item_index s e = Some j" and "i < length (st_items s)"
    and "ev_item e = Some (wi_id (st_items s ! i))"
  shows "j = i"
proof -
  have "distinct (map wi_id (st_items s))" using assms(1) by (simp add: state_is_valid_def)
  then show ?thesis
    using item_indexD [OF assms(2)] assms(3,4) by (simp add: distinct_conv_nth) metis
qed

lemma attempt_rank_ended: "x \<notin> set active_attempt \<Longrightarrow> attempt_rank x = 3"
  by (cases x) (simp_all add: active_attempt_def)

lemma attempt_rank_le: "attempt_rank x \<le> 3"
  by (cases x) simp_all

lemma attempt_after_ended:
  assumes "attempt_after a b" and "at_status a \<notin> set active_attempt"
  shows "b = a \<or> at_generation a < at_generation b"
proof (cases "at_generation a < at_generation b")
  case False
  then obtain x where "b = a\<lparr>at_status := x\<rparr>"
    "x = at_status a \<or> attempt_rank (at_status a) < attempt_rank x"
    using attempt_after_same [OF assms(1)] by (metis not_less)
  then show ?thesis using attempt_rank_ended [OF assms(2)] attempt_rank_le [of x] by auto
qed simp

text \<open>
  Late output is fenced. Once an attempt has ended (completed, failed, cancelled or fenced),
  or has been superseded by an attempt of a higher generation, no attempt event that carries its
  identity, dispatch and generation is accepted in any later state, whatever its kind.
\<close>

theorem late_attempt_events_refused:
  assumes "run s tr t" and "i < length (st_items s)" and "wi_attempt (st_items s ! i) = Some a"
    and "at_status a \<notin> set active_attempt \<or>
         (\<exists>a'. wi_attempt (st_items t ! i) = Some a' \<and> at_generation a < at_generation a')"
    and "ev_item e = Some (wi_id (st_items s ! i))" and "event_tuple e = attempt_tuple a"
    and "ev_kind e = Closed k" and "k \<in> set ATTEMPT_SCOPED_EVENTS"
  shows "reduce t e ev \<noteq> Accepted b"
proof
  assume acc: "reduce t e ev = Accepted b"
  have len: "length (st_items t) = length (st_items s)"
    and after: "item_after (st_items s ! i) (st_items t ! i)"
    using run_items_after [OF assms(1)] assms(2) by (simp_all add: list_all2_conv_all_nth)
  from after assms(3) obtain c where c: "wi_attempt (st_items t ! i) = Some c" "attempt_after a c"
    by (auto simp: item_after_def)
  then have end_c: "c = a \<and> at_status a \<notin> set active_attempt \<or> at_generation a < at_generation c"
    using assms(4) attempt_after_ended by auto
  from acc assms(7) obtain status sp where "dispatch t status k e = Some sp" "state_is_valid t"
    by (auto elim!: reduce_Accepted_takes simp: takes_def inputs_ok_def)
  then obtain j where j: "item_index t e = Some j"
    and prog: "k \<noteq> EK_ATTEMPT_CREATED \<Longrightarrow> \<exists>a. wi_attempt (st_items t ! j) = Some a \<and>
           attempt_tuple a = event_tuple e \<and> at_status a \<in> set active_attempt"
    and crea: "\<And>a. k = EK_ATTEMPT_CREATED \<Longrightarrow> wi_attempt (st_items t ! j) = Some a \<Longrightarrow>
           \<exists>g. ev_generation e = Some g \<and> at_generation a < g"
    using assms(8) by (auto elim: scoped_dispatch)
  have "j = i"
    using item_index_unique [OF \<open>state_is_valid t\<close> j] assms(2,5) len after
    by (simp add: item_after_def)
  moreover have "ev_generation e = Some (at_generation a)"
    using assms(6) by (simp add: event_tuple_def attempt_tuple_def)
  ultimately show False
    using prog crea [of c] c(1) end_c assms(6) attempt_tuple_eqD [of c a]
    by (cases "k = EK_ATTEMPT_CREATED") auto
qed

section \<open>Obligations\<close>

lemma owed_same: "owed w w = []"
  by (auto simp: owed_def in_flight_def split: option.splits)

lemma owed_cancelled: "owed w (fst (cancelled_work_item w)) = snd (cancelled_work_item w)"
  by (auto simp: owed_def cancelled_work_item_def in_flight_def active_attempt_def
      split: option.splits)

lemma owed_items_same: "concat (map2 owed items items) = []"
  by (induction items) (simp_all add: owed_same)

lemma owed_items_update:
  "i < length items \<Longrightarrow> concat (map2 owed items (items[i := w])) = owed (items ! i) w"
proof (induction items arbitrary: i)
  case (Cons x items)
  then show ?case by (cases i) (simp_all add: owed_same owed_items_same)
qed simp

lemma owed_items_cancel:
  "concat (map2 owed items (fst (cancel_items p items))) = snd (cancel_items p items)"
  by (induction items) (simp_all add: cancel_items_def owed_same owed_cancelled)

lemma owed_attempt:
  "wi_attempt w = Some a \<Longrightarrow> wi_attempt w' = Some a' \<Longrightarrow>
     owed w w' = (if at_status a \<in> set in_flight \<and> at_status a' = AS_CANCELLED
                  then [adapter_cancel_obligation a] else [])"
  by (simp add: owed_def)

lemma owed_kept: "wi_attempt w' = wi_attempt w \<Longrightarrow> owed w w' = []"
  by (auto simp: owed_def in_flight_def split: option.splits)

lemma owed_alive: "wi_attempt w' = Some a' \<Longrightarrow> at_status a' \<noteq> AS_CANCELLED \<Longrightarrow> owed w w' = []"
  by (simp add: owed_def split: option.splits)

lemma do_attempt_progress_owed:
  assumes "do_attempt_progress s status k e = Some sp"
  shows "sp_obligations sp = concat (map2 owed (st_items s) (sp_items sp))"
proof -
  from assms obtain i ni na next_item next_attempt a fa where
    i: "item_index s e = Some i"
    and tr: "map_of attempt_transitions k = Some (ni, na, next_item, next_attempt)"
    and a: "wi_attempt (st_items s ! i) = Some a"
    and sp: "sp = item_step s status k i ((st_items s ! i)\<lparr>wi_status := next_item,
       wi_attempt := Some (a\<lparr>at_status := next_attempt\<rparr>)\<rparr>)
       (if k = EK_ATTEMPT_CANCELLED \<and> at_status a \<in> set in_flight
        then [adapter_cancel_obligation a] else []) fa"
    by (auto simp: do_attempt_progress_def Let_def split: option.splits if_splits)
  have "next_attempt = AS_CANCELLED \<longleftrightarrow> k = EK_ATTEMPT_CANCELLED"
    using tr by (auto simp: attempt_transitions_def split: if_splits)
  then show ?thesis
    using item_indexD [OF i] sp owed_attempt [OF a] by (simp add: owed_items_update)
qed

lemma do_item_transition_owed:
  assumes "do_item_transition s status k e = Some sp"
  shows "sp_obligations sp = concat (map2 owed (st_items s) (sp_items sp))"
  using assms
  by (auto simp: do_item_transition_def Let_def owed_items_update owed_kept owed_cancelled
      split: option.splits if_splits dest!: item_indexD)

lemma do_item_owed:
  "do_work_item_eligible s status e = Some sp \<Longrightarrow>
     sp_obligations sp = concat (map2 owed (st_items s) (sp_items sp))"
  "do_attempt_created s status e = Some sp \<Longrightarrow>
     sp_obligations sp = concat (map2 owed (st_items s) (sp_items sp))"
  "do_attempt_fenced s status e = Some sp \<Longrightarrow>
     sp_obligations sp = concat (map2 owed (st_items s) (sp_items sp))"
    apply (auto simp: do_work_item_eligible_def Let_def owed_items_update owed_kept
      split: option.splits if_splits dest!: item_indexD)[1]
   apply (auto simp: do_attempt_created_def Let_def owed_items_update owed_alive
      split: option.splits if_splits dest!: item_indexD)[1]
  apply (auto simp: do_attempt_fenced_def Let_def owed_items_update owed_alive
      split: option.splits if_splits dest!: item_indexD)[1]
  done

lemma do_wait_obligations:
  "do_interrupt_requested s status e = Some sp \<Longrightarrow> sp_obligations sp = []"
  "do_interrupt_resumed s status e = Some sp \<Longrightarrow> sp_obligations sp = []"
  "do_suspension_started s status e = Some sp \<Longrightarrow> sp_obligations sp = []"
  "do_wake_accepted s status e = Some sp \<Longrightarrow> sp_obligations sp = []"
  by (auto simp: do_interrupt_requested_def do_interrupt_resumed_def Let_def
      split: if_splits elim!: do_suspension_started_SomeD do_wake_accepted_SomeD)

lemma dispatch_owed:
  assumes "dispatch s status k e = Some sp"
  shows "sp_obligations sp = concat (map2 owed (st_items s) (sp_items sp))"
proof (cases k rule: dispatch_cases)
  case control
  then show ?thesis using assms
    by (auto simp: do_wait_obligations do_control_moves owed_items_same owed_items_cancel
        do_redirect_SomeD do_task_cancelled_SomeD)
next
  case wait
  then show ?thesis using assms
    by (auto simp: do_wait_obligations do_control_moves owed_items_same)
next
  case item
  then show ?thesis using assms by (auto simp: do_item_owed)
next
  case progress
  then show ?thesis using assms by (simp add: do_attempt_progress_owed)
next
  case outcome
  then show ?thesis using assms by (simp add: do_item_transition_owed)
next
  case plain
  then show ?thesis using assms by (auto simp: owed_items_same)
qed

text \<open>
  Obligations are exact. The obligations of an accepted step are, in the order of the items,
  one \<^verbatim>\<open>adapter_cancel\<close> for every attempt that was submitted or running before the step and is
  cancelled after it, and nothing else; it names the attempt by task, item, attempt, dispatch and
  generation.
\<close>

theorem obligations_exact:
  assumes "reduce s e ev = Accepted a"
  shows "ac_obligations a = concat (map2 owed (st_items s) (st_items (ac_state a)))"
  using assms by (elim reduce_Accepted_state) (simp add: dispatch_owed)

end
