(* ===== verification/Kernel_Control.thy ===== *)
theory Kernel_Control
  imports Kernel_Items
begin

text \<open>
  Dependencies, suspension and wake, interrupt, redirect and cancellation: what the reducer
  checks before it lets such an event through, and what the state then guarantees.
\<close>

text \<open>A work item with the given identity is in the table with the given status.\<close>

definition has_item_status :: "state \<Rightarrow> identity \<Rightarrow> work_item_status \<Rightarrow> bool" where
  "has_item_status s i x \<longleftrightarrow> (\<exists>w\<in>set (st_items s). wi_id w = i \<and> wi_status w = x)"

text \<open>Something is cancelled by a step: the task, a work item, or a current attempt.\<close>

definition cancels :: "state \<Rightarrow> state \<Rightarrow> bool" where
  "cancels s t \<longleftrightarrow>
     (st_status s \<noteq> Closed TS_CANCELLED \<and> st_status t = Closed TS_CANCELLED) \<or>
     (\<exists>i<length (st_items s). wi_status (st_items s ! i) \<noteq> WS_CANCELLED \<and>
        wi_status (st_items t ! i) = WS_CANCELLED) \<or>
     (\<exists>i<length (st_items s). map_option at_status (wi_attempt (st_items s ! i)) \<noteq> Some AS_CANCELLED \<and>
        map_option at_status (wi_attempt (st_items t ! i)) = Some AS_CANCELLED)"

section \<open>Dependencies\<close>

lemma has_item_status_run:
  assumes "run s tr t" and "has_item_status s i x" and "x \<in> set terminal_item"
  shows "has_item_status t i x"
proof -
  from assms(2) obtain j where j: "j < length (st_items s)" "wi_id (st_items s ! j) = i"
    "wi_status (st_items s ! j) = x"
    by (auto simp: has_item_status_def in_set_conv_nth)
  then have "j < length (st_items t)" "item_after (st_items s ! j) (st_items t ! j)"
    using run_items_after [OF assms(1)] by (simp_all add: list_all2_conv_all_nth)
  then show ?thesis
    using j assms(3) by (auto simp: has_item_status_def item_after_def intro!: bexI [of _ "st_items t ! j"])
qed

lemma has_item_status_step:
  assumes "reduce s e ev = Accepted a" and "has_item_status s i x" and "x \<in> set terminal_item"
  shows "has_item_status (ac_state a) i x"
  using has_item_status_run [OF run_Cons [OF assms(1) run_Nil] assms(2,3)] .

lemma item_lookup_in: "item_lookup items i = Some w \<Longrightarrow> w \<in> set items \<and> wi_id w = i"
  by (auto simp: item_lookup_def dest!: map_of_SomeD)

lemma item_lookup_status:
  "item_lookup (st_items s) i = Some w \<Longrightarrow> wi_status w = x \<Longrightarrow> has_item_status s i x"
  by (auto simp: has_item_status_def dest: item_lookup_in)

lemma eligible_deps_required:
  assumes "eligible_deps items w ds = Some facts" and "d \<in> set ds" and "dep_requirement d = RQ_REQUIRED"
  shows "\<exists>v. item_lookup items (dep_item d) = Some v \<and> wi_status v = WS_COMPLETED"
  using assms
  by (induction items w ds arbitrary: facts rule: eligible_deps.induct)
     (auto split: option.splits if_splits)

text \<open>
  Eligibility needs its dependencies. If \<^verbatim>\<open>work_item_eligible\<close> is accepted, the item was
  pending, and every work item it requires is completed, at that moment and in every later state.
\<close>

theorem eligible_requires_dependencies:
  assumes "reduce s e ev = Accepted a" and "ev_kind e = Closed EK_WORK_ITEM_ELIGIBLE"
    and "run s ((e, ev, a) # tr) t"
  shows "\<exists>w\<in>set (st_items s). ev_item e = Some (wi_id w) \<and> wi_status w = WS_PENDING \<and>
     has_item_status (ac_state a) (wi_id w) WS_ELIGIBLE \<and>
     (\<forall>d\<in>set (wi_deps w). dep_requirement d = RQ_REQUIRED \<longrightarrow>
        has_item_status s (dep_item d) WS_COMPLETED \<and> has_item_status t (dep_item d) WS_COMPLETED)"
proof -
  from assms(1,2) obtain status sp target h where
    st: "ac_state a = next_state s status target sp h"
    and d: "do_work_item_eligible s status e = Some sp"
    by (auto elim!: reduce_Accepted_state)
  then obtain i facts where i: "item_index s e = Some i"
    and el: "eligible_deps (st_items s) (st_items s ! i) (wi_deps (st_items s ! i)) = Some facts"
    and pend: "wi_status (st_items s ! i) = WS_PENDING"
    and sp: "sp_items sp = (st_items s)[i := (st_items s ! i)\<lparr>wi_status := WS_ELIGIBLE\<rparr>]"
    by (auto simp: do_work_item_eligible_def eligible_work_item_def Let_def
        split: option.splits if_splits)
  have "has_item_status (ac_state a) (wi_id (st_items s ! i)) WS_ELIGIBLE"
    using item_indexD [OF i] st sp
    by (auto simp: has_item_status_def intro!: bexI [OF _ set_update_memI])
  moreover have "has_item_status s (dep_item d) WS_COMPLETED"
    if "d \<in> set (wi_deps (st_items s ! i))" "dep_requirement d = RQ_REQUIRED" for d
    using eligible_deps_required [OF el that] item_lookup_status by blast
  moreover have "has_item_status t (dep_item d) WS_COMPLETED"
    if "has_item_status s (dep_item d) WS_COMPLETED" for d
    using has_item_status_run [OF assms(3) that] by (simp add: terminal_item_def)
  ultimately show ?thesis
    using item_indexD [OF i] pend by (intro bexI [of _ "st_items s ! i"]) auto
qed

section \<open>Suspension and wake\<close>

definition resumed_ready :: "state \<Rightarrow> bool" where
  "resumed_ready s \<longleftrightarrow>
     (\<forall>u. st_suspension s = Some u \<longrightarrow> su_status u = SS_RESUMED \<longrightarrow>
        (\<forall>i\<in>set (su_required u). has_item_status s i WS_COMPLETED))"

lemma suspension_step:
  assumes "reduce s e ev = Accepted a" and "st_suspension (ac_state a) = Some u"
  obtains (kept) "st_suspension s = Some u"
  | (started) "su_status u = SS_WAITING" "ev_kind e = Closed EK_SUSPENSION_STARTED"
  | (woken) p where "st_suspension s = Some p" "su_status p = SS_WAITING"
      "ev_kind e = Closed EK_WAKE_ACCEPTED" "su_id u = su_id p" "su_epoch u = su_epoch p"
      "su_required u = su_required p"
      "\<forall>i\<in>set (su_required u). has_item_status s i WS_COMPLETED"
proof -
  from assms obtain status k sp target where
    d: "dispatch s status k e = Some sp" and k: "ev_kind e = Closed k"
    and u: "sp_suspension sp = Some u"
    by (auto elim!: reduce_Accepted_state split: if_splits)
  from d show ?thesis
  proof (cases rule: dispatch_suspension)
    case kept
    then show ?thesis using u that(1) by simp
  next
    case cleared
    then show ?thesis using u by simp
  next
    case started
    then show ?thesis using u k that(2) by (auto elim!: do_suspension_started_SomeD)
  next
    case woken
    from woken(2) obtain p where p: "st_suspension s = Some p" "su_status p = SS_WAITING"
      "\<forall>i\<in>set (su_required p). \<exists>w. item_lookup (st_items s) i = Some w \<and> wi_status w = WS_COMPLETED"
      "u = p\<lparr>su_status := SS_RESUMED, su_wake := ev_wake e, su_reason := Some WR_DEPENDENCY_READY\<rparr>"
      using u by (elim do_wake_accepted_SomeD) simp
    then show ?thesis using k woken(1) by (intro that(3) [of p]) (auto intro: item_lookup_status)
  qed
qed

lemma resumed_ready_step:
  assumes "resumed_ready s" and "reduce s e ev = Accepted a"
  shows "resumed_ready (ac_state a)"
  unfolding resumed_ready_def
proof (intro allI impI ballI)
  fix u i
  assume u: "st_suspension (ac_state a) = Some u" "su_status u = SS_RESUMED" "i \<in> set (su_required u)"
  from assms(2) u(1) have "has_item_status s i WS_COMPLETED"
  proof (cases rule: suspension_step)
    case kept
    then show ?thesis using assms(1) u by (simp add: resumed_ready_def)
  next
    case started
    then show ?thesis using u(2) by simp
  next
    case (woken p)
    then show ?thesis using u(3) by simp
  qed
  then show "has_item_status (ac_state a) i WS_COMPLETED"
    using has_item_status_step [OF assms(2)] by (simp add: terminal_item_def)
qed

text \<open>
  A wake is never early. In every state reachable from genesis, a suspension that has been
  resumed has all its required work items completed: the kernel computed readiness from its own
  table, and completed items stay completed.
\<close>

theorem resumed_suspension_is_ready:
  assumes "genesis_ok g" and "run g tr t" and "st_suspension t = Some u"
    and "su_status u = SS_RESUMED" and "i \<in> set (su_required u)"
  shows "has_item_status t i WS_COMPLETED"
proof -
  have "st_suspension g = None"
    using assms(1) by (auto simp: genesis_ok_def state_is_valid_def)
  then have "resumed_ready g" by (simp add: resumed_ready_def)
  then have "resumed_ready t"
    using run_invariant [of g tr t resumed_ready, OF assms(2)] resumed_ready_step by blast
  then show ?thesis using assms(3-5) by (simp add: resumed_ready_def)
qed

text \<open>
  A waiting task makes no progress. While a suspension waits, an accepted event either
  leaves the task status and the suspension as they are, or is the wake of exactly this
  suspension, or is one of \<^verbatim>\<open>task_blocked\<close>, \<^verbatim>\<open>task_failed\<close>, \<^verbatim>\<open>task_cancelled\<close> and
  \<^verbatim>\<open>redirect_authorized\<close>, which end the wait and clear the suspension. In particular
  \<^verbatim>\<open>work_completed\<close> is refused.
\<close>

theorem waiting_blocks_progress:
  assumes "reduce s e ev = Accepted a" and "st_suspension s = Some u" and "su_status u = SS_WAITING"
    and "ev_kind e = Closed k"
  shows "(st_status (ac_state a) = st_status s \<and> st_suspension (ac_state a) = Some u) \<or>
     (st_status (ac_state a) = st_status s \<and> k = EK_WAKE_ACCEPTED \<and>
        ev_suspension e = Some (su_id u) \<and> ev_epoch e = Some (su_epoch u) \<and>
        ev_policy_digest e = Some (su_policy_digest u) \<and>
        (\<exists>x. st_suspension (ac_state a) = Some (u\<lparr>su_status := SS_RESUMED, su_wake := Some x,
           su_reason := Some WR_DEPENDENCY_READY\<rparr>))) \<or>
     (k \<in> {EK_TASK_BLOCKED, EK_TASK_FAILED, EK_TASK_CANCELLED, EK_REDIRECT_AUTHORIZED} \<and>
        st_suspension (ac_state a) = None)"
proof -
  from assms(1,4) obtain status sp target h where
    st: "ac_state a = next_state s status target sp h" and d: "dispatch s status k e = Some sp"
    and s: "st_status s = Closed status" and nw: "\<not> wait_blocks status k target sp"
    and tg: "sp_target sp = Some target"
    by (auto elim!: reduce_Accepted_state simp: takes_def)
  from d show ?thesis
  proof (cases rule: dispatch_suspension)
    case kept
    then show ?thesis using assms(2,3) st s nw by (auto simp: wait_blocks_def)
  next
    case cleared
    then show ?thesis using st by auto
  next
    case started
    then show ?thesis using assms(2,3) by (auto elim!: do_suspension_started_SomeD)
  next
    case woken
    from woken(2) obtain p where "st_suspension s = Some p" "ev_suspension e = Some (su_id p)"
      "ev_epoch e = Some (su_epoch p)" "ev_policy_digest e = Some (su_policy_digest p)"
      "ev_wake e \<noteq> None" "sp_target sp = Some status"
      "sp_suspension sp = Some (p\<lparr>su_status := SS_RESUMED, su_wake := ev_wake e,
         su_reason := Some WR_DEPENDENCY_READY\<rparr>)"
      by (elim do_wake_accepted_SomeD) simp
    then show ?thesis using assms(2) st s tg woken(1) by auto
  qed
qed

section \<open>Interrupt and redirect\<close>

definition interrupted_by :: "state \<Rightarrow> identity \<Rightarrow> bool" where
  "interrupted_by s j \<longleftrightarrow>
     (\<exists>c. st_control s = Some c \<and> ct_status c = CS_INTERRUPTED \<and> ct_interrupt c = Some j)"

lemma interrupted_current:
  "interrupted_by s j \<Longrightarrow>
     ct_status (current_control s) = CS_INTERRUPTED \<and> ct_interrupt (current_control s) = Some j"
  by (auto simp: interrupted_by_def current_control_def)

text \<open>
  C15. An interrupt stops the task. While the task is interrupted, the only events that are
  accepted are the resume of exactly this interrupt, a redirect to the next intent version, a
  task cancellation, and \<^verbatim>\<open>task_failed\<close>; a resume gives control back and touches neither the
  task status, the work items nor the suspension, and a failure leaves the items and the
  interrupt in place.
\<close>

theorem interrupted_only_control_events:
  assumes "reduce s e ev = Accepted a" and "interrupted_by s j" and "ev_kind e = Closed k"
  shows "(k = EK_INTERRUPT_RESUMED \<and> ev_interrupt e = Some j \<and>
            ev_version e = Some (ct_version (current_control s)) \<and>
            ct_status (current_control (ac_state a)) = CS_ACTIVE \<and>
            st_status (ac_state a) = st_status s \<and> st_items (ac_state a) = st_items s \<and>
            st_suspension (ac_state a) = st_suspension s) \<or>
     (k = EK_REDIRECT_AUTHORIZED \<and>
            ct_version (current_control (ac_state a)) = ct_version (current_control s) + 1 \<and>
            st_status (ac_state a) = Closed TS_FIXING) \<or>
     (k = EK_TASK_CANCELLED \<and> st_status (ac_state a) = Closed TS_CANCELLED) \<or>
     (k = EK_TASK_FAILED \<and> st_status (ac_state a) = Closed TS_FAILED \<and>
            st_items (ac_state a) = st_items s \<and> interrupted_by (ac_state a) j)"
proof -
  from assms(1,3) obtain status sp target h where
    st: "ac_state a = next_state s status target sp h" and d: "dispatch s status k e = Some sp"
    and s: "st_status s = Closed status" and tg: "sp_target sp = Some target"
    and w: "ct_status (current_control s) = CS_INTERRUPTED \<longrightarrow> k \<in> set while_interrupted"
    by (auto elim!: reduce_Accepted_state simp: takes_def)
  note cur = interrupted_current [OF assms(2)]
  from w cur consider "k = EK_INTERRUPT_RESUMED" | "k = EK_REDIRECT_AUTHORIZED"
    | "k = EK_TASK_CANCELLED" | "k = EK_TASK_FAILED" by (auto simp: while_interrupted_def)
  then show ?thesis
  proof cases
    case 1
    then show ?thesis using d st s tg cur do_interrupt_frame(2) [of s status e sp]
      by (auto simp: current_control_def do_control_moves)
  next
    case 2
    then show ?thesis using d st tg
      by (auto simp: current_control_def [of "next_state s status TS_FIXING sp h"] do_redirect_SomeD)
  next
    case 3
    then show ?thesis using d st tg dispatch_status [OF d tg]
      by (auto simp: task_neutral_def task_edge_iff)
  next
    case 4
    then have "sp = initial_step s status k"
      using d by (simp add: dispatch_def attempt_transitions_def item_transitions_def)
    then show ?thesis using 4 st dispatch_status [OF d tg] assms(2)
      by (auto simp: task_neutral_def task_edge_iff interrupted_by_def)
  qed
qed

lemma reduce_intent_version:
  assumes "reduce s e ev = Accepted a"
  shows "ct_version (current_control (ac_state a)) = ct_version (current_control s)
     + (if ev_kind e = Closed EK_REDIRECT_AUTHORIZED then 1 else 0)"
proof -
  from assms obtain status k sp target h where
    st: "ac_state a = next_state s status target sp h" and d: "dispatch s status k e = Some sp"
    and k: "ev_kind e = Closed k"
    by (auto elim!: reduce_Accepted_state)
  from d show ?thesis
    by (cases rule: dispatch_control) (simp_all add: st k current_control_def)
qed

text \<open>
  Intent versions. Along any run the intent version grows by exactly one for each accepted
  redirect, and by nothing else.
\<close>

theorem intent_version_counts_redirects:
  assumes "run s tr t"
  shows "ct_version (current_control t) = ct_version (current_control s)
     + int (length (filter (\<lambda>x. entry_kind x = Closed EK_REDIRECT_AUTHORIZED) tr))"
  using assms by (induction rule: run.induct) (auto simp: reduce_intent_version)

section \<open>Cancellation and authority\<close>

lemma item_move_cancels:
  assumes "item_move task k e w w'"
    and "(wi_status w \<noteq> WS_CANCELLED \<and> wi_status w' = WS_CANCELLED) \<or>
      (map_option at_status (wi_attempt w) \<noteq> Some AS_CANCELLED \<and>
       map_option at_status (wi_attempt w') = Some AS_CANCELLED)"
  shows "k \<in> set AUTHORITY_BOUND_EVENTS"
proof -
  have item: "item_edge k x WS_CANCELLED \<Longrightarrow> k \<in> set AUTHORITY_BOUND_EVENTS" for x k
    by (auto simp: item_edge.simps AUTHORITY_BOUND_EVENTS_def)
  have att: "attempt_edge k x AS_CANCELLED \<Longrightarrow> k \<in> set AUTHORITY_BOUND_EVENTS" for x
    by (auto simp: attempt_edge.simps AUTHORITY_BOUND_EVENTS_def)
  from item_move_graph [OF assms(1)] assms(2) show ?thesis
    by (auto simp: attempt_step_def dest: item att)
qed

text \<open>
  C17. No cancellation without authority. If an accepted step cancels the task, any work item or
  any current attempt, or changes the control record, then its event names a principal, one of
  the closed control reasons, and an authority evidence that is present in the evidence set
  handed to the reducer.
\<close>

theorem cancellation_needs_authority:
  assumes "reduce s e ev = Accepted a"
    and "cancels s (ac_state a) \<or> st_control (ac_state a) \<noteq> st_control s"
  shows "(\<exists>p. ev_principal e = Some p \<and> id_kind p = IK_PRINCIPAL) \<and>
     (\<exists>r. ev_control_reason e = Some (Closed r)) \<and>
     (\<exists>x\<in>set ev. ev_authority e = Some (evd_id x) \<and> is_digest (evd_digest x))"
proof -
  from assms(1) obtain status k sp target h where
    tk: "takes s e ev status k sp target" and st: "ac_state a = next_state s status target sp h"
    and d: "dispatch s status k e = Some sp" and s: "st_status s = Closed status"
    and k: "ev_kind e = Closed k" and tg: "sp_target sp = Some target"
    by (auto elim!: reduce_Accepted_state)
  have auth: "k \<in> set AUTHORITY_BOUND_EVENTS"
  proof (cases "st_control (ac_state a) = st_control s")
    case False
    from d show ?thesis
      by (cases rule: dispatch_control) (use st False in \<open>auto simp: AUTHORITY_BOUND_EVENTS_def\<close>)
  next
    case True
    have items: "k \<in> set AUTHORITY_BOUND_EVENTS" if "i < length (st_items s)"
      "(wi_status (st_items s ! i) \<noteq> WS_CANCELLED \<and> wi_status (st_items (ac_state a) ! i) = WS_CANCELLED) \<or>
       (map_option at_status (wi_attempt (st_items s ! i)) \<noteq> Some AS_CANCELLED \<and>
        map_option at_status (wi_attempt (st_items (ac_state a) ! i)) = Some AS_CANCELLED)" for i
      using reduce_moves [OF assms(1) k] that item_move_cancels
      by (auto simp: list_all2_conv_all_nth)
    have "k \<in> set AUTHORITY_BOUND_EVENTS" if "st_status s \<noteq> Closed TS_CANCELLED"
      "st_status (ac_state a) = Closed TS_CANCELLED"
      using that dispatch_status [OF d tg] st s
      by (auto simp: task_edge_iff AUTHORITY_BOUND_EVENTS_def split: if_splits)
    with True assms(2) items show ?thesis unfolding cancels_def by blast
  qed
  have "evidence_set_is_valid ev" "opt_has_kind (ev_principal e) IK_PRINCIPAL"
    using tk auth by (auto simp: takes_def inputs_ok_def authority_is_valid_iff)
  with authority_principal [OF tk auth] show ?thesis
    by (force simp: evidence_set_is_valid_def list_all_iff opt_has_kind_iff has_identity_kind_def)
qed

lemma cancel_items_nth:
  "i < length items \<Longrightarrow> fst (cancel_items p items) ! i =
     (if p (items ! i) then fst (cancelled_work_item (items ! i)) else items ! i)"
  by (simp add: cancel_items_def)

text \<open>
  Cancelling the task settles all its work. After an accepted \<^verbatim>\<open>task_cancelled\<close> the task is
  cancelled, has no suspension and no interrupt; every work item is terminal, those that were not
  are cancelled together with their live attempt, and the others are untouched.
\<close>

theorem task_cancelled_settles_items:
  assumes "reduce s e ev = Accepted a" and "ev_kind e = Closed EK_TASK_CANCELLED"
  shows "st_status (ac_state a) = Closed TS_CANCELLED \<and> st_suspension (ac_state a) = None \<and>
     ct_status (current_control (ac_state a)) = CS_ACTIVE \<and>
     list_all2 (\<lambda>w w'. if wi_status w \<in> set terminal_item then w' = w
        else wi_status w' = WS_CANCELLED \<and>
          (\<forall>a. wi_attempt w' = Some a \<longrightarrow> at_status a \<notin> set active_attempt))
       (st_items s) (st_items (ac_state a))"
proof -
  from assms obtain status sp target h where
    st: "ac_state a = next_state s status target sp h" and tg: "sp_target sp = Some target"
    and d: "do_task_cancelled s status e = Some sp"
    by (auto elim!: reduce_Accepted_state)
  have "dispatch s status EK_TASK_CANCELLED e = Some sp" using d by simp
  from dispatch_status [OF this tg] have "target = TS_CANCELLED"
    by (simp add: task_neutral_def task_edge_iff)
  moreover have "at_status b \<notin> set active_attempt"
    if "wi_attempt (fst (cancelled_work_item w)) = Some b" for w b
    using that by (auto simp: cancelled_work_item_def active_attempt_def split: option.splits if_splits)
  ultimately show ?thesis
    using st do_task_cancelled_SomeD [OF d]
    by (auto simp: list_all2_conv_all_nth cancel_items_nth cancelled_work_item_frame
        current_control_def cancel_items_def)
qed

section \<open>Result digests\<close>

text \<open>
  A result digest binds its past. If two accepted results carry the same digest, they answer
  the same event with the same input digest from the same prior state, history included, and owe
  the same obligations and audit facts, unless the two digested texts, or the texts of the two
  prior states, are a collision of SHA-256.
\<close>

theorem result_digest_binds:
  assumes "reduce s e ev = Accepted a" and "reduce t e' ev' = Accepted b"
    and "ac_result_digest a = ac_result_digest b"
  shows "(ev_id e' = ev_id e \<and> ac_input_digest b = ac_input_digest a \<and> t = s \<and>
      ac_obligations b = ac_obligations a \<and> ac_facts b = ac_facts a) \<or>
    sha_collision (state_json s) (state_json t) \<or>
    (\<exists>v w. sha_collision v w \<and> digest v = ac_result_digest a \<and> digest w = ac_result_digest b)"
proof -
  from assms(1) obtain status k sp target where
    t: "takes s e ev status k sp target"
    and f: "finish s status k e (input_digest s e ev) sp = Accepted a"
    by (rule reduce_Accepted_takes)
  from assms(2) obtain status' k' sp' target' where
    t': "takes t e' ev' status' k' sp' target'"
    and f': "finish t status' k' e' (input_digest t e' ev') sp' = Accepted b"
    by (rule reduce_Accepted_takes)
  note a = finish_takes [OF t f] and b = finish_takes [OF t' f']
  obtain v where v: "ac_result_digest a = digest v" "jget ''event_id'' v = Some (identity_json (ev_id e))"
    "jget ''input_digest'' v = Some (JStr (ac_input_digest a))"
    "jget ''prior_state_digest'' v = Some (JStr (digest (state_json s)))"
    "jget ''obligations'' v = Some (JArr (map JStr (ac_obligations a)))"
    "jget ''audit_facts'' v = Some (JArr (map JStr (ac_facts a)))"
    using a(2,5) by (auto simp: accepted_result_digest_def)
  obtain w where w: "ac_result_digest b = digest w" "jget ''event_id'' w = Some (identity_json (ev_id e'))"
    "jget ''input_digest'' w = Some (JStr (ac_input_digest b))"
    "jget ''prior_state_digest'' w = Some (JStr (digest (state_json t)))"
    "jget ''obligations'' w = Some (JArr (map JStr (ac_obligations b)))"
    "jget ''audit_facts'' w = Some (JArr (map JStr (ac_facts b)))"
    using b(2,5) by (auto simp: accepted_result_digest_def)
  show ?thesis
  proof (cases "sha_collision v w \<or> sha_collision (state_json s) (state_json t)")
    case True
    then show ?thesis using v(1) w(1) by auto
  next
    case False
    then have eq: "json_eq v w" using digest_eqD assms(3) v(1) w(1) by simp
    have "ev_id e' = ev_id e" "ac_input_digest b = ac_input_digest a"
      using json_eq_field [OF eq v(2) w(2)] json_eq_field [OF eq v(3) w(3)] by simp_all
    moreover have "ac_obligations b = ac_obligations a"
      using json_eq_field [OF eq v(5) w(5)] list_all2_json_eq_map_inj [of JStr "ac_obligations a" "ac_obligations b"]
      by (auto simp: json_eq_JArr_iff)
    moreover have "ac_facts b = ac_facts a"
      using json_eq_field [OF eq v(6) w(6)] list_all2_json_eq_map_inj [of JStr "ac_facts a" "ac_facts b"]
      by (auto simp: json_eq_JArr_iff)
    moreover have "digest (state_json s) = digest (state_json t)"
      using json_eq_field [OF eq v(4) w(4)] by simp
    then have "json_eq (state_json s) (state_json t)" using False digest_eqD by blast
    then have "s = t"
      using t t' by (intro state_json_inj) (simp_all add: takes_def state_closed_def)
    ultimately show ?thesis by simp
  qed
qed

end
