(* ===== verification/Kernel_Progress.thy ===== *)
theory Kernel_Progress
  imports Kernel_Control
begin

text \<open>
  Acceptance without hashing, and progress: whether the reducer accepts an event does not depend
  on the digests it computes, no unfinished task is ever stuck, and its way to done does not look at
  the work items.
\<close>

section \<open>Acceptance as a computable test\<close>

text \<open>The guards of \<open>reduce\<close>, its dispatch and its tail, without the digests.\<close>

definition accepts :: "state \<Rightarrow> event \<Rightarrow> evidence list \<Rightarrow> bool" where
  "accepts s e ev =
     (case (st_status s, ev_kind e) of
        (Closed status, Closed k) \<Rightarrow>
          inputs_ok s k e ev \<and> \<not> attempt_event_is_stale s k e \<and>
          list_all (\<lambda>x. ae_event x \<noteq> ev_id e) (st_accepted s) \<and>
          ev_task e = st_task s \<and> ev_expected_revision e = st_revision s \<and>
          (ct_status (current_control s) = CS_INTERRUPTED \<longrightarrow> k \<in> set while_interrupted) \<and>
          (case dispatch s status k e of
             None \<Rightarrow> False
           | Some sp \<Rightarrow>
               (case sp_target sp of
                  None \<Rightarrow> False
                | Some target \<Rightarrow> \<not> wait_blocks status k target sp))
      | _ \<Rightarrow> False)"

lemma accepts_takes:
  "accepts s e ev \<longleftrightarrow> (\<exists>status k sp target. takes s e ev status k sp target)"
  by (auto simp: accepts_def takes_def list_all_iff split: open_enum.splits option.splits)

lemma accepts_iff: "accepts s e ev \<longleftrightarrow> (\<exists>a. reduce s e ev = Accepted a)"
  unfolding accepts_takes by (meson takes_accepts reduce_Accepted_takes)

lemma accepts_obtains:
  assumes "accepts s e ev"
  obtains a where "reduce s e ev = Accepted a"
  using assms by (auto simp: accepts_iff)

section \<open>Plain events\<close>

text \<open>An event of the given kind that fits the state and binds nothing else.\<close>

definition plain_event :: "state \<Rightarrow> event_kind \<Rightarrow> string \<Rightarrow> event" where
  "plain_event s k v =
     \<lparr>ev_id = Identity IK_EVENT v, ev_installation = st_installation s,
      ev_leader_epoch = st_leader_epoch s, ev_task = st_task s, ev_kind = Closed k,
      ev_expected_revision = st_revision s, ev_item = None, ev_attempt = None, ev_dispatch = None,
      ev_generation = None, ev_suspension = None, ev_epoch = None, ev_policy = None,
      ev_policy_digest = None, ev_required = [], ev_wake = None, ev_wake_reason = None,
      ev_principal = None, ev_authority = None, ev_control_reason = None, ev_scope = None,
      ev_interrupt = None, ev_redirect = None, ev_version = None, ev_next_version = None,
      ev_superseded = []\<rparr>"

definition fresh_name :: "state \<Rightarrow> string \<Rightarrow> bool" where
  "fresh_name s v \<longleftrightarrow> list_all (\<lambda>x. ae_event x \<noteq> Identity IK_EVENT v) (st_accepted s)"

lemma fresh_name_exists: "\<exists>v. fresh_name s v"
proof -
  have "finite (id_value ` ae_event ` set (st_accepted s))" by simp
  then obtain v where v: "v \<notin> id_value ` ae_event ` set (st_accepted s)"
    using ex_new_if_finite [OF infinite_UNIV_listI] by blast
  then have "fresh_name s v"
    by (auto simp: fresh_name_def list_all_iff Identity_def image_iff)
  then show ?thesis by blast
qed

lemma plain_event_valid:
  "state_is_valid s \<Longrightarrow> event_is_valid (plain_event s k v)"
  by (simp add: plain_event_def event_is_valid_def state_is_valid_def opt_kind_ok_def
      has_identity_kind_def Identity_def)

lemma plain_takes:
  assumes "state_is_valid s" and "st_status s = Closed x" and "plain_kind k" and "task_edge k x y"
    and "ct_status (current_control s) = CS_ACTIVE \<or> k = EK_TASK_FAILED"
    and "\<And>u. st_suspension s = Some u \<Longrightarrow> su_status u = SS_WAITING \<Longrightarrow> k \<in> {EK_TASK_BLOCKED, EK_TASK_FAILED}"
    and "fresh_name s v"
  shows "takes s (plain_event s k v) [] x k (initial_step s x k) y"
proof -
  have k: "k \<notin> set AUTHORITY_BOUND_EVENTS" "k \<notin> set ATTEMPT_SCOPED_EVENTS" "k \<noteq> EK_REDIRECT_AUTHORIZED"
    using assms(3)
    by (auto simp: plain_kind_def AUTHORITY_BOUND_EVENTS_def ATTEMPT_SCOPED_EVENTS_def)
  have "dispatch s x k (plain_event s k v) = Some (initial_step s x k)"
    using assms(3) by (cases k rule: dispatch_cases)
      (auto simp: plain_kind_def attempt_transitions_def item_transitions_def)
  moreover have "\<not> wait_blocks x k y (initial_step s x k)"
    using assms(6) by (auto simp: wait_blocks_def split: option.splits)
  moreover have "inputs_ok s k (plain_event s k v) []"
    using plain_event_valid [OF assms(1)] assms(1) k(1)
    by (simp add: inputs_ok_def authority_is_valid_iff evidence_set_is_valid_def plain_event_def)
  moreover have "\<not> attempt_event_is_stale s k (plain_event s k v)"
    using k(2) by (simp add: attempt_event_is_stale_def)
  moreover have "task_transition x k = Some y"
    using assms(4) k(3) by (simp add: task_transition_iff)
  ultimately show ?thesis
    using assms(2,5,7)
    by (auto simp: takes_def plain_event_def fresh_name_def list_all_iff while_interrupted_def)
qed

lemma plain_step:
  assumes "kernel_inv s" and "st_status s = Closed x" and "plain_kind k" and "task_edge k x y"
    and "ct_status (current_control s) = CS_ACTIVE"
    and "\<And>u. st_suspension s = Some u \<Longrightarrow> su_status u = SS_WAITING \<Longrightarrow> k \<in> {EK_TASK_BLOCKED, EK_TASK_FAILED}"
  obtains e ev a where "reduce s e ev = Accepted a" "ev_kind e = Closed k"
    "st_status (ac_state a) = Closed y" "kernel_inv (ac_state a)"
    "ct_status (current_control (ac_state a)) = CS_ACTIVE" "st_items (ac_state a) = st_items s"
    "st_suspension (ac_state a) = (if y = x then st_suspension s else None)"
proof -
  obtain v where "fresh_name s v" using fresh_name_exists by blast
  with assms have t: "takes s (plain_event s k v) [] x k (initial_step s x k) y"
    by (intro plain_takes) (auto simp: kernel_inv_def)
  then obtain a where a: "reduce s (plain_event s k v) [] = Accepted a" using takes_accepts by blast
  then have "finish s x k (plain_event s k v) (input_digest s (plain_event s k v) [])
      (initial_step s x k) = Accepted a" using takes_reduce [OF t] by simp
  from finish_takes [OF t this] show ?thesis
    using a reduce_inv [OF a assms(1)] assms(5)
    by (intro that [of "plain_event s k v" "[]" a])
       (auto simp: plain_event_def current_control_def)
qed

section \<open>The way to done\<close>

text \<open>The way to done from each status, and how far it is.\<close>

fun way_out :: "task_status \<Rightarrow> (event_kind \<times> task_status) option" where
  "way_out TS_PUBLISHED = Some (EK_ROUTING_VALIDATION_STARTED, TS_ROUTING_VALIDATION)"
| "way_out TS_ROUTING_VALIDATION = Some (EK_ROUTING_VALIDATION_PASSED, TS_DISPATCHING)"
| "way_out TS_DISPATCHING = Some (EK_DISPATCH_ACCEPTED, TS_EXECUTING)"
| "way_out TS_EXECUTING = Some (EK_WORK_COMPLETED, TS_VERIFYING)"
| "way_out TS_VERIFYING = Some (EK_VERIFICATION_PASSED, TS_REVIEWING)"
| "way_out TS_REVIEWING = Some (EK_REVIEW_PASSED, TS_RECORDING)"
| "way_out TS_FIXING = Some (EK_FIX_DISPATCH_REQUESTED, TS_DISPATCHING)"
| "way_out TS_APPROVAL_REQUIRED = Some (EK_APPROVAL_GRANTED, TS_RECORDING)"
| "way_out TS_RECORDING = Some (EK_RECORDING_COMPLETED, TS_DONE)"
| "way_out TS_BLOCKED = Some (EK_BLOCKED_RECOVERY_TO_FIXING, TS_FIXING)"
| "way_out _ = None"

primrec distance :: "task_status \<Rightarrow> nat" where
  "distance TS_PUBLISHED = 7"
| "distance TS_ROUTING_VALIDATION = 6"
| "distance TS_DISPATCHING = 5"
| "distance TS_EXECUTING = 4"
| "distance TS_VERIFYING = 3"
| "distance TS_REVIEWING = 2"
| "distance TS_FIXING = 6"
| "distance TS_APPROVAL_REQUIRED = 2"
| "distance TS_RECORDING = 1"
| "distance TS_BLOCKED = 7"
| "distance TS_DONE = 0"
| "distance TS_FAILED = 0"
| "distance TS_CANCELLED = 0"

lemma way_out_edge:
  "way_out x = Some (k, y) \<Longrightarrow> task_edge k x y \<and> plain_kind k \<and> distance x = Suc (distance y) \<and>
     k \<notin> {EK_TASK_BLOCKED, EK_TASK_FAILED} \<and> y \<noteq> x \<and> y \<notin> {TS_FAILED, TS_CANCELLED}"
  by (cases x) (auto simp: plain_kind_def intro: task_edge.intros)

lemma way_out_None: "way_out x = None \<longleftrightarrow> x \<in> set terminal_task"
  by (cases x) (simp_all add: terminal_task_def)

lemma reaches_done:
  assumes "kernel_inv s" and "st_status s = Closed x" and "x \<notin> {TS_FAILED, TS_CANCELLED}"
    and "ct_status (current_control s) = CS_ACTIVE" and "\<And>u. st_suspension s = Some u \<Longrightarrow> su_status u \<noteq> SS_WAITING"
  shows "\<exists>tr t. run s tr t \<and> st_status t = Closed TS_DONE \<and> st_items t = st_items s \<and> length tr = distance x"
  using assms
proof (induction "distance x" arbitrary: x s)
  case 0
  then have "x = TS_DONE" by (cases x) simp_all
  then show ?case using 0 by (intro exI [of _ "[]"] exI [of _ s]) simp
next
  case (Suc n)
  then have "way_out x \<noteq> None" by (auto simp: way_out_None terminal_task_def)
  then obtain k y where w: "way_out x = Some (k, y)" by auto
  note e = way_out_edge [OF w]
  obtain ev evd a where a: "reduce s ev evd = Accepted a" "st_status (ac_state a) = Closed y"
    "kernel_inv (ac_state a)" "ct_status (current_control (ac_state a)) = CS_ACTIVE"
    "st_items (ac_state a) = st_items s"
    "st_suspension (ac_state a) = (if y = x then st_suspension s else None)"
    by (rule plain_step [OF Suc.prems(1,2) _ _ Suc.prems(4), of k y]) (use e Suc.prems(5) in blast)+
  then obtain tr t where "run (ac_state a) tr t" "st_status t = Closed TS_DONE" "st_items t = st_items s"
    "length tr = distance y"
    using Suc.hyps(1) [of y "ac_state a"] Suc.hyps(2) e by auto
  then show ?case
    using run_Cons [OF a(1)] e by (intro exI [of _ "(ev, evd, a) # tr"] exI [of _ t]) simp
qed

text \<open>An interrupt can be lifted, and a wait can be ended.\<close>

definition resume_event :: "state \<Rightarrow> string \<Rightarrow> event" where
  "resume_event s v =
     (plain_event s EK_INTERRUPT_RESUMED v)\<lparr>
       ev_interrupt := ct_interrupt (current_control s),
       ev_version := Some (ct_version (current_control s)),
       ev_principal := Some (Identity IK_PRINCIPAL ''operator''),
       ev_authority := Some (Identity IK_EVIDENCE ''authority''),
       ev_control_reason := Some (Closed CR_USER_REQUESTED)\<rparr>"

definition resume_evidence :: "evidence list" where
  "resume_evidence = [\<lparr>evd_id = Identity IK_EVIDENCE ''authority'', evd_digest = digest JNull\<rparr>]"

lemma resume_takes:
  assumes "state_is_valid s" and "st_status s = Closed x"
    and "ct_status (current_control s) = CS_INTERRUPTED" and "fresh_name s v"
  obtains sp where "takes s (resume_event s v) resume_evidence x EK_INTERRUPT_RESUMED sp x"
proof -
  let ?e = "resume_event s v"
  have c: "control_is_valid (current_control s)" using assms(1) by (rule current_control_valid)
  have "event_is_valid ?e"
    using plain_event_valid [OF assms(1), of EK_INTERRUPT_RESUMED v] c assms(3)
    by (auto simp: event_is_valid_def resume_event_def opt_kind_ok_def has_identity_kind_def
        Identity_def control_is_valid_def opt_has_kind_iff)
  then have ok: "inputs_ok s EK_INTERRUPT_RESUMED ?e resume_evidence"
    using assms(1)
    by (simp add: inputs_ok_def authority_is_valid_iff evidence_set_is_valid_def resume_event_def
        resume_evidence_def plain_event_def opt_has_kind_def has_identity_kind_def Identity_def)
  have "do_interrupt_resumed s x ?e \<noteq> None"
    using assms(3)
    by (simp add: do_interrupt_resumed_def resume_event_def plain_event_def Let_def)
  then obtain sp where sp: "do_interrupt_resumed s x ?e = Some sp" by auto
  then have "takes s ?e resume_evidence x EK_INTERRUPT_RESUMED sp x"
    using ok assms(2-4) do_interrupt_frame(2) [OF sp]
    by (auto simp: takes_def wait_blocks_def attempt_event_is_stale_def ATTEMPT_SCOPED_EVENTS_def
        while_interrupted_def resume_event_def plain_event_def fresh_name_def list_all_iff)
  then show ?thesis by (rule that)
qed

lemma resume_step:
  assumes "kernel_inv s" and "st_status s = Closed x"
  obtains tr t where "run s tr t" "length tr \<le> 1" "kernel_inv t" "st_status t = Closed x"
    "ct_status (current_control t) = CS_ACTIVE" "st_items t = st_items s"
proof (cases "ct_status (current_control s)")
  case CS_ACTIVE
  then show ?thesis using that [of "[]" s] assms by simp
next
  case CS_INTERRUPTED
  obtain v where "fresh_name s v" using fresh_name_exists by blast
  then obtain sp where t: "takes s (resume_event s v) resume_evidence x EK_INTERRUPT_RESUMED sp x"
    using resume_takes [OF _ assms(2) CS_INTERRUPTED] assms(1) by (auto simp: kernel_inv_def)
  then obtain a where a: "reduce s (resume_event s v) resume_evidence = Accepted a"
    using takes_accepts by blast
  have f: "finish s x EK_INTERRUPT_RESUMED (resume_event s v)
      (input_digest s (resume_event s v) resume_evidence) sp = Accepted a"
    using a takes_reduce [OF t] by simp
  have sp: "do_interrupt_resumed s x (resume_event s v) = Some sp" using t by (simp add: takes_def)
  then have "sp_items sp = st_items s"
    by (auto simp: do_interrupt_resumed_def Let_def initial_step_def split: if_splits)
  with finish_takes(6) [OF t f] do_interrupt_frame(2) [OF sp] show ?thesis
    using that [OF run_Cons [OF a run_Nil]] reduce_inv [OF a assms(1)]
    by (simp add: current_control_def)
qed

lemma unwait_step:
  assumes "kernel_inv s" and "st_status s = Closed x" and "x \<notin> set terminal_task"
    and "ct_status (current_control s) = CS_ACTIVE"
  obtains tr t y where "run s tr t" "length tr \<le> 1" "kernel_inv t" "st_status t = Closed y"
    "y \<notin> set terminal_task" "ct_status (current_control t) = CS_ACTIVE" "st_items t = st_items s"
    "\<And>u. st_suspension t = Some u \<Longrightarrow> su_status u \<noteq> SS_WAITING"
proof (cases "\<exists>u. st_suspension s = Some u \<and> su_status u = SS_WAITING")
  case False
  then show ?thesis using that [of "[]" s x] assms by simp
next
  case True
  then have x: "x = TS_EXECUTING" using assms(1,2) by (auto simp: kernel_inv_def state_is_valid_def)
  have edge: "task_edge EK_TASK_BLOCKED x TS_BLOCKED" using x by (auto intro: task_edge.intros)
  have pk: "plain_kind EK_TASK_BLOCKED" by (simp add: plain_kind_def)
  obtain e ev a where red: "reduce s e ev = Accepted a"
    and "st_status (ac_state a) = Closed TS_BLOCKED" "kernel_inv (ac_state a)"
    "ct_status (current_control (ac_state a)) = CS_ACTIVE" "st_items (ac_state a) = st_items s"
    "st_suspension (ac_state a) = None"
    by (rule plain_step [OF assms(1,2) pk edge assms(4)]) (use x in simp_all)
  then show ?thesis
    using that [OF run_Cons [OF red run_Nil]] by (simp add: terminal_task_def)
qed

lemma distance_le: "distance x \<le> 7"
  by (cases x) simp_all

text \<open>
  C35. Progress, and what Done does not check. From every state reachable from genesis whose task is
  not done, failed or cancelled, whatever interrupt or wait is in force, there is a sequence of at
  most nine further events that the kernel accepts, that leaves every work item as it is, and that
  ends with the task done. So an unfinished task is never stuck. It is also where the kernel departs
  from SPEC 21.6, by which a required work item that is failed, blocked, cancelled, skipped, partial
  or degraded blocks Done: the kernel's way to done never looks at the work items, and such an item is
  still there, unchanged, when the task is done.
\<close>

theorem done_ignores_work_items:
  assumes "genesis_ok g" and "run g tr0 s" and "st_status s = Closed x" and "x \<notin> set terminal_task"
  shows "\<exists>tr t. run s tr t \<and> st_status t = Closed TS_DONE \<and> st_items t = st_items s \<and> length tr \<le> 9"
proof -
  have "kernel_inv s" using run_inv [OF assms(2) genesis_inv [OF assms(1)]] .
  from resume_step [OF this assms(3)] obtain tr1 s1 where
    1: "run s tr1 s1" "length tr1 \<le> 1" "kernel_inv s1" "st_status s1 = Closed x"
    "ct_status (current_control s1) = CS_ACTIVE" "st_items s1 = st_items s" .
  from unwait_step [OF 1(3,4) assms(4) 1(5)] obtain tr2 s2 y where
    2: "run s1 tr2 s2" "length tr2 \<le> 1" "kernel_inv s2" "st_status s2 = Closed y"
    "y \<notin> set terminal_task" "ct_status (current_control s2) = CS_ACTIVE" "st_items s2 = st_items s1"
    "\<And>u. st_suspension s2 = Some u \<Longrightarrow> su_status u \<noteq> SS_WAITING" by metis
  then obtain tr3 t where 3: "run s2 tr3 t" "st_status t = Closed TS_DONE" "st_items t = st_items s2"
    "length tr3 = distance y"
    using reaches_done [OF 2(3,4) _ 2(6,8)] by (auto simp: terminal_task_def)
  have "run s (tr1 @ tr2 @ tr3) t" using 1(1) 2(1) 3(1) by (auto simp: run_append)
  moreover have "length (tr1 @ tr2 @ tr3) \<le> 9" using 1(2) 2(2) 3(4) distance_le [of y] by simp
  moreover have "st_items t = st_items s" using 1(6) 2(7) 3(3) by simp
  ultimately show ?thesis using 3(2) by blast
qed

end
