(* ===== verification/Append_Log.thy ===== *)
theory Append_Log
  imports Prelude
begin

text \<open>
  The contract that the two journals of the program share: a state carries a list of entries, a
  partial step either refuses or keeps the state's invariant and appends exactly one entry. The
  kernel's accepted-event history and the receipt ledger both meet it; what follows for whole
  sequences of steps is proved here once.
\<close>

fun iterate :: "('s \<Rightarrow> 'e \<Rightarrow> 's option) \<Rightarrow> 's \<Rightarrow> 'e list \<Rightarrow> 's option" where
  "iterate f s [] = Some s"
| "iterate f s (e # es) = (case f s e of None \<Rightarrow> None | Some t \<Rightarrow> iterate f t es)"

lemma iterate_append:
  "iterate f s (es @ es') = (case iterate f s es of None \<Rightarrow> None | Some t \<Rightarrow> iterate f t es')"
  by (induction es arbitrary: s) (simp_all split: option.splits)

locale append_log =
  fixes log_step :: "'s \<Rightarrow> 'e \<Rightarrow> 's option" and log_entries :: "'s \<Rightarrow> 'x list"
    and log_inv :: "'s \<Rightarrow> bool"
  assumes step_inv: "log_inv s \<Longrightarrow> log_step s e = Some t \<Longrightarrow> log_inv t"
    and step_append: "log_inv s \<Longrightarrow> log_step s e = Some t \<Longrightarrow> \<exists>x. log_entries t = log_entries s @ [x]"
begin

lemma iterate_inv: "log_inv s \<Longrightarrow> iterate log_step s es = Some t \<Longrightarrow> log_inv t"
  by (induction es arbitrary: s) (auto split: option.splits intro: step_inv)

lemma iterate_appends:
  "log_inv s \<Longrightarrow> iterate log_step s es = Some t \<Longrightarrow>
     \<exists>xs. log_entries t = log_entries s @ xs \<and> length xs = length es"
proof (induction es arbitrary: s)
  case Nil
  then show ?case by simp
next
  case (Cons e es)
  then obtain u where u: "log_step s e = Some u" "iterate log_step u es = Some t"
    by (auto split: option.splits)
  obtain x where "log_entries u = log_entries s @ [x]" using step_append [OF Cons.prems(1) u(1)] by blast
  moreover obtain xs where "log_entries t = log_entries u @ xs" "length xs = length es"
    using Cons.IH [OF step_inv [OF Cons.prems(1) u(1)] u(2)] by blast
  ultimately show ?case by (intro exI [of _ "x # xs"]) simp
qed

text \<open>An entry, once written, keeps its place.\<close>

lemma iterate_keeps:
  assumes "log_inv s" and "iterate log_step s es = Some t" and "i < length (log_entries s)"
  shows "log_entries t ! i = log_entries s ! i"
  using iterate_appends [OF assms(1,2)] assms(3) by (auto simp: nth_append)

end

end
