(* ===== verification/Kernel_Replay.thy ===== *)
theory Kernel_Replay
  imports Kernel_Control Append_Log
begin

text \<open>
  Replay roots, checkpoint authentication and \<^verbatim>\<open>replay\<close> of
  \<^verbatim>\<open>src/valp_cli/protocol_kernel.py\<close>. Shown: replay returns exactly the state the reducer
  reaches on the recorded inputs, it accepts every honest journal, and the digests bind what they are
  taken of. That a checkpoint never changes what is recovered is shown in \<open>Kernel_Checkpoint\<close>.
\<close>

section \<open>Trust policy, roots, entries\<close>

record trust_policy =
  tp_ids :: "identity list"

text \<open>\<^verbatim>\<open>CheckpointTrustPolicy.__post_init__\<close>: checks the identities and sorts them canonically.\<close>

definition make_trust_policy :: "identity list \<Rightarrow> trust_policy res" where
  "make_trust_policy ids =
     (if ids = [] \<or> \<not> list_all (\<lambda>i. has_identity_kind i IK_EVIDENCE) ids \<or> \<not> distinct ids
      then Inl (ValueError ''CheckpointTrustPolicy requires unique Evidence identities'')
      else Inr \<lparr>tp_ids = sort_key (\<lambda>i. canonical_json (identity_json i)) ids\<rparr>)"

definition trust_policy_json :: "trust_policy \<Rightarrow> json" where
  "trust_policy_json p =
     JObj [(''schema_version'', JStr ''valp-kernel-checkpoint-trust-policy.v1''),
           (''trusted_evidence_ids'', JArr (map identity_json (tp_ids p)))]"

definition trust_policy_digest :: "trust_policy \<Rightarrow> string" where
  "trust_policy_digest p = digest (trust_policy_json p)"

definition EMPTY_REPLAY_PREFIX_DIGEST :: string where
  "EMPTY_REPLAY_PREFIX_DIGEST =
     digest (JObj [(''schema_version'', JStr ''valp-kernel-replay-prefix.v1''), (''entries'', JArr [])])"

definition genesis_root_json :: "state \<Rightarrow> json" where
  "genesis_root_json s =
     JObj [(''schema_version'', JStr ''valp-kernel-genesis-root.v1''),
           (''state'', state_json s),
           (''prefix_digest'', JStr EMPTY_REPLAY_PREFIX_DIGEST)]"

record checkpoint_root =
  cp_state :: state
  cp_count :: int
  cp_prefix :: string
  cp_tail_event :: identity
  cp_tail_result :: identity
  cp_tail_digest :: string
  cp_result :: identity
  cp_policy_digest :: string

definition checkpoint_root_is_valid :: "checkpoint_root \<Rightarrow> bool" where
  "checkpoint_root_is_valid c \<longleftrightarrow>
     state_is_valid (cp_state c) \<and>
     \<not> (st_revision (cp_state c) < 1 \<or>
        cp_count c \<noteq> st_revision (cp_state c) \<or>
        cp_count c \<noteq> int (length (st_accepted (cp_state c))) \<or>
        \<not> is_digest (cp_prefix c) \<or> \<not> is_digest (cp_tail_digest c) \<or>
        \<not> is_digest (cp_policy_digest c) \<or>
        \<not> has_identity_kind (cp_tail_event c) IK_EVENT \<or>
        \<not> has_identity_kind (cp_tail_result c) IK_RESULT \<or>
        \<not> has_identity_kind (cp_result c) IK_RESULT) \<and>
     (let tail = last (st_accepted (cp_state c)) in
      cp_tail_event c = ae_event tail \<and> cp_tail_result c = ae_result tail \<and>
      cp_tail_digest c = ae_result_digest tail)"

text \<open>\<^verbatim>\<open>CheckpointRoot.__post_init__\<close>: construction fails on bindings that do not hold.\<close>

definition make_checkpoint_root :: "checkpoint_root \<Rightarrow> checkpoint_root res" where
  "make_checkpoint_root c =
     (if checkpoint_root_is_valid c then Inr c
      else Inl (ValueError ''CheckpointRoot bindings are invalid''))"

definition checkpoint_root_json :: "checkpoint_root \<Rightarrow> json" where
  "checkpoint_root_json c =
     JObj [(''schema_version'', JStr ''valp-kernel-checkpoint-root.v1''),
           (''state'', state_json (cp_state c)),
           (''state_digest'', JStr (digest (state_json (cp_state c)))),
           (''accepted_entry_count'', JInt (cp_count c)),
           (''prefix_digest'', JStr (cp_prefix c)),
           (''tail_event_id'', identity_json (cp_tail_event c)),
           (''tail_result_id'', identity_json (cp_tail_result c)),
           (''tail_result_digest'', JStr (cp_tail_digest c)),
           (''checkpoint_result_id'', identity_json (cp_result c)),
           (''trust_policy_digest'', JStr (cp_policy_digest c))]"

datatype replay_root = GenesisRoot state | CheckpointRoot checkpoint_root

record replay_entry =
  re_event :: event
  re_evidence :: "evidence list"
  re_result :: result

definition replay_entry_json :: "replay_entry \<Rightarrow> json" where
  "replay_entry_json x =
     JObj [(''schema_version'', JStr ''valp-kernel-replay-entry.v1''),
           (''event'', event_json (re_event x)),
           (''evidence_set'', JArr (canonical_evidence (re_evidence x))),
           (''result'', result_json (re_result x))]"

fun is_accepted :: "result \<Rightarrow> bool" where
  "is_accepted (Accepted _) = True"
| "is_accepted _ = False"

definition prefix_value :: "replay_entry list \<Rightarrow> json" where
  "prefix_value xs =
     JObj [(''schema_version'', JStr ''valp-kernel-replay-prefix.v1''),
           (''entries'', JArr (map replay_entry_json xs))]"

definition replay_prefix_digest :: "replay_entry list \<Rightarrow> string res" where
  "replay_prefix_digest xs =
     (if \<not> list_all (\<lambda>x. is_accepted (re_result x)) xs
      then Inl (ValueError ''replay prefix requires accepted ReplayEntry records'')
      else Inr (digest (prefix_value xs)))"

section \<open>Checkpoint authentication\<close>

record checkpoint_authentication =
  au_result :: result
  au_evidence :: "evidence list"
  au_policy :: trust_policy

definition make_checkpoint_authentication ::
  "result \<Rightarrow> evidence list \<Rightarrow> trust_policy \<Rightarrow> checkpoint_authentication res" where
  "make_checkpoint_authentication r ev p =
     (if \<not> distinct (map evd_id ev)
      then Inl (ValueError ''CheckpointAuthentication requires unique Evidence identities'')
      else Inr \<lparr>au_result = r, au_evidence = ev, au_policy = p\<rparr>)"

definition statement_value :: "checkpoint_root \<Rightarrow> result \<Rightarrow> trust_policy \<Rightarrow> json" where
  "statement_value c r p =
     JObj [(''schema_version'', JStr ''valp-kernel-checkpoint-statement.v1''),
           (''checkpoint_root'', checkpoint_root_json c),
           (''checkpoint_result'', result_json r),
           (''trust_policy_digest'', JStr (trust_policy_digest p))]"

definition statement_digest_for :: "checkpoint_root \<Rightarrow> result \<Rightarrow> trust_policy \<Rightarrow> string" where
  "statement_digest_for c r p = digest (statement_value c r p)"

definition checkpoint_authentication_json :: "checkpoint_authentication \<Rightarrow> json" where
  "checkpoint_authentication_json x =
     JObj [(''schema_version'', JStr ''valp-kernel-checkpoint-authentication.v1''),
           (''checkpoint_result'', result_json (au_result x)),
           (''evidence_set'', JArr (canonical_evidence (au_evidence x))),
           (''trust_policy'', trust_policy_json (au_policy x))]"

definition checkpoint_authentication_is_valid ::
  "checkpoint_root \<Rightarrow> checkpoint_authentication option \<Rightarrow> bool" where
  "checkpoint_authentication_is_valid c auth =
     (case auth of
        None \<Rightarrow> False
      | Some x \<Rightarrow>
          checkpoint_root_is_valid c \<and>
          trust_policy_digest (au_policy x) = cp_policy_digest c \<and>
          (case au_result x of
             Accepted a \<Rightarrow>
               evidence_set_is_valid (au_evidence x) \<and>
               ac_state a = cp_state c \<and> ac_result a = cp_result c \<and>
               ac_result a = cp_tail_result c \<and> ac_result_digest a = cp_tail_digest c \<and>
               evd_id ` set (au_evidence x) = set (tp_ids (au_policy x)) \<and>
               list_all (\<lambda>v. evd_digest v = statement_digest_for c (au_result x) (au_policy x))
                 (au_evidence x)
           | _ \<Rightarrow> False))"

section \<open>Replay\<close>

record replayed =
  rp_state :: state
  rp_digests :: "string list"
  rp_obligations :: "string list"

text \<open>The loop over the entries, with the current state and the digests applied so far.\<close>

fun replay_loop :: "state \<Rightarrow> string list \<Rightarrow> replay_entry list \<Rightarrow> (state \<times> string list) res" where
  "replay_loop s applied [] = Inr (s, applied)"
| "replay_loop s applied (x # xs) =
     (if \<not> is_accepted (re_result x)
      then Inl (ValueError ''ReplayEntry must contain an accepted Result'')
      else case reduce s (re_event x) (re_evidence x) of
        Accepted a \<Rightarrow>
          if canonical_json (result_json (Accepted a)) \<noteq> canonical_json (result_json (re_result x))
          then Inl (ValueError ''ReplayEntry Result does not match recomputed Result'')
          else replay_loop (ac_state a) (applied @ [ac_result_digest a]) xs
      | _ \<Rightarrow> Inl (ValueError ''ReplayEntry inputs do not produce an accepted Result''))"

fun root_state :: "replay_root \<Rightarrow> state" where
  "root_state (GenesisRoot s) = s"
| "root_state (CheckpointRoot c) = cp_state c"

fun check_root :: "replay_root \<Rightarrow> checkpoint_authentication option \<Rightarrow> unit res" where
  "check_root (GenesisRoot s) auth =
     (if auth \<noteq> None
      then Inl (ValueError ''GenesisRoot does not accept checkpoint authentication'')
      else if \<not> genesis_ok s
      then Inl (ValueError ''GenesisRoot must be the canonical empty Task State'')
      else Inr ())"
| "check_root (CheckpointRoot c) auth =
     (if \<not> checkpoint_authentication_is_valid c auth
      then Inl (ValueError ''CheckpointRoot authentication is invalid'')
      else Inr ())"

definition replay ::
  "replay_root \<Rightarrow> replay_entry list \<Rightarrow> checkpoint_authentication option \<Rightarrow> replayed res" where
  "replay root xs auth =
     bind_res (check_root root auth) (\<lambda>_.
     bind_res (replay_loop (root_state root) [] xs) (\<lambda>(s, applied).
       Inr \<lparr>rp_state = s, rp_digests = applied, rp_obligations = []\<rparr>))"

text \<open>The journal record of an accepted step.\<close>

definition recorded :: "entry \<Rightarrow> replay_entry" where
  "recorded x = \<lparr>re_event = fst x, re_evidence = fst (snd x), re_result = Accepted (entry_result x)\<rparr>"

text \<open>A journal entry describes a step: the same inputs and, byte for byte, the same result.\<close>

definition describes :: "replay_entry \<Rightarrow> entry \<Rightarrow> bool" where
  "describes x y \<longleftrightarrow>
     re_event x = fst y \<and> re_evidence x = fst (snd y) \<and> is_accepted (re_result x) \<and>
     canonical_json (result_json (re_result x)) = canonical_json (result_json (Accepted (entry_result y)))"

section \<open>The kernel as an append-only log\<close>

definition kernel_step :: "state \<Rightarrow> event \<times> evidence list \<Rightarrow> state option" where
  "kernel_step s i = (case reduce s (fst i) (snd i) of Accepted a \<Rightarrow> Some (ac_state a) | _ \<Rightarrow> None)"

interpretation kernel_log: append_log kernel_step st_accepted kernel_inv
proof
  fix s t :: state and i
  assume s: "kernel_inv s" and "kernel_step s i = Some t"
  then obtain a where a: "reduce s (fst i) (snd i) = Accepted a" "t = ac_state a"
    by (auto simp: kernel_step_def split: result.splits)
  then show "kernel_inv t" using reduce_inv s by blast
  show "\<exists>x. st_accepted t = st_accepted s @ [x]" using reduce_frame(6) [OF a(1)] a(2) by blast
qed

lemma run_iterate:
  "run s tr t \<Longrightarrow> iterate kernel_step s (map (\<lambda>x. (fst x, fst (snd x))) tr) = Some t"
  by (induction rule: run.induct) (simp_all add: kernel_step_def)

section \<open>Soundness and completeness\<close>

lemma is_accepted_iff: "is_accepted r \<longleftrightarrow> (\<exists>a. r = Accepted a)"
  by (cases r) simp_all

lemma replay_loop_sound:
  assumes "replay_loop s applied xs = Inr (t, ds)"
  shows "\<exists>tr. run s tr t \<and> list_all2 describes xs tr \<and>
     ds = applied @ map (\<lambda>x. ac_result_digest (entry_result x)) tr"
  using assms
proof (induction s applied xs rule: replay_loop.induct)
  case (1 s applied)
  then show ?case by (intro exI [of _ "[]"]) simp
next
  case (2 s applied x xs)
  then obtain a where a: "is_accepted (re_result x)" "reduce s (re_event x) (re_evidence x) = Accepted a"
    "canonical_json (result_json (Accepted a)) = canonical_json (result_json (re_result x))"
    "replay_loop (ac_state a) (applied @ [ac_result_digest a]) xs = Inr (t, ds)"
    by (auto split: if_splits result.splits)
  with 2 obtain tr where "run (ac_state a) tr t" "list_all2 describes xs tr"
    "ds = (applied @ [ac_result_digest a]) @ map (\<lambda>x. ac_result_digest (entry_result x)) tr"
    by (auto split: if_splits)
  moreover have "describes x (re_event x, re_evidence x, a)"
    using a by (simp add: describes_def del: result_json.simps)
  ultimately show ?case
    using a by (intro exI [of _ "(re_event x, re_evidence x, a) # tr"]) (simp add: run_Cons)
qed

lemma replay_loop_complete:
  assumes "run s tr t" and "list_all2 describes xs tr"
  shows "replay_loop s applied xs = Inr (t, applied @ map (\<lambda>x. ac_result_digest (entry_result x)) tr)"
  using assms
proof (induction arbitrary: xs applied rule: run.induct)
  case (run_Nil s)
  then show ?case by simp
next
  case (run_Cons s e ev a tr t)
  then obtain y ys where "xs = y # ys" "describes y (e, ev, a)" "list_all2 describes ys tr"
    by (auto simp: list_all2_Cons2)
  with run_Cons show ?case by (simp add: describes_def del: result_json.simps)
qed

text \<open>
  C20. Replay is exact. Replaying a journal from a genesis root succeeds with some state if and
  only if the root is a canonical genesis state and the reducer, run on the recorded events and
  evidence in order, accepts each of them with byte for byte the recorded result and ends in that
  state; the returned digests are those of the recomputed results in order, and the returned
  obligations are empty.
\<close>

theorem replay_iff_run:
  "replay (GenesisRoot g) xs None = Inr rp \<longleftrightarrow>
     genesis_ok g \<and> rp_obligations rp = [] \<and>
     (\<exists>tr. run g tr (rp_state rp) \<and> list_all2 describes xs tr \<and>
        rp_digests rp = map (\<lambda>x. ac_result_digest (entry_result x)) tr)"
proof
  assume "replay (GenesisRoot g) xs None = Inr rp"
  then obtain t ds where "genesis_ok g" "replay_loop g [] xs = Inr (t, ds)"
    "rp = \<lparr>rp_state = t, rp_digests = ds, rp_obligations = []\<rparr>"
    by (auto simp: replay_def bind_res_Inr_iff split: if_splits)
  with replay_loop_sound show "genesis_ok g \<and> rp_obligations rp = [] \<and>
     (\<exists>tr. run g tr (rp_state rp) \<and> list_all2 describes xs tr \<and>
        rp_digests rp = map (\<lambda>x. ac_result_digest (entry_result x)) tr)" by fastforce
next
  assume "genesis_ok g \<and> rp_obligations rp = [] \<and>
     (\<exists>tr. run g tr (rp_state rp) \<and> list_all2 describes xs tr \<and>
        rp_digests rp = map (\<lambda>x. ac_result_digest (entry_result x)) tr)"
  then show "replay (GenesisRoot g) xs None = Inr rp"
    using replay_loop_complete [of g _ "rp_state rp" xs "[]"]
    by (auto simp: replay_def intro: replayed.equality)
qed

lemma describes_recorded: "list_all2 describes (map recorded tr) tr"
  by (simp add: list_all2_map1 list_all2_same describes_def recorded_def)

section \<open>What the digests bind\<close>

lemma checkpoint_root_json_inj:
  assumes "json_eq (checkpoint_root_json c) (checkpoint_root_json d)"
    and "state_closed (cp_state c)" and "state_closed (cp_state d)"
  shows "c = d"
proof -
  have "json_eq (state_json (cp_state c)) (state_json (cp_state d))"
    by (rule json_eq_field [OF assms(1), of "''state''"]) (simp_all add: checkpoint_root_json_def)
  then have "cp_state c = cp_state d" using assms(2,3) by (rule state_json_inj)
  with assms(1) show ?thesis
    by (intro checkpoint_root.equality) (simp_all add: checkpoint_root_json_def json_eq_fields)
qed

lemma valid_state_closed: "state_is_valid s \<Longrightarrow> state_closed s"
  by (simp add: state_is_valid_def state_closed_def)

lemma authentication_validD:
  assumes "checkpoint_authentication_is_valid c (Some x)"
  obtains a where "au_result x = Accepted a" "ac_state a = cp_state c" "state_closed (cp_state c)"
    "\<And>v. v \<in> set (au_evidence x) \<Longrightarrow> evd_digest v = digest (statement_value c (au_result x) (au_policy x))"
    "ac_result_digest a = cp_tail_digest c" "evd_id ` set (au_evidence x) = set (tp_ids (au_policy x))"
  using assms
  by (auto simp: checkpoint_authentication_is_valid_def checkpoint_root_is_valid_def
      statement_digest_for_def list_all_iff split: result.splits dest: valid_state_closed)

text \<open>
  Checkpoint evidence authenticates one checkpoint. If two checkpoint roots are both accepted
  with authentications that share an evidence record, they are the same root with the same
  checkpoint result, or the two checkpoint statements are a collision of SHA-256: evidence issued
  for one checkpoint cannot be moved to another state, history or policy.
\<close>

theorem checkpoint_evidence_binds_root:
  assumes "checkpoint_authentication_is_valid c (Some x)"
    and "checkpoint_authentication_is_valid d (Some y)"
    and "v \<in> set (au_evidence x)" and "v \<in> set (au_evidence y)"
  shows "(d = c \<and> au_result y = au_result x) \<or>
     sha_collision (statement_value c (au_result x) (au_policy x))
       (statement_value d (au_result y) (au_policy y))"
proof -
  let ?p = "statement_value c (au_result x) (au_policy x)"
  let ?q = "statement_value d (au_result y) (au_policy y)"
  from authentication_validD [OF assms(1)] obtain a where
    a: "au_result x = Accepted a" "ac_state a = cp_state c" "state_closed (cp_state c)"
    "evd_digest v = digest ?p" using assms(3) by metis
  from authentication_validD [OF assms(2)] obtain b where
    b: "au_result y = Accepted b" "ac_state b = cp_state d" "state_closed (cp_state d)"
    "evd_digest v = digest ?q" using assms(4) by metis
  show ?thesis
  proof (cases "sha_collision ?p ?q")
    case False
    then have eq: "json_eq ?p ?q" using digest_eqD a(4) b(4) by simp
    have "json_eq (checkpoint_root_json c) (checkpoint_root_json d)"
      by (rule json_eq_field [OF eq, of "''checkpoint_root''"]) (simp_all add: statement_value_def)
    then have "c = d" using a(3) b(3) by (rule checkpoint_root_json_inj)
    moreover have "json_eq (accepted_json a) (accepted_json b)"
      by (rule json_eq_field [OF eq, of "''checkpoint_result''"])
         (simp_all add: statement_value_def a(1) b(1))
    then have "a = b" using a(2,3) b(2,3) by (intro accepted_json_inj) simp_all
    ultimately show ?thesis using a(1) b(1) by simp
  qed simp
qed

lemma run_entries_valid:
  "run s tr t \<Longrightarrow> x \<in> set tr \<Longrightarrow>
     event_is_valid (fst x) \<and> state_closed (ac_state (entry_result x))"
  by (induction rule: run.induct)
     (auto simp: state_closed_def dest: reduce_frame(7) reduce_Accepted_valid)

lemma recorded_json_inj:
  assumes "json_eq (replay_entry_json (recorded x)) (replay_entry_json (recorded y))"
    and "event_is_valid (fst x) \<and> state_closed (ac_state (entry_result x))"
    and "event_is_valid (fst y) \<and> state_closed (ac_state (entry_result y))"
  shows "fst x = fst y \<and> mset (fst (snd x)) = mset (fst (snd y)) \<and> entry_result x = entry_result y"
proof -
  have "json_eq (event_json (fst x)) (event_json (fst y))"
    by (rule json_eq_field [OF assms(1), of "''event''"])
       (simp_all add: replay_entry_json_def recorded_def)
  moreover have "json_eq (JArr (canonical_evidence (fst (snd x)))) (JArr (canonical_evidence (fst (snd y))))"
    by (rule json_eq_field [OF assms(1), of "''evidence_set''"])
       (simp_all add: replay_entry_json_def recorded_def)
  moreover have "json_eq (accepted_json (entry_result x)) (accepted_json (entry_result y))"
    by (rule json_eq_field [OF assms(1), of "''result''"])
       (simp_all add: replay_entry_json_def recorded_def)
  ultimately show ?thesis
    using assms(2,3)
    by (auto intro: event_json_inj event_valid_closed canonical_evidence_inj accepted_json_inj)
qed

text \<open>
  A prefix digest binds the whole prefix. Two journals of accepted steps have the same prefix
  digest only if they record the same events in the same order, with the same evidence sets and
  the same results, or their texts are a collision of SHA-256.
\<close>

theorem prefix_digest_binds_history:
  assumes "run g tr t" and "run h tr' u"
    and "replay_prefix_digest (map recorded tr) = Inr d"
    and "replay_prefix_digest (map recorded tr') = Inr d"
  shows "list_all2 (\<lambda>x y. fst x = fst y \<and> mset (fst (snd x)) = mset (fst (snd y)) \<and>
        entry_result x = entry_result y) tr tr' \<or>
     sha_collision (prefix_value (map recorded tr)) (prefix_value (map recorded tr'))"
proof (cases "sha_collision (prefix_value (map recorded tr)) (prefix_value (map recorded tr'))")
  case False
  have "digest (prefix_value (map recorded tr)) = digest (prefix_value (map recorded tr'))"
    using assms(3,4) by (auto simp: replay_prefix_digest_def split: if_splits)
  then have "json_eq (prefix_value (map recorded tr)) (prefix_value (map recorded tr'))"
    using False digest_eqD by blast
  then have "json_eq (JArr (map replay_entry_json (map recorded tr)))
      (JArr (map replay_entry_json (map recorded tr')))"
    by (rule json_eq_field [of _ _ "''entries''"]) (simp_all add: prefix_value_def)
  then have "list_all2 (\<lambda>x y. json_eq (replay_entry_json (recorded x)) (replay_entry_json (recorded y))) tr tr'"
    by (simp add: json_eq_JArr_iff list_all2_map1 list_all2_map2)
  then show ?thesis
    by (intro disjI1, rule list.rel_mono_strong)
       (use run_entries_valid [OF assms(1)] run_entries_valid [OF assms(2)] recorded_json_inj in blast)
qed simp

text \<open>
  The specification prints the digest of the empty prefix; the model's definition is the same
  value as its prefix digest of no entries.
\<close>

lemma empty_prefix_digest: "replay_prefix_digest [] = Inr EMPTY_REPLAY_PREFIX_DIGEST"
  by (simp add: replay_prefix_digest_def EMPTY_REPLAY_PREFIX_DIGEST_def prefix_value_def)

end
