(* ===== verification/Kernel_Light.thy ===== *)
theory Kernel_Light
  imports Kernel_Progress Kernel_Replay
begin

text \<open>
  The kernel without hashing. \<open>light_step\<close> makes the decisions of the reducer and the same state
  changes, but writes a fixed digest into the history where the reducer computes SHA-256. The
  reducer refines it: forgetting the digests of its states gives exactly the light steps. So the
  digests never influence what the kernel decides, and whole runs can be evaluated.
\<close>

definition no_digest :: string where
  "no_digest = ''sha256:'' @ replicate 64 (CHR ''0'')"

definition forget_entry :: "accepted_event \<Rightarrow> accepted_event" where
  "forget_entry x = x\<lparr>ae_input_digest := no_digest, ae_result_digest := no_digest\<rparr>"

definition forget :: "state \<Rightarrow> state" where
  "forget s = s\<lparr>st_accepted := map forget_entry (st_accepted s)\<rparr>"

definition light_step :: "state \<Rightarrow> event \<times> evidence list \<Rightarrow> state option" where
  "light_step s i =
     (if \<not> accepts s (fst i) (snd i) then None
      else case (st_status s, ev_kind (fst i)) of
        (Closed status, Closed k) \<Rightarrow>
          (case dispatch s status k (fst i) of
             None \<Rightarrow> None
           | Some sp \<Rightarrow>
               (case sp_target sp of
                  None \<Rightarrow> None
                | Some target \<Rightarrow> Some (next_state s status target sp (st_accepted s @
                    [\<lparr>ae_event = ev_id (fst i), ae_result = result_identity (fst i),
                      ae_input_digest = no_digest, ae_result_digest = no_digest\<rparr>]))))
      | _ \<Rightarrow> None)"

section \<open>The reducer refines the light kernel\<close>

lemma forget_fields [simp]:
  "st_protocol_version (forget s) = st_protocol_version s"
  "st_installation (forget s) = st_installation s"
  "st_leader_epoch (forget s) = st_leader_epoch s"
  "st_task (forget s) = st_task s"
  "st_revision (forget s) = st_revision s"
  "st_status (forget s) = st_status s"
  "st_accepted (forget s) = map forget_entry (st_accepted s)"
  "st_items (forget s) = st_items s"
  "st_suspension (forget s) = st_suspension s"
  "st_control (forget s) = st_control s"
  by (simp_all add: forget_def)

lemma forget_entry_fields [simp]:
  "ae_event (forget_entry x) = ae_event x"
  "ae_result (forget_entry x) = ae_result x"
  "ae_input_digest (forget_entry x) = no_digest"
  "ae_result_digest (forget_entry x) = no_digest"
  by (simp_all add: forget_entry_def)

lemma is_digest_no_digest [simp]: "is_digest no_digest"
  by code_simp

lemma forget_valid:
  assumes "state_is_valid s"
  shows "state_is_valid (forget s)"
proof -
  have "list_all accepted_event_is_valid (map forget_entry (st_accepted s))"
    using assms by (auto simp: state_is_valid_def list_all_iff accepted_event_is_valid_def)
  moreover have "opt_all (\<lambda>u. suspension_is_valid u (forget s)) (st_suspension s)"
    using assms by (simp add: state_is_valid_def suspension_is_valid_def)
  moreover have "ae_event \<circ> forget_entry = ae_event" "ae_result \<circ> forget_entry = ae_result"
    by (simp_all add: fun_eq_iff)
  ultimately show ?thesis
    using assms by (simp add: state_is_valid_def)
qed

lemma current_control_forget [simp]: "current_control (forget s) = current_control s"
  by (simp add: current_control_def)

lemma initial_step_forget [simp]: "initial_step (forget s) status k = initial_step s status k"
  by (simp add: initial_step_def)

lemma item_step_forget [simp]: "item_step (forget s) = item_step s"
  by (intro ext) (simp add: item_step_def)

lemma item_index_forget [simp]: "item_index (forget s) = item_index s"
  by (intro ext) (simp add: item_index_def)

lemma eligible_forget [simp]: "eligible_work_item (forget s) = eligible_work_item s"
  by (intro ext) (simp add: eligible_work_item_def)

lemma dispatch_forget [simp]: "dispatch (forget s) status k e = dispatch s status k e"
  unfolding dispatch_def do_interrupt_requested_def do_interrupt_resumed_def do_redirect_def
    do_task_cancelled_def do_suspension_started_def do_wake_accepted_def do_work_item_eligible_def
    do_attempt_created_def do_attempt_fenced_def do_attempt_progress_def do_item_transition_def
    forget_fields current_control_forget initial_step_forget item_step_forget item_index_forget
    eligible_forget ..

lemma accepts_forget:
  assumes "state_is_valid s"
  shows "accepts (forget s) e ev = accepts s e ev"
  using assms forget_valid [OF assms]
  by (simp add: accepts_def inputs_ok_def attempt_event_is_stale_def list_all_iff
      split: open_enum.splits)

lemma next_state_forget:
  "forget (next_state s status target sp h) = next_state (forget s) status target sp (map forget_entry h)"
  by (simp add: forget_def next_state_def)

lemma light_step_simulates:
  assumes "kernel_inv s"
  shows "map_option forget (kernel_step s i) = light_step (forget s) i"
proof (cases "accepts s (fst i) (snd i)")
  case False
  then have "kernel_step s i = None"
    by (auto simp: kernel_step_def accepts_iff split: result.splits)
  then show ?thesis
    using False accepts_forget assms by (simp add: light_step_def kernel_inv_def)
next
  case True
  then obtain a where a: "reduce s (fst i) (snd i) = Accepted a" by (rule accepts_obtains)
  from a obtain status k sp target where
    t: "takes s (fst i) (snd i) status k sp target"
    and f: "finish s status k (fst i) (input_digest s (fst i) (snd i)) sp = Accepted a"
    by (rule reduce_Accepted_takes)
  have "forget (ac_state a) = next_state (forget s) status target sp (map forget_entry (st_accepted s) @
      [\<lparr>ae_event = ev_id (fst i), ae_result = result_identity (fst i), ae_input_digest = no_digest,
        ae_result_digest = no_digest\<rparr>])"
    using finish_takes(1,6) [OF t f] by (simp add: next_state_forget forget_entry_def)
  then show ?thesis
    using t True a accepts_forget assms
    by (simp add: light_step_def kernel_step_def kernel_inv_def takes_def)
qed

text \<open>
  Hashing decides nothing. Forgetting the digests in the history, any sequence of steps of
  the reducer is exactly the same sequence of steps of the kernel without hashing: the same
  inputs are accepted, with the same states.
\<close>

theorem reduce_refines_light_step:
  assumes "kernel_inv s"
  shows "map_option forget (iterate kernel_step s inputs) = iterate light_step (forget s) inputs"
  using assms
proof (induction inputs arbitrary: s)
  case Nil
  then show ?case by simp
next
  case (Cons i inputs)
  show ?case
  proof (cases "kernel_step s i")
    case None
    then show ?thesis using light_step_simulates [OF Cons.prems, of i] by simp
  next
    case (Some t)
    then show ?thesis
      using light_step_simulates [OF Cons.prems, of i, symmetric] Cons.IH [of t]
        kernel_log.step_inv [OF Cons.prems Some] by simp
  qed
qed

section \<open>Evaluating runs\<close>

lemma light_run:
  assumes "kernel_inv s" and "iterate light_step (forget s) inputs = Some u"
  shows "\<exists>tr t. run s tr t \<and> map (\<lambda>x. (fst x, fst (snd x))) tr = inputs \<and> forget t = u \<and> kernel_inv t"
  using assms
proof (induction inputs arbitrary: s)
  case Nil
  then show ?case by (intro exI [of _ "[]"] exI [of _ s]) simp
next
  case (Cons i inputs)
  then obtain v where v: "light_step (forget s) i = Some v" "iterate light_step v inputs = Some u"
    by (auto split: option.splits)
  then obtain a where a: "reduce s (fst i) (snd i) = Accepted a" "forget (ac_state a) = v"
    using light_step_simulates [OF Cons.prems(1), of i]
    by (auto simp: kernel_step_def split: result.splits)
  then obtain tr t where "run (ac_state a) tr t" "map (\<lambda>x. (fst x, fst (snd x))) tr = inputs"
    "forget t = u" "kernel_inv t"
    using Cons.IH [of "ac_state a"] v reduce_inv [OF a(1) Cons.prems(1)] by auto
  then show ?case
    using run_Cons [OF a(1)] by (intro exI [of _ "(fst i, snd i, a) # tr"] exI [of _ t]) simp
qed

end
