(* ===== verification/Kernel_Examples.thy ===== *)
theory Kernel_Examples
  imports Kernel_Light
begin

text \<open>
  A small task, run through the kernel: two required work items, the second depending on the
  first, with a complete script of events from publication to completion. The runs are evaluated
  in the kernel without hashing and transferred to the reducer by the refinement. The witnesses of
  the kernel's properties are taken from these runs.
\<close>

section \<open>The task and its script\<close>

definition item_A :: identity where "item_A = Identity IK_WORK_ITEM ''A''"
definition item_B :: identity where "item_B = Identity IK_WORK_ITEM ''B''"

definition demo_item :: "identity \<Rightarrow> dependency list \<Rightarrow> work_item" where
  "demo_item i deps = \<lparr>wi_task = Identity IK_TASK ''t'', wi_id = i, wi_requirement = RQ_REQUIRED,
     wi_status = WS_PENDING, wi_deps = deps, wi_attempt = None\<rparr>"

definition demo_genesis :: state where
  "demo_genesis = \<lparr>st_protocol_version = PROTOCOL_VERSION,
     st_installation = Identity IK_INSTALLATION ''i'', st_leader_epoch = 0,
     st_task = Identity IK_TASK ''t'', st_revision = 0, st_status = Closed TS_PUBLISHED,
     st_accepted = [],
     st_items = [demo_item item_A [],
       demo_item item_B [\<lparr>dep_item = item_A, dep_requirement = RQ_REQUIRED\<rparr>]],
     st_suspension = None, st_control = None\<rparr>"

text \<open>The event at position \<open>n\<close> of a script.\<close>

definition demo_event :: "nat \<Rightarrow> event_kind \<Rightarrow> event" where
  "demo_event n k = (plain_event demo_genesis k (replicate (Suc n) (CHR ''e'')))\<lparr>
     ev_expected_revision := int n\<rparr>"

definition demo_attempt :: "nat \<Rightarrow> event_kind \<Rightarrow> event" where
  "demo_attempt n k = (demo_event n k)\<lparr>ev_item := Some item_A,
     ev_attempt := Some (Identity IK_ATTEMPT ''a''), ev_dispatch := Some (Identity IK_DISPATCH ''d''),
     ev_generation := Some 0\<rparr>"

definition demo_wait :: "nat \<Rightarrow> event_kind \<Rightarrow> event" where
  "demo_wait n k = (demo_event n k)\<lparr>ev_suspension := Some (Identity IK_SUSPENSION ''s''),
     ev_epoch := Some 0, ev_policy := Some (Identity IK_WAIT_POLICY ''p''),
     ev_policy_digest := Some no_digest, ev_required := [item_A]\<rparr>"

definition demo_control :: "nat \<Rightarrow> event_kind \<Rightarrow> event" where
  "demo_control n k = (demo_event n k)\<lparr>ev_principal := Some (Identity IK_PRINCIPAL ''o''),
     ev_authority := Some (Identity IK_EVIDENCE ''w''),
     ev_control_reason := Some (Closed CR_USER_REQUESTED)\<rparr>"

definition demo_evidence :: "evidence list" where
  "demo_evidence = [\<lparr>evd_id = Identity IK_EVIDENCE ''w'', evd_digest = no_digest\<rparr>]"

definition demo_interrupt :: "nat \<Rightarrow> event_kind \<Rightarrow> event" where
  "demo_interrupt n k = (demo_control n k)\<lparr>ev_interrupt := Some (Identity IK_INTERRUPT ''x''),
     ev_version := Some 0\<rparr>"

definition demo_redirect :: "nat \<Rightarrow> event" where
  "demo_redirect n = (demo_control n EK_REDIRECT_AUTHORIZED)\<lparr>
     ev_redirect := Some (Identity IK_REDIRECT ''r''), ev_version := Some 0,
     ev_next_version := Some 1, ev_superseded := [item_A]\<rparr>"

definition demo_wake :: "nat \<Rightarrow> event" where
  "demo_wake n = (demo_wait n EK_WAKE_ACCEPTED)\<lparr>ev_wake := Some (Identity IK_WAKE ''k''),
     ev_wake_reason := Some (Closed WR_DEPENDENCY_READY)\<rparr>"

definition demo_script :: "(event \<times> evidence list) list" where
  "demo_script = map (\<lambda>e. (e, []))
     [demo_event 0 EK_ROUTING_VALIDATION_STARTED, demo_event 1 EK_ROUTING_VALIDATION_PASSED,
      demo_event 2 EK_DISPATCH_ACCEPTED, (demo_event 3 EK_WORK_ITEM_ELIGIBLE)\<lparr>ev_item := Some item_A\<rparr>,
      demo_attempt 4 EK_ATTEMPT_CREATED, demo_attempt 5 EK_ATTEMPT_SUBMITTED,
      demo_attempt 6 EK_ATTEMPT_RUNNING, demo_wait 7 EK_SUSPENSION_STARTED,
      demo_attempt 8 EK_ATTEMPT_COMPLETED, demo_wake 9,
      (demo_event 10 EK_WORK_ITEM_ELIGIBLE)\<lparr>ev_item := Some item_B\<rparr>,
      demo_event 11 EK_WORK_COMPLETED, demo_event 12 EK_VERIFICATION_PASSED,
      demo_event 13 EK_REVIEW_PASSED, demo_event 14 EK_RECORDING_COMPLETED]"

section \<open>Runs of the reducer\<close>

definition demo_light :: "(event \<times> evidence list) list \<Rightarrow> state option" where
  "demo_light inputs = iterate light_step (forget demo_genesis) inputs"

lemma demo_genesis_ok: "genesis_ok demo_genesis"
  by code_simp

lemma demo_inv: "kernel_inv demo_genesis"
  by (rule genesis_inv [OF demo_genesis_ok])

text \<open>What the light kernel computes on a script holds of a run of the reducer on it.\<close>

lemma demo_run:
  assumes "case demo_light inputs of None \<Rightarrow> False | Some u \<Rightarrow> P u"
  obtains tr s where "run demo_genesis tr s" "map (\<lambda>x. (fst x, fst (snd x))) tr = inputs"
    "kernel_inv s" "P (forget s)"
proof -
  obtain u where u: "demo_light inputs = Some u" "P u" using assms by (auto split: option.splits)
  then show ?thesis
    using light_run [OF demo_inv u(1) [unfolded demo_light_def]] that by blast
qed

lemma demo_step:
  assumes "case demo_light inputs of None \<Rightarrow> False | Some u \<Rightarrow> accepts u e ev \<and> P u"
  obtains tr s a where "run demo_genesis tr s" "kernel_inv s" "P (forget s)"
    "reduce s e ev = Accepted a"
proof -
  obtain tr s where s: "run demo_genesis tr s" "kernel_inv s" "accepts (forget s) e ev \<and> P (forget s)"
    by (rule demo_run [OF assms])
  then have "accepts s e ev" by (simp add: accepts_forget kernel_inv_def)
  with s show ?thesis by (metis accepts_obtains that)
qed

lemma run_inputs_Cons:
  assumes "run s tr t" and "map (\<lambda>x. (fst x, fst (snd x))) tr = (e, ev) # inputs"
  obtains a tr' where "tr = (e, ev, a) # tr'" "reduce s e ev = Accepted a" "run (ac_state a) tr' t"
    "map (\<lambda>x. (fst x, fst (snd x))) tr' = inputs"
  using assms by (cases tr) (auto simp: run_Cons_iff)

lemma demo_done: "case demo_light demo_script of None \<Rightarrow> False | Some u \<Rightarrow> st_status u = Closed TS_DONE"
  by code_simp

end
