(* ===== verification/Kernel_Witnesses.thy ===== *)
theory Kernel_Witnesses
  imports Kernel_Examples
begin

text \<open>
  The kernel's properties applied to the runs of the demonstration task: for each property with
  hypotheses, a concrete situation in which they hold.
\<close>

section \<open>What the light kernel computes\<close>

definition demo_cancel :: "nat \<Rightarrow> event" where
  "demo_cancel n = (demo_control n EK_TASK_CANCELLED)\<lparr>ev_scope := Some (Closed SC_TASK)\<rparr>"

definition demo_eligible :: "nat \<Rightarrow> identity \<Rightarrow> event" where
  "demo_eligible n i = (demo_event n EK_WORK_ITEM_ELIGIBLE)\<lparr>ev_item := Some i\<rparr>"

lemma demo_accepts:
  "accepts demo_genesis (demo_event 0 EK_ROUTING_VALIDATION_STARTED) []"
  "accepts demo_genesis (demo_eligible 0 item_A) []"
  "accepts demo_genesis (demo_interrupt 0 EK_INTERRUPT_REQUESTED) demo_evidence"
  "accepts demo_genesis (demo_redirect 0) demo_evidence"
  "accepts demo_genesis (demo_cancel 0) demo_evidence"
  by code_simp+

lemma demo_two:
  "case demo_light (take 2 demo_script) of None \<Rightarrow> False | Some u \<Rightarrow> st_status u = Closed TS_DISPATCHING"
  by code_simp

lemma demo_failed:
  "case demo_light [(demo_event 0 EK_TASK_FAILED, []), (demo_eligible 1 item_A, [])] of
     None \<Rightarrow> False | Some u \<Rightarrow> st_status u = Closed TS_FAILED"
  by code_simp

lemma demo_interrupted:
  "case demo_light [(demo_interrupt 0 EK_INTERRUPT_REQUESTED, demo_evidence)] of
     None \<Rightarrow> False
   | Some u \<Rightarrow> accepts u (demo_interrupt 1 EK_INTERRUPT_RESUMED) demo_evidence \<and>
       st_control u = Some \<lparr>ct_version = 0, ct_status = CS_INTERRUPTED,
         ct_interrupt = Some (Identity IK_INTERRUPT ''x'')\<rparr>"
  by code_simp

definition demo_fenced :: "(event \<times> evidence list) list" where
  "demo_fenced = [(demo_eligible 0 item_A, []), (demo_attempt 1 EK_ATTEMPT_CREATED, []),
     (demo_attempt 2 EK_ATTEMPT_FENCED, [])]"

text \<open>The attempt of the first work item, if the state has one.\<close>

definition first_attempt :: "state \<Rightarrow> attempt option" where
  "first_attempt s = (case st_items s of [] \<Rightarrow> None | w # _ \<Rightarrow> wi_attempt w)"

lemma demo_fenced_attempt:
  "case demo_light demo_fenced of
     None \<Rightarrow> False
   | Some u \<Rightarrow> map wi_id (st_items u) = [item_A, item_B] \<and>
       first_attempt u = Some \<lparr>at_task = Identity IK_TASK ''t'', at_item = item_A,
         at_id = Identity IK_ATTEMPT ''a'', at_dispatch = Identity IK_DISPATCH ''d'',
         at_generation = 0, at_status = AS_FENCED\<rparr>"
  by code_simp

lemma demo_submitted_cancel:
  "case demo_light [(demo_eligible 0 item_A, []), (demo_attempt 1 EK_ATTEMPT_CREATED, []),
      (demo_attempt 2 EK_ATTEMPT_SUBMITTED, [])] of
     None \<Rightarrow> False | Some u \<Rightarrow> accepts u (demo_cancel 3) demo_evidence \<and> True"
  by code_simp

lemma demo_waiting:
  "case demo_light (take 8 demo_script) of
     None \<Rightarrow> False
   | Some u \<Rightarrow> accepts u (demo_attempt 8 EK_ATTEMPT_COMPLETED) [] \<and>
       (case st_suspension u of None \<Rightarrow> False | Some v \<Rightarrow> su_status v = SS_WAITING)"
  by code_simp

lemma demo_resumed:
  "case demo_light (take 10 demo_script) of
     None \<Rightarrow> False
   | Some u \<Rightarrow> accepts u (demo_eligible 10 item_B) [] \<and>
       (case st_suspension u of
          None \<Rightarrow> False | Some v \<Rightarrow> su_status v = SS_RESUMED \<and> item_A \<in> set (su_required v))"
  by code_simp

section \<open>Witnesses: runs and retries\<close>

theorem reachable_states_valid_witness:
  "\<exists>tr t. run demo_genesis tr t \<and> length tr = 2 \<and> state_is_valid t \<and> st_revision t = 2 \<and>
     distinct (map (\<lambda>x. ev_id (fst x)) tr)"
proof -
  obtain tr t where r: "run demo_genesis tr t" "map (\<lambda>x. (fst x, fst (snd x))) tr = take 2 demo_script"
    by (rule demo_run [OF demo_two])
  have "length tr = 2" using arg_cong [OF r(2), of length] by (simp add: demo_script_def)
  with reachable_states_valid [OF demo_genesis_ok r(1)] r(1) show ?thesis by auto
qed

theorem evidence_order_irrelevant_witness:
  "reduce demo_genesis (demo_cancel 0)
     [\<lparr>evd_id = Identity IK_EVIDENCE ''w'', evd_digest = no_digest\<rparr>,
      \<lparr>evd_id = Identity IK_EVIDENCE ''v'', evd_digest = no_digest\<rparr>] =
   reduce demo_genesis (demo_cancel 0)
     [\<lparr>evd_id = Identity IK_EVIDENCE ''v'', evd_digest = no_digest\<rparr>,
      \<lparr>evd_id = Identity IK_EVIDENCE ''w'', evd_digest = no_digest\<rparr>]"
  by (rule evidence_order_irrelevant) simp

lemma demo_two_run:
  obtains a tr t where "reduce demo_genesis (demo_event 0 EK_ROUTING_VALIDATION_STARTED) [] = Accepted a"
    "run (ac_state a) tr t" "length tr = 1"
proof -
  obtain tr t where r: "run demo_genesis tr t" "map (\<lambda>x. (fst x, fst (snd x))) tr = take 2 demo_script"
    by (rule demo_run [OF demo_two])
  have s: "take 2 demo_script = (demo_event 0 EK_ROUTING_VALIDATION_STARTED, []) #
      [(demo_event 1 EK_ROUTING_VALIDATION_PASSED, [])]" by (simp add: demo_script_def)
  obtain a tr' where a: "reduce demo_genesis (demo_event 0 EK_ROUTING_VALIDATION_STARTED) [] = Accepted a"
    "run (ac_state a) tr' t" "map (\<lambda>x. (fst x, fst (snd x))) tr' =
       [(demo_event 1 EK_ROUTING_VALIDATION_PASSED, [])]"
    by (rule run_inputs_Cons [OF r [unfolded s]])
  have "length tr' = 1" using arg_cong [OF a(3), of length] by simp
  with a(1,2) show ?thesis by (rule that)
qed

definition cancel_attempt :: event where
  "cancel_attempt = (demo_control 3 EK_ATTEMPT_CANCELLED)\<lparr>ev_item := Some item_A,
     ev_attempt := Some (Identity IK_ATTEMPT ''a''), ev_dispatch := Some (Identity IK_DISPATCH ''d''),
     ev_generation := Some 0, ev_scope := Some (Closed SC_ATTEMPT)\<rparr>"

lemma demo_withdrawn:
  "case demo_light [(demo_eligible 0 item_A, []), (demo_attempt 1 EK_ATTEMPT_CREATED, []),
      (demo_attempt 2 EK_ATTEMPT_SUBMITTED, []), (cancel_attempt, demo_evidence)] of
     None \<Rightarrow> False | Some u \<Rightarrow> withdrawn u EK_ATTEMPT_CANCELLED cancel_attempt"
  by code_simp

lemma withdrawn_forget [simp]: "withdrawn (forget s) k e = withdrawn s k e"
  by (simp add: withdrawn_def)

text \<open>A status event after one more event, and the cancellation of an attempt right after it.\<close>

theorem retry_of_accepted_event_witness:
  "(\<exists>a tr t. reduce demo_genesis (demo_event 0 EK_ROUTING_VALIDATION_STARTED) [] = Accepted a \<and>
      run (ac_state a) tr t \<and> length tr = 1 \<and>
      reduce t (demo_event 0 EK_ROUTING_VALIDATION_STARTED) [] =
        NoOp \<lparr>no_state = t, no_input_digest = ac_input_digest a, no_prior_result = ac_result a,
              no_prior_digest = ac_result_digest a\<rparr>) \<and>
   (\<exists>s a. reduce s cancel_attempt demo_evidence = Accepted a \<and> withdrawn (ac_state a) EK_ATTEMPT_CANCELLED cancel_attempt \<and>
      reduce (ac_state a) cancel_attempt demo_evidence =
        NoOp \<lparr>no_state = ac_state a, no_input_digest = ac_input_digest a, no_prior_result = ac_result a,
              no_prior_digest = ac_result_digest a\<rparr>)"
proof
  obtain a tr t where r: "reduce demo_genesis (demo_event 0 EK_ROUTING_VALIDATION_STARTED) [] = Accepted a"
    "run (ac_state a) tr t" "length tr = 1" by (rule demo_two_run)
  have k: "ev_kind (demo_event 0 EK_ROUTING_VALIDATION_STARTED) = Closed EK_ROUTING_VALIDATION_STARTED"
    by (simp add: demo_event_def plain_event_def)
  show "\<exists>a tr t. reduce demo_genesis (demo_event 0 EK_ROUTING_VALIDATION_STARTED) [] = Accepted a \<and>
      run (ac_state a) tr t \<and> length tr = 1 \<and>
      reduce t (demo_event 0 EK_ROUTING_VALIDATION_STARTED) [] =
        NoOp \<lparr>no_state = t, no_input_digest = ac_input_digest a, no_prior_result = ac_result a,
              no_prior_digest = ac_result_digest a\<rparr>"
    using retry_of_accepted_event [OF demo_genesis_ok run_Nil r(1,2) refl k] r
    by (auto simp: attempt_event_is_stale_def withdrawn_def ATTEMPT_SCOPED_EVENTS_def)
next
  obtain tr t where t: "run demo_genesis tr t" "map (\<lambda>x. (fst x, fst (snd x))) tr =
      [(demo_eligible 0 item_A, []), (demo_attempt 1 EK_ATTEMPT_CREATED, []),
       (demo_attempt 2 EK_ATTEMPT_SUBMITTED, [])] @ [(cancel_attempt, demo_evidence)]"
    "withdrawn t EK_ATTEMPT_CANCELLED cancel_attempt"
    by (rule demo_run [OF demo_withdrawn]) simp
  from t(2) obtain tr' a where "tr = tr' @ [(cancel_attempt, demo_evidence, a)]"
    unfolding map_eq_append_conv by auto
  with t(1) obtain s where s: "run demo_genesis tr' s" "reduce s cancel_attempt demo_evidence = Accepted a" "t = ac_state a"
    by (auto simp: run_snoc)
  have k: "ev_kind cancel_attempt = Closed EK_ATTEMPT_CANCELLED"
    by (simp add: cancel_attempt_def demo_control_def demo_event_def plain_event_def)
  from retry_of_accepted_event [OF demo_genesis_ok s(1,2) run_Nil refl k] s(2,3) t(3)
  show "\<exists>s a. reduce s cancel_attempt demo_evidence = Accepted a \<and> withdrawn (ac_state a) EK_ATTEMPT_CANCELLED cancel_attempt \<and>
      reduce (ac_state a) cancel_attempt demo_evidence =
        NoOp \<lparr>no_state = ac_state a, no_input_digest = ac_input_digest a, no_prior_result = ac_result a,
              no_prior_digest = ac_result_digest a\<rparr>" by blast
qed

theorem event_identity_used_once_witness:
  "\<exists>a tr t. reduce demo_genesis (demo_event 0 EK_ROUTING_VALIDATION_STARTED) [] = Accepted a \<and>
     run (ac_state a) tr t \<and> length tr = 1 \<and> \<not> is_accepted (reduce t (demo_event 0 EK_TASK_FAILED) [])"
proof -
  obtain a tr t where r: "reduce demo_genesis (demo_event 0 EK_ROUTING_VALIDATION_STARTED) [] = Accepted a"
    "run (ac_state a) tr t" "length tr = 1" by (rule demo_two_run)
  have "ev_id (demo_event 0 EK_TASK_FAILED) = ev_id (demo_event 0 EK_ROUTING_VALIDATION_STARTED)"
    by (simp add: demo_event_def plain_event_def)
  from event_identity_used_once [OF demo_inv r(1,2) this, of "[]"]
  have "\<not> is_accepted (reduce t (demo_event 0 EK_TASK_FAILED) [])"
    by (cases "reduce t (demo_event 0 EK_TASK_FAILED) []") simp_all
  with r show ?thesis by blast
qed

section \<open>Witnesses: task status\<close>

theorem terminal_status_absorbing_witness:
  "\<exists>s tr t. run s tr t \<and> length tr = 1 \<and> st_status s = Closed TS_FAILED \<and>
     st_status t = Closed TS_FAILED"
proof -
  let ?e = "demo_event 0 EK_TASK_FAILED"
  obtain tr t where r: "run demo_genesis tr t"
    "map (\<lambda>x. (fst x, fst (snd x))) tr = [(?e, []), (demo_eligible 1 item_A, [])]"
    by (rule demo_run [OF demo_failed])
  obtain a tr' where a: "reduce demo_genesis ?e [] = Accepted a" "run (ac_state a) tr' t"
    "map (\<lambda>x. (fst x, fst (snd x))) tr' = [(demo_eligible 1 item_A, [])]"
    by (rule run_inputs_Cons [OF r])
  have l: "length tr' = 1" using arg_cong [OF a(3), of length] by simp
  have s: "st_status (ac_state a) = Closed TS_FAILED"
    using a(1) by (rule reduce_status)
      (auto simp: demo_event_def plain_event_def task_neutral_def task_edge_iff)
  have "TS_FAILED \<in> set terminal_task" by (simp add: terminal_task_def)
  with terminal_status_absorbing [OF a(2) s] s a(2) l show ?thesis by blast
qed

theorem done_requires_verification_and_review_witness:
  "\<exists>tr t. run demo_genesis tr t \<and> st_status t = Closed TS_DONE \<and>
     (\<exists>x\<in>set tr. entry_kind x = Closed EK_VERIFICATION_PASSED)"
proof -
  obtain tr t where r: "run demo_genesis tr t" "st_status (forget t) = Closed TS_DONE"
    by (rule demo_run [OF demo_done])
  then have d: "st_status t = Closed TS_DONE" by simp
  from done_requires_verification_and_review [OF demo_genesis_ok r(1) d]
  have "\<exists>x\<in>set tr. entry_kind x = Closed EK_VERIFICATION_PASSED"
    by (elim exE conjE) (simp add: bex_Un)
  with r(1) d show ?thesis by blast
qed

section \<open>Witnesses: work items and attempts\<close>

theorem items_follow_graphs_witness:
  "\<exists>a. reduce demo_genesis (demo_eligible 0 item_A) [] = Accepted a \<and>
     list_all2 (\<lambda>w w'. wi_id w' = wi_id w \<and>
       (wi_status w' = wi_status w \<or> item_edge EK_WORK_ITEM_ELIGIBLE (wi_status w) (wi_status w')))
       (st_items demo_genesis) (st_items (ac_state a))"
proof -
  obtain a where a: "reduce demo_genesis (demo_eligible 0 item_A) [] = Accepted a"
    by (rule accepts_obtains [OF demo_accepts(2)])
  have "ev_kind (demo_eligible 0 item_A) = Closed EK_WORK_ITEM_ELIGIBLE"
    by (simp add: demo_eligible_def demo_event_def plain_event_def)
  from items_follow_graphs [OF a this] a show ?thesis by (auto elim!: list_all2_mono)
qed

theorem attempts_only_advance_witness:
  "\<exists>tr t. run demo_genesis tr t \<and> length tr = 3 \<and>
     item_after (st_items demo_genesis ! 0) (st_items t ! 0)"
proof -
  obtain tr t where r: "run demo_genesis tr t" "map (\<lambda>x. (fst x, fst (snd x))) tr = demo_fenced"
    by (rule demo_run [OF demo_fenced_attempt])
  have l: "length tr = 3" using arg_cong [OF r(2), of length] by (simp add: demo_fenced_def)
  have "0 < length (st_items demo_genesis)" by (simp add: demo_genesis_def)
  from attempts_only_advance [OF r(1) this] r(1) l show ?thesis by blast
qed

theorem late_attempt_events_refused_witness:
  "\<exists>tr t. run demo_genesis tr t \<and> length tr = 3 \<and>
     (\<forall>b. reduce t (demo_attempt 3 EK_ATTEMPT_SUBMITTED) [] \<noteq> Accepted b)"
proof -
  let ?e = "demo_attempt 3 EK_ATTEMPT_SUBMITTED"
  obtain tr t where r: "run demo_genesis tr t" "map (\<lambda>x. (fst x, fst (snd x))) tr = demo_fenced"
    "map wi_id (st_items (forget t)) = [item_A, item_B] \<and>
       first_attempt (forget t) = Some \<lparr>at_task = Identity IK_TASK ''t'', at_item = item_A,
         at_id = Identity IK_ATTEMPT ''a'', at_dispatch = Identity IK_DISPATCH ''d'',
         at_generation = 0, at_status = AS_FENCED\<rparr>"
    by (rule demo_run [OF demo_fenced_attempt])
  have l: "length tr = 3" using arg_cong [OF r(2), of length] by (simp add: demo_fenced_def)
  from r(3) obtain w ws a where w: "st_items t = w # ws" "wi_id w = item_A" "wi_attempt w = Some a"
    "at_status a = AS_FENCED" "attempt_tuple a = event_tuple ?e"
    by (auto simp: first_attempt_def map_eq_Cons_conv attempt_tuple_def event_tuple_def
        demo_attempt_def)
  have e: "ev_item ?e = Some item_A" "ev_kind ?e = Closed EK_ATTEMPT_SUBMITTED"
    by (simp_all add: demo_attempt_def demo_event_def plain_event_def)
  have "reduce t ?e [] \<noteq> Accepted b" for b
    by (rule late_attempt_events_refused [OF run_Nil, where i = 0 and a = a and
         k = EK_ATTEMPT_SUBMITTED])
       (use w e in \<open>simp_all add: active_attempt_def ATTEMPT_SCOPED_EVENTS_def\<close>)
  with r(1) l show ?thesis by blast
qed

theorem obligations_exact_witness:
  "\<exists>s a. reduce s (demo_cancel 3) demo_evidence = Accepted a \<and>
     ac_obligations a = concat (map2 owed (st_items s) (st_items (ac_state a)))"
proof -
  obtain tr s a where "reduce s (demo_cancel 3) demo_evidence = Accepted a"
    by (rule demo_step [OF demo_submitted_cancel])
  with obligations_exact [OF this] show ?thesis by blast
qed

theorem eligible_requires_dependencies_witness:
  "\<exists>s a. reduce s (demo_eligible 10 item_B) [] = Accepted a \<and>
     (\<exists>w\<in>set (st_items s). wi_id w = item_B \<and> wi_status w = WS_PENDING \<and>
        has_item_status (ac_state a) (wi_id w) WS_ELIGIBLE \<and>
        (\<forall>d\<in>set (wi_deps w). dep_requirement d = RQ_REQUIRED \<longrightarrow>
           has_item_status s (dep_item d) WS_COMPLETED))"
proof -
  obtain tr s a where a: "reduce s (demo_eligible 10 item_B) [] = Accepted a"
    by (rule demo_step [OF demo_resumed])
  have e: "ev_kind (demo_eligible 10 item_B) = Closed EK_WORK_ITEM_ELIGIBLE"
    "ev_item (demo_eligible 10 item_B) = Some item_B"
    by (simp_all add: demo_eligible_def demo_event_def plain_event_def)
  from eligible_requires_dependencies [OF a e(1) run_Cons [OF a run_Nil]] obtain w where
    "w \<in> set (st_items s)" "ev_item (demo_eligible 10 item_B) = Some (wi_id w)"
    "wi_status w = WS_PENDING" "has_item_status (ac_state a) (wi_id w) WS_ELIGIBLE"
    "\<forall>d\<in>set (wi_deps w). dep_requirement d = RQ_REQUIRED \<longrightarrow> has_item_status s (dep_item d) WS_COMPLETED"
    by blast
  with a e(2) show ?thesis by (intro exI [of _ s] exI [of _ a] conjI bexI [of _ w]) simp_all
qed

section \<open>Witnesses: suspension and control\<close>

theorem resumed_suspension_is_ready_witness:
  "\<exists>tr t u. run demo_genesis tr t \<and> st_suspension t = Some u \<and> su_status u = SS_RESUMED \<and>
     item_A \<in> set (su_required u) \<and> has_item_status t item_A WS_COMPLETED"
proof -
  obtain tr t where r: "run demo_genesis tr t"
    "case st_suspension (forget t) of
       None \<Rightarrow> False | Some v \<Rightarrow> su_status v = SS_RESUMED \<and> item_A \<in> set (su_required v)"
    by (rule demo_step [OF demo_resumed])
  then obtain u where u: "st_suspension t = Some u" "su_status u = SS_RESUMED" "item_A \<in> set (su_required u)"
    by (auto split: option.splits)
  from resumed_suspension_is_ready [OF demo_genesis_ok r(1) u] r(1) u show ?thesis by blast
qed

theorem waiting_blocks_progress_witness:
  "\<exists>s u a. st_suspension s = Some u \<and> su_status u = SS_WAITING \<and>
     reduce s (demo_attempt 8 EK_ATTEMPT_COMPLETED) [] = Accepted a \<and>
     st_status (ac_state a) = st_status s \<and> st_suspension (ac_state a) = Some u"
proof -
  obtain tr s a where r: "reduce s (demo_attempt 8 EK_ATTEMPT_COMPLETED) [] = Accepted a"
    "case st_suspension (forget s) of None \<Rightarrow> False | Some v \<Rightarrow> su_status v = SS_WAITING"
    by (rule demo_step [OF demo_waiting])
  then obtain u where u: "st_suspension s = Some u" "su_status u = SS_WAITING"
    by (auto split: option.splits)
  have "ev_kind (demo_attempt 8 EK_ATTEMPT_COMPLETED) = Closed EK_ATTEMPT_COMPLETED"
    by (simp add: demo_attempt_def demo_event_def plain_event_def)
  from waiting_blocks_progress [OF r(1) u this] r(1) u show ?thesis by auto
qed

theorem interrupted_only_control_events_witness:
  "\<exists>s a. interrupted_by s (Identity IK_INTERRUPT ''x'') \<and>
     reduce s (demo_interrupt 1 EK_INTERRUPT_RESUMED) demo_evidence = Accepted a \<and>
     ct_status (current_control (ac_state a)) = CS_ACTIVE \<and> st_items (ac_state a) = st_items s"
proof -
  let ?e = "demo_interrupt 1 EK_INTERRUPT_RESUMED"
  obtain tr s a where r: "reduce s ?e demo_evidence = Accepted a"
    "st_control (forget s) = Some \<lparr>ct_version = 0, ct_status = CS_INTERRUPTED,
         ct_interrupt = Some (Identity IK_INTERRUPT ''x'')\<rparr>"
    by (rule demo_step [OF demo_interrupted])
  then have i: "interrupted_by s (Identity IK_INTERRUPT ''x'')"
    by (simp add: interrupted_by_def current_control_def)
  have "ev_kind ?e = Closed EK_INTERRUPT_RESUMED"
    by (simp add: demo_interrupt_def demo_control_def demo_event_def plain_event_def)
  from interrupted_only_control_events [OF r(1) i this] r(1) i show ?thesis by auto
qed

theorem intent_version_counts_redirects_witness:
  "\<exists>a. run demo_genesis [(demo_redirect 0, demo_evidence, a)] (ac_state a) \<and>
     ct_version (current_control (ac_state a)) = 1"
proof -
  obtain a where "reduce demo_genesis (demo_redirect 0) demo_evidence = Accepted a"
    by (rule accepts_obtains [OF demo_accepts(4)])
  then have r: "run demo_genesis [(demo_redirect 0, demo_evidence, a)] (ac_state a)"
    by (intro run.intros)
  from intent_version_counts_redirects [OF r] have "ct_version (current_control (ac_state a)) = 1"
    by (simp add: demo_redirect_def demo_control_def demo_event_def plain_event_def demo_genesis_def
        current_control_def)
  with r show ?thesis by blast
qed

theorem cancellation_needs_authority_witness:
  "\<exists>a. reduce demo_genesis (demo_redirect 0) demo_evidence = Accepted a \<and>
     st_control (ac_state a) \<noteq> st_control demo_genesis \<and>
     (\<exists>x\<in>set demo_evidence. ev_authority (demo_redirect 0) = Some (evd_id x) \<and> is_digest (evd_digest x))"
proof -
  obtain a where a: "reduce demo_genesis (demo_redirect 0) demo_evidence = Accepted a"
    by (rule accepts_obtains [OF demo_accepts(4)])
  have "ct_version (current_control (ac_state a)) = 1"
    using reduce_intent_version [OF a]
    by (simp add: demo_redirect_def demo_control_def demo_event_def plain_event_def demo_genesis_def
        current_control_def)
  then have "st_control (ac_state a) \<noteq> st_control demo_genesis"
    by (auto simp: current_control_def demo_genesis_def split: option.splits)
  with cancellation_needs_authority [OF a disjI2] a show ?thesis by blast
qed

theorem task_cancelled_settles_items_witness:
  "\<exists>a. reduce demo_genesis (demo_cancel 0) demo_evidence = Accepted a \<and>
     st_status (ac_state a) = Closed TS_CANCELLED"
proof -
  obtain a where a: "reduce demo_genesis (demo_cancel 0) demo_evidence = Accepted a"
    by (rule accepts_obtains [OF demo_accepts(5)])
  have "ev_kind (demo_cancel 0) = Closed EK_TASK_CANCELLED"
    by (simp add: demo_cancel_def demo_control_def demo_event_def plain_event_def)
  from task_cancelled_settles_items [OF a this] a show ?thesis by blast
qed

theorem result_digest_binds_witness:
  "\<exists>a. reduce demo_genesis (demo_eligible 0 item_A) [] = Accepted a \<and>
     (demo_genesis = demo_genesis \<and> ac_obligations a = ac_obligations a \<or>
      sha_collision (state_json demo_genesis) (state_json demo_genesis) \<or>
      (\<exists>v w. sha_collision v w \<and> digest v = ac_result_digest a \<and> digest w = ac_result_digest a))"
proof -
  obtain a where a: "reduce demo_genesis (demo_eligible 0 item_A) [] = Accepted a"
    by (rule accepts_obtains [OF demo_accepts(2)])
  from result_digest_binds [OF a a refl] a show ?thesis by blast
qed

section \<open>Witnesses: replay and checkpoints\<close>

text \<open>A checkpoint taken after an accepted step, with the policy and the evidence that vouch for it.\<close>

definition demo_policy :: trust_policy where
  "demo_policy = \<lparr>tp_ids = [Identity IK_EVIDENCE ''c'']\<rparr>"

definition demo_checkpoint :: "accepted \<Rightarrow> checkpoint_root" where
  "demo_checkpoint a = \<lparr>cp_state = ac_state a, cp_count = st_revision (ac_state a),
     cp_prefix = no_digest, cp_tail_event = ae_event (last (st_accepted (ac_state a))),
     cp_tail_result = ac_result a, cp_tail_digest = ac_result_digest a, cp_result = ac_result a,
     cp_policy_digest = trust_policy_digest demo_policy\<rparr>"

definition demo_authentication :: "accepted \<Rightarrow> checkpoint_authentication" where
  "demo_authentication a = \<lparr>au_result = Accepted a,
     au_evidence = [\<lparr>evd_id = Identity IK_EVIDENCE ''c'',
       evd_digest = statement_digest_for (demo_checkpoint a) (Accepted a) demo_policy\<rparr>],
     au_policy = demo_policy\<rparr>"

lemma demo_checkpoint_valid:
  assumes "kernel_inv s" and "reduce s e ev = Accepted a"
  shows "checkpoint_authentication_is_valid (demo_checkpoint a) (Some (demo_authentication a))"
proof -
  have v: "state_is_valid (ac_state a)" using reduce_inv [OF assms(2,1)] by (simp add: kernel_inv_def)
  have acc: "st_accepted (ac_state a) = st_accepted s @
      [\<lparr>ae_event = ev_id e, ae_result = ac_result a, ae_input_digest = input_digest s e ev,
        ae_result_digest = ac_result_digest a\<rparr>]"
    using reduce_frame(6) [OF assms(2)] .
  have r: "st_revision (ac_state a) = int (length (st_accepted (ac_state a)))"
    and h: "list_all accepted_event_is_valid (st_accepted (ac_state a))"
    using v by (simp_all add: state_is_valid_def)
  have "checkpoint_root_is_valid (demo_checkpoint a)"
    using v r h
    by (simp add: checkpoint_root_is_valid_def demo_checkpoint_def acc accepted_event_is_valid_def
        trust_policy_digest_def)
  then show ?thesis
    by (simp add: checkpoint_authentication_is_valid_def demo_authentication_def demo_policy_def
        demo_checkpoint_def evidence_set_is_valid_def has_identity_kind_def Identity_def
        statement_digest_for_def)
qed

theorem checkpoint_evidence_binds_root_witness:
  "\<exists>a. reduce demo_genesis (demo_eligible 0 item_A) [] = Accepted a \<and>
     (demo_checkpoint a = demo_checkpoint a \<and> Accepted a = au_result (demo_authentication a) \<or>
      sha_collision (statement_value (demo_checkpoint a) (Accepted a) demo_policy)
        (statement_value (demo_checkpoint a) (Accepted a) demo_policy))"
proof -
  obtain a where a: "reduce demo_genesis (demo_eligible 0 item_A) [] = Accepted a"
    by (rule accepts_obtains [OF demo_accepts(2)])
  note v = demo_checkpoint_valid [OF demo_inv a]
  have "hd (au_evidence (demo_authentication a)) \<in> set (au_evidence (demo_authentication a))"
    by (simp add: demo_authentication_def)
  from checkpoint_evidence_binds_root [OF v v this this] a show ?thesis
    by (simp add: demo_authentication_def)
qed

theorem prefix_digest_binds_history_witness:
  "\<exists>tr t d. run demo_genesis tr t \<and> length tr = 1 \<and> replay_prefix_digest (map recorded tr) = Inr d \<and>
     (list_all2 (\<lambda>x y. fst x = fst y \<and> entry_result x = entry_result y) tr tr \<or>
      sha_collision (prefix_value (map recorded tr)) (prefix_value (map recorded tr)))"
proof -
  obtain a where a: "reduce demo_genesis (demo_eligible 0 item_A) [] = Accepted a"
    by (rule accepts_obtains [OF demo_accepts(2)])
  let ?tr = "[(demo_eligible 0 item_A, [], a)]"
  have r: "run demo_genesis ?tr (ac_state a)" by (rule run_Cons [OF a run_Nil])
  have d: "replay_prefix_digest (map recorded ?tr) = Inr (digest (prefix_value (map recorded ?tr)))"
    by (simp add: replay_prefix_digest_def recorded_def)
  from prefix_digest_binds_history [OF r r d d] r d show ?thesis
    by (intro exI [of _ ?tr] exI [of _ "ac_state a"] exI) auto
qed

section \<open>Witnesses: progress and refinement\<close>

lemma demo_item_failed:
  "case demo_light [((demo_event 0 EK_WORK_ITEM_FAILED)\<lparr>ev_item := Some item_A\<rparr>, [])] of
     None \<Rightarrow> False
   | Some u \<Rightarrow> st_status u = Closed TS_PUBLISHED \<and>
       map (\<lambda>w. (wi_id w, wi_requirement w, wi_status w)) (st_items u) =
         [(item_A, RQ_REQUIRED, WS_FAILED), (item_B, RQ_REQUIRED, WS_PENDING)]"
  by code_simp

text \<open>A task that is done although a required work item has failed.\<close>

theorem done_ignores_work_items_witness:
  "\<exists>tr t. run demo_genesis tr t \<and> st_status t = Closed TS_DONE \<and>
     map (\<lambda>w. (wi_id w, wi_requirement w, wi_status w)) (st_items t) =
       [(item_A, RQ_REQUIRED, WS_FAILED), (item_B, RQ_REQUIRED, WS_PENDING)]"
proof -
  obtain tr s where s: "run demo_genesis tr s" "st_status s = Closed TS_PUBLISHED"
    "map (\<lambda>w. (wi_id w, wi_requirement w, wi_status w)) (st_items s) =
       [(item_A, RQ_REQUIRED, WS_FAILED), (item_B, RQ_REQUIRED, WS_PENDING)]"
    by (rule demo_run [OF demo_item_failed]) simp
  have "TS_PUBLISHED \<notin> set terminal_task" by (simp add: terminal_task_def)
  from done_ignores_work_items [OF demo_genesis_ok s(1,2) this] obtain tr' t where
    t: "run s tr' t" "st_status t = Closed TS_DONE" "st_items t = st_items s" by blast
  have "run demo_genesis (tr @ tr') t" using s(1) t(1) by (auto simp: run_append)
  moreover have "map (\<lambda>w. (wi_id w, wi_requirement w, wi_status w)) (st_items t) =
      [(item_A, RQ_REQUIRED, WS_FAILED), (item_B, RQ_REQUIRED, WS_PENDING)]"
    unfolding t(3) by (rule s(3))
  ultimately show ?thesis using t(2) by (intro exI conjI)
qed

theorem reduce_refines_light_step_witness:
  "map_option forget (iterate kernel_step demo_genesis demo_script) =
     iterate light_step (forget demo_genesis) demo_script"
  by (rule reduce_refines_light_step [OF demo_inv])

end
