(* ===== verification/Receipts.thy ===== *)
theory Receipts
  imports Kernel_Canonical Append_Log
begin

text \<open>
  The receipt ledger of \<^verbatim>\<open>src/valp_cli/protocol_receipts.py\<close>: drafts, receipts and their
  canonical projections, the validity of a receipt and of a ledger, and the pure append
  \<^verbatim>\<open>propose_receipt_append\<close>. \<^verbatim>\<open>draft.event\<close> and \<^verbatim>\<open>draft.role\<close> are plain strings in the source and
  stay so here; \<^verbatim>\<open>mode\<close> and \<^verbatim>\<open>proof_kind\<close> are open enums.
\<close>

section \<open>Vocabulary\<close>

datatype receipt_mode = RM_FULL | RM_REMOTE | RM_MANUAL

primrec receipt_mode_value :: "receipt_mode \<Rightarrow> string" where
  "receipt_mode_value RM_FULL = ''full''"
| "receipt_mode_value RM_REMOTE = ''remote''"
| "receipt_mode_value RM_MANUAL = ''manual''"

definition all_receipt_mode :: "receipt_mode list" where
  "all_receipt_mode = [RM_FULL, RM_REMOTE, RM_MANUAL]"

interpretation receipt_mode: closed_enum receipt_mode_value all_receipt_mode
proof
  fix k show "k \<in> set all_receipt_mode" by (cases k) (simp_all add: all_receipt_mode_def)
  show "distinct (map receipt_mode_value all_receipt_mode)" by code_simp
qed

datatype proof_kind = PK_PROCESS_BOUND | PK_CONTENT_BOUND | PK_MANUAL_ATTESTED | PK_TRANSPORT_ONLY

primrec proof_kind_value :: "proof_kind \<Rightarrow> string" where
  "proof_kind_value PK_PROCESS_BOUND = ''process_bound''"
| "proof_kind_value PK_CONTENT_BOUND = ''content_bound''"
| "proof_kind_value PK_MANUAL_ATTESTED = ''manual_attested''"
| "proof_kind_value PK_TRANSPORT_ONLY = ''transport_only''"

definition all_proof_kind :: "proof_kind list" where
  "all_proof_kind = [PK_PROCESS_BOUND, PK_CONTENT_BOUND, PK_MANUAL_ATTESTED, PK_TRANSPORT_ONLY]"

interpretation proof_kind: closed_enum proof_kind_value all_proof_kind
proof
  fix k show "k \<in> set all_proof_kind" by (cases k) (simp_all add: all_proof_kind_def)
  show "distinct (map proof_kind_value all_proof_kind)" by code_simp
qed

definition RECEIPT_EVENTS :: "string list" where
  "RECEIPT_EVENTS =
     [''dispatch_written'', ''dispatch_inserted'', ''dispatch_submitted'', ''dispatch_completed'',
      ''dispatch_blocked'', ''dispatch_superseded'', ''manual_dispatch_written'',
      ''manual_delivery_attested'', ''manual_result_attested'', ''manual_blocked'']"

definition MANUAL_EVENTS :: "string list" where
  "MANUAL_EVENTS =
     [''manual_dispatch_written'', ''manual_delivery_attested'', ''manual_result_attested'',
      ''manual_blocked'']"

definition TERMINAL_EVENTS :: "string list" where
  "TERMINAL_EVENTS =
     [''dispatch_completed'', ''dispatch_blocked'', ''manual_result_attested'', ''manual_blocked'']"

definition ROLES :: "string list" where
  "ROLES = [''coordinator'', ''implementer'', ''reviewer'', ''prototype'', ''researcher'', ''other'']"

definition receipt_protocol_version :: string where
  "receipt_protocol_version = ''0.3.0''"

definition RECEIPT_SCHEMA_VERSION :: string where
  "RECEIPT_SCHEMA_VERSION = ''valp-dispatch-receipt.v3''"

definition MIGRATION_UNSUPPORTED_ERROR :: string where
  "MIGRATION_UNSUPPORTED_ERROR = ''VALP-E-MIGRATION-UNSUPPORTED''"

definition receipt_state_conflict :: string where
  "receipt_state_conflict = ''VALP-E-STATE-CONFLICT''"

definition receipt_idempotency_conflict :: string where
  "receipt_idempotency_conflict = ''VALP-E-IDEMPOTENCY-CONFLICT''"

definition EMPTY_RECEIPT_LEDGER_DIGEST :: string where
  "EMPTY_RECEIPT_LEDGER_DIGEST =
     digest (JObj [(''receipts'', JArr []), (''schema_version'', JStr ''valp-receipt-ledger-prefix.v1'')])"

definition is_safe_ref :: "string \<Rightarrow> bool" where
  "is_safe_ref v \<longleftrightarrow>
     v \<noteq> [] \<and> hd v \<noteq> CHR ''/'' \<and> backslash \<notin> set v \<and> CHR '':'' \<notin> set v \<and>
     list_all (\<lambda>part. part \<notin> {'''', ''.'', ''..''}) (split_on (CHR ''/'') v)"

section \<open>Records and canonical projections\<close>

record proof_binding =
  pb_kind :: "proof_kind open_enum"
  pb_ref :: string
  pb_digest :: string
  pb_subject :: string

definition proof_binding_json :: "proof_binding \<Rightarrow> json" where
  "proof_binding_json b =
     JObj [(''proof_kind'', JStr (enum_text proof_kind_value (pb_kind b))),
           (''proof_ref'', JStr (pb_ref b)),
           (''proof_digest'', JStr (pb_digest b)),
           (''subject_digest'', JStr (pb_subject b))]"

record approval_binding =
  ab_status :: string
  ab_policy_digest :: string
  ab_id :: "string option"
  ab_ref :: "string option"
  ab_digest :: "string option"
  ab_action :: "string option"

definition approval_binding_json :: "approval_binding \<Rightarrow> json" where
  "approval_binding_json b =
     JObj ([(''status'', JStr (ab_status b)), (''policy_digest'', JStr (ab_policy_digest b))]
           @ opt_entry ''approval_id'' JStr (ab_id b)
           @ opt_entry ''approval_ref'' JStr (ab_ref b)
           @ opt_entry ''approval_digest'' JStr (ab_digest b)
           @ opt_entry ''action_digest'' JStr (ab_action b))"

record migration_binding =
  mb_id :: string
  mb_schema :: string
  mb_source_digest :: string
  mb_evidence_digest :: string

definition migration_binding_json :: "migration_binding \<Rightarrow> json" where
  "migration_binding_json b =
     JObj [(''migration_id'', JStr (mb_id b)),
           (''source_schema_version'', JStr (mb_schema b)),
           (''source_receipt_digest'', JStr (mb_source_digest b)),
           (''reconciliation_evidence_digest'', JStr (mb_evidence_digest b))]"

record receipt_draft =
  rd_id :: string
  rd_installation :: string
  rd_leader_epoch :: int
  rd_task :: string
  rd_agent :: string
  rd_role :: string
  rd_item :: string
  rd_attempt :: string
  rd_dispatch :: string
  rd_generation :: int
  rd_mode :: "receipt_mode open_enum"
  rd_sequence :: int
  rd_expected_revision :: int
  rd_prior :: string
  rd_event :: string
  rd_ts :: string
  rd_dispatch_ref :: string
  rd_payload :: string
  rd_refs :: "string list"
  rd_proofs :: "proof_binding list"
  rd_approval :: approval_binding
  rd_retry :: "int option"
  rd_epoch :: "int option"
  rd_migration :: "migration_binding option"

definition opt_json :: "('a \<Rightarrow> json) \<Rightarrow> 'a option \<Rightarrow> json" where
  "opt_json f x = (case x of None \<Rightarrow> JNull | Some v \<Rightarrow> f v)"

definition receipt_subject_digest :: "receipt_draft \<Rightarrow> string" where
  "receipt_subject_digest d =
     digest (JObj
       [(''protocol_version'', JStr receipt_protocol_version),
        (''receipt_id'', JStr (rd_id d)),
        (''installation_id'', JStr (rd_installation d)),
        (''leader_epoch'', JInt (rd_leader_epoch d)),
        (''task_id'', JStr (rd_task d)),
        (''agent'', JStr (rd_agent d)),
        (''role'', JStr (rd_role d)),
        (''work_item_id'', JStr (rd_item d)),
        (''attempt_id'', JStr (rd_attempt d)),
        (''dispatch_id'', JStr (rd_dispatch d)),
        (''dispatch_generation'', JInt (rd_generation d)),
        (''retry_generation'', opt_json JInt (rd_retry d)),
        (''mode'', JStr (enum_text receipt_mode_value (rd_mode d))),
        (''event_sequence'', JInt (rd_sequence d)),
        (''expected_revision'', JInt (rd_expected_revision d)),
        (''prior_receipt_digest'', JStr (rd_prior d)),
        (''event'', JStr (rd_event d)),
        (''suspension_epoch'', opt_json JInt (rd_epoch d)),
        (''payload_digest'', JStr (rd_payload d)),
        (''expected_refs'', JArr (map JStr (rd_refs d)))])"

record receipt =
  rc_draft :: receipt_draft
  rc_revision :: int
  rc_digest :: string

definition sorted_proofs :: "proof_binding list \<Rightarrow> proof_binding list" where
  "sorted_proofs bs = sort_key (\<lambda>b. canonical_json (proof_binding_json b)) bs"

definition receipt_entries :: "receipt \<Rightarrow> (string \<times> json) list" where
  "receipt_entries r =
     (let d = rc_draft r in
      [(''schema_version'', JStr RECEIPT_SCHEMA_VERSION),
       (''protocol_version'', JStr receipt_protocol_version),
       (''receipt_id'', JStr (rd_id d)),
       (''installation_id'', JStr (rd_installation d)),
       (''leader_epoch'', JInt (rd_leader_epoch d)),
       (''task_id'', JStr (rd_task d)),
       (''agent'', JStr (rd_agent d)),
       (''role'', JStr (rd_role d)),
       (''work_item_id'', JStr (rd_item d)),
       (''attempt_id'', JStr (rd_attempt d)),
       (''dispatch_id'', JStr (rd_dispatch d)),
       (''dispatch_generation'', JInt (rd_generation d)),
       (''mode'', JStr (enum_text receipt_mode_value (rd_mode d))),
       (''event_sequence'', JInt (rd_sequence d)),
       (''ledger_revision'', JInt (rc_revision r)),
       (''event'', JStr (rd_event d)),
       (''ts'', JStr (rd_ts d)),
       (''dispatch_ref'', JStr (rd_dispatch_ref d)),
       (''payload_digest'', JStr (rd_payload d)),
       (''expected_refs'', JArr (map JStr (rd_refs d))),
       (''proof_bindings'', JArr (map proof_binding_json (sorted_proofs (rd_proofs d)))),
       (''approval_binding'', approval_binding_json (rd_approval d)),
       (''prior_receipt_digest'', JStr (rd_prior d))]
      @ opt_entry ''retry_generation'' JInt (rd_retry d)
      @ opt_entry ''suspension_epoch'' JInt (rd_epoch d)
      @ opt_entry ''migration_binding'' migration_binding_json (rd_migration d))"

text \<open>\<^verbatim>\<open>canonical_without_digest\<close> and \<^verbatim>\<open>canonical\<close>.\<close>

definition receipt_body_json :: "receipt \<Rightarrow> json" where
  "receipt_body_json r = JObj (receipt_entries r)"

definition receipt_json :: "receipt \<Rightarrow> json" where
  "receipt_json r = JObj (receipt_entries r @ [(''receipt_digest'', JStr (rc_digest r))])"

record ledger =
  ld_installation :: string
  ld_leader_epoch :: int
  ld_task :: string
  ld_revision :: int
  ld_receipts :: "receipt list"

definition tail_digest :: "ledger \<Rightarrow> string" where
  "tail_digest l =
     (if ld_receipts l \<noteq> [] then rc_digest (last (ld_receipts l)) else EMPTY_RECEIPT_LEDGER_DIGEST)"

text \<open>
  \<^verbatim>\<open>ReceiptWriteResult\<close> with its three exclusive payloads, as a tagged union.
\<close>

datatype write_result =
    WriteAccepted ledger receipt "string list"
  | WriteNoOp ledger receipt
  | WriteRejected ledger string

section \<open>Validity\<close>

definition proof_binding_valid :: "string \<Rightarrow> proof_binding \<Rightarrow> bool" where
  "proof_binding_valid subject b \<longleftrightarrow>
     is_closed (pb_kind b) \<and> is_safe_ref (pb_ref b) \<and> is_digest (pb_digest b) \<and>
     pb_subject b = subject"

definition approval_binding_valid :: "string \<Rightarrow> approval_binding \<Rightarrow> bool" where
  "approval_binding_valid subject b =
     (if \<not> is_digest (ab_policy_digest b) then False
      else if ab_status b = ''not_required''
      then ab_id b = None \<and> ab_ref b = None \<and> ab_digest b = None \<and> ab_action b = None
      else ab_status b = ''granted'' \<and>
        (case ab_id b of None \<Rightarrow> False | Some x \<Rightarrow> x \<noteq> []) \<and>
        (case ab_ref b of None \<Rightarrow> False | Some x \<Rightarrow> is_safe_ref x) \<and>
        (case ab_digest b of None \<Rightarrow> False | Some x \<Rightarrow> is_digest x) \<and>
        ab_action b = Some subject)"

text \<open>The first group of tests of \<^verbatim>\<open>_receipt_valid\<close>: the fields one by one.\<close>

definition receipt_fields_ok :: "receipt \<Rightarrow> bool" where
  "receipt_fields_ok r =
     (let d = rc_draft r; subject = receipt_subject_digest d in
      is_closed (rd_mode d) \<and> rd_event d \<in> set RECEIPT_EVENTS \<and> rd_role d \<in> set ROLES \<and>
      list_all (\<lambda>x. x \<noteq> [])
        [rd_id d, rd_installation d, rd_task d, rd_agent d, rd_item d, rd_attempt d,
         rd_dispatch d, rd_ts d] \<and>
      0 \<le> rd_leader_epoch d \<and> 1 \<le> rd_generation d \<and> 1 \<le> rd_sequence d \<and>
      0 \<le> rd_expected_revision d \<and> rc_revision r = rd_expected_revision d + 1 \<and>
      is_digest (rd_prior d) \<and> is_digest (rd_payload d) \<and> is_safe_ref (rd_dispatch_ref d) \<and>
      rd_proofs d \<noteq> [] \<and> list_all (proof_binding_valid subject) (rd_proofs d) \<and>
      distinct (map (\<lambda>b. canonical_json (proof_binding_json b)) (rd_proofs d)) \<and>
      approval_binding_valid subject (rd_approval d) \<and>
      list_all is_safe_ref (rd_refs d) \<and> distinct (rd_refs d) \<and>
      opt_all (\<lambda>g. 1 \<le> g) (rd_retry d) \<and>
      (rd_event d \<in> set TERMINAL_EVENTS \<longleftrightarrow> rd_epoch d \<noteq> None) \<and>
      opt_all (\<lambda>g. 1 \<le> g) (rd_epoch d))"

definition proof_kinds :: "receipt_draft \<Rightarrow> proof_kind open_enum set" where
  "proof_kinds d = pb_kind ` set (rd_proofs d)"

text \<open>Which proofs each event needs, by mode.\<close>

definition receipt_proofs_ok :: "receipt_draft \<Rightarrow> bool" where
  "receipt_proofs_ok d =
     (let kinds = proof_kinds d;
          needed = filter (\<lambda>b. pb_kind b \<in> {Closed PK_PROCESS_BOUND, Closed PK_CONTENT_BOUND}) (rd_proofs d);
          delivery = rd_event d \<in> {''dispatch_submitted'', ''dispatch_completed''}
      in
      (if rd_mode d = Closed RM_MANUAL
       then (rd_event d \<in> set MANUAL_EVENTS \<and> Closed PK_MANUAL_ATTESTED \<in> kinds) \<or>
            (rd_event d = ''dispatch_inserted'' \<and> kinds = {Closed PK_TRANSPORT_ONLY})
       else rd_event d \<notin> set MANUAL_EVENTS) \<and>
      (delivery \<longrightarrow>
         {Closed PK_PROCESS_BOUND, Closed PK_CONTENT_BOUND} \<subseteq> kinds \<and>
         distinct (map pb_ref needed) \<and> distinct (map pb_digest needed) \<and>
         Closed PK_TRANSPORT_ONLY \<notin> kinds))"

definition migration_binding_valid :: "migration_binding \<Rightarrow> bool" where
  "migration_binding_valid m \<longleftrightarrow>
     mb_id m \<noteq> [] \<and> mb_schema m \<in> {''legacy'', ''valp-dispatch-receipt.v2''} \<and>
     is_digest (mb_source_digest m) \<and> is_digest (mb_evidence_digest m)"

definition receipt_valid :: "receipt \<Rightarrow> bool" where
  "receipt_valid r \<longleftrightarrow>
     receipt_fields_ok r \<and> receipt_proofs_ok (rc_draft r) \<and>
     opt_all migration_binding_valid (rd_migration (rc_draft r)) \<and>
     rc_digest r = digest (receipt_body_json r)"

definition logical_key ::
  "receipt_draft \<Rightarrow> string \<times> string \<times> string \<times> string \<times> int \<times> int option \<times> string" where
  "logical_key d =
     (rd_task d, rd_item d, rd_attempt d, rd_dispatch d, rd_generation d, rd_retry d, rd_event d)"

definition submission_identity ::
  "receipt_draft \<Rightarrow> (string \<times> int \<times> string \<times> string \<times> string \<times> string \<times> string) \<times>
     (string \<times> int \<times> int option \<times> receipt_mode open_enum \<times> string \<times> string \<times> string list)" where
  "submission_identity d =
     ((rd_installation d, rd_leader_epoch d, rd_task d, rd_agent d, rd_role d, rd_item d,
       rd_attempt d),
      (rd_dispatch d, rd_generation d, rd_retry d, rd_mode d, rd_dispatch_ref d, rd_payload d,
       rd_refs d))"

definition migration_id :: "receipt_draft \<Rightarrow> string option" where
  "migration_id d = map_option mb_id (rd_migration d)"

text \<open>The loop of \<^verbatim>\<open>_ledger_valid\<close>, with the sets it collects and the digest it carries along.\<close>

fun ledger_loop :: "ledger \<Rightarrow> int \<Rightarrow> string \<Rightarrow> string set \<Rightarrow>
    (string \<times> string \<times> string \<times> string \<times> int \<times> int option \<times> string) set \<Rightarrow> string set \<Rightarrow>
    receipt list \<Rightarrow> bool" where
  "ledger_loop l i prior ids keys migrations [] = True"
| "ledger_loop l i prior ids keys migrations (r # rs) =
     (let d = rc_draft r in
      if \<not> receipt_valid r \<or> rc_revision r \<noteq> i \<or> rd_sequence d \<noteq> i \<or> rd_prior d \<noteq> prior
         \<or> rd_installation d \<noteq> ld_installation l \<or> rd_leader_epoch d \<noteq> ld_leader_epoch l
         \<or> rd_task d \<noteq> ld_task l \<or> rd_id d \<in> ids \<or> logical_key d \<in> keys
         \<or> (case migration_id d of None \<Rightarrow> False | Some m \<Rightarrow> m \<in> migrations)
      then False
      else ledger_loop l (i + 1) (rc_digest r) (insert (rd_id d) ids) (insert (logical_key d) keys)
             (case migration_id d of None \<Rightarrow> migrations | Some m \<Rightarrow> insert m migrations) rs)"

definition ledger_valid :: "ledger \<Rightarrow> bool" where
  "ledger_valid l \<longleftrightarrow>
     ld_installation l \<noteq> [] \<and> ld_task l \<noteq> [] \<and> 0 \<le> ld_leader_epoch l \<and> 0 \<le> ld_revision l \<and>
     ld_revision l = int (length (ld_receipts l)) \<and>
     ledger_loop l 1 EMPTY_RECEIPT_LEDGER_DIGEST {} {} {} (ld_receipts l)"

section \<open>The append\<close>

definition make_receipt :: "receipt_draft \<Rightarrow> receipt" where
  "make_receipt d =
     (let r = \<lparr>rc_draft = d, rc_revision = rd_expected_revision d + 1, rc_digest = []\<rparr>
      in r\<lparr>rc_digest := digest (receipt_body_json r)\<rparr>)"

definition propose_receipt_append :: "ledger \<Rightarrow> receipt_draft \<Rightarrow> write_result" where
  "propose_receipt_append l d =
     (if \<not> ledger_valid l then WriteRejected l receipt_state_conflict
      else if \<not> is_closed (rd_mode d) \<or> rd_event d \<notin> set RECEIPT_EVENTS
         \<or> \<not> list_all (\<lambda>b. is_closed (pb_kind b)) (rd_proofs d)
      then WriteRejected l MIGRATION_UNSUPPORTED_ERROR
      else
        (let candidate = make_receipt d in
         case List.find (\<lambda>r. rd_id (rc_draft r) = rd_id d) (ld_receipts l) of
           Some prior \<Rightarrow>
             if canonical_json (receipt_json prior) = canonical_json (receipt_json candidate)
             then WriteNoOp l prior
             else WriteRejected l receipt_idempotency_conflict
         | None \<Rightarrow>
             if \<not> receipt_valid candidate then WriteRejected l receipt_state_conflict
             else if list_ex (\<lambda>r. logical_key (rc_draft r) = logical_key d) (ld_receipts l)
             then WriteRejected l receipt_idempotency_conflict
             else if migration_id d \<noteq> None \<and>
                list_ex (\<lambda>r. migration_id (rc_draft r) = migration_id d) (ld_receipts l)
             then WriteRejected l receipt_idempotency_conflict
             else if rd_expected_revision d \<noteq> ld_revision l \<or> rd_sequence d \<noteq> ld_revision l + 1
                \<or> rd_prior d \<noteq> tail_digest l \<or> rd_installation d \<noteq> ld_installation l
                \<or> rd_leader_epoch d \<noteq> ld_leader_epoch l \<or> rd_task d \<noteq> ld_task l
             then WriteRejected l receipt_state_conflict
             else if rd_event d = ''dispatch_completed'' \<and>
                \<not> list_ex (\<lambda>r. rd_event (rc_draft r) = ''dispatch_submitted'' \<and>
                     submission_identity (rc_draft r) = submission_identity d) (ld_receipts l)
             then WriteRejected l receipt_state_conflict
             else WriteAccepted
                (l\<lparr>ld_revision := ld_revision l + 1, ld_receipts := ld_receipts l @ [candidate]\<rparr>)
                candidate [''append_receipt:'' @ rc_digest candidate]))"

end
