(* ===== verification/Receipt_Ledger.thy ===== *)
theory Receipt_Ledger
  imports Receipts
begin

text \<open>
  Properties of the receipt ledger: what validity means as a statement about the whole list, that
  appends preserve it, idempotency, completion only after submission, and that the tail digest of
  a valid ledger determines every receipt in it.
\<close>

section \<open>The validity loop as a statement\<close>

text \<open>The place of one receipt: its index, the digest before it, and the owner.\<close>

definition receipt_placed :: "ledger \<Rightarrow> int \<Rightarrow> string \<Rightarrow> receipt \<Rightarrow> bool" where
  "receipt_placed l i prior r \<longleftrightarrow>
     receipt_valid r \<and> rc_revision r = i \<and> rd_sequence (rc_draft r) = i \<and>
     rd_prior (rc_draft r) = prior \<and> rd_installation (rc_draft r) = ld_installation l \<and>
     rd_leader_epoch (rc_draft r) = ld_leader_epoch l \<and> rd_task (rc_draft r) = ld_task l"

definition receipt_fresh ::
  "string set \<Rightarrow> (string \<times> string \<times> string \<times> string \<times> int \<times> int option \<times> string) set \<Rightarrow> string set \<Rightarrow>
   receipt \<Rightarrow> bool" where
  "receipt_fresh ids keys migrations r \<longleftrightarrow>
     rd_id (rc_draft r) \<notin> ids \<and> logical_key (rc_draft r) \<notin> keys \<and>
     (case migration_id (rc_draft r) of None \<Rightarrow> True | Some m \<Rightarrow> m \<notin> migrations)"

definition prior_of :: "receipt list \<Rightarrow> string" where
  "prior_of rs = (if rs = [] then EMPTY_RECEIPT_LEDGER_DIGEST else rc_digest (last rs))"

abbreviation ids_of :: "receipt list \<Rightarrow> string list" where
  "ids_of rs \<equiv> map (\<lambda>r. rd_id (rc_draft r)) rs"

abbreviation keys_of ::
  "receipt list \<Rightarrow> (string \<times> string \<times> string \<times> string \<times> int \<times> int option \<times> string) list" where
  "keys_of rs \<equiv> map (\<lambda>r. logical_key (rc_draft r)) rs"

abbreviation migrations_of :: "receipt list \<Rightarrow> string list" where
  "migrations_of rs \<equiv> List.map_filter (\<lambda>r. migration_id (rc_draft r)) rs"

text \<open>
  The ledger contract in closed form: consecutive places chained by digests, one owner, and no
  receipt identity, logical key or migration identity twice.
\<close>

definition ledger_spec :: "ledger \<Rightarrow> bool" where
  "ledger_spec l \<longleftrightarrow>
     (\<forall>i<length (ld_receipts l).
        receipt_placed l (int i + 1) (prior_of (take i (ld_receipts l))) (ld_receipts l ! i)) \<and>
     distinct (ids_of (ld_receipts l)) \<and> distinct (keys_of (ld_receipts l)) \<and>
     distinct (migrations_of (ld_receipts l))"

lemma ledger_loop_snoc:
  "ledger_loop l i p ids keys ms (rs @ [r]) \<longleftrightarrow>
     ledger_loop l i p ids keys ms rs \<and>
     receipt_placed l (i + int (length rs)) (if rs = [] then p else rc_digest (last rs)) r \<and>
     receipt_fresh (ids \<union> set (ids_of rs)) (keys \<union> set (keys_of rs)) (ms \<union> set (migrations_of rs)) r"
proof (induction rs arbitrary: i p ids keys ms)
  case Nil
  show ?case
    by (auto simp: Let_def receipt_placed_def receipt_fresh_def map_filter_simps split: option.splits)
next
  case (Cons x rs)
  show ?case
    by (auto simp: Let_def Cons.IH map_filter_simps ac_simps split: option.splits)
qed

lemma migrations_of_snoc:
  "migrations_of (rs @ [r]) =
     migrations_of rs @ (case migration_id (rc_draft r) of None \<Rightarrow> [] | Some m \<Rightarrow> [m])"
  by (induction rs) (auto simp: map_filter_simps split: option.splits)

lemma ledger_spec_snoc:
  "ledger_spec (l\<lparr>ld_receipts := rs @ [r]\<rparr>) \<longleftrightarrow>
     ledger_spec (l\<lparr>ld_receipts := rs\<rparr>) \<and> receipt_placed l (int (length rs) + 1) (prior_of rs) r \<and>
     receipt_fresh (set (ids_of rs)) (set (keys_of rs)) (set (migrations_of rs)) r"
proof -
  have owner: "receipt_placed (l\<lparr>ld_receipts := xs\<rparr>) = receipt_placed l" for xs
    by (simp add: fun_eq_iff receipt_placed_def)
  show ?thesis
    unfolding ledger_spec_def receipt_fresh_def
    by (auto simp: owner migrations_of_snoc nth_append less_Suc_eq split: option.splits)
qed

lemma ledger_loop_spec:
  "ledger_loop l 1 EMPTY_RECEIPT_LEDGER_DIGEST {} {} {} rs \<longleftrightarrow> ledger_spec (l\<lparr>ld_receipts := rs\<rparr>)"
proof (induction rs rule: rev_induct)
  case Nil
  then show ?case by (simp add: ledger_spec_def map_filter_simps)
next
  case (snoc r rs)
  then show ?case
    by (simp add: ledger_loop_snoc ledger_spec_snoc prior_of_def ac_simps)
qed

text \<open>
  C24. What a valid ledger is. The one-pass check of the code, which carries a digest and three
  sets along, accepts exactly the ledgers that have a proper owner, count their receipts, and
  satisfy the closed form: the receipt at position i is valid, carries revision and sequence
  number i, belongs to the owner, and names the digest of its predecessor (of the empty ledger at
  the start); and no receipt identity, logical key or migration identity occurs twice.
\<close>

theorem ledger_valid_iff_spec:
  "ledger_valid l \<longleftrightarrow>
     ld_installation l \<noteq> [] \<and> ld_task l \<noteq> [] \<and> 0 \<le> ld_leader_epoch l \<and>
     ld_revision l = int (length (ld_receipts l)) \<and> ledger_spec l"
  by (auto simp: ledger_valid_def ledger_loop_spec)

lemma ledger_valid_spec: "ledger_valid l \<Longrightarrow> ledger_spec l"
  by (simp add: ledger_valid_def ledger_loop_spec)

section \<open>The append\<close>

lemma receipt_entries_digest [simp]: "receipt_entries (r\<lparr>rc_digest := x\<rparr>) = receipt_entries r"
  by (simp add: receipt_entries_def)

lemma make_receipt_fields [simp]:
  "rc_draft (make_receipt d) = d"
  "rc_revision (make_receipt d) = rd_expected_revision d + 1"
  "rc_digest (make_receipt d) = digest (receipt_body_json (make_receipt d))"
  by (simp_all add: make_receipt_def Let_def receipt_body_json_def receipt_entries_def)

lemma migrations_of_set:
  "m \<in> set (migrations_of rs) \<longleftrightarrow> (\<exists>r\<in>set rs. migration_id (rc_draft r) = Some m)"
  by (induction rs) (auto simp: map_filter_simps split: option.splits)

lemma append_accepted:
  assumes "propose_receipt_append l d = WriteAccepted l' r ob"
  shows "ledger_valid l" "r = make_receipt d" "ob = [''append_receipt:'' @ rc_digest r]"
    "l' = l\<lparr>ld_revision := ld_revision l + 1, ld_receipts := ld_receipts l @ [r]\<rparr>"
    "receipt_placed l (ld_revision l + 1) (prior_of (ld_receipts l)) r"
    "receipt_fresh (set (ids_of (ld_receipts l))) (set (keys_of (ld_receipts l)))
       (set (migrations_of (ld_receipts l))) r"
    "rd_event d = ''dispatch_completed'' \<Longrightarrow>
       \<exists>x\<in>set (ld_receipts l). rd_event (rc_draft x) = ''dispatch_submitted'' \<and>
         submission_identity (rc_draft x) = submission_identity d"
proof -
  note * = assms [unfolded propose_receipt_append_def Let_def]
  show "ledger_valid l" "r = make_receipt d" "ob = [''append_receipt:'' @ rc_digest r]"
    "l' = l\<lparr>ld_revision := ld_revision l + 1, ld_receipts := ld_receipts l @ [r]\<rparr>"
    using * by (auto split: if_splits option.splits)
  show "receipt_placed l (ld_revision l + 1) (prior_of (ld_receipts l)) r"
    using * by (auto simp: receipt_placed_def prior_of_def tail_digest_def split: if_splits option.splits)
  show "receipt_fresh (set (ids_of (ld_receipts l))) (set (keys_of (ld_receipts l)))
       (set (migrations_of (ld_receipts l))) r"
    using * by (auto simp: receipt_fresh_def find_None_iff list_ex_iff migrations_of_set
        split: if_splits option.splits)
  show "rd_event d = ''dispatch_completed'' \<Longrightarrow>
       \<exists>x\<in>set (ld_receipts l). rd_event (rc_draft x) = ''dispatch_submitted'' \<and>
         submission_identity (rc_draft x) = submission_identity d"
    using * by (auto simp: list_ex_iff split: if_splits option.splits)
qed

lemma append_valid:
  assumes "propose_receipt_append l d = WriteAccepted l' r ob"
  shows "ledger_valid l'"
proof -
  note a = append_accepted [OF assms]
  have v: "ld_installation l \<noteq> []" "ld_task l \<noteq> []" "0 \<le> ld_leader_epoch l"
    "ld_revision l = int (length (ld_receipts l))" "ledger_spec (l\<lparr>ld_receipts := ld_receipts l\<rparr>)"
    using a(1) by (simp_all add: ledger_valid_def ledger_loop_spec)
  have "ledger_spec (l\<lparr>ld_receipts := ld_receipts l @ [r]\<rparr>)"
    unfolding ledger_spec_snoc using v a(5,6) by simp
  moreover have "ledger_spec l' = ledger_spec (l\<lparr>ld_receipts := ld_receipts l @ [r]\<rparr>)"
    unfolding a(4) by (simp add: ledger_spec_def receipt_placed_def)
  ultimately show ?thesis using v a(4) by (simp add: ledger_valid_def ledger_loop_spec)
qed

definition receipt_step :: "ledger \<Rightarrow> receipt_draft \<Rightarrow> ledger option" where
  "receipt_step l d =
     (case propose_receipt_append l d of WriteAccepted l' r ob \<Rightarrow> Some l' | _ \<Rightarrow> None)"

lemma receipt_stepD:
  "receipt_step l d = Some l' \<Longrightarrow> \<exists>r ob. propose_receipt_append l d = WriteAccepted l' r ob"
  by (auto simp: receipt_step_def split: write_result.splits)

interpretation receipt_log: append_log receipt_step ld_receipts ledger_valid
proof
  fix l l' d
  assume "receipt_step l d = Some l'"
  then obtain r ob where a: "propose_receipt_append l d = WriteAccepted l' r ob"
    using receipt_stepD by blast
  show "ledger_valid l'" using append_valid [OF a] .
  show "\<exists>x. ld_receipts l' = ld_receipts l @ [x]" using append_accepted(4) [OF a] by simp
qed

text \<open>
  The outcomes of an append. An accepted append keeps the ledger valid and its owner, adds
  exactly the receipt of the draft at the end and counts it, and owes exactly the write of that
  receipt, named by its digest; an idempotent answer points to a receipt already in the ledger
  with byte for byte the text of the draft's receipt; every answer but an acceptance leaves the
  ledger as it was.
\<close>

theorem append_outcomes:
  "case propose_receipt_append l d of
     WriteAccepted l' r ob \<Rightarrow>
       ledger_valid l' \<and> ld_receipts l' = ld_receipts l @ [r] \<and> rc_draft r = d \<and>
       rc_digest r = digest (receipt_body_json r) \<and> ld_revision l' = ld_revision l + 1 \<and>
       ld_installation l' = ld_installation l \<and> ld_leader_epoch l' = ld_leader_epoch l \<and>
       ld_task l' = ld_task l \<and> ob = [''append_receipt:'' @ rc_digest r]
   | WriteNoOp l' r \<Rightarrow>
       l' = l \<and> r \<in> set (ld_receipts l) \<and> rd_id (rc_draft r) = rd_id d \<and>
       canonical_json (receipt_json r) = canonical_json (receipt_json (make_receipt d))
   | WriteRejected l' code \<Rightarrow> l' = l"
proof (cases "propose_receipt_append l d")
  case (WriteAccepted l' r ob)
  then show ?thesis using append_accepted [OF WriteAccepted] append_valid [OF WriteAccepted] by simp
next
  case (WriteNoOp l' r)
  then show ?thesis
    by (auto simp: propose_receipt_append_def Let_def split: if_splits option.splits dest: find_SomeD)
next
  case (WriteRejected l' code)
  then show ?thesis
    by (auto simp: propose_receipt_append_def Let_def split: if_splits option.splits)
qed

section \<open>Idempotency\<close>

text \<open>
  Retry. Once a draft has been appended, proposing it again, to the ledger after any number
  of further appends, is answered by \<^verbatim>\<open>no_op\<close> with the receipt written the first time.
\<close>

theorem receipt_retry_is_no_op:
  assumes "propose_receipt_append l d = WriteAccepted l' r ob"
    and "iterate receipt_step l' ds = Some l''"
  shows "propose_receipt_append l'' d = WriteNoOp l'' r"
proof -
  note a = append_accepted [OF assms(1)]
  have v: "ledger_valid l''" using receipt_log.iterate_inv [OF append_valid [OF assms(1)] assms(2)] .
  obtain xs where "ld_receipts l'' = ld_receipts l' @ xs"
    using receipt_log.iterate_appends [OF append_valid [OF assms(1)] assms(2)] by blast
  then have r: "r \<in> set (ld_receipts l'')" using a(4) by simp
  have "distinct (ids_of (ld_receipts l''))"
    using ledger_valid_spec [OF v] by (simp add: ledger_spec_def)
  then have "List.find (\<lambda>x. rd_id (rc_draft x) = rd_id d) (ld_receipts l'') = Some r"
    using distinct_map_find [OF _ r, of "\<lambda>x. rd_id (rc_draft x)"] a(2) by simp
  moreover have "is_closed (rd_mode d)" "rd_event d \<in> set RECEIPT_EVENTS"
    "list_all (\<lambda>b. is_closed (pb_kind b)) (rd_proofs d)"
    using assms(1) by (auto simp: propose_receipt_append_def Let_def split: if_splits)
  ultimately show ?thesis using v a(2) by (simp add: propose_receipt_append_def Let_def)
qed

section \<open>Completion only after submission\<close>

definition completions_submitted :: "receipt list \<Rightarrow> bool" where
  "completions_submitted rs \<longleftrightarrow>
     (\<forall>i<length rs. rd_event (rc_draft (rs ! i)) = ''dispatch_completed'' \<longrightarrow>
        (\<exists>j<i. rd_event (rc_draft (rs ! j)) = ''dispatch_submitted'' \<and>
           submission_identity (rc_draft (rs ! j)) = submission_identity (rc_draft (rs ! i))))"

lemma completions_step:
  assumes "propose_receipt_append l d = WriteAccepted l' r ob" and "completions_submitted (ld_receipts l)"
  shows "completions_submitted (ld_receipts l')"
proof -
  note a = append_accepted [OF assms(1)]
  have "\<exists>j<length (ld_receipts l). rd_event (rc_draft (ld_receipts l ! j)) = ''dispatch_submitted'' \<and>
     submission_identity (rc_draft (ld_receipts l ! j)) = submission_identity d"
    if "rd_event d = ''dispatch_completed''"
    using a(7) [OF that] by (auto simp: in_set_conv_nth)
  note last = this
  show ?thesis unfolding completions_submitted_def
  proof (intro allI impI)
    fix i
    assume i: "i < length (ld_receipts l')"
      "rd_event (rc_draft (ld_receipts l' ! i)) = ''dispatch_completed''"
    let ?P = "\<lambda>rs j. rd_event (rc_draft (rs ! j)) = ''dispatch_submitted'' \<and>
       submission_identity (rc_draft (rs ! j)) = submission_identity (rc_draft (ld_receipts l' ! i))"
    have "\<exists>j<i. ?P (ld_receipts l) j \<and> j < length (ld_receipts l)"
    proof (cases "i = length (ld_receipts l)")
      case True
      then show ?thesis using last i a(2,4) by auto
    next
      case False
      then have "i < length (ld_receipts l)" using i(1) a(4) by simp
      moreover from this obtain j where "j < i" "?P (ld_receipts l) j"
        using assms(2) i(2) a(4) unfolding completions_submitted_def by (auto simp: nth_append)
      ultimately show ?thesis by (intro exI [of _ j]) simp
    qed
    then obtain j where "j < i" "?P (ld_receipts l) j" "j < length (ld_receipts l)" by blast
    then show "\<exists>j<i. ?P (ld_receipts l') j" using a(4) by (intro exI [of _ j]) (simp add: nth_append)
  qed
qed

text \<open>
  C27. No completion without submission. In every ledger built by appends from an empty one, each
  \<^verbatim>\<open>dispatch_completed\<close> receipt is preceded by a \<^verbatim>\<open>dispatch_submitted\<close> receipt of the same
  installation, epoch, task, agent, role, work item, attempt, dispatch, generation, mode, payload
  and expected references.
\<close>

theorem completed_only_after_submitted:
  assumes "ld_receipts l = []" and "iterate receipt_step l ds = Some l'"
  shows "completions_submitted (ld_receipts l')"
proof -
  have "completions_submitted (ld_receipts l')"
    if "completions_submitted (ld_receipts l)" "iterate receipt_step l ds = Some l'" for l ds
    using that
    by (induction ds arbitrary: l) (auto split: option.splits dest!: receipt_stepD intro: completions_step)
  moreover have "completions_submitted (ld_receipts l)"
    using assms(1) by (simp add: completions_submitted_def)
  ultimately show ?thesis using assms(2) by blast
qed

section \<open>The hash chain\<close>

definition empty_ledger_value :: json where
  "empty_ledger_value =
     JObj [(''receipts'', JArr []), (''schema_version'', JStr ''valp-receipt-ledger-prefix.v1'')]"

definition chained :: "receipt list \<Rightarrow> bool" where
  "chained rs \<longleftrightarrow>
     (\<forall>i<length rs. rc_digest (rs ! i) = digest (receipt_body_json (rs ! i)) \<and>
        rd_prior (rc_draft (rs ! i)) = prior_of (take i rs))"

lemma chained_snoc:
  "chained (rs @ [r]) \<longleftrightarrow>
     chained rs \<and> rc_digest r = digest (receipt_body_json r) \<and> rd_prior (rc_draft r) = prior_of rs"
  by (auto simp: chained_def nth_append less_Suc_eq)

lemma ledger_valid_chained: "ledger_valid l \<Longrightarrow> chained (ld_receipts l)"
  using ledger_valid_spec [of l]
  by (simp add: ledger_spec_def chained_def receipt_placed_def receipt_valid_def)

lemma body_prior: "jget ''prior_receipt_digest'' (receipt_body_json r) = Some (JStr (rd_prior (rc_draft r)))"
  by (simp add: receipt_body_json_def receipt_entries_def Let_def)

lemma body_not_empty_value: "\<not> json_eq (receipt_body_json r) empty_ledger_value"
proof
  assume "json_eq (receipt_body_json r) empty_ledger_value"
  from json_eq_jget [OF this, of "''receipts''"] show False
    by (simp add: receipt_body_json_def receipt_entries_def empty_ledger_value_def Let_def opt_entry_def
        split: option.splits)
qed

text \<open>The texts that a ledger's digests are taken of.\<close>

definition digested :: "receipt list \<Rightarrow> json set" where
  "digested rs = insert empty_ledger_value (receipt_body_json ` set rs)"

lemma digested_snoc: "digested (rs @ [r]) = insert (receipt_body_json r) (digested rs)"
  by (auto simp: digested_def)

lemma chain_binds:
  assumes "chained rs" and "chained rs'" and "prior_of rs = prior_of rs'"
    and "\<And>v w. v \<in> digested rs \<Longrightarrow> w \<in> digested rs' \<Longrightarrow> \<not> sha_collision v w \<and> \<not> sha_collision w v"
  shows "list_all2 (\<lambda>r r'. json_eq (receipt_body_json r) (receipt_body_json r') \<and>
     rc_digest r = rc_digest r') rs rs'"
  using assms
proof (induction rs arbitrary: rs' rule: rev_induct)
  case Nil
  show ?case
  proof (cases rs' rule: rev_cases)
    case (snoc xs x)
    then have "digest empty_ledger_value = digest (receipt_body_json x)"
      using Nil.prems(2,3)
      by (simp add: prior_of_def chained_snoc EMPTY_RECEIPT_LEDGER_DIGEST_def empty_ledger_value_def)
    moreover have "\<not> sha_collision (receipt_body_json x) empty_ledger_value"
      using Nil.prems(4) [of empty_ledger_value "receipt_body_json x"] snoc by (simp add: digested_def)
    ultimately show ?thesis using digest_eqD body_not_empty_value by metis
  qed simp
next
  case (snoc r rs)
  show ?case
  proof (cases rs' rule: rev_cases)
    case Nil
    then have "digest empty_ledger_value = digest (receipt_body_json r)"
      using snoc.prems(1,3)
      by (simp add: prior_of_def chained_snoc EMPTY_RECEIPT_LEDGER_DIGEST_def empty_ledger_value_def)
    moreover have "\<not> sha_collision (receipt_body_json r) empty_ledger_value"
      using snoc.prems(4) [of "receipt_body_json r" empty_ledger_value] Nil by (simp add: digested_def)
    ultimately show ?thesis using digest_eqD body_not_empty_value by metis
  next
    case (snoc xs x)
    note rs' = this
    have dg: "rc_digest r = rc_digest x" "rc_digest r = digest (receipt_body_json r)"
      "rc_digest x = digest (receipt_body_json x)"
      using \<open>prior_of (rs @ [r]) = prior_of rs'\<close> snoc.prems(1,2) rs'
      by (simp_all add: prior_of_def chained_snoc)
    have "\<not> sha_collision (receipt_body_json r) (receipt_body_json x)"
      using snoc.prems(4) [of "receipt_body_json r" "receipt_body_json x"] rs'
      by (simp add: digested_def)
    then have eq: "json_eq (receipt_body_json r) (receipt_body_json x)"
      using digest_eqD dg by simp
    then have "rd_prior (rc_draft r) = rd_prior (rc_draft x)"
      using json_eq_field [OF eq body_prior body_prior] by simp
    then have "list_all2 (\<lambda>r r'. json_eq (receipt_body_json r) (receipt_body_json r') \<and>
        rc_digest r = rc_digest r') rs xs"
      using snoc.prems rs' by (intro snoc.IH) (auto simp: chained_snoc digested_snoc)
    then show ?thesis using eq dg(1) rs' by (simp add: list_all2_appendI)
  qed
qed

text \<open>
  The tail digest determines the ledger. Two valid ledgers with the same tail digest hold the
  same number of receipts, pairwise with the same canonical text and the same digest, or there is
  a collision of SHA-256 among the texts that the two ledgers digest: a receipt cannot be
  altered, dropped, inserted or reordered without changing the tail.
\<close>

theorem tail_digest_binds_ledger:
  assumes "ledger_valid l" and "ledger_valid l'" and "tail_digest l = tail_digest l'"
  shows "list_all2 (\<lambda>r r'. canonical_json (receipt_body_json r) = canonical_json (receipt_body_json r') \<and>
       rc_digest r = rc_digest r') (ld_receipts l) (ld_receipts l') \<or>
     (\<exists>v\<in>digested (ld_receipts l). \<exists>w\<in>digested (ld_receipts l'). sha_collision v w)"
proof (cases "\<exists>v\<in>digested (ld_receipts l). \<exists>w\<in>digested (ld_receipts l'). sha_collision v w")
  case False
  have "prior_of (ld_receipts l) = prior_of (ld_receipts l')"
    using assms(3) by (simp add: prior_of_def tail_digest_def split: if_splits)
  moreover have "\<not> sha_collision v w \<and> \<not> sha_collision w v"
    if "v \<in> digested (ld_receipts l)" "w \<in> digested (ld_receipts l')" for v w
    using False that by (metis sha_collision_def)
  ultimately show ?thesis
    using chain_binds [OF ledger_valid_chained [OF assms(1)] ledger_valid_chained [OF assms(2)]]
    by (simp add: canonical_json_eq_iff)
qed simp

end
