(* ===== verification/Json_Parse.thy ===== *)
theory Json_Parse
  imports Json
begin

text \<open>
  \<^verbatim>\<open>json.loads(payload.decode("utf-8"), object_pairs_hook=..., parse_constant=...)\<close> as
  \<^verbatim>\<open>KernelStore._parse\<close> and \<^verbatim>\<open>ReceiptStore._load_unlocked\<close> call it: strict UTF-8, the grammar of the
  library's scanner, objects with a repeated key refused, \<^verbatim>\<open>NaN\<close> and \<^verbatim>\<open>Infinity\<close> refused. \<open>None\<close>
  stands for the exceptions (\<^verbatim>\<open>UnicodeDecodeError\<close>, \<^verbatim>\<open>JSONDecodeError\<close>, \<^verbatim>\<open>ValueError\<close>), which the
  callers treat alike. A number with a fraction or an exponent is refused too: the library returns
  a float for it, and no field of a stored object may be one, so the callers refuse it a step later.

  The scanner has two units of fuel per character; \<open>scan_fuel\<close> says that more never helps.
  The main result is \<open>strict_loads_canonical\<close>: reading a canonical text gives back the value.
\<close>

section \<open>UTF-8\<close>

definition cont_byte :: "char \<Rightarrow> bool" where
  "cont_byte c \<longleftrightarrow> 128 \<le> (of_char c :: nat) \<and> (of_char c :: nat) \<le> 191"

fun utf8_valid :: "string \<Rightarrow> bool" where
  "utf8_valid [] = True"
| "utf8_valid (c # cs) =
     (let n = (of_char c :: nat) in
      if n < 128 then utf8_valid cs
      else if 194 \<le> n \<and> n \<le> 223
      then (case cs of d # ds \<Rightarrow> cont_byte d \<and> utf8_valid ds | [] \<Rightarrow> False)
      else if 224 \<le> n \<and> n \<le> 239
      then (case cs of
              d # e # es \<Rightarrow> cont_byte d \<and> cont_byte e \<and> utf8_valid es \<and>
                (n = 224 \<longrightarrow> 160 \<le> (of_char d :: nat)) \<and> (n = 237 \<longrightarrow> (of_char d :: nat) \<le> 159)
            | _ \<Rightarrow> False)
      else if 240 \<le> n \<and> n \<le> 244
      then (case cs of
              d # e # f # fs \<Rightarrow> cont_byte d \<and> cont_byte e \<and> cont_byte f \<and> utf8_valid fs \<and>
                (n = 240 \<longrightarrow> 144 \<le> (of_char d :: nat)) \<and> (n = 244 \<longrightarrow> (of_char d :: nat) \<le> 143)
            | _ \<Rightarrow> False)
      else False)"

definition utf8_bytes :: "nat \<Rightarrow> string" where
  "utf8_bytes u =
     (if u < 128 then [char_of u]
      else if u < 2048 then [char_of (192 + u div 64), char_of (128 + u mod 64)]
      else if u < 65536
      then [char_of (224 + u div 4096), char_of (128 + u div 64 mod 64), char_of (128 + u mod 64)]
      else [char_of (240 + u div 262144), char_of (128 + u div 4096 mod 64),
            char_of (128 + u div 64 mod 64), char_of (128 + u mod 64)])"

section \<open>Strings\<close>

definition hex_value :: "char \<Rightarrow> nat option" where
  "hex_value c =
     (let n = (of_char c :: nat) in
      if 48 \<le> n \<and> n \<le> 57 then Some (n - 48)
      else if 65 \<le> n \<and> n \<le> 70 then Some (n - 55)
      else if 97 \<le> n \<and> n \<le> 102 then Some (n - 87)
      else None)"

text \<open>\<^verbatim>\<open>_decode_uXXXX\<close>: four hexadecimal digits.\<close>

fun hex4 :: "string \<Rightarrow> (nat \<times> string) option" where
  "hex4 (a # b # c # d # r) =
     (case (hex_value a, hex_value b, hex_value c, hex_value d) of
        (Some w, Some x, Some y, Some z) \<Rightarrow> Some (((w * 16 + x) * 16 + y) * 16 + z, r)
      | _ \<Rightarrow> None)"
| "hex4 _ = None"

text \<open>The part of an escape after the \<^verbatim>\<open>u\<close>: a surrogate pair is one code point.\<close>

definition unicode_escape :: "string \<Rightarrow> (string \<times> string) option" where
  "unicode_escape s =
     (case hex4 s of
        None \<Rightarrow> None
      | Some (u, r) \<Rightarrow>
          if 55296 \<le> u \<and> u \<le> 56319 \<and> take 2 r = [backslash, CHR ''u'']
          then (case hex4 (drop 2 r) of
                  None \<Rightarrow> None
                | Some (v, r') \<Rightarrow>
                    if 56320 \<le> v \<and> v \<le> 57343
                    then Some (utf8_bytes (65536 + (u - 55296) * 1024 + (v - 56320)), r')
                    else Some (utf8_bytes u, r))
          else Some (utf8_bytes u, r))"

text \<open>\<^verbatim>\<open>BACKSLASH\<close> of the decoder.\<close>

definition unesc_table :: "(char \<times> char) list" where
  "unesc_table =
     [(dquote, dquote), (backslash, backslash), (CHR ''/'', CHR ''/''), (CHR ''b'', CHR 8),
      (CHR ''f'', CHR 12), (CHR ''n'', CHR 10), (CHR ''r'', CHR 13), (CHR ''t'', CHR 9)]"

lemma hex4_shorter: "hex4 s = Some (u, r) \<Longrightarrow> length r < length s"
  by (cases s rule: hex4.cases) (auto split: option.splits)

lemma unicode_escape_shorter: "unicode_escape s = Some (t, r) \<Longrightarrow> length r < length s"
  by (auto simp: unicode_escape_def split: option.splits if_splits dest!: hex4_shorter)

text \<open>\<^verbatim>\<open>scanstring\<close>, after the opening quote.\<close>

function scan_str :: "string \<Rightarrow> (string \<times> string) option" where
  "scan_str [] = None"
| "scan_str (c # cs) =
     (if c = dquote then Some ([], cs)
      else if c = backslash
      then (case cs of
              [] \<Rightarrow> None
            | d # ds \<Rightarrow>
                if d = CHR ''u''
                then (case unicode_escape ds of
                        None \<Rightarrow> None
                      | Some (t, r) \<Rightarrow> map_option (\<lambda>(s, q). (t @ s, q)) (scan_str r))
                else (case map_of unesc_table d of
                        None \<Rightarrow> None
                      | Some x \<Rightarrow> map_option (\<lambda>(s, q). (x # s, q)) (scan_str ds)))
      else if (of_char c :: nat) < 32 then None
      else map_option (\<lambda>(s, q). (c # s, q)) (scan_str cs))"
  by pat_completeness auto
termination
  by (relation "measure length") (auto dest!: unicode_escape_shorter)

declare scan_str.simps(2) [simp del]

lemma scan_str_shorter: "scan_str s = Some (t, r) \<Longrightarrow> length r < length s"
proof (induction s arbitrary: t r rule: scan_str.induct)
  case (2 c cs)
  then show ?case
    by (fastforce simp: scan_str.simps(2) [of c cs] split: if_splits list.splits option.splits
        dest: unicode_escape_shorter)
qed simp

section \<open>Numbers and values\<close>

definition is_space :: "char \<Rightarrow> bool" where
  "is_space c \<longleftrightarrow> c \<in> {CHR '' '', CHR 9, CHR 10, CHR 13}"

abbreviation skip_ws :: "string \<Rightarrow> string" where
  "skip_ws s \<equiv> dropWhile is_space s"

text \<open>An unsigned integer of the grammar: a zero, or digits that do not start with zero.\<close>

definition scan_nat :: "string \<Rightarrow> (nat \<times> string) option" where
  "scan_nat s =
     (case s of
        [] \<Rightarrow> None
      | c # cs \<Rightarrow>
          if c = CHR ''0'' then Some (0, cs)
          else if is_digit c then Some (str_nat (takeWhile is_digit s), dropWhile is_digit s)
          else None)"

definition float_follows :: "string \<Rightarrow> bool" where
  "float_follows r \<longleftrightarrow>
     (case r of [] \<Rightarrow> False | c # _ \<Rightarrow> c \<in> {CHR ''.'', CHR ''e'', CHR ''E''})"

definition scan_number :: "string \<Rightarrow> (json \<times> string) option" where
  "scan_number s =
     (let negative = (case s of c # _ \<Rightarrow> c = CHR ''-'' | [] \<Rightarrow> False) in
      case scan_nat (if negative then tl s else s) of
        None \<Rightarrow> None
      | Some (n, r) \<Rightarrow>
          if float_follows r then None
          else Some (JInt (if negative then - int n else int n), r))"

text \<open>\<^verbatim>\<open>_reject_pairs\<close> and \<^verbatim>\<open>_reject_duplicate_keys\<close>: the entries of an object, all keys different.\<close>

definition reject_pairs :: "(string \<times> json) list \<Rightarrow> (string \<times> json) list option" where
  "reject_pairs kvs = (if distinct (map fst kvs) then Some kvs else None)"

text \<open>
  \<^verbatim>\<open>scan_once\<close>, \<^verbatim>\<open>JSONArray\<close> and \<^verbatim>\<open>JSONObject\<close>. \<open>scan_elements\<close> reads the elements of an array up to
  and with the closing bracket, \<open>scan_members\<close> the members of an object, each from its first
  character on.
\<close>

fun scan_value :: "nat \<Rightarrow> string \<Rightarrow> (json \<times> string) option"
  and scan_elements :: "nat \<Rightarrow> string \<Rightarrow> (json list \<times> string) option"
  and scan_members :: "nat \<Rightarrow> string \<Rightarrow> ((string \<times> json) list \<times> string) option" where
  "scan_value 0 s = None"
| "scan_value (Suc n) s =
     (case s of
        [] \<Rightarrow> None
      | c # cs \<Rightarrow>
          if c = dquote then map_option (\<lambda>(t, r). (JStr t, r)) (scan_str cs)
          else if c = CHR ''{''
          then (case skip_ws cs of
                  [] \<Rightarrow> None
                | d # ds \<Rightarrow>
                    if d = CHR ''}'' then Some (JObj [], ds)
                    else (case scan_members n (d # ds) of
                            None \<Rightarrow> None
                          | Some (kvs, r) \<Rightarrow> map_option (\<lambda>obj. (JObj obj, r)) (reject_pairs kvs)))
          else if c = CHR ''[''
          then (case skip_ws cs of
                  [] \<Rightarrow> None
                | d # ds \<Rightarrow>
                    if d = CHR '']'' then Some (JArr [], ds)
                    else map_option (\<lambda>(xs, r). (JArr xs, r)) (scan_elements n (d # ds)))
          else if take 4 s = ''null'' then Some (JNull, drop 4 s)
          else if take 4 s = ''true'' then Some (JBool True, drop 4 s)
          else if take 5 s = ''false'' then Some (JBool False, drop 5 s)
          else scan_number s)"
| "scan_elements 0 s = None"
| "scan_elements (Suc n) s =
     (case scan_value n s of
        None \<Rightarrow> None
      | Some (x, r) \<Rightarrow>
          (case skip_ws r of
             [] \<Rightarrow> None
           | c # cs \<Rightarrow>
               if c = CHR '']'' then Some ([x], cs)
               else if c = CHR '',''
               then map_option (\<lambda>(xs, q). (x # xs, q)) (scan_elements n (skip_ws cs))
               else None))"
| "scan_members 0 s = None"
| "scan_members (Suc n) s =
     (case s of
        [] \<Rightarrow> None
      | c # cs \<Rightarrow>
          if c \<noteq> dquote then None
          else (case scan_str cs of
            None \<Rightarrow> None
          | Some (k, r) \<Rightarrow>
              (case skip_ws r of
                 [] \<Rightarrow> None
               | d # ds \<Rightarrow>
                   if d \<noteq> CHR '':'' then None
                   else (case scan_value n (skip_ws ds) of
                     None \<Rightarrow> None
                   | Some (x, q) \<Rightarrow>
                       (case skip_ws q of
                          [] \<Rightarrow> None
                        | e # es \<Rightarrow>
                            if e = CHR ''}'' then Some ([(k, x)], es)
                            else if e = CHR '',''
                            then map_option (\<lambda>(kvs, z). ((k, x) # kvs, z)) (scan_members n (skip_ws es))
                            else None)))))"

definition strict_loads :: "string \<Rightarrow> json option" where
  "strict_loads bs =
     (if \<not> utf8_valid bs then None
      else case scan_value (Suc (2 * length bs)) (skip_ws bs) of
        None \<Rightarrow> None
      | Some (v, r) \<Rightarrow> if skip_ws r = [] then Some v else None)"

section \<open>Enough fuel\<close>

lemma skip_ws_le: "length (skip_ws s) \<le> length s"
  by (rule length_dropWhile_le)

lemma skip_ws_Cons: "skip_ws s = c # cs \<Longrightarrow> length cs < length s"
  using skip_ws_le [of s] by simp

lemma scan_nat_shorter: "scan_nat s = Some (n, r) \<Longrightarrow> length r < length s"
  using length_dropWhile_le [of is_digit "tl s"]
  by (auto simp: scan_nat_def split: list.splits if_splits)

lemma scan_number_shorter: "scan_number s = Some (v, r) \<Longrightarrow> length r < length s"
  by (cases s)
     (auto simp: scan_number_def Let_def split: option.splits if_splits dest!: scan_nat_shorter)

lemma scan_shorter:
  "scan_value n s = Some (v, r) \<Longrightarrow> length r < length s"
  "scan_elements n s = Some (xs, r) \<Longrightarrow> length r < length s"
  "scan_members n s = Some (kvs, r) \<Longrightarrow> length r < length s"
proof (induction n s and n s and n s arbitrary: v r and xs r and kvs r
    rule: scan_value_scan_elements_scan_members.induct)
  case (2 n s)
  from 2(3) obtain c cs where s: "s = c # cs" by (auto split: list.splits)
  consider (str) "c = dquote" | (obj) "c = CHR ''{''" | (arr) "c = CHR ''[''"
    | (other) "c \<noteq> dquote" "c \<noteq> CHR ''{''" "c \<noteq> CHR ''[''" by blast
  then show ?case
  proof cases
    case str
    then show ?thesis using 2(3) s by (auto dest: scan_str_shorter)
  next
    case obj
    then have nd: "c \<noteq> dquote" by (simp add: dquote_def)
    with 2(3) s obj obtain d ds where d: "skip_ws cs = d # ds" by (auto split: list.splits)
    have IH: "length q < length (d # ds)" if "d \<noteq> CHR ''}''" "scan_members n (d # ds) = Some (kvs, q)" for kvs q
      using 2(1) [OF s nd obj d that(1,2)] .
    show ?thesis
      using 2(3) s obj nd d skip_ws_Cons [OF d] skip_ws_le [of cs] IH
      by (auto split: if_splits option.splits)
  next
    case arr
    then have nd: "c \<noteq> dquote" "c \<noteq> CHR ''{''" by (simp_all add: dquote_def)
    with 2(3) s arr obtain d ds where d: "skip_ws cs = d # ds" by (auto split: list.splits)
    have IH: "length q < length (d # ds)" if "d \<noteq> CHR '']''" "scan_elements n (d # ds) = Some (ys, q)" for ys q
      using 2(2) [OF s nd arr d that(1,2)] .
    show ?thesis
      using 2(3) s arr nd d skip_ws_Cons [OF d] skip_ws_le [of cs] IH
      by (auto split: if_splits)
  next
    case other
    then show ?thesis
      using 2(3) s scan_number_shorter [of s v r] by (auto split: if_splits)
  qed
next
  case (4 n s)
  show ?case
  proof (cases "scan_value n s")
    case (Some p)
    obtain x q where p: "p = (x, q)" by (cases p)
    then have q: "length q < length s" using 4(1) Some by blast
    obtain c cs where c: "skip_ws q = c # cs" using 4(3) Some p by (auto split: list.splits)
    show ?thesis
      using 4(3) Some p c q skip_ws_Cons [OF c] skip_ws_le [of cs]
        4(2) [OF Some, unfolded p, OF refl c]
      by (fastforce split: if_splits)
  qed (use 4 in simp)
next
  case (6 n s)
  show ?case
  proof -
    from 6(3) obtain cs k q ds x p e es where
      s: "s = dquote # cs" "scan_str cs = Some (k, q)" "skip_ws q = CHR '':'' # ds"
      "scan_value n (skip_ws ds) = Some (x, p)" "skip_ws p = e # es"
      by (auto split: list.splits if_splits option.splits)
    have le: "length es < length s"
      using scan_str_shorter [OF s(2)] skip_ws_Cons [OF s(3)] skip_ws_le [of ds] skip_ws_Cons [OF s(5)]
        6(1) [OF s(1) _ s(2) refl s(3) _ s(4)] s(1) by simp
    show ?thesis
      using 6(3) s le skip_ws_le [of es] 6(2) [OF s(1) _ s(2) refl s(3) _ s(4) refl s(5)]
      by (fastforce split: if_splits)
  qed
qed simp_all

text \<open>Two units of fuel per character are enough: any larger amount gives the same answer.\<close>

lemma scan_fuel:
  "2 * length s < n \<Longrightarrow> n \<le> m \<Longrightarrow> scan_value m s = scan_value n s"
  "2 * length s + 1 < n \<Longrightarrow> n \<le> m \<Longrightarrow> scan_elements m s = scan_elements n s"
  "2 * length s + 1 < n \<Longrightarrow> n \<le> m \<Longrightarrow> scan_members m s = scan_members n s"
proof (induction n s and n s and n s arbitrary: m and m and m
    rule: scan_value_scan_elements_scan_members.induct)
  case (2 n s)
  from 2(4) obtain k where m: "m = Suc k" "n \<le> k" by (cases m) auto
  show ?case
  proof (cases s)
    case (Cons c cs)
    have members: "scan_members k (d # ds) = scan_members n (d # ds)"
      if "c \<noteq> dquote" "c = CHR ''{''" "skip_ws cs = d # ds" "d \<noteq> CHR ''}''" for d ds
      using 2(1) [OF Cons that, of k] 2(3) skip_ws_Cons [OF that(3)] m(2) Cons by simp
    have elements: "scan_elements k (d # ds) = scan_elements n (d # ds)"
      if "c \<noteq> dquote" "c \<noteq> CHR ''{''" "c = CHR ''[''" "skip_ws cs = d # ds" "d \<noteq> CHR '']''" for d ds
      using 2(2) [OF Cons that, of k] 2(3) skip_ws_Cons [OF that(4)] m(2) Cons by simp
    show ?thesis
    proof (cases "skip_ws cs")
      case Nil
      show ?thesis unfolding m(1) Cons by (simp add: Nil del: dropWhile_eq_Nil_conv)
    next
      case (Cons d ds)
      note eqs = members [OF _ _ Cons] elements [OF _ _ _ Cons]
      show ?thesis
        unfolding m(1) \<open>s = c # cs\<close> by (simp add: Cons dquote_def eqs cong: if_cong)
    qed
  qed (simp add: m(1))
next
  case (4 n s)
  from 4(4) obtain k where m: "m = Suc k" "n \<le> k" by (cases m) auto
  have v: "scan_value k s = scan_value n s" using 4(1) [of k] 4(3) m(2) by simp
  have e: "scan_elements k (skip_ws cs) = scan_elements n (skip_ws cs)"
    if "scan_value n s = Some (x, r)" "skip_ws r = c # cs" "c \<noteq> CHR '']''" "c = CHR '',''" for x r c cs
    using 4(2) [OF that(1) refl that(2-4), of k] 4(3) m(2) scan_shorter(1) [OF that(1)]
      skip_ws_Cons [OF that(2)] skip_ws_le [of cs] by simp
  show ?case
  proof (cases "scan_value n s")
    case (Some p)
    obtain x r where p: "p = (x, r)" by (cases p)
    show ?thesis
    proof (cases "skip_ws r")
      case Nil
      show ?thesis
        unfolding m(1) by (simp add: v Some p Nil del: dropWhile_eq_Nil_conv)
    next
      case (Cons c cs)
      then show ?thesis
        unfolding m(1) scan_elements.simps v Some p using e [OF Some [unfolded p] Cons] by simp
    qed
  qed (simp add: m(1) v)
next
  case (6 n s)
  from 6(4) obtain k where m: "m = Suc k" "n \<le> k" by (cases m) auto
  have v: "scan_value k (skip_ws ds) = scan_value n (skip_ws ds)"
    if "s = c # cs" "\<not> c \<noteq> dquote" "scan_str cs = Some (j, r)" "skip_ws r = d # ds" "\<not> d \<noteq> CHR '':''"
    for c cs j r d ds
    using 6(1) [OF that(1-3) refl that(4,5), of k] 6(3) m(2) that(1) scan_str_shorter [OF that(3)]
      skip_ws_Cons [OF that(4)] skip_ws_le [of ds] by simp
  have w: "scan_members k (skip_ws es) = scan_members n (skip_ws es)"
    if "s = c # cs" "\<not> c \<noteq> dquote" "scan_str cs = Some (j, r)" "skip_ws r = d # ds" "\<not> d \<noteq> CHR '':''"
      "scan_value n (skip_ws ds) = Some (x, q)" "skip_ws q = e # es" "e \<noteq> CHR ''}''" "e = CHR '',''"
    for c cs j r d ds x q e es
    using 6(2) [OF that(1-3) refl that(4-6) refl that(7-9), of k] 6(3) m(2) that(1) scan_str_shorter [OF that(3)]
      skip_ws_Cons [OF that(4)] skip_ws_le [of ds] scan_shorter(1) [OF that(6)]
      skip_ws_Cons [OF that(7)] skip_ws_le [of es] by simp
  show ?case
  proof (cases "\<exists>cs j r d ds. s = dquote # cs \<and> scan_str cs = Some (j, r) \<and> skip_ws r = CHR '':'' # ds")
    case False
    then have "scan_members (Suc i) s = None" for i
      by (auto split: option.splits list.splits if_splits)
    then show ?thesis unfolding m(1) by (simp only:)
  next
    case True
    then obtain cs j r ds where s: "s = dquote # cs" "scan_str cs = Some (j, r)" "skip_ws r = CHR '':'' # ds"
      by blast
    have v': "scan_value k (skip_ws ds) = scan_value n (skip_ws ds)"
      by (rule v [OF s(1) _ s(2,3)]) simp_all
    show ?thesis
    proof (cases "scan_value n (skip_ws ds)")
      case None
      then show ?thesis unfolding m(1) s(1) by (simp add: s(2,3) v')
    next
      case (Some p)
      obtain x q where p: "p = (x, q)" by (cases p)
      show ?thesis
      proof (cases "skip_ws q")
        case Nil
        show ?thesis
          unfolding m(1) s(1) by (simp add: s(2,3) v' Some p Nil del: dropWhile_eq_Nil_conv)
      next
        case (Cons e es)
        note w' = w [OF s(1) _ s(2,3) _ Some [unfolded p] Cons]
        show ?thesis
          unfolding m(1) s(1) using w' by (simp add: s(2,3) v' Some p Cons)
      qed
    qed
  qed
qed simp_all

section \<open>Reading what was written\<close>

lemma hex_value_hex_char:
  assumes "0 \<le> i"
  shows "hex_value (hex_char i) = Some (nat (i mod 16))"
proof -
  have "i mod 16 \<in> {0..15}" by simp
  then have "nat (i mod 16) \<in> {0..<16}" by (auto simp: nat_less_iff)
  moreover have "\<forall>j\<in>{0..<16}. hex_value (hex_digits ! j) = Some j" by code_simp
  ultimately show ?thesis by (auto simp: hex_char_def)
qed

lemma backslash_ne_dquote [simp]: "backslash \<noteq> dquote"
  by (simp add: backslash_def dquote_def)

lemma scan_str_escaped:
  "scan_str (esc_char c @ r) = map_option (\<lambda>(s, q). (c # s, q)) (scan_str r)"
proof (cases "map_of esc_table c")
  case (Some x)
  then have "map_of unesc_table x = Some c" "x \<noteq> CHR ''u''"
    by (auto simp: esc_table_def unesc_table_def dquote_def backslash_def split: if_splits)
  then show ?thesis
    using Some by (simp add: esc_char_def scan_str.simps(2) [of backslash])
next
  case None
  then have c: "c \<noteq> backslash" "c \<noteq> dquote" by (auto dest: esc_table_None)
  show ?thesis
  proof (cases "(of_char c :: nat) < 32")
    case False
    then show ?thesis using None c by (simp add: esc_char_def scan_str.simps(2))
  next
    case True
    have z: "hex_value (CHR ''0'') = Some 0" by code_simp
    have i: "(of_char c :: int) = int (of_char c)" by (simp only: of_nat_of_char)
    have "nat ((of_char c :: int) div 16 mod 16) * 16 + nat ((of_char c :: int) mod 16) = of_char c"
      using True unfolding i by (simp add: nat_mod_distrib nat_div_distrib)
    moreover have "(0 :: int) \<le> of_char c" unfolding i by simp
    then have "hex_value (hex_char (of_char c div 16)) = Some (nat ((of_char c :: int) div 16 mod 16))"
      "hex_value (hex_char (of_char c)) = Some (nat ((of_char c :: int) mod 16))"
      by (simp_all add: hex_value_hex_char)
    ultimately have "unicode_escape (CHR ''0'' # CHR ''0'' # hex_char (of_char c div 16) # hex_char (of_char c) # r)
        = Some ([c], r)"
      using True by (simp add: unicode_escape_def z utf8_bytes_def)
    then show ?thesis
      using None True
      by (simp add: esc_char_def scan_str.simps(2) [of backslash])
  qed
qed

lemma scan_str_quoted: "scan_str (concat (map esc_char s) @ dquote # r) = Some (s, r)"
  by (induction s) (simp_all add: scan_str.simps(2) scan_str_escaped)

lemma nat_str_leading: "0 < n \<Longrightarrow> hd (nat_str n) \<noteq> CHR ''0''"
proof (induction n rule: nat_str.induct)
  case (1 n)
  show ?case
  proof (cases "n < 10")
    case True
    with 1 have "(of_char (digit_char n) :: nat) \<noteq> of_char (CHR ''0'')"
      by (simp add: of_char_digit_char)
    then show ?thesis using True by (subst nat_str.simps) auto
  next
    case False
    with 1 have "hd (nat_str (n div 10)) \<noteq> CHR ''0''" by simp
    then show ?thesis using False nat_str_nonempty [of "n div 10"] by (subst nat_str.simps) simp
  qed
qed

lemma scan_nat_written: "stops r \<Longrightarrow> scan_nat (nat_str n @ r) = Some (n, r)"
proof -
  assume r: "stops r"
  show ?thesis
  proof (cases "n = 0")
    case True
    moreover have "nat_str 0 = ''0''" by code_simp
    ultimately show ?thesis by (simp add: scan_nat_def)
  next
    case False
    then obtain c cs where c: "nat_str n = c # cs" "c \<noteq> CHR ''0''" "is_digit c"
      using nat_str_leading [of n] hd_nat_str [of n] by fastforce
    then show ?thesis
      using takeWhile_digits [OF nat_str_digits [of n] r] str_nat_nat_str [of n]
      by (simp add: scan_nat_def)
  qed
qed

lemma scan_number_written: "stops r \<Longrightarrow> scan_number (int_str i @ r) = Some (JInt i, r)"
proof -
  assume r: "stops r"
  have f: "\<not> float_follows r" using r by (auto simp: float_follows_def stops_def split: list.splits)
  obtain c cs where c: "nat_str (nat i) = c # cs" "is_digit c" using hd_nat_str by blast
  then have "c \<noteq> CHR ''-''" by (auto simp: is_digit_def)
  then show ?thesis
    using scan_nat_written [OF r, of "nat i"] scan_nat_written [OF r, of "nat (- i)"] f c
    by (auto simp: scan_number_def int_str_def Let_def)
qed

text \<open>Objects without repeated keys, all the way down; this is what Python dictionaries are.\<close>

fun keys_once :: "json \<Rightarrow> bool" where
  "keys_once JNull = True"
| "keys_once (JBool b) = True"
| "keys_once (JInt i) = True"
| "keys_once (JStr s) = True"
| "keys_once (JArr xs) = (\<forall>x\<in>set xs. keys_once x)"
| "keys_once (JObj kvs) = (distinct (map fst kvs) \<and> (\<forall>e\<in>set kvs. keys_once (snd e)))"

definition reads :: "json \<Rightarrow> bool" where
  "reads v \<longleftrightarrow> (\<forall>n r. 2 * length (show_json v) < n \<longrightarrow> stops r \<longrightarrow> scan_value n (show_json v @ r) = Some (v, r))"

lemma show_json_first: "\<exists>c cs. show_json v = c # cs \<and> \<not> is_space c \<and> c \<noteq> CHR '']'' \<and> c \<noteq> CHR ''}''"
proof (cases v)
  case (JInt i)
  then show ?thesis using hd_int_str [of i] by (auto simp: is_space_def is_digit_def)
qed (simp_all add: is_space_def quote_def dquote_def show_json_JObj)

lemma skip_ws_show: "skip_ws (show_json v @ r) = show_json v @ r"
  using show_json_first [of v] by auto

lemma commas_Cons2: "commas (x # xs) = x @ (if xs = [] then [] else CHR '','' # commas xs)"
  by (cases xs) simp_all

lemma skip_ws_commas:
  "xs \<noteq> [] \<Longrightarrow> skip_ws (commas (map show_json xs) @ r) = commas (map show_json xs) @ r"
  using show_json_first [of "hd xs"] by (cases xs) (auto simp: commas_Cons2)

lemma scan_elements_written:
  assumes "\<forall>x\<in>set xs. reads x" and "xs \<noteq> []" and "2 * length (commas (map show_json xs)) + 1 < n"
  shows "scan_elements n (commas (map show_json xs) @ CHR '']'' # r) = Some (xs, r)"
  using assms
proof (induction xs arbitrary: n)
  case (Cons x xs)
  then obtain m where n: "n = Suc m" by (cases n) auto
  let ?r = "(if xs = [] then [] else CHR '','' # commas (map show_json xs)) @ CHR '']'' # r"
  have shown: "commas (map show_json (x # xs)) @ CHR '']'' # r = show_json x @ ?r"
    by (simp add: commas_Cons2)
  have "stops ?r" by simp
  moreover have "2 * length (show_json x) < m" using Cons.prems(3) n by (simp add: commas_Cons2)
  ultimately have "scan_value m (show_json x @ ?r) = Some (x, ?r)"
    using Cons.prems(1) by (simp add: reads_def)
  then show ?case
    unfolding shown n
    using Cons.IH [of m] Cons.prems n
    by (cases "xs = []") (simp_all add: is_space_def skip_ws_commas commas_Cons2)
qed simp

lemma reads_JArr:
  assumes "\<forall>x\<in>set xs. reads x"
  shows "reads (JArr xs)"
  unfolding reads_def
proof (intro allI impI)
  fix n r assume n: "2 * length (show_json (JArr xs)) < n" and "stops r"
  then obtain m where m: "n = Suc m" "2 * length (commas (map show_json xs)) + 3 < m"
    by (cases n) auto
  have ne: "CHR ''['' \<noteq> dquote" by (simp add: dquote_def)
  show "scan_value n (show_json (JArr xs) @ r) = Some (JArr xs, r)"
  proof (cases xs)
    case Nil
    then show ?thesis by (simp add: m(1) ne is_space_def)
  next
    case (Cons y ys)
    obtain c cs where c: "show_json y = c # cs" "\<not> is_space c" "c \<noteq> CHR '']''" using show_json_first by blast
    have "scan_elements m (commas (map show_json xs) @ CHR '']'' # r) = Some (xs, r)"
      using scan_elements_written [OF assms] Cons m(2) by simp
    then show ?thesis
      using c by (simp add: m(1) ne Cons commas_Cons2)
  qed
qed

lemma skip_ws_entries:
  "xs \<noteq> [] \<Longrightarrow> skip_ws (commas (map show_entry xs) @ r) = commas (map show_entry xs) @ r"
  by (cases xs)
     (auto simp: commas_Cons2 show_entry_def quote_def dquote_def is_space_def split: prod.splits)

lemma scan_members_written:
  assumes "\<forall>e\<in>set kvs. reads (snd e)" and "kvs \<noteq> []" and "2 * length (commas (map show_entry kvs)) + 1 < n"
  shows "scan_members n (commas (map show_entry kvs) @ CHR ''}'' # r) = Some (kvs, r)"
  using assms
proof (induction kvs arbitrary: n)
  case (Cons e kvs)
  obtain k x where e: "e = (k, x)" by (cases e)
  from Cons obtain m where n: "n = Suc m" by (cases n) auto
  let ?r = "(if kvs = [] then [] else CHR '','' # commas (map show_entry kvs)) @ CHR ''}'' # r"
  have shown: "commas (map show_entry (e # kvs)) @ CHR ''}'' # r =
      dquote # concat (map esc_char k) @ dquote # CHR '':'' # show_json x @ ?r"
    by (simp add: commas_Cons2 e show_entry_def quote_def)
  have "stops ?r" by simp
  moreover have "2 * length (show_json x) < m"
    using Cons.prems(3) n by (simp add: commas_Cons2 e show_entry_def)
  ultimately have "scan_value m (skip_ws (show_json x @ ?r)) = Some (x, ?r)"
    using Cons.prems(1) by (simp add: reads_def e skip_ws_show)
  then show ?case
    unfolding shown n
    using Cons.IH [of m] Cons.prems n
    by (cases "kvs = []") (simp_all add: is_space_def scan_str_quoted e skip_ws_entries commas_Cons2)
qed simp

lemma reads_JObj:
  assumes "\<forall>e\<in>set kvs. reads (snd e)" and "distinct (map fst kvs)"
  shows "reads (JObj kvs)"
  unfolding reads_def
proof (intro allI impI)
  fix n r assume n: "2 * length (show_json (JObj kvs)) < n" and "stops r"
  then obtain m where m: "n = Suc m" "2 * length (commas (map show_entry kvs)) + 3 < m"
    by (cases n) (auto simp: show_json_JObj)
  have ne: "CHR ''{'' \<noteq> dquote" by (simp add: dquote_def)
  show "scan_value n (show_json (JObj kvs) @ r) = Some (JObj kvs, r)"
  proof (cases kvs)
    case Nil
    then show ?thesis by (simp add: m(1) ne is_space_def show_json_JObj)
  next
    case (Cons y ys)
    have c: "\<exists>cs. show_entry y = dquote # cs" by (auto simp: show_entry_def quote_def split: prod.splits)
    have "scan_members m (commas (map show_entry kvs) @ CHR ''}'' # r) = Some (kvs, r)"
      using scan_members_written [OF assms(1)] Cons m(2) by simp
    then show ?thesis
      using c assms(2)
      by (auto simp: m(1) ne Cons commas_Cons2 show_json_JObj is_space_def dquote_def reject_pairs_def)
  qed
qed

lemma reads_atoms: "reads JNull" "reads (JBool b)" "reads (JInt i)" "reads (JStr s)"
proof -
  have other: "c \<noteq> dquote \<and> c \<noteq> CHR ''{'' \<and> c \<noteq> CHR ''['' \<and> c \<noteq> CHR ''n'' \<and> c \<noteq> CHR ''t'' \<and> c \<noteq> CHR ''f''"
    if "is_digit c \<or> c = CHR ''-''" for c
    using that by (auto simp: is_digit_def dquote_def)
  have word: "reads v" if "\<And>m r. scan_value (Suc m) (show_json v @ r) = Some (v, r)" for v
    unfolding reads_def using that by (metis Suc_pred' gr_zeroI not_less_zero)
  show "reads JNull" "reads (JBool b)" "reads (JStr s)"
    by (rule word, simp add: dquote_def quote_def scan_str_quoted [unfolded dquote_def])+
  show "reads (JInt i)"
    unfolding reads_def
  proof (intro allI impI)
    fix n r assume "2 * length (show_json (JInt i)) < n" and r: "stops r"
    then obtain m where n: "n = Suc m" by (cases n) auto
    obtain c cs where c: "int_str i = c # cs" "is_digit c \<or> c = CHR ''-''" using hd_int_str by blast
    show "scan_value n (show_json (JInt i) @ r) = Some (JInt i, r)"
      using scan_number_written [OF r, of i] other [OF c(2)] unfolding n by (simp add: c(1))
  qed
qed

lemma reads_all: "keys_once v \<Longrightarrow> reads v"
  by (induction v rule: keys_once.induct) (simp_all add: reads_atoms reads_JArr reads_JObj)

lemma keys_once_norm: "keys_once v \<Longrightarrow> keys_once (norm v)"
proof (induction v rule: keys_once.induct)
  case (6 kvs)
  have "set (map fst (sort_key fst (map (map_prod id norm) kvs))) = set (map fst kvs)" by force
  moreover have "distinct (map fst (sort_key fst (map (map_prod id norm) kvs)))"
  proof -
    have "map fst (map (map_prod id norm) kvs) = map fst kvs" by simp
    then have "mset (map fst (sort_key fst (map (map_prod id norm) kvs))) = mset (map fst kvs)"
      by (metis mset_map mset_sort)
    then show ?thesis using 6(2) mset_eq_imp_distinct_iff by fastforce
  qed
  ultimately show ?case using 6 by auto
qed auto

lemma utf8_valid_LF: "utf8_valid (s @ [CHR 10]) = utf8_valid s"
  by (induction s rule: utf8_valid.induct)
     (auto simp: Let_def cont_byte_def split: list.splits)

lemma readsD: "reads v \<Longrightarrow> 2 * length (show_json v) < n \<Longrightarrow> stops r \<Longrightarrow>
    scan_value n (show_json v @ r) = Some (v, r)"
  by (simp add: reads_def)

text \<open>Reading a canonical text, with or without its line feed, gives back the value with the
  entries of its objects sorted.\<close>

lemma strict_loads_dumps:
  assumes "keys_once v" and "utf8_valid (dumps v)" and "r = [] \<or> r = [CHR 10]"
  shows "strict_loads (dumps v @ r) = Some (norm v)"
proof -
  have norm: "reads (norm v)" using reads_all keys_once_norm assms(1) by blast
  have "utf8_valid (dumps v @ r)" using assms(2,3) by (elim disjE) (simp_all only: append_Nil2 utf8_valid_LF)
  moreover have "scan_value (Suc (2 * length (dumps v @ r))) (skip_ws (dumps v @ r)) = Some (norm v, r)"
  proof -
    have "stops r" using assms(3) by auto
    moreover have "2 * length (show_json (norm v)) < Suc (2 * length (show_json (norm v) @ r))"
      by simp
    ultimately show ?thesis unfolding dumps_show skip_ws_show using readsD [OF norm] by blast
  qed
  moreover have "skip_ws r = []" using assms(3) by (auto simp: is_space_def)
  ultimately show ?thesis by (simp add: strict_loads_def)
qed

lemma strict_loads_canonical:
  assumes "keys_once v" and "utf8_valid (canonical_json v)"
  shows "strict_loads (canonical_json v) = Some (norm v)"
  using strict_loads_dumps [OF assms(1), of "[CHR 10]"] assms(2)
  by (simp add: canonical_json_def utf8_valid_LF)

end
