(* ===== verification/Json_Fields.thy ===== *)
theory Json_Fields
  imports Json_Parse Kernel_Canonical
begin

text \<open>
  How the stores take decoded JSON apart: the shape test (\<^verbatim>\<open>_shape\<close> of \<^verbatim>\<open>kernel_store.py\<close>,
  \<^verbatim>\<open>_require_keys\<close> of \<^verbatim>\<open>receipt_store.py\<close>), \<^verbatim>\<open>item[key]\<close>, \<^verbatim>\<open>item.get(key)\<close>, enum construction and
  arrays. The source stores some values without looking at their type, and the validity tests that
  follow refuse an object that holds one of another type. The model's records are typed, so here
  such a value is refused where it is read, with a \<open>TypeError\<close>.

  A decoder sees an object only through lookups and the set of its keys, so it cannot tell two
  values that differ in the order of entries (\<open>norm_inv\<close>).
\<close>

section \<open>Reading\<close>

definition keys :: "json \<Rightarrow> string list" where
  "keys v = (case v of JObj kvs \<Rightarrow> map fst kvs | _ \<Rightarrow> [])"

fun is_obj :: "json \<Rightarrow> bool" where
  "is_obj (JObj _) = True"
| "is_obj _ = False"

definition shape :: "string list \<Rightarrow> string list \<Rightarrow> json \<Rightarrow> unit res" where
  "shape required optional v =
     (if is_obj v \<and> set required \<subseteq> set (keys v) \<and> set (keys v) \<subseteq> set required \<union> set optional
      then Inr () else Inl (ValueError ''unexpected object shape''))"

definition item :: "string \<Rightarrow> (json \<Rightarrow> 'a res) \<Rightarrow> json \<Rightarrow> 'a res" where
  "item k d v = (case jget k v of None \<Rightarrow> Inl (KeyError k) | Some x \<Rightarrow> d x)"

text \<open>\<^verbatim>\<open>d(item[key]) if key in item else None\<close>, and \<^verbatim>\<open>item.get(key)\<close>, where \<^verbatim>\<open>null\<close> decodes as \<^verbatim>\<open>None\<close>.\<close>

definition opt_item :: "string \<Rightarrow> (json \<Rightarrow> 'a res) \<Rightarrow> json \<Rightarrow> 'a option res" where
  "opt_item k d v = (case jget k v of None \<Rightarrow> Inr None | Some x \<Rightarrow> bind_res (d x) (\<lambda>y. Inr (Some y)))"

definition get_item :: "string \<Rightarrow> (json \<Rightarrow> 'a res) \<Rightarrow> json \<Rightarrow> 'a option res" where
  "get_item k d v =
     (case jget k v of
        None \<Rightarrow> Inr None
      | Some x \<Rightarrow> if x = JNull then Inr None else bind_res (d x) (\<lambda>y. Inr (Some y)))"

text \<open>\<^verbatim>\<open>item.get(key, [])\<close>.\<close>

definition list_item :: "string \<Rightarrow> (json \<Rightarrow> 'a list res) \<Rightarrow> json \<Rightarrow> 'a list res" where
  "list_item k d v = (case jget k v of None \<Rightarrow> Inr [] | Some x \<Rightarrow> d x)"

fun map_res :: "('a \<Rightarrow> 'b res) \<Rightarrow> 'a list \<Rightarrow> 'b list res" where
  "map_res f [] = Inr []"
| "map_res f (x # xs) = bind_res (f x) (\<lambda>y. bind_res (map_res f xs) (\<lambda>ys. Inr (y # ys)))"

fun as_list :: "(json \<Rightarrow> 'a res) \<Rightarrow> json \<Rightarrow> 'a list res" where
  "as_list d (JArr xs) = map_res d xs"
| "as_list d _ = Inl (ValueError ''array expected'')"

fun as_int :: "json \<Rightarrow> int res" where
  "as_int (JInt i) = Inr i"
| "as_int _ = Inl (TypeError ''integer expected'')"

fun as_str :: "json \<Rightarrow> string res" where
  "as_str (JStr s) = Inr s"
| "as_str _ = Inl (TypeError ''string expected'')"

text \<open>\<^verbatim>\<open>SomeEnum(value)\<close> on a decoded value.\<close>

fun as_enum :: "('a \<Rightarrow> string) \<Rightarrow> 'a list \<Rightarrow> json \<Rightarrow> 'a res" where
  "as_enum f members (JStr s) =
     (case enum_of f members s of None \<Rightarrow> Inl (ValueError s) | Some k \<Rightarrow> Inr k)"
| "as_enum f members _ = Inl (ValueError ''not a member'')"

definition expect :: "string \<Rightarrow> json \<Rightarrow> unit res" where
  "expect s v = (if v = JStr s then Inr () else Inl (ValueError ''unsupported schema''))"

section \<open>Order of entries\<close>

definition norm_inv :: "(json \<Rightarrow> 'a res) \<Rightarrow> bool" where
  "norm_inv d \<longleftrightarrow> (\<forall>v. d (norm v) = d v)"

named_theorems norm_invs \<open>decoders do not see the order of entries\<close>

lemma norm_invD: "norm_inv d \<Longrightarrow> d (norm v) = d v"
  by (simp add: norm_inv_def)

lemma is_obj_norm [simp]: "is_obj (norm v) = is_obj v"
  by (cases v) simp_all

lemma set_keys_norm [simp]: "set (keys (norm v)) = set (keys v)"
  by (cases v) (force simp: keys_def)+

lemma norm_JNull_iff [simp]: "norm v = JNull \<longleftrightarrow> v = JNull"
  by (cases v) simp_all

lemma norm_JStr_iff [simp]: "norm v = JStr s \<longleftrightarrow> v = JStr s"
  by (cases v) simp_all

lemma norm_inv_const [norm_invs]: "norm_inv (\<lambda>v. x)"
  by (simp add: norm_inv_def)

lemma norm_inv_shape [norm_invs]: "norm_inv (shape required optional)"
  by (simp add: norm_inv_def shape_def)

lemma norm_inv_bind [norm_invs]:
  "norm_inv d \<Longrightarrow> (\<And>x. norm_inv (e x)) \<Longrightarrow> norm_inv (\<lambda>v. bind_res (d v) (\<lambda>x. e x v))"
  by (simp add: norm_inv_def)

lemma norm_inv_items [norm_invs]:
  "norm_inv d \<Longrightarrow> norm_inv (item k d)"
  "norm_inv d \<Longrightarrow> norm_inv (opt_item k d)"
  "norm_inv d \<Longrightarrow> norm_inv (get_item k d)"
  "norm_inv e \<Longrightarrow> norm_inv (list_item k e)"
  by (simp_all add: norm_inv_def item_def opt_item_def get_item_def list_item_def jget_norm
      split: option.splits)

lemma norm_inv_atoms [norm_invs]:
  "norm_inv as_int" "norm_inv as_str" "norm_inv (as_enum f members)" "norm_inv (expect s)"
proof -
  have "as_int (norm v) = as_int v" "as_str (norm v) = as_str v"
    "as_enum f members (norm v) = as_enum f members v" "expect s (norm v) = expect s v" for v
    by (cases v; simp add: expect_def)+
  then show "norm_inv as_int" "norm_inv as_str" "norm_inv (as_enum f members)" "norm_inv (expect s)"
    by (simp_all add: norm_inv_def)
qed

lemma norm_inv_as_list [norm_invs]:
  assumes "norm_inv d"
  shows "norm_inv (as_list d)"
proof -
  have "map_res d (map norm xs) = map_res d xs" for xs
    using assms by (induction xs) (simp_all add: norm_inv_def)
  then have "as_list d (norm v) = as_list d v" for v by (cases v) simp_all
  then show ?thesis by (simp add: norm_inv_def)
qed

section \<open>Reading back a projection\<close>

lemma map_res_map:
  "(\<And>x. x \<in> set xs \<Longrightarrow> d (f x) = Inr x) \<Longrightarrow> map_res d (map f xs) = Inr xs"
  by (induction xs) simp_all

lemma map_res_Inr_iff: "map_res f xs = Inr ys \<longleftrightarrow> list_all2 (\<lambda>x y. f x = Inr y) xs ys"
proof (induction xs arbitrary: ys)
  case (Cons x xs)
  then show ?case by (cases ys) (auto simp: bind_res_Inr_iff)
qed auto

text \<open>Reading by key walks the entries of a projection; \<open>decodes\<close> says that a decoder gives an object back.\<close>

named_theorems readings \<open>reading the entries of a projection\<close>

definition decodes :: "(json \<Rightarrow> 'a res) \<Rightarrow> ('a \<Rightarrow> json) \<Rightarrow> 'a \<Rightarrow> bool" where
  "decodes d f x \<longleftrightarrow> d (f x) = Inr x"

lemma fresh_map_of: "fresh k kvs \<longleftrightarrow> map_of kvs k = None"
  by (simp add: fresh_def map_of_eq_None_iff)

lemma item_entries [readings]:
  "item k d (JObj ((k, v) # kvs)) = d v"
  "j \<noteq> k \<Longrightarrow> item k d (JObj ((j, v) # kvs)) = item k d (JObj kvs)"
  by (simp_all add: item_def)

lemma item_opt_entry [readings]:
  "j \<noteq> k \<Longrightarrow> item k d (JObj (opt_entry j f x @ kvs)) = item k d (JObj kvs)"
  by (cases x) (simp_all add: item_def opt_entry_def)

lemma opt_item_entries [readings]:
  "j \<noteq> k \<Longrightarrow> opt_item k d (JObj ((j, v) # kvs)) = opt_item k d (JObj kvs)"
  "j \<noteq> k \<Longrightarrow> opt_item k d (JObj (opt_entry j f x @ kvs)) = opt_item k d (JObj kvs)"
  "j \<noteq> k \<Longrightarrow> opt_item k d (JObj (list_entry j g xs @ kvs)) = opt_item k d (JObj kvs)"
  "opt_all (decodes d h) y \<Longrightarrow> fresh k kvs \<Longrightarrow> opt_item k d (JObj (opt_entry k h y @ kvs)) = Inr y"
  "opt_all (decodes d h) y \<Longrightarrow> opt_item k d (JObj (opt_entry k h y)) = Inr y"
  by (cases x; cases y; auto simp: opt_item_def decodes_def opt_entry_def list_entry_def fresh_map_of)+

lemma get_item_entries [readings]:
  "j \<noteq> k \<Longrightarrow> get_item k d (JObj ((j, v) # kvs)) = get_item k d (JObj kvs)"
  "j \<noteq> k \<Longrightarrow> get_item k d (JObj (opt_entry j f x @ kvs)) = get_item k d (JObj kvs)"
  "j \<noteq> k \<Longrightarrow> get_item k d (JObj (list_entry j g xs @ kvs)) = get_item k d (JObj kvs)"
  "opt_all (\<lambda>z. h z \<noteq> JNull \<and> decodes d h z) y \<Longrightarrow> fresh k kvs \<Longrightarrow>
     get_item k d (JObj (opt_entry k h y @ kvs)) = Inr y"
  "opt_all (\<lambda>z. h z \<noteq> JNull \<and> decodes d h z) y \<Longrightarrow> get_item k d (JObj (opt_entry k h y)) = Inr y"
  by (cases x; cases y; auto simp: get_item_def decodes_def opt_entry_def list_entry_def fresh_map_of)+

lemma as_list_map:
  "list_all (decodes d h) ys \<Longrightarrow> as_list d (JArr (map h ys)) = Inr ys"
  by (simp add: map_res_map list_all_iff decodes_def)

lemma list_item_entries [readings]:
  "j \<noteq> k \<Longrightarrow> list_item k d (JObj ((j, v) # kvs)) = list_item k d (JObj kvs)"
  "j \<noteq> k \<Longrightarrow> list_item k d (JObj (opt_entry j f x @ kvs)) = list_item k d (JObj kvs)"
  "j \<noteq> k \<Longrightarrow> list_item k d (JObj (list_entry j g xs @ kvs)) = list_item k d (JObj kvs)"
  "list_all (decodes e h) ys \<Longrightarrow> fresh k kvs \<Longrightarrow>
     list_item k (as_list e) (JObj (list_entry k h ys @ kvs)) = Inr ys"
  "list_all (decodes e h) ys \<Longrightarrow> list_item k (as_list e) (JObj (list_entry k h ys)) = Inr ys"
  by (cases x; cases ys; auto simp: list_item_def opt_entry_def list_entry_def fresh_map_of
      simp flip: as_list_map list.map(2) simp del: as_list.simps list.map)+

lemma shape_obj [readings]:
  "shape required optional (JObj kvs) =
     (if set required \<subseteq> fst ` set kvs \<and> fst ` set kvs \<subseteq> set required \<union> set optional
      then Inr () else Inl (ValueError ''unexpected object shape''))"
  by (simp add: shape_def keys_def)

lemma keys_entries [simp]:
  "fst ` set (opt_entry k f x) \<subseteq> S \<longleftrightarrow> x = None \<or> k \<in> S"
  "fst ` set (list_entry k f xs) \<subseteq> S \<longleftrightarrow> xs = [] \<or> k \<in> S"
  by (cases x; auto simp: opt_entry_def list_entry_def)+

lemma key_in_entries [simp]:
  "k \<in> fst ` set (opt_entry j f x) \<longleftrightarrow> k = j \<and> x \<noteq> None"
  "k \<in> fst ` set (list_entry j f xs) \<longleftrightarrow> k = j \<and> xs \<noteq> []"
  by (cases x; auto simp: opt_entry_def list_entry_def)+

lemma distinct_keys [simp]:
  "distinct (map fst ((k, v) # kvs)) \<longleftrightarrow> fresh k kvs \<and> distinct (map fst kvs)"
  "distinct (map fst (opt_entry k f x @ kvs)) \<longleftrightarrow> (x = None \<or> fresh k kvs) \<and> distinct (map fst kvs)"
  "distinct (map fst (opt_entry k f x))"
  "distinct (map fst (list_entry k g xs @ kvs)) \<longleftrightarrow> (xs = [] \<or> fresh k kvs) \<and> distinct (map fst kvs)"
  "distinct (map fst (list_entry k g xs))"
  by (auto simp: opt_entry_def list_entry_def fresh_def split: option.splits)

lemma keys_once_entries [simp]:
  "(\<forall>e\<in>set (opt_entry k f x). keys_once (snd e)) \<longleftrightarrow> opt_all (\<lambda>y. keys_once (f y)) x"
  "(\<forall>e\<in>set (list_entry k g xs). keys_once (snd e)) \<longleftrightarrow> (\<forall>y\<in>set xs. keys_once (g y))"
  by (cases x; auto simp: opt_entry_def list_entry_def)+

end
