(* ===== verification/Py_Values.thy ===== *)
theory Py_Values
  imports Json_Fields "HOL-Library.AList"
begin

text \<open>
  Python's operations on decoded JSON values: tests of types, truth, \<^verbatim>\<open>==\<close>, \<^verbatim>\<open>str\<close>, \<^verbatim>\<open>list\<close>,
  membership in sets, and dictionaries. A dictionary is an object without repeated keys; lookups and
  comparisons do not depend on the order of its entries, and \<open>py_eq_get\<close> and \<open>py_eq_keys\<close> say so.
\<close>

section \<open>Tests\<close>

abbreviation has_key :: "json \<Rightarrow> string \<Rightarrow> bool" where
  "has_key v k \<equiv> k \<in> set (keys v)"

fun is_str :: "json \<Rightarrow> bool" where
  "is_str (JStr _) = True"
| "is_str _ = False"

fun is_int :: "json \<Rightarrow> bool" where
  "is_int (JInt _) = True"
| "is_int _ = False"

fun is_nonempty_str :: "json option \<Rightarrow> bool" where
  "is_nonempty_str (Some (JStr s)) = (s \<noteq> [])"
| "is_nonempty_str _ = False"

fun is_int_from :: "int \<Rightarrow> json option \<Rightarrow> bool" where
  "is_int_from m (Some (JInt i)) = (m \<le> i)"
| "is_int_from m _ = False"

text \<open>\<^verbatim>\<open>value in SOME_FROZENSET\<close> for a set of strings; a missing key reads as \<^verbatim>\<open>None\<close>.\<close>

fun str_member :: "json option \<Rightarrow> string list \<Rightarrow> bool res" where
  "str_member (Some (JStr s)) xs = Inr (s \<in> set xs)"
| "str_member (Some (JArr _)) xs = Inl (TypeError ''unhashable type'')"
| "str_member (Some (JObj _)) xs = Inl (TypeError ''unhashable type'')"
| "str_member _ xs = Inr False"

text \<open>
  Python's \<^verbatim>\<open>==\<close> on decoded values: a boolean equals the integer 0 or 1, lists elementwise,
  objects entry by entry in any order.
\<close>

fun unbool :: "json \<Rightarrow> json" where
  "unbool (JBool b) = JInt (if b then 1 else 0)"
| "unbool (JArr xs) = JArr (map unbool xs)"
| "unbool (JObj kvs) = JObj (map (\<lambda>(k, v). (k, unbool v)) kvs)"
| "unbool v = v"

definition py_eq :: "json \<Rightarrow> json \<Rightarrow> bool" where
  "py_eq v w \<longleftrightarrow> json_eq (unbool v) (unbool w)"

section \<open>Dictionaries\<close>

text \<open>\<^verbatim>\<open>value.get(key)\<close>, \<^verbatim>\<open>value[key] = x\<close> on a copy, and \<^verbatim>\<open>value.pop(key, None)\<close> on a copy.\<close>

definition dget :: "string \<Rightarrow> json \<Rightarrow> json" where
  "dget k v = (case jget k v of None \<Rightarrow> JNull | Some x \<Rightarrow> x)"

fun dset :: "string \<Rightarrow> json \<Rightarrow> json \<Rightarrow> json" where
  "dset k x (JObj kvs) = JObj (AList.update k x kvs)"
| "dset k x v = v"

fun ddel :: "string \<Rightarrow> json \<Rightarrow> json" where
  "ddel k (JObj kvs) = JObj (AList.delete k kvs)"
| "ddel k v = v"

text \<open>\<^verbatim>\<open>source.get(key) == value\<close>, with \<^verbatim>\<open>None\<close> for a missing key.\<close>

definition get_eq :: "json \<Rightarrow> string \<Rightarrow> json \<Rightarrow> bool" where
  "get_eq v k w = py_eq (case jget k v of None \<Rightarrow> JNull | Some x \<Rightarrow> x) w"

section \<open>Truth, text and lists\<close>

fun truthy :: "json \<Rightarrow> bool" where
  "truthy JNull = False"
| "truthy (JBool b) = b"
| "truthy (JInt i) = (i \<noteq> 0)"
| "truthy (JStr s) = (s \<noteq> [])"
| "truthy (JArr xs) = (xs \<noteq> [])"
| "truthy (JObj kvs) = (kvs \<noteq> [])"

text \<open>\<^verbatim>\<open>a or b\<close>.\<close>

definition py_or :: "json \<Rightarrow> json \<Rightarrow> json" where
  "py_or v w = (if truthy v then v else w)"

text \<open>
  \<^verbatim>\<open>repr\<close> of a string: single quotes unless it holds a single quote and no double quote; characters
  outside ASCII stand for themselves.
\<close>

definition repr_char :: "char \<Rightarrow> char \<Rightarrow> string" where
  "repr_char q c =
     (if c = q \<or> c = backslash then [backslash, c]
      else if c = CHR 10 then [backslash, CHR ''n'']
      else if c = CHR 13 then [backslash, CHR ''r'']
      else if c = CHR 9 then [backslash, CHR ''t'']
      else if (of_char c :: nat) < 32 \<or> c = CHR 127
      then [backslash, CHR ''x'', hex_char (of_char c div 16), hex_char (of_char c)]
      else [c])"

definition squote :: char where "squote = CHR 39"

definition repr_str :: "string \<Rightarrow> string" where
  "repr_str s =
     (let q = (if squote \<in> set s \<and> dquote \<notin> set s then dquote else squote)
      in q # concat (map (repr_char q) s) @ [q])"

fun comma_spaces :: "string list \<Rightarrow> string" where
  "comma_spaces [] = []"
| "comma_spaces [x] = x"
| "comma_spaces (x # y # ys) = x @ '', '' @ comma_spaces (y # ys)"

primrec py_repr :: "json \<Rightarrow> string" where
  "py_repr JNull = ''None''"
| "py_repr (JBool b) = (if b then ''True'' else ''False'')"
| "py_repr (JInt i) = int_str i"
| "py_repr (JStr s) = repr_str s"
| "py_repr (JArr xs) = ''['' @ comma_spaces (map py_repr xs) @ '']''"
| "py_repr (JObj kvs) =
     ''{'' @ comma_spaces (map (\<lambda>(k, t). repr_str k @ '': '' @ t) (map (map_prod id py_repr) kvs)) @ ''}''"

text \<open>\<^verbatim>\<open>str(value)\<close>.\<close>

fun py_str :: "json \<Rightarrow> string" where
  "py_str (JStr s) = s"
| "py_str v = py_repr v"

text \<open>The characters of a text, each with its continuation bytes, and \<^verbatim>\<open>list(value)\<close>.\<close>

fun utf8_chars :: "string \<Rightarrow> string list" where
  "utf8_chars [] = []"
| "utf8_chars (c # cs) =
     (case utf8_chars cs of
        [] \<Rightarrow> [[c]]
      | g # gs \<Rightarrow> if cont_byte (hd g) then (c # g) # gs else [c] # g # gs)"

fun py_list :: "json \<Rightarrow> json list res" where
  "py_list (JArr xs) = Inr xs"
| "py_list (JStr s) = Inr (map JStr (utf8_chars s))"
| "py_list (JObj kvs) = Inr (map (JStr \<circ> fst) kvs)"
| "py_list _ = Inl (TypeError ''object is not iterable'')"

text \<open>\<^verbatim>\<open>value + 1\<close>.\<close>

fun plus_one :: "json \<Rightarrow> int res" where
  "plus_one (JInt i) = Inr (i + 1)"
| "plus_one (JBool b) = Inr (if b then 2 else 1)"
| "plus_one _ = Inl (TypeError ''unsupported operand'')"

text \<open>\<^verbatim>\<open>value in xs\<close> for a set or the keys of a dictionary.\<close>

fun hashable :: "json \<Rightarrow> bool" where
  "hashable (JArr _) = False"
| "hashable (JObj _) = False"
| "hashable _ = True"

definition in_keys :: "json \<Rightarrow> json list \<Rightarrow> bool res" where
  "in_keys v xs =
     (if hashable v then Inr (list_ex (py_eq v) xs) else Inl (TypeError ''unhashable type''))"

section \<open>White space\<close>

text \<open>
  \<^verbatim>\<open>bool(text.strip())\<close>: something is left after the white space of \<^verbatim>\<open>str.strip\<close>, whose
  characters outside ASCII are spelled as UTF-8 bytes here.
\<close>

definition ascii_space :: "char \<Rightarrow> bool" where
  "ascii_space c \<longleftrightarrow>
     (let n = (of_char c :: int) in 9 \<le> n \<and> n \<le> 13 \<or> 28 \<le> n \<and> n \<le> 31 \<or> n = 32)"

definition wide_space :: "int list \<Rightarrow> bool" where
  "wide_space bs \<longleftrightarrow>
     bs \<in> set ([[225, 154, 128], [226, 128, 168], [226, 128, 169], [226, 128, 175], [226, 129, 159],
               [227, 128, 128]] @ map (\<lambda>b. [226, 128, b]) [128, 129, 130, 131, 132, 133, 134, 135,
               136, 137, 138])"

fun only_space :: "string \<Rightarrow> bool" where
  "only_space [] = True"
| "only_space (c # cs) =
     (if ascii_space c then only_space cs
      else case cs of
        d # ds \<Rightarrow>
          if of_char c = (194 :: int) \<and> of_char d \<in> {133 :: int, 160} then only_space ds
          else (case ds of
                  e # es \<Rightarrow> wide_space [of_char c, of_char d, of_char e] \<and> only_space es
                | [] \<Rightarrow> False)
      | [] \<Rightarrow> False)"

section \<open>Equality\<close>

lemma py_eq_refl [simp]: "py_eq v v"
  by (simp add: py_eq_def)

lemma py_eq_sym: "py_eq v w \<Longrightarrow> py_eq w v"
  by (simp add: py_eq_def json_eq_def)

lemma py_eq_trans: "py_eq u v \<Longrightarrow> py_eq v w \<Longrightarrow> py_eq u w"
  by (simp add: py_eq_def json_eq_def)

lemma py_eq_commute: "py_eq v w \<longleftrightarrow> py_eq w v"
  using py_eq_sym by blast

lemma py_eq_left: "py_eq u v \<Longrightarrow> py_eq u w \<longleftrightarrow> py_eq v w"
  using py_eq_sym py_eq_trans by blast

lemma py_eq_right: "py_eq u v \<Longrightarrow> py_eq w u \<longleftrightarrow> py_eq w v"
  using py_eq_sym py_eq_trans by blast

lemma py_eq_str_iff [simp]:
  "py_eq v (JStr s) \<longleftrightarrow> v = JStr s" "py_eq (JStr s) v \<longleftrightarrow> v = JStr s"
  by (cases v; auto simp: py_eq_def json_eq_def)+

lemma py_eq_null_iff [simp]: "py_eq v JNull \<longleftrightarrow> v = JNull" "py_eq JNull v \<longleftrightarrow> v = JNull"
  by (cases v; auto simp: py_eq_def json_eq_def)+

lemma py_eq_int_iff [simp]: "py_eq (JInt i) (JInt j) \<longleftrightarrow> i = j"
  by (simp add: py_eq_def json_eq_def)

lemma unbool_fst: "map fst (map (\<lambda>(k, v). (k, unbool v)) kvs) = map fst kvs"
  by (induction kvs) auto

lemma jget_unbool: "jget k (unbool v) = map_option unbool (jget k v)"
  by (cases v) (simp_all add: map_of_map)

lemma keys_norm [simp]: "set (keys (norm v)) = set (keys v)"
  by (cases v) (force simp: keys_def)+

lemma keys_unbool [simp]: "keys (unbool v) = keys v"
  by (cases v) (simp_all add: keys_def unbool_fst del: map_map)

text \<open>Equal dictionaries have equal entries and the same keys.\<close>

lemma py_eq_get: "py_eq v w \<Longrightarrow> py_eq (dget k v) (dget k w)"
  using json_eq_jget [of "unbool v" "unbool w" k]
  by (auto simp: py_eq_def dget_def jget_unbool json_eq_def split: option.splits)

lemma py_eq_keys: "py_eq v w \<Longrightarrow> set (keys v) = set (keys w)"
  using keys_norm [of "unbool v"] keys_norm [of "unbool w"] by (simp add: py_eq_def json_eq_def)

lemma py_eq_is_obj: "py_eq v w \<Longrightarrow> is_obj v = is_obj w"
  by (cases v; cases w) (simp_all add: py_eq_def json_eq_def)

lemma py_eq_hashable: "py_eq v w \<Longrightarrow> hashable v = hashable w"
  by (cases v; cases w) (simp_all add: py_eq_def json_eq_def)

lemma py_eq_truthy: "py_eq v w \<Longrightarrow> truthy v = truthy w"
  by (cases v; cases w)
     (auto simp: py_eq_def json_eq_def split: if_splits dest!: arg_cong [of _ _ length])

lemma py_eq_plus_one: "py_eq v w \<Longrightarrow> plus_one v = plus_one w"
  by (cases v; cases w) (auto simp: py_eq_def json_eq_def split: if_splits)

section \<open>Lookups and updates\<close>

lemma jget_dset [simp]:
  "jget k (dset l x v) = (if is_obj v \<and> k = l then Some x else jget k v)"
  by (cases v) (auto simp: update_conv')

lemma dget_dset [simp]: "dget k (dset l x v) = (if is_obj v \<and> k = l then x else dget k v)"
  by (simp add: dget_def)

lemma jget_ddel [simp]: "jget k (ddel l v) = (if k = l then None else jget k v)"
  by (cases v) (auto simp: delete_conv')

lemma dget_ddel [simp]: "dget k (ddel l v) = (if k = l then JNull else dget k v)"
  by (simp add: dget_def)

lemma is_obj_dset [simp]: "is_obj (dset k x v) = is_obj v"
  by (cases v) simp_all

lemma is_obj_ddel [simp]: "is_obj (ddel k v) = is_obj v"
  by (cases v) simp_all

lemma keys_dset [simp]: "set (keys (dset k x v)) = (if is_obj v then insert k (set (keys v)) else set (keys v))"
  by (cases v) (auto simp: keys_def update_conv' simp flip: dom_map_of_conv_image_fst split: if_splits)

lemma ddel_dset [simp]: "ddel k (dset k x v) = ddel k v"
proof -
  have "AList.delete k (AList.update k x kvs) = AList.delete k kvs" for kvs :: "(string \<times> json) list"
    by (induction kvs) (auto simp: AList.delete_eq)
  then show ?thesis by (cases v) simp_all
qed

lemma ddel_absent [simp]: "k \<notin> set (keys v) \<Longrightarrow> ddel k v = v"
  by (cases v) (auto simp: keys_def delete_id)

lemma dset_dset [simp]: "dset k x (dset k y v) = dset k x v"
proof -
  have "AList.update k x (AList.update k y kvs) = AList.update k x kvs" for kvs :: "(string \<times> json) list"
    by (induction kvs) auto
  then show ?thesis by (cases v) simp_all
qed

end
