(* ===== verification/Receipt_Migration.thy ===== *)
theory Receipt_Migration
  imports Receipt_Ledger Py_Values
begin

text \<open>
  \<^verbatim>\<open>migrate_receipt\<close> of \<^verbatim>\<open>src/valp_cli/protocol_receipts.py\<close> and the predicates on a legacy or v2
  source it uses. The source arrives as bytes; decoding and \<^verbatim>\<open>json.loads\<close> are the argument
  \<open>loads\<close> (\<open>None\<close> for a decoding error), so the results hold for whatever value a text
  decodes to. Objects are lists of entries without repeated keys, and numbers are integers.

  A membership test of a decoded value in a set of strings needs a hashable value: on a list or
  an object Python raises \<^verbatim>\<open>TypeError\<close>. The model keeps this: the predicates that make such a test
  return \<open>Inl (TypeError _)\<close> there.
\<close>

section \<open>Decoded values\<close>

fun is_safe_ref_json :: "json option \<Rightarrow> bool" where
  "is_safe_ref_json (Some (JStr s)) = is_safe_ref s"
| "is_safe_ref_json _ = False"

fun is_digest_json :: "json option \<Rightarrow> bool" where
  "is_digest_json (Some (JStr s)) = is_digest s"
| "is_digest_json _ = False"

fun refs_valid :: "json option \<Rightarrow> bool" where
  "refs_valid (Some (JArr xs)) =
     (list_all (\<lambda>x. is_safe_ref_json (Some x)) xs \<and> distinct xs)"
| "refs_valid _ = False"

section \<open>Sources\<close>

definition legacy_required :: "string list" where
  "legacy_required = [''ts'', ''agent'', ''event'', ''dispatch_ref'']"

definition legacy_allowed :: "string list" where
  "legacy_allowed =
     legacy_required @ [''role'', ''exit_code'', ''summary'', ''expected_refs'', ''proof'', ''runtime'']"

definition keys_between :: "string list \<Rightarrow> string list \<Rightarrow> json \<Rightarrow> bool" where
  "keys_between required allowed v \<longleftrightarrow>
     set required \<subseteq> set (keys v) \<and> set (keys v) \<subseteq> set allowed"

text \<open>The tests of the optional members that both source versions share.\<close>

definition optional_members_ok :: "json \<Rightarrow> bool" where
  "optional_members_ok v \<longleftrightarrow>
     list_all (\<lambda>(k, p). has_key v k \<longrightarrow> (case jget k v of Some x \<Rightarrow> p x | None \<Rightarrow> False))
       [(''proof'', is_obj), (''runtime'', is_obj), (''summary'', is_str), (''exit_code'', is_int)]"

definition legacy_source_valid :: "json \<Rightarrow> bool res" where
  "legacy_source_valid v =
     (if \<not> keys_between legacy_required legacy_allowed v then Inr False
      else if \<not> is_nonempty_str (jget ''ts'' v) \<or> \<not> is_nonempty_str (jget ''agent'' v) then Inr False
      else bind_res (str_member (jget ''event'' v) RECEIPT_EVENTS) (\<lambda>known_event.
        if \<not> known_event \<or> \<not> is_safe_ref_json (jget ''dispatch_ref'' v) then Inr False
        else bind_res (if has_key v ''role'' then str_member (jget ''role'' v) ROLES else Inr True)
          (\<lambda>role_ok.
            Inr (role_ok \<and> (has_key v ''expected_refs'' \<longrightarrow> refs_valid (jget ''expected_refs'' v)) \<and>
                 optional_members_ok v))))"

definition v2_required :: "string list" where
  "v2_required =
     [''schema_version'', ''receipt_id'', ''task_id'', ''event_sequence'', ''ts'', ''agent'', ''role'',
      ''work_item_id'', ''dispatch_id'', ''dispatch_generation'', ''event'', ''dispatch_ref'',
      ''expected_refs'']"

definition v2_allowed :: "string list" where
  "v2_allowed =
     v2_required @ [''retry_generation'', ''suspension_epoch'', ''exit_code'', ''summary'', ''proof'',
                    ''runtime'']"

definition V2_SUBMISSION_PROOF_FIELDS :: "string list" where
  "V2_SUBMISSION_PROOF_FIELDS =
     [''submission_id'', ''payload_digest'', ''acknowledged'', ''receipt_id'', ''task_id'', ''agent'',
      ''role'', ''work_item_id'', ''dispatch_id'', ''dispatch_generation'', ''event_sequence'',
      ''dispatch_ref'', ''expected_refs'']"

definition projected_fields :: "receipt_draft \<Rightarrow> (string \<times> json) list" where
  "projected_fields d =
     [(''receipt_id'', JStr (rd_id d)), (''task_id'', JStr (rd_task d)), (''agent'', JStr (rd_agent d)),
      (''role'', JStr (rd_role d)), (''work_item_id'', JStr (rd_item d)),
      (''dispatch_id'', JStr (rd_dispatch d)), (''dispatch_generation'', JInt (rd_generation d)),
      (''event_sequence'', JInt (rd_sequence d)), (''dispatch_ref'', JStr (rd_dispatch_ref d)),
      (''expected_refs'', JArr (map JStr (rd_refs d)))]"

definition expected_fields :: "json \<Rightarrow> (string \<times> json) list" where
  "expected_fields v =
     map (\<lambda>k. (k, case jget k v of None \<Rightarrow> JNull | Some x \<Rightarrow> x))
       [''receipt_id'', ''task_id'', ''agent'', ''role'', ''work_item_id'', ''dispatch_id'',
        ''dispatch_generation'', ''event_sequence'', ''dispatch_ref'', ''expected_refs'']"

definition v2_submission_proof_valid :: "json option \<Rightarrow> json \<Rightarrow> receipt_draft \<Rightarrow> bool" where
  "v2_submission_proof_valid proof_value v d =
     (case proof_value of
        Some (JObj pk) \<Rightarrow>
          set (map fst pk) = {''adapter_record''} \<and>
          (case map_of pk ''adapter_record'' of
             Some (JObj rk) \<Rightarrow>
               (let record = JObj rk in
                set (map fst rk) = set V2_SUBMISSION_PROOF_FIELDS \<and>
                (case jget ''submission_id'' record of
                   Some (JStr x) \<Rightarrow> \<not> only_space x | _ \<Rightarrow> False) \<and>
                is_digest_json (jget ''payload_digest'' record) \<and>
                jget ''payload_digest'' record = Some (JStr (rd_payload d)) \<and>
                jget ''acknowledged'' record = Some (JBool True) \<and>
                list_all (\<lambda>(k, w). get_eq record k w) (expected_fields v) \<and>
                list_all (\<lambda>(k, w). get_eq record k w) (projected_fields d))
           | _ \<Rightarrow> False)
      | _ \<Rightarrow> False)"

definition v2_source_valid :: "json \<Rightarrow> receipt_draft \<Rightarrow> bool res" where
  "v2_source_valid v d =
     (if \<not> keys_between v2_required v2_allowed v then Inr False
      else if jget ''schema_version'' v \<noteq> Some (JStr ''valp-dispatch-receipt.v2'')
         \<or> \<not> list_all (\<lambda>k. is_nonempty_str (jget k v))
               [''receipt_id'', ''task_id'', ''ts'', ''agent'', ''work_item_id'', ''dispatch_id'']
      then Inr False
      else bind_res (str_member (jget ''role'' v) ROLES) (\<lambda>known_role.
        if \<not> known_role then Inr False
        else bind_res (str_member (jget ''event'' v) RECEIPT_EVENTS) (\<lambda>known_event.
          if \<not> known_event then Inr False
          else bind_res (str_member (jget ''event'' v) TERMINAL_EVENTS) (\<lambda>terminal.
            if terminal
               \<or> \<not> is_int_from 1 (jget ''event_sequence'' v)
               \<or> \<not> is_int_from 1 (jget ''dispatch_generation'' v)
               \<or> \<not> is_safe_ref_json (jget ''dispatch_ref'' v)
               \<or> \<not> refs_valid (jget ''expected_refs'' v)
               \<or> (has_key v ''retry_generation'' \<and> \<not> is_int_from 1 (jget ''retry_generation'' v))
               \<or> terminal \<noteq> has_key v ''suspension_epoch''
               \<or> (has_key v ''suspension_epoch'' \<and> \<not> is_int_from 1 (jget ''suspension_epoch'' v))
               \<or> (jget ''event'' v = Some (JStr ''dispatch_submitted'') \<and>
                  \<not> (case jget ''proof'' v of Some x \<Rightarrow> is_obj x | None \<Rightarrow> False))
               \<or> \<not> optional_members_ok v
            then Inr False
            else Inr (jget ''event'' v \<noteq> Some (JStr ''dispatch_submitted'') \<or>
                      v2_submission_proof_valid (jget ''proof'' v) v d)))))"

text \<open>\<^verbatim>\<open>_source_matches_draft\<close>: the dictionary \<^verbatim>\<open>shared\<close>, then the comparison of all its entries.\<close>

definition shared_fields :: "json \<Rightarrow> receipt_draft \<Rightarrow> bool \<Rightarrow> (string \<times> json) list" where
  "shared_fields v d legacy =
     [(''ts'', JStr (rd_ts d)), (''agent'', JStr (rd_agent d)), (''event'', JStr (rd_event d)),
      (''dispatch_ref'', JStr (rd_dispatch_ref d))]
     @ (if \<not> legacy
        then [(''receipt_id'', JStr (rd_id d)), (''task_id'', JStr (rd_task d)),
              (''role'', JStr (rd_role d)), (''work_item_id'', JStr (rd_item d)),
              (''dispatch_id'', JStr (rd_dispatch d)), (''dispatch_generation'', JInt (rd_generation d)),
              (''expected_refs'', JArr (map JStr (rd_refs d)))]
        else (if has_key v ''role'' then [(''role'', JStr (rd_role d))] else [])
          @ (if has_key v ''expected_refs'' then [(''expected_refs'', JArr (map JStr (rd_refs d)))] else []))
     @ (if has_key v ''retry_generation'' then [(''retry_generation'', opt_json JInt (rd_retry d))] else [])
     @ (if has_key v ''suspension_epoch'' then [(''suspension_epoch'', opt_json JInt (rd_epoch d))] else [])"

definition source_matches_draft :: "json \<Rightarrow> receipt_draft \<Rightarrow> bool \<Rightarrow> bool" where
  "source_matches_draft v d legacy \<longleftrightarrow> list_all (\<lambda>(k, w). get_eq v k w) (shared_fields v d legacy)"

section \<open>Migration\<close>

record migration_result =
  mr_source :: string
  mr_source_digest :: string
  mr_write :: write_result

definition bytes_digest :: "string \<Rightarrow> string" where
  "bytes_digest bs = ''sha256:'' @ sha256_hex bs"

text \<open>The schema of a source that may be migrated, \<open>None\<close> where the code refuses.\<close>

definition source_schema :: "json \<Rightarrow> receipt_draft \<Rightarrow> string option res" where
  "source_schema v d =
     (if \<not> is_obj v then Inr None
      else case jget ''schema_version'' v of
        None \<Rightarrow> bind_res (legacy_source_valid v) (\<lambda>ok.
          Inr (if ok \<and> source_matches_draft v d True then Some ''legacy'' else None))
      | Some JNull \<Rightarrow> bind_res (legacy_source_valid v) (\<lambda>ok.
          Inr (if ok \<and> source_matches_draft v d True then Some ''legacy'' else None))
      | Some (JStr x) \<Rightarrow>
          if x = ''valp-dispatch-receipt.v2''
          then bind_res (v2_source_valid v d) (\<lambda>ok.
            Inr (if ok \<and> source_matches_draft v d False then Some x else None))
          else Inr None
      | Some _ \<Rightarrow> Inr None)"

definition migrate_receipt ::
  "(string \<Rightarrow> json option) \<Rightarrow> string \<Rightarrow> ledger \<Rightarrow> receipt_draft \<Rightarrow> string \<Rightarrow> string \<Rightarrow>
   migration_result res" where
  "migrate_receipt loads source l d evidence_digest migration =
     (let refused = \<lparr>mr_source = source, mr_source_digest = bytes_digest source,
                     mr_write = WriteRejected l MIGRATION_UNSUPPORTED_ERROR\<rparr>
      in if \<not> is_digest evidence_digest \<or> migration = [] then Inr refused
      else case loads source of
        None \<Rightarrow> Inr refused
      | Some v \<Rightarrow> bind_res (source_schema v d) (\<lambda>schema. case schema of
          None \<Rightarrow> Inr refused
        | Some x \<Rightarrow>
            Inr \<lparr>mr_source = source, mr_source_digest = bytes_digest source,
                 mr_write = propose_receipt_append l (d\<lparr>rd_migration := Some
                   \<lparr>mb_id = migration, mb_schema = x, mb_source_digest = bytes_digest source,
                    mb_evidence_digest = evidence_digest\<rparr>\<rparr>)\<rparr>))"

section \<open>Properties\<close>

lemma migrate_acceptedD:
  assumes "migrate_receipt loads source l d evd mig = Inr m" and "mr_write m = WriteAccepted l' r ob"
  obtains v x where "loads source = Some v" "source_schema v d = Inr (Some x)"
    "propose_receipt_append l (d\<lparr>rd_migration := Some \<lparr>mb_id = mig, mb_schema = x,
       mb_source_digest = bytes_digest source, mb_evidence_digest = evd\<rparr>\<rparr>) = WriteAccepted l' r ob"
    "m = \<lparr>mr_source = source, mr_source_digest = bytes_digest source, mr_write = WriteAccepted l' r ob\<rparr>"
  using assms
  by (auto simp: migrate_receipt_def Let_def bind_res_Inr_iff split: if_splits option.splits)

text \<open>
  C29. A migration is bound to its source and happens once. If a migration is accepted, the
  source bytes are returned untouched, the new receipt is the draft with a binding that carries
  the SHA-256 of exactly these bytes, the migration identity and the evidence digest; and after
  it, whatever is appended in between, a migration under the same migration identity is never
  accepted again.
\<close>

theorem migration_bound_and_once:
  assumes "migrate_receipt loads source l d evd mig = Inr m" and "mr_write m = WriteAccepted l' r ob"
    and "iterate receipt_step l' ds = Some l''"
    and "migrate_receipt loads' source' l'' d' evd' mig = Inr m'"
  shows "mr_source m = source \<and>
     (\<exists>x. rc_draft r = d\<lparr>rd_migration := Some \<lparr>mb_id = mig, mb_schema = x,
        mb_source_digest = bytes_digest source, mb_evidence_digest = evd\<rparr>\<rparr>) \<and>
     mr_write m' \<noteq> WriteAccepted l3 r3 ob3"
proof -
  from assms(1,2) obtain v x where
    acc: "propose_receipt_append l (d\<lparr>rd_migration := Some \<lparr>mb_id = mig, mb_schema = x,
       mb_source_digest = bytes_digest source, mb_evidence_digest = evd\<rparr>\<rparr>) = WriteAccepted l' r ob"
    and m: "m = \<lparr>mr_source = source, mr_source_digest = bytes_digest source,
      mr_write = WriteAccepted l' r ob\<rparr>"
    by (rule migrate_acceptedD)
  note a = append_accepted [OF acc]
  obtain xs where "ld_receipts l'' = ld_receipts l' @ xs"
    using receipt_log.iterate_appends [OF append_valid [OF acc] assms(3)] by blast
  then have r: "r \<in> set (ld_receipts l'')" "migration_id (rc_draft r) = Some mig"
    using a(2,4) by (simp_all add: migration_id_def)
  have "mr_write m' \<noteq> WriteAccepted l3 r3 ob3"
  proof
    assume "mr_write m' = WriteAccepted l3 r3 ob3"
    with assms(4) obtain d3 where
      acc3: "propose_receipt_append l'' d3 = WriteAccepted l3 r3 ob3" and "migration_id d3 = Some mig"
      by (rule migrate_acceptedD) (simp add: migration_id_def)
    then show False
      using append_accepted(2,6) [OF acc3] r by (auto simp: receipt_fresh_def migrations_of_set)
  qed
  then show ?thesis using m a(2) by auto
qed

lemma v2_schema_source:
  assumes "source_schema v d = Inr (Some ''valp-dispatch-receipt.v2'')"
  shows "v2_source_valid v d = Inr True" "source_matches_draft v d False"
  using assms
  by (auto simp: source_schema_def bind_res_Inr_iff split: if_splits option.splits json.splits)

lemma v2_source_event:
  assumes "v2_source_valid v d = Inr True"
  shows "\<exists>x. jget ''event'' v = Some (JStr x) \<and> x \<in> set RECEIPT_EVENTS \<and> x \<notin> set TERMINAL_EVENTS \<and>
     (x = ''dispatch_submitted'' \<longrightarrow> v2_submission_proof_valid (jget ''proof'' v) v d)"
proof -
  have mem: "\<exists>x. y = Some (JStr x) \<and> x \<in> set xs" if "str_member y xs = Inr True" for y xs
    using that by (cases "(y, xs)" rule: str_member.cases) auto
  from assms show ?thesis
    by (auto simp: v2_source_valid_def bind_res_Inr_iff split: if_splits dest!: mem)
qed

lemma get_eq_str:
  "get_eq v k (JStr s) \<Longrightarrow> jget k v = Some (JStr s)"
proof -
  assume eq: "get_eq v k (JStr s)"
  have "x = JStr s" if "json_eq (unbool x) (JStr s)" for x
    using that by (cases x) (simp_all add: json_eq_def)
  with eq show ?thesis
    by (auto simp: get_eq_def py_eq_def json_eq_def split: option.splits)
qed

lemma v2_submission_proofD:
  assumes "v2_submission_proof_valid y v d"
  obtains pk rk where "y = Some (JObj pk)" "map_of pk ''adapter_record'' = Some (JObj rk)"
    "map_of rk ''acknowledged'' = Some (JBool True)"
    "map_of rk ''payload_digest'' = Some (JStr (rd_payload d))"
    "list_all (\<lambda>(k, w). get_eq (JObj rk) k w) (projected_fields d)"
proof -
  from assms obtain pk where y: "y = Some (JObj pk)"
    by (cases y) (simp_all add: v2_submission_proof_valid_def split: json.splits)
  with assms obtain rk where rk: "map_of pk ''adapter_record'' = Some (JObj rk)"
    by (cases "map_of pk ''adapter_record''")
       (simp_all add: v2_submission_proof_valid_def split: json.splits)
  show ?thesis
    using assms that [OF y rk] unfolding v2_submission_proof_valid_def y rk Let_def option.case json.case
    by simp
qed

text \<open>
  A v2 receipt is never upgraded beyond its proof. If a v2 source is accepted for migration,
  its event is a known one, is the event of the draft, and is not terminal, so no completion,
  block or manual result enters the ledger this way; and if it reports a submission, its proof is
  an adapter record that acknowledges the submission with the draft's payload digest and names
  the draft's receipt, task, agent and dispatch.
\<close>

theorem v2_migration_needs_proof:
  assumes "source_schema v d = Inr (Some ''valp-dispatch-receipt.v2'')"
  shows "jget ''event'' v = Some (JStr (rd_event d)) \<and> rd_event d \<in> set RECEIPT_EVENTS \<and>
     rd_event d \<notin> set TERMINAL_EVENTS \<and>
     (rd_event d = ''dispatch_submitted'' \<longrightarrow>
       (\<exists>pk rk. jget ''proof'' v = Some (JObj pk) \<and> map_of pk ''adapter_record'' = Some (JObj rk) \<and>
          map_of rk ''acknowledged'' = Some (JBool True) \<and>
          map_of rk ''payload_digest'' = Some (JStr (rd_payload d)) \<and>
          map_of rk ''receipt_id'' = Some (JStr (rd_id d)) \<and>
          map_of rk ''task_id'' = Some (JStr (rd_task d)) \<and>
          map_of rk ''agent'' = Some (JStr (rd_agent d)) \<and>
          map_of rk ''dispatch_id'' = Some (JStr (rd_dispatch d))))"
proof -
  note v = v2_schema_source [OF assms]
  from v2_source_event [OF v(1)] obtain x where x: "jget ''event'' v = Some (JStr x)"
    "x \<in> set RECEIPT_EVENTS" "x \<notin> set TERMINAL_EVENTS"
    "x = ''dispatch_submitted'' \<longrightarrow> v2_submission_proof_valid (jget ''proof'' v) v d" by blast
  have "get_eq v ''event'' (JStr (rd_event d))"
    using v(2) by (simp add: source_matches_draft_def shared_fields_def)
  from get_eq_str [OF this] x(1) have ev: "x = rd_event d" by simp
  have "\<exists>pk rk. jget ''proof'' v = Some (JObj pk) \<and> map_of pk ''adapter_record'' = Some (JObj rk) \<and>
          map_of rk ''acknowledged'' = Some (JBool True) \<and>
          map_of rk ''payload_digest'' = Some (JStr (rd_payload d)) \<and>
          map_of rk ''receipt_id'' = Some (JStr (rd_id d)) \<and>
          map_of rk ''task_id'' = Some (JStr (rd_task d)) \<and>
          map_of rk ''agent'' = Some (JStr (rd_agent d)) \<and>
          map_of rk ''dispatch_id'' = Some (JStr (rd_dispatch d))"
    if "v2_submission_proof_valid (jget ''proof'' v) v d"
    using v2_submission_proofD [OF that] get_eq_str [of "JObj _"]
    by (simp add: projected_fields_def) metis
  then show ?thesis using x ev by blast
qed

end
