(* ===== verification/Receipt_Witnesses.thy ===== *)
theory Receipt_Witnesses
  imports Receipt_Migration Kernel_Light
begin

text \<open>
  A ledger with a submission and its completion, and two migrations, as concrete situations for the
  properties of the receipt ledger.
\<close>

section \<open>Drafts and ledgers\<close>

definition one_digest :: string where
  "one_digest = ''sha256:'' @ replicate 64 (CHR ''1'')"

lemma is_digest_one_digest [simp]: "is_digest one_digest"
  by code_simp

lemma one_digest_not_no_digest [simp]: "no_digest \<noteq> one_digest" "one_digest \<noteq> no_digest"
  by code_simp+

text \<open>A draft without proofs, and the draft with the proofs of a delivery bound to it.\<close>

definition bare_draft :: "string \<Rightarrow> int \<Rightarrow> string \<Rightarrow> string \<Rightarrow> int option \<Rightarrow> receipt_draft" where
  "bare_draft i n prior event epoch =
     \<lparr>rd_id = i, rd_installation = ''i'', rd_leader_epoch = 0, rd_task = ''t'', rd_agent = ''a'',
      rd_role = ''implementer'', rd_item = ''w'', rd_attempt = ''x'', rd_dispatch = ''d'',
      rd_generation = 1, rd_mode = Closed RM_FULL, rd_sequence = n, rd_expected_revision = n - 1,
      rd_prior = prior, rd_event = event, rd_ts = ''now'', rd_dispatch_ref = ''ref'',
      rd_payload = no_digest, rd_refs = [], rd_proofs = [],
      rd_approval = \<lparr>ab_status = ''not_required'', ab_policy_digest = no_digest, ab_id = None,
        ab_ref = None, ab_digest = None, ab_action = None\<rparr>,
      rd_retry = None, rd_epoch = epoch, rd_migration = None\<rparr>"

definition proven :: "receipt_draft \<Rightarrow> receipt_draft" where
  "proven d = d\<lparr>rd_proofs :=
     [\<lparr>pb_kind = Closed PK_PROCESS_BOUND, pb_ref = ''p'', pb_digest = no_digest,
       pb_subject = receipt_subject_digest d\<rparr>,
      \<lparr>pb_kind = Closed PK_CONTENT_BOUND, pb_ref = ''c'', pb_digest = one_digest,
       pb_subject = receipt_subject_digest d\<rparr>]\<rparr>"

definition ledger_0 :: ledger where
  "ledger_0 = \<lparr>ld_installation = ''i'', ld_leader_epoch = 0, ld_task = ''t'', ld_revision = 0,
     ld_receipts = []\<rparr>"

definition submitted :: receipt_draft where
  "submitted = proven (bare_draft ''r'' 1 EMPTY_RECEIPT_LEDGER_DIGEST ''dispatch_submitted'' None)"

definition completed :: receipt_draft where
  "completed = proven (bare_draft ''s'' 2 (rc_digest (make_receipt submitted))
     ''dispatch_completed'' (Some 1))"

definition ledger_1 :: ledger where
  "ledger_1 = ledger_0\<lparr>ld_revision := 1, ld_receipts := [make_receipt submitted]\<rparr>"

definition ledger_2 :: ledger where
  "ledger_2 = ledger_0\<lparr>ld_revision := 2,
     ld_receipts := [make_receipt submitted, make_receipt completed]\<rparr>"

lemma proven_fields [simp]:
  "receipt_subject_digest (proven d) = receipt_subject_digest d"
  "rd_id (proven d) = rd_id d" "rd_installation (proven d) = rd_installation d"
  "rd_leader_epoch (proven d) = rd_leader_epoch d" "rd_task (proven d) = rd_task d"
  "rd_agent (proven d) = rd_agent d" "rd_role (proven d) = rd_role d" "rd_item (proven d) = rd_item d"
  "rd_attempt (proven d) = rd_attempt d" "rd_dispatch (proven d) = rd_dispatch d"
  "rd_generation (proven d) = rd_generation d" "rd_mode (proven d) = rd_mode d"
  "rd_sequence (proven d) = rd_sequence d" "rd_expected_revision (proven d) = rd_expected_revision d"
  "rd_prior (proven d) = rd_prior d" "rd_event (proven d) = rd_event d" "rd_ts (proven d) = rd_ts d"
  "rd_dispatch_ref (proven d) = rd_dispatch_ref d" "rd_payload (proven d) = rd_payload d"
  "rd_refs (proven d) = rd_refs d" "rd_approval (proven d) = rd_approval d"
  "rd_retry (proven d) = rd_retry d" "rd_epoch (proven d) = rd_epoch d"
  "rd_migration (proven d) = rd_migration d"
  by (simp_all add: proven_def receipt_subject_digest_def)

lemma proven_proofs:
  "list_all (proof_binding_valid (receipt_subject_digest d)) (rd_proofs (proven d))"
  "distinct (map (\<lambda>b. canonical_json (proof_binding_json b)) (rd_proofs (proven d)))"
  "rd_proofs (proven d) \<noteq> []"
  "list_all (\<lambda>b. is_closed (pb_kind b)) (rd_proofs (proven d))"
proof -
  have "is_safe_ref ''p''" "is_safe_ref ''c''" by code_simp+
  then show "list_all (proof_binding_valid (receipt_subject_digest d)) (rd_proofs (proven d))"
    by (simp add: proven_def proof_binding_valid_def)
  show "distinct (map (\<lambda>b. canonical_json (proof_binding_json b)) (rd_proofs (proven d)))"
    by (simp add: proven_def canonical_json_eq_iff proof_binding_json_def json_eq_fields)
qed (simp_all add: proven_def)

lemma proven_valid:
  assumes "event \<in> {''dispatch_submitted'', ''dispatch_written''} \<and> epoch = None \<or>
      event = ''dispatch_completed'' \<and> epoch = Some 1"
    and "i \<noteq> []" and "1 \<le> n" and "is_digest prior" and "opt_all migration_binding_valid m"
  shows "receipt_valid (make_receipt ((proven (bare_draft i n prior event epoch))\<lparr>rd_migration := m\<rparr>))"
proof -
  have r: "is_safe_ref ''ref''" by code_simp
  have "receipt_fields_ok (make_receipt ((proven (bare_draft i n prior event epoch))\<lparr>rd_migration := m\<rparr>))"
    using assms r proven_proofs [of "bare_draft i n prior event epoch"]
    by (auto simp: receipt_fields_ok_def Let_def make_receipt_def receipt_subject_digest_def
        bare_draft_def approval_binding_valid_def RECEIPT_EVENTS_def ROLES_def TERMINAL_EVENTS_def)
  moreover have "receipt_proofs_ok (proven (bare_draft i n prior event epoch)\<lparr>rd_migration := m\<rparr>)"
    using assms by (auto simp: receipt_proofs_ok_def Let_def proof_kinds_def proven_def bare_draft_def
        MANUAL_EVENTS_def)
  ultimately show ?thesis using assms(5) by (simp add: receipt_valid_def)
qed

section \<open>The appends\<close>

lemma ledger_0_valid: "ledger_valid ledger_0"
  by (simp add: ledger_valid_def ledger_0_def)

lemma submitted_valid: "receipt_valid (make_receipt submitted)"
  using proven_valid [of "''dispatch_submitted''" None "''r''" 1 EMPTY_RECEIPT_LEDGER_DIGEST None]
  by (simp add: submitted_def EMPTY_RECEIPT_LEDGER_DIGEST_def bare_draft_def proven_def)

lemma append_submitted:
  "propose_receipt_append ledger_0 submitted =
     WriteAccepted ledger_1 (make_receipt submitted)
       [''append_receipt:'' @ rc_digest (make_receipt submitted)]"
  using submitted_valid ledger_0_valid proven_proofs(4)
  by (simp add: propose_receipt_append_def Let_def ledger_1_def ledger_0_def submitted_def
      bare_draft_def RECEIPT_EVENTS_def migration_id_def tail_digest_def)

lemma ledger_1_valid: "ledger_valid ledger_1"
  using append_valid [OF append_submitted] .

lemma completed_valid: "receipt_valid (make_receipt completed)"
proof -
  have "is_digest (rc_digest (make_receipt submitted))" by simp
  from proven_valid [of "''dispatch_completed''" "Some 1" "''s''" 2, OF _ _ _ this, of None]
  show ?thesis by (simp add: completed_def bare_draft_def proven_def)
qed

lemma append_completed: "receipt_step ledger_1 completed = Some ledger_2"
  using completed_valid ledger_1_valid proven_proofs(4)
  by (simp add: receipt_step_def propose_receipt_append_def Let_def ledger_1_def ledger_2_def
      ledger_0_def submitted_def completed_def bare_draft_def RECEIPT_EVENTS_def migration_id_def
      tail_digest_def logical_key_def submission_identity_def)

section \<open>Witnesses\<close>

theorem receipt_retry_is_no_op_witness:
  "propose_receipt_append ledger_2 submitted = WriteNoOp ledger_2 (make_receipt submitted)"
  by (rule receipt_retry_is_no_op [OF append_submitted, of "[completed]"])
     (simp add: append_completed)

theorem completed_only_after_submitted_witness:
  "iterate receipt_step ledger_0 [submitted, completed] = Some ledger_2 \<and>
     completions_submitted (ld_receipts ledger_2)"
proof
  show r: "iterate receipt_step ledger_0 [submitted, completed] = Some ledger_2"
    using append_submitted append_completed by (simp add: receipt_step_def)
  show "completions_submitted (ld_receipts ledger_2)"
    by (rule completed_only_after_submitted [OF _ r]) (simp add: ledger_0_def)
qed

theorem tail_digest_binds_ledger_witness:
  "ledger_valid ledger_1 \<and>
     (list_all2 (\<lambda>r r'. canonical_json (receipt_body_json r) = canonical_json (receipt_body_json r') \<and>
        rc_digest r = rc_digest r') (ld_receipts ledger_1) (ld_receipts ledger_1) \<or>
      (\<exists>v\<in>digested (ld_receipts ledger_1). \<exists>w\<in>digested (ld_receipts ledger_1). sha_collision v w))"
  using tail_digest_binds_ledger [OF ledger_1_valid ledger_1_valid refl] ledger_1_valid by blast

text \<open>A legacy receipt, its draft, and its migration.\<close>

definition legacy_source :: json where
  "legacy_source = JObj [(''ts'', JStr ''now''), (''agent'', JStr ''a''),
     (''event'', JStr ''dispatch_submitted''), (''dispatch_ref'', JStr ''ref'')]"

definition legacy_loads :: "string \<Rightarrow> json option" where
  "legacy_loads bs = (if bs = ''legacy'' then Some legacy_source else None)"

definition legacy_binding :: migration_binding where
  "legacy_binding = \<lparr>mb_id = ''m'', mb_schema = ''legacy'', mb_source_digest = bytes_digest ''legacy'',
     mb_evidence_digest = no_digest\<rparr>"

lemma legacy_valid: "legacy_source_valid legacy_source = Inr True"
  by code_simp

lemma legacy_matches: "source_matches_draft legacy_source submitted True"
  by (simp add: source_matches_draft_def shared_fields_def legacy_source_def submitted_def
      bare_draft_def keys_def get_eq_def py_eq_def)

lemma legacy_schema: "source_schema legacy_source submitted = Inr (Some ''legacy'')"
  using legacy_valid legacy_matches by (simp add: source_schema_def legacy_source_def)

lemma append_migrated:
  "\<exists>l ob. propose_receipt_append ledger_0 (submitted\<lparr>rd_migration := Some legacy_binding\<rparr>) =
     WriteAccepted l (make_receipt (submitted\<lparr>rd_migration := Some legacy_binding\<rparr>)) ob"
proof -
  have "is_digest (bytes_digest ''legacy'')"
    unfolding bytes_digest_def by (rule is_digest_sha256)
  then have "receipt_valid (make_receipt (submitted\<lparr>rd_migration := Some legacy_binding\<rparr>))"
    using proven_valid [of "''dispatch_submitted''" None "''r''" 1 EMPTY_RECEIPT_LEDGER_DIGEST
        "Some legacy_binding"]
    by (simp add: submitted_def EMPTY_RECEIPT_LEDGER_DIGEST_def legacy_binding_def
        migration_binding_valid_def)
  then show ?thesis
    using ledger_0_valid proven_proofs(4)
    by (simp add: propose_receipt_append_def Let_def ledger_0_def submitted_def
        bare_draft_def RECEIPT_EVENTS_def migration_id_def tail_digest_def)
qed

lemma legacy_migrated:
  obtains m l r ob where "migrate_receipt legacy_loads ''legacy'' ledger_0 submitted no_digest ''m'' = Inr m"
    "mr_write m = WriteAccepted l r ob"
  using append_migrated legacy_schema
  by (auto simp: migrate_receipt_def legacy_loads_def legacy_binding_def Let_def)

theorem migration_bound_and_once_witness:
  "\<exists>m l r ob. migrate_receipt legacy_loads ''legacy'' ledger_0 submitted no_digest ''m'' = Inr m \<and>
     mr_write m = WriteAccepted l r ob \<and> mr_source m = ''legacy'' \<and>
     (\<forall>m'. migrate_receipt legacy_loads ''legacy'' l submitted no_digest ''m'' = Inr m' \<longrightarrow>
        (\<forall>l3 r3 ob3. mr_write m' \<noteq> WriteAccepted l3 r3 ob3))"
proof -
  obtain m l r ob where m: "migrate_receipt legacy_loads ''legacy'' ledger_0 submitted no_digest ''m'' = Inr m"
    "mr_write m = WriteAccepted l r ob" by (rule legacy_migrated)
  have i: "iterate receipt_step l [] = Some l" by simp
  have "\<exists>m'. migrate_receipt legacy_loads ''legacy'' l submitted no_digest ''m'' = Inr m'"
    using legacy_schema by (simp add: migrate_receipt_def legacy_loads_def Let_def)
  then have "mr_source m = ''legacy''" using migration_bound_and_once [OF m i] by blast
  with m migration_bound_and_once [OF m i] show ?thesis by blast
qed

text \<open>A v2 submission with the adapter record that proves it.\<close>

definition v2_members :: "(string \<times> json) list" where
  "v2_members =
     [(''receipt_id'', JStr ''r''), (''task_id'', JStr ''t''), (''agent'', JStr ''a''),
      (''role'', JStr ''implementer''), (''work_item_id'', JStr ''w''), (''dispatch_id'', JStr ''d''),
      (''dispatch_generation'', JInt 1), (''event_sequence'', JInt 1), (''dispatch_ref'', JStr ''ref''),
      (''expected_refs'', JArr [])]"

definition v2_source :: json where
  "v2_source = JObj (v2_members @
     [(''schema_version'', JStr ''valp-dispatch-receipt.v2''), (''ts'', JStr ''now''),
      (''event'', JStr ''dispatch_submitted''),
      (''proof'', JObj [(''adapter_record'', JObj (v2_members @
         [(''submission_id'', JStr ''q''), (''payload_digest'', JStr no_digest),
          (''acknowledged'', JBool True)]))])])"

lemma v2_schema:
  "source_schema v2_source (bare_draft ''r'' 1 no_digest ''dispatch_submitted'' None) =
     Inr (Some ''valp-dispatch-receipt.v2'')"
  by code_simp

theorem v2_migration_needs_proof_witness:
  "jget ''event'' v2_source = Some (JStr ''dispatch_submitted'') \<and>
     (\<exists>pk rk. jget ''proof'' v2_source = Some (JObj pk) \<and> map_of pk ''adapter_record'' = Some (JObj rk) \<and>
        map_of rk ''acknowledged'' = Some (JBool True) \<and>
        map_of rk ''payload_digest'' = Some (JStr no_digest))"
  using v2_migration_needs_proof [OF v2_schema] by (simp add: bare_draft_def) blast

end
