(* ===== verification/Adapter_Abi.thy ===== *)
theory Adapter_Abi
  imports Kernel_Canonical
begin

text \<open>
  The adapter contract of \<^verbatim>\<open>src/valp_cli/adapter_abi.py\<close>: manifests, requests, provenance segments,
  observations and proof policies with the checks their constructors make, and the two functions
  that judge an observation. A frozen dataclass whose \<^verbatim>\<open>__post_init__\<close> validates is a record and a
  function \<open>make_...\<close> that returns it or the exception.
\<close>

section \<open>Vocabulary\<close>

datatype adapter_operation = AO_PROBE | AO_SUBMIT | AO_OBSERVE | AO_CANCEL | AO_RESUME | AO_PROVE

primrec adapter_operation_value :: "adapter_operation \<Rightarrow> string" where
  "adapter_operation_value AO_PROBE = ''probe''"
| "adapter_operation_value AO_SUBMIT = ''submit''"
| "adapter_operation_value AO_OBSERVE = ''observe''"
| "adapter_operation_value AO_CANCEL = ''cancel''"
| "adapter_operation_value AO_RESUME = ''resume''"
| "adapter_operation_value AO_PROVE = ''prove''"

definition all_adapter_operation :: "adapter_operation list" where
  "all_adapter_operation = [AO_PROBE, AO_SUBMIT, AO_OBSERVE, AO_CANCEL, AO_RESUME, AO_PROVE]"

interpretation adapter_operation: closed_enum adapter_operation_value all_adapter_operation
proof
  fix k show "k \<in> set all_adapter_operation" by (cases k) (simp_all add: all_adapter_operation_def)
  show "distinct (map adapter_operation_value all_adapter_operation)" by code_simp
qed

datatype capability_status = CP_SUPPORTED | CP_UNSUPPORTED

primrec capability_status_value :: "capability_status \<Rightarrow> string" where
  "capability_status_value CP_SUPPORTED = ''supported''"
| "capability_status_value CP_UNSUPPORTED = ''unsupported''"

definition all_capability_status :: "capability_status list" where
  "all_capability_status = [CP_SUPPORTED, CP_UNSUPPORTED]"

interpretation capability_status: closed_enum capability_status_value all_capability_status
proof
  fix k show "k \<in> set all_capability_status" by (cases k) (simp_all add: all_capability_status_def)
  show "distinct (map capability_status_value all_capability_status)" by code_simp
qed

datatype adapter_status =
    AD_ACCEPTED | AD_WAITING | AD_COMPLETED | AD_BLOCKED | AD_CANCELLED | AD_UNSUPPORTED

primrec adapter_status_value :: "adapter_status \<Rightarrow> string" where
  "adapter_status_value AD_ACCEPTED = ''accepted''"
| "adapter_status_value AD_WAITING = ''waiting''"
| "adapter_status_value AD_COMPLETED = ''completed''"
| "adapter_status_value AD_BLOCKED = ''blocked''"
| "adapter_status_value AD_CANCELLED = ''cancelled''"
| "adapter_status_value AD_UNSUPPORTED = ''unsupported''"

definition all_adapter_status :: "adapter_status list" where
  "all_adapter_status =
     [AD_ACCEPTED, AD_WAITING, AD_COMPLETED, AD_BLOCKED, AD_CANCELLED, AD_UNSUPPORTED]"

interpretation adapter_status: closed_enum adapter_status_value all_adapter_status
proof
  fix k show "k \<in> set all_adapter_status" by (cases k) (simp_all add: all_adapter_status_def)
  show "distinct (map adapter_status_value all_adapter_status)" by code_simp
qed

datatype abi_proof_kind = AP_PROCESS_BOUND | AP_CONTENT_BOUND | AP_MANUAL_ATTESTED | AP_TRANSPORT_ONLY

primrec abi_proof_kind_value :: "abi_proof_kind \<Rightarrow> string" where
  "abi_proof_kind_value AP_PROCESS_BOUND = ''process_bound''"
| "abi_proof_kind_value AP_CONTENT_BOUND = ''content_bound''"
| "abi_proof_kind_value AP_MANUAL_ATTESTED = ''manual_attested''"
| "abi_proof_kind_value AP_TRANSPORT_ONLY = ''transport_only''"

definition all_abi_proof_kind :: "abi_proof_kind list" where
  "all_abi_proof_kind = [AP_PROCESS_BOUND, AP_CONTENT_BOUND, AP_MANUAL_ATTESTED, AP_TRANSPORT_ONLY]"

interpretation abi_proof_kind: closed_enum abi_proof_kind_value all_abi_proof_kind
proof
  fix k show "k \<in> set all_abi_proof_kind" by (cases k) (simp_all add: all_abi_proof_kind_def)
  show "distinct (map abi_proof_kind_value all_abi_proof_kind)" by code_simp
qed

datatype adapter_mode = AM_FULL | AM_REMOTE | AM_MANUAL

primrec adapter_mode_value :: "adapter_mode \<Rightarrow> string" where
  "adapter_mode_value AM_FULL = ''full''"
| "adapter_mode_value AM_REMOTE = ''remote''"
| "adapter_mode_value AM_MANUAL = ''manual''"

definition all_adapter_mode :: "adapter_mode list" where
  "all_adapter_mode = [AM_FULL, AM_REMOTE, AM_MANUAL]"

interpretation adapter_mode: closed_enum adapter_mode_value all_adapter_mode
proof
  fix k show "k \<in> set all_adapter_mode" by (cases k) (simp_all add: all_adapter_mode_def)
  show "distinct (map adapter_mode_value all_adapter_mode)" by code_simp
qed

definition ABI_VERSION :: string where "ABI_VERSION = ''1.0''"

definition nonempty_opt :: "string option \<Rightarrow> bool" where
  "nonempty_opt x = (case x of None \<Rightarrow> False | Some s \<Rightarrow> s \<noteq> [])"

lemma nonempty_opt_simps [simp]:
  "\<not> nonempty_opt None"
  "nonempty_opt (Some s) \<longleftrightarrow> s \<noteq> []"
  by (simp_all add: nonempty_opt_def)

definition safe_ref :: "string \<Rightarrow> bool" where
  "safe_ref v =
     (if v = [] \<or> hd v = CHR ''/'' \<or> hd v = backslash \<or> backslash \<in> set v then False
      else list_all (\<lambda>part. part \<notin> {'''', ''.'', ''..''}) (path_parts v))"

section \<open>Manifests\<close>

record capability =
  ca_operation :: adapter_operation
  ca_status :: capability_status
  ca_reason :: "string option"

definition make_capability ::
  "adapter_operation \<Rightarrow> capability_status \<Rightarrow> string option \<Rightarrow> capability res" where
  "make_capability op st reason =
     (if st = CP_UNSUPPORTED \<and> \<not> nonempty_opt reason
      then Inl (ValueError ''unsupported Adapter capability requires a reason'')
      else if st = CP_SUPPORTED \<and> reason \<noteq> None
      then Inl (ValueError ''supported Adapter capability cannot carry an unsupported reason'')
      else Inr \<lparr>ca_operation = op, ca_status = st, ca_reason = reason\<rparr>)"

definition capability_json :: "capability \<Rightarrow> json" where
  "capability_json c =
     JObj ([(''operation'', JStr (adapter_operation_value (ca_operation c))),
            (''status'', JStr (capability_status_value (ca_status c)))]
           @ opt_entry ''reason'' JStr (ca_reason c))"

record manifest =
  mf_id :: string
  mf_class :: string
  mf_abi_version :: string
  mf_capabilities :: "capability list"

text \<open>\<^verbatim>\<open>list(AdapterOperation).index(operation)\<close>.\<close>

definition operation_index :: "adapter_operation \<Rightarrow> nat" where
  "operation_index op = the (find_index (\<lambda>x. x = op) all_adapter_operation)"

definition make_manifest :: "string \<Rightarrow> string \<Rightarrow> string \<Rightarrow> capability list \<Rightarrow> manifest res" where
  "make_manifest adapter_id adapter_class version caps =
     (if adapter_id = [] \<or> adapter_class = []
      then Inl (ValueError ''Adapter identity and class are required'')
      else if version \<noteq> ABI_VERSION then Inl (ValueError ''unsupported Adapter ABI version'')
      else if length caps \<noteq> length all_adapter_operation
         \<or> ca_operation ` set caps \<noteq> set all_adapter_operation
      then Inl (ValueError ''Adapter manifest requires one capability per operation'')
      else Inr \<lparr>mf_id = adapter_id, mf_class = adapter_class, mf_abi_version = version,
                mf_capabilities = sort_key (\<lambda>c. operation_index (ca_operation c)) caps\<rparr>)"

definition manifest_capability :: "manifest \<Rightarrow> adapter_operation \<Rightarrow> capability res" where
  "manifest_capability m op =
     (case List.find (\<lambda>c. ca_operation c = op) (mf_capabilities m) of
        None \<Rightarrow> Inl StopIteration
      | Some c \<Rightarrow> Inr c)"

definition manifest_json :: "manifest \<Rightarrow> json" where
  "manifest_json m =
     JObj [(''schema_version'', JStr ''valp-adapter-manifest.v1''),
           (''adapter_id'', JStr (mf_id m)),
           (''adapter_class'', JStr (mf_class m)),
           (''abi_version'', JStr (mf_abi_version m)),
           (''capabilities'', JArr (map capability_json (mf_capabilities m)))]"

section \<open>Requests, provenance, observations\<close>

record request =
  rq_id :: string
  rq_operation :: adapter_operation
  rq_installation :: string
  rq_leader_epoch :: int
  rq_task :: string
  rq_item :: string
  rq_attempt :: string
  rq_dispatch :: string
  rq_generation :: int
  rq_payload :: string
  rq_refs :: "string list"

definition make_request :: "request \<Rightarrow> request res" where
  "make_request r =
     (if \<not> list_all (\<lambda>x. x \<noteq> [])
           [rq_id r, rq_installation r, rq_task r, rq_item r, rq_attempt r, rq_dispatch r]
         \<or> rq_leader_epoch r < 0 \<or> rq_generation r < 0 \<or> \<not> is_digest (rq_payload r)
         \<or> \<not> distinct (rq_refs r) \<or> \<not> list_all safe_ref (rq_refs r)
      then Inl (ValueError ''invalid Adapter request'')
      else Inr r)"

definition request_json :: "request \<Rightarrow> json" where
  "request_json r =
     JObj [(''schema_version'', JStr ''valp-adapter-request.v1''),
           (''request_id'', JStr (rq_id r)),
           (''operation'', JStr (adapter_operation_value (rq_operation r))),
           (''installation_id'', JStr (rq_installation r)),
           (''leader_epoch'', JInt (rq_leader_epoch r)),
           (''task_id'', JStr (rq_task r)),
           (''work_item_id'', JStr (rq_item r)),
           (''attempt_id'', JStr (rq_attempt r)),
           (''dispatch_id'', JStr (rq_dispatch r)),
           (''dispatch_generation'', JInt (rq_generation r)),
           (''payload_digest'', JStr (rq_payload r)),
           (''expected_evidence_refs'', JArr (map JStr (rq_refs r)))]"

record segment =
  sg_id :: string
  sg_sequence :: int
  sg_adapter :: string
  sg_abi_version :: string
  sg_input_identity :: string
  sg_input_digest :: string
  sg_output_identity :: string
  sg_output_digest :: string
  sg_kind :: abi_proof_kind
  sg_refs :: "string list"
  sg_acknowledged :: bool
  sg_failure :: "string option"

definition make_segment :: "segment \<Rightarrow> segment res" where
  "make_segment g =
     (if \<not> list_all (\<lambda>x. x \<noteq> []) [sg_id g, sg_adapter g, sg_input_identity g, sg_output_identity g]
         \<or> sg_sequence g < 0 \<or> sg_abi_version g \<noteq> ABI_VERSION
         \<or> \<not> is_digest (sg_input_digest g) \<or> \<not> is_digest (sg_output_digest g)
         \<or> sg_refs g = [] \<or> \<not> distinct (sg_refs g) \<or> \<not> list_all safe_ref (sg_refs g)
         \<or> (sg_acknowledged g \<and> sg_failure g \<noteq> None)
         \<or> (\<not> sg_acknowledged g \<and> \<not> nonempty_opt (sg_failure g))
      then Inl (ValueError ''invalid Adapter provenance segment'')
      else Inr g)"

definition segment_json :: "segment \<Rightarrow> json" where
  "segment_json g =
     JObj ([(''segment_id'', JStr (sg_id g)),
            (''sequence'', JInt (sg_sequence g)),
            (''adapter_id'', JStr (sg_adapter g)),
            (''abi_version'', JStr (sg_abi_version g)),
            (''input_identity'', JStr (sg_input_identity g)),
            (''input_digest'', JStr (sg_input_digest g)),
            (''output_identity'', JStr (sg_output_identity g)),
            (''output_digest'', JStr (sg_output_digest g)),
            (''proof_kind'', JStr (abi_proof_kind_value (sg_kind g))),
            (''evidence_refs'', JArr (map JStr (sg_refs g))),
            (''acknowledged'', JBool (sg_acknowledged g))]
           @ opt_entry ''failure_code'' JStr (sg_failure g))"

record observation =
  ob_id :: string
  ob_request :: request
  ob_sequence :: int
  ob_status :: adapter_status
  ob_runtime :: "string option"
  ob_provenance :: "segment list"
  ob_refs :: "string list"
  ob_reason :: "string option"

text \<open>The loop over the segments: the index, the previous segment, and the rest.\<close>

fun check_provenance :: "int \<Rightarrow> segment option \<Rightarrow> segment list \<Rightarrow> unit res" where
  "check_provenance i prev [] = Inr ()"
| "check_provenance i prev (g # gs) =
     (if sg_sequence g \<noteq> i
      then Inl (ValueError ''Adapter provenance sequence is not contiguous'')
      else case prev of
        None \<Rightarrow> check_provenance (i + 1) (Some g) gs
      | Some p \<Rightarrow>
          if sg_output_identity p \<noteq> sg_input_identity g \<or> sg_output_digest p \<noteq> sg_input_digest g
          then Inl (ValueError ''Adapter provenance chain is discontinuous'')
          else check_provenance (i + 1) (Some g) gs)"

definition make_observation :: "observation \<Rightarrow> observation res" where
  "make_observation b =
     (if ob_id b = [] \<or> ob_sequence b < 0
         \<or> (ob_runtime b \<noteq> None \<and> \<not> nonempty_opt (ob_runtime b))
         \<or> \<not> distinct (ob_refs b) \<or> \<not> list_all safe_ref (ob_refs b)
         \<or> \<not> distinct (map sg_id (ob_provenance b))
      then Inl (ValueError ''invalid Adapter observation'')
      else bind_res (check_provenance 0 None (ob_provenance b)) (\<lambda>_. Inr b))"

definition observation_json :: "observation \<Rightarrow> json" where
  "observation_json b =
     JObj ([(''schema_version'', JStr ''valp-adapter-observation.v1''),
            (''observation_id'', JStr (ob_id b)),
            (''request'', request_json (ob_request b)),
            (''sequence'', JInt (ob_sequence b)),
            (''status'', JStr (adapter_status_value (ob_status b))),
            (''provenance'', JArr (map segment_json (ob_provenance b))),
            (''evidence_refs'', JArr (map JStr (ob_refs b)))]
           @ opt_entry ''runtime_identity'' JStr (ob_runtime b)
           @ opt_entry ''reason'' JStr (ob_reason b))"

section \<open>Policies and judgements\<close>

record policy =
  po_mode :: adapter_mode
  po_kinds :: "abi_proof_kind list"
  po_issuer :: "string option"
  po_host :: "string option"

definition make_policy :: "policy \<Rightarrow> policy res" where
  "make_policy p =
     (if po_kinds p = [] \<or> \<not> distinct (po_kinds p)
         \<or> (po_mode p = AM_REMOTE \<and> \<not> (nonempty_opt (po_issuer p) \<and> nonempty_opt (po_host p)))
         \<or> (po_mode p \<noteq> AM_REMOTE \<and> (po_issuer p \<noteq> None \<or> po_host p \<noteq> None))
      then Inl (ValueError ''invalid Composite proof policy'')
      else Inr p)"

definition policy_json :: "policy \<Rightarrow> json" where
  "policy_json p =
     JObj ([(''schema_version'', JStr ''valp-composite-proof-policy.v1''),
            (''mode'', JStr (adapter_mode_value (po_mode p))),
            (''required_proof_kinds'', JArr (map (\<lambda>k. JStr (abi_proof_kind_value k)) (po_kinds p)))]
           @ (case po_issuer p of
                None \<Rightarrow> []
              | Some x \<Rightarrow> [(''remote_issuer'', JStr x),
                           (''remote_host'', case po_host p of None \<Rightarrow> JNull | Some y \<Rightarrow> JStr y)]))"

definition validate_observation :: "manifest \<Rightarrow> observation \<Rightarrow> unit res" where
  "validate_observation m b =
     bind_res (manifest_capability m (rq_operation (ob_request b))) (\<lambda>c.
       if ca_status c = CP_UNSUPPORTED \<and> (ob_status b \<noteq> AD_UNSUPPORTED \<or> ob_reason b \<noteq> ca_reason c)
       then Inl (ValueError ''unsupported capability observation mismatch'')
       else if ca_status c = CP_UNSUPPORTED \<and> (ob_provenance b \<noteq> [] \<or> ob_runtime b \<noteq> None)
       then Inl (ValueError ''unsupported operation cannot claim runtime proof'')
       else if ca_status c \<noteq> CP_UNSUPPORTED \<and> ob_status b = AD_UNSUPPORTED
       then Inl (ValueError ''supported capability cannot return unsupported'')
       else if ob_provenance b \<noteq> [] \<and> sg_adapter (last (ob_provenance b)) \<noteq> mf_id m
       then Inl (ValueError ''final provenance segment must belong to observing Adapter'')
       else Inr ())"

record assessment =
  as_passed :: bool
  as_reasons :: "string list"

definition assess_composite_proof :: "observation \<Rightarrow> policy \<Rightarrow> assessment" where
  "assess_composite_proof b p =
     (let kinds = sg_kind ` set (ob_provenance b);
          reasons =
            map (\<lambda>k. ''missing_proof:'' @ abi_proof_kind_value k) (filter (\<lambda>k. k \<notin> kinds) (po_kinds p))
            @ (if list_ex (\<lambda>g. sg_kind g = AP_TRANSPORT_ONLY) (ob_provenance b)
               then [''transport_only_segment''] else [])
            @ (if list_ex (\<lambda>g. \<not> sg_acknowledged g) (ob_provenance b)
               then [''unacknowledged_segment''] else [])
            @ (if po_mode p \<in> {AM_FULL, AM_REMOTE} \<and> AP_MANUAL_ATTESTED \<in> kinds
               then [''manual_proof_relabelled''] else [])
            @ (if po_mode p = AM_MANUAL \<and> (\<exists>k\<in>kinds. k \<noteq> AP_MANUAL_ATTESTED)
               then [''non_manual_proof_in_manual_mode''] else [])
            @ (if ob_status b = AD_COMPLETED \<and> \<not> set (rq_refs (ob_request b)) \<subseteq> set (ob_refs b)
               then [''missing_expected_evidence''] else [])
      in \<lparr>as_passed = (reasons = []), as_reasons = reasons\<rparr>)"

definition assessment_json :: "assessment \<Rightarrow> json" where
  "assessment_json x =
     JObj [(''schema_version'', JStr ''valp-composite-proof-assessment.v1''),
           (''passed'', JBool (as_passed x)),
           (''reasons'', JArr (map JStr (as_reasons x)))]"

section \<open>Manifests are total\<close>

lemma operation_index_inj: "operation_index a = operation_index b \<Longrightarrow> a = b"
  by (cases a; cases b) (simp_all add: operation_index_def all_adapter_operation_def)

lemma sorted_operations:
  "map operation_index all_adapter_operation = [0, 1, 2, 3, 4, 5]"
  by (simp add: operation_index_def all_adapter_operation_def)

text \<open>
  A manifest answers for every operation. Whatever the order in which the capabilities are
  listed, a manifest that can be constructed holds exactly one capability for each of the six
  operations, in the order of their declaration, and looking one up never fails.
\<close>

theorem manifest_total:
  assumes "make_manifest i c v caps = Inr m"
  shows "map ca_operation (mf_capabilities m) = all_adapter_operation \<and>
     mset (mf_capabilities m) = mset caps \<and>
     (\<forall>op. \<exists>x. manifest_capability m op = Inr x \<and> x \<in> set caps \<and> ca_operation x = op)"
proof -
  from assms have len: "length caps = length all_adapter_operation"
    and ops: "ca_operation ` set caps = set all_adapter_operation"
    and m: "mf_capabilities m = sort_key (\<lambda>c. operation_index (ca_operation c)) caps"
    by (auto simp: make_manifest_def split: if_splits)
  let ?ys = "map ca_operation (mf_capabilities m)"
  have set_ys: "set ?ys = set all_adapter_operation" using ops m by simp
  have "card (set ?ys) = length ?ys"
    using set_ys len m by (simp add: all_adapter_operation_def)
  then have dist: "distinct ?ys" by (rule card_distinct)
  have "map operation_index ?ys = map operation_index all_adapter_operation"
  proof (rule sorted_distinct_set_unique)
    show "sorted (map operation_index ?ys)" by (simp add: m comp_def)
    show "distinct (map operation_index ?ys)"
      using dist by (simp only: distinct_map) (auto intro: inj_onI dest: operation_index_inj)
    show "sorted (map operation_index all_adapter_operation)" by (simp add: sorted_operations)
    show "distinct (map operation_index all_adapter_operation)" by (simp add: sorted_operations)
    show "set (map operation_index ?ys) = set (map operation_index all_adapter_operation)"
      using set_ys by (metis set_map)
  qed
  then have ys: "?ys = all_adapter_operation"
    by (rule map_injective) (auto intro: injI operation_index_inj)
  have "\<exists>x. manifest_capability m op = Inr x \<and> x \<in> set caps \<and> ca_operation x = op" for op
  proof -
    have "op \<in> set ?ys" using ys adapter_operation.members_complete by simp
    then obtain x where "List.find (\<lambda>c. ca_operation c = op) (mf_capabilities m) = Some x"
      by (cases "List.find (\<lambda>c. ca_operation c = op) (mf_capabilities m)") (auto simp: find_None_iff)
    with find_SomeD [OF this] m show ?thesis by (auto simp: manifest_capability_def)
  qed
  then show ?thesis using ys m by simp
qed

section \<open>Provenance\<close>

lemma check_provenance_iff:
  "check_provenance i prev gs = Inr () \<longleftrightarrow>
     (\<forall>j<length gs. sg_sequence (gs ! j) = i + int j) \<and>
     (\<forall>j. Suc j < length gs \<longrightarrow> sg_output_identity (gs ! j) = sg_input_identity (gs ! Suc j) \<and>
        sg_output_digest (gs ! j) = sg_input_digest (gs ! Suc j)) \<and>
     (\<forall>p. prev = Some p \<longrightarrow> gs \<noteq> [] \<longrightarrow> sg_output_identity p = sg_input_identity (hd gs) \<and>
        sg_output_digest p = sg_input_digest (hd gs))"
proof (induction gs arbitrary: i prev)
  case Nil
  then show ?case by simp
next
  case (Cons g gs)
  have seq: "(\<forall>j<length (g # gs). sg_sequence ((g # gs) ! j) = i + int j) \<longleftrightarrow>
      sg_sequence g = i \<and> (\<forall>j<length gs. sg_sequence (gs ! j) = (i + 1) + int j)"
    by (auto simp: less_Suc_eq_0_disj ac_simps)
  have links: "(\<forall>j. Suc j < length (g # gs) \<longrightarrow>
        sg_output_identity ((g # gs) ! j) = sg_input_identity ((g # gs) ! Suc j) \<and>
        sg_output_digest ((g # gs) ! j) = sg_input_digest ((g # gs) ! Suc j)) \<longleftrightarrow>
      (gs \<noteq> [] \<longrightarrow> sg_output_identity g = sg_input_identity (hd gs) \<and>
        sg_output_digest g = sg_input_digest (hd gs)) \<and>
      (\<forall>j. Suc j < length gs \<longrightarrow> sg_output_identity (gs ! j) = sg_input_identity (gs ! Suc j) \<and>
        sg_output_digest (gs ! j) = sg_input_digest (gs ! Suc j))"
    by (cases gs) (auto simp: nth_Cons split: nat.splits)
  show ?case
    unfolding seq links by (cases prev) (auto simp: Cons.IH)
qed

text \<open>
  Provenance is an unbroken chain. An observation that can be constructed has segments
  numbered consecutively from zero with distinct identities, each taking as its input exactly the
  identity and digest that its predecessor put out; conversely an observation whose other fields
  are well formed is refused only if this fails.
\<close>

theorem provenance_unbroken:
  "make_observation b = Inr b' \<longleftrightarrow>
     b' = b \<and> ob_id b \<noteq> [] \<and> 0 \<le> ob_sequence b \<and> ob_runtime b \<noteq> Some [] \<and>
     distinct (ob_refs b) \<and> list_all safe_ref (ob_refs b) \<and>
     distinct (map sg_id (ob_provenance b)) \<and>
     (\<forall>j<length (ob_provenance b). sg_sequence (ob_provenance b ! j) = int j) \<and>
     (\<forall>j. Suc j < length (ob_provenance b) \<longrightarrow>
        sg_output_identity (ob_provenance b ! j) = sg_input_identity (ob_provenance b ! Suc j) \<and>
        sg_output_digest (ob_provenance b ! j) = sg_input_digest (ob_provenance b ! Suc j))"
proof -
  have chain: "check_provenance 0 None (ob_provenance b) = Inr u \<longleftrightarrow>
      (\<forall>j<length (ob_provenance b). sg_sequence (ob_provenance b ! j) = int j) \<and>
      (\<forall>j. Suc j < length (ob_provenance b) \<longrightarrow>
        sg_output_identity (ob_provenance b ! j) = sg_input_identity (ob_provenance b ! Suc j) \<and>
        sg_output_digest (ob_provenance b ! j) = sg_input_digest (ob_provenance b ! Suc j))" for u
    using check_provenance_iff [of 0 None "ob_provenance b"] by simp
  show ?thesis
    unfolding make_observation_def by (auto simp: bind_res_Inr_iff chain not_less)
qed

section \<open>Judgements\<close>

text \<open>
  No proof for what an adapter cannot do. If an observation passes validation against a
  constructed manifest and the manifest declares the operation unsupported, the observation says
  so with the declared reason and carries neither provenance nor a runtime identity; if the
  operation is supported, the observation does not claim otherwise; and any provenance ends at
  the observing adapter.
\<close>

theorem validated_observation_is_honest:
  assumes "make_manifest i c v caps = Inr m" and "validate_observation m b = Inr ()"
  shows "\<exists>x\<in>set caps. ca_operation x = rq_operation (ob_request b) \<and>
     (if ca_status x = CP_UNSUPPORTED
      then ob_status b = AD_UNSUPPORTED \<and> ob_reason b = ca_reason x \<and> ob_provenance b = [] \<and>
        ob_runtime b = None
      else ob_status b \<noteq> AD_UNSUPPORTED) \<and>
     (ob_provenance b \<noteq> [] \<longrightarrow> sg_adapter (last (ob_provenance b)) = i)"
proof -
  have "mf_id m = i" using assms(1) by (auto simp: make_manifest_def split: if_splits)
  moreover obtain x where x: "manifest_capability m (rq_operation (ob_request b)) = Inr x"
    using assms(2) by (auto simp: validate_observation_def bind_res_Inr_iff)
  then have "x \<in> set (mf_capabilities m)" "ca_operation x = rq_operation (ob_request b)"
    by (auto simp: manifest_capability_def split: option.splits dest: find_SomeD)
  moreover have "set (mf_capabilities m) = set caps"
    using assms(1) by (auto simp: make_manifest_def split: if_splits)
  ultimately show ?thesis
    using assms(2) x by (intro bexI [of _ x]) (auto simp: validate_observation_def split: if_splits)
qed

text \<open>When the list of reasons is empty.\<close>

lemma assessment_passes_iff:
  assumes "make_policy p = Inr q"
  shows "as_passed (assess_composite_proof b q) \<longleftrightarrow>
     ob_provenance b \<noteq> [] \<and> set (po_kinds q) \<subseteq> sg_kind ` set (ob_provenance b) \<and>
     (\<forall>g\<in>set (ob_provenance b). sg_acknowledged g \<and>
        (if po_mode q = AM_MANUAL then sg_kind g = AP_MANUAL_ATTESTED
         else sg_kind g \<in> {AP_PROCESS_BOUND, AP_CONTENT_BOUND})) \<and>
     (ob_status b = AD_COMPLETED \<longrightarrow> set (rq_refs (ob_request b)) \<subseteq> set (ob_refs b))"
proof -
  have kinds: "po_kinds q \<noteq> []" using assms by (auto simp: make_policy_def split: if_splits)
  have fits: "sg_kind g \<noteq> AP_TRANSPORT_ONLY \<and>
      (po_mode q \<in> {AM_FULL, AM_REMOTE} \<longrightarrow> sg_kind g \<noteq> AP_MANUAL_ATTESTED) \<and>
      (po_mode q = AM_MANUAL \<longrightarrow> sg_kind g = AP_MANUAL_ATTESTED) \<longleftrightarrow>
      (if po_mode q = AM_MANUAL then sg_kind g = AP_MANUAL_ATTESTED
       else sg_kind g \<in> {AP_PROCESS_BOUND, AP_CONTENT_BOUND})" for g
    by (cases "sg_kind g"; cases "po_mode q") simp_all
  have sets: "(filter (\<lambda>k. k \<notin> K) xs = []) \<longleftrightarrow> set xs \<subseteq> K" for K and xs :: "abi_proof_kind list"
    by (auto simp: filter_empty_conv)
  have one: "((if c then [x] else []) = []) \<longleftrightarrow> \<not> c" for c and x :: string
    by simp
  have "as_passed (assess_composite_proof b q) \<longleftrightarrow>
      set (po_kinds q) \<subseteq> sg_kind ` set (ob_provenance b) \<and>
      (\<forall>g\<in>set (ob_provenance b). sg_kind g \<noteq> AP_TRANSPORT_ONLY) \<and>
      (\<forall>g\<in>set (ob_provenance b). sg_acknowledged g) \<and>
      (po_mode q \<in> {AM_FULL, AM_REMOTE} \<longrightarrow> (\<forall>g\<in>set (ob_provenance b). sg_kind g \<noteq> AP_MANUAL_ATTESTED)) \<and>
      (po_mode q = AM_MANUAL \<longrightarrow> (\<forall>g\<in>set (ob_provenance b). sg_kind g = AP_MANUAL_ATTESTED)) \<and>
      (ob_status b = AD_COMPLETED \<longrightarrow> set (rq_refs (ob_request b)) \<subseteq> set (ob_refs b))"
    unfolding assess_composite_proof_def Let_def
    by (simp only: assessment.select_convs append_is_Nil_conv map_is_Nil_conv one sets list_ex_iff)
       (intro conj_cong refl; force)
  then have "as_passed (assess_composite_proof b q) \<longleftrightarrow>
      set (po_kinds q) \<subseteq> sg_kind ` set (ob_provenance b) \<and>
      (\<forall>g\<in>set (ob_provenance b). sg_acknowledged g \<and> sg_kind g \<noteq> AP_TRANSPORT_ONLY \<and>
        (po_mode q \<in> {AM_FULL, AM_REMOTE} \<longrightarrow> sg_kind g \<noteq> AP_MANUAL_ATTESTED) \<and>
        (po_mode q = AM_MANUAL \<longrightarrow> sg_kind g = AP_MANUAL_ATTESTED)) \<and>
      (ob_status b = AD_COMPLETED \<longrightarrow> set (rq_refs (ob_request b)) \<subseteq> set (ob_refs b))"
    by blast
  moreover have "ob_provenance b \<noteq> []" if "set (po_kinds q) \<subseteq> sg_kind ` set (ob_provenance b)"
    using that kinds by auto
  ultimately show ?thesis unfolding fits by blast
qed

text \<open>
  The reference check of the adapter contract lets through what the receipt ledger refuses: the
  empty and \<^verbatim>\<open>"."\<close> components it means to exclude are gone before it looks.
\<close>

lemma safe_ref_dot: "safe_ref ''.'' \<and> safe_ref ''a//b'' \<and> safe_ref ''./a'' \<and> \<not> safe_ref ''a/../b''"
  by code_simp

section \<open>The proof contract\<close>

text \<open>
  The contract of SPEC 21.5.1: the kinds a mode requires, and what a proof must be. Full and remote
  execution need a process-bound and a content-bound segment, and no segment that is a transport
  record or a manual statement; manual work needs manual attestations and nothing else.
\<close>

fun contract_kinds :: "adapter_mode \<Rightarrow> abi_proof_kind set" where
  "contract_kinds AM_MANUAL = {AP_MANUAL_ATTESTED}"
| "contract_kinds _ = {AP_PROCESS_BOUND, AP_CONTENT_BOUND}"

definition meets_contract :: "adapter_mode \<Rightarrow> observation \<Rightarrow> bool" where
  "meets_contract mode b \<longleftrightarrow>
     sg_kind ` set (ob_provenance b) = contract_kinds mode \<and> (\<forall>g\<in>set (ob_provenance b). sg_acknowledged g) \<and>
     (ob_status b = AD_COMPLETED \<longrightarrow> set (rq_refs (ob_request b)) \<subseteq> set (ob_refs b))"

text \<open>A chain without a gap or a failure that ends at the given adapter, for an operation it supports.\<close>

definition end_to_end :: "string \<Rightarrow> capability list \<Rightarrow> observation \<Rightarrow> bool" where
  "end_to_end i caps b \<longleftrightarrow>
     (\<exists>x\<in>set caps. ca_operation x = rq_operation (ob_request b) \<and> ca_status x = CP_SUPPORTED) \<and>
     (\<forall>j<length (ob_provenance b). sg_sequence (ob_provenance b ! j) = int j) \<and>
     (\<forall>j. Suc j < length (ob_provenance b) \<longrightarrow>
        sg_output_identity (ob_provenance b ! j) = sg_input_identity (ob_provenance b ! Suc j) \<and>
        sg_output_digest (ob_provenance b ! j) = sg_input_digest (ob_provenance b ! Suc j)) \<and>
     (\<forall>g\<in>set (ob_provenance b). sg_failure g = None) \<and>
     sg_adapter (last (ob_provenance b)) = i"

definition segments_made :: "observation \<Rightarrow> bool" where
  "segments_made b \<longleftrightarrow> list_all (\<lambda>g. make_segment g = Inr g) (ob_provenance b)"

lemma assessment_contract:
  assumes "make_policy p = Inr q" and "set (po_kinds q) = contract_kinds (po_mode q)"
  shows "as_passed (assess_composite_proof b q) \<longleftrightarrow> meets_contract (po_mode q) b"
proof (cases "po_mode q")
  case AM_MANUAL
  then show ?thesis
    using assms(2) unfolding assessment_passes_iff [OF assms(1)] meets_contract_def by auto
qed (use assms(2) in \<open>unfold assessment_passes_iff [OF assms(1)] meets_contract_def, auto\<close>)

lemma contract_kinds_nonempty: "meets_contract mode b \<Longrightarrow> ob_provenance b \<noteq> []"
  by (cases mode) (auto simp: meets_contract_def)

text \<open>A policy of the full mode that asks for one kind only, and an observation that has only this kind.\<close>

lemma one_kind_passes:
  "\<exists>q b. make_policy q = Inr q \<and> po_mode q = AM_FULL \<and> make_observation b = Inr b \<and> segments_made b \<and>
     as_passed (assess_composite_proof b q) \<and> \<not> meets_contract (po_mode q) b"
proof -
  let ?g = "\<lparr>sg_id = ''g'', sg_sequence = 0, sg_adapter = ''m'', sg_abi_version = ABI_VERSION,
     sg_input_identity = ''a'', sg_input_digest = digest JNull, sg_output_identity = ''b'',
     sg_output_digest = digest JNull, sg_kind = AP_PROCESS_BOUND, sg_refs = [''r''],
     sg_acknowledged = True, sg_failure = None\<rparr>"
  let ?rq = "\<lparr>rq_id = ''q'', rq_operation = AO_SUBMIT, rq_installation = ''i'', rq_leader_epoch = 0,
     rq_task = ''t'', rq_item = ''w'', rq_attempt = ''x'', rq_dispatch = ''d'', rq_generation = 0,
     rq_payload = digest JNull, rq_refs = []\<rparr>"
  let ?b = "\<lparr>ob_id = ''o'', ob_request = ?rq, ob_sequence = 0, ob_status = AD_ACCEPTED, ob_runtime = None,
     ob_provenance = [?g], ob_refs = [], ob_reason = None\<rparr>"
  let ?q = "\<lparr>po_mode = AM_FULL, po_kinds = [AP_PROCESS_BOUND], po_issuer = None, po_host = None\<rparr>"
  have q: "make_policy ?q = Inr ?q" by (simp add: make_policy_def)
  have "safe_ref ''r''" by code_simp
  then have "make_observation ?b = Inr ?b" "segments_made ?b"
    by (simp_all add: make_observation_def segments_made_def make_segment_def)
  moreover have "as_passed (assess_composite_proof ?b ?q)"
    unfolding assessment_passes_iff [OF q] by simp
  moreover have "\<not> meets_contract AM_FULL ?b" by (simp add: meets_contract_def)
  ultimately show ?thesis using q by (intro exI [of _ ?q] exI [of _ ?b]) simp
qed

text \<open>
  C34. What a passed assessment proves. Take a manifest, an observation with its segments and a policy
  that can be constructed, the observation valid for the manifest. When the policy requires the kinds
  that SPEC 21.5.1 names for its mode, the assessment passes exactly when the observation meets the
  contract of that section: for full and remote execution process-bound and content-bound segments and
  no others, for manual work manual attestations and no others, every segment acknowledged, and all
  expected evidence when it is completed. A proof that passes is then an unbroken chain without
  failures that ends at the observing adapter, for an operation it declares supported. The code leaves
  the kinds to the policy, which is where it departs from that section: there are a policy of the full
  mode and an observation that pass without a content-bound segment.
\<close>

theorem passed_proof_meets_contract:
  assumes "make_manifest i c v caps = Inr m" and "make_observation b0 = Inr b" and "segments_made b"
    and "validate_observation m b = Inr ()" and "make_policy p = Inr q"
    and "set (po_kinds q) = contract_kinds (po_mode q)"
  shows "(as_passed (assess_composite_proof b q) \<longleftrightarrow> meets_contract (po_mode q) b) \<and>
     (as_passed (assess_composite_proof b q) \<longrightarrow> end_to_end i caps b) \<and>
     (\<exists>q b. make_policy q = Inr q \<and> po_mode q = AM_FULL \<and> make_observation b = Inr b \<and> segments_made b \<and>
        as_passed (assess_composite_proof b q) \<and> \<not> meets_contract (po_mode q) b)"
proof -
  have "end_to_end i caps b" if "meets_contract (po_mode q) b"
  proof -
    have nonempty: "ob_provenance b \<noteq> []" using contract_kinds_nonempty [OF that] .
    have "b0 = b" "\<forall>g\<in>set (ob_provenance b). sg_failure g = None"
      using assms(2,3) that provenance_unbroken [of b0 b]
      by (auto simp: segments_made_def make_segment_def list_all_iff meets_contract_def split: if_splits)
    moreover have "\<exists>x\<in>set caps. ca_operation x = rq_operation (ob_request b) \<and> ca_status x = CP_SUPPORTED"
      using validated_observation_is_honest [OF assms(1,4)] nonempty by (metis capability_status.exhaust)
    ultimately show ?thesis
      using assms(2) provenance_unbroken [of b0 b] validated_observation_is_honest [OF assms(1,4)] nonempty
      unfolding end_to_end_def by blast
  qed
  with assessment_contract [OF assms(5,6)] one_kind_passes show ?thesis by blast
qed

end
