(* ===== verification/Adapter_Witnesses.thy ===== *)
theory Adapter_Witnesses
  imports Adapter_Abi Kernel_Light
begin

text \<open>
  An adapter that can do everything but resume, an observation of two segments, and the policy of
  the full mode, as concrete situations for the properties of the adapter contract.
\<close>

definition demo_capabilities :: "capability list" where
  "demo_capabilities =
     \<lparr>ca_operation = AO_RESUME, ca_status = CP_UNSUPPORTED, ca_reason = Some ''no session''\<rparr> #
     map (\<lambda>op. \<lparr>ca_operation = op, ca_status = CP_SUPPORTED, ca_reason = None\<rparr>)
       [AO_PROBE, AO_SUBMIT, AO_OBSERVE, AO_CANCEL, AO_PROVE]"

definition demo_manifest :: manifest where
  "demo_manifest = \<lparr>mf_id = ''m'', mf_class = ''process'', mf_abi_version = ABI_VERSION,
     mf_capabilities = sort_key (\<lambda>c. operation_index (ca_operation c)) demo_capabilities\<rparr>"

definition demo_request :: "adapter_operation \<Rightarrow> request" where
  "demo_request op = \<lparr>rq_id = ''q'', rq_operation = op, rq_installation = ''i'', rq_leader_epoch = 0,
     rq_task = ''t'', rq_item = ''w'', rq_attempt = ''x'', rq_dispatch = ''d'', rq_generation = 0,
     rq_payload = no_digest, rq_refs = [''out'']\<rparr>"

definition demo_segment :: "string \<Rightarrow> int \<Rightarrow> string \<Rightarrow> string \<Rightarrow> abi_proof_kind \<Rightarrow> segment" where
  "demo_segment i n a b k = \<lparr>sg_id = i, sg_sequence = n, sg_adapter = ''m'', sg_abi_version = ABI_VERSION,
     sg_input_identity = a, sg_input_digest = no_digest, sg_output_identity = b,
     sg_output_digest = no_digest, sg_kind = k, sg_refs = [''out''], sg_acknowledged = True,
     sg_failure = None\<rparr>"

definition demo_observation :: observation where
  "demo_observation = \<lparr>ob_id = ''o'', ob_request = demo_request AO_OBSERVE, ob_sequence = 0,
     ob_status = AD_COMPLETED, ob_runtime = Some ''pid'',
     ob_provenance = [demo_segment ''g'' 0 ''a'' ''b'' AP_PROCESS_BOUND,
       demo_segment ''h'' 1 ''b'' ''c'' AP_CONTENT_BOUND],
     ob_refs = [''out''], ob_reason = None\<rparr>"

definition demo_proof_policy :: policy where
  "demo_proof_policy = \<lparr>po_mode = AM_FULL, po_kinds = [AP_PROCESS_BOUND, AP_CONTENT_BOUND],
     po_issuer = None, po_host = None\<rparr>"

lemma demo_manifest_made: "make_manifest ''m'' ''process'' ABI_VERSION demo_capabilities = Inr demo_manifest"
  by code_simp

lemma demo_observation_made: "make_observation demo_observation = Inr demo_observation"
  by code_simp

lemma demo_observation_validated: "validate_observation demo_manifest demo_observation = Inr ()"
  by code_simp

lemma demo_policy_made: "make_policy demo_proof_policy = Inr demo_proof_policy"
  by code_simp

theorem manifest_total_witness:
  "map ca_operation (mf_capabilities demo_manifest) = all_adapter_operation \<and>
     (\<exists>x. manifest_capability demo_manifest AO_CANCEL = Inr x \<and> x \<in> set demo_capabilities)"
  using manifest_total [OF demo_manifest_made] by blast

theorem provenance_unbroken_witness:
  "make_observation demo_observation = Inr demo_observation \<and>
     sg_output_identity (ob_provenance demo_observation ! 0) =
       sg_input_identity (ob_provenance demo_observation ! Suc 0)"
proof -
  have "Suc 0 < length (ob_provenance demo_observation)" by (simp add: demo_observation_def)
  then show ?thesis
    using provenance_unbroken [of demo_observation demo_observation] demo_observation_made by blast
qed

theorem validated_observation_is_honest_witness:
  "\<exists>x\<in>set demo_capabilities. ca_operation x = AO_OBSERVE \<and>
     (ca_status x = CP_UNSUPPORTED \<or> ob_status demo_observation \<noteq> AD_UNSUPPORTED) \<and>
     sg_adapter (last (ob_provenance demo_observation)) = ''m''"
proof -
  have o: "rq_operation (ob_request demo_observation) = AO_OBSERVE" "ob_provenance demo_observation \<noteq> []"
    by (simp_all add: demo_observation_def demo_request_def)
  from validated_observation_is_honest [OF demo_manifest_made demo_observation_validated] o
  show ?thesis by (metis (full_types))
qed

theorem passed_proof_meets_contract_witness:
  "as_passed (assess_composite_proof demo_observation demo_proof_policy) \<and>
     end_to_end ''m'' demo_capabilities demo_observation"
proof -
  have "segments_made demo_observation" by code_simp
  moreover have "set (po_kinds demo_proof_policy) = contract_kinds (po_mode demo_proof_policy)"
    by (simp add: demo_proof_policy_def)
  moreover have "meets_contract (po_mode demo_proof_policy) demo_observation"
    by (auto simp: meets_contract_def demo_proof_policy_def demo_observation_def demo_segment_def demo_request_def)
  ultimately show ?thesis
    using passed_proof_meets_contract [OF demo_manifest_made demo_observation_made _ demo_observation_validated
        demo_policy_made] by blast
qed

end
