(* ===== verification/Jsonl.thy ===== *)
theory Jsonl
  imports Json_Fields
begin

text \<open>
  Files of one canonical JSON text per line: the Kernel journal and the effect ledger of
  \<^verbatim>\<open>src/valp_cli/kernel_store.py\<close> and the receipt ledger of \<^verbatim>\<open>receipt_store.py\<close>. The stores read
  them the same way: refuse a file that does not end in a line feed or holds a carriage return,
  refuse blank lines, parse and decode each line, and refuse a line that is not byte for byte the
  canonical text of what it decodes to.

  The locale \<open>jsonl\<close> states what a decoder must promise; from it follows that a written file reads
  back. That a file that loads is the written form of what was loaded holds of any decoder.
\<close>

abbreviation LF :: char where "LF \<equiv> CHR 10"
abbreviation CR :: char where "CR \<equiv> CHR 13"

section \<open>Lines\<close>

text \<open>\<^verbatim>\<open>payload.splitlines(keepends=True)\<close> on bytes without a carriage return.\<close>

fun split_lines :: "string \<Rightarrow> string list" where
  "split_lines [] = []"
| "split_lines (c # cs) =
     (if c = LF then [LF] # split_lines cs
      else case split_lines cs of [] \<Rightarrow> [[c]] | l # ls \<Rightarrow> (c # l) # ls)"

text \<open>\<^verbatim>\<open>_canonical_json(...).encode("utf-8")\<close>; a lone surrogate does not encode.\<close>

definition encode_utf8 :: "string \<Rightarrow> string res" where
  "encode_utf8 s = (if utf8_valid s then Inr s else Inl (ValueError ''surrogates not allowed''))"

definition encode_lines :: "('a \<Rightarrow> json) \<Rightarrow> 'a list \<Rightarrow> string res" where
  "encode_lines enc xs =
     bind_res (map_res (\<lambda>x. encode_utf8 (canonical_json (enc x))) xs) (\<lambda>ls. Inr (concat ls))"

definition not_canonical_jsonl :: "string \<Rightarrow> bool" where
  "not_canonical_jsonl payload \<longleftrightarrow> payload \<noteq> [] \<and> (last payload \<noteq> LF \<or> CR \<in> set payload)"

definition decode_line :: "('a \<Rightarrow> json) \<Rightarrow> (json \<Rightarrow> 'a res) \<Rightarrow> string \<Rightarrow> 'a res" where
  "decode_line enc dec line =
     (if line = [LF] then Inl (ValueError ''blank line'')
      else case strict_loads (butlast line) of
        None \<Rightarrow> Inl (ValueError ''JSONDecodeError'')
      | Some v \<Rightarrow>
          bind_res (dec v) (\<lambda>x.
          bind_res (encode_utf8 (canonical_json (enc x))) (\<lambda>t.
            if line \<noteq> t then Inl (ValueError ''noncanonical entry'') else Inr x)))"

definition load_lines :: "('a \<Rightarrow> json) \<Rightarrow> (json \<Rightarrow> 'a res) \<Rightarrow> string \<Rightarrow> 'a list res" where
  "load_lines enc dec payload =
     (if not_canonical_jsonl payload
      then Inl (ValueError ''not canonical LF-terminated JSONL'')
      else map_res (decode_line enc dec) (split_lines payload))"

section \<open>Canonical texts are lines\<close>

definition printable :: "char \<Rightarrow> bool" where
  "printable c \<longleftrightarrow> 32 \<le> (of_char c :: nat)"

lemma printable_LF_CR [simp]: "\<not> printable LF" "\<not> printable CR"
  by (simp_all add: printable_def)

lemma printable_marks [simp]:
  "printable CHR ''[''" "printable CHR '']''" "printable CHR ''{''" "printable CHR ''}''"
  "printable CHR '':''" "printable CHR '',''" "printable CHR ''-''" "printable CHR ''u''"
  "printable CHR ''0''" "printable dquote" "printable backslash"
  by (simp_all add: printable_def dquote_def backslash_def)

lemma printable_hex_char [simp]: "printable (hex_char n)"
proof -
  have "\<forall>c\<in>set hex_digits. printable c" by (simp add: hex_digits_def printable_def)
  moreover have "nat (n mod 16) < length hex_digits" by (simp add: hex_digits_def nat_less_iff)
  ultimately show ?thesis by (simp add: hex_char_def)
qed

lemma printable_esc_table: "map_of esc_table c = Some x \<Longrightarrow> printable x"
  by (auto simp: esc_table_def printable_def dquote_def backslash_def split: if_splits)

lemma printable_esc_char: "list_all printable (esc_char c)"
  by (auto simp: esc_char_def printable_esc_table split: option.splits) (simp add: printable_def)

lemma printable_quote: "list_all printable (quote s)"
  using printable_esc_char
  by (auto simp: quote_def list_all_iff)

lemma printable_digits: "list_all is_digit s \<Longrightarrow> list_all printable s"
  by (auto simp: list_all_iff is_digit_def printable_def)

lemma printable_int_str: "list_all printable (int_str i)"
  using printable_digits [OF nat_str_digits] by (simp add: int_str_def)

lemma printable_commas: "list_all (list_all printable) xs \<Longrightarrow> list_all printable (commas xs)"
  by (induction xs rule: commas.induct) auto

lemma printable_dumps: "list_all printable (dumps v)"
proof (induction v)
  case (JArr xs)
  then have "list_all printable (commas (map dumps xs))"
    by (intro printable_commas) (simp add: list_all_iff)
  then show ?case by simp
next
  case (JObj kvs)
  have "list_all printable (commas (map (\<lambda>(k, t). quote k @ CHR '':'' # t)
      (sort_key fst (map (map_prod id dumps) kvs))))"
    using JObj printable_quote
    by (intro printable_commas) (fastforce simp: list_all_iff)
  then show ?case by simp
qed (simp_all add: printable_quote printable_int_str, simp_all add: printable_def)

lemma split_lines_append:
  "list_all printable s \<Longrightarrow> split_lines (s @ LF # r) = (s @ [LF]) # split_lines r"
  by (induction s) auto

lemma canonical_line:
  "split_lines (canonical_json v @ r) = canonical_json v # split_lines r"
  using split_lines_append [OF printable_dumps, of v r] by (simp add: canonical_json_def)

lemma canonical_no_CR: "CR \<notin> set (canonical_json v)"
  using printable_dumps [of v] by (auto simp: canonical_json_def list_all_iff)

lemma canonical_not_blank: "canonical_json v \<noteq> [LF]"
proof
  assume "canonical_json v = [LF]"
  then have "dumps v = []" by (simp add: canonical_json_def)
  then show False using show_json_first [of "norm v"] by (simp add: dumps_show)
qed

lemma split_lines_canonical:
  "split_lines (concat (map (\<lambda>x. canonical_json (f x)) xs)) = map (\<lambda>x. canonical_json (f x)) xs"
  by (induction xs) (simp_all add: canonical_line)

lemma canonical_jsonl: "\<not> not_canonical_jsonl (concat (map (\<lambda>x. canonical_json (f x)) xs))"
proof (cases xs rule: rev_cases)
  case (snoc ys y)
  then show ?thesis using canonical_no_CR by (auto simp: not_canonical_jsonl_def canonical_json_def)
qed (simp add: not_canonical_jsonl_def)

lemma concat_split_lines: "concat (split_lines s) = s"
  by (induction s) (auto split: list.splits)

section \<open>Reading back\<close>

lemma map_res_encode:
  "map_res (\<lambda>x. encode_utf8 (f x)) xs = Inr ls \<longleftrightarrow> list_all (\<lambda>x. utf8_valid (f x)) xs \<and> ls = map f xs"
  by (induction xs arbitrary: ls) (auto simp: encode_utf8_def bind_res_Inr_iff)

lemma encode_lines_iff:
  "encode_lines enc xs = Inr p \<longleftrightarrow>
     list_all (\<lambda>x. utf8_valid (canonical_json (enc x))) xs \<and> p = concat (map (\<lambda>x. canonical_json (enc x)) xs)"
  by (auto simp: encode_lines_def bind_res_Inr_iff map_res_encode)

lemma decode_line_text: "decode_line enc dec l = Inr x \<Longrightarrow> l = canonical_json (enc x)"
  by (auto simp: decode_line_def bind_res_Inr_iff encode_utf8_def split: if_splits option.splits)

text \<open>Whatever loads is stored canonically.\<close>

lemma load_lines_text:
  assumes "load_lines enc dec p = Inr xs"
  shows "p = concat (map (\<lambda>x. canonical_json (enc x)) xs)"
proof -
  have "list_all2 (\<lambda>l x. decode_line enc dec l = Inr x) (split_lines p) xs"
    using assms by (simp add: load_lines_def map_res_Inr_iff split: if_splits)
  then have "split_lines p = map (\<lambda>x. canonical_json (enc x)) xs"
    by (induction rule: list_all2_induct) (auto dest: decode_line_text)
  then show ?thesis using concat_split_lines [of p] by simp
qed

lemma load_lines_encode:
  assumes "load_lines enc dec p = Inr xs"
  shows "encode_lines enc xs = Inr p"
proof -
  have "list_all2 (\<lambda>l x. decode_line enc dec l = Inr x) (split_lines p) xs"
    using assms by (simp add: load_lines_def map_res_Inr_iff split: if_splits)
  then have "list_all (\<lambda>x. utf8_valid (canonical_json (enc x))) xs"
    by (induction rule: list_all2_induct)
       (auto simp: decode_line_def bind_res_Inr_iff encode_utf8_def split: if_splits option.splits)
  then show ?thesis using load_lines_text [OF assms] by (simp add: encode_lines_iff)
qed

lemma load_lines_Nil: "load_lines enc dec [] = Inr []"
  by (simp add: load_lines_def not_canonical_jsonl_def)

text \<open>One more line at the end of a file that loads.\<close>

lemma split_lines_snoc:
  "\<not> not_canonical_jsonl p \<Longrightarrow> split_lines (p @ canonical_json v) = split_lines p @ [canonical_json v]"
proof (induction p rule: split_lines.induct)
  case 1
  then show ?case using canonical_line [of v "[]"] by simp
next
  case (2 c cs)
  show ?case
  proof (cases cs)
    case Nil
    then show ?thesis using "2.prems" canonical_line [of v "[]"] by (simp add: not_canonical_jsonl_def)
  next
    case (Cons d ds)
    then have "\<not> not_canonical_jsonl cs" using "2.prems" by (auto simp: not_canonical_jsonl_def)
    moreover have "split_lines cs \<noteq> []" using Cons by (auto split: list.splits)
    ultimately show ?thesis using "2.IH" by (auto split: list.splits)
  qed
qed

lemma map_res_append:
  "map_res f (xs @ ys) = bind_res (map_res f xs) (\<lambda>us. bind_res (map_res f ys) (\<lambda>vs. Inr (us @ vs)))"
proof (induction xs)
  case Nil
  then show ?case by (cases "map_res f ys") simp_all
next
  case (Cons x xs)
  then show ?case by (cases "f x"; cases "map_res f xs"; cases "map_res f ys") simp_all
qed

lemma load_lines_snoc:
  assumes "load_lines enc dec p = Inr xs" and "decode_line enc dec (canonical_json v) = Inr y"
  shows "load_lines enc dec (p @ canonical_json v) = Inr (xs @ [y])"
proof -
  have p: "\<not> not_canonical_jsonl p" "map_res (decode_line enc dec) (split_lines p) = Inr xs"
    using assms(1) by (simp_all add: load_lines_def split: if_splits)
  then have "\<not> not_canonical_jsonl (p @ canonical_json v)"
    using canonical_no_CR [of v] by (auto simp: not_canonical_jsonl_def canonical_json_def)
  with p assms(2) show ?thesis by (simp add: load_lines_def split_lines_snoc map_res_append)
qed

locale jsonl =
  fixes enc :: "'a \<Rightarrow> json" and dec :: "json \<Rightarrow> 'a res" and ok :: "'a \<Rightarrow> bool" and canon :: "'a \<Rightarrow> 'a"
  assumes dec_order: "norm_inv dec"
    and dec_enc: "ok x \<Longrightarrow> dec (enc x) = Inr (canon x)"
    and enc_canon: "ok x \<Longrightarrow> json_eq (enc (canon x)) (enc x)"
    and enc_keys: "ok x \<Longrightarrow> keys_once (enc x)"
begin

lemma decode_written:
  assumes "ok x" and "utf8_valid (canonical_json (enc x))"
  shows "decode_line enc dec (canonical_json (enc x)) = Inr (canon x)"
proof -
  have "strict_loads (dumps (enc x)) = Some (norm (enc x))"
    using strict_loads_dumps [OF enc_keys [OF assms(1)], of "[]"] assms(2)
    by (simp add: canonical_json_def utf8_valid_LF)
  moreover have "dec (norm (enc x)) = Inr (canon x)"
    using norm_invD [OF dec_order] dec_enc [OF assms(1)] by simp
  moreover have "canonical_json (enc (canon x)) = canonical_json (enc x)"
    using enc_canon [OF assms(1)] by (simp add: canonical_json_eq_iff)
  moreover have "butlast (canonical_json (enc x)) = dumps (enc x)" by (simp add: canonical_json_def)
  ultimately show ?thesis
    using assms(2) canonical_not_blank by (simp add: decode_line_def encode_utf8_def)
qed

theorem load_written:
  assumes "list_all ok xs" and "encode_lines enc xs = Inr p"
  shows "load_lines enc dec p = Inr (map canon xs)"
proof -
  have "map_res (decode_line enc dec) (map (\<lambda>x. canonical_json (enc x)) ys) = Inr (map canon ys)"
    if "list_all ok ys" and "list_all (\<lambda>x. utf8_valid (canonical_json (enc x))) ys" for ys
    using that by (induction ys) (simp_all add: decode_written)
  then show ?thesis
    using assms canonical_jsonl [of enc xs] split_lines_canonical [of enc xs]
    by (simp add: load_lines_def encode_lines_iff)
qed

end

end
