(* ===== verification/Store.thy ===== *)
theory Store
  imports Jsonl
begin

text \<open>
  What the two stores share (\<^verbatim>\<open>src/valp_cli/receipt_store.py\<close>, which \<^verbatim>\<open>kernel_store.py\<close> inherits from):
  classified errors with a commit outcome, the regular-file test, the lock, and the replacement of a
  file. A store path holds a \<open>node\<close>. What the operating system does in one operation is an argument,
  \<open>env\<close>: whether the lock is obtained, which files cannot be read before and after the replacement,
  how far the replacement gets, whether the temporary file can be removed, whether the release
  succeeds. Closing the descriptor of the lock file is taken to succeed.

  An operation is a function from the files and the flag \<^verbatim>\<open>lock_state["replaced"]\<close> to a result and the
  files and flag after it.
\<close>

section \<open>Errors and outcomes\<close>

definition LEDGER_CORRUPT_ERROR :: string where
  "LEDGER_CORRUPT_ERROR = ''VALP-E-RECEIPT-LEDGER-CORRUPT''"

definition OBLIGATION_ERROR :: string where
  "OBLIGATION_ERROR = ''VALP-E-RECEIPT-OBLIGATION''"

definition LOCK_TIMEOUT_ERROR :: string where
  "LOCK_TIMEOUT_ERROR = ''VALP-E-LOCK-TIMEOUT''"

definition LOCK_UNAVAILABLE_ERROR :: string where
  "LOCK_UNAVAILABLE_ERROR = ''VALP-E-LOCK-UNAVAILABLE''"

definition DURABILITY_PRECOMMIT_ERROR :: string where
  "DURABILITY_PRECOMMIT_ERROR = ''VALP-E-DURABILITY-PRECOMMIT''"

definition DURABILITY_UNKNOWN_ERROR :: string where
  "DURABILITY_UNKNOWN_ERROR = ''VALP-E-DURABILITY-UNKNOWN-OR-COMMITTED''"

datatype outcome = REJECTED_OUTCOME | UNKNOWN_OR_COMMITTED_OUTCOME

text \<open>
  A classified \<^verbatim>\<open>ReceiptStoreError\<close> (or its subclass), another exception on its way up, or a
  \<^verbatim>\<open>RuntimeError\<close>, which no handler of the stores names.
\<close>

datatype failure = StoreError string outcome | Uncaught py_error | Escaping string

fun lift_res :: "'a res \<Rightarrow> failure + 'a" where
  "lift_res (Inl e) = Inl (Uncaught e)"
| "lift_res (Inr x) = Inr x"

lemma lift_res_Inr_iff [simp]: "lift_res r = Inr x \<longleftrightarrow> r = Inr x"
  by (cases r) simp_all

lemma lift_res_Inl_iff [simp]: "lift_res r = Inl f \<longleftrightarrow> (\<exists>e. r = Inl e \<and> f = Uncaught e)"
  by (cases r) auto

section \<open>Files\<close>

text \<open>
  \<open>Special\<close> is a path that is there but is not a regular file: a symbolic link to a file with the
  given bytes, or something whose bytes cannot be read. \<open>Unreadable\<close> is what a call meets at a path
  when the operating system does not let it read.
\<close>

datatype node = Absent | Regular string | Special "string option" | Unreadable

definition ensure_regular :: "node \<Rightarrow> failure + unit" where
  "ensure_regular n =
     (case n of Special _ \<Rightarrow> Inl (StoreError LEDGER_CORRUPT_ERROR REJECTED_OUTCOME) | _ \<Rightarrow> Inr ())"

text \<open>\<^verbatim>\<open>path.exists()\<close> and \<^verbatim>\<open>path.read_bytes()\<close>.\<close>

definition exists_path :: "node \<Rightarrow> bool" where
  "exists_path n \<longleftrightarrow> n \<noteq> Absent"

fun read_bytes :: "node \<Rightarrow> failure + string" where
  "read_bytes Absent = Inl (Uncaught (OSError ''no such file''))"
| "read_bytes (Regular b) = Inr b"
| "read_bytes (Special (Some b)) = Inr b"
| "read_bytes (Special None) = Inl (Uncaught (OSError ''not readable''))"
| "read_bytes Unreadable = Inl (Uncaught (OSError ''read''))"

text \<open>Bytes that follow a byte order mark.\<close>

definition starts_bom :: "string \<Rightarrow> bool" where
  "starts_bom p \<longleftrightarrow> take 3 p = [CHR 0xEF, CHR 0xBB, CHR 0xBF]"

section \<open>Operations\<close>

type_synonym ('d, 'a) io = "'d \<times> bool \<Rightarrow> (failure + 'a) \<times> 'd \<times> bool"

definition ret :: "'a \<Rightarrow> ('d, 'a) io" where
  "ret x = (\<lambda>s. (Inr x, s))"

definition fail :: "failure \<Rightarrow> ('d, 'a) io" where
  "fail e = (\<lambda>s. (Inl e, s))"

definition bind_io :: "('d, 'a) io \<Rightarrow> ('a \<Rightarrow> ('d, 'b) io) \<Rightarrow> ('d, 'b) io" where
  "bind_io m f = (\<lambda>s. case m s of (Inl e, s') \<Rightarrow> (Inl e, s') | (Inr x, s') \<Rightarrow> f x s')"

text \<open>A computation that only looks at the files.\<close>

definition look :: "('d \<Rightarrow> failure + 'a) \<Rightarrow> ('d, 'a) io" where
  "look r = (\<lambda>s. (r (fst s), s))"

text \<open>\<^verbatim>\<open>_replace\<close>: how far writing a temporary file, renaming it and syncing the directory gets.\<close>

datatype replacement = Replaced | Replaced_unsynced | Write_failed | Temporary_failed

datatype store_file = Ledger_file | Genesis_file | Journal_file | Checkpoint_file | Effects_file

text \<open>
  \<open>env_unreadable b\<close> are the files whose reading fails while \<^verbatim>\<open>lock_state["replaced"]\<close> is \<open>b\<close>. An
  operation that looks at a file several times on one side of the replacement raises the same error
  whichever of them fails, so one flag for each side is enough. \<open>env_unremoved\<close> says that \<^verbatim>\<open>os.unlink\<close> of the temporary file fails for another reason than that it is gone.
\<close>

record env =
  env_lock :: "string option"
  env_unreadable :: "bool \<Rightarrow> store_file \<Rightarrow> bool"
  env_replace :: replacement
  env_unremoved :: bool
  env_release :: bool

definition seen_node :: "bool \<Rightarrow> node \<Rightarrow> node" where
  "seen_node broken n = (if broken then Unreadable else n)"

definition replace_node :: "env \<Rightarrow> (node \<Rightarrow> 'd \<Rightarrow> 'd) \<Rightarrow> string \<Rightarrow> ('d, unit) io" where
  "replace_node v put payload = (\<lambda>(d, replaced).
     case env_replace v of
       Replaced \<Rightarrow> (Inr (), put (Regular payload) d, True)
     | Replaced_unsynced \<Rightarrow>
         (Inl (StoreError DURABILITY_UNKNOWN_ERROR UNKNOWN_OR_COMMITTED_OUTCOME),
          put (Regular payload) d, True)
     | Write_failed \<Rightarrow>
         (Inl (if replaced then StoreError DURABILITY_UNKNOWN_ERROR UNKNOWN_OR_COMMITTED_OUTCOME
               else StoreError DURABILITY_PRECOMMIT_ERROR REJECTED_OUTCOME), d, replaced)
     | Temporary_failed \<Rightarrow> (Inl (Uncaught (OSError ''mkstemp'')), d, replaced))"

text \<open>
  \<^verbatim>\<open>_locked\<close> around a body; \<open>n\<close> is the store's own path. \<open>env_lock\<close> holds the code of the error with
  which the lock was not obtained (unavailable, timed out, not initialised, not regular).
\<close>

definition locked :: "env \<Rightarrow> node \<Rightarrow> ('d, 'a) io \<Rightarrow> 'd \<Rightarrow> (failure + 'a) \<times> 'd" where
  "locked v n body d =
     (case ensure_regular n of
        Inl e \<Rightarrow> (Inl e, d)
      | Inr _ \<Rightarrow>
          (case env_lock v of
             Some c \<Rightarrow> (Inl (StoreError c REJECTED_OUTCOME), d)
           | None \<Rightarrow>
               (case body (d, False) of
                  (Inl e, d', _) \<Rightarrow> (Inl e, d')
                | (Inr x, d', replaced) \<Rightarrow>
                    if env_release v then (Inr x, d')
                    else if replaced
                    then (Inl (StoreError DURABILITY_UNKNOWN_ERROR UNKNOWN_OR_COMMITTED_OUTCOME), d')
                    else (Inl (StoreError LOCK_UNAVAILABLE_ERROR REJECTED_OUTCOME), d'))))"

section \<open>Laws\<close>

lemma io_simps [simp]:
  "ret x s = (Inr x, s)"
  "fail e s = (Inl e, s)"
  "look r s = (r (fst s), s)"
  by (simp_all add: ret_def fail_def look_def)

lemma bind_io_look [simp]:
  "bind_io (look r) f s = (case r (fst s) of Inl e \<Rightarrow> (Inl e, s) | Inr x \<Rightarrow> f x s)"
  by (simp add: bind_io_def split: sum.splits)

lemma ensure_regular_simps [simp]:
  "ensure_regular Absent = Inr ()"
  "ensure_regular (Regular b) = Inr ()"
  "ensure_regular (Special x) = Inl (StoreError LEDGER_CORRUPT_ERROR REJECTED_OUTCOME)"
  "ensure_regular Unreadable = Inr ()"
  by (simp_all add: ensure_regular_def)

lemma exists_path_simps [simp]:
  "\<not> exists_path Absent" "exists_path (Regular b)" "exists_path (Special x)" "exists_path Unreadable"
  by (simp_all add: exists_path_def)

text \<open>
  No fault: the lock is obtained and released, every file can be read, and the replacement is
  complete and its temporary file gone.
\<close>

definition calm :: "env \<Rightarrow> bool" where
  "calm v \<longleftrightarrow> env_lock v = None \<and> env_unreadable v = (\<lambda>_ _. False) \<and> env_replace v = Replaced \<and>
     \<not> env_unremoved v \<and> env_release v"

lemma seen_node_simps [simp]: "seen_node False n = n" "seen_node True n = Unreadable"
  by (simp_all add: seen_node_def)

text \<open>
  Honesty of a body: an error that says the outcome is unknown or committed comes only after a
  replacement, any other error only before one, and without a replacement the files are as before.
\<close>

definition honest :: "(failure + 'a) \<Rightarrow> bool \<Rightarrow> bool" where
  "honest r replaced \<longleftrightarrow>
     (case r of
        Inl (StoreError c UNKNOWN_OR_COMMITTED_OUTCOME) \<Rightarrow> replaced
      | Inl _ \<Rightarrow> \<not> replaced
      | Inr _ \<Rightarrow> True)"

lemma honest_simps [simp]:
  "honest (Inr x) b"
  "honest (Inl (Uncaught e)) b \<longleftrightarrow> \<not> b"
  "honest (Inl (StoreError c REJECTED_OUTCOME)) b \<longleftrightarrow> \<not> b"
  "honest (Inl (StoreError c UNKNOWN_OR_COMMITTED_OUTCOME)) b \<longleftrightarrow> b"
  by (simp_all add: honest_def)

lemma locked_cases:
  assumes "locked v n body d = (res, d')"
  obtains (refused) c where "res = Inl (StoreError c REJECTED_OUTCOME)" and "d' = d"
  | (ran) b where "body (d, False) = (res, d', b)"
  | (unreleased) x b where "body (d, False) = (Inr x, d', b)"
      and "res = Inl (if b then StoreError DURABILITY_UNKNOWN_ERROR UNKNOWN_OR_COMMITTED_OUTCOME
                      else StoreError LOCK_UNAVAILABLE_ERROR REJECTED_OUTCOME)"
proof (cases "body (d, False)")
  case (fields r0 d0 b)
  with assms show ?thesis
    by (cases n; cases "env_lock v"; cases r0) (auto simp: locked_def split: if_splits intro: that)
qed

lemma locked_calm:
  assumes "calm v" and "ensure_regular n = Inr ()" and "body (d, False) = (r, d', b)"
  shows "locked v n body d = (r, d')"
  using assms by (cases r) (simp_all add: locked_def calm_def)

end
