(* ===== verification/Kernel_Decode.thy ===== *)
theory Kernel_Decode
  imports Json_Fields Kernel_Replay
begin

text \<open>
  The decoders of \<^verbatim>\<open>src/valp_cli/kernel_store.py\<close>, from decoded JSON to the kernel's objects, one
  definition per function of the source, and the round trip: decoding the canonical projection of
  a well-formed object gives the object back, whatever the order of entries.
\<close>

section \<open>Decoders\<close>

definition dec_identity :: "identity_kind option \<Rightarrow> json \<Rightarrow> identity res" where
  "dec_identity kind v =
     bind_res (shape [''kind'', ''value''] [] v) (\<lambda>_.
     bind_res (item ''kind'' (as_enum identity_kind_value all_identity_kind) v) (\<lambda>k.
     bind_res (item ''value'' as_str v) (\<lambda>s.
     bind_res (make_identity k s) (\<lambda>i.
       if kind \<noteq> None \<and> kind \<noteq> Some (id_kind i)
       then Inl (ValueError ''Kernel identity kind mismatch'') else Inr i))))"

abbreviation id_as :: "identity_kind \<Rightarrow> json \<Rightarrow> identity res" where
  "id_as k \<equiv> dec_identity (Some k)"

definition dec_dependency :: "json \<Rightarrow> dependency res" where
  "dec_dependency v =
     bind_res (shape [''work_item_id'', ''requirement''] [] v) (\<lambda>_.
     bind_res (item ''work_item_id'' (id_as IK_WORK_ITEM) v) (\<lambda>i.
     bind_res (item ''requirement'' (as_enum requirement_value all_requirement) v) (\<lambda>r.
       Inr \<lparr>dep_item = i, dep_requirement = r\<rparr>)))"

definition dec_attempt :: "json \<Rightarrow> attempt res" where
  "dec_attempt v =
     bind_res (shape [''task_id'', ''work_item_id'', ''attempt_id'', ''dispatch_id'',
                      ''dispatch_generation'', ''status''] [] v) (\<lambda>_.
     bind_res (item ''task_id'' (id_as IK_TASK) v) (\<lambda>t.
     bind_res (item ''work_item_id'' (id_as IK_WORK_ITEM) v) (\<lambda>w.
     bind_res (item ''attempt_id'' (id_as IK_ATTEMPT) v) (\<lambda>a.
     bind_res (item ''dispatch_id'' (id_as IK_DISPATCH) v) (\<lambda>d.
     bind_res (item ''dispatch_generation'' as_int v) (\<lambda>g.
     bind_res (item ''status'' (as_enum attempt_status_value all_attempt_status) v) (\<lambda>s.
       Inr \<lparr>at_task = t, at_item = w, at_id = a, at_dispatch = d, at_generation = g,
            at_status = s\<rparr>)))))))"

text \<open>\<^verbatim>\<open>_attempt(value) if value is not None else None\<close>.\<close>

definition nullable :: "(json \<Rightarrow> 'a res) \<Rightarrow> json \<Rightarrow> 'a option res" where
  "nullable d v = (if v = JNull then Inr None else bind_res (d v) (\<lambda>x. Inr (Some x)))"

definition dec_work_item :: "json \<Rightarrow> work_item res" where
  "dec_work_item v =
     bind_res (shape [''task_id'', ''work_item_id'', ''requirement'', ''status'', ''dependencies'',
                      ''current_attempt''] [] v) (\<lambda>_.
     bind_res (item ''task_id'' (id_as IK_TASK) v) (\<lambda>t.
     bind_res (item ''work_item_id'' (id_as IK_WORK_ITEM) v) (\<lambda>w.
     bind_res (item ''requirement'' (as_enum requirement_value all_requirement) v) (\<lambda>r.
     bind_res (item ''status'' (as_enum work_item_status_value all_work_item_status) v) (\<lambda>s.
     bind_res (item ''dependencies'' (as_list dec_dependency) v) (\<lambda>ds.
     bind_res (item ''current_attempt'' (nullable dec_attempt) v) (\<lambda>a.
       Inr \<lparr>wi_task = t, wi_id = w, wi_requirement = r, wi_status = s, wi_deps = ds,
            wi_attempt = a\<rparr>)))))))"

definition dec_suspension :: "json \<Rightarrow> suspension res" where
  "dec_suspension v =
     bind_res (shape [''task_id'', ''suspension_id'', ''suspension_epoch'', ''status'',
                      ''wait_policy_id'', ''wait_policy_digest'', ''required_work_item_ids'']
                     [''accepted_wake_id'', ''wake_reason''] v) (\<lambda>_.
     bind_res (item ''task_id'' (id_as IK_TASK) v) (\<lambda>t.
     bind_res (item ''suspension_id'' (id_as IK_SUSPENSION) v) (\<lambda>i.
     bind_res (item ''suspension_epoch'' as_int v) (\<lambda>e.
     bind_res (item ''status'' (as_enum suspension_status_value all_suspension_status) v) (\<lambda>s.
     bind_res (item ''wait_policy_id'' (id_as IK_WAIT_POLICY) v) (\<lambda>p.
     bind_res (item ''wait_policy_digest'' as_str v) (\<lambda>d.
     bind_res (item ''required_work_item_ids'' (as_list (id_as IK_WORK_ITEM)) v) (\<lambda>r.
     bind_res (opt_item ''accepted_wake_id'' (id_as IK_WAKE) v) (\<lambda>w.
     bind_res (opt_item ''wake_reason'' (as_enum wake_reason_value all_wake_reason) v) (\<lambda>x.
       Inr \<lparr>su_task = t, su_id = i, su_epoch = e, su_status = s, su_policy = p,
            su_policy_digest = d, su_required = r, su_wake = w, su_reason = x\<rparr>))))))))))"

definition dec_control :: "json \<Rightarrow> control_state res" where
  "dec_control v =
     bind_res (shape [''intent_version'', ''status''] [''active_interrupt_id''] v) (\<lambda>_.
     bind_res (item ''intent_version'' as_int v) (\<lambda>n.
     bind_res (item ''status'' (as_enum control_status_value all_control_status) v) (\<lambda>s.
     bind_res (opt_item ''active_interrupt_id'' (id_as IK_INTERRUPT) v) (\<lambda>i.
       Inr \<lparr>ct_version = n, ct_status = s, ct_interrupt = i\<rparr>))))"

definition dec_accepted_event :: "json \<Rightarrow> accepted_event res" where
  "dec_accepted_event v =
     bind_res (shape [''event_id'', ''result_id'', ''input_digest'', ''result_digest''] [] v) (\<lambda>_.
     bind_res (item ''event_id'' (id_as IK_EVENT) v) (\<lambda>e.
     bind_res (item ''result_id'' (id_as IK_RESULT) v) (\<lambda>r.
     bind_res (item ''input_digest'' as_str v) (\<lambda>i.
     bind_res (item ''result_digest'' as_str v) (\<lambda>d.
       Inr \<lparr>ae_event = e, ae_result = r, ae_input_digest = i, ae_result_digest = d\<rparr>)))))"

definition dec_state :: "json \<Rightarrow> state res" where
  "dec_state v =
     bind_res (shape [''schema_version'', ''protocol_version'', ''installation_id'', ''leader_epoch'',
                      ''task_id'', ''revision'', ''status'', ''accepted_events'']
                     [''work_items'', ''suspension'', ''control''] v) (\<lambda>_.
     bind_res (item ''schema_version'' (expect ''valp-kernel-state.v1'') v) (\<lambda>_.
     bind_res (item ''protocol_version'' as_str v) (\<lambda>p.
     bind_res (item ''installation_id'' (id_as IK_INSTALLATION) v) (\<lambda>i.
     bind_res (item ''leader_epoch'' as_int v) (\<lambda>l.
     bind_res (item ''task_id'' (id_as IK_TASK) v) (\<lambda>t.
     bind_res (item ''revision'' as_int v) (\<lambda>r.
     bind_res (item ''status'' (as_enum task_status_value all_task_status) v) (\<lambda>s.
     bind_res (item ''accepted_events'' (as_list dec_accepted_event) v) (\<lambda>a.
     bind_res (list_item ''work_items'' (as_list dec_work_item) v) (\<lambda>w.
     bind_res (opt_item ''suspension'' dec_suspension v) (\<lambda>u.
     bind_res (opt_item ''control'' dec_control v) (\<lambda>c.
       Inr \<lparr>st_protocol_version = p, st_installation = i, st_leader_epoch = l, st_task = t,
            st_revision = r, st_status = Closed s, st_accepted = a, st_items = w,
            st_suspension = u, st_control = c\<rparr>))))))))))))"

text \<open>An open enum field of an event: the member, marked as such.\<close>

definition member :: "('a \<Rightarrow> string) \<Rightarrow> 'a list \<Rightarrow> json \<Rightarrow> 'a open_enum res" where
  "member f ms v = bind_res (as_enum f ms v) (\<lambda>k. Inr (Closed k))"

definition dec_event :: "json \<Rightarrow> event res" where
  "dec_event v =
     bind_res (shape
       [''schema_version'', ''event_id'', ''installation_id'', ''leader_epoch'', ''task_id'', ''kind'',
        ''expected_revision'']
       [''work_item_id'', ''attempt_id'', ''dispatch_id'', ''dispatch_generation'', ''suspension_id'',
        ''suspension_epoch'', ''wait_policy_id'', ''wait_policy_digest'', ''required_work_item_ids'',
        ''wake_id'', ''wake_reason'', ''authority_principal_id'', ''authority_evidence_id'',
        ''control_reason'', ''cancellation_scope'', ''interrupt_id'', ''redirect_id'',
        ''intent_version'', ''next_intent_version'', ''superseded_work_item_ids''] v) (\<lambda>_.
     bind_res (item ''schema_version'' (expect ''valp-kernel-event.v1'') v) (\<lambda>_.
     bind_res (list_item ''required_work_item_ids'' (as_list (id_as IK_WORK_ITEM)) v) (\<lambda>frontier.
     bind_res (list_item ''superseded_work_item_ids'' (as_list (id_as IK_WORK_ITEM)) v) (\<lambda>superseded.
     bind_res (item ''event_id'' (id_as IK_EVENT) v) (\<lambda>x1.
     bind_res (item ''installation_id'' (id_as IK_INSTALLATION) v) (\<lambda>x2.
     bind_res (item ''leader_epoch'' as_int v) (\<lambda>x3.
     bind_res (item ''task_id'' (id_as IK_TASK) v) (\<lambda>x4.
     bind_res (item ''kind'' (member event_kind_value all_event_kind) v) (\<lambda>x5.
     bind_res (item ''expected_revision'' as_int v) (\<lambda>x6.
     bind_res (opt_item ''work_item_id'' (id_as IK_WORK_ITEM) v) (\<lambda>x7.
     bind_res (opt_item ''attempt_id'' (id_as IK_ATTEMPT) v) (\<lambda>x8.
     bind_res (opt_item ''dispatch_id'' (id_as IK_DISPATCH) v) (\<lambda>x9.
     bind_res (get_item ''dispatch_generation'' as_int v) (\<lambda>x10.
     bind_res (opt_item ''suspension_id'' (id_as IK_SUSPENSION) v) (\<lambda>x11.
     bind_res (get_item ''suspension_epoch'' as_int v) (\<lambda>x12.
     bind_res (opt_item ''wait_policy_id'' (id_as IK_WAIT_POLICY) v) (\<lambda>x13.
     bind_res (get_item ''wait_policy_digest'' as_str v) (\<lambda>x14.
     bind_res (opt_item ''wake_id'' (id_as IK_WAKE) v) (\<lambda>x15.
     bind_res (opt_item ''wake_reason'' (member wake_reason_value all_wake_reason) v) (\<lambda>x16.
     bind_res (opt_item ''authority_principal_id'' (id_as IK_PRINCIPAL) v) (\<lambda>x17.
     bind_res (opt_item ''authority_evidence_id'' (id_as IK_EVIDENCE) v) (\<lambda>x18.
     bind_res (opt_item ''control_reason'' (member control_reason_value all_control_reason) v) (\<lambda>x19.
     bind_res (opt_item ''cancellation_scope''
                 (member cancellation_scope_value all_cancellation_scope) v) (\<lambda>x20.
     bind_res (opt_item ''interrupt_id'' (id_as IK_INTERRUPT) v) (\<lambda>x21.
     bind_res (opt_item ''redirect_id'' (id_as IK_REDIRECT) v) (\<lambda>x22.
     bind_res (get_item ''intent_version'' as_int v) (\<lambda>x23.
     bind_res (get_item ''next_intent_version'' as_int v) (\<lambda>x24.
       Inr \<lparr>ev_id = x1, ev_installation = x2, ev_leader_epoch = x3, ev_task = x4, ev_kind = x5,
            ev_expected_revision = x6, ev_item = x7, ev_attempt = x8, ev_dispatch = x9,
            ev_generation = x10, ev_suspension = x11, ev_epoch = x12, ev_policy = x13,
            ev_policy_digest = x14, ev_required = frontier, ev_wake = x15, ev_wake_reason = x16,
            ev_principal = x17, ev_authority = x18, ev_control_reason = x19, ev_scope = x20,
            ev_interrupt = x21, ev_redirect = x22, ev_version = x23, ev_next_version = x24,
            ev_superseded = superseded\<rparr>))))))))))))))))))))))))))))"

text \<open>Python's comparison \<^verbatim>\<open>event.canonical() != value\<close> of dictionaries.\<close>

definition decode_event :: "json \<Rightarrow> event res" where
  "decode_event v =
     bind_res (dec_event v) (\<lambda>e.
       if json_eq (event_json e) v then Inr e
       else Inl (ValueError ''Kernel Event canonical bindings mismatch''))"

definition dec_evidence :: "json \<Rightarrow> evidence res" where
  "dec_evidence v =
     bind_res (shape [''schema_version'', ''evidence_id'', ''content_digest''] [] v) (\<lambda>_.
     bind_res (item ''schema_version'' (expect ''valp-kernel-evidence.v1'') v) (\<lambda>_.
     bind_res (item ''evidence_id'' (id_as IK_EVIDENCE) v) (\<lambda>i.
     bind_res (item ''content_digest'' as_str v) (\<lambda>d.
       Inr \<lparr>evd_id = i, evd_digest = d\<rparr>))))"

definition dec_accepted :: "json \<Rightarrow> accepted res" where
  "dec_accepted v =
     bind_res (shape [''schema_version'', ''variant'', ''result_id'', ''state'', ''input_digest'',
                      ''result_digest'', ''obligations'', ''audit_facts''] [] v) (\<lambda>_.
     bind_res (item ''obligations'' (as_list as_str) v) (\<lambda>ob.
     bind_res (item ''audit_facts'' (as_list as_str) v) (\<lambda>fs.
     bind_res (item ''result_id'' (id_as IK_RESULT) v) (\<lambda>r.
     bind_res (item ''state'' dec_state v) (\<lambda>s.
     bind_res (item ''input_digest'' as_str v) (\<lambda>i.
     bind_res (item ''result_digest'' as_str v) (\<lambda>d.
       Inr \<lparr>ac_result = r, ac_state = s, ac_input_digest = i, ac_result_digest = d,
            ac_obligations = ob, ac_facts = fs\<rparr>)))))))"

definition dec_no_op :: "json \<Rightarrow> no_op res" where
  "dec_no_op v =
     bind_res (shape [''schema_version'', ''variant'', ''state'', ''input_digest'', ''prior_result_id'',
                      ''prior_result_digest''] [] v) (\<lambda>_.
     bind_res (item ''state'' dec_state v) (\<lambda>s.
     bind_res (item ''input_digest'' as_str v) (\<lambda>i.
     bind_res (item ''prior_result_id'' (id_as IK_RESULT) v) (\<lambda>r.
     bind_res (item ''prior_result_digest'' as_str v) (\<lambda>d.
       Inr \<lparr>no_state = s, no_input_digest = i, no_prior_result = r, no_prior_digest = d\<rparr>)))))"

definition dec_rejected :: "json \<Rightarrow> rejected res" where
  "dec_rejected v =
     bind_res (shape [''schema_version'', ''variant'', ''state'', ''input_digest'', ''error_code'']
                     [''prior_result_id'', ''prior_result_digest''] v) (\<lambda>_.
     bind_res (item ''state'' dec_state v) (\<lambda>s.
     bind_res (item ''input_digest'' as_str v) (\<lambda>i.
     bind_res (item ''error_code'' as_str v) (\<lambda>c.
     bind_res (opt_item ''prior_result_id'' (id_as IK_RESULT) v) (\<lambda>r.
     bind_res (get_item ''prior_result_digest'' as_str v) (\<lambda>d.
       Inr \<lparr>rj_state = s, rj_input_digest = i, rj_error_code = c, rj_prior_result = r,
            rj_prior_digest = d\<rparr>))))))"

definition dec_result :: "json \<Rightarrow> result res" where
  "dec_result v =
     (if \<not> is_obj v \<or> jget ''schema_version'' v \<noteq> Some (JStr ''valp-kernel-result.v1'')
      then Inl (ValueError ''unsupported Kernel Result schema'')
      else if jget ''variant'' v = Some (JStr ''accepted'')
      then bind_res (dec_accepted v) (\<lambda>a. Inr (Accepted a))
      else if jget ''variant'' v = Some (JStr ''no_op'')
      then bind_res (dec_no_op v) (\<lambda>n. Inr (NoOp n))
      else if jget ''variant'' v = Some (JStr ''rejected'')
      then bind_res (dec_rejected v) (\<lambda>r. Inr (Rejected r))
      else Inl (ValueError ''unknown Kernel Result variant''))"

definition decode_replay_entry :: "json \<Rightarrow> replay_entry res" where
  "decode_replay_entry v =
     bind_res (shape [''schema_version'', ''event'', ''evidence_set'', ''result''] [] v) (\<lambda>_.
     bind_res (item ''schema_version'' (expect ''valp-kernel-replay-entry.v1'') v) (\<lambda>_.
     bind_res (item ''event'' dec_event v) (\<lambda>e.
     bind_res (item ''evidence_set'' (as_list dec_evidence) v) (\<lambda>ev.
     bind_res (item ''result'' dec_result v) (\<lambda>r.
       Inr \<lparr>re_event = e, re_evidence = ev, re_result = r\<rparr>)))))"

definition decode_genesis_root :: "json \<Rightarrow> state res" where
  "decode_genesis_root v =
     bind_res (shape [''schema_version'', ''state'', ''prefix_digest''] [] v) (\<lambda>_.
     bind_res (item ''schema_version'' (expect ''valp-kernel-genesis-root.v1'') v) (\<lambda>_.
     bind_res (item ''state'' dec_state v) (\<lambda>s.
       if \<not> json_eq (genesis_root_json s) v
       then Inl (ValueError ''GenesisRoot canonical bindings mismatch'')
       else bind_res (replay (GenesisRoot s) [] None) (\<lambda>_. Inr s))))"

definition dec_trust_policy :: "json \<Rightarrow> trust_policy res" where
  "dec_trust_policy v =
     bind_res (shape [''schema_version'', ''trusted_evidence_ids''] [] v) (\<lambda>_.
     bind_res (item ''schema_version'' (expect ''valp-kernel-checkpoint-trust-policy.v1'') v) (\<lambda>_.
     bind_res (item ''trusted_evidence_ids'' (as_list (id_as IK_EVIDENCE)) v) make_trust_policy))"

definition dec_checkpoint_root :: "json \<Rightarrow> checkpoint_root res" where
  "dec_checkpoint_root v =
     bind_res (shape [''schema_version'', ''state'', ''state_digest'', ''accepted_entry_count'',
                      ''prefix_digest'', ''tail_event_id'', ''tail_result_id'', ''tail_result_digest'',
                      ''checkpoint_result_id'', ''trust_policy_digest''] [] v) (\<lambda>_.
     bind_res (item ''schema_version'' (expect ''valp-kernel-checkpoint-root.v1'') v) (\<lambda>_.
     bind_res (item ''state'' dec_state v) (\<lambda>s.
     bind_res (item ''accepted_entry_count'' as_int v) (\<lambda>n.
     bind_res (item ''prefix_digest'' as_str v) (\<lambda>p.
     bind_res (item ''tail_event_id'' (id_as IK_EVENT) v) (\<lambda>e.
     bind_res (item ''tail_result_id'' (id_as IK_RESULT) v) (\<lambda>r.
     bind_res (item ''tail_result_digest'' as_str v) (\<lambda>d.
     bind_res (item ''checkpoint_result_id'' (id_as IK_RESULT) v) (\<lambda>c.
     bind_res (item ''trust_policy_digest'' as_str v) (\<lambda>t.
     bind_res (make_checkpoint_root
       \<lparr>cp_state = s, cp_count = n, cp_prefix = p, cp_tail_event = e, cp_tail_result = r,
        cp_tail_digest = d, cp_result = c, cp_policy_digest = t\<rparr>) (\<lambda>root.
       if json_eq (checkpoint_root_json root) v then Inr root
       else Inl (ValueError ''CheckpointRoot canonical bindings mismatch''))))))))))))"

definition dec_checkpoint_authentication :: "json \<Rightarrow> checkpoint_authentication res" where
  "dec_checkpoint_authentication v =
     bind_res (shape [''schema_version'', ''checkpoint_result'', ''evidence_set'', ''trust_policy''] [] v)
       (\<lambda>_.
     bind_res (item ''schema_version'' (expect ''valp-kernel-checkpoint-authentication.v1'') v) (\<lambda>_.
     bind_res (item ''checkpoint_result'' dec_result v) (\<lambda>r.
     bind_res (item ''evidence_set'' (as_list dec_evidence) v) (\<lambda>ev.
     bind_res (item ''trust_policy'' dec_trust_policy v) (\<lambda>p.
       make_checkpoint_authentication r ev p)))))"

section \<open>Order of entries\<close>

lemma norm_inv_identity [norm_invs]: "norm_inv (dec_identity kind)"
  unfolding dec_identity_def by (intro norm_invs)

lemma norm_inv_nullable [norm_invs]: "norm_inv d \<Longrightarrow> norm_inv (nullable d)"
  by (simp add: norm_inv_def nullable_def)

lemma norm_inv_member [norm_invs]: "norm_inv (member f ms)"
  unfolding member_def by (intro norm_invs)

lemma norm_inv_dependency [norm_invs]: "norm_inv dec_dependency"
  unfolding dec_dependency_def by (intro norm_invs)

lemma norm_inv_attempt [norm_invs]: "norm_inv dec_attempt"
  unfolding dec_attempt_def by (intro norm_invs)

lemma norm_inv_work_item [norm_invs]: "norm_inv dec_work_item"
  unfolding dec_work_item_def by (intro norm_invs)

lemma norm_inv_suspension [norm_invs]: "norm_inv dec_suspension"
  unfolding dec_suspension_def by (intro norm_invs)

lemma norm_inv_control [norm_invs]: "norm_inv dec_control"
  unfolding dec_control_def by (intro norm_invs)

lemma norm_inv_accepted_event [norm_invs]: "norm_inv dec_accepted_event"
  unfolding dec_accepted_event_def by (intro norm_invs)

lemma norm_inv_state [norm_invs]: "norm_inv dec_state"
  unfolding dec_state_def by (intro norm_invs)

lemma norm_inv_event [norm_invs]: "norm_inv dec_event"
  unfolding dec_event_def by (intro norm_invs)

lemma norm_inv_evidence [norm_invs]: "norm_inv dec_evidence"
  unfolding dec_evidence_def by (intro norm_invs)

lemma norm_inv_accepted [norm_invs]: "norm_inv dec_accepted"
  unfolding dec_accepted_def by (intro norm_invs)

lemma norm_inv_no_op [norm_invs]: "norm_inv dec_no_op"
  unfolding dec_no_op_def by (intro norm_invs)

lemma norm_inv_rejected [norm_invs]: "norm_inv dec_rejected"
  unfolding dec_rejected_def by (intro norm_invs)

lemma jget_norm_str: "jget k (norm v) = Some (JStr s) \<longleftrightarrow> jget k v = Some (JStr s)"
  by (auto simp: jget_norm)

lemma norm_inv_result [norm_invs]: "norm_inv dec_result"
  using norm_invD [OF norm_inv_accepted] norm_invD [OF norm_inv_no_op] norm_invD [OF norm_inv_rejected]
  by (simp add: norm_inv_def dec_result_def jget_norm_str)

lemma norm_inv_replay_entry [norm_invs]: "norm_inv decode_replay_entry"
  unfolding decode_replay_entry_def by (intro norm_invs)

lemma sort_key_idem: "sort_key f (sort_key f xs) = sort_key f xs"
  by (rule sort_key_id_if_sorted) simp

lemma norm_idem [simp]: "norm (norm v) = norm v"
proof (induction v)
  case (JObj kvs)
  let ?m = "map_prod (\<lambda>k. k) norm"
  have "map ?m (map ?m kvs) = map ?m kvs" using JObj by (auto simp: map_prod_def split: prod.splits)
  then have "map ?m (sort_key fst (map ?m kvs)) = sort_key fst (map ?m kvs)"
    by (metis sort_key_map_prod)
  then show ?case by (simp add: id_def sort_key_idem)
qed simp_all

lemma json_eq_norm [simp]: "json_eq v (norm w) = json_eq v w" "json_eq (norm v) w = json_eq v w"
  by (simp_all add: json_eq_def)

section \<open>Round trips\<close>

text \<open>
  What can be constructed: identities have a value. (Their kinds are part of validity.)
\<close>

definition named :: "identity \<Rightarrow> bool" where
  "named i \<longleftrightarrow> id_value i \<noteq> []"

lemma dec_identity_json:
  "has_identity_kind i k \<Longrightarrow> named i \<Longrightarrow> id_as k (identity_json i) = Inr i"
  by (simp add: dec_identity_def identity_json_def readings identity_kind.enum_of_value
      make_identity_def named_def Identity_def has_identity_kind_def)

lemma decodes_identity [simp]:
  "has_identity_kind i k \<Longrightarrow> named i \<Longrightarrow> decodes (id_as k) identity_json i"
  by (simp add: decodes_def dec_identity_json)

lemma decodes_identities [simp]:
  "list_all (\<lambda>i. has_identity_kind i k) xs \<Longrightarrow> list_all named xs \<Longrightarrow>
     list_all (decodes (id_as k) identity_json) xs"
  "opt_kind_ok x k \<Longrightarrow> opt_all named x \<Longrightarrow> opt_all (decodes (id_as k) identity_json) x"
  by (auto simp: list_all_iff opt_kind_ok_def opt_all_def split: option.splits)

lemmas enum_of_values [simp] =
  requirement.enum_of_value attempt_status.enum_of_value work_item_status.enum_of_value
  suspension_status.enum_of_value wake_reason.enum_of_value control_status.enum_of_value
  control_reason.enum_of_value cancellation_scope.enum_of_value task_status.enum_of_value
  event_kind.enum_of_value

lemma opt_has_kind_ok: "opt_has_kind x k \<Longrightarrow> opt_kind_ok x k"
  by (cases x) (simp_all add: opt_has_kind_def opt_kind_ok_def)

lemmas decoding = readings dec_identity_json image_Un expect_def as_list_map

lemma decodes_dependency:
  "has_identity_kind (dep_item d) IK_WORK_ITEM \<Longrightarrow> named (dep_item d) \<Longrightarrow>
     decodes dec_dependency dependency_json d"
  by (simp add: decodes_def dec_dependency_def dependency_json_def decoding)

definition attempt_named :: "attempt \<Rightarrow> bool" where
  "attempt_named a \<longleftrightarrow> named (at_task a) \<and> named (at_item a) \<and> named (at_id a) \<and> named (at_dispatch a)"

lemma decodes_attempt:
  "attempt_is_valid a \<Longrightarrow> attempt_named a \<Longrightarrow> decodes dec_attempt attempt_json a"
  by (simp add: decodes_def dec_attempt_def attempt_json_def decoding attempt_is_valid_def
      attempt_named_def)

definition item_named :: "work_item \<Rightarrow> bool" where
  "item_named w \<longleftrightarrow> named (wi_task w) \<and> named (wi_id w) \<and>
     list_all (\<lambda>d. named (dep_item d)) (wi_deps w) \<and> opt_all attempt_named (wi_attempt w)"

lemma decodes_work_item:
  assumes "work_item_is_valid w t" and "has_identity_kind t IK_TASK" and "item_named w"
  shows "decodes dec_work_item work_item_json w"
proof -
  have "list_all (decodes dec_dependency dependency_json) (wi_deps w)"
    using assms by (auto simp: work_item_is_valid_def item_named_def list_all_iff intro: decodes_dependency)
  moreover have "nullable dec_attempt (case wi_attempt w of None \<Rightarrow> JNull | Some a \<Rightarrow> attempt_json a) =
      Inr (wi_attempt w)"
  proof (cases "wi_attempt w")
    case (Some a)
    then have "decodes dec_attempt attempt_json a"
      using assms by (intro decodes_attempt) (simp_all add: work_item_is_valid_def item_named_def)
    moreover have "attempt_json a \<noteq> JNull" by (simp add: attempt_json_def)
    ultimately show ?thesis using Some by (simp add: nullable_def decodes_def)
  qed (simp add: nullable_def)
  ultimately show ?thesis
    using assms
    by (simp add: decodes_def dec_work_item_def work_item_json_def decoding
        work_item_is_valid_def item_named_def del: as_list.simps)
qed

definition suspension_named :: "suspension \<Rightarrow> bool" where
  "suspension_named u \<longleftrightarrow> named (su_task u) \<and> named (su_id u) \<and> named (su_policy u) \<and>
     list_all named (su_required u) \<and> opt_all named (su_wake u)"

lemma decodes_enum [simp]:
  "opt_all (decodes (as_enum wake_reason_value all_wake_reason) (\<lambda>r. JStr (wake_reason_value r))) x"
  by (cases x) (simp_all add: decodes_def)

lemma decodes_suspension:
  assumes "suspension_is_valid u s" and "has_identity_kind (st_task s) IK_TASK"
    and "suspension_named u"
  shows "decodes dec_suspension suspension_json u"
proof -
  have "opt_kind_ok (su_wake u) IK_WAKE"
    using assms(1) by (cases "su_status u = SS_WAITING")
      (simp_all add: suspension_is_valid_def opt_kind_ok_def opt_has_kind_ok [unfolded opt_kind_ok_def])
  then show ?thesis
    using assms
    by (simp add: decodes_def dec_suspension_def suspension_json_def decoding
        suspension_is_valid_def suspension_named_def del: as_list.simps)
qed

lemma decodes_control:
  assumes "control_is_valid c" and "opt_all named (ct_interrupt c)"
  shows "decodes dec_control control_json c"
proof -
  have "opt_kind_ok (ct_interrupt c) IK_INTERRUPT"
    using assms(1) by (cases "ct_status c = CS_ACTIVE")
      (simp_all add: control_is_valid_def opt_kind_ok_def opt_has_kind_ok [unfolded opt_kind_ok_def])
  then show ?thesis
    using assms by (simp add: decodes_def dec_control_def control_json_def decoding)
qed

lemma decodes_accepted_event:
  "accepted_event_is_valid a \<Longrightarrow> named (ae_event a) \<Longrightarrow> named (ae_result a) \<Longrightarrow>
     decodes dec_accepted_event accepted_event_json a"
  by (simp add: decodes_def dec_accepted_event_def accepted_event_json_def decoding
      accepted_event_is_valid_def)

definition state_named :: "state \<Rightarrow> bool" where
  "state_named s \<longleftrightarrow> named (st_installation s) \<and> named (st_task s) \<and>
     list_all (\<lambda>a. named (ae_event a) \<and> named (ae_result a)) (st_accepted s) \<and>
     list_all item_named (st_items s) \<and> opt_all suspension_named (st_suspension s) \<and>
     opt_all (\<lambda>c. opt_all named (ct_interrupt c)) (st_control s)"

lemma decodes_state:
  assumes "state_is_valid s" and "state_named s"
  shows "decodes dec_state state_json s"
proof -
  have "list_all (decodes dec_accepted_event accepted_event_json) (st_accepted s)"
    using assms by (auto simp: state_is_valid_def state_named_def list_all_iff intro: decodes_accepted_event)
  moreover have "list_all (decodes dec_work_item work_item_json) (st_items s)"
    using assms by (auto simp: state_is_valid_def state_named_def list_all_iff intro: decodes_work_item)
  moreover have "opt_all (decodes dec_suspension suspension_json) (st_suspension s)"
    using assms by (cases "st_suspension s")
      (auto simp: state_is_valid_def state_named_def intro: decodes_suspension)
  moreover have "opt_all (decodes dec_control control_json) (st_control s)"
    using assms by (cases "st_control s") (auto simp: state_is_valid_def state_named_def intro: decodes_control)
  moreover obtain k where "st_status s = Closed k"
    using assms(1) by (cases "st_status s") (simp_all add: state_is_valid_def)
  ultimately show ?thesis
    using assms
    by (simp add: decodes_def dec_state_def state_json_def decoding state_is_valid_def state_named_def
        del: as_list.simps)
qed

definition event_named :: "event \<Rightarrow> bool" where
  "event_named e \<longleftrightarrow> named (ev_id e) \<and> named (ev_installation e) \<and> named (ev_task e) \<and>
     list_all (opt_all named) [ev_item e, ev_attempt e, ev_dispatch e, ev_suspension e, ev_policy e,
       ev_wake e, ev_principal e, ev_authority e, ev_interrupt e, ev_redirect e] \<and>
     list_all named (ev_required e) \<and> list_all named (ev_superseded e)"

lemma decodes_members [simp]:
  "opt_closed w \<Longrightarrow> opt_all (decodes (member wake_reason_value all_wake_reason)
     (\<lambda>r. JStr (enum_text wake_reason_value r))) w"
  "opt_closed c \<Longrightarrow> opt_all (decodes (member control_reason_value all_control_reason)
     (\<lambda>r. JStr (enum_text control_reason_value r))) c"
  "opt_closed p \<Longrightarrow> opt_all (decodes (member cancellation_scope_value all_cancellation_scope)
     (\<lambda>r. JStr (enum_text cancellation_scope_value r))) p"
  by (auto simp: opt_closed_def opt_all_def decodes_def member_def elim!: is_closed.elims
      split: option.splits)

lemma opt_all_True [simp]: "opt_all (\<lambda>x. True) y"
  by (simp add: opt_all_def split: option.splits)

lemma decodes_atoms [simp]:
  "opt_all (decodes as_int JInt) i"
  "opt_all (decodes as_str JStr) s"
  "list_all (decodes as_str JStr) ss"
  by (auto simp: opt_all_def decodes_def list_all_iff split: option.splits)

lemma decodes_event:
  assumes "event_is_valid e" and "event_named e"
  shows "decodes dec_event event_json e"
proof -
  obtain k where "ev_kind e = Closed k"
    using assms(1) by (cases "ev_kind e") (simp_all add: event_is_valid_def)
  then show ?thesis
    using assms
    by (simp add: decodes_def dec_event_def event_json_def decoding event_is_valid_def event_named_def
        member_def del: as_list.simps)
qed

lemma decode_event_json:
  "event_is_valid e \<Longrightarrow> event_named e \<Longrightarrow> decode_event (event_json e) = Inr e"
  using decodes_event by (simp add: decode_event_def decodes_def json_eq_def)

lemma decodes_evidence:
  "has_identity_kind (evd_id e) IK_EVIDENCE \<Longrightarrow> named (evd_id e) \<Longrightarrow> decodes dec_evidence evidence_json e"
  by (simp add: decodes_def dec_evidence_def evidence_json_def decoding)

lemma decodes_accepted:
  assumes "has_identity_kind (ac_result a) IK_RESULT" and "named (ac_result a)"
    and "state_is_valid (ac_state a)" and "state_named (ac_state a)"
  shows "decodes dec_result result_json (Accepted a)"
  using decodes_state [OF assms(3,4)] assms(1,2)
  by (simp add: decodes_def dec_result_def dec_accepted_def accepted_json_def decoding del: as_list.simps)

text \<open>A journal entry that replay accepts, over named identities.\<close>

definition entry_well_formed :: "replay_entry \<Rightarrow> bool" where
  "entry_well_formed x \<longleftrightarrow>
     event_is_valid (re_event x) \<and> event_named (re_event x) \<and>
     list_all (\<lambda>e. has_identity_kind (evd_id e) IK_EVIDENCE \<and> named (evd_id e)) (re_evidence x) \<and>
     (case re_result x of
        Accepted a \<Rightarrow> has_identity_kind (ac_result a) IK_RESULT \<and> named (ac_result a) \<and>
          state_is_valid (ac_state a) \<and> state_named (ac_state a)
      | _ \<Rightarrow> False)"

text \<open>The stored form of an entry lists its evidence in canonical order.\<close>

definition canonical_entry :: "replay_entry \<Rightarrow> replay_entry" where
  "canonical_entry x =
     x\<lparr>re_evidence := sort_key (\<lambda>e. canonical_json (evidence_json e)) (re_evidence x)\<rparr>"

lemma sort_key_map_comp: "sort_key f (map g xs) = map g (sort_key (\<lambda>x. f (g x)) xs)"
proof (induction xs)
  case (Cons x xs)
  have "insort_key f (g x) (map g ys) = map g (insort_key (\<lambda>x. f (g x)) x ys)" for ys
    by (induction ys) simp_all
  then show ?case using Cons by simp
qed simp

lemma canonical_evidence_sorted:
  "canonical_evidence ev = map evidence_json (sort_key (\<lambda>e. canonical_json (evidence_json e)) ev)"
  by (simp add: canonical_evidence_def sort_key_map_comp)

lemma canonical_entry_json [simp]: "replay_entry_json (canonical_entry x) = replay_entry_json x"
  by (simp add: replay_entry_json_def canonical_entry_def canonical_evidence_sorted sort_key_idem)

lemma decode_entry_json:
  assumes "entry_well_formed x"
  shows "decode_replay_entry (replay_entry_json x) = Inr (canonical_entry x)"
proof -
  obtain a where a: "re_result x = Accepted a"
    using assms by (cases "re_result x") (simp_all add: entry_well_formed_def)
  then have "decodes dec_result result_json (re_result x)"
    using assms decodes_accepted by (simp add: entry_well_formed_def)
  moreover have "list_all (decodes dec_evidence evidence_json)
      (sort_key (\<lambda>e. canonical_json (evidence_json e)) (re_evidence x))"
    using assms by (auto simp: entry_well_formed_def list_all_iff intro: decodes_evidence)
  moreover have "decodes dec_event event_json (re_event x)"
    using assms by (intro decodes_event) (simp_all add: entry_well_formed_def)
  ultimately show ?thesis
    by (simp add: decodes_def decode_replay_entry_def replay_entry_json_def decoding
        canonical_evidence_sorted canonical_entry_def del: as_list.simps)
qed

lemma decode_genesis_json:
  assumes "genesis_ok s" and "state_is_valid s" and "state_named s"
  shows "decode_genesis_root (genesis_root_json s) = Inr s"
  using decodes_state [OF assms(2,3)] assms(1)
  by (simp add: decodes_def decode_genesis_root_def genesis_root_json_def decoding replay_def json_eq_def)

definition root_named :: "checkpoint_root \<Rightarrow> bool" where
  "root_named c \<longleftrightarrow> state_named (cp_state c) \<and> named (cp_tail_event c) \<and> named (cp_tail_result c) \<and>
     named (cp_result c)"

lemma decode_checkpoint_root_json:
  assumes "checkpoint_root_is_valid c" and "root_named c"
  shows "dec_checkpoint_root (checkpoint_root_json c) = Inr c"
proof -
  have "decodes dec_state state_json (cp_state c)"
    using assms by (intro decodes_state) (simp_all add: checkpoint_root_is_valid_def root_named_def)
  moreover have "has_identity_kind (cp_tail_event c) IK_EVENT" "has_identity_kind (cp_tail_result c) IK_RESULT"
    "has_identity_kind (cp_result c) IK_RESULT"
    using assms(1) by (simp_all add: checkpoint_root_is_valid_def)
  moreover have "make_checkpoint_root \<lparr>cp_state = cp_state c, cp_count = cp_count c, cp_prefix = cp_prefix c,
      cp_tail_event = cp_tail_event c, cp_tail_result = cp_tail_result c,
      cp_tail_digest = cp_tail_digest c, cp_result = cp_result c, cp_policy_digest = cp_policy_digest c\<rparr> = Inr c"
    using assms(1) by (cases c) (simp add: make_checkpoint_root_def)
  ultimately show ?thesis
    using assms
    by (simp add: decodes_def dec_checkpoint_root_def checkpoint_root_json_def decoding root_named_def
        json_eq_def)
qed

text \<open>
  A policy comes out of its constructor; an authentication's policy does, its evidence is distinct
  and names identities, and its result is an accepted one.
\<close>

definition canonical_authentication :: "checkpoint_authentication \<Rightarrow> checkpoint_authentication" where
  "canonical_authentication x =
     x\<lparr>au_evidence := sort_key (\<lambda>e. canonical_json (evidence_json e)) (au_evidence x)\<rparr>"

definition policy_made :: "trust_policy \<Rightarrow> bool" where
  "policy_made p \<longleftrightarrow> make_trust_policy (tp_ids p) = Inr p"

definition authentication_made :: "checkpoint_authentication \<Rightarrow> bool" where
  "authentication_made x \<longleftrightarrow>
     policy_made (au_policy x) \<and> list_all named (tp_ids (au_policy x)) \<and>
     distinct (map evd_id (au_evidence x)) \<and>
     list_all (\<lambda>e. named (evd_id e)) (au_evidence x) \<and>
     (case au_result x of Accepted a \<Rightarrow> named (ac_result a) \<and> state_named (ac_state a) | _ \<Rightarrow> False)"

lemma decodes_trust_policy:
  assumes "policy_made p" and "list_all named (tp_ids p)"
  shows "decodes dec_trust_policy trust_policy_json p"
proof -
  have "list_all (\<lambda>i. has_identity_kind i IK_EVIDENCE) (tp_ids p)"
    using assms(1) by (simp add: policy_made_def make_trust_policy_def split: if_splits)
  then show ?thesis
    using assms
    by (simp add: decodes_def dec_trust_policy_def trust_policy_json_def decoding policy_made_def
        del: as_list.simps)
qed

lemma decode_authentication_json:
  assumes "checkpoint_authentication_is_valid c (Some x)" and "authentication_made x"
  shows "dec_checkpoint_authentication (checkpoint_authentication_json x) = Inr (canonical_authentication x)"
proof -
  obtain a where a: "au_result x = Accepted a" "ac_state a = cp_state c" "ac_result a = cp_result c"
    "checkpoint_root_is_valid c" "evidence_set_is_valid (au_evidence x)"
    using assms(1) by (cases "au_result x") (simp_all add: checkpoint_authentication_is_valid_def)
  have "decodes dec_result result_json (au_result x)"
    unfolding a(1) by (intro decodes_accepted)
      (use a assms(2) in \<open>simp_all add: checkpoint_root_is_valid_def authentication_made_def a(1)\<close>)
  moreover have "list_all (decodes dec_evidence evidence_json)
      (sort_key (\<lambda>e. canonical_json (evidence_json e)) (au_evidence x))"
    using a(5) assms(2)
    by (auto simp: evidence_set_is_valid_def authentication_made_def list_all_iff intro: decodes_evidence)
  moreover have "decodes dec_trust_policy trust_policy_json (au_policy x)"
    using assms(2) by (intro decodes_trust_policy) (simp_all add: authentication_made_def)
  moreover have "distinct (map evd_id (sort_key (\<lambda>e. canonical_json (evidence_json e)) (au_evidence x)))"
    using assms(2) by (simp add: authentication_made_def distinct_map)
  ultimately show ?thesis
    by (simp add: decodes_def dec_checkpoint_authentication_def checkpoint_authentication_json_def decoding
        canonical_evidence_sorted canonical_authentication_def make_checkpoint_authentication_def
        del: as_list.simps)
qed

section \<open>Distinct keys\<close>

lemma keys_once_identity [simp]: "keys_once (identity_json i)"
  by (simp add: identity_json_def)

lemma keys_once_parts [simp]:
  "keys_once (evidence_json e)" "keys_once (dependency_json d)" "keys_once (attempt_json a)"
  "keys_once (accepted_event_json x)"
  by (simp_all add: evidence_json_def dependency_json_def attempt_json_def accepted_event_json_def)

lemma keys_once_work_item [simp]: "keys_once (work_item_json w)"
  by (simp add: work_item_json_def split: option.splits)

lemma keys_once_suspension [simp]: "keys_once (suspension_json u)"
  by (simp add: suspension_json_def ball_Un image_Un del: map_append)

lemma keys_once_control [simp]: "keys_once (control_json c)"
  by (simp add: control_json_def ball_Un image_Un del: map_append)

lemma keys_once_state [simp]: "keys_once (state_json s)"
  by (simp add: state_json_def ball_Un image_Un del: map_append)

lemma keys_once_event [simp]: "keys_once (event_json e)"
  by (simp add: event_json_def ball_Un image_Un del: map_append)

lemma keys_once_accepted [simp]: "keys_once (accepted_json a)"
  by (simp add: accepted_json_def)

lemma keys_once_result [simp]: "keys_once (result_json (Accepted a))"
  by simp

lemma keys_once_roots [simp]:
  "keys_once (genesis_root_json s)" "keys_once (checkpoint_root_json c)" "keys_once (trust_policy_json p)"
  by (simp_all add: genesis_root_json_def checkpoint_root_json_def trust_policy_json_def)

lemma keys_once_replay_entry:
  "is_accepted (re_result x) \<Longrightarrow> keys_once (replay_entry_json x)"
  by (auto simp: replay_entry_json_def canonical_evidence_sorted is_accepted_iff)

lemma keys_once_authentication:
  "is_accepted (au_result x) \<Longrightarrow> keys_once (checkpoint_authentication_json x)"
  by (auto simp: checkpoint_authentication_json_def canonical_evidence_sorted is_accepted_iff)

end
