(* ===== verification/Kernel_Store.thy ===== *)
theory Kernel_Store
  imports Store Kernel_Decode
begin

text \<open>
  \<^verbatim>\<open>KernelStore\<close> of \<^verbatim>\<open>src/valp_cli/kernel_store.py\<close>: the files of one task's kernel, their loaders, and
  the operations initialize, append, recover, reconcile_effects, record_effect and
  persist_checkpoint. Each operation takes the environment and the files and gives its result and
  the files after it.
\<close>

definition KERNEL_STORE_CORRUPT_ERROR :: string where
  "KERNEL_STORE_CORRUPT_ERROR = ''VALP-E-KERNEL-STORE-CORRUPT''"

section \<open>Files and records\<close>

record disk =
  dk_genesis :: node
  dk_journal :: node
  dk_checkpoint :: node
  dk_effects :: node

text \<open>What a call sees of the files when some cannot be read.\<close>

definition seen_disk :: "(store_file \<Rightarrow> bool) \<Rightarrow> disk \<Rightarrow> disk" where
  "seen_disk u d =
     \<lparr>dk_genesis = seen_node (u Genesis_file) (dk_genesis d),
      dk_journal = seen_node (u Journal_file) (dk_journal d),
      dk_checkpoint = seen_node (u Checkpoint_file) (dk_checkpoint d),
      dk_effects = seen_node (u Effects_file) (dk_effects d)\<rparr>"

definition reading_disk :: "env \<Rightarrow> (disk \<Rightarrow> failure + 'a) \<Rightarrow> (disk, 'a) io" where
  "reading_disk v f = (\<lambda>(d, replaced). (f (seen_disk (env_unreadable v replaced) d), d, replaced))"

text \<open>
  \<^verbatim>\<open>_replace\<close> of the Kernel store. Its \<^verbatim>\<open>finally\<close> clause removes the temporary file and ignores only
  \<^verbatim>\<open>FileNotFoundError\<close>: any other error takes the place of the result or the error so far.
\<close>

definition replace_kernel :: "env \<Rightarrow> (node \<Rightarrow> disk \<Rightarrow> disk) \<Rightarrow> string \<Rightarrow> (disk, unit) io" where
  "replace_kernel v put payload = (\<lambda>s.
     case replace_node v put payload s of
       (r, s') \<Rightarrow>
         if env_unremoved v \<and> env_replace v \<noteq> Temporary_failed
         then (Inl (Uncaught (OSError ''unlink'')), s') else (r, s'))"

record recovery =
  rc_replay :: replayed
  rc_entries :: "replay_entry list"
  rc_used_checkpoint :: bool

datatype effect_status = EF_FULFILLED | EF_BLOCKED

fun effect_status_value :: "effect_status \<Rightarrow> string" where
  "effect_status_value EF_FULFILLED = ''fulfilled''"
| "effect_status_value EF_BLOCKED = ''blocked''"

definition EMPTY_EFFECT_LEDGER_DIGEST :: string where
  "EMPTY_EFFECT_LEDGER_DIGEST =
     digest (JObj [(''schema_version'', JStr ''valp-kernel-effect-ledger.v1''), (''records'', JArr [])])"

record effect_record =
  er_id :: string
  er_obligation :: string
  er_status :: effect_status
  er_proof_ref :: string
  er_proof_digest :: string
  er_revision :: int
  er_prior :: string
  er_digest :: string

definition effect_entries :: "effect_record \<Rightarrow> (string \<times> json) list" where
  "effect_entries r =
     [(''schema_version'', JStr ''valp-kernel-effect-record.v1''),
      (''effect_id'', JStr (er_id r)),
      (''obligation'', JStr (er_obligation r)),
      (''status'', JStr (effect_status_value (er_status r))),
      (''proof_ref'', JStr (er_proof_ref r)),
      (''proof_digest'', JStr (er_proof_digest r)),
      (''ledger_revision'', JInt (er_revision r)),
      (''prior_record_digest'', JStr (er_prior r))]"

definition effect_body_json :: "effect_record \<Rightarrow> json" where
  "effect_body_json r = JObj (effect_entries r)"

definition effect_record_json :: "effect_record \<Rightarrow> json" where
  "effect_record_json r = JObj (effect_entries r @ [(''record_digest'', JStr (er_digest r))])"

record reconciliation =
  rn_pending :: "string list"
  rn_fulfilled :: "effect_record list"
  rn_blocked :: "effect_record list"

definition reconciliation_json :: "reconciliation \<Rightarrow> json" where
  "reconciliation_json r =
     JObj [(''schema_version'', JStr ''valp-kernel-effect-reconciliation.v1''),
           (''pending'', JArr (map JStr (rn_pending r))),
           (''fulfilled'', JArr (map effect_record_json (rn_fulfilled r))),
           (''blocked'', JArr (map effect_record_json (rn_blocked r)))]"

section \<open>Loading\<close>

definition parse :: "string \<Rightarrow> json res" where
  "parse payload =
     (case strict_loads payload of None \<Rightarrow> Inl (ValueError ''JSONDecodeError'') | Some v \<Rightarrow> Inr v)"

definition read_canonical :: "('a \<Rightarrow> json) \<Rightarrow> (json \<Rightarrow> 'a res) \<Rightarrow> node \<Rightarrow> failure + 'a" where
  "read_canonical enc dec n =
     bind_res (ensure_regular n) (\<lambda>_.
     bind_res (read_bytes n) (\<lambda>payload.
       if payload = [] \<or> last payload \<noteq> LF \<or> CR \<in> set payload \<or> starts_bom payload
       then Inl (Uncaught (ValueError ''noncanonical Kernel artifact''))
       else lift_res
         (bind_res (parse payload) (\<lambda>j.
          bind_res (dec j) (\<lambda>x.
          bind_res (encode_utf8 (canonical_json (enc x))) (\<lambda>t.
            if payload \<noteq> t then Inl (ValueError ''noncanonical Kernel artifact'') else Inr x))))))"

definition load_genesis :: "disk \<Rightarrow> failure + state" where
  "load_genesis d =
     (if \<not> exists_path (dk_genesis d) then Inl (Uncaught (ValueError ''Kernel GenesisRoot is missing''))
      else read_canonical genesis_root_json decode_genesis_root (dk_genesis d))"

definition load_entries :: "disk \<Rightarrow> failure + replay_entry list" where
  "load_entries d =
     bind_res (ensure_regular (dk_journal d)) (\<lambda>_.
       if \<not> exists_path (dk_journal d) then Inr []
       else bind_res (read_bytes (dk_journal d)) (\<lambda>payload.
         lift_res (load_lines replay_entry_json decode_replay_entry payload)))"

definition journal_bytes :: "replay_entry list \<Rightarrow> string res" where
  "journal_bytes xs = encode_lines replay_entry_json xs"

definition checkpoint_envelope_json :: "checkpoint_root \<Rightarrow> checkpoint_authentication \<Rightarrow> json" where
  "checkpoint_envelope_json c a =
     JObj [(''schema_version'', JStr ''valp-kernel-checkpoint-envelope.v1''),
           (''root'', checkpoint_root_json c),
           (''authentication'', checkpoint_authentication_json a)]"

definition decode_checkpoint :: "string \<Rightarrow> (checkpoint_root \<times> checkpoint_authentication) res" where
  "decode_checkpoint payload =
     bind_res (parse payload) (\<lambda>v.
     bind_res (shape [''schema_version'', ''root'', ''authentication''] [] v) (\<lambda>_.
     bind_res (item ''schema_version'' (expect ''valp-kernel-checkpoint-envelope.v1'') v) (\<lambda>_.
     bind_res (item ''root'' dec_checkpoint_root v) (\<lambda>c.
     bind_res (item ''authentication'' dec_checkpoint_authentication v) (\<lambda>a.
     bind_res (encode_utf8 (canonical_json (checkpoint_envelope_json c a))) (\<lambda>t.
       if payload \<noteq> t then Inl (ValueError ''checkpoint envelope is noncanonical'') else Inr (c, a)))))))"

definition load_checkpoint ::
  "disk \<Rightarrow> failure + (checkpoint_root \<times> checkpoint_authentication) option" where
  "load_checkpoint d =
     bind_res (ensure_regular (dk_checkpoint d)) (\<lambda>_.
       if \<not> exists_path (dk_checkpoint d) then Inr None
       else bind_res (read_bytes (dk_checkpoint d)) (\<lambda>payload.
         bind_res (lift_res (decode_checkpoint payload)) (\<lambda>x. Inr (Some x))))"

section \<open>Recovery\<close>

text \<open>\<^verbatim>\<open>entries[:count]\<close> and \<^verbatim>\<open>entries[count:]\<close>; a constructed root has a positive count.\<close>

definition check_prefix ::
  "state \<Rightarrow> checkpoint_root \<Rightarrow> replay_entry list \<Rightarrow> replayed res" where
  "check_prefix g root xs =
     (if cp_count root > int (length xs)
      then Inl (ValueError ''checkpoint is ahead of the Kernel journal'')
      else
        let prefix = take (nat (cp_count root)) xs in
        bind_res (replay_prefix_digest prefix) (\<lambda>pd.
          if cp_prefix root \<noteq> pd
          then Inl (ValueError ''checkpoint prefix digest does not match journal'')
          else bind_res (replay (GenesisRoot g) prefix None) (\<lambda>p.
            if rp_state p \<noteq> cp_state root
            then Inl (ValueError ''checkpoint State does not match journal prefix'')
            else Inr p)))"

definition recover_unlocked :: "disk \<Rightarrow> state \<Rightarrow> replay_entry list \<Rightarrow> failure + recovery" where
  "recover_unlocked d g xs =
     bind_res (lift_res (replay (GenesisRoot g) xs None)) (\<lambda>full.
     bind_res (load_checkpoint d) (\<lambda>checkpoint.
       case checkpoint of
         None \<Rightarrow> Inr \<lparr>rc_replay = full, rc_entries = xs, rc_used_checkpoint = False\<rparr>
       | Some (root, auth) \<Rightarrow>
           lift_res
             (bind_res (check_prefix g root xs) (\<lambda>_.
              bind_res (replay (CheckpointRoot root) (drop (nat (cp_count root)) xs) (Some auth)) (\<lambda>r.
                if \<not> json_eq (state_json (rp_state r)) (state_json (rp_state full))
                then Inl (ValueError ''checkpoint recovery differs from full Genesis replay'')
                else Inr \<lparr>rc_replay = r, rc_entries = xs, rc_used_checkpoint = True\<rparr>)))))"

definition load_recovery :: "disk \<Rightarrow> failure + recovery" where
  "load_recovery d =
     bind_res (load_genesis d) (\<lambda>g. bind_res (load_entries d) (\<lambda>xs. recover_unlocked d g xs))"

text \<open>The handlers at the end of each operation: what is not classified yet is corruption.\<close>

fun classify :: "(failure + 'a) \<times> disk \<Rightarrow> (failure + 'a) \<times> disk" where
  "classify (Inl (Uncaught e), d) = (Inl (StoreError KERNEL_STORE_CORRUPT_ERROR REJECTED_OUTCOME), d)"
| "classify r = r"

definition recover :: "env \<Rightarrow> disk \<Rightarrow> (failure + recovery) \<times> disk" where
  "recover v d = classify (locked v (dk_journal d) (reading_disk v load_recovery) d)"

section \<open>Initialization and append\<close>

text \<open>\<^verbatim>\<open>_ensure_regular(path)\<close> and \<^verbatim>\<open>path.exists()\<close>, either of which the operating system may refuse.\<close>

definition path_exists :: "node \<Rightarrow> failure + bool" where
  "path_exists n =
     bind_res (ensure_regular n) (\<lambda>_.
       if n = Unreadable then Inl (Uncaught (OSError ''stat'')) else Inr (exists_path n))"

definition initialize :: "env \<Rightarrow> state \<Rightarrow> disk \<Rightarrow> (failure + unit) \<times> disk" where
  "initialize v g d =
     (case bind_res (replay (GenesisRoot g) [] None)
             (\<lambda>_. encode_utf8 (canonical_json (genesis_root_json g))) of
        Inl e \<Rightarrow> (Inl (Uncaught e), d)
      | Inr payload \<Rightarrow>
          locked v (dk_journal d)
            (bind_io (reading_disk v (\<lambda>d. path_exists (dk_genesis d))) (\<lambda>genesis.
             bind_io (reading_disk v (\<lambda>d. path_exists (dk_checkpoint d))) (\<lambda>checkpoint.
             bind_io (reading_disk v (\<lambda>d. path_exists (dk_effects d))) (\<lambda>effects.
               if genesis
               then bind_io (reading_disk v (\<lambda>d. read_bytes (dk_genesis d))) (\<lambda>old.
                 if old \<noteq> payload then fail (StoreError IDEMPOTENCY_CONFLICT_ERROR REJECTED_OUTCOME)
                 else ret ())
               else bind_io (reading_disk v (\<lambda>d. path_exists (dk_journal d))) (\<lambda>journal.
                 if journal \<or> checkpoint \<or> effects
                 then fail (StoreError KERNEL_STORE_CORRUPT_ERROR REJECTED_OUTCOME)
                 else replace_kernel v (\<lambda>n d. d\<lparr>dk_genesis := n\<rparr>) payload))))) d)"

definition append_body :: "env \<Rightarrow> replay_entry \<Rightarrow> (disk, recovery) io" where
  "append_body v x =
     bind_io (reading_disk v load_genesis) (\<lambda>g.
     bind_io (reading_disk v load_entries) (\<lambda>xs.
       case List.find (\<lambda>p. ev_id (re_event p) = ev_id (re_event x)) xs of
         Some p \<Rightarrow>
           if json_eq (replay_entry_json p) (replay_entry_json x)
           then reading_disk v (\<lambda>d. recover_unlocked d g xs)
           else fail (StoreError IDEMPOTENCY_CONFLICT_ERROR REJECTED_OUTCOME)
       | None \<Rightarrow>
           bind_io (look (\<lambda>_. lift_res (replay (GenesisRoot g) (xs @ [x]) None))) (\<lambda>_.
           bind_io (look (\<lambda>_. lift_res (journal_bytes (xs @ [x])))) (\<lambda>payload.
           bind_io (replace_kernel v (\<lambda>n d. d\<lparr>dk_journal := n\<rparr>) payload) (\<lambda>_.
             reading_disk v (\<lambda>d. recover_unlocked d g (xs @ [x])))))))"

definition append_entry :: "env \<Rightarrow> replay_entry \<Rightarrow> disk \<Rightarrow> (failure + recovery) \<times> disk" where
  "append_entry v x d =
     (if \<not> is_accepted (re_result x)
      then (Inl (StoreError STATE_CONFLICT_ERROR REJECTED_OUTCOME), d)
      else classify (locked v (dk_journal d) (append_body v x) d))"

section \<open>Checkpoints\<close>

definition persist_checkpoint_body ::
  "env \<Rightarrow> checkpoint_root \<Rightarrow> checkpoint_authentication \<Rightarrow> (disk, unit) io" where
  "persist_checkpoint_body v root auth =
     bind_io (reading_disk v load_genesis) (\<lambda>g.
     bind_io (reading_disk v load_entries) (\<lambda>xs.
     bind_io (look (\<lambda>_. lift_res (check_prefix g root xs))) (\<lambda>_.
     bind_io (look (\<lambda>_. lift_res (replay (CheckpointRoot root) [] (Some auth)))) (\<lambda>_.
     bind_io (look (\<lambda>_. lift_res (encode_utf8 (canonical_json (checkpoint_envelope_json root auth)))))
       (\<lambda>payload.
     bind_io (reading_disk v (\<lambda>d. if exists_path (dk_checkpoint d) then read_bytes (dk_checkpoint d) else Inr []))
       (\<lambda>old.
       if old = payload then ret ()
       else replace_kernel v (\<lambda>n d. d\<lparr>dk_checkpoint := n\<rparr>) payload))))))"

definition persist_checkpoint ::
  "env \<Rightarrow> checkpoint_root \<Rightarrow> checkpoint_authentication \<Rightarrow> disk \<Rightarrow> (failure + unit) \<times> disk" where
  "persist_checkpoint v root auth d =
     classify (locked v (dk_journal d) (persist_checkpoint_body v root auth) d)"

section \<open>Reading under faults\<close>

lemma seen_fields [simp]:
  "dk_genesis (seen_disk u d) = seen_node (u Genesis_file) (dk_genesis d)"
  "dk_journal (seen_disk u d) = seen_node (u Journal_file) (dk_journal d)"
  "dk_checkpoint (seen_disk u d) = seen_node (u Checkpoint_file) (dk_checkpoint d)"
  "dk_effects (seen_disk u d) = seen_node (u Effects_file) (dk_effects d)"
  by (simp_all add: seen_disk_def)

lemma seen_nothing [simp]: "seen_disk (\<lambda>_. False) d = d"
  by (simp add: seen_disk_def)

lemma reading_disk_apply [simp]:
  "reading_disk v f (d, b) = (f (seen_disk (env_unreadable v b) d), d, b)"
  by (simp add: reading_disk_def)

lemma bind_io_reading [simp]:
  "bind_io (reading_disk v f) k (d, b) =
     (case f (seen_disk (env_unreadable v b) d) of Inl e \<Rightarrow> (Inl e, d, b) | Inr x \<Rightarrow> k x (d, b))"
  by (simp add: bind_io_def split: sum.splits)

lemma load_seen [simp]:
  "load_genesis (seen_disk u d) = (if u Genesis_file then Inl (Uncaught (OSError ''read'')) else load_genesis d)"
  "load_entries (seen_disk u d) = (if u Journal_file then Inl (Uncaught (OSError ''read'')) else load_entries d)"
  "load_checkpoint (seen_disk u d) =
     (if u Checkpoint_file then Inl (Uncaught (OSError ''read'')) else load_checkpoint d)"
  by (simp_all add: load_genesis_def read_canonical_def load_entries_def load_checkpoint_def)

lemma recover_unlocked_seen [simp]:
  "recover_unlocked (seen_disk u d) g xs =
     (if u Checkpoint_file
      then bind_res (lift_res (replay (GenesisRoot g) xs None)) (\<lambda>_. Inl (Uncaught (OSError ''read'')))
      else recover_unlocked d g xs)"
  by (simp add: recover_unlocked_def)

lemma load_recovery_seen:
  "load_recovery (seen_disk u d) = Inr r \<Longrightarrow> load_recovery d = Inr r"
  by (auto simp: load_recovery_def bind_res_Inr_iff split: if_splits)

text \<open>Errors that, classified, say that nothing was written.\<close>

fun refusal :: "failure \<Rightarrow> bool" where
  "refusal (StoreError c out) \<longleftrightarrow> out = REJECTED_OUTCOME"
| "refusal (Uncaught e) = True"
| "refusal (Escaping m) = False"

lemma classify_refusal:
  "refusal e \<Longrightarrow> classify (Inl e, d) = (res, d') \<Longrightarrow> d' = d \<and> (\<exists>c. res = Inl (StoreError c REJECTED_OUTCOME))"
  by (cases e) auto

text \<open>A replacement in the Kernel store, fault by fault.\<close>

lemma replace_kernel_cases:
  assumes "replace_kernel v put p (d, False) = (r, d', b)"
  obtains (untouched) e where "r = Inl e" and "refusal e" and "d' = d" and "\<not> b"
  | (replaced) "d' = put (Regular p) d" and "b"
      and "r = Inr () \<or> r = Inl (StoreError DURABILITY_UNKNOWN_ERROR UNKNOWN_OR_COMMITTED_OUTCOME) \<or>
           env_unremoved v \<and> r = Inl (Uncaught (OSError ''unlink''))"
  using assms by (cases "env_replace v"; cases "env_unremoved v")
    (auto simp: replace_kernel_def replace_node_def intro: that)

lemma replace_kernel_calm:
  "calm v \<Longrightarrow> replace_kernel v put p (d, b) = (Inr (), put (Regular p) d, True)"
  by (simp add: calm_def replace_kernel_def replace_node_def)

end
