(* ===== verification/Kernel_Journal.thy ===== *)
theory Kernel_Journal
  imports Kernel_Store
begin

text \<open>
  What the journal operations of \<open>Kernel_Store\<close> guarantee: recovery returns the state of a full
  replay, an append is atomic under every fault of the environment, and its errors are honest unless
  the fault comes after the commit.
\<close>

section \<open>Replay, piecewise\<close>

lemma replay_loop_append:
  "replay_loop s ap (xs @ ys) = bind_res (replay_loop s ap xs) (\<lambda>(t, ap'). replay_loop t ap' ys)"
  by (induction s ap xs rule: replay_loop.induct) (auto split: result.splits)

lemma replay_loop_applied:
  assumes "replay_loop s ap xs = Inr (t, ds)"
  shows "\<exists>ds'. replay_loop s ap' xs = Inr (t, ds')"
  using replay_loop_sound [OF assms] replay_loop_complete by blast

lemma replay_genesis_iff:
  "replay (GenesisRoot g) xs None = Inr rp \<longleftrightarrow>
     genesis_ok g \<and> (\<exists>t ds. replay_loop g [] xs = Inr (t, ds) \<and>
       rp = \<lparr>rp_state = t, rp_digests = ds, rp_obligations = []\<rparr>)"
  by (auto simp: replay_def bind_res_Inr_iff)

lemma replay_checkpoint_iff:
  "replay (CheckpointRoot c) xs (Some auth) = Inr rp \<longleftrightarrow>
     checkpoint_authentication_is_valid c (Some auth) \<and>
     (\<exists>t ds. replay_loop (cp_state c) [] xs = Inr (t, ds) \<and>
       rp = \<lparr>rp_state = t, rp_digests = ds, rp_obligations = []\<rparr>)"
  by (auto simp: replay_def bind_res_Inr_iff)

lemma replay_snoc:
  assumes "replay (GenesisRoot g) (xs @ [x]) None = Inr full"
  obtains old a where "replay (GenesisRoot g) xs None = Inr old"
    and "reduce (rp_state old) (re_event x) (re_evidence x) = Accepted a"
    and "is_accepted (re_result x)"
    and "canonical_json (result_json (Accepted a)) = canonical_json (result_json (re_result x))"
    and "rp_state full = ac_state a"
proof -
  from assms obtain t ap ds where g: "genesis_ok g" and t: "replay_loop g [] xs = Inr (t, ap)"
    and x: "replay_loop t ap [x] = Inr (rp_state full, ds)"
    by (auto simp: replay_genesis_iff replay_loop_append bind_res_Inr_iff)
  then show ?thesis
    using that [of "\<lparr>rp_state = t, rp_digests = ap, rp_obligations = []\<rparr>"]
    by (simp add: replay_genesis_iff split: if_splits result.splits)
qed

section \<open>Recovery\<close>

lemma check_prefix_iff:
  "check_prefix g c xs = Inr p \<longleftrightarrow>
     cp_count c \<le> int (length xs) \<and>
     replay_prefix_digest (take (nat (cp_count c)) xs) = Inr (cp_prefix c) \<and>
     replay (GenesisRoot g) (take (nat (cp_count c)) xs) None = Inr p \<and> rp_state p = cp_state c"
  by (auto simp: check_prefix_def Let_def bind_res_Inr_iff)

lemma load_checkpoint_cong: "dk_checkpoint d' = dk_checkpoint d \<Longrightarrow> load_checkpoint d' = load_checkpoint d"
  by (simp add: load_checkpoint_def)

text \<open>Replaying the rest of the journal from a checkpoint that matches it gives the state of a full replay.\<close>

lemma checkpoint_suffix:
  assumes "check_prefix g c xs = Inr p" and "replay (GenesisRoot g) xs None = Inr full"
    and "checkpoint_authentication_is_valid c (Some auth)"
  shows "\<exists>r. replay (CheckpointRoot c) (drop (nat (cp_count c)) xs) (Some auth) = Inr r \<and>
    rp_state r = rp_state full \<and> rp_digests r = drop (nat (cp_count c)) (rp_digests full)"
proof -
  let ?n = "nat (cp_count c)" and ?dg = "\<lambda>x. ac_result_digest (entry_result x)"
  obtain ap where ap: "replay_loop g [] (take ?n xs) = Inr (cp_state c, ap)"
    using assms(1) by (auto simp: check_prefix_iff replay_genesis_iff)
  then obtain tr1 where tr1: "list_all2 describes (take ?n xs) tr1" "ap = map ?dg tr1"
    using replay_loop_sound by fastforce
  have "replay_loop g [] (take ?n xs @ drop ?n xs) = Inr (rp_state full, rp_digests full)"
    using assms(2) by (auto simp: replay_genesis_iff)
  then have "replay_loop (cp_state c) ap (drop ?n xs) = Inr (rp_state full, rp_digests full)"
    using ap by (simp only: replay_loop_append bind_res_simps prod.case)
  then obtain tr2 where tr2: "run (cp_state c) tr2 (rp_state full)" "list_all2 describes (drop ?n xs) tr2"
    "rp_digests full = ap @ map ?dg tr2" using replay_loop_sound by blast
  have "length ap = ?n"
    using tr1 assms(1) by (auto simp: check_prefix_iff list_all2_lengthD [symmetric] min_def nat_le_iff)
  with tr2 assms(3) replay_loop_complete [OF tr2(1,2), of "[]"] show ?thesis
    by (auto simp: replay_checkpoint_iff)
qed

lemma recover_unlocked_None:
  "load_checkpoint d = Inr None \<Longrightarrow> recover_unlocked d g xs = Inr r \<longleftrightarrow>
     (\<exists>full. replay (GenesisRoot g) xs None = Inr full \<and>
       r = \<lparr>rc_replay = full, rc_entries = xs, rc_used_checkpoint = False\<rparr>)"
  by (auto simp: recover_unlocked_def bind_res_Inr_iff)

lemma recover_unlocked_Some:
  "load_checkpoint d = Inr (Some (c, auth)) \<Longrightarrow> recover_unlocked d g xs = Inr r \<longleftrightarrow>
     (\<exists>full p s. replay (GenesisRoot g) xs None = Inr full \<and> check_prefix g c xs = Inr p \<and>
       replay (CheckpointRoot c) (drop (nat (cp_count c)) xs) (Some auth) = Inr s \<and>
       json_eq (state_json (rp_state s)) (state_json (rp_state full)) \<and>
       r = \<lparr>rc_replay = s, rc_entries = xs, rc_used_checkpoint = True\<rparr>)"
  by (auto simp: recover_unlocked_def bind_res_Inr_iff)

lemma recover_unlocked_cases:
  assumes "recover_unlocked d g xs = Inr r"
  obtains "load_checkpoint d = Inr None" | c auth where "load_checkpoint d = Inr (Some (c, auth))"
proof -
  obtain cp where "load_checkpoint d = Inr cp"
    using assms by (auto simp: recover_unlocked_def bind_res_Inr_iff)
  then show ?thesis using that by (cases cp) auto
qed

lemma recover_unlocked_state:
  assumes "recover_unlocked d g xs = Inr r"
  shows "\<exists>full. replay (GenesisRoot g) xs None = Inr full \<and> rp_state (rc_replay r) = rp_state full \<and>
    rc_entries r = xs"
  using assms
proof (cases rule: recover_unlocked_cases)
  case 1
  with assms show ?thesis by (auto simp: recover_unlocked_None)
next
  case (2 c auth)
  with assms obtain full p s where full: "replay (GenesisRoot g) xs None = Inr full"
    and p: "check_prefix g c xs = Inr p"
    and s: "replay (CheckpointRoot c) (drop (nat (cp_count c)) xs) (Some auth) = Inr s"
    and r: "r = \<lparr>rc_replay = s, rc_entries = xs, rc_used_checkpoint = True\<rparr>"
    by (auto simp: recover_unlocked_Some)
  moreover have "checkpoint_authentication_is_valid c (Some auth)"
    using s by (simp add: replay_checkpoint_iff)
  ultimately show ?thesis using checkpoint_suffix [OF p full, of auth] by auto
qed

text \<open>A recoverable store stays recoverable when its journal grows by an entry that replays.\<close>

lemma recover_extend:
  assumes old: "recover_unlocked d g xs = Inr old"
    and new: "replay (GenesisRoot g) (xs @ [x]) None = Inr full"
    and cp: "dk_checkpoint d' = dk_checkpoint d"
  shows "\<exists>r. recover_unlocked d' g (xs @ [x]) = Inr r \<and> rp_state (rc_replay r) = rp_state full \<and>
    rc_entries r = xs @ [x]"
  using old
proof (cases rule: recover_unlocked_cases)
  case 1
  then have "load_checkpoint d' = Inr None" using load_checkpoint_cong [OF cp] by simp
  with new show ?thesis by (simp add: recover_unlocked_None)
next
  case (2 c auth)
  then have l': "load_checkpoint d' = Inr (Some (c, auth))" using load_checkpoint_cong [OF cp] by simp
  from 2 old obtain p r where p: "check_prefix g c xs = Inr p"
    and r: "replay (CheckpointRoot c) (drop (nat (cp_count c)) xs) (Some auth) = Inr r"
    by (auto simp: recover_unlocked_Some)
  have p': "check_prefix g c (xs @ [x]) = Inr p"
  proof -
    have "nat (cp_count c) - length xs = 0" using p by (simp add: check_prefix_iff nat_le_iff)
    then show ?thesis using p by (simp add: check_prefix_iff)
  qed
  have "checkpoint_authentication_is_valid c (Some auth)" using r by (simp add: replay_checkpoint_iff)
  from checkpoint_suffix [OF p' new this] obtain r' where
    "replay (CheckpointRoot c) (drop (nat (cp_count c)) (xs @ [x])) (Some auth) = Inr r'"
    "rp_state r' = rp_state full" by blast
  with new p' show ?thesis
    by (intro exI [of _ "\<lparr>rc_replay = r', rc_entries = xs @ [x], rc_used_checkpoint = True\<rparr>"])
       (simp add: recover_unlocked_Some [OF l'])
qed

section \<open>One more entry\<close>

text \<open>The identities an entry carries have values; Python cannot construct others.\<close>

definition entry_named :: "replay_entry \<Rightarrow> bool" where
  "entry_named x \<longleftrightarrow>
     event_named (re_event x) \<and> list_all (\<lambda>e. named (evd_id e)) (re_evidence x) \<and>
     (case re_result x of Accepted a \<Rightarrow> named (ac_result a) \<and> state_named (ac_state a) | _ \<Rightarrow> True)"

lemma state_named_status [simp]: "state_named (s\<lparr>st_status := x\<rparr>) = state_named s"
  by (simp add: state_named_def)

lemma accepted_text_named:
  assumes "canonical_json (accepted_json a) = canonical_json (accepted_json b)"
  shows "ac_result a = ac_result b" and "state_named (ac_state a) = state_named (ac_state b)"
proof -
  have eq: "json_eq (accepted_json a) (accepted_json b)" using assms by (simp add: canonical_json_eq_iff)
  then show "ac_result a = ac_result b" by (simp add: accepted_json_def json_eq_fields)
  have "json_eq (state_json (ac_state a)) (state_json (ac_state b))"
    by (rule json_eq_field [OF eq, of "''state''"]) (simp_all add: accepted_json_def)
  from state_json_eqD(1) [OF this, of "Raw []"]
  show "state_named (ac_state a) = state_named (ac_state b)"
    by (metis state_named_status)
qed

text \<open>
  An accepted step that the journal text of an entry describes: the entry reads back as one with the
  same event, the same evidence in canonical order, and the recomputed result.
\<close>

definition read_entry :: "replay_entry \<Rightarrow> accepted \<Rightarrow> replay_entry" where
  "read_entry x a = canonical_entry (x\<lparr>re_result := Accepted a\<rparr>)"

interpretation journal: jsonl replay_entry_json decode_replay_entry entry_well_formed canonical_entry
proof
  show "norm_inv decode_replay_entry" by (rule norm_inv_replay_entry)
  show "decode_replay_entry (replay_entry_json x) = Inr (canonical_entry x)" if "entry_well_formed x" for x
    using that by (rule decode_entry_json)
  show "json_eq (replay_entry_json (canonical_entry x)) (replay_entry_json x)" for x by simp
  show "keys_once (replay_entry_json x)" if "entry_well_formed x" for x
    using that by (intro keys_once_replay_entry)
      (auto simp: entry_well_formed_def is_accepted_iff split: result.splits)
qed

lemma read_entry_text:
  assumes "canonical_json (result_json (Accepted a)) = canonical_json (result_json (re_result x))"
  shows "canonical_json (replay_entry_json (x\<lparr>re_result := Accepted a\<rparr>)) = canonical_json (replay_entry_json x)"
  using assms by (simp add: canonical_json_eq_iff replay_entry_json_def json_eq_fields json_eq_refl
      del: result_json.simps)

lemma read_entry_decodes:
  assumes inv: "kernel_inv s" and step: "reduce s (re_event x) (re_evidence x) = Accepted a"
    and acc: "is_accepted (re_result x)"
    and same: "canonical_json (result_json (Accepted a)) = canonical_json (result_json (re_result x))"
    and nm: "entry_named x" and utf8: "utf8_valid (canonical_json (replay_entry_json x))"
  shows "decode_line replay_entry_json decode_replay_entry (canonical_json (replay_entry_json x)) =
    Inr (read_entry x a)"
proof -
  obtain b where b: "re_result x = Accepted b" using acc by (auto simp: is_accepted_iff)
  have "kernel_inv (ac_state a)" using reduce_inv [OF step inv] .
  then have valid: "state_is_valid (ac_state a)" by (simp add: kernel_inv_def)
  have "has_identity_kind (ac_result a) IK_RESULT"
    using valid reduce_frame(6) [OF step] by (simp add: state_is_valid_def accepted_event_is_valid_def)
  moreover have "named (ac_result a)" "state_named (ac_state a)"
    using accepted_text_named [of a b] same nm b by (simp_all add: entry_named_def)
  moreover have "event_is_valid (re_event x)" "evidence_set_is_valid (re_evidence x)"
    using reduce_Accepted_valid [OF step] by blast+
  ultimately have "entry_well_formed (x\<lparr>re_result := Accepted a\<rparr>)"
    using valid nm
    by (simp add: entry_well_formed_def entry_named_def evidence_set_is_valid_def list_all_iff)
  then have "decode_line replay_entry_json decode_replay_entry
      (canonical_json (replay_entry_json (x\<lparr>re_result := Accepted a\<rparr>))) = Inr (read_entry x a)"
    unfolding read_entry_def by (rule journal.decode_written) (simp add: read_entry_text [OF same] utf8)
  then show ?thesis by (simp add: read_entry_text [OF same])
qed

section \<open>Append\<close>

text \<open>What an append leaves behind when it replaces the journal.\<close>

definition commits_entry :: "replay_entry \<Rightarrow> disk \<Rightarrow> disk \<Rightarrow> bool" where
  "commits_entry x d d' \<longleftrightarrow>
     (\<exists>g xs full p. load_genesis d = Inr g \<and> load_entries d = Inr xs \<and>
        replay (GenesisRoot g) (xs @ [x]) None = Inr full \<and> journal_bytes (xs @ [x]) = Inr p \<and>
        d' = d\<lparr>dk_journal := Regular p\<rparr>)"

lemma load_genesis_journal [simp]: "load_genesis (d\<lparr>dk_journal := n\<rparr>) = load_genesis d"
  by (simp add: load_genesis_def)

lemma load_recovery_iff:
  "load_recovery d = Inr r \<longleftrightarrow>
     (\<exists>g xs. load_genesis d = Inr g \<and> load_entries d = Inr xs \<and> recover_unlocked d g xs = Inr r)"
  by (auto simp: load_recovery_def bind_res_Inr_iff)

lemma load_entries_cases:
  assumes "load_entries d = Inr xs"
  obtains "dk_journal d = Absent" and "xs = []"
  | p where "dk_journal d = Regular p" and "load_lines replay_entry_json decode_replay_entry p = Inr xs"
  using assms by (cases "dk_journal d") (auto simp: load_entries_def)

text \<open>The journal after a commit reads back with one more entry, and recovery agrees.\<close>

lemma committed_loads:
  assumes old: "recover_unlocked d g xs = Inr old" and g: "load_genesis d = Inr g"
    and xs: "load_entries d = Inr xs"
    and new: "replay (GenesisRoot g) (xs @ [x]) None = Inr full"
    and p: "journal_bytes (xs @ [x]) = Inr p" and nm: "entry_named x"
    and d': "d' = d\<lparr>dk_journal := Regular p\<rparr>"
  shows "\<exists>y r. json_eq (replay_entry_json y) (replay_entry_json x) \<and> load_genesis d' = Inr g \<and>
    load_entries d' = Inr (xs @ [y]) \<and> recover_unlocked d' g (xs @ [y]) = Inr r \<and>
    rp_state (rc_replay r) = rp_state full \<and> rc_entries r = xs @ [y]"
proof -
  obtain mid a where mid: "replay (GenesisRoot g) xs None = Inr mid"
    and a: "reduce (rp_state mid) (re_event x) (re_evidence x) = Accepted a"
    and acc: "is_accepted (re_result x)"
    and same: "canonical_json (result_json (Accepted a)) = canonical_json (result_json (re_result x))"
    and full: "rp_state full = ac_state a"
    using new by (rule replay_snoc)
  let ?y = "read_entry x a"
  have "kernel_inv (rp_state mid)"
    using mid replay_loop_sound run_inv genesis_inv by (fastforce simp: replay_genesis_iff)
  moreover have "utf8_valid (canonical_json (replay_entry_json x))"
    using p by (simp add: journal_bytes_def encode_lines_iff)
  ultimately have dec: "decode_line replay_entry_json decode_replay_entry
      (canonical_json (replay_entry_json x)) = Inr ?y"
    using a acc same nm by (intro read_entry_decodes)
  obtain q where q: "load_lines replay_entry_json decode_replay_entry q = Inr xs"
    using xs by (cases rule: load_entries_cases) (auto intro: load_lines_Nil)
  have "p = q @ canonical_json (replay_entry_json x)"
    using p load_lines_text [OF q] by (simp add: journal_bytes_def encode_lines_iff)
  then have load: "load_entries d' = Inr (xs @ [?y])"
    using load_lines_snoc [OF q dec] by (simp add: d' load_entries_def)
  have "replay (GenesisRoot g) (xs @ [?y]) None = Inr full"
  proof -
    have "reduce (rp_state mid) (re_event ?y) (re_evidence ?y) = Accepted a"
      using a reduce_mset [of "re_evidence ?y" "re_evidence x"]
      by (simp add: read_entry_def canonical_entry_def)
    moreover obtain t ap where "genesis_ok g" "replay_loop g [] xs = Inr (rp_state mid, ap)"
      using mid by (auto simp: replay_genesis_iff)
    ultimately show ?thesis
      using new a acc same
      by (simp add: replay_def replay_loop_append read_entry_def canonical_entry_def del: result_json.simps)
  qed
  with recover_extend [OF old this, of d'] obtain r where
    "recover_unlocked d' g (xs @ [?y]) = Inr r" "rp_state (rc_replay r) = rp_state full"
    "rc_entries r = xs @ [?y]" by (auto simp: d')
  moreover have "json_eq (replay_entry_json ?y) (replay_entry_json x)"
    using read_entry_text [OF same] by (simp add: read_entry_def canonical_json_eq_iff)
  ultimately show ?thesis using load g d' by auto
qed

text \<open>The body of an append on a store that recovers.\<close>

lemma append_body_cases:
  assumes g: "load_genesis d = Inr g" and xs: "load_entries d = Inr xs"
    and body: "append_body v x (d, False) = (res, d', b)"
  obtains (known) p where "p \<in> set xs" and "json_eq (replay_entry_json p) (replay_entry_json x)"
      and "res = recover_unlocked (seen_disk (env_unreadable v False) d) g xs" and "d' = d" and "\<not> b"
  | (refused) e where "res = Inl e" and "refusal e" and "d' = d" and "\<not> b"
  | (committed) full p where "replay (GenesisRoot g) (xs @ [x]) None = Inr full"
      and "journal_bytes (xs @ [x]) = Inr p" and "d' = d\<lparr>dk_journal := Regular p\<rparr>" and "b"
      and "res = recover_unlocked (seen_disk (env_unreadable v True) d') g (xs @ [x]) \<or>
           res = Inl (StoreError DURABILITY_UNKNOWN_ERROR UNKNOWN_OR_COMMITTED_OUTCOME) \<or>
           env_unremoved v \<and> res = Inl (Uncaught (OSError ''unlink''))"
proof (cases "env_unreadable v False Genesis_file \<or> env_unreadable v False Journal_file")
  case True
  with g body have "(res, d', b) = (Inl (Uncaught (OSError ''read'')), d, False)"
    by (auto simp: append_body_def split: if_splits)
  then show ?thesis using refused by simp
next
  case readable: False
  show ?thesis
  proof (cases "List.find (\<lambda>p. ev_id (re_event p) = ev_id (re_event x)) xs")
    case (Some p)
    with g xs body readable have "p \<in> set xs"
      and r: "(res, d', b) = (if json_eq (replay_entry_json p) (replay_entry_json x)
        then (recover_unlocked (seen_disk (env_unreadable v False) d) g xs, d, False)
        else (Inl (StoreError IDEMPOTENCY_CONFLICT_ERROR REJECTED_OUTCOME), d, False))"
      by (auto simp: append_body_def dest: find_SomeD)
    then show ?thesis using known refused by (cases "json_eq (replay_entry_json p) (replay_entry_json x)") auto
  next
    case None
    show ?thesis
    proof (cases "bind_res (replay (GenesisRoot g) (xs @ [x]) None) (\<lambda>_. journal_bytes (xs @ [x]))")
      case (Inl e)
      then have "(res, d', b) = (Inl (Uncaught e), d, False)"
        using None g xs body readable
        by (cases "replay (GenesisRoot g) (xs @ [x]) None") (auto simp: append_body_def)
      then show ?thesis using refused by simp
    next
      case (Inr p)
      then obtain full where full: "replay (GenesisRoot g) (xs @ [x]) None = Inr full"
        and p: "journal_bytes (xs @ [x]) = Inr p" by (auto simp: bind_res_Inr_iff)
      obtain r1 d1 b1 where r1: "replace_kernel v (\<lambda>n d. d\<lparr>dk_journal := n\<rparr>) p (d, False) = (r1, d1, b1)"
        by (cases "replace_kernel v (\<lambda>n d. d\<lparr>dk_journal := n\<rparr>) p (d, False)")
      have res: "(res, d', b) = (case r1 of Inl e \<Rightarrow> (Inl e, d1, b1)
          | Inr _ \<Rightarrow> (recover_unlocked (seen_disk (env_unreadable v b1) d1) g (xs @ [x]), d1, b1))"
        using None g xs body full p r1 readable
        by (simp add: append_body_def) (auto simp: bind_io_def split: sum.splits)
      from r1 show ?thesis
      proof (cases rule: replace_kernel_cases)
        case (untouched e)
        with res show ?thesis by (intro refused [of e]) simp_all
      next
        case replaced
        then have "res = recover_unlocked (seen_disk (env_unreadable v True) d') g (xs @ [x]) \<or>
            res = Inl (StoreError DURABILITY_UNKNOWN_ERROR UNKNOWN_OR_COMMITTED_OUTCOME) \<or>
            env_unremoved v \<and> res = Inl (Uncaught (OSError ''unlink''))"
          using res by (elim disjE) (simp_all del: recover_unlocked_seen)
        moreover have "d' = d\<lparr>dk_journal := Regular p\<rparr>" "b"
          using replaced res by (cases r1; simp)+
        ultimately show ?thesis using committed [OF full p] by blast
      qed
    qed
  qed
qed

lemma classify_cases:
  "classify (r, d) = (res, d') \<Longrightarrow> d' = d \<and>
     (res = r \<or> (\<exists>e. r = Inl (Uncaught e) \<and> res = Inl (StoreError KERNEL_STORE_CORRUPT_ERROR REJECTED_OUTCOME)))"
  by (cases "(r, d)" rule: classify.cases) auto

lemma classify_not_uncaught: "classify (r, d) = (res, d') \<Longrightarrow> res \<noteq> Inl (Uncaught e)"
  by (cases "(r, d)" rule: classify.cases) auto

lemma classified_cases:
  assumes res: "classify (locked v n body d) = (res, d')"
  obtains (ran) r b where "body (d, False) = (r, d', b)" and "classify (r, d') = (res, d')"
  | (refused) c where "res = Inl (StoreError c REJECTED_OUTCOME)" and "d' = d"
  | (unreleased) z b where "body (d, False) = (Inr z, d', b)"
      and "res = Inl (if b then StoreError DURABILITY_UNKNOWN_ERROR UNKNOWN_OR_COMMITTED_OUTCOME
                      else StoreError LOCK_UNAVAILABLE_ERROR REJECTED_OUTCOME)"
proof -
  obtain r0 where r0: "locked v n body d = (r0, d')" and cl: "classify (r0, d') = (res, d')"
    using res classify_cases by (cases "locked v n body d") fastforce
  from r0 show ?thesis
    by (cases rule: locked_cases) (use cl that in \<open>auto split: if_splits\<close>)
qed

lemma classified_reading:
  assumes "classify (locked v n (reading_disk v f) d) = (res, d')"
  shows "d' = d" and "res = Inr x \<Longrightarrow> f (seen_disk (env_unreadable v False) d) = Inr x"
  using assms by (cases rule: classified_cases; auto dest: classify_cases)+

lemma recover_answer:
  assumes "recover v d = (res, d')"
  shows "d' = d" and "res = Inr r \<Longrightarrow> load_recovery d = Inr r"
  using classified_reading [OF assms [unfolded recover_def]] load_recovery_seen by blast+

lemma recover_calm:
  assumes "calm v" and "load_recovery d = Inr r"
  shows "recover v d = (Inr r, d)"
proof -
  have "ensure_regular (dk_journal d) = Inr ()"
    using assms(2) by (cases "dk_journal d") (auto simp: load_recovery_def load_entries_def bind_res_Inr_iff)
  moreover have "reading_disk v load_recovery (d, False) = (Inr r, d, False)"
    using assms by (simp add: calm_def)
  ultimately have "locked v (dk_journal d) (reading_disk v load_recovery) d = (Inr r, d)"
    by (rule locked_calm [OF assms(1)])
  then show ?thesis by (simp add: recover_def)
qed

text \<open>
  The faults that come after the commit and are reported as a rejection: the temporary file cannot
  be removed, or the checkpoint cannot be read.
\<close>

definition late_fault :: "env \<Rightarrow> bool" where
  "late_fault v \<longleftrightarrow> env_unremoved v \<or> env_unreadable v True Checkpoint_file"

lemma append_result:
  assumes g: "load_genesis d = Inr g" and xs: "load_entries d = Inr xs"
    and old: "recover_unlocked d g xs = Inr old" and res: "append_entry v x d = (res, d')"
  obtains (refused) c where "res = Inl (StoreError c REJECTED_OUTCOME)" and "d' = d"
  | (known) p where "p \<in> set xs" and "json_eq (replay_entry_json p) (replay_entry_json x)"
      and "res = Inr old" and "d' = d"
  | (committed) full p where "replay (GenesisRoot g) (xs @ [x]) None = Inr full"
      and "journal_bytes (xs @ [x]) = Inr p" and "d' = d\<lparr>dk_journal := Regular p\<rparr>"
      and "(\<exists>r. res = Inr r \<and> rp_state (rc_replay r) = rp_state full) \<or>
           (\<exists>c. res = Inl (StoreError c UNKNOWN_OR_COMMITTED_OUTCOME)) \<or>
           late_fault v \<and> (\<exists>c. res = Inl (StoreError c REJECTED_OUTCOME))"
proof (cases "is_accepted (re_result x)")
  case False
  with res show ?thesis by (auto simp: append_entry_def intro: refused)
next
  case True
  with res have "classify (locked v (dk_journal d) (append_body v x) d) = (res, d')"
    by (simp add: append_entry_def)
  then show ?thesis
  proof (cases rule: classified_cases)
    case (ran r b)
    from g xs ran(1) show ?thesis
    proof (cases rule: append_body_cases)
      case (known p)
      with old ran(2) show ?thesis using that(1,2)
        by (cases "env_unreadable v False Checkpoint_file")
           (auto simp: recover_unlocked_def bind_res_def split: sum.splits)
    next
      case (refused e)
      then show ?thesis using that(1) classify_refusal ran(2) by blast
    next
      case (committed full p)
      obtain new where new: "recover_unlocked d' g (xs @ [x]) = Inr new" "rp_state (rc_replay new) = rp_state full"
        using recover_extend [OF old committed(1), of d'] committed(3) by auto
      have "(\<exists>r. res = Inr r \<and> rp_state (rc_replay r) = rp_state full) \<or>
           (\<exists>c. res = Inl (StoreError c UNKNOWN_OR_COMMITTED_OUTCOME)) \<or>
           late_fault v \<and> (\<exists>c. res = Inl (StoreError c REJECTED_OUTCOME))"
        using committed(1,5) new ran(2)
        by (cases "env_unreadable v True Checkpoint_file") (auto simp: late_fault_def)
      then show ?thesis using that(3) [OF committed(1-3)] by blast
    qed
  next
    case (unreleased z b)
    from g xs unreleased(1) show ?thesis
    proof (cases rule: append_body_cases)
      case (committed full p)
      then show ?thesis using that(3) unreleased(2) by auto
    qed (use that(1) unreleased(2) in auto)
  qed (use that(1) in blast)
qed

text \<open>
  C36. Appends to the Kernel journal are atomic under every fault, and honest but for one kind. Take
  a store that recovers, any entry that can be constructed, and any behaviour of the operating system
  during the call (the lock refused, a file not readable before or after the replacement, the
  temporary file not written, the rename done but not synced, the temporary file not removable, the
  lock not released). Afterwards the store recovers again, and its journal is the old one or the old
  one with this one entry at its end. If the call returns, the entry is in the journal and the
  returned state is the recovered state. If it raises, it raises a classified error: with outcome
  unknown_or_committed the entry has been added; with outcome rejected the files are untouched,
  unless the checkpoint could not be read after the commit or the temporary file not removed, in
  which case the code says rejected of an entry that may be there.
\<close>

theorem append_atomic_and_honest:
  assumes "load_recovery d = Inr old" and "entry_named x" and "append_entry v x d = (res, d')"
  shows "\<exists>new. load_recovery d' = Inr new \<and>
     (d' = d \<or> (\<exists>y. json_eq (replay_entry_json y) (replay_entry_json x) \<and>
        rc_entries new = rc_entries old @ [y] \<and> d' = d\<lparr>dk_journal := dk_journal d'\<rparr>)) \<and>
     (case res of
        Inr r \<Rightarrow> rp_state (rc_replay r) = rp_state (rc_replay new) \<and>
          (\<exists>y\<in>set (rc_entries new). json_eq (replay_entry_json y) (replay_entry_json x))
      | Inl (StoreError code REJECTED_OUTCOME) \<Rightarrow> d' = d \<or> late_fault v
      | Inl (StoreError code UNKNOWN_OR_COMMITTED_OUTCOME) \<Rightarrow> rc_entries new \<noteq> rc_entries old
      | Inl (Uncaught e) \<Rightarrow> False
      | Inl (Escaping e) \<Rightarrow> False)"
proof -
  obtain g xs where g: "load_genesis d = Inr g" and xs: "load_entries d = Inr xs"
    and old: "recover_unlocked d g xs = Inr old"
    using assms(1) by (auto simp: load_recovery_iff)
  have old_xs: "rc_entries old = xs" using recover_unlocked_state [OF old] by auto
  from g xs old assms(3) show ?thesis
  proof (cases rule: append_result)
    case (refused c)
    with assms(1) show ?thesis by simp
  next
    case (known p)
    with assms(1) old_xs show ?thesis by auto
  next
    case (committed full p)
    from committed_loads [OF old g xs committed(1,2) assms(2) committed(3)] obtain y r where
      y: "json_eq (replay_entry_json y) (replay_entry_json x)" "load_genesis d' = Inr g"
      "load_entries d' = Inr (xs @ [y])" "recover_unlocked d' g (xs @ [y]) = Inr r"
      "rp_state (rc_replay r) = rp_state full" "rc_entries r = xs @ [y]" by blast
    then have "load_recovery d' = Inr r" by (simp add: load_recovery_iff)
    moreover have "d' = d\<lparr>dk_journal := dk_journal d'\<rparr>" using committed(3) by simp
    ultimately show ?thesis
      using committed(4) y old_xs by (intro exI [of _ r]) auto
  qed
qed

section \<open>Appends that go through\<close>

lemma run_events:
  "run s tr t \<Longrightarrow> map ae_event (st_accepted t) = map ae_event (st_accepted s) @ map (\<lambda>y. ev_id (fst y)) tr"
  by (induction rule: run.induct) (simp_all add: reduce_frame)

text \<open>An event the reducer accepts is not in the journal yet.\<close>

lemma accepted_event_is_new:
  assumes "replay (GenesisRoot g) xs None = Inr full" and "reduce (rp_state full) e ev = Accepted a"
  shows "List.find (\<lambda>p. ev_id (re_event p) = ev_id e) xs = None"
proof -
  obtain tr where g: "genesis_ok g" and tr: "run g tr (rp_state full)" "list_all2 describes xs tr"
    using assms(1) replay_loop_sound by (fastforce simp: replay_genesis_iff)
  have "kernel_inv (ac_state a)"
    using reduce_inv [OF assms(2)] run_inv [OF tr(1) genesis_inv [OF g]] by blast
  then have "distinct (map ae_event (st_accepted (rp_state full)) @ [ev_id e])"
    using reduce_frame(6) [OF assms(2)] by (simp add: kernel_inv_def state_is_valid_def)
  moreover have "map ae_event (st_accepted (rp_state full)) = map (\<lambda>p. ev_id (re_event p)) xs"
  proof -
    have "map (\<lambda>p. ev_id (re_event p)) xs = map (\<lambda>y. ev_id (fst y)) tr"
      using tr(2) by (induction rule: list_all2_induct) (simp_all add: describes_def)
    then show ?thesis using run_events [OF tr(1)] g by (simp add: genesis_ok_def)
  qed
  ultimately show ?thesis by (auto simp: find_None_iff image_def)
qed

lemma replay_one_more:
  assumes "replay (GenesisRoot g) xs None = Inr full" and "reduce (rp_state full) e ev = Accepted a"
  shows "\<exists>new. replay (GenesisRoot g) (xs @ [recorded (e, ev, a)]) None = Inr new \<and> rp_state new = ac_state a"
  using assms
  by (auto simp: replay_genesis_iff replay_loop_append recorded_def bind_res_Inr_iff)

lemma journal_one_more:
  assumes "load_entries d = Inr xs" and "utf8_valid (canonical_json (replay_entry_json x))"
  shows "\<exists>p. journal_bytes (xs @ [x]) = Inr p \<and> dk_journal d \<noteq> Regular p"
proof -
  obtain q where q: "load_lines replay_entry_json decode_replay_entry q = Inr xs"
    and d: "\<And>b. dk_journal d = Regular b \<Longrightarrow> b = q"
    using assms(1) by (cases rule: load_entries_cases) (auto intro: load_lines_Nil)
  have "journal_bytes (xs @ [x]) = Inr (q @ canonical_json (replay_entry_json x))"
    using load_lines_encode [OF q] assms(2) by (simp add: journal_bytes_def encode_lines_iff)
  moreover have "canonical_json (replay_entry_json x) \<noteq> []" by (simp add: canonical_json_def)
  ultimately show ?thesis using d by auto
qed

text \<open>The environments in which nothing goes wrong before the journal is replaced.\<close>

definition reaches_commit :: "env \<Rightarrow> bool" where
  "reaches_commit v \<longleftrightarrow>
     env_lock v = None \<and> env_unreadable v False = (\<lambda>_. False) \<and> env_replace v = Replaced"

lemma calm_reaches_commit: "calm v \<Longrightarrow> reaches_commit v"
  by (simp add: calm_def reaches_commit_def)

lemma append_body_commits:
  assumes "load_genesis d = Inr g" and "load_entries d = Inr xs"
    and "replay (GenesisRoot g) xs None = Inr full" and "reduce (rp_state full) e ev = Accepted a"
    and "journal_bytes (xs @ [recorded (e, ev, a)]) = Inr p" and "reaches_commit v"
  shows "append_body v (recorded (e, ev, a)) (d, False) =
    (if env_unremoved v then Inl (Uncaught (OSError ''unlink''))
     else recover_unlocked (seen_disk (env_unreadable v True) (d\<lparr>dk_journal := Regular p\<rparr>)) g
       (xs @ [recorded (e, ev, a)]),
     d\<lparr>dk_journal := Regular p\<rparr>, True)"
proof -
  have "List.find (\<lambda>p. ev_id (re_event p) = ev_id (re_event (recorded (e, ev, a)))) xs = None"
    using accepted_event_is_new [OF assms(3,4)] by (simp add: recorded_def)
  moreover have "replace_kernel v (\<lambda>n d. d\<lparr>dk_journal := n\<rparr>) p (d, False) =
      (if env_unremoved v then Inl (Uncaught (OSError ''unlink'')) else Inr (), d\<lparr>dk_journal := Regular p\<rparr>, True)"
    using assms(6) by (simp add: reaches_commit_def replace_kernel_def replace_node_def)
  ultimately show ?thesis using assms replay_one_more [OF assms(3,4)]
    by (cases "env_unremoved v")
       (auto simp: append_body_def reaches_commit_def bind_io_def split: sum.splits)
qed

lemma load_entries_regular: "load_entries d = Inr xs \<Longrightarrow> ensure_regular (dk_journal d) = Inr ()"
  by (cases "dk_journal d") (simp_all add: load_entries_def)

text \<open>
  Appends make progress. On a store that recovers, an event the reducer accepts in the
  recovered state is appended when the operating system does its part: the call returns the state
  after the event, and recovery afterwards returns that state too, from a journal one entry longer.
\<close>

theorem append_takes_next_step:
  assumes "load_recovery d = Inr old" and "reduce (rp_state (rc_replay old)) e ev = Accepted a"
    and "entry_named (recorded (e, ev, a))"
    and "utf8_valid (canonical_json (replay_entry_json (recorded (e, ev, a))))" and "calm v"
  shows "\<exists>r d' new. append_entry v (recorded (e, ev, a)) d = (Inr r, d') \<and>
     rp_state (rc_replay r) = ac_state a \<and> recover v d' = (Inr new, d') \<and>
     rp_state (rc_replay new) = ac_state a \<and> length (rc_entries new) = Suc (length (rc_entries old))"
proof -
  let ?x = "recorded (e, ev, a)"
  obtain g xs where g: "load_genesis d = Inr g" and xs: "load_entries d = Inr xs"
    and old: "recover_unlocked d g xs = Inr old"
    using assms(1) by (auto simp: load_recovery_iff)
  obtain full where full: "replay (GenesisRoot g) xs None = Inr full" "rp_state full = rp_state (rc_replay old)"
    and old_xs: "rc_entries old = xs" using recover_unlocked_state [OF old] by auto
  have step: "reduce (rp_state full) e ev = Accepted a" using assms(2) full(2) by simp
  obtain nxt where nxt: "replay (GenesisRoot g) (xs @ [?x]) None = Inr nxt" "rp_state nxt = ac_state a"
    using replay_one_more [OF full(1) step] by blast
  obtain p where p: "journal_bytes (xs @ [?x]) = Inr p" using journal_one_more [OF xs assms(4)] by blast
  let ?d = "d\<lparr>dk_journal := Regular p\<rparr>"
  obtain r where r: "recover_unlocked ?d g (xs @ [?x]) = Inr r" "rp_state (rc_replay r) = ac_state a"
    using recover_extend [OF old nxt(1), of ?d] nxt(2) by auto
  have "append_entry v ?x d = (Inr r, ?d)"
    using locked_calm [where body = "append_body v ?x", OF assms(5) load_entries_regular [OF xs]
        append_body_commits [OF g xs full(1) step p calm_reaches_commit [OF assms(5)]]] r(1) assms(5)
    by (simp add: append_entry_def recorded_def calm_def)
  moreover obtain new where "load_recovery ?d = Inr new" "rp_state (rc_replay new) = ac_state a"
    "length (rc_entries new) = Suc (length (rc_entries old))"
    using committed_loads [OF old g xs nxt(1) p assms(3) refl] nxt(2) old_xs
    by (fastforce simp: load_recovery_iff)
  moreover from this have "recover v ?d = (Inr new, ?d)" using recover_calm [OF assms(5)] by blast
  ultimately show ?thesis using r(2) by blast
qed

text \<open>
  C38. Where honesty ends. An append first replaces the journal and only then removes the temporary
  file and looks at the checkpoint. When the checkpoint file does not load, or the operating system
  does not let it be read, or the temporary file cannot be removed, the call raises an error with
  outcome rejected although the entry has been committed.
\<close>

theorem append_rejects_after_commit:
  assumes "load_genesis d = Inr g" and "load_entries d = Inr xs"
    and "replay (GenesisRoot g) xs None = Inr full" and "reduce (rp_state full) e ev = Accepted a"
    and "utf8_valid (canonical_json (replay_entry_json (recorded (e, ev, a))))"
    and "(\<exists>err. load_checkpoint d = Inl err) \<or> late_fault v" and "reaches_commit v"
  shows "\<exists>p code. journal_bytes (xs @ [recorded (e, ev, a)]) = Inr p \<and> dk_journal d \<noteq> Regular p \<and>
     append_entry v (recorded (e, ev, a)) d =
       (Inl (StoreError code REJECTED_OUTCOME), d\<lparr>dk_journal := Regular p\<rparr>)"
proof -
  let ?x = "recorded (e, ev, a)"
  obtain p where p: "journal_bytes (xs @ [?x]) = Inr p" "dk_journal d \<noteq> Regular p"
    using journal_one_more [OF assms(2,5)] by blast
  let ?d = "d\<lparr>dk_journal := Regular p\<rparr>"
  obtain err where err: "append_body v ?x (d, False) = (Inl err, ?d, True)"
    "(\<exists>x. err = Uncaught x) \<or> (\<exists>c. err = StoreError c REJECTED_OUTCOME)"
  proof -
    have "\<exists>err. recover_unlocked (seen_disk (env_unreadable v True) ?d) g (xs @ [?x]) = Inl err \<and>
        ((\<exists>x. err = Uncaught x) \<or> (\<exists>c. err = StoreError c REJECTED_OUTCOME))" if "\<not> env_unremoved v"
    proof (cases "env_unreadable v True Checkpoint_file")
      case True
      then show ?thesis using replay_one_more [OF assms(3,4)] by auto
    next
      case False
      with assms(6) that obtain err where "load_checkpoint d = Inl err" by (auto simp: late_fault_def)
      then have "load_checkpoint ?d = Inl err" using load_checkpoint_cong [of ?d d] by simp
      moreover from this have "(\<exists>x. err = Uncaught x) \<or> (\<exists>c. err = StoreError c REJECTED_OUTCOME)"
        by (cases "dk_checkpoint ?d") (auto simp: load_checkpoint_def bind_res_def split: sum.splits)
      ultimately show ?thesis using False replay_one_more [OF assms(3,4)] by (auto simp: recover_unlocked_def)
    qed
    then show ?thesis
      using that append_body_commits [OF assms(1-4) p(1) assms(7)] by (cases "env_unremoved v") auto
  qed
  have "locked v (dk_journal d) (append_body v ?x) d = (Inl err, ?d)"
    using err(1) load_entries_regular [OF assms(2)] assms(7) by (simp add: locked_def reaches_commit_def)
  with err(2) p show ?thesis by (auto simp: append_entry_def recorded_def)
qed

end
