(* ===== verification/Kernel_Checkpoint.thy ===== *)
theory Kernel_Checkpoint
  imports Kernel_Journal
begin

text \<open>
  Checkpoints on disk: the envelope reads back, and persisting a checkpoint neither loses nor changes
  what the store recovers to. Recovery returns exactly when the journal replays and a checkpoint, if
  there is one, belongs to it, and then gives the state of the full replay.
\<close>

section \<open>The envelope reads back\<close>

lemma norm_inv_json_eq [norm_invs]: "norm_inv (\<lambda>v. if json_eq w v then x else y)"
  by (simp add: norm_inv_def)

lemma norm_inv_trust_policy [norm_invs]: "norm_inv dec_trust_policy"
proof -
  have "norm_inv (\<lambda>v. bind_res (item ''trusted_evidence_ids'' (as_list (id_as IK_EVIDENCE)) v) (\<lambda>x. (\<lambda>_. make_trust_policy x) v))"
    by (intro norm_invs)
  then show ?thesis unfolding dec_trust_policy_def by (intro norm_invs)
qed

lemma norm_inv_checkpoint_root [norm_invs]: "norm_inv dec_checkpoint_root"
  unfolding dec_checkpoint_root_def by (intro norm_invs)

lemma norm_inv_checkpoint_authentication [norm_invs]: "norm_inv dec_checkpoint_authentication"
  unfolding dec_checkpoint_authentication_def by (intro norm_invs)

lemma canonical_authentication_json [simp]:
  "checkpoint_authentication_json (canonical_authentication a) = checkpoint_authentication_json a"
  by (simp add: checkpoint_authentication_json_def canonical_authentication_def canonical_evidence_sorted
      sort_key_idem)

lemma canonical_authentication_valid [simp]:
  "checkpoint_authentication_is_valid c (Some (canonical_authentication x)) =
     checkpoint_authentication_is_valid c (Some x)"
  using evidence_set_valid_mset [of "au_evidence (canonical_authentication x)" "au_evidence x"]
  by (simp add: checkpoint_authentication_is_valid_def canonical_authentication_def list_all_iff
      cong: result.case_cong)

lemma authentication_accepted:
  "checkpoint_authentication_is_valid c (Some a) \<Longrightarrow> is_accepted (au_result a)"
  by (cases "au_result a") (simp_all add: checkpoint_authentication_is_valid_def)

lemma decode_checkpoint_written:
  assumes valid: "checkpoint_authentication_is_valid c (Some a)" and "root_named c" and "authentication_made a"
    and utf8: "utf8_valid (canonical_json (checkpoint_envelope_json c a))"
  shows "decode_checkpoint (canonical_json (checkpoint_envelope_json c a)) = Inr (c, canonical_authentication a)"
proof -
  let ?v = "checkpoint_envelope_json c a"
  have "keys_once ?v"
    using keys_once_authentication [OF authentication_accepted [OF valid]]
    by (simp add: checkpoint_envelope_json_def)
  then have parsed: "parse (canonical_json ?v) = Inr (norm ?v)"
    using strict_loads_canonical utf8 by (simp add: parse_def)
  have "checkpoint_root_is_valid c"
    using valid by (simp add: checkpoint_authentication_is_valid_def)
  then have c: "dec_checkpoint_root (checkpoint_root_json c) = Inr c"
    using assms(2) by (rule decode_checkpoint_root_json)
  have a: "dec_checkpoint_authentication (checkpoint_authentication_json a) = Inr (canonical_authentication a)"
    using valid assms(3) by (rule decode_authentication_json)
  have "item ''root'' dec_checkpoint_root (norm ?v) = Inr c"
    "item ''authentication'' dec_checkpoint_authentication (norm ?v) = Inr (canonical_authentication a)"
    "shape [''schema_version'', ''root'', ''authentication''] [] (norm ?v) = Inr ()"
    "item ''schema_version'' (expect ''valp-kernel-checkpoint-envelope.v1'') (norm ?v) = Inr ()"
    using c a
    by (simp_all add: norm_invD [OF norm_inv_checkpoint_root] norm_invD [OF norm_inv_shape]
        norm_invD [OF norm_inv_checkpoint_authentication] checkpoint_envelope_json_def decoding)
  moreover have "checkpoint_envelope_json c (canonical_authentication a) = ?v"
    by (simp add: checkpoint_envelope_json_def)
  ultimately show ?thesis using utf8 parsed by (simp add: decode_checkpoint_def encode_utf8_def)
qed

section \<open>Persisting\<close>

lemma load_checkpoint_other [simp]:
  "load_genesis (d\<lparr>dk_checkpoint := n\<rparr>) = load_genesis d"
  "load_entries (d\<lparr>dk_checkpoint := n\<rparr>) = load_entries d"
  by (simp_all add: load_genesis_def load_entries_def)

text \<open>With a checkpoint that passes the checks of \<^verbatim>\<open>persist_checkpoint\<close>, recovery succeeds and agrees.\<close>

lemma recover_with_checkpoint:
  assumes "replay (GenesisRoot g) xs None = Inr full" and "check_prefix g c xs = Inr p"
    and "checkpoint_authentication_is_valid c (Some a)" and "load_checkpoint d = Inr (Some (c, a))"
  shows "\<exists>r. recover_unlocked d g xs = Inr r \<and> rp_state (rc_replay r) = rp_state full \<and>
    rc_entries r = xs \<and> rc_used_checkpoint r"
proof -
  obtain s where "replay (CheckpointRoot c) (drop (nat (cp_count c)) xs) (Some a) = Inr s"
    "rp_state s = rp_state full" using checkpoint_suffix [OF assms(2,1,3)] by blast
  with assms(1,2) show ?thesis
    by (intro exI [of _ "\<lparr>rc_replay = s, rc_entries = xs, rc_used_checkpoint = True\<rparr>"])
       (simp add: recover_unlocked_Some [OF assms(4)])
qed

lemma persist_body_cases:
  assumes g: "load_genesis d = Inr g" and xs: "load_entries d = Inr xs"
    and old: "recover_unlocked d g xs = Inr old"
    and nm: "root_named c" "authentication_made a"
    and body: "persist_checkpoint_body v c a (d, False) = (res, d', b)"
  obtains (refused) e where "res = Inl e" and "refusal e" and "d' = d" and "\<not> b"
  | (stored) p n where "check_prefix g c xs = Inr p" and "checkpoint_authentication_is_valid c (Some a)"
      and "load_checkpoint d' = Inr (Some (c, canonical_authentication a))"
      and "d' = d\<lparr>dk_checkpoint := n\<rparr>" and "\<not> b \<longrightarrow> d' = d"
      and "res = Inr () \<or> b \<and> res = Inl (StoreError DURABILITY_UNKNOWN_ERROR UNKNOWN_OR_COMMITTED_OUTCOME) \<or>
           b \<and> env_unremoved v \<and> res = Inl (Uncaught (OSError ''unlink''))"
proof (cases "env_unreadable v False Genesis_file \<or> env_unreadable v False Journal_file")
  case True
  with g body have "(res, d', b) = (Inl (Uncaught (OSError ''read'')), d, False)"
    by (auto simp: persist_checkpoint_body_def split: if_splits)
  then show ?thesis using refused by simp
next
  case readable: False
  show ?thesis
  proof (cases "bind_res (check_prefix g c xs) (\<lambda>p. bind_res (replay (CheckpointRoot c) [] (Some a)) (\<lambda>_.
      bind_res (encode_utf8 (canonical_json (checkpoint_envelope_json c a))) (\<lambda>t. Inr (p, t))))")
    case (Inl e)
    then have "(res, d', b) = (Inl (Uncaught e), d, False)"
      using g xs body readable
      by (cases "check_prefix g c xs"; cases "replay (CheckpointRoot c) [] (Some a)";
          cases "encode_utf8 (canonical_json (checkpoint_envelope_json c a))")
         (auto simp: persist_checkpoint_body_def)
    then show ?thesis using refused by simp
  next
    case (Inr pt)
    then obtain p t where p: "check_prefix g c xs = Inr p"
      and r: "\<exists>r. replay (CheckpointRoot c) [] (Some a) = Inr r"
      and t: "encode_utf8 (canonical_json (checkpoint_envelope_json c a)) = Inr t"
      by (auto simp: bind_res_Inr_iff)
    have valid: "checkpoint_authentication_is_valid c (Some a)" using r by (auto simp: replay_checkpoint_iff)
    have dec: "decode_checkpoint t = Inr (c, canonical_authentication a)" and "t \<noteq> []"
      using t decode_checkpoint_written [OF valid nm]
      by (auto simp: encode_utf8_def canonical_json_def split: if_splits)
    let ?rep = "replace_kernel v (\<lambda>n d. d\<lparr>dk_checkpoint := n\<rparr>) t (d, False)"
    have regular: "dk_checkpoint d = Absent \<or> (\<exists>q. dk_checkpoint d = Regular q)"
      using old by (cases "dk_checkpoint d") (auto simp: recover_unlocked_def load_checkpoint_def bind_res_Inr_iff)
    consider (unread) "(res, d', b) = (Inl (Uncaught (OSError ''read'')), d, False)"
      | (same) "dk_checkpoint d = Regular t" "(res, d', b) = (Inr (), d, False)" | (new) "(res, d', b) = ?rep"
      using regular g xs body p r t \<open>t \<noteq> []\<close> readable
      by (cases "env_unreadable v False Checkpoint_file")
         (auto simp: persist_checkpoint_body_def split: if_splits)
    then show ?thesis
    proof cases
      case unread
      then show ?thesis using refused by simp
    next
      case same
      moreover have "load_checkpoint d = Inr (Some (c, canonical_authentication a))"
        using same(1) dec by (simp add: load_checkpoint_def)
      ultimately show ?thesis using stored [OF p valid, of "dk_checkpoint d"] by simp
    next
      case new
      from new [symmetric] show ?thesis
      proof (cases rule: replace_kernel_cases)
        case (untouched e)
        then show ?thesis by (intro refused)
      next
        case replaced
        with dec show ?thesis
          by (intro stored [OF p valid, of "Regular t"]) (auto simp: load_checkpoint_def)
      qed
    qed
  qed
qed

text \<open>
  Checkpoints never change what is recovered. Take a store that recovers, any checkpoint that can
  be constructed, and any behaviour of the operating system. After \<^verbatim>\<open>persist_checkpoint\<close> the store
  recovers to the same state and the same journal, and at most the checkpoint file has changed. If
  the call returns, recovery uses this checkpoint. If it raises, it raises a classified error: with
  outcome unknown_or_committed the checkpoint is stored, with outcome rejected the files are
  untouched, unless the temporary file could not be removed.
\<close>

theorem checkpoint_keeps_recovery:
  assumes "load_recovery d = Inr old" and "root_named c" and "authentication_made a"
    and "persist_checkpoint v c a d = (res, d')"
  shows "\<exists>new. load_recovery d' = Inr new \<and> rp_state (rc_replay new) = rp_state (rc_replay old) \<and>
     rc_entries new = rc_entries old \<and> d' = d\<lparr>dk_checkpoint := dk_checkpoint d'\<rparr> \<and>
     (case res of
        Inr _ \<Rightarrow> rc_used_checkpoint new \<and> load_checkpoint d' = Inr (Some (c, canonical_authentication a))
      | Inl (StoreError code REJECTED_OUTCOME) \<Rightarrow> d' = d \<or> env_unremoved v
      | Inl (StoreError code UNKNOWN_OR_COMMITTED_OUTCOME) \<Rightarrow>
          load_checkpoint d' = Inr (Some (c, canonical_authentication a))
      | Inl (Uncaught e) \<Rightarrow> False
      | Inl (Escaping e) \<Rightarrow> False)"
proof -
  obtain g xs where g: "load_genesis d = Inr g" and xs: "load_entries d = Inr xs"
    and old: "recover_unlocked d g xs = Inr old" using assms(1) by (auto simp: load_recovery_iff)
  obtain full where full: "replay (GenesisRoot g) xs None = Inr full"
    "rp_state (rc_replay old) = rp_state full" "rc_entries old = xs"
    using recover_unlocked_state [OF old] by blast
  let ?body = "persist_checkpoint_body v c a"
  have kept: ?thesis
    if s: "check_prefix g c xs = Inr p" "checkpoint_authentication_is_valid c (Some a)"
      "load_checkpoint d' = Inr (Some (c, canonical_authentication a))" "d' = d\<lparr>dk_checkpoint := n\<rparr>"
      and r: "res = Inr () \<or> (\<exists>k. res = Inl (StoreError k UNKNOWN_OR_COMMITTED_OUTCOME)) \<or>
        env_unremoved v \<and> (\<exists>k. res = Inl (StoreError k REJECTED_OUTCOME)) \<or>
        d' = d \<and> (\<exists>k. res = Inl (StoreError k REJECTED_OUTCOME))" for p n
  proof -
    have "checkpoint_authentication_is_valid c (Some (canonical_authentication a))" using s(2) by simp
    from recover_with_checkpoint [OF full(1) s(1) this s(3)] obtain new where
      new: "recover_unlocked d' g xs = Inr new" "rp_state (rc_replay new) = rp_state full"
        "rc_entries new = xs" "rc_used_checkpoint new" by blast
    then have "load_recovery d' = Inr new" using g xs s(4) by (simp add: load_recovery_iff)
    moreover have "d' = d\<lparr>dk_checkpoint := dk_checkpoint d'\<rparr>" using s(4) by simp
    ultimately show ?thesis using new full s(3) r by (intro exI [of _ new]) auto
  qed
  from assms(4) show ?thesis unfolding persist_checkpoint_def
  proof (cases rule: classified_cases)
    case (ran r b)
    from g xs old assms(2,3) ran(1) show ?thesis
    proof (cases rule: persist_body_cases)
      case (refused e)
      with assms(1) classify_refusal ran(2) show ?thesis by fastforce
    next
      case (stored p n)
      then show ?thesis using ran(2) by (intro kept [OF stored(1-4)]) auto
    qed
  next
    case (unreleased z b)
    from g xs old assms(2,3) unreleased(1) show ?thesis
    proof (cases rule: persist_body_cases)
      case (stored p n)
      then show ?thesis using unreleased(2) by (intro kept [OF stored(1-4)]) auto
    qed simp
  qed (use assms(1) in simp)
qed

section \<open>Recovery and the checkpoint file\<close>

text \<open>What recovery demands of the checkpoint file, and what it returns, given the journal's full replay.\<close>

definition recovers_to :: "disk \<Rightarrow> state \<Rightarrow> replay_entry list \<Rightarrow> replayed \<Rightarrow> recovery \<Rightarrow> bool" where
  "recovers_to d g xs full r \<longleftrightarrow>
     rc_entries r = xs \<and> rp_state (rc_replay r) = rp_state full \<and> rp_obligations (rc_replay r) = [] \<and>
     (case load_checkpoint d of
        Inl e \<Rightarrow> False
      | Inr None \<Rightarrow> \<not> rc_used_checkpoint r \<and> rp_digests (rc_replay r) = rp_digests full
      | Inr (Some (c, auth)) \<Rightarrow>
          rc_used_checkpoint r \<and> rp_digests (rc_replay r) = drop (nat (cp_count c)) (rp_digests full) \<and>
          checkpoint_authentication_is_valid c (Some auth) \<and> cp_count c \<le> int (length xs) \<and>
          replay_prefix_digest (take (nat (cp_count c)) xs) = Inr (cp_prefix c) \<and>
          (\<exists>p. replay (GenesisRoot g) (take (nat (cp_count c)) xs) None = Inr p \<and> rp_state p = cp_state c))"

lemma recover_unlocked_iff:
  assumes "replay (GenesisRoot g) xs None = Inr full"
  shows "recover_unlocked d g xs = Inr r \<longleftrightarrow> recovers_to d g xs full r"
proof (cases "load_checkpoint d")
  case (Inl e)
  then show ?thesis using assms by (simp add: recover_unlocked_def recovers_to_def)
next
  case (Inr cp)
  have whole: "rp_obligations full = []" using assms by (auto simp: replay_genesis_iff)
  show ?thesis
  proof (cases cp)
    case None
    then show ?thesis using Inr assms whole
      by (auto simp: recover_unlocked_None recovers_to_def intro!: recovery.equality replayed.equality)
  next
    case (Some x)
    obtain c auth where x: "x = (c, auth)" by (cases x)
    have load: "load_checkpoint d = Inr (Some (c, auth))" using Inr Some x by simp
    show ?thesis
    proof (cases "checkpoint_authentication_is_valid c (Some auth) \<and> (\<exists>p. check_prefix g c xs = Inr p)")
      case True
      then obtain p s where p: "check_prefix g c xs = Inr p" and s: "rp_state s = rp_state full"
        "replay (CheckpointRoot c) (drop (nat (cp_count c)) xs) (Some auth) = Inr s"
        "rp_digests s = drop (nat (cp_count c)) (rp_digests full)"
        using checkpoint_suffix [OF _ assms] by blast
      moreover have "rp_obligations s = []" using s(2) by (auto simp: replay_checkpoint_iff)
      ultimately show ?thesis using True assms load
        by (auto simp: recover_unlocked_Some [OF load] recovers_to_def check_prefix_iff json_eq_refl
            intro!: recovery.equality replayed.equality)
    next
      case False
      then show ?thesis using load
        by (auto simp: recover_unlocked_Some [OF load] recovers_to_def check_prefix_iff replay_checkpoint_iff)
    qed
  qed
qed

text \<open>
  C21. Recovery trusts the journal and nothing else. Undisturbed, \<^verbatim>\<open>recover\<close> returns exactly when the
  journal replays from genesis and the checkpoint file is absent, or loads, is authenticated, and
  names a prefix of this journal by its length, its digest and the state replay reaches there: a
  checkpoint that is authenticated but does not belong to the journal is never used. What it returns
  is then determined: the state is that of the full replay from genesis, whichever root was replayed,
  the entries are the journal, and the digests are those of the full replay, from a checkpoint on
  without its prefix. The files are unchanged. In particular the code's last comparison, of the state
  recovered from the checkpoint with the fully replayed one, never fails.
\<close>

theorem recovery_trusts_only_the_journal:
  assumes "calm v"
  shows "recover v d = (Inr r, d') \<longleftrightarrow> d' = d \<and>
     (\<exists>g xs full. load_genesis d = Inr g \<and> load_entries d = Inr xs \<and>
        replay (GenesisRoot g) xs None = Inr full \<and> recovers_to d g xs full r)"
proof -
  have "recover v d = (Inr r, d') \<longleftrightarrow> d' = d \<and> load_recovery d = Inr r"
    using recover_answer recover_calm [OF assms] by metis
  also have "load_recovery d = Inr r \<longleftrightarrow> (\<exists>g xs full. load_genesis d = Inr g \<and> load_entries d = Inr xs \<and>
      replay (GenesisRoot g) xs None = Inr full \<and> recovers_to d g xs full r)"
    unfolding load_recovery_iff using recover_unlocked_iff recover_unlocked_state by metis
  finally show ?thesis .
qed

end
