(* ===== verification/Kernel_Effects.thy ===== *)
theory Kernel_Effects
  imports Kernel_Journal Receipt_Migration
begin

text \<open>
  The effect ledger of \<^verbatim>\<open>KernelStore\<close>: the record of which cancellation obligations of the journal have
  been carried out or found blocked, \<^verbatim>\<open>reconcile_effects\<close> and \<^verbatim>\<open>record_effect\<close>.

  A store under a task's \<^verbatim>\<open>runtime/kernel\<close> directory checks proof files. \<open>proofs\<close> stands for the file
  system under the task root: \<open>None\<close> when the store has no task root; otherwise what
  \<^verbatim>\<open>(root / ref).resolve()\<close> comes to. It may raise: a \<^verbatim>\<open>ValueError\<close> on a reference with a zero byte, a
  \<^verbatim>\<open>RuntimeError\<close> on a loop of symbolic links.
\<close>

section \<open>Loading\<close>

definition effect_id :: "string \<Rightarrow> string" where
  "effect_id obligation =
     digest (JObj [(''schema_version'', JStr ''valp-kernel-effect-identity.v1''),
                   (''obligation'', JStr obligation)])"

text \<open>\<^verbatim>\<open>Path(value)\<close> on a POSIX system.\<close>

definition store_safe_ref :: "string \<Rightarrow> bool" where
  "store_safe_ref v \<longleftrightarrow>
     \<not> (v = [] \<or> backslash \<in> set v) \<and>
     hd v \<noteq> CHR ''/'' \<and> list_all (\<lambda>part. part \<notin> {'''', ''.'', ''..''}) (path_parts v)"

definition is_cancel_obligation :: "string \<Rightarrow> bool" where
  "is_cancel_obligation s \<longleftrightarrow> take 15 s = ''adapter_cancel:''"

definition all_effect_status :: "effect_status list" where
  "all_effect_status = [EF_FULFILLED, EF_BLOCKED]"

definition dec_effect :: "json \<Rightarrow> effect_record res" where
  "dec_effect v =
     bind_res (shape [''schema_version'', ''effect_id'', ''obligation'', ''status'', ''proof_ref'',
                      ''proof_digest'', ''ledger_revision'', ''prior_record_digest'', ''record_digest'']
                     [] v) (\<lambda>_.
     bind_res (item ''schema_version'' (expect ''valp-kernel-effect-record.v1'') v) (\<lambda>_.
     bind_res (item ''effect_id'' as_str v) (\<lambda>i.
     bind_res (item ''obligation'' as_str v) (\<lambda>ob.
     bind_res (item ''status'' (as_enum effect_status_value all_effect_status) v) (\<lambda>s.
     bind_res (item ''proof_ref'' as_str v) (\<lambda>p.
     bind_res (item ''proof_digest'' as_str v) (\<lambda>pd.
     bind_res (item ''ledger_revision'' as_int v) (\<lambda>n.
     bind_res (item ''prior_record_digest'' as_str v) (\<lambda>pr.
     bind_res (item ''record_digest'' as_str v) (\<lambda>dg.
       Inr \<lparr>er_id = i, er_obligation = ob, er_status = s, er_proof_ref = p, er_proof_digest = pd,
            er_revision = n, er_prior = pr, er_digest = dg\<rparr>))))))))))"

definition effect_bound :: "int \<Rightarrow> string \<Rightarrow> effect_record \<Rightarrow> bool" where
  "effect_bound revision prior r \<longleftrightarrow>
     is_cancel_obligation (er_obligation r) \<and> er_id r = effect_id (er_obligation r) \<and>
     store_safe_ref (er_proof_ref r) \<and> is_digest (er_proof_digest r) \<and>
     er_revision r = revision \<and> er_prior r = prior \<and> er_digest r = digest (effect_body_json r)"

fun effects_loop :: "int \<Rightarrow> string \<Rightarrow> string list \<Rightarrow> effect_record list res" where
  "effects_loop revision prior [] = Inr []"
| "effects_loop revision prior (l # ls) =
     bind_res (decode_line effect_record_json dec_effect l) (\<lambda>r.
       if \<not> effect_bound revision prior r
       then Inl (ValueError ''Kernel effect record bindings are invalid'')
       else bind_res (effects_loop (revision + 1) (er_digest r) ls) (\<lambda>rs. Inr (r # rs)))"

definition load_effects :: "disk \<Rightarrow> failure + effect_record list" where
  "load_effects d =
     bind_res (ensure_regular (dk_effects d)) (\<lambda>_.
       if \<not> exists_path (dk_effects d) then Inr []
       else bind_res (read_bytes (dk_effects d)) (\<lambda>payload.
         if not_canonical_jsonl payload \<or> payload \<noteq> [] \<and> starts_bom payload
         then Inl (Uncaught (ValueError ''Kernel effect ledger is not canonical LF-terminated JSONL''))
         else bind_res (lift_res (effects_loop 1 EMPTY_EFFECT_LEDGER_DIGEST (split_lines payload)))
           (\<lambda>rs. if \<not> distinct (map er_id rs)
                 then Inl (Uncaught (ValueError ''Kernel effect identity is duplicated''))
                 else Inr rs)))"

section \<open>Reconciliation\<close>

definition entry_obligations :: "replay_entry \<Rightarrow> string list" where
  "entry_obligations x = (case re_result x of Accepted a \<Rightarrow> ac_obligations a | _ \<Rightarrow> [])"

fun add_unseen :: "string list \<Rightarrow> string list \<Rightarrow> string list" where
  "add_unseen seen [] = seen"
| "add_unseen seen (x # xs) = add_unseen (if x \<in> set seen then seen else seen @ [x]) xs"

definition accepted_obligations :: "replay_entry list \<Rightarrow> string list" where
  "accepted_obligations xs = add_unseen [] (concat (map entry_obligations xs))"

datatype resolved = Inside node | Outside | Unresolved py_error | Link_loop string

type_synonym proof_files = "(string \<Rightarrow> resolved) option"

definition check_proof :: "(string \<Rightarrow> resolved) \<Rightarrow> effect_record \<Rightarrow> failure + unit" where
  "check_proof file r =
     (case file (er_proof_ref r) of
        Unresolved e \<Rightarrow> Inl (Uncaught e)
      | Link_loop m \<Rightarrow> Inl (Escaping m)
      | Outside \<Rightarrow> Inl (Uncaught (ValueError ''Kernel effect proof escapes the task root''))
      | Inside n \<Rightarrow>
          bind_res (ensure_regular n) (\<lambda>_.
          bind_res (read_bytes n) (\<lambda>payload.
            if payload = [] \<or> bytes_digest payload \<noteq> er_proof_digest r
            then Inl (Uncaught (ValueError ''Kernel effect proof bytes do not match the ledger''))
            else Inr ())))"

fun check_proofs :: "(string \<Rightarrow> resolved) \<Rightarrow> effect_record list \<Rightarrow> failure + unit" where
  "check_proofs file [] = Inr ()"
| "check_proofs file (r # rs) = bind_res (check_proof file r) (\<lambda>_. check_proofs file rs)"

definition validate_effect_proofs :: "proof_files \<Rightarrow> effect_record list \<Rightarrow> failure + unit" where
  "validate_effect_proofs proofs rs = (case proofs of None \<Rightarrow> Inr () | Some file \<Rightarrow> check_proofs file rs)"

text \<open>\<^verbatim>\<open>{record.obligation: record for record in records}\<close>: the last one counts.\<close>

definition by_obligation :: "effect_record list \<Rightarrow> string \<Rightarrow> effect_record option" where
  "by_obligation rs = map_of (rev (map (\<lambda>r. (er_obligation r, r)) rs))"

definition recorded_as :: "effect_status \<Rightarrow> effect_record list \<Rightarrow> string list \<Rightarrow> effect_record list" where
  "recorded_as st rs obs =
     filter (\<lambda>r. er_status r = st) (List.map_filter (by_obligation rs) obs)"

definition reconcile_effects_unlocked ::
  "proof_files \<Rightarrow> replay_entry list \<Rightarrow> effect_record list \<Rightarrow> failure + reconciliation" where
  "reconcile_effects_unlocked proofs xs rs =
     (let obs = accepted_obligations xs in
      if list_ex (\<lambda>r. er_obligation r \<notin> set obs) rs
      then Inl (Uncaught (ValueError ''Kernel effect record has no accepted obligation''))
      else bind_res (validate_effect_proofs proofs rs) (\<lambda>_.
        Inr \<lparr>rn_pending = filter (\<lambda>ob. by_obligation rs ob = None) obs,
             rn_fulfilled = recorded_as EF_FULFILLED rs obs,
             rn_blocked = recorded_as EF_BLOCKED rs obs\<rparr>))"

definition load_reconciliation :: "proof_files \<Rightarrow> disk \<Rightarrow> failure + reconciliation" where
  "load_reconciliation proofs d =
     bind_res (load_recovery d) (\<lambda>r.
     bind_res (load_effects d) (\<lambda>rs. reconcile_effects_unlocked proofs (rc_entries r) rs))"

definition reconcile_effects :: "env \<Rightarrow> proof_files \<Rightarrow> disk \<Rightarrow> (failure + reconciliation) \<times> disk" where
  "reconcile_effects v proofs d =
     classify (locked v (dk_journal d) (reading_disk v (load_reconciliation proofs)) d)"

section \<open>Recording\<close>

definition make_effect ::
  "effect_record list \<Rightarrow> string \<Rightarrow> effect_status \<Rightarrow> string \<Rightarrow> string \<Rightarrow> effect_record" where
  "make_effect rs ob st ref pd =
     (let r = \<lparr>er_id = effect_id ob, er_obligation = ob, er_status = st, er_proof_ref = ref,
               er_proof_digest = pd, er_revision = int (length rs) + 1,
               er_prior = (if rs = [] then EMPTY_EFFECT_LEDGER_DIGEST else er_digest (last rs)),
               er_digest = []\<rparr>
      in r\<lparr>er_digest := digest (effect_body_json r)\<rparr>)"

text \<open>
  The handler around the replacement: after a replacement that was not synced the ledger is read
  again, and when it holds the record the call goes on. An error of this reading, and one that the
  removal of the temporary file raised, is not classified here.
\<close>

definition replace_effects :: "env \<Rightarrow> string \<Rightarrow> effect_record \<Rightarrow> (disk, unit) io" where
  "replace_effects v payload r = (\<lambda>s.
     case replace_kernel v (\<lambda>n d. d\<lparr>dk_effects := n\<rparr>) payload s of
       (Inl (StoreError c UNKNOWN_OR_COMMITTED_OUTCOME), s') \<Rightarrow>
         bind_io (reading_disk v load_effects) (\<lambda>rs.
           if List.find (\<lambda>q. er_id q = er_id r) rs = Some r then ret ()
           else fail (StoreError c UNKNOWN_OR_COMMITTED_OUTCOME)) s'
     | result \<Rightarrow> result)"

definition record_effect_body ::
  "env \<Rightarrow> string \<Rightarrow> effect_status \<Rightarrow> string \<Rightarrow> string \<Rightarrow> (disk, effect_record) io" where
  "record_effect_body v ob st ref pd =
     bind_io (reading_disk v load_recovery) (\<lambda>rec.
       if ob \<notin> set (accepted_obligations (rc_entries rec))
       then fail (StoreError STATE_CONFLICT_ERROR REJECTED_OUTCOME)
       else
         bind_io (reading_disk v load_effects) (\<lambda>rs.
           case List.find (\<lambda>q. er_id q = effect_id ob) rs of
             Some q \<Rightarrow>
               if er_obligation q = ob \<and> er_status q = st \<and> er_proof_ref q = ref \<and> er_proof_digest q = pd
               then ret q
               else fail (StoreError IDEMPOTENCY_CONFLICT_ERROR REJECTED_OUTCOME)
           | None \<Rightarrow>
               let r = make_effect rs ob st ref pd in
               bind_io (look (\<lambda>_. lift_res (encode_lines effect_record_json (rs @ [r])))) (\<lambda>payload.
               bind_io (replace_effects v payload r) (\<lambda>_. ret r))))"

text \<open>The checks before the lock is taken. The reference is resolved outside the \<^verbatim>\<open>try\<close> block.\<close>

definition check_effect_request ::
  "proof_files \<Rightarrow> string \<Rightarrow> string \<Rightarrow> string \<Rightarrow> failure + unit" where
  "check_effect_request proofs ob ref pd =
     (if \<not> (is_cancel_obligation ob \<and> store_safe_ref ref \<and> is_digest pd)
      then Inl (StoreError STATE_CONFLICT_ERROR REJECTED_OUTCOME)
      else case proofs of
        None \<Rightarrow> Inr ()
      | Some file \<Rightarrow>
          (case file ref of
             Unresolved e \<Rightarrow> Inl (Uncaught e)
           | Link_loop m \<Rightarrow> Inl (Escaping m)
           | Outside \<Rightarrow> Inl (StoreError STATE_CONFLICT_ERROR REJECTED_OUTCOME)
           | Inside n \<Rightarrow>
               bind_res (ensure_regular n) (\<lambda>_.
                 case read_bytes n of
                   Inl _ \<Rightarrow> Inl (StoreError STATE_CONFLICT_ERROR REJECTED_OUTCOME)
                 | Inr payload \<Rightarrow>
                     if payload = [] \<or> bytes_digest payload \<noteq> pd
                     then Inl (StoreError STATE_CONFLICT_ERROR REJECTED_OUTCOME)
                     else Inr ())))"

definition record_effect ::
  "env \<Rightarrow> proof_files \<Rightarrow> string \<Rightarrow> effect_status \<Rightarrow> string \<Rightarrow> string \<Rightarrow> disk \<Rightarrow>
     (failure + effect_record) \<times> disk" where
  "record_effect v proofs ob st ref pd d =
     (case check_effect_request proofs ob ref pd of
        Inl e \<Rightarrow> (Inl e, d)
      | Inr _ \<Rightarrow> classify (locked v (dk_journal d) (record_effect_body v ob st ref pd) d))"

section \<open>The ledger as lines\<close>

fun effects_chained :: "int \<Rightarrow> string \<Rightarrow> effect_record list \<Rightarrow> bool" where
  "effects_chained revision prior [] = True"
| "effects_chained revision prior (r # rs) \<longleftrightarrow>
     effect_bound revision prior r \<and> effects_chained (revision + 1) (er_digest r) rs"

lemma effects_loop_iff:
  "effects_loop n prior ls = Inr rs \<longleftrightarrow>
     map_res (decode_line effect_record_json dec_effect) ls = Inr rs \<and> effects_chained n prior rs"
proof (induction n prior ls arbitrary: rs rule: effects_loop.induct)
  case (2 n prior l ls)
  show ?case
  proof (cases "decode_line effect_record_json dec_effect l")
    case (Inr r)
    then show ?thesis
      using 2 [OF _ , of r] by (cases "effect_bound n prior r") (auto simp: bind_res_Inr_iff)
  qed simp
qed auto

lemma effects_chained_snoc:
  "effects_chained n prior (rs @ [r]) \<longleftrightarrow> effects_chained n prior rs \<and>
     effect_bound (n + int (length rs)) (if rs = [] then prior else er_digest (last rs)) r"
  by (induction rs arbitrary: n prior) (auto simp: algebra_simps)

lemma effects_chainedD:
  "effects_chained n prior rs \<Longrightarrow> r \<in> set rs \<Longrightarrow> er_id r = effect_id (er_obligation r)"
  by (induction n prior rs rule: effects_chained.induct) (auto simp: effect_bound_def)

lemma effect_status_enum [simp]:
  "enum_of effect_status_value all_effect_status (effect_status_value s) = Some s"
  by (cases s) (simp_all add: enum_of_def all_effect_status_def)

interpretation effects: jsonl effect_record_json dec_effect "\<lambda>_. True" "\<lambda>r. r"
proof
  show "norm_inv dec_effect" unfolding dec_effect_def by (intro norm_invs)
  show "dec_effect (effect_record_json x) = Inr x" for x
    by (simp add: dec_effect_def effect_record_json_def effect_entries_def decoding)
  show "keys_once (effect_record_json x)" for x
    by (simp add: effect_record_json_def effect_entries_def)
qed simp

lemma load_effects_iff:
  "load_effects d = Inr rs \<longleftrightarrow>
     (dk_effects d = Absent \<and> rs = [] \<or>
      (\<exists>p. dk_effects d = Regular p \<and> load_lines effect_record_json dec_effect p = Inr rs \<and>
        (p \<noteq> [] \<longrightarrow> \<not> starts_bom p))) \<and>
     effects_chained 1 EMPTY_EFFECT_LEDGER_DIGEST rs \<and> distinct (map er_id rs)"
  by (cases "dk_effects d")
    (auto simp: load_effects_def load_lines_def bind_res_Inr_iff effects_loop_iff)

lemma load_effects_seen [simp]:
  "load_effects (seen_disk u d) = (if u Effects_file then Inl (Uncaught (OSError ''read'')) else load_effects d)"
  by (simp add: load_effects_def)

lemma load_reconciliation_seen:
  "load_reconciliation proofs (seen_disk u d) = Inr rn \<Longrightarrow> load_reconciliation proofs d = Inr rn"
  by (auto simp: load_reconciliation_def bind_res_Inr_iff dest!: load_recovery_seen split: if_splits)

lemma effect_line_no_bom: "\<not> starts_bom (canonical_json (effect_record_json r) @ p)"
  by (simp add: starts_bom_def canonical_json_def effect_record_json_def dumps_show show_json_JObj)

lemma distinct_obligations:
  assumes "load_effects d = Inr rs"
  shows "distinct (map er_obligation rs)"
proof -
  have eq: "map er_id rs = map effect_id (map er_obligation rs)"
    using assms effects_chainedD by (auto simp: load_effects_iff)
  have "distinct (map er_id rs)" using assms by (simp add: load_effects_iff)
  then show ?thesis unfolding eq by (auto simp: distinct_map dest: inj_on_imageI2)
qed

section \<open>What reconciliation reports\<close>

lemma add_unseen_set: "set (add_unseen seen xs) = set seen \<union> set xs"
  by (induction seen xs rule: add_unseen.induct) auto

lemma add_unseen_distinct: "distinct seen \<Longrightarrow> distinct (add_unseen seen xs)"
  by (induction seen xs rule: add_unseen.induct) auto

lemma accepted_obligations_props:
  "set (accepted_obligations xs) = (\<Union>x\<in>set xs. set (entry_obligations x))"
  "distinct (accepted_obligations xs)"
  by (simp_all add: accepted_obligations_def add_unseen_set add_unseen_distinct)

lemma by_obligation_iff:
  assumes "distinct (map er_obligation rs)"
  shows "by_obligation rs ob = Some r \<longleftrightarrow> r \<in> set rs \<and> er_obligation r = ob"
proof -
  have "distinct (map fst (rev (map (\<lambda>r. (er_obligation r, r)) rs)))"
    using assms by (simp add: rev_map [symmetric] comp_def)
  then have "by_obligation rs ob = Some r \<longleftrightarrow> (ob, r) \<in> set (map (\<lambda>r. (er_obligation r, r)) rs)"
    by (simp add: by_obligation_def map_of_eq_Some_iff)
  then show ?thesis by auto
qed

lemma mset_recorded_as:
  assumes "distinct (map er_obligation rs)"
  shows "mset (filter (\<lambda>ob. by_obligation rs ob = None) obs @ map er_obligation (recorded_as EF_FULFILLED rs obs)
      @ map er_obligation (recorded_as EF_BLOCKED rs obs)) = mset obs"
proof (induction obs)
  case (Cons ob obs)
  show ?case
  proof (cases "by_obligation rs ob")
    case (Some r)
    then have "er_obligation r = ob" using by_obligation_iff [OF assms] by simp
    with Some Cons show ?thesis
      by (cases "er_status r") (simp_all add: recorded_as_def map_filter_simps)
  qed (use Cons in \<open>simp add: recorded_as_def map_filter_simps\<close>)
qed (simp add: recorded_as_def map_filter_simps)

lemma set_recorded_as:
  assumes "distinct (map er_obligation rs)" and "\<And>r. r \<in> set rs \<Longrightarrow> er_obligation r \<in> set obs"
  shows "set (recorded_as st rs obs) = {r \<in> set rs. er_status r = st}"
proof -
  have "set (List.map_filter (by_obligation rs) obs) = {r. \<exists>ob\<in>set obs. by_obligation rs ob = Some r}"
    by (force simp: map_filter_def)
  also have "\<dots> = set rs" using assms(2) by (auto simp: by_obligation_iff [OF assms(1)])
  finally show ?thesis by (auto simp: recorded_as_def)
qed

lemma check_proofs_iff:
  "check_proofs file rs = Inr () \<longleftrightarrow>
     (\<forall>r\<in>set rs. \<exists>p. file (er_proof_ref r) = Inside (Regular p) \<and> p \<noteq> [] \<and> bytes_digest p = er_proof_digest r)"
proof (induction rs)
  case (Cons r rs)
  have "check_proof file r = Inr () \<longleftrightarrow>
      (\<exists>p. file (er_proof_ref r) = Inside (Regular p) \<and> p \<noteq> [] \<and> bytes_digest p = er_proof_digest r)"
  proof (cases "file (er_proof_ref r)")
    case (Inside n)
    then show ?thesis by (cases n) (simp_all add: check_proof_def)
  qed (simp_all add: check_proof_def)
  with Cons show ?case by (auto simp: bind_res_Inr_iff)
qed simp

text \<open>
  Reconciliation is a partition. When it answers, the files are unchanged, and the pending
  obligations and the obligations of the fulfilled and blocked records are together exactly the
  obligations of the journal, each once; the fulfilled and blocked records are all the records of
  the ledger, by status; and in a store with a task root every record's proof file is inside the
  root, not empty, and has the recorded digest.
\<close>

theorem reconciliation_partitions_obligations:
  assumes "reconcile_effects v proofs d = (Inr rn, d')"
  shows "d' = d \<and> (\<exists>xs rs. load_entries d = Inr xs \<and> load_effects d = Inr rs \<and>
     set (accepted_obligations xs) = (\<Union>x\<in>set xs. set (entry_obligations x)) \<and>
     distinct (accepted_obligations xs) \<and>
     mset (rn_pending rn @ map er_obligation (rn_fulfilled rn) @ map er_obligation (rn_blocked rn)) =
       mset (accepted_obligations xs) \<and>
     set (rn_fulfilled rn) = {r \<in> set rs. er_status r = EF_FULFILLED} \<and>
     set (rn_blocked rn) = {r \<in> set rs. er_status r = EF_BLOCKED} \<and>
     opt_all (\<lambda>file. \<forall>r\<in>set rs. \<exists>p. file (er_proof_ref r) = Inside (Regular p) \<and> p \<noteq> [] \<and>
       bytes_digest p = er_proof_digest r) proofs)"
proof -
  note answer = classified_reading [OF assms [unfolded reconcile_effects_def]]
  from load_reconciliation_seen [OF answer(2) [OF refl]] obtain rec rs where rec: "load_recovery d = Inr rec" and rs: "load_effects d = Inr rs"
    and rn: "reconcile_effects_unlocked proofs (rc_entries rec) rs = Inr rn"
    by (auto simp: load_reconciliation_def bind_res_Inr_iff)
  have xs: "load_entries d = Inr (rc_entries rec)"
    using rec recover_unlocked_state by (fastforce simp: load_recovery_iff)
  have allowed: "er_obligation r \<in> set (accepted_obligations (rc_entries rec))" if "r \<in> set rs" for r
    using rn that by (auto simp: reconcile_effects_unlocked_def Let_def list_ex_iff split: if_splits)
  have "validate_effect_proofs proofs rs = Inr ()"
    using rn by (auto simp: reconcile_effects_unlocked_def Let_def bind_res_Inr_iff split: if_splits)
  then have "opt_all (\<lambda>file. \<forall>r\<in>set rs. \<exists>p. file (er_proof_ref r) = Inside (Regular p) \<and> p \<noteq> [] \<and>
      bytes_digest p = er_proof_digest r) proofs"
    by (cases proofs) (simp_all add: validate_effect_proofs_def check_proofs_iff)
  moreover have "rn = \<lparr>rn_pending = filter (\<lambda>ob. by_obligation rs ob = None) (accepted_obligations (rc_entries rec)),
      rn_fulfilled = recorded_as EF_FULFILLED rs (accepted_obligations (rc_entries rec)),
      rn_blocked = recorded_as EF_BLOCKED rs (accepted_obligations (rc_entries rec))\<rparr>"
    using rn by (auto simp: reconcile_effects_unlocked_def Let_def bind_res_Inr_iff split: if_splits)
  moreover note distinct_obligations [OF rs]
  ultimately show ?thesis
    using answer(1) xs rs allowed accepted_obligations_props [of "rc_entries rec"]
      mset_recorded_as [of rs "accepted_obligations (rc_entries rec)"]
      set_recorded_as [of rs "accepted_obligations (rc_entries rec)"]
    by (intro conjI exI [of _ "rc_entries rec"] exI [of _ rs]) simp_all
qed

section \<open>What recording does\<close>

lemma make_effect_fields [simp]:
  "er_id (make_effect rs ob st ref pd) = effect_id ob"
  "er_obligation (make_effect rs ob st ref pd) = ob"
  "er_status (make_effect rs ob st ref pd) = st"
  "er_proof_ref (make_effect rs ob st ref pd) = ref"
  "er_proof_digest (make_effect rs ob st ref pd) = pd"
  by (simp_all add: make_effect_def Let_def)

lemma make_effect_bound:
  assumes "is_cancel_obligation ob" and "store_safe_ref ref" and "is_digest pd"
  shows "effect_bound (1 + int (length rs))
    (if rs = [] then EMPTY_EFFECT_LEDGER_DIGEST else er_digest (last rs)) (make_effect rs ob st ref pd)"
  using assms by (simp add: effect_bound_def make_effect_def Let_def effect_body_json_def effect_entries_def)

text \<open>The ledger with one more record reads back.\<close>

lemma effects_snoc_loads:
  assumes rs: "load_effects d = Inr rs" and p: "encode_lines effect_record_json (rs @ [r]) = Inr p"
    and r: "r = make_effect rs ob st ref pd"
    and ok: "is_cancel_obligation ob" "store_safe_ref ref" "is_digest pd"
    and fresh: "effect_id ob \<notin> er_id ` set rs"
  shows "load_effects (d\<lparr>dk_effects := Regular p\<rparr>) = Inr (rs @ [r])"
proof -
  have load: "load_lines effect_record_json dec_effect p = Inr (rs @ [r])"
    using effects.load_written [OF _ p] by (simp add: list_all_iff)
  moreover have "\<not> starts_bom p"
    using load_lines_text [OF load] effect_line_no_bom by (cases rs) (simp_all, metis append_Nil2)
  moreover have "effects_chained 1 EMPTY_EFFECT_LEDGER_DIGEST (rs @ [r])"
    using rs make_effect_bound [OF ok, of rs st] by (simp add: effects_chained_snoc load_effects_iff r)
  moreover have "distinct (map er_id (rs @ [r]))"
    using rs fresh by (auto simp: load_effects_iff r)
  ultimately show ?thesis using load by (simp add: load_effects_iff)
qed

lemma load_recovery_effects [simp]: "load_recovery (d\<lparr>dk_effects := n\<rparr>) = load_recovery d"
  by (simp add: load_recovery_def load_genesis_def load_entries_def recover_unlocked_def load_checkpoint_def)

lemma find_snoc_fresh:
  "i \<notin> er_id ` set rs \<Longrightarrow> er_id r = i \<Longrightarrow> List.find (\<lambda>q. er_id q = i) (rs @ [r]) = Some r"
  by (induction rs) auto

text \<open>
  The faults that come after the commit and are reported as a rejection: the temporary file cannot
  be removed, or the ledger cannot be read again.
\<close>

definition late_effect_fault :: "env \<Rightarrow> bool" where
  "late_effect_fault v \<longleftrightarrow>
     env_unremoved v \<or> env_replace v = Replaced_unsynced \<and> env_unreadable v True Effects_file"

lemma replace_effects_cases:
  assumes load: "load_effects (d\<lparr>dk_effects := Regular p\<rparr>) = Inr (rs @ [r])"
    and fresh: "er_id r \<notin> er_id ` set rs"
    and body: "replace_effects v p r (d, False) = (res, d', b)"
  obtains (untouched) e where "res = Inl e" and "refusal e" and "d' = d" and "\<not> b"
  | (replaced) "d' = d\<lparr>dk_effects := Regular p\<rparr>" and "b"
      and "res = Inr () \<or> late_effect_fault v \<and> (\<exists>e. res = Inl (Uncaught e))"
  using assms find_snoc_fresh [OF fresh refl]
  by (cases "env_replace v"; cases "env_unremoved v"; cases "env_unreadable v True Effects_file")
     (auto simp: replace_effects_def replace_kernel_def replace_node_def late_effect_fault_def intro: that)

lemma load_recovery_refusal: "load_recovery d = Inr rec \<Longrightarrow> load_recovery (seen_disk u d) = Inl e \<Longrightarrow> refusal e"
  by (auto simp: load_recovery_def bind_res_Inr_iff bind_res_def recover_unlocked_def
      split: if_splits sum.splits)

lemma record_body_cases:
  assumes rec: "load_recovery d = Inr rec" and rs: "load_effects d = Inr rs"
    and ok: "is_cancel_obligation ob" "store_safe_ref ref" "is_digest pd"
    and body: "record_effect_body v ob st ref pd (d, False) = (res, d', b)"
  obtains (known) q where "q \<in> set rs" and "er_obligation q = ob" and "er_status q = st"
      and "er_proof_ref q = ref" and "er_proof_digest q = pd" and "res = Inr q" and "d' = d" and "\<not> b"
  | (refused) e where "res = Inl e" and "refusal e" and "d' = d" and "\<not> b"
  | (committed) p where "ob \<in> set (accepted_obligations (rc_entries rec))"
      and "effect_id ob \<notin> er_id ` set rs"
      and "encode_lines effect_record_json (rs @ [make_effect rs ob st ref pd]) = Inr p"
      and "d' = d\<lparr>dk_effects := Regular p\<rparr>" and "b"
      and "res = Inr (make_effect rs ob st ref pd) \<or> late_effect_fault v \<and> (\<exists>e. res = Inl (Uncaught e))"
proof (cases "load_recovery (seen_disk (env_unreadable v False) d)")
  case (Inl e)
  with body have "(res, d', b) = (Inl e, d, False)" by (simp add: record_effect_body_def)
  then show ?thesis using refused load_recovery_refusal [OF rec Inl] by simp
next
  case (Inr rec')
  then have recs: "load_recovery (seen_disk (env_unreadable v False) d) = Inr rec"
    using load_recovery_seen [OF Inr] rec by simp
  let ?obs = "accepted_obligations (rc_entries rec)"
  show ?thesis
  proof (cases "ob \<in> set ?obs \<and> \<not> env_unreadable v False Effects_file")
    case False
    with recs body obtain e where "(res, d', b) = (Inl e, d, False)" "refusal e"
      by (auto simp: record_effect_body_def split: if_splits)
    then show ?thesis using refused by simp
  next
    case True
    then have ob: "ob \<in> set ?obs" and readable: "\<not> env_unreadable v False Effects_file" by simp_all
    show ?thesis
    proof (cases "List.find (\<lambda>q. er_id q = effect_id ob) rs")
      case (Some q)
      let ?same = "er_obligation q = ob \<and> er_status q = st \<and> er_proof_ref q = ref \<and> er_proof_digest q = pd"
      have "(res, d', b) = (if ?same then Inr q
          else Inl (StoreError IDEMPOTENCY_CONFLICT_ERROR REJECTED_OUTCOME), d, False)"
        using recs rs body ob readable Some by (auto simp: record_effect_body_def split: if_splits)
      then show ?thesis using refused known [of q] find_SomeD [OF Some] by (cases ?same) auto
    next
      case None
      let ?r = "make_effect rs ob st ref pd"
      have fresh: "effect_id ob \<notin> er_id ` set rs" using None by (auto simp: find_None_iff)
      show ?thesis
      proof (cases "encode_lines effect_record_json (rs @ [?r])")
        case (Inl e)
        then have "(res, d', b) = (Inl (Uncaught e), d, False)"
          using recs rs body ob readable None by (simp add: record_effect_body_def Let_def)
        then show ?thesis using refused by simp
      next
        case (Inr p)
        obtain r1 d1 b1 where r1: "replace_effects v p ?r (d, False) = (r1, d1, b1)"
          by (cases "replace_effects v p ?r (d, False)")
        have res: "(res, d', b) = (case r1 of Inl e \<Rightarrow> (Inl e, d1, b1) | Inr _ \<Rightarrow> (Inr ?r, d1, b1))"
          using recs rs body ob readable None Inr r1
          by (simp add: record_effect_body_def Let_def bind_io_def split: sum.splits)
        have load: "load_effects (d\<lparr>dk_effects := Regular p\<rparr>) = Inr (rs @ [?r])"
          by (rule effects_snoc_loads [OF rs Inr refl ok fresh])
        have "er_id ?r \<notin> er_id ` set rs" using fresh by simp
        from load this r1 show ?thesis
        proof (cases rule: replace_effects_cases)
          case (untouched e)
          with res show ?thesis by (intro refused) simp_all
        next
          case replaced
          with res show ?thesis by (intro committed [OF ob fresh Inr]) auto
        qed
      qed
    qed
  qed
qed

lemma check_effect_request_Inl:
  assumes "check_effect_request proofs ob ref pd = Inl e"
  shows "(\<exists>c. e = StoreError c REJECTED_OUTCOME) \<or>
    (\<exists>file x. proofs = Some file \<and> (file ref = Unresolved x \<and> e = Uncaught x)) \<or>
    (\<exists>file m. proofs = Some file \<and> (file ref = Link_loop m \<and> e = Escaping m))"
  using assms by (auto simp: check_effect_request_def ensure_regular_def bind_res_def
      split: if_splits option.splits resolved.splits node.splits sum.splits)

text \<open>
  C32. Effects are recorded at most once and atomically, and errors are honest but for one kind. Take
  a store that recovers and whose effect ledger loads, any request, any files under the task root, and
  any behaviour of the operating system. Afterwards the store recovers as before, the ledger loads and
  has at most one record per obligation, and it is the old ledger or the old one with one more record:
  for an obligation of the journal that had none, with the requested status and proof. If the call
  returns, its record is in the ledger and is the requested one. If it raises a classified error,
  outcome unknown_or_committed is said only when the record has been added, and outcome rejected only
  when the files are untouched, unless the temporary file could not be removed or the ledger not be
  read again after an unsynced replacement: then the code says rejected of a record that may be there.
  Any other exception is one of resolving the proof reference, which the code does outside its
  handlers, and then the files are untouched.
\<close>

theorem effect_recorded_at_most_once:
  assumes "load_recovery d = Inr rec" and "load_effects d = Inr rs"
    and "record_effect v proofs ob st ref pd d = (res, d')"
  shows "load_recovery d' = Inr rec \<and> (\<exists>rs'. load_effects d' = Inr rs' \<and> distinct (map er_obligation rs') \<and>
     (d' = d \<or> (\<exists>r. rs' = rs @ [r] \<and> ob \<in> set (accepted_obligations (rc_entries rec)) \<and>
        ob \<notin> er_obligation ` set rs \<and> er_obligation r = ob \<and> er_status r = st \<and>
        er_proof_ref r = ref \<and> er_proof_digest r = pd \<and> d' = d\<lparr>dk_effects := dk_effects d'\<rparr>)) \<and>
     (case res of
        Inr r \<Rightarrow> r \<in> set rs' \<and> er_obligation r = ob \<and> er_status r = st \<and> er_proof_ref r = ref \<and>
          er_proof_digest r = pd
      | Inl (StoreError code REJECTED_OUTCOME) \<Rightarrow> d' = d \<or> late_effect_fault v
      | Inl (StoreError code UNKNOWN_OR_COMMITTED_OUTCOME) \<Rightarrow> rs' \<noteq> rs
      | Inl (Uncaught e) \<Rightarrow> d' = d \<and> (\<exists>file. proofs = Some file \<and> file ref = Unresolved e)
      | Inl (Escaping m) \<Rightarrow> d' = d \<and> (\<exists>file. proofs = Some file \<and> file ref = Link_loop m)))"
proof (cases "check_effect_request proofs ob ref pd")
  case (Inl e)
  then have "res = Inl e" "d' = d" using assms(3) by (simp_all add: record_effect_def)
  with check_effect_request_Inl [OF Inl] assms(1,2) distinct_obligations show ?thesis by auto
next
  case (Inr u)
  then have ok: "is_cancel_obligation ob" "store_safe_ref ref" "is_digest pd"
    by (simp_all add: check_effect_request_def split: if_splits)
  let ?r = "make_effect rs ob st ref pd"
  have added: ?thesis
    if c: "ob \<in> set (accepted_obligations (rc_entries rec))" "effect_id ob \<notin> er_id ` set rs"
      "encode_lines effect_record_json (rs @ [?r]) = Inr p" "d' = d\<lparr>dk_effects := Regular p\<rparr>"
      and r: "res = Inr ?r \<or> (\<exists>c. res = Inl (StoreError c UNKNOWN_OR_COMMITTED_OUTCOME)) \<or>
        late_effect_fault v \<and> (\<exists>c. res = Inl (StoreError c REJECTED_OUTCOME))" for p
  proof -
    have load: "load_effects d' = Inr (rs @ [?r])"
      using effects_snoc_loads [OF assms(2) c(3) refl ok c(2)] c(4) by simp
    have "ob \<notin> er_obligation ` set rs"
      using c(2) assms(2) effects_chainedD by (force simp: load_effects_iff)
    moreover have "load_recovery d' = Inr rec" using assms(1) c(4) by simp
    moreover have "d' = d\<lparr>dk_effects := dk_effects d'\<rparr>" using c(4) by simp
    ultimately show ?thesis
      using c(1) r load distinct_obligations [OF load] by (intro conjI exI [of _ "rs @ [?r]"]) auto
  qed
  from assms(3) Inr have "classify (locked v (dk_journal d) (record_effect_body v ob st ref pd) d) = (res, d')"
    by (simp add: record_effect_def)
  then show ?thesis
  proof (cases rule: classified_cases)
    case (ran r b)
    from assms(1,2) ok ran(1) show ?thesis
    proof (cases rule: record_body_cases)
      case (known q)
      with assms(1,2) ran(2) show ?thesis by (auto intro: distinct_obligations)
    next
      case (refused e)
      with assms(1,2) classify_refusal ran(2) show ?thesis by (fastforce intro: distinct_obligations)
    next
      case (committed p)
      then show ?thesis using ran(2) by (intro added [OF committed(1-4)]) auto
    qed
  next
    case (unreleased z b)
    from assms(1,2) ok unreleased(1) show ?thesis
    proof (cases rule: record_body_cases)
      case (known q)
      with assms(1,2) unreleased(2) show ?thesis by (auto intro: distinct_obligations)
    next
      case (committed p)
      then show ?thesis using unreleased(2) by (intro added [OF committed(1-4)]) auto
    qed simp
  qed (use assms(1,2) in \<open>auto intro: distinct_obligations\<close>)
qed

end
