(* ===== verification/Kernel_Named.thy ===== *)
theory Kernel_Named
  imports Kernel_Journal
begin

text \<open>
  Identities with a value. \<^verbatim>\<open>Identity.__post_init__\<close> refuses an empty value, so every state, event and
  result of the program is named; the reducer keeps states named, and a named genesis that is written
  reads back.
\<close>

section \<open>The reducer\<close>

lemma named_result_identity [simp]: "named (result_identity e)"
  by (simp add: result_identity_def named_def Identity_def)

lemma cancelled_item_named: "item_named w \<Longrightarrow> item_named (fst (cancelled_work_item w))"
  by (auto simp: cancelled_work_item_def item_named_def attempt_named_def Let_def split: option.splits)

lemma item_move_named:
  assumes "item_move task k e w w'" and "item_named w" and "named task" and "event_named e"
  shows "item_named w'"
  using assms
  by (induction)
     (auto simp: item_named_def attempt_named_def event_named_def cancelled_item_named [unfolded item_named_def])

lemma moves_named:
  assumes "list_all2 (moves task k e) items items'" and "list_all item_named items"
    and "named task" and "event_named e"
  shows "list_all item_named items'"
  using assms(1,2) by (induction rule: list_all2_induct) (auto intro: item_move_named assms(3,4))

lemma dispatch_suspension_named:
  assumes "dispatch s status k e = Some sp" and "state_named s" and "event_named e"
  shows "opt_all suspension_named (sp_suspension sp)"
  using assms(1)
proof (cases rule: dispatch_suspension)
  case started
  from started(2) show ?thesis
    by (rule do_suspension_started_SomeD)
       (use assms(2,3) in \<open>simp add: state_named_def event_named_def suspension_named_def\<close>)
next
  case woken
  from woken(2) show ?thesis
    by (rule do_wake_accepted_SomeD)
       (use assms(2,3) in \<open>simp add: state_named_def event_named_def suspension_named_def\<close>)
qed (use assms(2) in \<open>simp_all add: state_named_def\<close>)

lemma dispatch_control_named:
  assumes "dispatch s status k e = Some sp" and "state_named s" and "event_named e"
  shows "opt_all (\<lambda>c. opt_all named (ct_interrupt c)) (sp_control sp)"
  using assms(1)
  by (cases rule: dispatch_control) (use assms(2,3) in \<open>simp_all add: state_named_def event_named_def\<close>)

lemma reduce_named:
  assumes "reduce s e ev = Accepted a" and "state_named s" and "event_named e"
  shows "state_named (ac_state a)" and "named (ac_result a)"
proof -
  from assms(1) obtain status k sp target where t: "takes s e ev status k sp target"
    and f: "finish s status k e (input_digest s e ev) sp = Accepted a"
    by (rule reduce_Accepted_takes)
  note fields = finish_takes [OF t f]
  have d: "dispatch s status k e = Some sp" using t by (simp add: takes_def)
  show result: "named (ac_result a)" by (simp add: fields(1))
  have "list_all item_named (sp_items sp)"
    using moves_named [OF dispatch_moves [OF d]] assms(2,3) by (simp add: state_named_def)
  then show "state_named (ac_state a)"
    using assms(2,3) result dispatch_suspension_named [OF d assms(2,3)] dispatch_control_named [OF d assms(2,3)]
    by (simp add: fields(6) state_named_def event_named_def)
qed

text \<open>The entry that records an accepted step over named parts can be read back.\<close>

lemma recorded_named:
  assumes "reduce s e ev = Accepted a" and "state_named s" and "event_named e"
    and "list_all (\<lambda>x. named (evd_id x)) ev"
  shows "entry_named (recorded (e, ev, a))"
  using assms reduce_named [OF assms(1-3)] by (simp add: entry_named_def recorded_def)

section \<open>Genesis\<close>

lemma object_no_bom: "\<not> starts_bom (canonical_json (JObj kvs))"
  by (simp add: starts_bom_def canonical_json_def dumps_show show_json_JObj)

lemma norm_inv_genesis_root: "norm_inv decode_genesis_root"
  unfolding decode_genesis_root_def norm_inv_def
  by (simp add: norm_invD [OF norm_inv_shape] norm_invD [OF norm_inv_items(1) [OF norm_inv_state]]
      norm_invD [OF norm_inv_items(1) [OF norm_inv_atoms(4)]])

lemma genesis_loads:
  assumes "dk_genesis d = Regular (canonical_json (genesis_root_json g))"
    and "utf8_valid (canonical_json (genesis_root_json g))" and "genesis_ok g" and "state_named g"
  shows "load_genesis d = Inr g"
proof -
  let ?v = "genesis_root_json g"
  have p: "parse (canonical_json ?v) = Inr (norm ?v)"
    using strict_loads_canonical [of ?v] assms(2) by (simp add: parse_def)
  have "state_is_valid g" using assms(3) by (simp add: genesis_ok_def)
  then have dec: "decode_genesis_root (norm ?v) = Inr g"
    using norm_invD [OF norm_inv_genesis_root] decode_genesis_json [OF assms(3) _ assms(4)] by metis
  have "\<not> starts_bom (canonical_json ?v)" unfolding genesis_root_json_def by (rule object_no_bom)
  moreover have "canonical_json ?v \<noteq> []" "last (canonical_json ?v) = LF" by (simp_all add: canonical_json_def)
  ultimately show ?thesis
    using assms(1,2) p dec canonical_no_CR [of ?v]
    by (simp add: load_genesis_def read_canonical_def encode_utf8_def)
qed

definition blank_store :: "disk \<Rightarrow> bool" where
  "blank_store d \<longleftrightarrow> dk_genesis d = Absent \<and> dk_journal d = Absent \<and> dk_checkpoint d = Absent \<and>
     dk_effects d = Absent"

lemma fresh_store_recovers:
  assumes "blank_store d" and "genesis_ok g" and "state_named g"
    and "encode_utf8 (canonical_json (genesis_root_json g)) = Inr p" and "d' = d\<lparr>dk_genesis := Regular p\<rparr>"
  shows "\<exists>r. load_recovery d' = Inr r \<and> rp_state (rc_replay r) = g"
proof -
  have "utf8_valid (canonical_json (genesis_root_json g))" "p = canonical_json (genesis_root_json g)"
    using assms(4) by (simp_all add: encode_utf8_def split: if_splits)
  then have "load_genesis d' = Inr g" using assms genesis_loads [of d' g] by simp
  moreover have "load_entries d' = Inr []" "load_checkpoint d' = Inr None"
    using assms by (simp_all add: blank_store_def load_entries_def load_checkpoint_def)
  moreover have "replay (GenesisRoot g) [] None = Inr \<lparr>rp_state = g, rp_digests = [], rp_obligations = []\<rparr>"
    using assms(2) by (simp add: replay_genesis_iff)
  ultimately show ?thesis by (auto simp: load_recovery_iff recover_unlocked_None)
qed

text \<open>Initialisation of an empty store, under any fault: still empty, or it recovers to the genesis state.\<close>

lemma initialize_outcome:
  assumes "blank_store d" and "initialize v g d = (res, d')" and "state_named g"
  shows "(d' = d \<and> (\<exists>e. res = Inl e)) \<or> (\<exists>r. load_recovery d' = Inr r \<and> rp_state (rc_replay r) = g)"
proof (cases "bind_res (replay (GenesisRoot g) [] None)
             (\<lambda>_. encode_utf8 (canonical_json (genesis_root_json g)))")
  case (Inl e)
  with assms(2) show ?thesis by (auto simp: initialize_def)
next
  case (Inr p)
  then have g: "genesis_ok g" and p: "encode_utf8 (canonical_json (genesis_root_json g)) = Inr p"
    by (auto simp: bind_res_Inr_iff replay_genesis_iff)
  let ?u = "env_unreadable v False" and ?rep = "replace_kernel v (\<lambda>n d. d\<lparr>dk_genesis := n\<rparr>) p (d, False)"
  let ?b = "bind_io (reading_disk v (\<lambda>d. path_exists (dk_genesis d))) (\<lambda>genesis.
             bind_io (reading_disk v (\<lambda>d. path_exists (dk_checkpoint d))) (\<lambda>checkpoint.
             bind_io (reading_disk v (\<lambda>d. path_exists (dk_effects d))) (\<lambda>effects.
               if genesis
               then bind_io (reading_disk v (\<lambda>d. read_bytes (dk_genesis d))) (\<lambda>old.
                 if old \<noteq> p then fail (StoreError IDEMPOTENCY_CONFLICT_ERROR REJECTED_OUTCOME)
                 else ret ())
               else bind_io (reading_disk v (\<lambda>d. path_exists (dk_journal d))) (\<lambda>journal.
                 if journal \<or> checkpoint \<or> effects
                 then fail (StoreError KERNEL_STORE_CORRUPT_ERROR REJECTED_OUTCOME)
                 else replace_kernel v (\<lambda>n d. d\<lparr>dk_genesis := n\<rparr>) p))))"
  have l: "locked v Absent ?b d = (res, d')"
    using assms(1,2) Inr by (simp add: initialize_def blank_store_def)
  have b: "?b (d, False) = (if ?u Genesis_file \<or> ?u Checkpoint_file \<or> ?u Effects_file \<or> ?u Journal_file
      then (Inl (Uncaught (OSError ''stat'')), d, False) else ?rep)"
    using assms(1) by (simp add: blank_store_def path_exists_def seen_node_def)
  have outcome: "d1 = d \<and> (\<exists>e. r1 = Inl e) \<or> d1 = d\<lparr>dk_genesis := Regular p\<rparr>"
    if "?b (d, False) = (r1, d1, x)" for r1 d1 x
    using that unfolding b by (auto split: if_splits elim: replace_kernel_cases)
  note stored = fresh_store_recovers [OF assms(1) g assms(3) p]
  from l show ?thesis
  proof (cases rule: locked_cases)
    case (ran x)
    then show ?thesis using outcome stored by blast
  next
    case (unreleased y x)
    then show ?thesis using outcome stored by blast
  qed auto
qed

end
