(* ===== verification/Store_Examples.thy ===== *)
theory Store_Examples
  imports Kernel_Checkpoint Kernel_Effects Kernel_Examples Kernel_Named
begin

text \<open>
  Stores that hold the demonstration task. The journal of a script is described with the light
  kernel: \<open>light_script\<close> evaluates a script and checks on the way that all texts are plain ASCII and
  all identities named, and \<open>script_store\<close> gives the store that holds its journal.
\<close>

section \<open>Plain texts\<close>

definition ascii :: "string \<Rightarrow> bool" where
  "ascii s \<longleftrightarrow> list_all (\<lambda>c. (of_char c :: nat) < 128) s"

fun plain :: "json \<Rightarrow> bool" where
  "plain JNull = True"
| "plain (JBool b) = True"
| "plain (JInt i) = True"
| "plain (JStr s) = ascii s"
| "plain (JArr xs) = (\<forall>x\<in>set xs. plain x)"
| "plain (JObj kvs) = (\<forall>e\<in>set kvs. ascii (fst e) \<and> plain (snd e))"

lemma ascii_code [code]: "ascii s \<longleftrightarrow> list_all (\<lambda>c. \<not> digit7 c) s"
proof -
  have "(of_char c :: nat) < 128 \<longleftrightarrow> \<not> digit7 c" for c
    by (cases c; cases "digit7 c") (auto simp: of_char_def split: if_splits)
  then show ?thesis by (simp add: ascii_def)
qed

lemma ascii_simps [simp]:
  "ascii []" "ascii (s @ t) \<longleftrightarrow> ascii s \<and> ascii t"
  "ascii (c # s) \<longleftrightarrow> (of_char c :: nat) < 128 \<and> ascii s"
  by (simp_all add: ascii_def)

lemma ascii_utf8: "ascii s \<Longrightarrow> utf8_valid s"
  by (induction s) simp_all

lemma ascii_hex_char [simp]: "(of_char (hex_char n) :: nat) < 128"
  using hex_char_in [of n] by (auto simp: hex_digits_def)

lemma ascii_quote: "ascii s \<Longrightarrow> ascii (quote s)"
proof -
  have "ascii (esc_char c)" if "(of_char c :: nat) < 128" for c
  proof -
    have "(of_char x :: nat) < 128" if "map_of esc_table c = Some x" for x
      using that by (auto simp: esc_table_def dquote_def backslash_def split: if_splits)
    then show ?thesis using that by (auto simp: esc_char_def backslash_def split: option.splits)
  qed
  then have "ascii (concat (map esc_char s))" if "ascii s" using that by (induction s) simp_all
  then show "ascii s \<Longrightarrow> ascii (quote s)" by (simp add: quote_def dquote_def)
qed

lemma ascii_digits: "list_all is_digit s \<Longrightarrow> ascii s"
  by (auto simp: ascii_def list_all_iff is_digit_def)

lemma ascii_int_str: "ascii (int_str i)"
  using ascii_digits [OF nat_str_digits] by (simp add: int_str_def)

lemma ascii_commas: "list_all ascii xs \<Longrightarrow> ascii (commas xs)"
  by (induction xs rule: commas.induct) auto

lemma plain_dumps: "plain v \<Longrightarrow> ascii (dumps v)"
proof (induction v)
  case (JArr xs)
  then have "ascii (commas (map dumps xs))" by (intro ascii_commas) (simp add: list_all_iff)
  then show ?case by simp
next
  case (JObj kvs)
  have "ascii (commas (map (\<lambda>(k, t). quote k @ CHR '':'' # t) (sort_key fst (map (map_prod id dumps) kvs))))"
    using JObj ascii_quote by (intro ascii_commas) (fastforce simp: list_all_iff)
  then show ?case by simp
qed (simp_all add: ascii_quote ascii_int_str)

lemma plain_utf8: "plain v \<Longrightarrow> utf8_valid (canonical_json v)"
  using plain_dumps [of v] ascii_utf8 [of "canonical_json v"] by (simp add: canonical_json_def)

lemma ascii_digest:
  assumes "is_digest s"
  shows "ascii s"
proof -
  have hex: "(of_char c :: nat) < 128" if "c \<in> set ''0123456789abcdef''" for c using that by auto
  have "list_all (\<lambda>c. c \<in> set ''0123456789abcdef'') (drop 7 s)" and seven: "take 7 s = ''sha256:''"
    using assms unfolding is_digest_def by blast+
  then have "ascii (drop 7 s)" unfolding ascii_def list_all_iff using hex by blast
  then have "ascii (''sha256:'' @ drop 7 s)" by simp
  moreover have "''sha256:'' @ drop 7 s = s" using seven append_take_drop_id [of 7 s] by simp
  ultimately show ?thesis by (simp only:)
qed

lemma plain_entries [simp]:
  "(\<forall>e\<in>set (opt_entry k f x). ascii (fst e) \<and> plain (snd e)) \<longleftrightarrow> opt_all (\<lambda>y. ascii k \<and> plain (f y)) x"
  "(\<forall>e\<in>set (list_entry k g xs). ascii (fst e) \<and> plain (snd e)) \<longleftrightarrow>
     xs = [] \<or> ascii k \<and> (\<forall>y\<in>set xs. plain (g y))"
  by (cases x; auto simp: opt_entry_def list_entry_def)+

text \<open>Forgetting the digests of a valid state changes neither names nor plainness.\<close>

lemma state_named_forget: "state_named (forget s) = state_named s"
  by (simp add: state_named_def list_all_iff)

lemma plain_state_forget:
  assumes "plain (state_json (forget s))" and "state_is_valid s"
  shows "plain (state_json s)"
proof -
  have "plain (accepted_event_json x)" if "x \<in> set (st_accepted s)" for x
  proof -
    have "plain (accepted_event_json (forget_entry x))"
      using assms(1) that by (auto simp: state_json_def)
    moreover have "accepted_event_is_valid x"
      using assms(2) that by (simp add: state_is_valid_def list_all_iff)
    ultimately show ?thesis
      by (simp add: accepted_event_json_def accepted_event_is_valid_def ascii_digest)
  qed
  then show ?thesis using assms(1) by (simp add: state_json_def ball_Un)
qed

section \<open>Scripts with their texts\<close>

definition light_texts :: "state \<Rightarrow> event \<Rightarrow> (string list \<times> string list) option" where
  "light_texts u e =
     (case (st_status u, ev_kind e) of
        (Closed status, Closed k) \<Rightarrow>
          map_option (\<lambda>sp. (sp_obligations sp,
            (''accepted:'' @ identity_kind_value (id_kind (ev_id e)) @ '':'' @ id_value (ev_id e)) # sp_facts sp))
            (dispatch u status k e)
      | _ \<Rightarrow> None)"

definition fine_step :: "event \<Rightarrow> evidence list \<Rightarrow> state \<Rightarrow> string list \<Rightarrow> string list \<Rightarrow> bool" where
  "fine_step e ev u obs facts \<longleftrightarrow>
     event_named e \<and> plain (event_json e) \<and>
     list_all (\<lambda>x. named (evd_id x) \<and> plain (evidence_json x)) ev \<and>
     state_named u \<and> plain (state_json u) \<and> plain (identity_json (result_identity e)) \<and>
     list_all ascii obs \<and> list_all ascii facts"

fun light_script :: "state \<Rightarrow> (event \<times> evidence list) list \<Rightarrow> (state \<times> string list) option" where
  "light_script u [] = Some (u, [])"
| "light_script u ((e, ev) # is) =
     (case (light_step u (e, ev), light_texts u e) of
        (Some u', Some (obs, facts)) \<Rightarrow>
          if fine_step e ev u' obs facts
          then map_option (\<lambda>(v, os). (v, obs @ os)) (light_script u' is) else None
      | _ \<Rightarrow> None)"

definition entry_fine :: "entry \<Rightarrow> bool" where
  "entry_fine y \<longleftrightarrow> entry_named (recorded y) \<and> plain (replay_entry_json (recorded y))"

lemma light_texts_reduce:
  assumes "reduce s e ev = Accepted a"
  shows "light_texts (forget s) e = Some (ac_obligations a, ac_facts a)"
proof -
  obtain status k sp target where t: "takes s e ev status k sp target"
    and f: "finish s status k e (input_digest s e ev) sp = Accepted a"
    using assms by (rule reduce_Accepted_takes)
  show ?thesis using finish_takes(3,4) [OF t f] t by (simp add: light_texts_def takes_def)
qed

lemma fine_entry:
  assumes inv: "kernel_inv s" and a: "reduce s e ev = Accepted a"
    and fine: "fine_step e ev (forget (ac_state a)) (ac_obligations a) (ac_facts a)"
  shows "entry_fine (e, ev, a)"
proof -
  have valid: "state_is_valid (ac_state a)" using reduce_inv [OF a inv] by (simp add: kernel_inv_def)
  obtain status k sp target where t: "takes s e ev status k sp target"
    and f: "finish s status k e (input_digest s e ev) sp = Accepted a"
    using a by (rule reduce_Accepted_takes)
  note fields = finish_takes(1,2,5) [OF t f]
  have "is_digest (ac_input_digest a)" "is_digest (ac_result_digest a)"
    by (simp_all add: fields input_digest_def accepted_result_digest_def)
  moreover have "plain (state_json (ac_state a))"
    using plain_state_forget valid fine by (simp add: fine_step_def)
  moreover have "named (ac_result a)"
    by (simp add: fields result_identity_def named_def Identity_def)
  moreover have "state_named (ac_state a)"
    using fine by (simp add: fine_step_def state_named_forget)
  ultimately show ?thesis
    using fine fields
    by (auto simp: entry_fine_def entry_named_def recorded_def replay_entry_json_def accepted_json_def
        fine_step_def list_all_iff ascii_digest canonical_evidence_sorted)
qed

lemma light_script_run:
  assumes "kernel_inv s" and "light_script (forget s) is = Some (v, obs)"
  shows "\<exists>tr t. run s tr t \<and> map (\<lambda>y. (fst y, fst (snd y))) tr = is \<and> kernel_inv t \<and> forget t = v \<and>
    list_all entry_fine tr \<and> concat (map (\<lambda>y. entry_obligations (recorded y)) tr) = obs"
  using assms
proof (induction "is" arbitrary: s obs)
  case Nil
  then show ?case by (intro exI [of _ "[]"] exI [of _ s]) (simp add: run_Nil)
next
  case (Cons i "is")
  obtain e ev where i: "i = (e, ev)" by (cases i)
  obtain u' ob facts os where l: "light_step (forget s) (e, ev) = Some u'"
    "light_texts (forget s) e = Some (ob, facts)" "fine_step e ev u' ob facts"
    "light_script u' is = Some (v, os)" "obs = ob @ os"
    using Cons.prems(2) by (auto simp: i split: option.splits prod.splits if_splits)
  obtain a where a: "reduce s e ev = Accepted a" "forget (ac_state a) = u'"
    using light_step_simulates [OF Cons.prems(1), of "(e, ev)"] l(1)
    by (auto simp: kernel_step_def split: result.splits)
  have texts: "ob = ac_obligations a" "facts = ac_facts a" using light_texts_reduce [OF a(1)] l(2) by simp_all
  have inv: "kernel_inv (ac_state a)" using reduce_inv [OF a(1) Cons.prems(1)] .
  obtain tr t where tr: "run (ac_state a) tr t" "map (\<lambda>y. (fst y, fst (snd y))) tr = is" "kernel_inv t"
    "forget t = v" "list_all entry_fine tr" "concat (map (\<lambda>y. entry_obligations (recorded y)) tr) = os"
    using Cons.IH [OF inv, of os] l(4) a(2) by auto
  have "entry_fine (e, ev, a)" using fine_entry [OF Cons.prems(1) a(1)] l(3) a(2) texts by simp
  then show ?case
    using run_Cons [OF a(1) tr(1)] tr l(5) texts i
    by (intro exI [of _ "(e, ev, a) # tr"] exI [of _ t])
       (simp add: entry_obligations_def recorded_def)
qed

section \<open>Stores\<close>

definition script_disk :: "entry list \<Rightarrow> disk" where
  "script_disk tr =
     \<lparr>dk_genesis = Regular (canonical_json (genesis_root_json demo_genesis)),
      dk_journal = Regular (concat (map (\<lambda>y. canonical_json (replay_entry_json (recorded y))) tr)),
      dk_checkpoint = Absent, dk_effects = Absent\<rparr>"

definition calm_env :: env where
  "calm_env = \<lparr>env_lock = None, env_unreadable = (\<lambda>_ _. False), env_replace = Replaced,
     env_unremoved = False, env_release = True\<rparr>"

lemma calm_calm_env [simp]: "calm calm_env"
  by (simp add: calm_def calm_env_def)

lemma demo_genesis_named: "state_named demo_genesis" "state_is_valid demo_genesis"
  by code_simp+

lemma demo_genesis_plain: "plain (genesis_root_json demo_genesis)"
proof -
  have "plain (state_json demo_genesis)" by code_simp
  moreover have "ascii EMPTY_REPLAY_PREFIX_DIGEST" by (simp add: EMPTY_REPLAY_PREFIX_DIGEST_def ascii_digest)
  ultimately show ?thesis by (simp add: genesis_root_json_def)
qed

lemma demo_genesis_loads:
  "dk_genesis d = Regular (canonical_json (genesis_root_json demo_genesis)) \<Longrightarrow> load_genesis d = Inr demo_genesis"
  using demo_genesis_plain plain_utf8 demo_genesis_ok demo_genesis_named(1) by (intro genesis_loads)

lemma replay_loop_canonical: "replay_loop s ap (map canonical_entry xs) = replay_loop s ap xs"
proof (induction s ap xs rule: replay_loop.induct)
  case (2 s ap x xs)
  have "reduce s (re_event x) (re_evidence (canonical_entry x)) = reduce s (re_event x) (re_evidence x)"
    by (rule reduce_mset) (simp add: canonical_entry_def)
  moreover have "re_event (canonical_entry x) = re_event x" "re_result (canonical_entry x) = re_result x"
    by (simp_all add: canonical_entry_def)
  ultimately show ?case using 2 by (simp split: result.splits)
qed simp

lemma script_entry_well_formed:
  assumes "run g tr t" and "kernel_inv g" and "list_all entry_fine tr"
  shows "list_all (\<lambda>y. entry_well_formed (recorded y)) tr"
  using assms
proof (induction rule: run.induct)
  case (run_Cons s e ev a tr t)
  have inv: "kernel_inv (ac_state a)" using reduce_inv [OF run_Cons.hyps(1) run_Cons.prems(1)] .
  have "has_identity_kind (ac_result a) IK_RESULT"
    using inv reduce_frame(6) [OF run_Cons.hyps(1)]
    by (simp add: kernel_inv_def state_is_valid_def accepted_event_is_valid_def)
  then show ?case
    using run_Cons inv reduce_Accepted_valid [OF run_Cons.hyps(1)]
    by (auto simp: entry_well_formed_def recorded_def entry_fine_def entry_named_def kernel_inv_def
        evidence_set_is_valid_def list_all_iff)
qed simp

lemma script_store:
  assumes "run demo_genesis tr t" and "list_all entry_fine tr"
    and "d = script_disk tr \<or> d = (script_disk tr)\<lparr>dk_checkpoint := n\<rparr>"
  shows "load_genesis d = Inr demo_genesis"
    and "load_entries d = Inr (map canonical_entry (map recorded tr))"
    and "\<exists>full. replay (GenesisRoot demo_genesis) (map canonical_entry (map recorded tr)) None = Inr full \<and>
      rp_state full = t"
proof -
  show "load_genesis d = Inr demo_genesis"
    using assms(3) by (intro demo_genesis_loads) (auto simp: script_disk_def)
  have "encode_lines replay_entry_json (map recorded tr) =
      Inr (concat (map (\<lambda>y. canonical_json (replay_entry_json (recorded y))) tr))"
    using assms(2) by (auto simp: encode_lines_iff list_all_iff entry_fine_def comp_def intro: plain_utf8)
  moreover have "list_all entry_well_formed (map recorded tr)"
    using script_entry_well_formed [OF assms(1) demo_inv assms(2)] by (simp add: list_all_iff)
  ultimately have "load_lines replay_entry_json decode_replay_entry
      (concat (map (\<lambda>y. canonical_json (replay_entry_json (recorded y))) tr)) =
      Inr (map canonical_entry (map recorded tr))"
    using journal.load_written by blast
  then show "load_entries d = Inr (map canonical_entry (map recorded tr))"
    using assms(3) by (auto simp: load_entries_def script_disk_def)
  show "\<exists>full. replay (GenesisRoot demo_genesis) (map canonical_entry (map recorded tr)) None = Inr full \<and>
      rp_state full = t"
    using replay_loop_complete [OF assms(1) describes_recorded, of "[]"] demo_genesis_ok
    by (simp add: replay_genesis_iff replay_loop_canonical del: map_map)
qed

lemma script_store_recovers:
  assumes "run demo_genesis tr t" and "list_all entry_fine tr"
  shows "\<exists>r. load_recovery (script_disk tr) = Inr r \<and> rp_state (rc_replay r) = t \<and>
    rc_entries r = map canonical_entry (map recorded tr)"
proof -
  note s = script_store [OF assms disjI1 [OF refl]]
  have "load_checkpoint (script_disk tr) = Inr None" by (simp add: load_checkpoint_def script_disk_def)
  then show ?thesis using s by (auto simp: load_recovery_iff recover_unlocked_None)
qed

end
