(* ===== verification/Receipt_Store.thy ===== *)
theory Receipt_Store
  imports Store Receipt_Ledger Kernel_Decode
begin

text \<open>
  \<^verbatim>\<open>src/valp_cli/receipt_store.py\<close>: the decoders of the receipt ledger, loading, and the durable
  append of \<^verbatim>\<open>ReceiptStore\<close>. The store's one file is a \<open>node\<close>.
\<close>

section \<open>Decoders\<close>

definition decode_binding :: "json \<Rightarrow> proof_binding res" where
  "decode_binding v =
     bind_res (shape [''proof_kind'', ''proof_ref'', ''proof_digest'', ''subject_digest''] [] v) (\<lambda>_.
     bind_res (item ''proof_kind'' (as_enum proof_kind_value all_proof_kind) v) (\<lambda>k.
     bind_res (item ''proof_ref'' as_str v) (\<lambda>r.
     bind_res (item ''proof_digest'' as_str v) (\<lambda>d.
     bind_res (item ''subject_digest'' as_str v) (\<lambda>s.
       Inr \<lparr>pb_kind = Closed k, pb_ref = r, pb_digest = d, pb_subject = s\<rparr>)))))"

definition decode_approval :: "json \<Rightarrow> approval_binding res" where
  "decode_approval v =
     bind_res (shape [''status'', ''policy_digest'']
                     [''approval_id'', ''approval_ref'', ''approval_digest'', ''action_digest''] v) (\<lambda>_.
     bind_res (item ''status'' as_str v) (\<lambda>s.
     bind_res (item ''policy_digest'' as_str v) (\<lambda>p.
     bind_res (get_item ''approval_id'' as_str v) (\<lambda>i.
     bind_res (get_item ''approval_ref'' as_str v) (\<lambda>r.
     bind_res (get_item ''approval_digest'' as_str v) (\<lambda>d.
     bind_res (get_item ''action_digest'' as_str v) (\<lambda>a.
       Inr \<lparr>ab_status = s, ab_policy_digest = p, ab_id = i, ab_ref = r, ab_digest = d,
            ab_action = a\<rparr>)))))))"

definition decode_migration :: "json \<Rightarrow> migration_binding res" where
  "decode_migration v =
     bind_res (shape [''migration_id'', ''source_schema_version'', ''source_receipt_digest'',
                      ''reconciliation_evidence_digest''] [] v) (\<lambda>_.
     bind_res (item ''migration_id'' as_str v) (\<lambda>i.
     bind_res (item ''source_schema_version'' as_str v) (\<lambda>s.
     bind_res (item ''source_receipt_digest'' as_str v) (\<lambda>d.
     bind_res (item ''reconciliation_evidence_digest'' as_str v) (\<lambda>e.
       Inr \<lparr>mb_id = i, mb_schema = s, mb_source_digest = d, mb_evidence_digest = e\<rparr>)))))"

definition decode_receipt :: "json \<Rightarrow> receipt res" where
  "decode_receipt v =
     bind_res (shape
       [''schema_version'', ''protocol_version'', ''receipt_id'', ''installation_id'', ''leader_epoch'',
        ''task_id'', ''agent'', ''role'', ''work_item_id'', ''attempt_id'', ''dispatch_id'',
        ''dispatch_generation'', ''mode'', ''event_sequence'', ''ledger_revision'', ''event'', ''ts'',
        ''dispatch_ref'', ''payload_digest'', ''expected_refs'', ''proof_bindings'', ''approval_binding'',
        ''prior_receipt_digest'', ''receipt_digest'']
       [''retry_generation'', ''suspension_epoch'', ''migration_binding''] v) (\<lambda>_.
     bind_res (item ''schema_version'' (expect RECEIPT_SCHEMA_VERSION) v) (\<lambda>_.
     bind_res (item ''receipt_id'' as_str v) (\<lambda>x1.
     bind_res (item ''installation_id'' as_str v) (\<lambda>x2.
     bind_res (item ''leader_epoch'' as_int v) (\<lambda>x3.
     bind_res (item ''task_id'' as_str v) (\<lambda>x4.
     bind_res (item ''agent'' as_str v) (\<lambda>x5.
     bind_res (item ''role'' as_str v) (\<lambda>x6.
     bind_res (item ''work_item_id'' as_str v) (\<lambda>x7.
     bind_res (item ''attempt_id'' as_str v) (\<lambda>x8.
     bind_res (item ''dispatch_id'' as_str v) (\<lambda>x9.
     bind_res (item ''dispatch_generation'' as_int v) (\<lambda>x10.
     bind_res (item ''mode'' (as_enum receipt_mode_value all_receipt_mode) v) (\<lambda>x11.
     bind_res (item ''event_sequence'' as_int v) (\<lambda>x12.
     bind_res (item ''ledger_revision'' as_int v) (\<lambda>x13.
     bind_res (item ''prior_receipt_digest'' as_str v) (\<lambda>x14.
     bind_res (item ''event'' as_str v) (\<lambda>x15.
     bind_res (item ''ts'' as_str v) (\<lambda>x16.
     bind_res (item ''dispatch_ref'' as_str v) (\<lambda>x17.
     bind_res (item ''payload_digest'' as_str v) (\<lambda>x18.
     bind_res (item ''expected_refs'' (as_list as_str) v) (\<lambda>x19.
     bind_res (item ''proof_bindings'' (as_list decode_binding) v) (\<lambda>x20.
     bind_res (item ''approval_binding'' decode_approval v) (\<lambda>x21.
     bind_res (get_item ''retry_generation'' as_int v) (\<lambda>x22.
     bind_res (get_item ''suspension_epoch'' as_int v) (\<lambda>x23.
     bind_res (opt_item ''migration_binding'' decode_migration v) (\<lambda>x24.
     bind_res (item ''receipt_digest'' as_str v) (\<lambda>x25.
       Inr \<lparr>rc_draft =
              \<lparr>rd_id = x1, rd_installation = x2, rd_leader_epoch = x3, rd_task = x4, rd_agent = x5,
               rd_role = x6, rd_item = x7, rd_attempt = x8, rd_dispatch = x9, rd_generation = x10,
               rd_mode = Closed x11, rd_sequence = x12, rd_expected_revision = x13 - 1,
               rd_prior = x14, rd_event = x15, rd_ts = x16, rd_dispatch_ref = x17, rd_payload = x18,
               rd_refs = x19, rd_proofs = x20, rd_approval = x21, rd_retry = x22, rd_epoch = x23,
               rd_migration = x24\<rparr>,
            rc_revision = x13, rc_digest = x25\<rparr>)))))))))))))))))))))))))))"

section \<open>The store\<close>

record store_config =
  sc_installation :: string
  sc_leader_epoch :: int
  sc_task :: string

definition ledger_of :: "store_config \<Rightarrow> receipt list \<Rightarrow> ledger" where
  "ledger_of cfg rs =
     \<lparr>ld_installation = sc_installation cfg, ld_leader_epoch = sc_leader_epoch cfg, ld_task = sc_task cfg,
      ld_revision = int (length rs), ld_receipts = rs\<rparr>"

definition empty_ledger :: "store_config \<Rightarrow> ledger" where
  "empty_ledger cfg = ledger_of cfg []"

text \<open>The invariants are tested by proposing the last draft again.\<close>

definition probe_ledger :: "ledger \<Rightarrow> ledger res" where
  "probe_ledger l =
     (if ld_receipts l = [] then Inr l
      else case propose_receipt_append l (rc_draft (last (ld_receipts l))) of
        WriteNoOp _ _ \<Rightarrow> Inr l
      | _ \<Rightarrow> Inl (ValueError ''receipt ledger invariants failed''))"

definition parse_ledger :: "store_config \<Rightarrow> string \<Rightarrow> ledger res" where
  "parse_ledger cfg payload =
     (if payload \<noteq> [] \<and> starts_bom payload
      then Inl (ValueError ''ledger is not canonical LF-terminated UTF-8'')
      else bind_res (load_lines receipt_json decode_receipt payload) (\<lambda>rs. probe_ledger (ledger_of cfg rs)))"

definition load_unlocked :: "store_config \<Rightarrow> node \<Rightarrow> failure + ledger" where
  "load_unlocked cfg n =
     bind_res (ensure_regular n) (\<lambda>_.
       if \<not> exists_path n then Inr (empty_ledger cfg)
       else case bind_res (read_bytes n) (\<lambda>payload. lift_res (parse_ledger cfg payload)) of
         Inr l \<Rightarrow> Inr l
       | Inl (Uncaught _) \<Rightarrow> Inl (StoreError LEDGER_CORRUPT_ERROR REJECTED_OUTCOME)
       | Inl e \<Rightarrow> Inl e)"

text \<open>
  What a call reads of the ledger. The ledger is read only before it is replaced; the status of its
  path is always known.
\<close>

definition seen_ledger :: "env \<Rightarrow> node \<Rightarrow> node" where
  "seen_ledger v n = (case n of Regular _ \<Rightarrow> seen_node (env_unreadable v False Ledger_file) n | _ \<Rightarrow> n)"

definition load_store :: "store_config \<Rightarrow> env \<Rightarrow> node \<Rightarrow> (failure + ledger) \<times> node" where
  "load_store cfg v n = locked v n (look (\<lambda>n. load_unlocked cfg (seen_ledger v n))) n"

text \<open>The argument of an append: the payload of an accepted write.\<close>

record accepted_write =
  aw_ledger :: ledger
  aw_receipt :: receipt
  aw_obligations :: "string list"

definition validate_obligation :: "accepted_write \<Rightarrow> failure + string" where
  "validate_obligation w =
     (let expected = ''append_receipt:'' @ rc_digest (aw_receipt w);
          l = aw_ledger w;
          bad = Inl (StoreError OBLIGATION_ERROR REJECTED_OUTCOME)
      in
      if aw_obligations w \<noteq> [expected] then bad
      else if ld_receipts l = [] \<or> ld_revision l \<noteq> rc_revision (aw_receipt w) \<or>
              last (ld_receipts l) \<noteq> aw_receipt w
      then bad
      else if propose_receipt_append
                (l\<lparr>ld_revision := ld_revision l - 1, ld_receipts := butlast (ld_receipts l)\<rparr>)
                (rc_draft (aw_receipt w)) \<noteq> WriteAccepted l (aw_receipt w) (aw_obligations w)
      then bad
      else Inr expected)"

definition ledger_bytes :: "ledger \<Rightarrow> string res" where
  "ledger_bytes l = encode_lines receipt_json (ld_receipts l)"

text \<open>Here making the temporary file is inside the handler too.\<close>

definition replace_ledger :: "env \<Rightarrow> string \<Rightarrow> (node, unit) io" where
  "replace_ledger v payload =
     replace_node (if env_replace v = Temporary_failed then v\<lparr>env_replace := Write_failed\<rparr> else v)
       (\<lambda>n d. n) payload"

definition store_append_body ::
  "store_config \<Rightarrow> env \<Rightarrow> accepted_write \<Rightarrow> string \<Rightarrow> (node, write_result) io" where
  "store_append_body cfg v w obligation =
     bind_io (look (\<lambda>n. load_unlocked cfg (seen_ledger v n))) (\<lambda>durable.
       let result = propose_receipt_append durable (rc_draft (aw_receipt w));
           bad = fail (StoreError OBLIGATION_ERROR REJECTED_OUTCOME)
       in
       case result of
         WriteNoOp l prior \<Rightarrow>
           if canonical_json (receipt_json prior) \<noteq> canonical_json (receipt_json (aw_receipt w)) then bad
           else ret result
       | WriteRejected l code \<Rightarrow> ret result
       | WriteAccepted l r obs \<Rightarrow>
           if obs \<noteq> [obligation] \<or>
              canonical_json (receipt_json r) \<noteq> canonical_json (receipt_json (aw_receipt w)) \<or>
              l \<noteq> aw_ledger w
           then bad
           else
             bind_io (look (\<lambda>_. lift_res (ledger_bytes l))) (\<lambda>payload.
             bind_io (replace_ledger v payload) (\<lambda>_. ret result)))"

definition store_append ::
  "store_config \<Rightarrow> env \<Rightarrow> accepted_write \<Rightarrow> node \<Rightarrow> (failure + write_result) \<times> node" where
  "store_append cfg v w n =
     (case validate_obligation w of
        Inl e \<Rightarrow> (Inl e, n)
      | Inr obligation \<Rightarrow> locked v n (store_append_body cfg v w obligation) n)"

section \<open>Receipts read back\<close>

definition canonical_draft :: "receipt_draft \<Rightarrow> receipt_draft" where
  "canonical_draft d = d\<lparr>rd_proofs := sorted_proofs (rd_proofs d)\<rparr>"

definition canonical_receipt :: "receipt \<Rightarrow> receipt" where
  "canonical_receipt r = r\<lparr>rc_draft := canonical_draft (rc_draft r)\<rparr>"

lemma sorted_proofs_simps [simp]:
  "sorted_proofs (sorted_proofs bs) = sorted_proofs bs"
  "set (sorted_proofs bs) = set bs"
  "mset (sorted_proofs bs) = mset bs"
  by (simp_all add: sorted_proofs_def sort_key_id_if_sorted)

lemma canonical_draft_fields [simp]:
  "rd_id (canonical_draft d) = rd_id d" "rd_installation (canonical_draft d) = rd_installation d"
  "rd_leader_epoch (canonical_draft d) = rd_leader_epoch d" "rd_task (canonical_draft d) = rd_task d"
  "rd_sequence (canonical_draft d) = rd_sequence d" "rd_prior (canonical_draft d) = rd_prior d"
  "rd_event (canonical_draft d) = rd_event d" "rd_mode (canonical_draft d) = rd_mode d"
  "rd_migration (canonical_draft d) = rd_migration d"
  "logical_key (canonical_draft d) = logical_key d" "migration_id (canonical_draft d) = migration_id d"
  "receipt_subject_digest (canonical_draft d) = receipt_subject_digest d"
  by (simp_all add: canonical_draft_def logical_key_def migration_id_def receipt_subject_digest_def)

lemma canonical_receipt_fields [simp]:
  "rc_draft (canonical_receipt r) = canonical_draft (rc_draft r)"
  "rc_revision (canonical_receipt r) = rc_revision r"
  "rc_digest (canonical_receipt r) = rc_digest r"
  by (simp_all add: canonical_receipt_def)

lemma canonical_receipt_json [simp]:
  "receipt_body_json (canonical_receipt r) = receipt_body_json r"
  "receipt_json (canonical_receipt r) = receipt_json r"
  by (simp_all add: receipt_body_json_def receipt_json_def receipt_entries_def canonical_draft_def Let_def)

lemma distinct_map_mset: "mset xs = mset ys \<Longrightarrow> distinct (map f xs) = distinct (map f ys)"
  by (metis mset_eq_imp_distinct_iff mset_map)

lemma sorted_proofs_same [simp]:
  "sorted_proofs bs = [] \<longleftrightarrow> bs = []"
  "distinct (map f (sorted_proofs bs)) = distinct (map f bs)"
  "distinct (map f (filter P (sorted_proofs bs))) = distinct (map f (filter P bs))"
  using mset_eq_setD [of "sorted_proofs bs" bs] distinct_map_mset [of "sorted_proofs bs" bs f]
    distinct_map_mset [of "filter P (sorted_proofs bs)" "filter P bs" f]
  by (auto simp flip: set_empty)

lemma receipt_valid_canonical [simp]: "receipt_valid (canonical_receipt r) = receipt_valid r"
proof -
  have "receipt_fields_ok (canonical_receipt r) = receipt_fields_ok r"
    by (simp add: receipt_fields_ok_def Let_def list_all_iff) (simp add: canonical_draft_def)
  moreover have "receipt_proofs_ok (canonical_draft (rc_draft r)) = receipt_proofs_ok (rc_draft r)"
    by (simp add: receipt_proofs_ok_def proof_kinds_def Let_def canonical_draft_def)
  ultimately show ?thesis by (simp add: receipt_valid_def)
qed

text \<open>A valid receipt is the one its draft makes, and its text reads back.\<close>

lemma receipt_valid_made: "receipt_valid r \<Longrightarrow> r = make_receipt (rc_draft r)"
  by (cases r) (simp add: receipt_valid_def receipt_fields_ok_def Let_def make_receipt_def
      receipt_body_json_def receipt_entries_def)

lemma decodes_binding: "proof_binding_valid s b \<Longrightarrow> decodes decode_binding proof_binding_json b"
  by (cases "pb_kind b") (simp_all add: decodes_def decode_binding_def proof_binding_json_def decoding
      proof_binding_valid_def proof_kind.enum_of_value)

lemma decodes_approval: "decodes decode_approval approval_binding_json a"
  by (simp add: decodes_def decode_approval_def approval_binding_json_def decoding)

lemma decodes_migration: "decodes decode_migration migration_binding_json m"
  by (simp add: decodes_def decode_migration_def migration_binding_json_def decoding)

lemma decodes_receipt:
  assumes "receipt_valid r"
  shows "decode_receipt (receipt_json r) = Inr (canonical_receipt r)"
proof -
  let ?d = "rc_draft r"
  obtain m where m: "rd_mode ?d = Closed m"
    using assms by (cases "rd_mode ?d") (simp_all add: receipt_valid_def receipt_fields_ok_def Let_def)
  have "list_all (decodes decode_binding proof_binding_json) (sorted_proofs (rd_proofs ?d))"
    using assms by (auto simp: receipt_valid_def receipt_fields_ok_def Let_def list_all_iff intro: decodes_binding)
  moreover have "opt_all (decodes decode_migration migration_binding_json) (rd_migration ?d)"
    by (simp add: opt_all_def decodes_migration split: option.splits)
  moreover have "rc_revision r = rd_expected_revision ?d + 1"
    using assms by (simp add: receipt_valid_def receipt_fields_ok_def Let_def)
  moreover have "decode_approval (approval_binding_json (rd_approval ?d)) = Inr (rd_approval ?d)"
    using decodes_approval by (simp add: decodes_def)
  ultimately show ?thesis
    by (simp add: decode_receipt_def receipt_json_def receipt_entries_def Let_def decoding m
        receipt_mode.enum_of_value canonical_receipt_def canonical_draft_def del: as_list.simps)
qed

lemma keys_once_receipt: "keys_once (receipt_json r)"
  by (simp add: receipt_json_def receipt_entries_def Let_def proof_binding_json_def approval_binding_json_def
      migration_binding_json_def ball_Un image_Un opt_all_def del: map_append split: option.splits)

interpretation receipts: jsonl receipt_json decode_receipt receipt_valid canonical_receipt
proof
  have b: "norm_inv decode_binding" unfolding decode_binding_def by (intro norm_invs)
  have a: "norm_inv decode_approval" unfolding decode_approval_def by (intro norm_invs)
  have m: "norm_inv decode_migration" unfolding decode_migration_def by (intro norm_invs)
  show "norm_inv decode_receipt" unfolding decode_receipt_def by (intro norm_invs a b m)
qed (simp_all add: decodes_receipt keys_once_receipt)

section \<open>Loading\<close>

lemma probe_valid:
  assumes "ledger_valid l" and "ld_receipts l \<noteq> []"
  shows "propose_receipt_append l (rc_draft (last (ld_receipts l))) = WriteNoOp l (last (ld_receipts l))"
proof -
  let ?r = "last (ld_receipts l)"
  have spec: "ledger_spec l" using assms(1) by (rule ledger_valid_spec)
  let ?n = "length (ld_receipts l) - 1"
  have "?n < length (ld_receipts l)" "ld_receipts l ! ?n = ?r"
    using assms(2) by (simp_all add: last_conv_nth)
  then have valid: "receipt_valid ?r"
    using spec unfolding ledger_spec_def receipt_placed_def by metis
  have "distinct (ids_of (ld_receipts l))" using spec by (simp add: ledger_spec_def)
  then have "List.find (\<lambda>x. rd_id (rc_draft x) = rd_id (rc_draft ?r)) (ld_receipts l) = Some ?r"
    using distinct_map_find [of "\<lambda>x. rd_id (rc_draft x)" "ld_receipts l" ?r] assms(2) by simp
  moreover have "is_closed (rd_mode (rc_draft ?r))" "rd_event (rc_draft ?r) \<in> set RECEIPT_EVENTS"
    "list_all (\<lambda>b. is_closed (pb_kind b)) (rd_proofs (rc_draft ?r))"
    using valid by (auto simp: receipt_valid_def receipt_fields_ok_def Let_def list_all_iff proof_binding_valid_def)
  moreover have "make_receipt (rc_draft ?r) = ?r" using receipt_valid_made [OF valid] by simp
  ultimately show ?thesis using assms(1) by (simp add: propose_receipt_append_def Let_def)
qed

lemma probe_ledger_iff:
  "probe_ledger l = Inr l' \<longleftrightarrow> l' = l \<and> (ld_receipts l = [] \<or> ledger_valid l)"
proof (cases "ledger_valid l")
  case True
  then show ?thesis using probe_valid [of l] by (auto simp: probe_ledger_def)
next
  case False
  then show ?thesis by (auto simp: probe_ledger_def propose_receipt_append_def)
qed

lemma load_unlocked_iff:
  "load_unlocked cfg n = Inr l \<longleftrightarrow>
     n = Absent \<and> l = ledger_of cfg [] \<or>
     (\<exists>p rs. n = Regular p \<and> (p \<noteq> [] \<longrightarrow> \<not> starts_bom p) \<and>
        load_lines receipt_json decode_receipt p = Inr rs \<and> l = ledger_of cfg rs \<and>
        (rs = [] \<or> ledger_valid l))"
proof (cases n)
  case (Regular p)
  have "load_unlocked cfg n = Inr l \<longleftrightarrow> parse_ledger cfg p = Inr l"
    by (cases "parse_ledger cfg p") (simp_all add: load_unlocked_def Regular)
  also have "\<dots> \<longleftrightarrow> (p \<noteq> [] \<longrightarrow> \<not> starts_bom p) \<and> (\<exists>rs. load_lines receipt_json decode_receipt p = Inr rs \<and>
      l = ledger_of cfg rs \<and> (rs = [] \<or> ledger_valid l))"
    by (auto simp: parse_ledger_def bind_res_Inr_iff probe_ledger_iff ledger_of_def)
  finally show ?thesis using Regular by auto
qed (auto simp: load_unlocked_def empty_ledger_def)

lemma receipt_line_no_bom: "\<not> starts_bom (canonical_json (receipt_json r) @ p)"
  by (simp add: starts_bom_def canonical_json_def receipt_json_def dumps_show show_json_JObj)

text \<open>After an accepted proposal has been written, the ledger loads with the new receipt at its end.\<close>

lemma appended_loads:
  assumes load: "load_unlocked cfg n = Inr l"
    and acc: "propose_receipt_append l d = WriteAccepted l' r obs" and p: "ledger_bytes l' = Inr p"
  shows "load_unlocked cfg (Regular p) = Inr (ledger_of cfg (ld_receipts l @ [canonical_receipt r])) \<and>
    ledger_valid (ledger_of cfg (ld_receipts l @ [canonical_receipt r]))"
proof -
  note a = append_accepted [OF acc]
  obtain q where q: "load_lines receipt_json decode_receipt q = Inr (ld_receipts l)"
    using load load_lines_Nil by (fastforce simp: load_unlocked_iff ledger_of_def)
  have l: "l = ledger_of cfg (ld_receipts l)" using load by (auto simp: load_unlocked_iff ledger_of_def)
  let ?l = "ledger_of cfg (ld_receipts l @ [canonical_receipt r])"
  have "receipt_placed l (ld_revision l + 1) (prior_of (ld_receipts l)) (canonical_receipt r)"
    using a(5) by (simp add: receipt_placed_def)
  moreover have "receipt_fresh (set (ids_of (ld_receipts l))) (set (keys_of (ld_receipts l)))
      (set (migrations_of (ld_receipts l))) (canonical_receipt r)"
    using a(6) by (simp add: receipt_fresh_def)
  moreover have "ledger_spec (l\<lparr>ld_receipts := ld_receipts l\<rparr>)" "ld_revision l = int (length (ld_receipts l))"
    using a(1) by (simp_all add: ledger_valid_def ledger_loop_spec)
  ultimately have "ledger_spec (l\<lparr>ld_receipts := ld_receipts l @ [canonical_receipt r]\<rparr>)"
    unfolding ledger_spec_snoc by simp
  moreover have "ledger_spec ?l = ledger_spec (l\<lparr>ld_receipts := ld_receipts l @ [canonical_receipt r]\<rparr>)"
    by (subst l) (simp add: ledger_spec_def receipt_placed_def ledger_of_def)
  ultimately have valid: "ledger_valid ?l"
    using a(1) l by (subst (asm) l) (simp add: ledger_valid_def ledger_loop_spec ledger_of_def)
  have "receipt_valid r" using a(5) by (simp add: receipt_placed_def)
  moreover have utf8: "utf8_valid (canonical_json (receipt_json r))" and
    peq: "p = q @ canonical_json (receipt_json r)"
    using p a(4) load_lines_text [OF q] by (simp_all add: ledger_bytes_def encode_lines_iff)
  ultimately have "load_lines receipt_json decode_receipt p = Inr (ld_receipts l @ [canonical_receipt r])"
    using load_lines_snoc [OF q receipts.decode_written] by simp
  moreover have "\<not> starts_bom p"
    using load_lines_text [OF q] receipt_line_no_bom [of r "[]"] receipt_line_no_bom
    by (cases "ld_receipts l") (simp_all add: peq)
  ultimately show ?thesis using valid by (auto simp: load_unlocked_iff)
qed

section \<open>Durable appends\<close>

lemma load_unlocked_seen:
  assumes "load_unlocked cfg n = Inr l"
  obtains "load_unlocked cfg (seen_ledger v n) = Inr l"
  | "load_unlocked cfg (seen_ledger v n) = Inl (StoreError LEDGER_CORRUPT_ERROR REJECTED_OUTCOME)"
  using assms by (cases n; cases "env_unreadable v False Ledger_file")
    (auto simp: seen_ledger_def, auto simp: load_unlocked_def)

lemma store_append_readable_cases:
  assumes load: "load_unlocked cfg (seen_ledger v n) = Inr l"
    and body: "store_append_body cfg v w ob (n, False) = (res, n', b)"
  obtains (no_op) l' r where "res = Inr (WriteNoOp l' r)" and "r \<in> set (ld_receipts l)"
      and "canonical_json (receipt_json r) = canonical_json (receipt_json (aw_receipt w))"
      and "n' = n" and "\<not> b"
  | (rejected) l' code where "res = Inr (WriteRejected l' code)" and "n' = n" and "\<not> b"
  | (failed) e where "res = Inl e" and "honest res b" and "n' = n" and "\<not> b"
  | (committed) r obs p where
      "propose_receipt_append l (rc_draft (aw_receipt w)) = WriteAccepted (aw_ledger w) r obs"
      and "canonical_json (receipt_json r) = canonical_json (receipt_json (aw_receipt w))"
      and "ledger_bytes (aw_ledger w) = Inr p" and "n' = Regular p" and "b"
      and "res = Inr (WriteAccepted (aw_ledger w) r obs) \<or>
           res = Inl (StoreError DURABILITY_UNKNOWN_ERROR UNKNOWN_OR_COMMITTED_OUTCOME)"
proof (cases "propose_receipt_append l (rc_draft (aw_receipt w))")
  case (WriteNoOp l' r)
  let ?same = "canonical_json (receipt_json r) = canonical_json (receipt_json (aw_receipt w))"
  have "r \<in> set (ld_receipts l)"
    using WriteNoOp by (auto simp: propose_receipt_append_def Let_def split: if_splits option.splits
        dest: find_SomeD)
  moreover have "(res, n', b) = (if ?same then Inr (WriteNoOp l' r)
      else Inl (StoreError OBLIGATION_ERROR REJECTED_OUTCOME), n, False)"
    using load body WriteNoOp
    by (cases ?same) (simp_all add: store_append_body_def Let_def)
  ultimately show ?thesis using no_op failed by (cases ?same) simp_all
next
  case (WriteRejected l' code)
  then have "(res, n', b) = (Inr (WriteRejected l' code), n, False)"
    using load body by (simp add: store_append_body_def Let_def)
  then show ?thesis using rejected by simp
next
  case (WriteAccepted l' r obs)
  show ?thesis
  proof (cases "obs \<noteq> [ob] \<or> canonical_json (receipt_json r) \<noteq> canonical_json (receipt_json (aw_receipt w)) \<or>
      l' \<noteq> aw_ledger w")
    case True
    then have "(res, n', b) = (Inl (StoreError OBLIGATION_ERROR REJECTED_OUTCOME), n, False)"
      using load body WriteAccepted by (simp add: store_append_body_def Let_def)
    then show ?thesis using failed by simp
  next
    case same: False
    show ?thesis
    proof (cases "ledger_bytes l'")
      case (Inl e)
      then have "(res, n', b) = (Inl (Uncaught e), n, False)"
        using load body WriteAccepted same by (simp add: store_append_body_def Let_def)
      then show ?thesis using failed by simp
    next
      case (Inr p)
      have "(res, n', b) = bind_io (replace_ledger v p) (\<lambda>_. ret (WriteAccepted l' r obs)) (n, False)"
        using load body WriteAccepted same Inr by (simp add: store_append_body_def Let_def)
      then show ?thesis
        using failed [of "StoreError DURABILITY_PRECOMMIT_ERROR REJECTED_OUTCOME"] committed [of r obs p]
          WriteAccepted same Inr
        by (cases "env_replace v") (simp_all add: replace_ledger_def replace_node_def bind_io_def)
    qed
  qed
qed

lemma store_append_body_cases:
  assumes load: "load_unlocked cfg n = Inr l"
    and body: "store_append_body cfg v w ob (n, False) = (res, n', b)"
  obtains (no_op) l' r where "res = Inr (WriteNoOp l' r)" and "r \<in> set (ld_receipts l)"
      and "canonical_json (receipt_json r) = canonical_json (receipt_json (aw_receipt w))"
      and "n' = n" and "\<not> b"
  | (rejected) l' code where "res = Inr (WriteRejected l' code)" and "n' = n" and "\<not> b"
  | (failed) e where "res = Inl e" and "honest res b" and "n' = n" and "\<not> b"
  | (committed) r obs p where
      "propose_receipt_append l (rc_draft (aw_receipt w)) = WriteAccepted (aw_ledger w) r obs"
      and "canonical_json (receipt_json r) = canonical_json (receipt_json (aw_receipt w))"
      and "ledger_bytes (aw_ledger w) = Inr p" and "n' = Regular p" and "b"
      and "res = Inr (WriteAccepted (aw_ledger w) r obs) \<or>
           res = Inl (StoreError DURABILITY_UNKNOWN_ERROR UNKNOWN_OR_COMMITTED_OUTCOME)"
proof (cases rule: load_unlocked_seen [OF load, of v])
  case 1
  from this body show ?thesis
    by (cases rule: store_append_readable_cases) (rule that, assumption+)+
next
  case 2
  with body have "(res, n', b) = (Inl (StoreError LEDGER_CORRUPT_ERROR REJECTED_OUTCOME), n, False)"
    by (simp add: store_append_body_def)
  then show ?thesis using failed by simp
qed

text \<open>
  C31. Durable receipts. Take a receipt store whose ledger loads, any accepted write handed to it, and
  any behaviour of the operating system. Afterwards the ledger loads again, and it is the old one or
  the old one with one more receipt, which has the text of the receipt handed in, and is then valid.
  An accepted answer is given only when the receipt has been added, and then the texts of the loaded
  receipts are those of the returned ledger; an idempotent answer only when it was there before. An
  error with outcome unknown_or_committed is raised only when the receipt has been added, and every
  other error and answer leaves the file as it was.
\<close>

theorem receipt_append_is_durable:
  assumes "load_unlocked cfg n = Inr l" and "store_append cfg v w n = (res, n')"
  shows "\<exists>l'. load_unlocked cfg n' = Inr l' \<and>
     (n' = n \<or> (ledger_valid l' \<and> (\<exists>r. ld_receipts l' = ld_receipts l @ [r] \<and>
        canonical_json (receipt_json r) = canonical_json (receipt_json (aw_receipt w))))) \<and>
     (case res of
        Inr (WriteAccepted l'' r obs) \<Rightarrow>
          length (ld_receipts l') = Suc (length (ld_receipts l)) \<and>
          map (\<lambda>x. canonical_json (receipt_json x)) (ld_receipts l') =
            map (\<lambda>x. canonical_json (receipt_json x)) (ld_receipts l'')
      | Inr (WriteNoOp l'' r) \<Rightarrow> n' = n \<and> r \<in> set (ld_receipts l) \<and>
          canonical_json (receipt_json r) = canonical_json (receipt_json (aw_receipt w))
      | Inl (StoreError code UNKNOWN_OR_COMMITTED_OUTCOME) \<Rightarrow>
          length (ld_receipts l') = Suc (length (ld_receipts l))
      | _ \<Rightarrow> n' = n)"
proof (cases "validate_obligation w")
  case (Inl e)
  then have "e = StoreError OBLIGATION_ERROR REJECTED_OUTCOME"
    by (simp add: validate_obligation_def Let_def split: if_splits)
  with Inl assms(2) have "res = Inl (StoreError OBLIGATION_ERROR REJECTED_OUTCOME)" "n' = n"
    by (simp_all add: store_append_def)
  with assms(1) show ?thesis by simp
next
  case (Inr ob)
  let ?body = "store_append_body cfg v w ob"
  have run: "locked v n ?body n = (res, n')" using assms(2) Inr by (simp add: store_append_def)
  have added: ?thesis
    if c: "propose_receipt_append l (rc_draft (aw_receipt w)) = WriteAccepted (aw_ledger w) r obs"
      "canonical_json (receipt_json r) = canonical_json (receipt_json (aw_receipt w))"
      "ledger_bytes (aw_ledger w) = Inr p" "n' = Regular p"
      "res = Inr (WriteAccepted (aw_ledger w) r obs) \<or>
       res = Inl (StoreError DURABILITY_UNKNOWN_ERROR UNKNOWN_OR_COMMITTED_OUTCOME)" for r obs p
    using appended_loads [OF assms(1) c(1,3)] append_accepted(4) [OF c(1)] c(2,4,5)
    by (intro exI [of _ "ledger_of cfg (ld_receipts l @ [canonical_receipt r])"])
       (auto simp: ledger_of_def)
  from run show ?thesis
  proof (cases rule: locked_cases)
    case (refused c)
    with assms(1) show ?thesis by simp
  next
    case (ran b)
    from assms(1) ran show ?thesis
    proof (cases rule: store_append_body_cases)
      case (failed e)
      with assms(1) show ?thesis by (cases e) (auto split: outcome.splits)
    next
      case (committed r obs p)
      then show ?thesis by (intro added)
    qed (use assms(1) in auto)
  next
    case (unreleased x b)
    from assms(1) unreleased(1) show ?thesis
    proof (cases rule: store_append_body_cases)
      case (committed r obs p)
      then show ?thesis using unreleased(2) by (intro added [OF committed(1-4)]) simp
    qed (use assms(1) unreleased(2) in auto)
  qed
qed

end
