(* ===== verification/Store_Witnesses.thy ===== *)
theory Store_Witnesses
  imports Store_Examples Receipt_Store Receipt_Witnesses
begin

text \<open>
  The properties of the stores applied to concrete stores: one that holds only the genesis of the
  demonstration task, one whose journal ends with a cancellation that owes an adapter call, and an
  empty receipt store.
\<close>

section \<open>The scripts\<close>

definition start_script :: "(event \<times> evidence list) list" where
  "start_script = [(demo_event 0 EK_ROUTING_VALIDATION_STARTED, [])]"

definition stop_event :: "nat \<Rightarrow> event" where
  "stop_event n = (demo_control n EK_TASK_CANCELLED)\<lparr>ev_scope := Some (Closed SC_TASK)\<rparr>"

definition cancel_script :: "(event \<times> evidence list) list" where
  "cancel_script =
     [((demo_event 0 EK_WORK_ITEM_ELIGIBLE)\<lparr>ev_item := Some item_A\<rparr>, []),
      (demo_attempt 1 EK_ATTEMPT_CREATED, []), (demo_attempt 2 EK_ATTEMPT_SUBMITTED, []),
      (stop_event 3, demo_evidence)]"

lemma start_light: "light_script (forget demo_genesis) start_script \<noteq> None"
  by code_simp

definition owed :: string where
  "owed = adapter_cancel_obligation \<lparr>at_task = Identity IK_TASK ''t'', at_item = item_A,
     at_id = Identity IK_ATTEMPT ''a'', at_dispatch = Identity IK_DISPATCH ''d'', at_generation = 0,
     at_status = AS_SUBMITTED\<rparr>"

lemma cancel_light:
  "case light_script (forget demo_genesis) cancel_script of None \<Rightarrow> False | Some (u, obs) \<Rightarrow> obs = [owed]"
  by code_simp

lemma start_run:
  obtains a where "reduce demo_genesis (demo_event 0 EK_ROUTING_VALIDATION_STARTED) [] = Accepted a"
    and "entry_fine (demo_event 0 EK_ROUTING_VALIDATION_STARTED, [], a)"
proof -
  obtain v obs where "light_script (forget demo_genesis) start_script = Some (v, obs)"
    using start_light by auto
  from light_script_run [OF demo_inv this] obtain tr t where tr: "run demo_genesis tr t"
    "map (\<lambda>y. (fst y, fst (snd y))) tr = start_script" "list_all entry_fine tr" by blast
  from run_inputs_Cons [OF tr(1) tr(2) [unfolded start_script_def]] tr(3) that show ?thesis
    by (metis list.pred_inject(2))
qed

lemma cancel_run:
  obtains tr t where "run demo_genesis tr t" and "list_all entry_fine tr"
    and "concat (map (\<lambda>y. entry_obligations (recorded y)) tr) = [owed]"
proof -
  obtain v obs where "light_script (forget demo_genesis) cancel_script = Some (v, obs)" "obs = [owed]"
    using cancel_light by (auto split: option.splits)
  with light_script_run [OF demo_inv] that show ?thesis by blast
qed

section \<open>Journal\<close>

abbreviation first_event :: event where
  "first_event \<equiv> demo_event 0 EK_ROUTING_VALIDATION_STARTED"

definition unsynced_env :: env where
  "unsynced_env = calm_env\<lparr>env_replace := Replaced_unsynced\<rparr>"

lemma empty_store:
  obtains r where "load_recovery (script_disk []) = Inr r" and "rp_state (rc_replay r) = demo_genesis"
    and "rc_entries r = []"
  using script_store_recovers [OF run_Nil] by auto

theorem append_atomic_and_honest_witness:
  "\<exists>x res d' new. append_entry unsynced_env x (script_disk []) = (res, d') \<and> load_recovery d' = Inr new \<and>
     (d' = script_disk [] \<or> (\<exists>y. json_eq (replay_entry_json y) (replay_entry_json x) \<and> rc_entries new = [y])) \<and>
     (\<forall>e. res \<noteq> Inl (Uncaught e))"
proof -
  obtain a where a: "entry_fine (first_event, [], a)" by (rule start_run)
  obtain old where old: "load_recovery (script_disk []) = Inr old" "rc_entries old = []"
    by (rule empty_store)
  let ?x = "recorded (first_event, [], a)"
  obtain res d' where res: "append_entry unsynced_env ?x (script_disk []) = (res, d')"
    by (cases "append_entry unsynced_env ?x (script_disk [])")
  have "entry_named ?x" using a by (simp add: entry_fine_def)
  from append_atomic_and_honest [OF old(1) this res] old(2) res show ?thesis
    by (intro exI [of _ ?x] exI [of _ res] exI [of _ d']) auto
qed

theorem append_takes_next_step_witness:
  "\<exists>a r d' new. reduce demo_genesis first_event [] = Accepted a \<and>
     append_entry calm_env (recorded (first_event, [], a)) (script_disk []) = (Inr r, d') \<and>
     recover calm_env d' = (Inr new, d') \<and> rp_state (rc_replay new) = ac_state a \<and>
     length (rc_entries new) = 1"
proof -
  obtain a where a: "reduce demo_genesis first_event [] = Accepted a" "entry_fine (first_event, [], a)"
    by (rule start_run)
  obtain old where old: "load_recovery (script_disk []) = Inr old" "rp_state (rc_replay old) = demo_genesis"
    "rc_entries old = []" by (rule empty_store)
  have "entry_named (recorded (first_event, [], a))"
    "utf8_valid (canonical_json (replay_entry_json (recorded (first_event, [], a))))"
    using a(2) plain_utf8 by (simp_all add: entry_fine_def)
  from append_takes_next_step [OF old(1) _ this calm_calm_env] a(1) old(2,3) show ?thesis by auto
qed

definition late_env :: env where
  "late_env = calm_env\<lparr>env_unreadable := (\<lambda>replaced f. replaced \<and> f = Checkpoint_file)\<rparr>"

theorem append_rejects_after_commit_witness:
  "\<exists>x d' code. append_entry late_env x (script_disk []) = (Inl (StoreError code REJECTED_OUTCOME), d') \<and>
     dk_journal d' \<noteq> dk_journal (script_disk [])"
proof -
  let ?d = "script_disk []"
  obtain a where a: "reduce demo_genesis first_event [] = Accepted a" "entry_fine (first_event, [], a)"
    by (rule start_run)
  obtain full where s: "load_genesis ?d = Inr demo_genesis" "load_entries ?d = Inr []"
    and full: "replay (GenesisRoot demo_genesis) [] None = Inr full" "rp_state full = demo_genesis"
    using script_store [OF run_Nil, where d = ?d] by auto
  have "late_fault late_env" "reaches_commit late_env"
    by (simp_all add: late_fault_def reaches_commit_def late_env_def calm_env_def)
  moreover have "utf8_valid (canonical_json (replay_entry_json (recorded (first_event, [], a))))"
    using a(2) plain_utf8 by (simp add: entry_fine_def)
  ultimately obtain p code where "dk_journal ?d \<noteq> Regular p"
    "append_entry late_env (recorded (first_event, [], a)) ?d =
      (Inl (StoreError code REJECTED_OUTCOME), ?d\<lparr>dk_journal := Regular p\<rparr>)"
    using append_rejects_after_commit [OF s(1,2) full(1), of first_event "[]" a late_env] a(1) full(2) by auto
  then show ?thesis by (metis disk.select_convs(2) disk.surjective disk.update_convs(2))
qed

section \<open>Checkpoints\<close>

definition store_policy :: trust_policy where
  "store_policy = \<lparr>tp_ids = [Identity IK_EVIDENCE ''c'']\<rparr>"

text \<open>The checkpoint after the first entry of the journal, and what vouches for it.\<close>

definition store_checkpoint :: "accepted \<Rightarrow> checkpoint_root" where
  "store_checkpoint a = \<lparr>cp_state = ac_state a, cp_count = 1,
     cp_prefix = digest (prefix_value [recorded (first_event, [], a)]), cp_tail_event = ev_id first_event,
     cp_tail_result = ac_result a, cp_tail_digest = ac_result_digest a, cp_result = ac_result a,
     cp_policy_digest = trust_policy_digest store_policy\<rparr>"

definition store_authentication :: "accepted \<Rightarrow> checkpoint_authentication" where
  "store_authentication a = \<lparr>au_result = Accepted a,
     au_evidence = [\<lparr>evd_id = Identity IK_EVIDENCE ''c'',
       evd_digest = statement_digest_for (store_checkpoint a) (Accepted a) store_policy\<rparr>],
     au_policy = store_policy\<rparr>"

lemma store_checkpoint_valid:
  assumes "reduce demo_genesis first_event [] = Accepted a"
  shows "checkpoint_authentication_is_valid (store_checkpoint a) (Some (store_authentication a))"
proof -
  have v: "state_is_valid (ac_state a)" using reduce_inv [OF assms demo_inv] by (simp add: kernel_inv_def)
  have acc: "st_accepted (ac_state a) = [\<lparr>ae_event = ev_id first_event, ae_result = ac_result a,
      ae_input_digest = input_digest demo_genesis first_event [], ae_result_digest = ac_result_digest a\<rparr>]"
    using reduce_frame(6) [OF assms] by (simp add: demo_genesis_def)
  have "checkpoint_root_is_valid (store_checkpoint a)"
    using v acc
    by (simp add: checkpoint_root_is_valid_def store_checkpoint_def state_is_valid_def
        accepted_event_is_valid_def trust_policy_digest_def)
  then show ?thesis
    by (simp add: checkpoint_authentication_is_valid_def store_authentication_def store_policy_def
        store_checkpoint_def evidence_set_is_valid_def has_identity_kind_def Identity_def
        statement_digest_for_def)
qed

theorem checkpoint_keeps_recovery_witness:
  "\<exists>a d' new. reduce demo_genesis first_event [] = Accepted a \<and>
     persist_checkpoint calm_env (store_checkpoint a) (store_authentication a)
       (script_disk [(first_event, [], a)]) = (Inr (), d') \<and>
     load_recovery d' = Inr new \<and> rp_state (rc_replay new) = ac_state a \<and> rc_used_checkpoint new"
proof -
  obtain a where a: "reduce demo_genesis first_event [] = Accepted a" "entry_fine (first_event, [], a)"
    by (rule start_run)
  let ?d = "script_disk [(first_event, [], a)]" and ?c = "store_checkpoint a" and ?u = "store_authentication a"
  let ?x = "recorded (first_event, [], a)"
  have run: "run demo_genesis [(first_event, [], a)] (ac_state a)" by (rule run_Cons [OF a(1) run_Nil])
  have canon: "canonical_entry ?x = ?x" by (simp add: canonical_entry_def recorded_def)
  obtain old where old: "load_recovery ?d = Inr old" "rp_state (rc_replay old) = ac_state a"
    using script_store_recovers [OF run] a(2) by auto
  obtain full where s: "load_genesis ?d = Inr demo_genesis" "load_entries ?d = Inr [?x]"
    "replay (GenesisRoot demo_genesis) [?x] None = Inr full" "rp_state full = ac_state a"
    using script_store [OF run, where d = ?d] a(2) by (auto simp: canon)
  have valid: "checkpoint_authentication_is_valid ?c (Some ?u)" by (rule store_checkpoint_valid [OF a(1)])
  have named: "root_named ?c" "authentication_made ?u"
    using a(2) unfolding entry_fine_def entry_named_def recorded_def
    by (simp_all add: root_named_def store_checkpoint_def authentication_made_def store_authentication_def
        store_policy_def policy_made_def make_trust_policy_def has_identity_kind_def Identity_def named_def
        event_named_def)
  have "plain (event_json first_event)" "plain (result_json (Accepted a))"
    using a(2) by (simp_all add: entry_fine_def recorded_def replay_entry_json_def)
  moreover have "plain (trust_policy_json store_policy)" by code_simp
  moreover have "plain (identity_json (Identity IK_EVIDENCE ''c''))" by code_simp
  ultimately have plain: "plain (checkpoint_envelope_json ?c ?u)"
    by (simp add: checkpoint_envelope_json_def checkpoint_root_json_def checkpoint_authentication_json_def
        store_checkpoint_def store_authentication_def accepted_json_def evidence_json_def
        canonical_evidence_def ascii_digest trust_policy_digest_def statement_digest_for_def event_json_def)
  have "check_prefix demo_genesis ?c [?x] = Inr full"
    using s(3,4)
    by (simp add: check_prefix_iff store_checkpoint_def replay_prefix_digest_def recorded_def)
  moreover have "\<exists>r. replay (CheckpointRoot ?c) [] (Some ?u) = Inr r"
    using valid by (simp add: replay_checkpoint_iff)
  moreover have "canonical_json (checkpoint_envelope_json ?c ?u) \<noteq> []" by (simp add: canonical_json_def)
  ultimately have "persist_checkpoint_body calm_env ?c ?u (?d, False) =
      (Inr (), ?d\<lparr>dk_checkpoint := Regular (canonical_json (checkpoint_envelope_json ?c ?u))\<rparr>, True)"
    using s plain_utf8 [OF plain]
    by (auto simp: persist_checkpoint_body_def encode_utf8_def replace_kernel_calm script_disk_def)
       (auto simp: calm_env_def)
  then have done_: "persist_checkpoint calm_env ?c ?u ?d =
      (Inr (), ?d\<lparr>dk_checkpoint := Regular (canonical_json (checkpoint_envelope_json ?c ?u))\<rparr>)"
    unfolding persist_checkpoint_def
    by (subst locked_calm [where body = "persist_checkpoint_body calm_env ?c ?u"])
       (auto simp: script_disk_def)
  from checkpoint_keeps_recovery [OF old(1) named done_] a(1) old(2) done_ show ?thesis by auto
qed

theorem recovery_trusts_only_the_journal_witness:
  "\<exists>d r g xs full. recover calm_env d = (Inr r, d) \<and> rc_used_checkpoint r \<and> load_genesis d = Inr g \<and>
     load_entries d = Inr xs \<and> replay (GenesisRoot g) xs None = Inr full \<and> recovers_to d g xs full r"
proof -
  obtain d r where r: "load_recovery d = Inr r" "rc_used_checkpoint r"
    using checkpoint_keeps_recovery_witness by blast
  have answer: "recover calm_env d = (Inr r, d)" by (rule recover_calm [OF calm_calm_env r(1)])
  then show ?thesis
    using iffD1 [OF recovery_trusts_only_the_journal [OF calm_calm_env] answer] r(2) by blast
qed

section \<open>Effects\<close>

text \<open>The store whose journal owes one adapter call, and an empty effect ledger.\<close>

lemma owing_store:
  obtains tr t r where "run demo_genesis tr t" and "load_recovery (script_disk tr) = Inr r"
    and "accepted_obligations (rc_entries r) = [owed]" and "load_effects (script_disk tr) = Inr []"
proof -
  obtain tr t where tr: "run demo_genesis tr t" "list_all entry_fine tr"
    "concat (map (\<lambda>y. entry_obligations (recorded y)) tr) = [owed]" by (rule cancel_run)
  obtain r where r: "load_recovery (script_disk tr) = Inr r" "rc_entries r = map canonical_entry (map recorded tr)"
    using script_store_recovers [OF tr(1,2)] by auto
  have "entry_obligations (canonical_entry x) = entry_obligations x" for x
    by (simp add: entry_obligations_def canonical_entry_def)
  then have "accepted_obligations (rc_entries r) = [owed]"
    using tr(3) by (simp add: r(2) accepted_obligations_def comp_def)
  moreover have "load_effects (script_disk tr) = Inr []" by (simp add: load_effects_def script_disk_def)
  ultimately show ?thesis using tr(1) r(1) that by blast
qed

theorem reconciliation_partitions_obligations_witness:
  "\<exists>tr t rn. run demo_genesis tr t \<and> reconcile_effects calm_env None (script_disk tr) = (Inr rn, script_disk tr) \<and>
     mset (rn_pending rn @ map er_obligation (rn_fulfilled rn) @ map er_obligation (rn_blocked rn)) = {#owed#}"
proof -
  obtain tr t r where s: "run demo_genesis tr t" "load_recovery (script_disk tr) = Inr r"
    "accepted_obligations (rc_entries r) = [owed]" "load_effects (script_disk tr) = Inr []"
    by (rule owing_store)
  let ?d = "script_disk tr"
  obtain rn where rn: "load_reconciliation None ?d = Inr rn"
    using s(2,4) by (auto simp: load_reconciliation_def reconcile_effects_unlocked_def validate_effect_proofs_def Let_def)
  have "locked calm_env (dk_journal ?d) (reading_disk calm_env (load_reconciliation None)) ?d = (Inr rn, ?d)"
    using rn by (intro locked_calm [OF calm_calm_env, where b = False]) (simp_all add: script_disk_def calm_env_def)
  then have answer: "reconcile_effects calm_env None ?d = (Inr rn, ?d)" by (simp add: reconcile_effects_def)
  have xs: "load_entries ?d = Inr (rc_entries r)"
    using s(2) recover_unlocked_state by (fastforce simp: load_recovery_iff)
  from reconciliation_partitions_obligations [OF answer] xs s(3)
  have "mset (rn_pending rn @ map er_obligation (rn_fulfilled rn) @ map er_obligation (rn_blocked rn)) = {#owed#}"
    by auto
  with s(1) answer show ?thesis by blast
qed

theorem effect_recorded_at_most_once_witness:
  "\<exists>tr t r d'. run demo_genesis tr t \<and>
     record_effect calm_env None owed EF_FULFILLED ''proof'' no_digest (script_disk tr) = (Inr r, d') \<and>
     load_effects d' = Inr [r] \<and> er_obligation r = owed"
proof -
  obtain tr t rec where s: "run demo_genesis tr t" "load_recovery (script_disk tr) = Inr rec"
    "accepted_obligations (rc_entries rec) = [owed]" "load_effects (script_disk tr) = Inr []"
    by (rule owing_store)
  let ?d = "script_disk tr" and ?r = "make_effect [] owed EF_FULFILLED ''proof'' no_digest"
  have "ascii owed" by code_simp
  then have "plain (effect_record_json ?r)"
    by (simp add: make_effect_def Let_def effect_record_json_def effect_entries_def ascii_digest effect_id_def
        EMPTY_EFFECT_LEDGER_DIGEST_def)
  then have bytes: "encode_lines effect_record_json [?r] = Inr (canonical_json (effect_record_json ?r))"
    by (simp add: encode_lines_iff plain_utf8)
  then have "record_effect_body calm_env owed EF_FULFILLED ''proof'' no_digest (?d, False) =
      (Inr ?r, ?d\<lparr>dk_effects := Regular (canonical_json (effect_record_json ?r))\<rparr>, True)"
    using s(2-4)
    by (simp add: record_effect_body_def Let_def replace_effects_def replace_kernel_def replace_node_def
        calm_env_def bind_io_def)
  then have "locked calm_env (dk_journal ?d) (record_effect_body calm_env owed EF_FULFILLED ''proof'' no_digest) ?d =
      (Inr ?r, ?d\<lparr>dk_effects := Regular (canonical_json (effect_record_json ?r))\<rparr>)"
    by (intro locked_calm) (auto simp: script_disk_def)
  moreover have "check_effect_request None owed ''proof'' no_digest = Inr ()" by code_simp
  ultimately have answer: "record_effect calm_env None owed EF_FULFILLED ''proof'' no_digest ?d =
      (Inr ?r, ?d\<lparr>dk_effects := Regular (canonical_json (effect_record_json ?r))\<rparr>)"
    by (simp add: record_effect_def)
  have "?d\<lparr>dk_effects := Regular (canonical_json (effect_record_json ?r))\<rparr> \<noteq> ?d"
    by (simp add: script_disk_def)
  with effect_recorded_at_most_once [OF s(2,4) answer] s(1) answer show ?thesis by auto
qed

section \<open>Receipts\<close>

definition receipt_config :: store_config where
  "receipt_config = \<lparr>sc_installation = ''i'', sc_leader_epoch = 0, sc_task = ''t''\<rparr>"

definition submission :: accepted_write where
  "submission = \<lparr>aw_ledger = ledger_1, aw_receipt = make_receipt submitted,
     aw_obligations = [''append_receipt:'' @ rc_digest (make_receipt submitted)]\<rparr>"

theorem receipt_append_is_durable_witness:
  "\<exists>r n' l'. store_append receipt_config calm_env submission Absent = (Inr r, n') \<and>
     load_unlocked receipt_config n' = Inr l' \<and> ledger_valid l' \<and> length (ld_receipts l') = 1"
proof -
  have empty: "load_unlocked receipt_config Absent = Inr ledger_0"
    by (simp add: load_unlocked_def empty_ledger_def ledger_of_def receipt_config_def ledger_0_def)
  have "plain (JObj (receipt_entries (make_receipt submitted)))"
    by (simp add: receipt_entries_def make_receipt_def submitted_def proven_def bare_draft_def ascii_digest
        EMPTY_RECEIPT_LEDGER_DIGEST_def RECEIPT_SCHEMA_VERSION_def receipt_protocol_version_def
        proof_binding_json_def approval_binding_json_def receipt_subject_digest_def ball_Un)
  then have plain: "plain (receipt_json (make_receipt submitted))"
    by (simp add: receipt_json_def ascii_digest ball_Un)
  have submitted_revision: "rd_expected_revision submitted = 0"
    by (simp add: submitted_def proven_def bare_draft_def)
  have ok: "validate_obligation submission = Inr (''append_receipt:'' @ rc_digest (make_receipt submitted))"
    using append_submitted submitted_revision
    by (simp add: validate_obligation_def submission_def Let_def ledger_1_def ledger_0_def)
  have body: "store_append_body receipt_config calm_env submission
      (''append_receipt:'' @ rc_digest (make_receipt submitted)) (Absent, False) =
      (Inr (WriteAccepted ledger_1 (make_receipt submitted)
         [''append_receipt:'' @ rc_digest (make_receipt submitted)]),
       Regular (canonical_json (receipt_json (make_receipt submitted))), True)"
    using empty append_submitted plain_utf8 [OF plain]
    by (simp add: store_append_body_def submission_def Let_def ledger_bytes_def encode_lines_def
        encode_utf8_def ledger_1_def replace_ledger_def replace_node_def calm_env_def bind_io_def seen_ledger_def)
  have answer: "store_append receipt_config calm_env submission Absent =
      (Inr (WriteAccepted ledger_1 (make_receipt submitted)
         [''append_receipt:'' @ rc_digest (make_receipt submitted)]),
       Regular (canonical_json (receipt_json (make_receipt submitted))))"
    using locked_calm [where body = "store_append_body receipt_config calm_env submission
        (''append_receipt:'' @ rc_digest (make_receipt submitted))", OF calm_calm_env _ body] ok
    by (simp add: store_append_def)
  from receipt_append_is_durable [OF empty answer] answer show ?thesis
    by (auto simp: ledger_0_def)
qed

end
