(* ===== verification/Control_Plane.thy ===== *)
theory Control_Plane
  imports Py_Values
begin

text \<open>
  The installation core of \<^verbatim>\<open>src/valp_cli/control_plane.py\<close>: the files of an installation, the
  transition contract, a transition with its write-ahead journal, recovery and replay.

  Documents are JSON objects, as Python holds them after \<^verbatim>\<open>json.loads\<close>. Every write of a document
  replaces a file in one step (\<^verbatim>\<open>write_json\<close>, \<^verbatim>\<open>append_jsonl_atomic\<close>), so the writes of an operation
  form a sequence that a crash or an error of the operating system can cut at any point: an operation
  takes the number of writes that still succeed, and the next one raises \<open>Crash\<close>. Identifiers and
  times that the source takes from the system are inputs.
\<close>

section \<open>Tables\<close>

definition INSTALLATION_STATUS :: "string list" where
  "INSTALLATION_STATUS =
     [''uninitialized'', ''bootstrapping'', ''discovering_leader_candidates'',
      ''awaiting_leader_selection'', ''awaiting_leader_start'', ''activating_leader'', ''active'',
      ''restarting_leader'', ''reconciling_capabilities'', ''rotating_leader'', ''migrating'',
      ''rollback_required'', ''degraded'', ''blocked'', ''retired'']"

definition LEGAL_TRANSITIONS :: "(string \<times> string list) list" where
  "LEGAL_TRANSITIONS =
     [(''uninitialized'', [''bootstrapping'']),
      (''bootstrapping'', [''discovering_leader_candidates'', ''blocked'']),
      (''discovering_leader_candidates'', [''awaiting_leader_selection'', ''blocked'']),
      (''awaiting_leader_selection'',
        [''discovering_leader_candidates'', ''awaiting_leader_start'', ''blocked'']),
      (''awaiting_leader_start'', [''activating_leader'', ''blocked'']),
      (''activating_leader'', [''active'', ''blocked'']),
      (''active'',
        [''restarting_leader'', ''reconciling_capabilities'', ''migrating'', ''rotating_leader'',
         ''degraded'', ''blocked'', ''retired'']),
      (''restarting_leader'', [''active'', ''blocked'']),
      (''reconciling_capabilities'', [''active'', ''degraded'', ''blocked'']),
      (''rotating_leader'', [''active'', ''blocked'']),
      (''migrating'', [''active'', ''rollback_required'', ''blocked'']),
      (''rollback_required'', [''active'', ''blocked'']),
      (''degraded'',
        [''reconciling_capabilities'', ''rotating_leader'', ''migrating'', ''blocked'', ''retired'']),
      (''blocked'', [''activating_leader'', ''active'', ''retired'']),
      (''retired'', [])]"

definition BOOTSTRAP_READ_ONLY_KINDS :: "string list" where
  "BOOTSTRAP_READ_ONLY_KINDS =
     [''query.bootstrap.hello'', ''query.bootstrap.candidates'',
      ''command.bootstrap.discover_candidates'', ''result.bootstrap.discovery'']"

definition BOOTSTRAP_CORE_KINDS :: "string list" where
  "BOOTSTRAP_CORE_KINDS =
     BOOTSTRAP_READ_ONLY_KINDS @
     [''command.installation.init'', ''command.leader.select'', ''command.leader.start'',
      ''command.leader.recover_start'', ''event.leader.activated'', ''result.leader.activation_failed'']"

definition TRANSITION_CONTRACTS :: "(string \<times> string \<times> string) list" where
  "TRANSITION_CONTRACTS =
     [(''installation_initialized'', ''command.installation.init'', ''bootstrap-controller''),
      (''bootstrap_discovery_started'', ''command.bootstrap.discover_candidates'', ''bootstrap-controller''),
      (''leader_candidate_discovery_completed'', ''result.bootstrap.discovery'', ''bootstrap-controller''),
      (''leader_selection_approved'', ''command.leader.select'', ''human''),
      (''leader_start_requested'', ''command.leader.start'', ''bootstrap-controller''),
      (''leader_start_recovery_approved'', ''command.leader.recover_start'', ''human''),
      (''leader_restart_requested'', ''command.leader.restart'', ''human''),
      (''leader_restart_rolled_back'', ''result.leader.restart_rolled_back'', ''runtime-adapter''),
      (''leader_activation_failed'', ''result.leader.activation_failed'', ''runtime-adapter''),
      (''leader_health_failed'', ''result.leader.health_failed'', ''runtime-adapter''),
      (''leader_activated'', ''event.leader.activated'', ''bootstrap-controller''),
      (''leader_rotation_approved'', ''command.leader.rotate'', ''human''),
      (''emergency_leader_rotation_approved'', ''command.leader.rotate_emergency'', ''human''),
      (''leader_rotation_completed'', ''event.leader.rotation_completed'', ''bootstrap-controller''),
      (''capability_reconciliation_started'', ''command.capabilities.reconcile'', ''installation-leader''),
      (''capability_reconciliation_completed'', ''result.capabilities.reconcile'', ''installation-leader''),
      (''migration_apply_approved'', ''command.protocol.migrate'', ''human''),
      (''migration_activated'', ''event.protocol.migration.activated'', ''bootstrap-controller''),
      (''migration_rolled_back'', ''event.protocol.migration.rolled_back'', ''bootstrap-controller''),
      (''migration_unrecoverable'', ''event.protocol.migration.blocked'', ''bootstrap-controller'')]"

definition TRANSITION_TARGETS :: "(string \<times> string) list" where
  "TRANSITION_TARGETS =
     [(''installation_initialized'', ''bootstrapping''),
      (''bootstrap_discovery_started'', ''discovering_leader_candidates''),
      (''leader_candidate_discovery_completed'', ''awaiting_leader_selection''),
      (''leader_selection_approved'', ''awaiting_leader_start''),
      (''leader_start_requested'', ''activating_leader''),
      (''leader_start_recovery_approved'', ''activating_leader''),
      (''leader_restart_requested'', ''restarting_leader''),
      (''leader_restart_rolled_back'', ''active''),
      (''leader_activation_failed'', ''blocked''),
      (''leader_health_failed'', ''degraded''),
      (''leader_activated'', ''active''),
      (''leader_rotation_approved'', ''rotating_leader''),
      (''emergency_leader_rotation_approved'', ''rotating_leader''),
      (''leader_rotation_completed'', ''active''),
      (''capability_reconciliation_started'', ''reconciling_capabilities''),
      (''capability_reconciliation_completed'', ''active''),
      (''migration_apply_approved'', ''migrating''),
      (''migration_activated'', ''active''),
      (''migration_rolled_back'', ''active''),
      (''migration_unrecoverable'', ''blocked'')]"

definition TRANSITION_PAYLOAD_STATE_FIELDS :: "(string \<times> string list) list" where
  "TRANSITION_PAYLOAD_STATE_FIELDS =
     [(''leader_selection_approved'', [''selected_leader'']),
      (''leader_activated'', [''active_leader'', ''active_leader_epoch'']),
      (''leader_rotation_approved'', [''selected_leader'']),
      (''emergency_leader_rotation_approved'', [''selected_leader'']),
      (''leader_rotation_completed'', [''active_leader'', ''active_leader_epoch'']),
      (''capability_reconciliation_completed'', [''registry_revision''])]"

text \<open>\<^verbatim>\<open>TABLE.get(key, set())\<close>.\<close>

definition row :: "(string \<times> 'a list) list \<Rightarrow> string \<Rightarrow> 'a list" where
  "row table k = (case map_of table k of None \<Rightarrow> [] | Some xs \<Rightarrow> xs)"

section \<open>Errors\<close>

text \<open>Code, message and state effect of a \<^verbatim>\<open>ControlPlaneError\<close>.\<close>

datatype control_failure =
    ControlPlaneError string string string
  | PyFault py_error
  | Crash

type_synonym 'a cres = "control_failure + 'a"

definition unchanged :: string where
  "unchanged = ''no_state_change''"

definition inconsistent :: "string \<Rightarrow> control_failure" where
  "inconsistent msg = ControlPlaneError ''VALP-E-REGISTRY-CONSISTENCY'' msg unchanged"

definition inconsistent_blocked :: "string \<Rightarrow> control_failure" where
  "inconsistent_blocked msg = ControlPlaneError ''VALP-E-REGISTRY-CONSISTENCY'' msg ''blocked''"

fun py :: "'a res \<Rightarrow> 'a cres" where
  "py (Inl e) = Inl (PyFault e)"
| "py (Inr x) = Inr x"

definition refuse_if :: "bool \<Rightarrow> control_failure \<Rightarrow> unit cres" where
  "refuse_if b e = (if b then Inl e else Inr ())"

text \<open>\<^verbatim>\<open>value[key]\<close>.\<close>

definition sub :: "string \<Rightarrow> json \<Rightarrow> json cres" where
  "sub k v = (case jget k v of None \<Rightarrow> Inl (PyFault (KeyError k)) | Some x \<Rightarrow> Inr x)"

section \<open>Digests\<close>

definition digest_value :: "json \<Rightarrow> string" where
  "digest_value v = digest v"

definition digest_without :: "json \<Rightarrow> string \<Rightarrow> string" where
  "digest_without v field = digest_value (ddel field v)"

definition state_digest :: "json \<Rightarrow> string" where
  "state_digest s = digest_without s ''projection_digest''"

text \<open>\<^verbatim>\<open>value["projection_digest"] = _state_digest(value)\<close>.\<close>

definition sealed :: "json \<Rightarrow> json" where
  "sealed s = dset ''projection_digest'' (JStr (state_digest s)) s"

definition empty_state :: "json \<Rightarrow> string \<Rightarrow> json" where
  "empty_state installation now = JObj
     [(''schema_version'', JStr ''valp-executable-state.v1''),
      (''installation_id'', installation),
      (''revision'', JInt 0),
      (''status'', JStr ''uninitialized''),
      (''selected_leader'', JNull),
      (''active_leader'', JNull),
      (''active_leader_epoch'', JInt 0),
      (''registry_revision'', JInt 0),
      (''active_blockers'', JArr []),
      (''last_event_id'', JNull),
      (''last_event_digest'', JNull),
      (''updated_at'', JStr now),
      (''projection_digest'', JStr '''')]"

definition authority_view :: "json \<Rightarrow> json" where
  "authority_view s =
     (let active = dget ''active_leader'' s in
      if \<not> is_obj active \<or> ''session_id'' \<notin> set (keys active) then s
      else dset ''active_leader'' (ddel ''session_id'' active) s)"

section \<open>The transition contract\<close>

definition PRINCIPALS :: "(string \<times> string) list" where
  "PRINCIPALS =
     [(''bootstrap-controller'', ''bootstrap-controller''), (''human'', ''user''),
      (''runtime-adapter'', ''reference-runtime-adapter'')]"

definition expected_principal :: "json \<Rightarrow> json \<Rightarrow> json" where
  "expected_principal sender_kind projection =
     (if py_eq sender_kind (JStr ''installation-leader'')
      then (let active = dget ''active_leader'' projection in
            if is_obj active then dget ''principal_id'' active else JNull)
      else case map_of PRINCIPALS (py_str sender_kind) of None \<Rightarrow> JNull | Some p \<Rightarrow> JStr p)"

definition protected_fields :: "string list" where
  "protected_fields = [''active_leader'', ''selected_leader'', ''active_leader_epoch'', ''registry_revision'']"

definition transition_fields :: "string list" where
  "transition_fields =
     [''revision'', ''status'', ''updated_at'', ''last_event_id'', ''last_event_digest'',
      ''projection_digest'', ''active_blockers'']"

definition clearing_targets :: "string list" where
  "clearing_targets =
     [''active'', ''awaiting_leader_selection'', ''awaiting_leader_start'', ''discovering_leader_candidates'']"

text \<open>\<^verbatim>\<open>list(payload.get("active_blockers") or [event_kind])\<close>.\<close>

definition blockers_of :: "json \<Rightarrow> string \<Rightarrow> json res" where
  "blockers_of payload event_kind =
     bind_res (py_list (py_or (dget ''active_blockers'' payload) (JArr [JStr event_kind])))
       (\<lambda>xs. Inr (JArr xs))"

definition expected_blockers :: "string \<Rightarrow> string \<Rightarrow> json \<Rightarrow> json \<Rightarrow> json res" where
  "expected_blockers target event_kind payload prior =
     (if target = ''blocked'' then blockers_of payload event_kind
      else if target \<in> set clearing_targets then Inr (JArr [])
      else Inr (dget ''active_blockers'' prior))"

definition changed_fields :: "json \<Rightarrow> json \<Rightarrow> string list" where
  "changed_fields prior projection =
     filter (\<lambda>f. \<not> py_eq (dget f prior) (dget f projection)) (keys prior @ keys projection)"

text \<open>\<^verbatim>\<open>TRANSITION_TARGETS\<close> has the keys of \<^verbatim>\<open>TRANSITION_CONTRACTS\<close>, so the target is there.\<close>

definition validate_transition_contract ::
  "bool \<Rightarrow> json \<Rightarrow> json \<Rightarrow> json \<Rightarrow> json \<Rightarrow> unit cres" where
  "validate_transition_contract allow_legacy message event projection prior =
     (let event_kind = py_str (py_or (dget ''event_kind'' event) (JStr ''''));
          sender_kind = dget ''sender_kind'' message;
          principal = expected_principal sender_kind projection;
          payload = dget ''payload'' message;
          prior_status = dget ''status'' prior
      in
      case (map_of TRANSITION_CONTRACTS event_kind, map_of TRANSITION_TARGETS event_kind) of
        (Some (kind, sender), Some target) \<Rightarrow>
          let legacy_restart = allow_legacy \<and> event_kind = ''leader_restart_requested'';
              legal = target \<in> set (row LEGAL_TRANSITIONS (py_str prior_status)) \<or>
                (legacy_restart \<and> py_eq prior_status (JStr ''blocked'') \<and> target = ''restarting_leader'');
              payload_fields = row TRANSITION_PAYLOAD_STATE_FIELDS event_kind @
                (if legacy_restart \<and> ''selected_leader'' \<in> set (keys payload) then [''selected_leader''] else [])
          in
          bind_res (refuse_if
            (\<not> py_eq (dget ''kind'' message) (JStr kind) \<or> \<not> py_eq sender_kind (JStr sender))
            (inconsistent ''Transition event, message, and principal kind are not a declared contract'')) (\<lambda>_.
          bind_res (refuse_if
            (\<not> truthy principal \<or> \<not> py_eq (dget ''sender_principal_id'' message) principal \<or>
             \<not> py_eq (dget ''actor_principal_id'' event) principal)
            (inconsistent ''Transition principal does not hold the declared authority'')) (\<lambda>_.
          bind_res (refuse_if
            (\<not> is_obj payload \<or> \<not> py_eq (dget ''status'' projection) (JStr target) \<or> \<not> legal \<or>
             \<not> py_eq (dget ''prior_revision'' event) (dget ''revision'' prior))
            (inconsistent ''Transition source, target, revision, or event binding violates its contract'')) (\<lambda>_.
          bind_res (py (plus_one (case jget ''revision'' prior of None \<Rightarrow> JInt (-1) | Some r \<Rightarrow> r))) (\<lambda>next_revision.
          bind_res (refuse_if
            (\<not> py_eq (dget ''revision'' projection) (JInt next_revision) \<or>
             \<not> py_eq (dget ''last_event_id'' projection) (dget ''event_id'' event) \<or>
             \<not> py_eq (dget ''last_event_digest'' projection) (dget ''prior_event_digest'' event) \<or>
             \<not> py_eq (dget ''updated_at'' projection) (dget ''occurred_at'' event))
            (inconsistent ''Transition source, target, revision, or event binding violates its contract'')) (\<lambda>_.
          bind_res (refuse_if
            (list_ex (\<lambda>f. f \<in> set (keys payload) \<and> f \<notin> set payload_fields \<and>
               (\<not> py_eq (dget f payload) (dget f prior) \<or> \<not> py_eq (dget f projection) (dget f prior)))
               protected_fields)
            (inconsistent ''Transition payload attempts an undeclared authority-state mutation'')) (\<lambda>_.
          bind_res (refuse_if
            (list_ex (\<lambda>f. f \<notin> set (keys payload) \<or> \<not> py_eq (dget f projection) (dget f payload))
               payload_fields)
            (inconsistent ''Transition payload does not bind its declared state mutation'')) (\<lambda>_.
          bind_res (py (expected_blockers target event_kind payload prior)) (\<lambda>blockers.
          bind_res (refuse_if (\<not> py_eq (dget ''active_blockers'' projection) blockers)
            (inconsistent ''Transition blocker projection violates its contract'')) (\<lambda>_.
          refuse_if
            (list_ex (\<lambda>f. f \<notin> set transition_fields \<and> f \<notin> set payload_fields)
               (changed_fields prior projection))
            (inconsistent ''Transition projection changes undeclared state fields''))))))))))
      | _ \<Rightarrow>
          Inl (inconsistent ''Transition event, message, and principal kind are not a declared contract''))"

end
