(* ===== verification/Control_Transition.thy ===== *)
theory Control_Transition
  imports Control_Plane
begin

text \<open>
  Files of an installation and its operations: \<^verbatim>\<open>InstallationCore._transition\<close>, the commit of its
  journal, recovery and replay.
\<close>

section \<open>Files\<close>

datatype doc = Missing | Garbled | Doc json

text \<open>
  A ledger of lines. Line separators other than the line feed (next line, line separator, paragraph
  separator) stand for themselves in JSON text, and \<^verbatim>\<open>splitlines\<close> splits there: a document that holds
  one is read back as malformed lines.
\<close>

datatype line = Line json | Malformed

record ledger_file =
  lf_lines :: "line list"
  lf_torn :: bool

fun separates :: "string \<Rightarrow> bool" where
  "separates (c # d # cs) =
     ((c = CHR 0xC2 \<and> d = CHR 0x85) \<or>
      (c = CHR 0xE2 \<and> d = CHR 0x80 \<and> (case cs of [] \<Rightarrow> False | e # _ \<Rightarrow> e \<in> {CHR 0xA8, CHR 0xA9})) \<or>
      separates (d # cs))"
| "separates _ = False"

definition written_line :: "json \<Rightarrow> line" where
  "written_line v = (if separates (dumps v) then Malformed else Line v)"

definition exists_doc :: "doc \<Rightarrow> bool" where
  "exists_doc f \<longleftrightarrow> f \<noteq> Missing"

definition read_json :: "string \<Rightarrow> doc \<Rightarrow> json cres" where
  "read_json name f =
     (case f of
        Doc v \<Rightarrow> if is_obj v then Inr v
          else Inl (ControlPlaneError ''VALP-E-MESSAGE-SCHEMA'' (''Expected an object in '' @ name) unchanged)
      | _ \<Rightarrow> Inl (inconsistent (''Cannot read '' @ name)))"

fun read_lines :: "string \<Rightarrow> nat \<Rightarrow> line list \<Rightarrow> json list cres" where
  "read_lines name n [] = Inr []"
| "read_lines name n (Malformed # ls) =
     Inl (ControlPlaneError ''VALP-E-MESSAGE-SCHEMA'' (''Malformed '' @ name @ '':'' @ nat_str n) unchanged)"
| "read_lines name n (Line v # ls) =
     (if is_obj v then bind_res (read_lines name (Suc n) ls) (\<lambda>vs. Inr (v # vs))
      else Inl (ControlPlaneError ''VALP-E-MESSAGE-SCHEMA''
                  (''Non-object record in '' @ name @ '':'' @ nat_str n) unchanged))"

definition read_jsonl :: "string \<Rightarrow> ledger_file \<Rightarrow> json list cres" where
  "read_jsonl name f = read_lines name 1 (lf_lines f)"

record installation_disk =
  id_installation :: doc
  id_state :: doc
  id_messages :: ledger_file
  id_events :: ledger_file
  id_failures :: ledger_file
  id_journal :: doc

section \<open>Operations\<close>

type_synonym 'a op = "installation_disk \<times> nat \<Rightarrow> 'a cres \<times> installation_disk \<times> nat"

definition done_op :: "'a \<Rightarrow> 'a op" where
  "done_op x = (\<lambda>s. (Inr x, s))"

definition fail_op :: "control_failure \<Rightarrow> 'a op" where
  "fail_op e = (\<lambda>s. (Inl e, s))"

definition bind_op :: "'a op \<Rightarrow> ('a \<Rightarrow> 'b op) \<Rightarrow> 'b op" where
  "bind_op m f = (\<lambda>s. case m s of (Inl e, s') \<Rightarrow> (Inl e, s') | (Inr x, s') \<Rightarrow> f x s')"

definition reading :: "(installation_disk \<Rightarrow> 'a cres) \<Rightarrow> 'a op" where
  "reading r = (\<lambda>s. (r (fst s), s))"

text \<open>One write; without writes left the process stops there.\<close>

definition writing :: "(installation_disk \<Rightarrow> installation_disk) \<Rightarrow> unit op" where
  "writing w = (\<lambda>(d, n). case n of 0 \<Rightarrow> (Inl Crash, d, 0) | Suc m \<Rightarrow> (Inr (), w d, m))"

text \<open>
  \<^verbatim>\<open>append_jsonl_atomic\<close>, and \<^verbatim>\<open>append_jsonl\<close>, which writes behind whatever is there: behind a torn line
  the two make one malformed line.
\<close>

definition append_jsonl_atomic ::
  "string \<Rightarrow> (installation_disk \<Rightarrow> ledger_file) \<Rightarrow> (ledger_file \<Rightarrow> installation_disk \<Rightarrow> installation_disk) \<Rightarrow>
     json \<Rightarrow> unit op" where
  "append_jsonl_atomic name get put v =
     bind_op (reading (\<lambda>d. refuse_if (lf_torn (get d)) (inconsistent (''Cannot append to truncated '' @ name)))) (\<lambda>_.
       writing (\<lambda>d. put ((get d)\<lparr>lf_lines := lf_lines (get d) @ [written_line v]\<rparr>) d))"

definition append_line :: "json \<Rightarrow> ledger_file \<Rightarrow> ledger_file" where
  "append_line v f =
     (if lf_torn f then \<lparr>lf_lines = butlast (lf_lines f) @ [Malformed], lf_torn = False\<rparr>
      else f\<lparr>lf_lines := lf_lines f @ [written_line v]\<rparr>)"

section \<open>Reading the installation\<close>

definition require_initialized :: "installation_disk \<Rightarrow> unit cres" where
  "require_initialized d =
     refuse_if (\<not> exists_doc (id_installation d) \<or> \<not> exists_doc (id_state d))
       (inconsistent ''Installation is not initialized'')"

definition installation_doc :: "installation_disk \<Rightarrow> json cres" where
  "installation_doc d = bind_res (require_initialized d) (\<lambda>_. read_json ''installation.json'' (id_installation d))"

definition state_file :: "installation_disk \<Rightarrow> json cres" where
  "state_file d = read_json ''state.json'' (id_state d)"

definition current_state :: "installation_disk \<Rightarrow> json cres" where
  "current_state d =
     bind_res (require_initialized d) (\<lambda>_.
     bind_res (state_file d) (\<lambda>s.
       if \<not> py_eq (dget ''projection_digest'' s) (JStr (state_digest s))
       then Inl (inconsistent_blocked ''State projection digest mismatch'')
       else Inr (authority_view s)))"

definition messages_of :: "installation_disk \<Rightarrow> json list cres" where
  "messages_of d = read_jsonl ''messages.jsonl'' (id_messages d)"

definition events_of :: "installation_disk \<Rightarrow> json list cres" where
  "events_of d = read_jsonl ''events.jsonl'' (id_events d)"

definition find_message :: "string \<Rightarrow> installation_disk \<Rightarrow> json option cres" where
  "find_message key d =
     bind_res (messages_of d) (\<lambda>ms. Inr (List.find (\<lambda>m. get_eq m ''idempotency_key'' (JStr key)) ms))"

section \<open>Failures\<close>

text \<open>What an operation takes from the system: identifiers and times.\<close>

record system_inputs =
  sy_message_id :: string
  sy_event_id :: string
  sy_failure_id :: string
  sy_updated_at :: string
  sy_sent_at :: string
  sy_failed_at :: string

fun failure_parts :: "control_failure \<Rightarrow> string \<times> string \<times> string" where
  "failure_parts (ControlPlaneError code msg effect) = (code, msg, effect)"
| "failure_parts _ = ([], [], [])"

definition failure_record :: "system_inputs \<Rightarrow> control_failure \<Rightarrow> json \<Rightarrow> json \<Rightarrow> json \<Rightarrow> json" where
  "failure_record sy e message_id installation_id state =
     (case failure_parts e of (code, msg, effect) \<Rightarrow>
       let conflict = (code = ''VALP-E-STATE-CONFLICT'');
           r = JObj
             [(''schema_version'', JStr ''valp-failure.v1''),
              (''failure_id'', JStr (sy_failure_id sy)),
              (''error_code'', JStr code),
              (''error_schema_version'', JStr ''valp-failure.v1''),
              (''installation_id'', installation_id),
              (''phase'', JStr ''control_plane''),
              (''accepted_or_rejected_message_id'', message_id),
              (''state_revision'', case jget ''revision'' state of None \<Rightarrow> JInt 0 | Some x \<Rightarrow> x),
              (''leader_epoch'', case jget ''active_leader_epoch'' state of None \<Rightarrow> JInt 0 | Some x \<Rightarrow> x),
              (''retriable'', JBool conflict),
              (''retry_class'', JStr (if conflict then ''state_conflict'' else ''none'')),
              (''safe_summary'', JStr msg),
              (''diagnostic_ref'', JNull),
              (''affected_refs'', JArr []),
              (''deterministic_state_effect'', JStr effect),
              (''created_at'', JStr (sy_failed_at sy))]
       in dset ''failure_digest'' (JStr (digest_without r ''failure_digest'')) r)"

text \<open>\<^verbatim>\<open>self._failure(error, ...)\<close> and then \<^verbatim>\<open>raise error\<close>.\<close>

definition record_failure :: "system_inputs \<Rightarrow> control_failure \<Rightarrow> json \<Rightarrow> 'a op" where
  "record_failure sy e message_id =
     bind_op (reading installation_doc) (\<lambda>i.
     bind_op (reading state_file) (\<lambda>s.
     bind_op (reading (\<lambda>_. sub ''installation_id'' i)) (\<lambda>iid.
     bind_op (writing (\<lambda>d. d\<lparr>id_failures := append_line (failure_record sy e message_id iid s) (id_failures d)\<rparr>))
       (\<lambda>_. fail_op e))))"

section \<open>Committing the journal\<close>

text \<open>The last line before the end, \<^verbatim>\<open>xs[-2]\<close> and \<^verbatim>\<open>xs[-1]\<close>, on a list that is long enough.\<close>

definition before_last :: "'a list \<Rightarrow> 'a" where
  "before_last xs = xs ! (length xs - 2)"

definition embedded_projection :: "json \<Rightarrow> json \<Rightarrow> json" where
  "embedded_projection next_state event =
     sealed (dset ''last_event_digest'' (dget ''prior_event_digest'' event) next_state)"

text \<open>\<^verbatim>\<open>dict(payload, state_projection=projection)\<close>, or \<^verbatim>\<open>None\<close> when the payload is not a dictionary.\<close>

definition event_payload :: "json \<Rightarrow> json \<Rightarrow> json" where
  "event_payload payload projection =
     (if is_obj payload then dset ''state_projection'' projection payload else JNull)"

definition content_digest :: "json \<Rightarrow> json \<Rightarrow> json \<Rightarrow> json \<Rightarrow> json \<Rightarrow> string" where
  "content_digest kind sender epoch revision payload =
     digest_value (JObj [(''kind'', kind), (''principal_id'', sender), (''epoch'', epoch),
       (''expected_revision'', revision), (''payload'', payload)])"

definition message_content_digest :: "json \<Rightarrow> string" where
  "message_content_digest m =
     content_digest (dget ''kind'' m) (dget ''sender_principal_id'' m) (dget ''leader_epoch'' m)
       (dget ''expected_state_revision'' m) (dget ''payload'' m)"

definition agree :: "json \<Rightarrow> string \<Rightarrow> json \<Rightarrow> string \<Rightarrow> bool" where
  "agree v k w l \<longleftrightarrow> py_eq (dget k v) (dget l w)"

fun follows :: "json \<Rightarrow> json \<Rightarrow> bool" where
  "follows (JInt p) (JInt n) = (n = p + 1)"
| "follows _ _ = False"

definition records_agree :: "json \<Rightarrow> json \<Rightarrow> json \<Rightarrow> json \<Rightarrow> bool" where
  "records_agree message event next_state installation \<longleftrightarrow>
     (let result = dget ''result'' message in
      py_eq (dget ''message_digest'' message) (JStr (digest_without message ''message_digest'')) \<and>
      py_eq (dget ''content_digest'' message) (JStr (message_content_digest message)) \<and>
      py_eq (dget ''event_digest'' event) (JStr (digest_without event ''event_digest'')) \<and>
      py_eq (dget ''projection_digest'' next_state) (JStr (state_digest next_state)) \<and>
      agree message ''event_id'' event ''event_id'' \<and>
      agree event ''accepted_message_id'' message ''message_id'' \<and>
      agree event ''new_revision'' next_state ''revision'' \<and>
      agree message ''sender_principal_id'' event ''actor_principal_id'' \<and>
      agree message ''leader_epoch'' event ''leader_epoch'' \<and>
      is_obj result \<and>
      agree result ''message_id'' message ''message_id'' \<and>
      agree result ''event_id'' event ''event_id'' \<and>
      agree message ''result_revision'' next_state ''revision'' \<and>
      agree result ''revision'' next_state ''revision'' \<and>
      agree result ''status'' next_state ''status'' \<and>
      follows (dget ''prior_revision'' event) (dget ''new_revision'' event) \<and>
      agree message ''expected_state_revision'' event ''prior_revision'' \<and>
      agree message ''installation_id'' event ''installation_id'' \<and>
      agree next_state ''installation_id'' event ''installation_id'' \<and>
      agree installation ''installation_id'' event ''installation_id'' \<and>
      agree installation ''installation_status'' next_state ''status'' \<and>
      agree installation ''active_leader_epoch'' next_state ''active_leader_epoch'' \<and>
      agree event ''occurred_at'' next_state ''updated_at'' \<and>
      py_eq (dget ''payload'' event)
        (event_payload (dget ''payload'' message) (embedded_projection next_state event)))"

text \<open>
  A ledger and the record the journal wants to be its last line: whether it is there already. The
  checks are those for the messages; the events add the chain.
\<close>

definition ledger_tail :: "string \<Rightarrow> string \<Rightarrow> json list \<Rightarrow> json \<Rightarrow> json \<Rightarrow> bool cres" where
  "ledger_tail what key lines key_value record_doc =
     (let matching = filter (\<lambda>x. py_eq (dget key x) key_value) lines in
      bind_res (refuse_if (matching \<noteq> [] \<and> \<not> (length matching = 1 \<and> py_eq (hd matching) record_doc))
        (inconsistent (''Transition '' @ what @ '' conflicts with journal''))) (\<lambda>_.
      bind_res (refuse_if (matching \<noteq> [] \<and> \<not> py_eq (last lines) record_doc)
        (inconsistent (''Transition journal '' @ what @ '' is not the ledger tail''))) (\<lambda>_.
      Inr (matching \<noteq> []))))"

text \<open>\<^verbatim>\<open>record[key]\<close>, evaluated for each line of the ledger.\<close>

definition key_of :: "string \<Rightarrow> json \<Rightarrow> json list \<Rightarrow> json cres" where
  "key_of key record_doc lines = (if lines = [] then Inr JNull else sub key record_doc)"

definition expected_sequence :: "'a list \<Rightarrow> bool \<Rightarrow> int" where
  "expected_sequence xs there = (if there then int (length xs) else int (length xs) + 1)"

definition expected_prior_digest :: "json list \<Rightarrow> bool \<Rightarrow> json" where
  "expected_prior_digest events there =
     (if there then (if 1 < length events then dget ''event_digest'' (before_last events) else JNull)
      else if events \<noteq> [] then dget ''event_digest'' (last events) else JNull)"

definition prior_state_of :: "string \<Rightarrow> json \<Rightarrow> json \<Rightarrow> json \<Rightarrow> json list \<Rightarrow> bool \<Rightarrow> json cres" where
  "prior_state_of now persisted next_state event events there =
     (if agree persisted ''revision'' event ''prior_revision'' then Inr persisted
      else if py_eq persisted next_state \<and> there then
        (if 1 < length events then
           (let prior_event = before_last events;
                prior_payload = dget ''payload'' prior_event;
                projection = (if is_obj prior_payload then dget ''state_projection'' prior_payload else JNull)
            in
            if \<not> is_obj projection then Inl (inconsistent ''Prior transition projection is missing'')
            else Inr (sealed (dset ''last_event_digest'' (dget ''event_digest'' prior_event) projection)))
         else Inr (empty_state (JStr (py_str (py_or (dget ''installation_id'' event) (JStr '''')))) now))
      else Inl (inconsistent ''Transition state conflicts with journal''))"

text \<open>What the checks of the journal establish: the records and whether they are in the ledgers.\<close>

definition check_journal ::
  "string \<Rightarrow> json \<Rightarrow> installation_disk \<Rightarrow> (json \<times> json \<times> json \<times> json \<times> json \<times> bool \<times> bool) cres" where
  "check_journal now journal d =
     (let message = dget ''message'' journal;
          event = dget ''event'' journal;
          next_state = dget ''next_state'' journal;
          installation = dget ''installation'' journal
      in
      bind_res (refuse_if
        (\<not> py_eq (dget ''schema_version'' journal) (JStr ''valp-transition-journal.v1'') \<or>
         \<not> py_eq (dget ''journal_digest'' journal) (JStr (digest_without journal ''journal_digest'')))
        (inconsistent ''Transition journal digest mismatch'')) (\<lambda>_.
      bind_res (refuse_if
        (\<not> (is_obj message \<and> is_obj event \<and> is_obj next_state \<and> is_obj installation))
        (inconsistent ''Transition journal payload is malformed'')) (\<lambda>_.
      bind_res (refuse_if (\<not> records_agree message event next_state installation)
        (inconsistent ''Transition journal records are inconsistent'')) (\<lambda>_.
      bind_res (messages_of d) (\<lambda>messages.
      bind_res (key_of ''message_id'' message messages) (\<lambda>mid.
      bind_res (ledger_tail ''message'' ''message_id'' messages mid message) (\<lambda>message_there.
      bind_res (refuse_if
        (\<not> get_eq message ''installation_sequence'' (JInt (expected_sequence messages message_there)))
        (inconsistent ''Transition message sequence conflicts with ledger'')) (\<lambda>_.
      bind_res (events_of d) (\<lambda>events.
      bind_res (key_of ''event_id'' event events) (\<lambda>eid.
      bind_res (ledger_tail ''event'' ''event_id'' events eid event) (\<lambda>event_there.
      bind_res (refuse_if
        (\<not> get_eq event ''installation_sequence'' (JInt (expected_sequence events event_there)) \<or>
         \<not> py_eq (dget ''prior_event_digest'' event) (expected_prior_digest events event_there))
        (inconsistent ''Transition event chain conflicts with ledger'')) (\<lambda>_.
      bind_res (state_file d) (\<lambda>persisted.
      bind_res (prior_state_of now persisted next_state event events event_there) (\<lambda>prior.
      bind_res (validate_transition_contract False message event (embedded_projection next_state event) prior) (\<lambda>_.
      Inr (message, event, next_state, installation, persisted, message_there, event_there))))))))))))))))"

definition when_op :: "bool \<Rightarrow> unit op \<Rightarrow> unit op" where
  "when_op b m = (if b then m else done_op ())"

definition commit_journal :: "string \<Rightarrow> json \<Rightarrow> unit op" where
  "commit_journal now journal =
     bind_op (reading (check_journal now journal))
       (\<lambda>(message, event, next_state, installation, persisted, message_there, event_there).
     bind_op (when_op (\<not> message_there)
       (append_jsonl_atomic ''messages.jsonl'' id_messages (\<lambda>f d. d\<lparr>id_messages := f\<rparr>) message)) (\<lambda>_.
     bind_op (when_op (\<not> event_there)
       (append_jsonl_atomic ''events.jsonl'' id_events (\<lambda>f d. d\<lparr>id_events := f\<rparr>) event)) (\<lambda>_.
     bind_op (when_op (\<not> py_eq persisted next_state)
       (writing (\<lambda>d. d\<lparr>id_state := Doc next_state\<rparr>))) (\<lambda>_.
     bind_op (reading installation_doc) (\<lambda>i.
     bind_op (when_op (\<not> py_eq i installation)
       (if \<not> agree i ''installation_id'' installation ''installation_id''
        then fail_op (inconsistent ''Transition installation conflicts with journal'')
        else writing (\<lambda>d. d\<lparr>id_installation := Doc installation\<rparr>))) (\<lambda>_.
     writing (\<lambda>d. d\<lparr>id_journal := Missing\<rparr>)))))))"

definition recover_transition :: "string \<Rightarrow> unit op" where
  "recover_transition now =
     bind_op (reading (\<lambda>d. Inr (id_journal d))) (\<lambda>j.
       if exists_doc j
       then bind_op (reading (\<lambda>_. read_json ''transition-journal.json'' j)) (commit_journal now)
       else done_op ())"

section \<open>Transitions\<close>

record transition_request =
  tr_event_kind :: string
  tr_message_kind :: string
  tr_principal_id :: string
  tr_principal_kind :: string
  tr_epoch :: int
  tr_expected_revision :: int
  tr_payload :: json
  tr_target :: string
  tr_key :: string
  tr_task :: "string option"

definition request_digest :: "transition_request \<Rightarrow> string" where
  "request_digest q =
     content_digest (JStr (tr_message_kind q)) (JStr (tr_principal_id q)) (JInt (tr_epoch q))
       (JInt (tr_expected_revision q)) (tr_payload q)"

definition validate_epoch :: "json \<Rightarrow> string \<Rightarrow> int \<Rightarrow> unit cres" where
  "validate_epoch s kind epoch =
     bind_res (sub ''active_leader_epoch'' s) (\<lambda>active.
       if py_eq active (JInt 0)
       then refuse_if (epoch \<noteq> 0 \<or> kind \<notin> set BOOTSTRAP_CORE_KINDS)
         (ControlPlaneError ''VALP-E-LEADER-EPOCH'' ''Only bootstrap read-only messages may use epoch 0'' unchanged)
       else refuse_if (\<not> py_eq (JInt epoch) active)
         (ControlPlaneError ''VALP-E-LEADER-EPOCH'' ''Message uses a fenced leader epoch'' unchanged))"

text \<open>\<^verbatim>\<open>target in LEGAL_TRANSITIONS.get(status, set())\<close>.\<close>

definition legal_from :: "json \<Rightarrow> string \<Rightarrow> bool cres" where
  "legal_from status target =
     (case status of
        JStr s \<Rightarrow> Inr (target \<in> set (row LEGAL_TRANSITIONS s))
      | _ \<Rightarrow> if hashable status then Inr False else Inl (PyFault (TypeError ''unhashable type'')))"

text \<open>The guards before a transition is prepared.\<close>

definition admit :: "transition_request \<Rightarrow> json \<Rightarrow> unit cres" where
  "admit q s =
     bind_res (sub ''revision'' s) (\<lambda>revision.
     bind_res (refuse_if (\<not> py_eq (JInt (tr_expected_revision q)) revision)
       (ControlPlaneError ''VALP-E-STATE-CONFLICT''
         (''Expected revision '' @ int_str (tr_expected_revision q) @ '', current is '' @ py_str revision)
         unchanged)) (\<lambda>_.
     bind_res (validate_epoch s (tr_message_kind q) (tr_epoch q)) (\<lambda>_.
     if tr_target q \<notin> set INSTALLATION_STATUS
     then bind_res (sub ''status'' s) (\<lambda>status.
       Inl (ControlPlaneError ''VALP-E-STATE-TRANSITION''
         (''Illegal installation transition '' @ py_str status @ '' -> '' @ tr_target q) unchanged))
     else
       bind_res (sub ''status'' s) (\<lambda>status.
       bind_res (legal_from status (tr_target q)) (\<lambda>legal.
       refuse_if (\<not> legal)
         (ControlPlaneError ''VALP-E-STATE-TRANSITION''
           (''Illegal installation transition '' @ py_str status @ '' -> '' @ tr_target q) unchanged))))))"

definition copy_field :: "string \<Rightarrow> json \<Rightarrow> json \<Rightarrow> json" where
  "copy_field k payload s = (if k \<in> set (keys payload) then dset k (dget k payload) s else s)"

definition next_blockers :: "transition_request \<Rightarrow> json \<Rightarrow> json res" where
  "next_blockers q s =
     (if tr_target q = ''blocked''
      then bind_res (blockers_of (tr_payload q) (tr_event_kind q)) (\<lambda>b. Inr (dset ''active_blockers'' b s))
      else if tr_target q \<in> set clearing_targets then Inr (dset ''active_blockers'' (JArr []) s)
      else Inr s)"

text \<open>The projection that goes into the event, \<^verbatim>\<open>next_state\<close> at the time the event is built.\<close>

definition next_projection :: "system_inputs \<Rightarrow> transition_request \<Rightarrow> json \<Rightarrow> json cres" where
  "next_projection sy q s =
     bind_res (sub ''revision'' s) (\<lambda>r.
     bind_res (py (plus_one r)) (\<lambda>revision.
     bind_res (sub ''active_leader_epoch'' s) (\<lambda>epoch.
       let p = tr_payload q;
           s1 = dset ''active_leader_epoch'' epoch
                 (dset ''last_event_id'' (JStr (sy_event_id sy))
                 (dset ''updated_at'' (JStr (sy_updated_at sy))
                 (dset ''status'' (JStr (tr_target q))
                 (dset ''revision'' (JInt revision) s))));
           s2 = copy_field ''registry_revision'' p
                 (copy_field ''active_leader_epoch'' p
                 (copy_field ''selected_leader'' p
                 (copy_field ''active_leader'' p s1)))
       in bind_res (py (next_blockers q s2)) (\<lambda>s3. Inr (sealed s3)))))"

definition request_result :: "system_inputs \<Rightarrow> transition_request \<Rightarrow> json \<Rightarrow> json" where
  "request_result sy q revision = JObj
     [(''message_id'', JStr (sy_message_id sy)), (''event_id'', JStr (sy_event_id sy)),
      (''revision'', revision), (''status'', JStr (tr_target q))]"

definition make_message ::
  "system_inputs \<Rightarrow> transition_request \<Rightarrow> json \<Rightarrow> json \<Rightarrow> int \<Rightarrow> json" where
  "make_message sy q installation_id revision sequence =
     (let m = JObj
        [(''schema_version'', JStr ''valp-message.v1''),
         (''message_id'', JStr (sy_message_id sy)),
         (''idempotency_key'', JStr (tr_key q)),
         (''installation_id'', installation_id),
         (''sender_principal_id'', JStr (tr_principal_id q)),
         (''sender_kind'', JStr (tr_principal_kind q)),
         (''leader_epoch'', JInt (tr_epoch q)),
         (''expected_state_revision'', JInt (tr_expected_revision q)),
         (''kind'', JStr (tr_message_kind q)),
         (''payload_schema'', JStr ''valp-control-payload.v1''),
         (''payload'', tr_payload q),
         (''content_digest'', JStr (request_digest q)),
         (''sent_at'', JStr (sy_sent_at sy)),
         (''accepted'', JBool True),
         (''installation_sequence'', JInt sequence),
         (''event_id'', JStr (sy_event_id sy)),
         (''result'', request_result sy q revision),
         (''result_revision'', revision)]
      in dset ''message_digest'' (JStr (digest_without m ''message_digest'')) m)"

definition make_event ::
  "system_inputs \<Rightarrow> transition_request \<Rightarrow> json \<Rightarrow> json \<Rightarrow> json \<Rightarrow> int \<Rightarrow> json" where
  "make_event sy q s installation_id projection sequence =
     (let e = JObj
        [(''schema_version'', JStr ''valp-event.v1''),
         (''event_id'', JStr (sy_event_id sy)),
         (''installation_sequence'', JInt sequence),
         (''installation_id'', installation_id),
         (''leader_epoch'', JInt (tr_epoch q)),
         (''task_id'', case tr_task q of None \<Rightarrow> JNull | Some t \<Rightarrow> JStr t),
         (''event_kind'', JStr (tr_event_kind q)),
         (''accepted_message_id'', JStr (sy_message_id sy)),
         (''prior_revision'', dget ''revision'' s),
         (''new_revision'', dget ''revision'' projection),
         (''occurred_at'', dget ''updated_at'' projection),
         (''actor_principal_id'', JStr (tr_principal_id q)),
         (''payload_schema'', JStr ''valp-control-payload.v1''),
         (''payload'', event_payload (tr_payload q) projection),
         (''prior_event_digest'', dget ''last_event_digest'' s)]
      in dset ''event_digest'' (JStr (digest_without e ''event_digest'')) e)"

definition make_journal :: "json \<Rightarrow> json \<Rightarrow> json \<Rightarrow> json \<Rightarrow> json" where
  "make_journal message event next_state installation =
     (let j = JObj
        [(''schema_version'', JStr ''valp-transition-journal.v1''),
         (''message'', message), (''event'', event), (''next_state'', next_state),
         (''installation'', installation)]
      in dset ''journal_digest'' (JStr (digest_without j ''journal_digest'')) j)"

text \<open>Everything a transition computes before it writes: the journal and the result.\<close>

definition prepare :: "system_inputs \<Rightarrow> transition_request \<Rightarrow> json \<Rightarrow> installation_disk \<Rightarrow> (json \<times> json) cres" where
  "prepare sy q s d =
     bind_res (next_projection sy q s) (\<lambda>projection.
     bind_res (sub ''installation_id'' s) (\<lambda>iid.
     bind_res (messages_of d) (\<lambda>messages.
     bind_res (events_of d) (\<lambda>events.
       let revision = dget ''revision'' projection;
           message = make_message sy q iid revision (int (length messages) + 1);
           event = make_event sy q s iid projection (int (length events) + 1);
           next_state = sealed (dset ''last_event_digest'' (dget ''event_digest'' event) projection)
       in
       bind_res (installation_doc d) (\<lambda>i.
         let installation = dset ''active_leader_epoch'' (dget ''active_leader_epoch'' next_state)
               (dset ''installation_status'' (dget ''status'' next_state) i)
         in Inr (make_journal message event next_state installation, request_result sy q revision))))))"

definition is_control_error :: "control_failure \<Rightarrow> bool" where
  "is_control_error e = (case e of ControlPlaneError _ _ _ \<Rightarrow> True | _ \<Rightarrow> False)"

definition new_transition :: "system_inputs \<Rightarrow> transition_request \<Rightarrow> json op" where
  "new_transition sy q =
     bind_op (reading current_state) (\<lambda>s.
       case admit q s of
         Inl e \<Rightarrow> if is_control_error e then record_failure sy e JNull else fail_op e
       | Inr _ \<Rightarrow>
           bind_op (reading (prepare sy q s)) (\<lambda>(journal, result).
           bind_op (writing (\<lambda>d. d\<lparr>id_journal := Doc journal\<rparr>)) (\<lambda>_.
           bind_op (commit_journal (sy_updated_at sy) journal) (\<lambda>_. done_op result))))"

definition transition_unlocked :: "system_inputs \<Rightarrow> transition_request \<Rightarrow> json op" where
  "transition_unlocked sy q =
     bind_op (reading require_initialized) (\<lambda>_.
     bind_op (recover_transition (sy_updated_at sy)) (\<lambda>_.
     bind_op (reading (find_message (tr_key q))) (\<lambda>existing.
       case existing of
         Some m \<Rightarrow>
           if \<not> get_eq m ''content_digest'' (JStr (request_digest q))
           then record_failure sy
             (ControlPlaneError ''VALP-E-IDEMPOTENCY-CONFLICT''
               ''Idempotency key was reused with different content'' unchanged)
             (dget ''message_id'' m)
           else done_op (py_or (dget ''result'' m)
             (JObj [(''message_id'', dget ''message_id'' m), (''revision'', dget ''result_revision'' m)]))
       | None \<Rightarrow> new_transition sy q)))"

section \<open>Replay\<close>

text \<open>\<^verbatim>\<open>message_by_id\<close> is the list of the messages so far, whose identities are distinct.\<close>

fun check_messages :: "int \<Rightarrow> json list \<Rightarrow> json list \<Rightarrow> unit cres" where
  "check_messages n seen [] = Inr ()"
| "check_messages n seen (m # ms) =
     bind_res (refuse_if (\<not> get_eq m ''installation_sequence'' (JInt n))
       (inconsistent_blocked ''Accepted message sequence has a gap'')) (\<lambda>_.
     bind_res (refuse_if (\<not> get_eq m ''message_digest'' (JStr (digest_without m ''message_digest'')))
       (inconsistent_blocked ''Message digest mismatch'')) (\<lambda>_.
     bind_res (py (in_keys (dget ''message_id'' m) (map (dget ''message_id'') seen))) (\<lambda>known.
     bind_res (refuse_if known (inconsistent_blocked ''Duplicate accepted message id'')) (\<lambda>_.
       check_messages (n + 1) (seen @ [m]) ms))))"

definition message_for :: "json list \<Rightarrow> json \<Rightarrow> json option cres" where
  "message_for messages key =
     (if hashable key then Inr (List.find (\<lambda>m. py_eq (dget ''message_id'' m) key) messages)
      else Inl (PyFault (TypeError ''unhashable type'')))"

definition event_agrees :: "json \<Rightarrow> json \<Rightarrow> json \<Rightarrow> int \<Rightarrow> bool" where
  "event_agrees message event projection prior_revision \<longleftrightarrow>
     (let result = dget ''result'' message in
      py_eq (dget ''projection_digest'' projection) (JStr (state_digest projection)) \<and>
      py_eq (dget ''prior_revision'' event) (JInt prior_revision) \<and>
      py_eq (dget ''new_revision'' event) (JInt (prior_revision + 1)) \<and>
      agree projection ''revision'' event ''new_revision'' \<and>
      agree projection ''last_event_id'' event ''event_id'' \<and>
      agree projection ''last_event_digest'' event ''prior_event_digest'' \<and>
      agree projection ''updated_at'' event ''occurred_at'' \<and>
      agree projection ''installation_id'' event ''installation_id'' \<and>
      agree message ''expected_state_revision'' event ''prior_revision'' \<and>
      agree message ''sender_principal_id'' event ''actor_principal_id'' \<and>
      agree message ''leader_epoch'' event ''leader_epoch'' \<and>
      py_eq (dget ''content_digest'' message) (JStr (message_content_digest message)) \<and>
      py_eq (dget ''payload'' event) (event_payload (dget ''payload'' message) projection) \<and>
      is_obj result \<and>
      agree result ''message_id'' message ''message_id'' \<and>
      agree result ''event_id'' event ''event_id'' \<and>
      agree result ''revision'' event ''new_revision'' \<and>
      agree result ''status'' projection ''status'')"

text \<open>The loop over the events; the revision of the last event equals the given integer.\<close>

record replay_cursor =
  rk_ids :: "json list"
  rk_messages :: "json list"
  rk_digest :: json
  rk_revision :: int
  rk_state :: json

definition replay_event :: "json list \<Rightarrow> int \<Rightarrow> replay_cursor \<Rightarrow> json \<Rightarrow> replay_cursor cres" where
  "replay_event messages n c e =
     bind_res (refuse_if (\<not> get_eq e ''installation_sequence'' (JInt n))
       (inconsistent_blocked ''Event sequence has a gap'')) (\<lambda>_.
     bind_res (message_for messages (dget ''accepted_message_id'' e)) (\<lambda>found.
     case found of
       None \<Rightarrow> Inl (inconsistent_blocked ''Event is missing its accepted message'')
     | Some m \<Rightarrow>
         bind_res (refuse_if (\<not> truthy m \<or> \<not> agree m ''event_id'' e ''event_id'')
           (inconsistent_blocked ''Event is missing its accepted message'')) (\<lambda>_.
         bind_res (py (in_keys (dget ''event_id'' e) (rk_ids c))) (\<lambda>event_known.
         bind_res (refuse_if (event_known \<or> list_ex (py_eq (dget ''accepted_message_id'' e)) (rk_messages c))
           (inconsistent_blocked ''Message and event identity is not one-to-one'')) (\<lambda>_.
         bind_res (refuse_if (\<not> py_eq (dget ''prior_event_digest'' e) (rk_digest c))
           (inconsistent_blocked ''Event chain digest mismatch'')) (\<lambda>_.
         bind_res (refuse_if (\<not> get_eq e ''event_digest'' (JStr (digest_without e ''event_digest'')))
           (inconsistent_blocked ''Event digest mismatch'')) (\<lambda>_.
         let payload = dget ''payload'' e;
             projection = (if is_obj payload then dget ''state_projection'' payload else JNull)
         in
         bind_res (refuse_if (\<not> is_obj projection)
           (inconsistent_blocked ''Event has no state projection'')) (\<lambda>_.
         bind_res (validate_transition_contract True m e projection (rk_state c)) (\<lambda>_.
         bind_res (refuse_if (\<not> event_agrees m e projection (rk_revision c))
           (inconsistent_blocked ''Event projection or accepted message conflicts with replay'')) (\<lambda>_.
         Inr \<lparr>rk_ids = dget ''event_id'' e # rk_ids c,
              rk_messages = dget ''accepted_message_id'' e # rk_messages c,
              rk_digest = dget ''event_digest'' e, rk_revision = rk_revision c + 1,
              rk_state = sealed (dset ''last_event_digest'' (dget ''event_digest'' e) projection)\<rparr>))))))))))"

fun replay_events :: "json list \<Rightarrow> int \<Rightarrow> replay_cursor \<Rightarrow> json list \<Rightarrow> replay_cursor cres" where
  "replay_events messages n c [] = Inr c"
| "replay_events messages n c (e # es) =
     bind_res (replay_event messages n c e) (\<lambda>c'. replay_events messages (n + 1) c' es)"

definition replay_start :: "json \<Rightarrow> string \<Rightarrow> replay_cursor" where
  "replay_start installation_id now =
     \<lparr>rk_ids = [], rk_messages = [], rk_digest = JNull, rk_revision = 0,
      rk_state = empty_state installation_id now\<rparr>"

definition replay_installation :: "string \<Rightarrow> installation_disk \<Rightarrow> json cres" where
  "replay_installation now d =
     bind_res (require_initialized d) (\<lambda>_.
     bind_res (refuse_if (exists_doc (id_journal d))
       (inconsistent_blocked ''Pending transition journal requires recovery before replay'')) (\<lambda>_.
     bind_res (messages_of d) (\<lambda>messages.
     bind_res (check_messages 1 [] messages) (\<lambda>_.
     bind_res (events_of d) (\<lambda>events.
     bind_res (installation_doc d) (\<lambda>i.
     bind_res (sub ''installation_id'' i) (\<lambda>iid.
     bind_res (replay_events messages 1 (replay_start iid now) events) (\<lambda>c.
     bind_res (refuse_if
       (\<not> list_all (\<lambda>m. list_ex (py_eq (dget ''message_id'' m)) (rk_messages c)) messages)
       (inconsistent_blocked ''Accepted message ledger contains an orphan record'')) (\<lambda>_.
     let current = (if events = [] then sealed (rk_state c) else rk_state c) in
     bind_res (state_file d) (\<lambda>persisted.
     bind_res (refuse_if (\<not> get_eq persisted ''projection_digest'' (JStr (state_digest persisted)))
       (inconsistent_blocked ''Persisted state digest mismatch'')) (\<lambda>_.
     bind_res (refuse_if (\<not> py_eq persisted current)
       (inconsistent_blocked ''State projection differs from event replay'')) (\<lambda>_.
     Inr current))))))))))))"

end
