(* ===== verification/Control_Commit.thy ===== *)
theory Control_Commit
  imports Control_Transition
begin

text \<open>
  Crash safety of transitions. Once the journal is on disk, the commit is a fixed sequence of writes;
  from every point of this sequence the checks of the journal succeed again and the remaining writes
  lead to the same files.
\<close>

section \<open>Operations\<close>

lemma op_simps [simp]:
  "bind_op (done_op x) f = f x"
  "bind_op (fail_op e) f = fail_op e"
  "bind_op (reading r) h (d, n) = (case r d of Inl e \<Rightarrow> (Inl e, d, n) | Inr z \<Rightarrow> h z (d, n))"
  "bind_op (writing w) g (d, 0) = (Inl Crash, d, 0)"
  "bind_op (writing w) g (d, Suc n) = g () (w d, n)"
  "done_op y s = (Inr y, s)"
  "fail_op e s = (Inl e, s)"
  "when_op True m = m"
  "when_op False m = done_op ()"
  by (auto simp: bind_op_def done_op_def fail_op_def reading_def writing_def when_op_def fun_eq_iff
      split: sum.splits)

lemma bind_op_assoc: "bind_op (bind_op m f) g = bind_op m (\<lambda>x. bind_op (f x) g)"
  by (rule ext) (simp add: bind_op_def split: prod.splits sum.splits)

lemma refuse_if_simps [simp]:
  "refuse_if False e = Inr ()" "refuse_if True e = Inl e" "refuse_if b e = Inr u \<longleftrightarrow> \<not> b"
  by (simp_all add: refuse_if_def)

lemma py_Inr_iff [simp]: "py r = Inr x \<longleftrightarrow> r = Inr x"
  by (cases r) simp_all

text \<open>A sequence of writes, cut where the budget ends.\<close>

fun run_writes :: "(installation_disk \<Rightarrow> installation_disk) list \<Rightarrow> unit op" where
  "run_writes [] = done_op ()"
| "run_writes (w # ws) = bind_op (writing w) (\<lambda>_. run_writes ws)"

lemma run_writes_result:
  "run_writes ws (d, n) =
     (if length ws \<le> n then (Inr (), fold (\<lambda>w. w) ws d, n - length ws)
      else (Inl Crash, fold (\<lambda>w. w) (take n ws) d, 0))"
proof (induction ws arbitrary: d n)
  case (Cons w ws)
  then show ?case by (cases n) simp_all
qed simp

lemma run_writes_append: "run_writes (ws @ vs) = bind_op (run_writes ws) (\<lambda>_. run_writes vs)"
proof (induction ws)
  case Nil
  show ?case by (simp del: op_simps(6) add: op_simps(1))
next
  case (Cons w ws)
  then show ?case by (simp add: bind_op_assoc)
qed

section \<open>Ledgers\<close>

lemma read_lines_append:
  "read_lines name n (ls @ ls') =
     bind_res (read_lines name n ls) (\<lambda>xs. bind_res (read_lines name (n + length ls) ls') (\<lambda>ys. Inr (xs @ ys)))"
proof (induction name n ls rule: read_lines.induct)
  case (3 name n v ls)
  then show ?case by (cases "read_lines name (Suc n) ls"; cases "read_lines name (Suc (n + length ls)) ls'") auto
qed (simp_all add: bind_res_def split: sum.splits)

text \<open>A ledger with one more line is read as one more record, when it can be read at all.\<close>

lemma read_jsonl_append:
  assumes "read_jsonl name f = Inr xs" and "read_jsonl name (f\<lparr>lf_lines := lf_lines f @ [written_line v]\<rparr>) = Inr ys"
  shows "ys = xs @ [v]"
  using assms
  by (auto simp: read_jsonl_def read_lines_append bind_res_Inr_iff written_line_def split: if_splits)

lemma read_jsonl_objects: "read_lines name n ls = Inr xs \<Longrightarrow> x \<in> set xs \<Longrightarrow> is_obj x"
  by (induction name n ls arbitrary: xs rule: read_lines.induct) (auto simp: bind_res_Inr_iff split: if_splits)

section \<open>The contract does not depend on more of the prior state than it names\<close>

lemma table_keys_letters:
  "map_of LEGAL_TRANSITIONS k = Some x \<Longrightarrow> \<exists>c cs. k = c # cs \<and> CHR ''a'' \<le> c \<and> c \<le> CHR ''z''"
  by (auto simp: LEGAL_TRANSITIONS_def less_eq_char_def split: if_splits)

lemma int_str_first: "int_str i = c # cs \<Longrightarrow> \<not> CHR ''a'' \<le> c"
  using hd_int_str [of i] by (auto simp: is_digit_def less_eq_char_def)

lemma legal_status_is_str:
  assumes "t \<in> set (row LEGAL_TRANSITIONS (py_str v))"
  shows "\<exists>s. v = JStr s"
proof -
  obtain xs where "map_of LEGAL_TRANSITIONS (py_str v) = Some xs"
    using assms by (cases "map_of LEGAL_TRANSITIONS (py_str v)") (simp_all add: row_def)
  from table_keys_letters [OF this] show ?thesis
    by (cases v) (auto simp: less_eq_char_def split: if_splits dest: int_str_first [unfolded less_eq_char_def])
qed

text \<open>Two prior states that agree but for their time and their digest.\<close>

definition same_authority :: "json \<Rightarrow> json \<Rightarrow> bool" where
  "same_authority p p' \<longleftrightarrow>
     (\<forall>f. f \<notin> {''updated_at'', ''projection_digest''} \<longrightarrow> py_eq (dget f p) (dget f p'))"

lemma py_eq_same_authority: "py_eq p p' \<Longrightarrow> same_authority p p'"
  using py_eq_get by (auto simp: same_authority_def)

lemma jget_revision:
  assumes "py_eq (dget k p) (JInt r)"
  shows "\<exists>x. jget k p = Some x \<and> py_eq x (JInt r)"
  using assms by (cases "jget k p") (auto simp: dget_def)

lemma dget_no_key: "f \<notin> set (keys v) \<Longrightarrow> dget f v = JNull"
  by (cases v) (force simp: dget_def keys_def split: option.splits dest: map_of_SomeD)+

lemma changed_fields_ex:
  "list_ex P (changed_fields p q) \<longleftrightarrow> (\<exists>f. P f \<and> \<not> py_eq (dget f p) (dget f q))"
proof -
  have "f \<in> set (keys p) \<union> set (keys q)" if "\<not> py_eq (dget f p) (dget f q)" for f
    using that dget_no_key [of f p] dget_no_key [of f q] by (metis UnCI py_eq_refl)
  then show ?thesis by (auto simp: changed_fields_def list_ex_iff)
qed

definition event_kind_of :: "json \<Rightarrow> string" where
  "event_kind_of e = py_str (py_or (dget ''event_kind'' e) (JStr ''''))"

definition legacy_restart :: "bool \<Rightarrow> json \<Rightarrow> bool" where
  "legacy_restart b e \<longleftrightarrow> b \<and> event_kind_of e = ''leader_restart_requested''"

definition bound_fields :: "bool \<Rightarrow> json \<Rightarrow> json \<Rightarrow> string list" where
  "bound_fields b e payload =
     row TRANSITION_PAYLOAD_STATE_FIELDS (event_kind_of e) @
     (if legacy_restart b e \<and> ''selected_leader'' \<in> set (keys payload) then [''selected_leader''] else [])"

definition legal_move :: "bool \<Rightarrow> json \<Rightarrow> json \<Rightarrow> string \<Rightarrow> bool" where
  "legal_move b e status target \<longleftrightarrow>
     target \<in> set (row LEGAL_TRANSITIONS (py_str status)) \<or>
     legacy_restart b e \<and> py_eq status (JStr ''blocked'') \<and> target = ''restarting_leader''"

text \<open>The contract as a conjunction.\<close>

lemma validate_iff:
  "validate_transition_contract b m e pr p = Inr () \<longleftrightarrow>
     (\<exists>kind sender target n bl.
        map_of TRANSITION_CONTRACTS (event_kind_of e) = Some (kind, sender) \<and>
        map_of TRANSITION_TARGETS (event_kind_of e) = Some target \<and>
        py_eq (dget ''kind'' m) (JStr kind) \<and> py_eq (dget ''sender_kind'' m) (JStr sender) \<and>
        truthy (expected_principal (dget ''sender_kind'' m) pr) \<and>
        py_eq (dget ''sender_principal_id'' m) (expected_principal (dget ''sender_kind'' m) pr) \<and>
        py_eq (dget ''actor_principal_id'' e) (expected_principal (dget ''sender_kind'' m) pr) \<and>
        is_obj (dget ''payload'' m) \<and> py_eq (dget ''status'' pr) (JStr target) \<and>
        legal_move b e (dget ''status'' p) target \<and>
        py_eq (dget ''prior_revision'' e) (dget ''revision'' p) \<and>
        plus_one (case jget ''revision'' p of None \<Rightarrow> JInt (-1) | Some r \<Rightarrow> r) = Inr n \<and>
        py_eq (dget ''revision'' pr) (JInt n) \<and>
        py_eq (dget ''last_event_id'' pr) (dget ''event_id'' e) \<and>
        py_eq (dget ''last_event_digest'' pr) (dget ''prior_event_digest'' e) \<and>
        py_eq (dget ''updated_at'' pr) (dget ''occurred_at'' e) \<and>
        (\<forall>f\<in>set protected_fields. f \<in> set (keys (dget ''payload'' m)) \<longrightarrow>
           f \<notin> set (bound_fields b e (dget ''payload'' m)) \<longrightarrow>
           py_eq (dget f (dget ''payload'' m)) (dget f p) \<and> py_eq (dget f pr) (dget f p)) \<and>
        (\<forall>f\<in>set (bound_fields b e (dget ''payload'' m)).
           f \<in> set (keys (dget ''payload'' m)) \<and> py_eq (dget f pr) (dget f (dget ''payload'' m))) \<and>
        expected_blockers target (event_kind_of e) (dget ''payload'' m) p = Inr bl \<and>
        py_eq (dget ''active_blockers'' pr) bl \<and>
        (\<forall>f. f \<notin> set transition_fields \<longrightarrow> f \<notin> set (bound_fields b e (dget ''payload'' m)) \<longrightarrow>
           py_eq (dget f p) (dget f pr)))"
proof (cases "map_of TRANSITION_CONTRACTS (event_kind_of e)")
  case None
  then show ?thesis by (simp add: validate_transition_contract_def event_kind_of_def Let_def)
next
  case (Some ks)
  show ?thesis
  proof (cases "map_of TRANSITION_TARGETS (event_kind_of e)")
    case None
    with Some show ?thesis
      by (cases ks) (simp add: validate_transition_contract_def event_kind_of_def Let_def)
  next
    case (Some target)
    obtain kind sender where c: "map_of TRANSITION_CONTRACTS (event_kind_of e) = Some (kind, sender)"
      using \<open>map_of TRANSITION_CONTRACTS (event_kind_of e) = Some ks\<close> by (cases ks) simp
    show ?thesis
      unfolding validate_transition_contract_def event_kind_of_def [symmetric] Let_def c Some option.case prod.case
        bind_res_Inr_iff refuse_if_simps py_Inr_iff changed_fields_ex
        legacy_restart_def [symmetric] bound_fields_def [symmetric]
      unfolding list_ex_iff legal_move_def by simp blast
  qed
qed

lemma validate_prior_cong:
  assumes ok: "validate_transition_contract b m e pr p = Inr ()" and sim: "same_authority p p'"
    and rev: "py_eq (dget ''prior_revision'' e) (JInt r)"
  shows "validate_transition_contract b m e pr p' = Inr ()"
proof -
  have get: "py_eq (dget f p) (dget f p')" if "f \<notin> {''updated_at'', ''projection_digest''}" for f
    using sim that by (simp add: same_authority_def)
  have right: "py_eq y (dget f p') \<longleftrightarrow> py_eq y (dget f p)"
    and left: "py_eq (dget f p') y \<longleftrightarrow> py_eq (dget f p) y"
    if "f \<notin> {''updated_at'', ''projection_digest''}" for f y
    using py_eq_right [OF get [OF that]] py_eq_left [OF get [OF that]] by simp_all
  from ok [unfolded validate_iff] obtain kind sender target n bl where v:
      "legal_move b e (dget ''status'' p) target" "py_eq (dget ''prior_revision'' e) (dget ''revision'' p)"
      "plus_one (case jget ''revision'' p of None \<Rightarrow> JInt (-1) | Some r \<Rightarrow> r) = Inr n"
      "expected_blockers target (event_kind_of e) (dget ''payload'' m) p = Inr bl"
      "py_eq (dget ''active_blockers'' pr) bl"
    and rest: "map_of TRANSITION_CONTRACTS (event_kind_of e) = Some (kind, sender)"
      "map_of TRANSITION_TARGETS (event_kind_of e) = Some target"
      "py_eq (dget ''revision'' pr) (JInt n)"
    by blast
  have status: "dget ''status'' p' = dget ''status'' p"
  proof -
    obtain s where "dget ''status'' p = JStr s"
      using v(1) legal_status_is_str by (auto simp: legal_move_def)
    with get [of "''status''"] show ?thesis by simp
  qed
  have "py_eq (dget ''revision'' p) (JInt r)" using py_eq_trans [OF py_eq_sym [OF v(2)] rev] .
  moreover from this have "py_eq (dget ''revision'' p') (JInt r)" using left [of "''revision''"] by simp
  ultimately have plus: "plus_one (case jget ''revision'' p' of None \<Rightarrow> JInt (-1) | Some r \<Rightarrow> r) = Inr n"
    using v(3) jget_revision py_eq_plus_one by (metis option.simps(5))
  obtain bl' where bl': "expected_blockers target (event_kind_of e) (dget ''payload'' m) p' = Inr bl'"
    "py_eq (dget ''active_blockers'' pr) bl'"
    using v(4,5) right [of "''active_blockers''"] by (auto simp: expected_blockers_def split: if_splits)
  have plain: "f \<notin> {''updated_at'', ''projection_digest''}"
    if "f \<in> set protected_fields \<or> f \<notin> set transition_fields" for f
    using that by (auto simp: protected_fields_def transition_fields_def)
  show ?thesis
    unfolding validate_iff
    apply (rule exI [of _ kind], rule exI [of _ sender], rule exI [of _ target], rule exI [of _ n], rule exI [of _ bl'])
    using ok [unfolded validate_iff] rest bl' plus status
    by (simp add: right [OF plain] left [OF plain] right [of "''revision''"] cong: conj_cong) blast
qed

lemma validate_legacy:
  assumes "validate_transition_contract False m e pr p = Inr ()"
  shows "validate_transition_contract True m e pr p = Inr ()"
proof -
  let ?p = "dget ''payload'' m"
  have subset: "set (bound_fields False e ?p) \<subseteq> set (bound_fields True e ?p)"
    by (auto simp: bound_fields_def legacy_restart_def)
  from assms [unfolded validate_iff] obtain kind sender target n bl where v:
      "map_of TRANSITION_CONTRACTS (event_kind_of e) = Some (kind, sender)"
      "map_of TRANSITION_TARGETS (event_kind_of e) = Some target"
      "legal_move False e (dget ''status'' p) target"
      "plus_one (case jget ''revision'' p of None \<Rightarrow> JInt (-1) | Some r \<Rightarrow> r) = Inr n"
      "py_eq (dget ''revision'' pr) (JInt n)"
      "expected_blockers target (event_kind_of e) ?p p = Inr bl" "py_eq (dget ''active_blockers'' pr) bl"
    and prot: "\<forall>f\<in>set protected_fields. f \<in> set (keys ?p) \<longrightarrow> f \<notin> set (bound_fields False e ?p) \<longrightarrow>
        py_eq (dget f ?p) (dget f p) \<and> py_eq (dget f pr) (dget f p)"
    and bound: "\<forall>f\<in>set (bound_fields False e ?p). f \<in> set (keys ?p) \<and> py_eq (dget f pr) (dget f ?p)"
    and other: "\<forall>f. f \<notin> set transition_fields \<longrightarrow> f \<notin> set (bound_fields False e ?p) \<longrightarrow> py_eq (dget f p) (dget f pr)"
    by blast
  have "f \<in> set (keys ?p) \<and> py_eq (dget f pr) (dget f ?p)" if "f \<in> set (bound_fields True e ?p)" for f
  proof (cases "f \<in> set (bound_fields False e ?p)")
    case False
    with that have "f = ''selected_leader''" "f \<in> set (keys ?p)"
      by (auto simp: bound_fields_def legacy_restart_def split: if_splits)
    with False prot show ?thesis by (auto simp: protected_fields_def intro: py_eq_trans py_eq_sym)
  qed (use bound in blast)
  note now_bound = this
  have moved: "legal_move True e (dget ''status'' p) target"
    using v(3) by (simp add: legal_move_def legacy_restart_def)
  show ?thesis
    unfolding validate_iff
    apply (rule exI [of _ kind], rule exI [of _ sender], rule exI [of _ target], rule exI [of _ n], rule exI [of _ bl])
    using assms [unfolded validate_iff] v prot other subset now_bound moved by (auto simp: subset_iff)
qed


section \<open>The commit as a sequence of writes\<close>

definition add_message :: "json \<Rightarrow> installation_disk \<Rightarrow> installation_disk" where
  "add_message m d = d\<lparr>id_messages := (id_messages d)\<lparr>lf_lines := lf_lines (id_messages d) @ [written_line m]\<rparr>\<rparr>"

definition add_event :: "json \<Rightarrow> installation_disk \<Rightarrow> installation_disk" where
  "add_event e d = d\<lparr>id_events := (id_events d)\<lparr>lf_lines := lf_lines (id_events d) @ [written_line e]\<rparr>\<rparr>"

definition put_state :: "json \<Rightarrow> installation_disk \<Rightarrow> installation_disk" where
  "put_state s d = d\<lparr>id_state := Doc s\<rparr>"

definition put_installation :: "json \<Rightarrow> installation_disk \<Rightarrow> installation_disk" where
  "put_installation i d = d\<lparr>id_installation := Doc i\<rparr>"

definition clear_journal :: "installation_disk \<Rightarrow> installation_disk" where
  "clear_journal d = d\<lparr>id_journal := Missing\<rparr>"

lemmas write_defs = add_message_def add_event_def put_state_def put_installation_def clear_journal_def

lemma write_frames [simp]:
  "id_events (add_message m d) = id_events d" "id_installation (add_message m d) = id_installation d"
  "id_state (add_message m d) = id_state d" "id_journal (add_message m d) = id_journal d"
  "id_messages (add_event e d) = id_messages d" "id_installation (add_event e d) = id_installation d"
  "id_state (add_event e d) = id_state d" "id_journal (add_event e d) = id_journal d"
  "id_messages (put_state s d) = id_messages d" "id_events (put_state s d) = id_events d"
  "id_installation (put_state s d) = id_installation d" "id_journal (put_state s d) = id_journal d"
  "id_state (put_state s d) = Doc s" "id_installation (put_installation i d) = Doc i"
  "id_messages (put_installation i d) = id_messages d" "id_events (put_installation i d) = id_events d"
  "id_state (put_installation i d) = id_state d" "id_journal (put_installation i d) = id_journal d"
  "id_journal (clear_journal d) = Missing" "id_messages (clear_journal d) = id_messages d"
  "id_events (clear_journal d) = id_events d" "id_state (clear_journal d) = id_state d"
  "id_installation (clear_journal d) = id_installation d"
  "lf_torn (id_messages (add_message m d)) = lf_torn (id_messages d)"
  "lf_torn (id_events (add_event e d)) = lf_torn (id_events d)"
  by (simp_all add: write_defs)

lemma installation_doc_cong:
  "id_installation d' = id_installation d \<Longrightarrow> id_state d' = id_state d \<Longrightarrow> installation_doc d' = installation_doc d"
  by (simp add: installation_doc_def require_initialized_def)

lemma installation_doc_put_state:
  "installation_doc d = Inr i \<Longrightarrow> installation_doc (put_state s d) = Inr i"
  by (auto simp: installation_doc_def require_initialized_def exists_doc_def bind_res_Inr_iff)

definition plan_tail :: "json \<Rightarrow> bool \<Rightarrow> (installation_disk \<Rightarrow> installation_disk) list" where
  "plan_tail i' same = (if same then [] else [put_installation i']) @ [clear_journal]"

definition plan ::
  "json \<Rightarrow> json \<Rightarrow> json \<Rightarrow> json \<Rightarrow> bool \<Rightarrow> bool \<Rightarrow> bool \<Rightarrow> bool \<Rightarrow> (installation_disk \<Rightarrow> installation_disk) list" where
  "plan m e ns i' mt et ss si =
     (if mt then [] else [add_message m]) @ (if et then [] else [add_event e]) @
     (if ss then [] else [put_state ns]) @ plan_tail i' si"

lemma writing_cong:
  "(\<And>k. f () (w d, k) = g () (w d, k)) \<Longrightarrow> bind_op (writing w) f (d, n) = bind_op (writing w) g (d, n)"
  by (cases n) simp_all

lemma append_atomic_untorn:
  "\<not> lf_torn (get d) \<Longrightarrow> bind_op (append_jsonl_atomic name get put v) f (d, n) =
     bind_op (writing (\<lambda>d. put ((get d)\<lparr>lf_lines := lf_lines (get d) @ [written_line v]\<rparr>) d)) f (d, n)"
  by (simp add: append_jsonl_atomic_def bind_op_assoc)

text \<open>The end of the commit: installation and journal.\<close>

definition finish_commit :: "json \<Rightarrow> unit op" where
  "finish_commit installation =
     bind_op (reading installation_doc) (\<lambda>i.
     bind_op (when_op (\<not> py_eq i installation)
       (if \<not> agree i ''installation_id'' installation ''installation_id''
        then fail_op (inconsistent ''Transition installation conflicts with journal'')
        else writing (\<lambda>d. d\<lparr>id_installation := Doc installation\<rparr>))) (\<lambda>_.
     writing (\<lambda>d. d\<lparr>id_journal := Missing\<rparr>)))"

lemma finish_commit_plan:
  assumes "installation_doc d = Inr i" and "py_eq i i' \<or> agree i ''installation_id'' i' ''installation_id''"
  shows "finish_commit i' (d, n) = run_writes (plan_tail i' (py_eq i i')) (d, n)"
proof -
  have last: "writing (\<lambda>d. d\<lparr>id_journal := Missing\<rparr>) = run_writes [clear_journal]"
    by (rule ext) (simp add: bind_op_def done_op_def clear_journal_def [abs_def] split: prod.splits sum.splits)
  show ?thesis
  proof (cases "py_eq i i'")
    case True
    then show ?thesis using assms by (simp add: finish_commit_def plan_tail_def last del: run_writes.simps)
  next
    case False
    then show ?thesis
      using assms by (simp add: finish_commit_def plan_tail_def last put_installation_def [abs_def])
  qed
qed

lemma commit_plan:
  assumes check: "check_journal now j d = Inr (m, e, ns, i', p, mt, et)"
    and torn: "mt \<or> \<not> lf_torn (id_messages d)" "et \<or> \<not> lf_torn (id_events d)"
    and i: "installation_doc d = Inr i" "py_eq i i' \<or> agree i ''installation_id'' i' ''installation_id''"
  shows "commit_journal now j (d, n) = run_writes (plan m e ns i' mt et (py_eq p ns) (py_eq i i')) (d, n)"
proof -
  have tail: "bind_op (when_op (\<not> py_eq p ns) (writing (\<lambda>d. d\<lparr>id_state := Doc ns\<rparr>))) (\<lambda>_. finish_commit i') (d', n) =
      run_writes ((if py_eq p ns then [] else [put_state ns]) @ plan_tail i' (py_eq i i')) (d', n)"
    if "id_installation d' = id_installation d" "id_state d' = id_state d" for d' n
  proof -
    have i': "installation_doc d' = Inr i" using i(1) installation_doc_cong [OF that] by simp
    show ?thesis
    proof (cases "py_eq p ns")
      case True
      then show ?thesis using finish_commit_plan [OF i' i(2)] by simp
    next
      case False
      have "finish_commit i' (put_state ns d', k) = run_writes (plan_tail i' (py_eq i i')) (put_state ns d', k)" for k
        using finish_commit_plan [OF installation_doc_put_state [OF i'] i(2)] .
      then show ?thesis using False by (auto simp: put_state_def [abs_def] intro!: writing_cong)
    qed
  qed
  have events: "bind_op (when_op (\<not> et) (append_jsonl_atomic ''events.jsonl'' id_events (\<lambda>f d. d\<lparr>id_events := f\<rparr>) e))
      (\<lambda>_. bind_op (when_op (\<not> py_eq p ns) (writing (\<lambda>d. d\<lparr>id_state := Doc ns\<rparr>))) (\<lambda>_. finish_commit i')) (d', n) =
      run_writes ((if et then [] else [add_event e]) @ (if py_eq p ns then [] else [put_state ns]) @
        plan_tail i' (py_eq i i')) (d', n)"
    if "id_installation d' = id_installation d" "id_state d' = id_state d" "id_events d' = id_events d" for d' n
  proof (cases et)
    case True
    then show ?thesis using tail [OF that(1,2)] by simp
  next
    case False
    then have "\<not> lf_torn (id_events d')" using torn(2) that(3) by simp
    with False show ?thesis using tail that(1,2)
      by (auto simp: append_atomic_untorn add_event_def [abs_def] intro!: writing_cong)
  qed
  have "commit_journal now j (d, n) =
      bind_op (when_op (\<not> mt) (append_jsonl_atomic ''messages.jsonl'' id_messages (\<lambda>f d. d\<lparr>id_messages := f\<rparr>) m))
        (\<lambda>_. bind_op (when_op (\<not> et) (append_jsonl_atomic ''events.jsonl'' id_events (\<lambda>f d. d\<lparr>id_events := f\<rparr>) e))
        (\<lambda>_. bind_op (when_op (\<not> py_eq p ns) (writing (\<lambda>d. d\<lparr>id_state := Doc ns\<rparr>))) (\<lambda>_. finish_commit i'))) (d, n)"
    using check by (simp add: commit_journal_def finish_commit_def [abs_def])
  also have "\<dots> = run_writes (plan m e ns i' mt et (py_eq p ns) (py_eq i i')) (d, n)"
  proof (cases mt)
    case True
    then show ?thesis using events by (simp add: plan_def)
  next
    case False
    with torn(1) show ?thesis using events
      by (auto simp: append_atomic_untorn plan_def add_message_def [abs_def] intro!: writing_cong)
  qed
  finally show ?thesis .
qed

section \<open>The checks at every point of the commit\<close>

definition journal_sound :: "json \<Rightarrow> json \<Rightarrow> json \<Rightarrow> json \<Rightarrow> json \<Rightarrow> bool" where
  "journal_sound j m e ns i' \<longleftrightarrow>
     m = dget ''message'' j \<and> e = dget ''event'' j \<and> ns = dget ''next_state'' j \<and> i' = dget ''installation'' j \<and>
     py_eq (dget ''schema_version'' j) (JStr ''valp-transition-journal.v1'') \<and>
     py_eq (dget ''journal_digest'' j) (JStr (digest_without j ''journal_digest'')) \<and>
     is_obj m \<and> is_obj e \<and> is_obj ns \<and> is_obj i' \<and> records_agree m e ns i'"

lemma check_journal_iff:
  "check_journal now j d = Inr (m, e, ns, i', p, mt, et) \<longleftrightarrow>
     journal_sound j m e ns i' \<and>
     (\<exists>ms mid es eid prior.
        messages_of d = Inr ms \<and> key_of ''message_id'' m ms = Inr mid \<and>
        ledger_tail ''message'' ''message_id'' ms mid m = Inr mt \<and>
        get_eq m ''installation_sequence'' (JInt (expected_sequence ms mt)) \<and>
        events_of d = Inr es \<and> key_of ''event_id'' e es = Inr eid \<and>
        ledger_tail ''event'' ''event_id'' es eid e = Inr et \<and>
        get_eq e ''installation_sequence'' (JInt (expected_sequence es et)) \<and>
        py_eq (dget ''prior_event_digest'' e) (expected_prior_digest es et) \<and>
        state_file d = Inr p \<and> prior_state_of now p ns e es et = Inr prior \<and>
        validate_transition_contract False m e (embedded_projection ns e) prior = Inr ())"
  unfolding check_journal_def Let_def bind_res_Inr_iff refuse_if_simps journal_sound_def
  by (auto 0 4)

lemma ledger_tail_iff:
  "ledger_tail what key lines k r = Inr there \<longleftrightarrow>
     there = (\<exists>x\<in>set lines. py_eq (dget key x) k) \<and>
     (there \<longrightarrow> py_eq (last lines) r \<and> length (filter (\<lambda>x. py_eq (dget key x) k) lines) = 1 \<and>
        py_eq (hd (filter (\<lambda>x. py_eq (dget key x) k) lines)) r)"
  by (auto simp: ledger_tail_def Let_def bind_res_Inr_iff filter_empty_conv)

lemma ledger_tail_append:
  assumes "\<not> (\<exists>x\<in>set xs. py_eq (dget key x) k)" and "dget key r = k"
  shows "ledger_tail what key (xs @ [r]) k r = Inr True"
  using assms by (auto simp: ledger_tail_iff filter_empty_conv)

text \<open>A journal none of whose writes has happened.\<close>

definition fresh ::
  "json \<Rightarrow> installation_disk \<Rightarrow> json \<Rightarrow> json \<Rightarrow> json \<Rightarrow> json \<Rightarrow> json \<Rightarrow> json list \<Rightarrow> json list \<Rightarrow> bool" where
  "fresh j d m e ns i' p ms es \<longleftrightarrow>
     journal_sound j m e ns i' \<and> messages_of d = Inr ms \<and> events_of d = Inr es \<and>
     (\<exists>mid. jget ''message_id'' m = Some mid \<and> \<not> (\<exists>x\<in>set ms. py_eq (dget ''message_id'' x) mid)) \<and>
     (\<exists>eid. jget ''event_id'' e = Some eid \<and> \<not> (\<exists>x\<in>set es. py_eq (dget ''event_id'' x) eid)) \<and>
     get_eq m ''installation_sequence'' (JInt (int (length ms) + 1)) \<and>
     get_eq e ''installation_sequence'' (JInt (int (length es) + 1)) \<and>
     py_eq (dget ''prior_event_digest'' e) (expected_prior_digest es False) \<and>
     state_file d = Inr p \<and> agree p ''revision'' e ''prior_revision'' \<and>
     validate_transition_contract False m e (embedded_projection ns e) p = Inr ()"

lemma file_cong:
  "id_messages d' = id_messages d \<Longrightarrow> messages_of d' = messages_of d"
  "id_events d' = id_events d \<Longrightarrow> events_of d' = events_of d"
  "id_state d' = id_state d \<Longrightarrow> state_file d' = state_file d"
  by (simp_all add: messages_of_def events_of_def state_file_def)

lemma journal_sound_prior:
  assumes "journal_sound j m e ns i'"
  shows "\<exists>r. dget ''prior_revision'' e = JInt r \<and> py_eq (dget ''revision'' ns) (JInt (r + 1))"
proof -
  have "follows (dget ''prior_revision'' e) (dget ''new_revision'' e)" "agree e ''new_revision'' ns ''revision''"
    using assms by (auto simp: journal_sound_def records_agree_def Let_def)
  then show ?thesis
    by (cases "(dget ''prior_revision'' e, dget ''new_revision'' e)" rule: follows.cases)
       (auto simp: agree_def intro: py_eq_sym)
qed

lemma prior_written:
  assumes "journal_sound j m e ns i'"
  shows "\<not> agree ns ''revision'' e ''prior_revision''"
proof
  assume "agree ns ''revision'' e ''prior_revision''"
  moreover obtain r where "dget ''prior_revision'' e = JInt r" "py_eq (dget ''revision'' ns) (JInt (r + 1))"
    using journal_sound_prior [OF assms] by blast
  ultimately have "py_eq (dget ''revision'' ns) (JInt r)" "py_eq (dget ''revision'' ns) (JInt (r + 1))"
    by (simp_all add: agree_def)
  from py_eq_trans [OF py_eq_sym [OF this(1)] this(2)] show False by simp
qed

lemma dget_jget: "jget k v = Some x \<Longrightarrow> dget k v = x"
  by (simp add: dget_def)

lemma fresh_checks:
  assumes f: "fresh j d m e ns i' p ms es"
    and ms: "messages_of (add_message m d) = Inr (ms @ [m])"
    and es: "events_of (add_event e d) = Inr (es @ [e])"
    and prior: "prior_state_of now ns ns e (es @ [e]) True = Inr q" "same_authority p q"
  shows "check_journal now j d = Inr (m, e, ns, i', p, False, False)"
    and "check_journal now j (add_message m d) = Inr (m, e, ns, i', p, True, False)"
    and "check_journal now j (add_event e (add_message m d)) = Inr (m, e, ns, i', p, True, True)"
    and "check_journal now j (put_state ns (add_event e (add_message m d))) = Inr (m, e, ns, i', ns, True, True)"
proof -
  obtain mid eid where id: "jget ''message_id'' m = Some mid" "\<not> (\<exists>x\<in>set ms. py_eq (dget ''message_id'' x) mid)"
      "jget ''event_id'' e = Some eid" "\<not> (\<exists>x\<in>set es. py_eq (dget ''event_id'' x) eid)"
    using f by (auto simp: fresh_def)
  have tails: "ledger_tail ''message'' ''message_id'' (ms @ [m]) mid m = Inr True"
    "ledger_tail ''event'' ''event_id'' (es @ [e]) eid e = Inr True"
    using id dget_jget by (auto intro!: ledger_tail_append)
  have tails0: "ledger_tail ''message'' ''message_id'' ms (if ms = [] then JNull else mid) m = Inr False"
    "ledger_tail ''event'' ''event_id'' es (if es = [] then JNull else eid) e = Inr False"
    using id by (auto simp: ledger_tail_iff)
  have keys: "key_of ''message_id'' m xs = Inr (if xs = [] then JNull else mid)"
    "key_of ''event_id'' e xs = Inr (if xs = [] then JNull else eid)" for xs
    using id by (simp_all add: key_of_def sub_def)
  have chain: "expected_prior_digest (es @ [e]) True = expected_prior_digest es False"
    by (cases es rule: rev_cases) (auto simp: expected_prior_digest_def before_last_def nth_append)
  have prior0: "prior_state_of now p ns e xs b = Inr p" for xs b
    using f by (simp add: fresh_def prior_state_of_def)
  obtain r where r: "dget ''prior_revision'' e = JInt r"
    using f journal_sound_prior [of j m e ns i'] unfolding fresh_def by blast
  have v: "validate_transition_contract False m e (embedded_projection ns e) q = Inr ()"
    using f validate_prior_cong [OF _ prior(2), of False m e _ r] r by (simp add: fresh_def)
  note base = f [unfolded fresh_def] keys tails tails0 chain prior0 v prior(1) ms es
  have f0: "messages_of d = Inr ms" "events_of d = Inr es" "state_file d = Inr p" "is_obj ns"
    using f by (auto simp: fresh_def journal_sound_def)
  have files: "messages_of (add_event e (add_message m d)) = Inr (ms @ [m])"
    "messages_of (put_state ns (add_event e (add_message m d))) = Inr (ms @ [m])"
    "events_of (add_message m d) = Inr es" "events_of (add_event e (add_message m d)) = Inr (es @ [e])"
    "events_of (put_state ns (add_event e (add_message m d))) = Inr (es @ [e])"
    "state_file (add_message m d) = Inr p" "state_file (add_event e (add_message m d)) = Inr p"
    "state_file (put_state ns (add_event e (add_message m d))) = Inr ns"
    using ms es file_cong [of "put_state ns (add_event e (add_message m d))" "add_event e (add_message m d)"]
      file_cong [of "add_event e (add_message m d)" "add_message m d"] file_cong(2,3) [of "add_message m d" d] f0
    by (simp_all add: events_of_def add_event_def state_file_def read_json_def)
  show "check_journal now j d = Inr (m, e, ns, i', p, False, False)"
    and "check_journal now j (add_message m d) = Inr (m, e, ns, i', p, True, False)"
    and "check_journal now j (add_event e (add_message m d)) = Inr (m, e, ns, i', p, True, True)"
    and "check_journal now j (put_state ns (add_event e (add_message m d))) = Inr (m, e, ns, i', ns, True, True)"
    unfolding check_journal_iff using base files
    by (simp_all add: expected_sequence_def add.commute)
qed

text \<open>From every point of the commit, committing again does the writes that are left.\<close>

lemma fresh_resumes:
  assumes f: "fresh j d m e ns i' p ms es"
    and ms: "messages_of (add_message m d) = Inr (ms @ [m])"
    and es: "events_of (add_event e d) = Inr (es @ [e])"
    and prior: "prior_state_of now ns ns e (es @ [e]) True = Inr q" "same_authority p q"
    and torn: "\<not> lf_torn (id_messages d)" "\<not> lf_torn (id_events d)"
    and i: "installation_doc d = Inr i" "py_eq i i' \<or> agree i ''installation_id'' i' ''installation_id''"
    and ws: "ws = plan m e ns i' False False False (py_eq i i')" and k: "k < length ws"
    and dk: "dk = fold (\<lambda>w. w) (take k ws) d"
  shows "commit_journal now j (dk, n) = run_writes (drop k ws) (dk, n) \<and> id_journal dk = id_journal d"
proof -
  let ?d1 = "add_message m d"
  let ?d2 = "add_event e ?d1"
  let ?d3 = "put_state ns ?d2"
  let ?d4 = "put_installation i' ?d3"
  note checks = fresh_checks [OF f ms es prior]
  have "\<not> agree ns ''revision'' e ''prior_revision''" "agree p ''revision'' e ''prior_revision''" "is_obj i'"
    using f prior_written by (auto simp: fresh_def journal_sound_def)
  then have differs: "\<not> py_eq p ns" using py_eq_get py_eq_left unfolding agree_def by blast
  have i1: "installation_doc ?d1 = Inr i" and i2: "installation_doc ?d2 = Inr i" and i3: "installation_doc ?d3 = Inr i"
    using i(1) installation_doc_cong [of ?d1 d] installation_doc_cong [of ?d2 ?d1] installation_doc_put_state
    by simp_all
  have i4: "installation_doc ?d4 = Inr i'"
    using \<open>is_obj i'\<close> by (simp add: installation_doc_def require_initialized_def exists_doc_def read_json_def)
  have check4: "check_journal now j ?d4 = Inr (m, e, ns, i', ns, True, True)"
    using checks(4) file_cong [of ?d4 ?d3] unfolding check_journal_iff by simp
  have "k = 0 \<or> k = 1 \<or> k = 2 \<or> k = 3 \<or> (k = 4 \<and> \<not> py_eq i i')"
    using k ws by (auto simp: plan_def plan_tail_def split: if_splits)
  then show ?thesis
  proof (elim disjE)
    assume "k = 0"
    then show ?thesis using commit_plan [OF checks(1) _ _ i] torn differs dk ws by simp
  next
    assume "k = 1"
    then show ?thesis using commit_plan [OF checks(2) _ _ i1 i(2)] torn differs dk ws by (simp add: plan_def)
  next
    assume "k = 2"
    then show ?thesis using commit_plan [OF checks(3) _ _ i2 i(2)] differs dk ws by (simp add: plan_def)
  next
    assume "k = 3"
    then show ?thesis using commit_plan [OF checks(4) _ _ i3 i(2)] dk ws by (simp add: plan_def)
  next
    assume "k = 4 \<and> \<not> py_eq i i'"
    then show ?thesis using commit_plan [OF check4 _ _ i4] dk ws by (simp add: plan_def plan_tail_def)
  qed
qed

end
