(* ===== verification/Control_Recovery.thy ===== *)
theory Control_Recovery
  imports Control_Commit
begin

text \<open>
  Transitions end to end: cut at any point and recovered, however often recovery is cut as well, they
  have happened completely or not at all; and the installation still replays afterwards.
\<close>

section \<open>The records of a transition\<close>

lemma make_journal_fields:
  "dget ''message'' (make_journal m e ns i) = m" "dget ''event'' (make_journal m e ns i) = e"
  "dget ''next_state'' (make_journal m e ns i) = ns" "dget ''installation'' (make_journal m e ns i) = i"
  "is_obj (make_journal m e ns i)"
  by (simp_all add: make_journal_def Let_def) (simp_all add: dget_def)

lemma make_message_fields:
  "jget ''message_id'' (make_message sy q iid rv n) = Some (JStr (sy_message_id sy))"
  "jget ''installation_sequence'' (make_message sy q iid rv n) = Some (JInt n)"
  "jget ''idempotency_key'' (make_message sy q iid rv n) = Some (JStr (tr_key q))"
  "jget ''content_digest'' (make_message sy q iid rv n) = Some (JStr (request_digest q))"
  "jget ''result'' (make_message sy q iid rv n) = Some (request_result sy q rv)"
  by (simp_all add: make_message_def Let_def)

lemma make_event_fields:
  "jget ''event_id'' (make_event sy q s iid pr n) = Some (JStr (sy_event_id sy))"
  "jget ''installation_sequence'' (make_event sy q s iid pr n) = Some (JInt n)"
  "jget ''prior_revision'' (make_event sy q s iid pr n) = Some (dget ''revision'' s)"
  by (simp_all add: make_event_def Let_def)

lemma authority_view_fields: "k \<noteq> ''active_leader'' \<Longrightarrow> dget k (authority_view s) = dget k s"
  by (simp add: authority_view_def Let_def)

lemma op_success:
  "bind_op m f s = (Inr y, s') \<longleftrightarrow> (\<exists>x s1. m s = (Inr x, s1) \<and> f x s1 = (Inr y, s'))"
  by (auto simp: bind_op_def split: prod.splits sum.splits)

lemma then_success:
  "bind_op m (\<lambda>_. f) s = (Inr y, s') \<longleftrightarrow> (\<exists>d1 n1. m s = (Inr (), d1, n1) \<and> f (d1, n1) = (Inr y, s'))"
  for m :: "unit op"
  by (auto simp: bind_op_def split: prod.splits sum.splits)

lemma step_success:
  "reading r (d, n) = (Inr x, s1) \<longleftrightarrow> r d = Inr x \<and> s1 = (d, n)"
  "writing w (d, n) = (Inr u, s1) \<longleftrightarrow> 0 < n \<and> s1 = (w d, n - 1)"
  "when_op b m (d, n) = (Inr u, s1) \<longleftrightarrow> (if b then m (d, n) = (Inr u, s1) else s1 = (d, n))"
  by (auto simp: reading_def writing_def when_op_def split: nat.splits)

lemma append_success:
  "append_jsonl_atomic name get put v (d, n) = (Inr u, s1) \<longleftrightarrow>
     \<not> lf_torn (get d) \<and> 0 < n \<and> s1 = (put ((get d)\<lparr>lf_lines := lf_lines (get d) @ [written_line v]\<rparr>) d, n - 1)"
  by (cases "lf_torn (get d)") (auto simp: append_jsonl_atomic_def step_success)

text \<open>What a commit that succeeds has checked.\<close>

lemma commit_success:
  assumes "commit_journal now j (d, n) = (Inr (), d', n')"
  obtains m e ns i' p mt et i where "check_journal now j d = Inr (m, e, ns, i', p, mt, et)"
    and "mt \<or> \<not> lf_torn (id_messages d)" and "et \<or> \<not> lf_torn (id_events d)"
    and "installation_doc d = Inr i" and "py_eq i i' \<or> agree i ''installation_id'' i' ''installation_id''"
proof (cases "check_journal now j d")
  case (Inl e)
  with assms show ?thesis by (simp add: commit_journal_def)
next
  case (Inr t)
  obtain m e ns i' p mt et where t: "t = (m, e, ns, i', p, mt, et)" by (cases t)
  have state: "exists_doc (id_state d)"
    using Inr t by (auto simp: check_journal_iff state_file_def read_json_def exists_doc_def split: doc.splits)
  let ?A = "append_jsonl_atomic ''messages.jsonl'' id_messages (\<lambda>f d. d\<lparr>id_messages := f\<rparr>) m"
  let ?B = "append_jsonl_atomic ''events.jsonl'' id_events (\<lambda>f d. d\<lparr>id_events := f\<rparr>) e"
  let ?C = "writing (\<lambda>d. d\<lparr>id_state := Doc ns\<rparr>)"
  have "bind_op (when_op (\<not> mt) ?A) (\<lambda>_. bind_op (when_op (\<not> et) ?B)
      (\<lambda>_. bind_op (when_op (\<not> py_eq p ns) ?C) (\<lambda>_. finish_commit i'))) (d, n) = (Inr (), d', n')"
    using assms Inr t by (simp add: commit_journal_def finish_commit_def [abs_def])
  then obtain d1 n1 d2 n2 d3 n3 where s1: "when_op (\<not> mt) ?A (d, n) = (Inr (), d1, n1)"
    and s2: "when_op (\<not> et) ?B (d1, n1) = (Inr (), d2, n2)"
    and s3: "when_op (\<not> py_eq p ns) ?C (d2, n2) = (Inr (), d3, n3)"
    and s4: "finish_commit i' (d3, n3) = (Inr (), d', n')"
    unfolding then_success by blast
  from s4 obtain i where i: "installation_doc d3 = Inr i"
    "py_eq i i' \<or> agree i ''installation_id'' i' ''installation_id''"
    by (cases "installation_doc d3") (auto simp: finish_commit_def when_op_def split: if_splits)
  have steps: "if mt then d1 = d else \<not> lf_torn (id_messages d) \<and> d1 = add_message m d"
    "if et then d2 = d1 else \<not> lf_torn (id_events d1) \<and> d2 = add_event e d1"
    "if py_eq p ns then d3 = d2 else d3 = put_state ns d2"
    using s1 s2 s3 by (auto simp: step_success append_success add_message_def add_event_def put_state_def split: if_splits)
  have "id_events d1 = id_events d" using steps(1) by (auto split: if_splits)
  moreover have "installation_doc d = Inr i"
    using steps state i(1)
    by (auto simp: installation_doc_def require_initialized_def exists_doc_def bind_res_Inr_iff put_state_def
        split: if_splits)
  ultimately show ?thesis using steps i(2) that [of m e ns i' p mt et i] Inr t by (auto split: if_splits)
qed

section \<open>Replay and the prior state\<close>

definition projection_of :: "json \<Rightarrow> json" where
  "projection_of e = (let payload = dget ''payload'' e in if is_obj payload then dget ''state_projection'' payload else JNull)"

text \<open>The state after an event, as replay computes it.\<close>

definition state_after :: "json \<Rightarrow> json" where
  "state_after e = sealed (dset ''last_event_digest'' (dget ''event_digest'' e) (projection_of e))"

lemma replay_event_iff:
  "replay_event ms n c e = Inr c' \<longleftrightarrow>
     get_eq e ''installation_sequence'' (JInt n) \<and>
     (\<exists>m. message_for ms (dget ''accepted_message_id'' e) = Inr (Some m) \<and> truthy m \<and>
        agree m ''event_id'' e ''event_id'' \<and> in_keys (dget ''event_id'' e) (rk_ids c) = Inr False \<and>
        \<not> list_ex (py_eq (dget ''accepted_message_id'' e)) (rk_messages c) \<and>
        py_eq (dget ''prior_event_digest'' e) (rk_digest c) \<and>
        get_eq e ''event_digest'' (JStr (digest_without e ''event_digest'')) \<and>
        is_obj (projection_of e) \<and>
        validate_transition_contract True m e (projection_of e) (rk_state c) = Inr () \<and>
        event_agrees m e (projection_of e) (rk_revision c)) \<and>
     c' = \<lparr>rk_ids = dget ''event_id'' e # rk_ids c, rk_messages = dget ''accepted_message_id'' e # rk_messages c,
           rk_digest = dget ''event_digest'' e, rk_revision = rk_revision c + 1, rk_state = state_after e\<rparr>"
proof (cases "message_for ms (dget ''accepted_message_id'' e)")
  case (Inl x)
  then show ?thesis by (auto simp: replay_event_def bind_res_Inr_iff)
next
  case (Inr found)
  then show ?thesis
    by (cases found) (auto simp: replay_event_def bind_res_Inr_iff state_after_def projection_of_def Let_def)
qed

lemma replay_events_append:
  "replay_events ms n c (es @ es') =
     bind_res (replay_events ms n c es) (\<lambda>c'. replay_events ms (n + int (length es)) c' es')"
proof (induction es arbitrary: n c)
  case (Cons e es)
  show ?case
    by (cases "replay_event ms n c e") (simp_all add: Cons.IH algebra_simps)
qed simp

lemma replay_events_last:
  assumes "replay_events ms n c es = Inr c'" and "es \<noteq> []"
  shows "is_obj (projection_of (last es))" and "rk_state c' = state_after (last es)"
    and "rk_digest c' = dget ''event_digest'' (last es)"
proof -
  obtain es0 e where es: "es = es0 @ [e]" using assms(2) by (cases es rule: rev_cases) auto
  then obtain c0 where "replay_event ms (n + int (length es0)) c0 e = Inr c'"
    using assms(1) by (auto simp: replay_events_append bind_res_Inr_iff)
  then show "is_obj (projection_of (last es))" and "rk_state c' = state_after (last es)"
    and "rk_digest c' = dget ''event_digest'' (last es)"
    by (auto simp: replay_event_iff es)
qed

lemma dget_sealed: "k \<noteq> ''projection_digest'' \<Longrightarrow> dget k (sealed s) = dget k s"
  by (simp add: sealed_def)

lemma empty_state_same_authority: "same_authority (sealed (empty_state i t)) (empty_state i t')"
  by (auto simp: same_authority_def dget_sealed) (simp add: dget_def empty_state_def)

text \<open>Facts of an installation that replays.\<close>

lemma replay_installation_iff:
  "replay_installation now d = Inr s \<longleftrightarrow>
     require_initialized d = Inr () \<and> \<not> exists_doc (id_journal d) \<and>
     (\<exists>ms es i iid c p. messages_of d = Inr ms \<and> check_messages 1 [] ms = Inr () \<and> events_of d = Inr es \<and>
        installation_doc d = Inr i \<and> sub ''installation_id'' i = Inr iid \<and>
        replay_events ms 1 (replay_start iid now) es = Inr c \<and>
        list_all (\<lambda>m. list_ex (py_eq (dget ''message_id'' m)) (rk_messages c)) ms \<and>
        state_file d = Inr p \<and> get_eq p ''projection_digest'' (JStr (state_digest p)) \<and> py_eq p s \<and>
        s = (if es = [] then sealed (rk_state c) else rk_state c))"
  unfolding replay_installation_def Let_def bind_res_Inr_iff refuse_if_simps by (auto 0 4)

lemma bound_fields_protected: "set (bound_fields b e payload) \<subseteq> set protected_fields"
  by (auto simp: bound_fields_def row_def TRANSITION_PAYLOAD_STATE_FIELDS_def protected_fields_def
      split: if_splits option.splits)

lemma embedded_fields:
  "k \<notin> {''projection_digest'', ''last_event_digest''} \<Longrightarrow> dget k (embedded_projection ns e) = dget k ns"
  by (simp add: embedded_projection_def dget_sealed)

lemma fresh_keeps_installation:
  assumes f: "fresh j d m e ns i' p ms es" and "dget ''installation_id'' p = JStr iid"
  shows "dget ''installation_id'' e = JStr iid"
proof -
  have "''installation_id'' \<notin> set (bound_fields False e (dget ''payload'' m))"
    "''installation_id'' \<notin> set transition_fields"
    using bound_fields_protected by (auto simp: protected_fields_def transition_fields_def)
  then have "py_eq (dget ''installation_id'' p) (dget ''installation_id'' (embedded_projection ns e))"
    using f unfolding fresh_def validate_iff by blast
  moreover have "agree ns ''installation_id'' e ''installation_id''"
    using f by (auto simp: fresh_def journal_sound_def records_agree_def Let_def)
  ultimately show ?thesis using assms(2) by (auto simp: embedded_fields agree_def)
qed

lemma replayed_prior:
  assumes replay: "replay_installation t0 d0 = Inr s" and i: "installation_doc d0 = Inr i" "dget ''installation_id'' i = JStr iid"
    and files: "events_of d0 = Inr es" "state_file d0 = Inr p" and f: "fresh j d m e ns i' p ms es"
  shows "\<exists>q. prior_state_of now ns ns e (es @ [e]) True = Inr q \<and> same_authority p q"
proof -
  have new: "\<not> agree ns ''revision'' e ''prior_revision''" using f prior_written by (auto simp: fresh_def)
  obtain ms0 c where r: "replay_events ms0 1 (replay_start (JStr iid) t0) es = Inr c" "py_eq p s"
    "s = (if es = [] then sealed (rk_state c) else rk_state c)"
    using replay i files by (auto simp: replay_installation_iff sub_def dget_def split: option.splits)
  show ?thesis
  proof (cases "es = []")
    case True
    have p: "py_eq p (sealed (empty_state (JStr iid) t0))" using r True by (auto simp: replay_start_def)
    from py_eq_get [OF this, of "''installation_id''"] have "dget ''installation_id'' p = JStr iid"
      by (simp add: dget_sealed empty_state_def) (simp add: dget_def)
    with fresh_keeps_installation [OF f] have "dget ''installation_id'' e = JStr iid" by simp
    then have "prior_state_of now ns ns e (es @ [e]) True = Inr (empty_state (JStr iid) now)"
      using new True by (simp add: prior_state_of_def py_or_def)
    moreover have "same_authority p (empty_state (JStr iid) now)"
      using py_eq_same_authority [OF p] empty_state_same_authority [of "JStr iid" t0 now]
      unfolding same_authority_def by (blast intro: py_eq_trans)
    ultimately show ?thesis by blast
  next
    case False
    have "before_last (es @ [e]) = last es" "1 < length (es @ [e])"
      using False by (cases es rule: rev_cases; simp add: before_last_def nth_append)+
    moreover have "is_obj (projection_of (last es))" "rk_state c = state_after (last es)"
      using replay_events_last [OF r(1) False] by simp_all
    ultimately have "prior_state_of now ns ns e (es @ [e]) True = Inr (state_after (last es))"
      using new by (simp add: prior_state_of_def Let_def state_after_def projection_of_def split: if_splits)
    then show ?thesis using r(2,3) False \<open>rk_state c = state_after (last es)\<close> py_eq_same_authority by auto
  qed
qed

section \<open>A transition that succeeds\<close>

lemma record_failure_raises: "record_failure sy e x s \<noteq> (Inr r, s')"
  by (auto simp: record_failure_def op_success)

text \<open>Without a pending journal: a request that is known, or one that is prepared and committed.\<close>

definition known_result :: "json \<Rightarrow> json" where
  "known_result m = py_or (dget ''result'' m)
     (JObj [(''message_id'', dget ''message_id'' m), (''revision'', dget ''result_revision'' m)])"

definition key_conflict :: control_failure where
  "key_conflict = ControlPlaneError ''VALP-E-IDEMPOTENCY-CONFLICT''
     ''Idempotency key was reused with different content'' unchanged"

lemma transition_idle:
  assumes "id_journal d = Missing"
  shows "transition_unlocked sy q (d, k) =
    (case bind_res (require_initialized d) (\<lambda>_. find_message (tr_key q) d) of
       Inl e \<Rightarrow> (Inl e, d, k)
     | Inr None \<Rightarrow> new_transition sy q (d, k)
     | Inr (Some m) \<Rightarrow>
         if \<not> get_eq m ''content_digest'' (JStr (request_digest q))
         then record_failure sy key_conflict (dget ''message_id'' m) (d, k)
         else (Inr (known_result m), d, k))"
  using assms
  by (auto simp: transition_unlocked_def recover_transition_def exists_doc_def reading_def bind_op_def
      done_op_def bind_res_def known_result_def key_conflict_def split: sum.splits option.splits)

lemma transition_cases:
  assumes done_: "transition_unlocked sy q (d, n) = (Inr r, d', n')" and "id_journal d = Missing"
  obtains (known) m ms where "messages_of d = Inr ms" and "m \<in> set ms"
      and "\<And>k. transition_unlocked sy q (d, k) = (Inr r, d, k)" and "d' = d"
      and "find_message (tr_key q) d = Inr (Some m)" and "get_eq m ''content_digest'' (JStr (request_digest q))"
      and "r = known_result m"
  | (new) s j where "current_state d = Inr s" and "prepare sy q s d = Inr (j, r)"
      and "\<And>k. transition_unlocked sy q (d, k) =
        bind_op (writing (\<lambda>d. d\<lparr>id_journal := Doc j\<rparr>))
          (\<lambda>_. bind_op (commit_journal (sy_updated_at sy) j) (\<lambda>_. done_op r)) (d, k)"
      and "commit_journal (sy_updated_at sy) j (d\<lparr>id_journal := Doc j\<rparr>, n - 1) = (Inr (), d', n')" and "0 < n"
      and "find_message (tr_key q) d = Inr None"
proof (cases "bind_res (require_initialized d) (\<lambda>_. find_message (tr_key q) d)")
  case (Inl e)
  with done_ transition_idle [OF assms(2)] show ?thesis by simp
next
  case (Inr found)
  note start = transition_idle [OF assms(2)]
  have find: "find_message (tr_key q) d = Inr found" using Inr by (auto simp: bind_res_Inr_iff)
  show ?thesis
  proof (cases found)
    case (Some m)
    obtain ms where ms: "messages_of d = Inr ms" "m \<in> set ms"
      using find Some find_SomeD by (fastforce simp: bind_res_Inr_iff find_message_def)
    have "get_eq m ''content_digest'' (JStr (request_digest q))"
      using done_ start Inr Some by (auto simp: record_failure_raises split: if_splits)
    with known [OF ms] done_ start Inr Some find show ?thesis by simp
  next
    case None
    have run: "new_transition sy q (d, n) = (Inr r, d', n')" using done_ start Inr None by simp
    then obtain s where s: "current_state d = Inr s"
      by (cases "current_state d") (auto simp: new_transition_def)
    have ok: "admit q s = Inr ()"
      using run s by (cases "admit q s") (auto simp: new_transition_def record_failure_raises split: if_splits)
    obtain j r' where j: "prepare sy q s d = Inr (j, r')"
      using run s ok by (cases "prepare sy q s d") (auto simp: new_transition_def)
    have run: "transition_unlocked sy q (d, k) =
      bind_op (writing (\<lambda>d. d\<lparr>id_journal := Doc j\<rparr>))
        (\<lambda>_. bind_op (commit_journal (sy_updated_at sy) j) (\<lambda>_. done_op r')) (d, k)" for k
      using start Inr None s ok j by (simp add: new_transition_def)
    from done_ [unfolded run] have "r' = r" "0 < n"
      "commit_journal (sy_updated_at sy) j (d\<lparr>id_journal := Doc j\<rparr>, n - 1) = (Inr (), d', n')"
      by (auto simp: then_success step_success)
    with new [OF s, of j] j run find None show ?thesis by simp
  qed
qed

text \<open>The journal of a prepared transition is fresh, and the commit does its writes.\<close>

lemma prepared_commit:
  assumes replay: "replay_installation t0 d = Inr c" and i: "installation_doc d = Inr i" "is_str (dget ''installation_id'' i)"
    and s: "current_state d = Inr s" and j: "prepare sy q s d = Inr (j, r)"
    and commit: "commit_journal (sy_updated_at sy) j (d\<lparr>id_journal := Doc j\<rparr>, n) = (Inr (), d', n')"
    and readable: "messages_of d' = Inr ms'" "events_of d' = Inr es'"
  obtains m e ns i' p ms es ws where "fresh j (d\<lparr>id_journal := Doc j\<rparr>) m e ns i' p ms es"
    and "ws = plan m e ns i' False False False (py_eq i i')"
    and "d' = fold (\<lambda>w. w) ws (d\<lparr>id_journal := Doc j\<rparr>)" and "is_obj j"
    and "ms' = ms @ [m]" and "es' = es @ [e]"
    and "\<And>k now n. k < length ws \<Longrightarrow>
      commit_journal now j (fold (\<lambda>w. w) (take k ws) (d\<lparr>id_journal := Doc j\<rparr>), n) =
        run_writes (drop k ws) (fold (\<lambda>w. w) (take k ws) (d\<lparr>id_journal := Doc j\<rparr>), n) \<and>
      id_journal (fold (\<lambda>w. w) (take k ws) (d\<lparr>id_journal := Doc j\<rparr>)) = Doc j"
proof -
  let ?d = "d\<lparr>id_journal := Doc j\<rparr>"
  have files: "messages_of ?d = messages_of d" "events_of ?d = events_of d" "state_file ?d = state_file d"
    "installation_doc ?d = installation_doc d"
    using file_cong [of ?d d] installation_doc_cong [of ?d d] by simp_all
  obtain m e ns i' p mt et i0 where c: "check_journal (sy_updated_at sy) j ?d = Inr (m, e, ns, i', p, mt, et)"
    and torn: "mt \<or> \<not> lf_torn (id_messages ?d)" "et \<or> \<not> lf_torn (id_events ?d)"
    and i0: "installation_doc ?d = Inr i0" "py_eq i0 i' \<or> agree i0 ''installation_id'' i' ''installation_id''"
    using commit by (rule commit_success)
  have i0i: "i0 = i" using i0(1) i(1) files by simp
  obtain projection iid ms es where pr: "messages_of d = Inr ms" "events_of d = Inr es"
    "m = make_message sy q iid (dget ''revision'' projection) (int (length ms) + 1)"
    "e = make_event sy q s iid projection (int (length es) + 1)" and obj: "is_obj j"
    using j c by (auto simp: prepare_def Let_def bind_res_Inr_iff check_journal_iff journal_sound_def make_journal_fields)
  have p: "state_file d = Inr p" "s = authority_view p"
    using c s files by (auto simp: check_journal_iff current_state_def bind_res_Inr_iff split: if_splits)
  have "mt = False" "et = False"
    using c pr files by (auto simp: check_journal_iff expected_sequence_def get_eq_def make_message_fields
        make_event_fields split: if_splits)
  have "agree p ''revision'' e ''prior_revision''"
    by (simp add: agree_def pr(4) dget_def [of "''prior_revision''"] make_event_fields p(2) authority_view_fields)
  then have f: "fresh j ?d m e ns i' p ms es"
    using c pr(1,2) files \<open>mt = False\<close> \<open>et = False\<close>
    by (auto simp: check_journal_iff fresh_def ledger_tail_iff key_of_def sub_def expected_sequence_def
        prior_state_of_def pr(3,4) make_message_fields make_event_fields split: if_splits)
  obtain str where str: "dget ''installation_id'' i = JStr str" using i(2) by (cases "dget ''installation_id'' i") auto
  define ws where "ws = plan m e ns i' False False False (py_eq i i')"
  have "\<not> agree ns ''revision'' e ''prior_revision''" using f prior_written by (auto simp: fresh_def)
  with \<open>agree p ''revision'' e ''prior_revision''\<close> have "\<not> py_eq p ns"
    using py_eq_get py_eq_left unfolding agree_def by blast
  then have "commit_journal (sy_updated_at sy) j (?d, n) = run_writes ws (?d, n)"
    using commit_plan [OF c torn i0] \<open>mt = False\<close> \<open>et = False\<close> i0i by (simp add: ws_def)
  then have d': "d' = fold (\<lambda>w. w) ws ?d" using commit by (simp add: run_writes_result split: if_splits)
  have "id_messages d' = id_messages (add_message m ?d)" "id_events d' = id_events (add_event e ?d)"
    by (auto simp: d' ws_def plan_def plan_tail_def add_message_def add_event_def put_state_def
        put_installation_def clear_journal_def)
  then have read: "messages_of (add_message m ?d) = Inr ms'" "events_of (add_event e ?d) = Inr es'"
    using readable file_cong by metis+
  have grown: "ms' = ms @ [m]" "es' = es @ [e]"
    using read pr(1,2) read_jsonl_append files(1,2)
    by (auto simp: messages_of_def events_of_def add_message_def add_event_def)
  with read have appended: "messages_of (add_message m ?d) = Inr (ms @ [m])" "events_of (add_event e ?d) = Inr (es @ [e])"
    by simp_all
  have untorn: "\<not> lf_torn (id_messages ?d)" "\<not> lf_torn (id_events ?d)" using torn \<open>mt = False\<close> \<open>et = False\<close> by simp_all
  have resume: "commit_journal now j (fold (\<lambda>w. w) (take k ws) ?d, n) = run_writes (drop k ws) (fold (\<lambda>w. w) (take k ws) ?d, n) \<and>
      id_journal (fold (\<lambda>w. w) (take k ws) ?d) = Doc j" if "k < length ws" for k now n
  proof -
    obtain qs where "prior_state_of now ns ns e (es @ [e]) True = Inr qs" "same_authority p qs"
      using replayed_prior [OF replay i(1) str pr(2) p(1) f] by blast
    from fresh_resumes [OF f appended this untorn i0 [unfolded i0i] ws_def that refl] show ?thesis by simp
  qed
  show ?thesis using that [OF f ws_def d' obj grown resume] .
qed

section \<open>Crashes\<close>

text \<open>Attempts to recover, each with its time and the number of writes it gets.\<close>

fun recoveries :: "(string \<times> nat) list \<Rightarrow> installation_disk \<Rightarrow> installation_disk" where
  "recoveries [] d = d"
| "recoveries ((now, k) # ks) d = recoveries ks (fst (snd (recover_transition now (d, k))))"

lemma recover_idle: "id_journal d = Missing \<Longrightarrow> recover_transition now (d, n) = (Inr (), d, n)"
  by (simp add: recover_transition_def exists_doc_def)

lemma recoveries_idle: "id_journal d = Missing \<Longrightarrow> recoveries ks d = d"
  by (induction ks) (auto simp: recover_idle)

definition stage :: "(installation_disk \<Rightarrow> installation_disk) list \<Rightarrow> installation_disk \<Rightarrow> nat \<Rightarrow> installation_disk" where
  "stage ws d k = fold (\<lambda>w. w) (take k ws) d"

lemma recover_stage:
  assumes resume: "\<And>k now n. k < length ws \<Longrightarrow> commit_journal now j (stage ws d k, n) = run_writes (drop k ws) (stage ws d k, n) \<and>
      id_journal (stage ws d k) = Doc j"
    and "is_obj j" and "id_journal (stage ws d (length ws)) = Missing" and k: "k \<le> length ws"
  shows "recover_transition now (stage ws d k, n) =
    (if length ws \<le> k + n then (Inr (), stage ws d (length ws), k + n - length ws)
     else (Inl Crash, stage ws d (k + n), 0))"
proof (cases "k = length ws")
  case True
  with assms(3) show ?thesis by (simp add: recover_idle)
next
  case False
  with k have "k < length ws" by simp
  from resume [OF this] assms(2) have "recover_transition now (stage ws d k, n) = run_writes (drop k ws) (stage ws d k, n)"
    by (simp add: recover_transition_def exists_doc_def read_json_def)
  moreover have "fold (\<lambda>w. w) (drop k ws) (stage ws d k) = stage ws d (length ws)"
    by (metis append_take_drop_id comp_apply fold_append order_refl stage_def take_all)
  moreover have "fold (\<lambda>w. w) (take n (drop k ws)) (stage ws d k) = stage ws d (k + n)"
    by (simp add: stage_def take_add)
  ultimately show ?thesis using k by (auto simp: run_writes_result)
qed

lemma recoveries_stage:
  assumes "\<And>k now n. k < length ws \<Longrightarrow> commit_journal now j (stage ws d k, n) = run_writes (drop k ws) (stage ws d k, n) \<and>
      id_journal (stage ws d k) = Doc j"
    and "is_obj j" and "id_journal (stage ws d (length ws)) = Missing" and "k \<le> length ws"
  shows "\<exists>k'\<le>length ws. recoveries ks (stage ws d k) = stage ws d k'"
  using assms(4)
proof (induction ks arbitrary: k)
  case (Cons x ks)
  obtain now n where "x = (now, n)" by (cases x)
  with recover_stage [OF assms(1-3) Cons.prems] Cons.IH [of "length ws"] Cons.IH [of "k + n"] show ?case
    by (auto split: if_splits)
qed auto

text \<open>
  C2. Transitions of the installation survive crashes. Take an installation that replays and a
  request that succeeds when nothing fails and leaves readable ledgers. Cut the transition after any
  number of writes, and then cut any number of recoveries after any numbers of writes. A last
  recovery with five writes succeeds, and the files are then exactly those before the transition or
  exactly those after it; and after it they are if the cut call returned.
\<close>

theorem transition_survives_crashes:
  assumes "replay_installation t0 d = Inr c" and "installation_doc d = Inr i" and "is_str (dget ''installation_id'' i)"
    and "transition_unlocked sy q (d, n) = (Inr r, d', n')" and "messages_of d' = Inr ms" and "events_of d' = Inr es"
    and "transition_unlocked sy q (d, k) = (res, dk, k')"
  shows "\<exists>d'' n''. recover_transition now (recoveries ks dk, 5) = (Inr (), d'', n'') \<and>
    (d'' = d' \<or> d'' = d \<and> res = Inl Crash)"
proof -
  have idle: "id_journal d = Missing"
    using assms(1) by (auto simp: replay_installation_iff exists_doc_def)
  from assms(4) idle show ?thesis
  proof (cases rule: transition_cases)
    case (known m ms)
    with assms(7) idle have "res = Inr r" "dk = d" by auto
    with idle known(4) show ?thesis by (simp add: recoveries_idle recover_idle)
  next
    case (new s j)
    let ?d = "d\<lparr>id_journal := Doc j\<rparr>"
    obtain m e ns i' p ms0 es0 ws where ws: "ws = plan m e ns i' False False False (py_eq i i')"
      "d' = stage ws ?d (length ws)" "is_obj j"
      and resume: "\<And>k now n. k < length ws \<Longrightarrow> commit_journal now j (stage ws ?d k, n) =
        run_writes (drop k ws) (stage ws ?d k, n) \<and> id_journal (stage ws ?d k) = Doc j"
      using prepared_commit [OF assms(1-3) new(1,2,4) assms(5,6)] unfolding stage_def
      by (metis order_refl take_all)
    have len: "0 < length ws" "length ws \<le> 5" by (simp_all add: ws(1) plan_def plan_tail_def)
    have gone: "id_journal (stage ws ?d (length ws)) = Missing"
      by (auto simp: stage_def ws(1) plan_def plan_tail_def)
    show ?thesis
    proof (cases k)
      case 0
      with assms(7) new(3) [of k] have "res = Inl Crash" "dk = d" by simp_all
      with idle show ?thesis by (simp add: recoveries_idle recover_idle)
    next
      case (Suc k0)
      have "commit_journal (sy_updated_at sy) j (?d, k0) = run_writes ws (?d, k0)"
        using resume [of 0] len by (simp add: stage_def)
      then have "dk = stage ws ?d (min k0 (length ws))"
        using assms(7) new(3) [of k] Suc
        by (auto simp: run_writes_result bind_op_def writing_def stage_def min_def split: if_splits)
      then obtain k1 where "k1 \<le> length ws" "recoveries ks dk = stage ws ?d k1"
        using recoveries_stage [OF resume ws(3) gone, of "min k0 (length ws)"] by auto
      with recover_stage [OF resume ws(3) gone, of k1 now 5] len ws(2) show ?thesis by auto
    qed
  qed
qed

end
