(* ===== verification/Control_Replay.thy ===== *)
theory Control_Replay
  imports Control_Recovery
begin

text \<open>
  Replay of an installation: what it says of the ledgers, and that it succeeds again after every
  transition.
\<close>

section \<open>Replay with more messages and at another time\<close>

lemma find_append:
  "List.find P (xs @ ys) = (case List.find P xs of Some x \<Rightarrow> Some x | None \<Rightarrow> List.find P ys)"
  by (induction xs) simp_all

lemma message_for_append:
  "message_for ms k = Inr (Some m) \<Longrightarrow> message_for (ms @ ms') k = Inr (Some m)"
  by (auto simp: message_for_def find_append split: if_splits)

lemma replay_event_more:
  "replay_event ms n c e = Inr c' \<Longrightarrow> replay_event (ms @ ms') n c e = Inr c'"
  using message_for_append by (fastforce simp: replay_event_iff)

lemma replay_events_more:
  "replay_events ms n c es = Inr c' \<Longrightarrow> replay_events (ms @ ms') n c es = Inr c'"
proof (induction es arbitrary: n c)
  case (Cons e es)
  then show ?case using replay_event_more by (fastforce simp: bind_res_Inr_iff)
qed simp

lemma message_for_append_new:
  assumes "hashable k" and "\<not> (\<exists>x\<in>set ms. py_eq (dget ''message_id'' x) k)" and "py_eq (dget ''message_id'' m) k"
  shows "message_for (ms @ [m]) k = Inr (Some m)"
  using assms by (auto simp: message_for_def find_append find_None_iff split: option.splits dest: find_SomeD)

text \<open>The time of the first state does not matter.\<close>

lemma event_agrees_prior:
  "event_agrees m e pr r \<Longrightarrow> py_eq (dget ''prior_revision'' e) (JInt r)"
  by (simp add: event_agrees_def Let_def)

lemma replay_event_start:
  assumes "replay_event ms n (replay_start iid t) e = Inr c'"
  shows "replay_event ms n (replay_start iid t') e = Inr c'"
proof -
  have same: "same_authority (empty_state iid t) (empty_state iid t')"
    by (simp add: same_authority_def) (simp add: dget_def empty_state_def)
  have "validate_transition_contract True m e (projection_of e) (empty_state iid t') = Inr ()"
    if "validate_transition_contract True m e (projection_of e) (empty_state iid t) = Inr ()"
      "event_agrees m e (projection_of e) 0" for m
    using validate_prior_cong [OF that(1) same event_agrees_prior [OF that(2)]] .
  with assms show ?thesis by (auto simp: replay_event_iff replay_start_def)
qed

lemma replay_events_start:
  assumes "replay_events ms n (replay_start iid t) es = Inr c" and "es \<noteq> []"
  shows "replay_events ms n (replay_start iid t') es = Inr c"
proof -
  obtain e es0 where es: "es = e # es0" using assms(2) by (cases es) auto
  then obtain c1 where "replay_event ms n (replay_start iid t) e = Inr c1" "replay_events ms (n + 1) c1 es0 = Inr c"
    using assms(1) by (auto simp: bind_res_Inr_iff)
  with replay_event_start [OF this(1)] show ?thesis by (simp add: es)
qed

section \<open>What replay keeps\<close>

lemma dget_state_after:
  "k \<notin> {''projection_digest'', ''last_event_digest''} \<Longrightarrow> dget k (state_after e) = dget k (projection_of e)"
  by (simp add: state_after_def dget_sealed)

lemma message_for_member:
  "message_for ms k = Inr (Some m) \<Longrightarrow> m \<in> set ms \<and> py_eq (dget ''message_id'' m) k"
  by (auto simp: message_for_def split: if_splits dest: find_SomeD)

lemma replay_event_revision:
  assumes "replay_event ms n c e = Inr c'"
  shows "py_eq (dget ''revision'' (rk_state c')) (JInt (rk_revision c'))"
proof -
  obtain m where "event_agrees m e (projection_of e) (rk_revision c)" and c': "rk_state c' = state_after e"
    "rk_revision c' = rk_revision c + 1"
    using assms by (auto simp: replay_event_iff)
  then have "py_eq (dget ''revision'' (projection_of e)) (dget ''new_revision'' e)"
    "py_eq (dget ''new_revision'' e) (JInt (rk_revision c + 1))"
    by (simp_all add: event_agrees_def agree_def Let_def)
  from py_eq_trans [OF this] show ?thesis by (simp add: c' dget_state_after)
qed

lemma replay_events_invariant:
  assumes "replay_events ms n c es = Inr c'" and "py_eq (dget ''revision'' (rk_state c)) (JInt (rk_revision c))"
  shows "rk_ids c' = rev (map (dget ''event_id'') es) @ rk_ids c \<and>
    rk_messages c' = rev (map (dget ''accepted_message_id'') es) @ rk_messages c \<and>
    py_eq (dget ''revision'' (rk_state c')) (JInt (rk_revision c')) \<and>
    rk_revision c' = rk_revision c + int (length es) \<and>
    (\<forall>e\<in>set es. \<exists>m\<in>set ms. py_eq (dget ''message_id'' m) (dget ''accepted_message_id'' e))"
  using assms
proof (induction es arbitrary: n c)
  case (Cons e es)
  then obtain c1 where c1: "replay_event ms n c e = Inr c1" "replay_events ms (n + 1) c1 es = Inr c'"
    by (auto simp: bind_res_Inr_iff)
  have "\<exists>m\<in>set ms. py_eq (dget ''message_id'' m) (dget ''accepted_message_id'' e)"
    using c1(1) message_for_member by (auto simp: replay_event_iff)
  moreover have "rk_ids c1 = dget ''event_id'' e # rk_ids c"
    "rk_messages c1 = dget ''accepted_message_id'' e # rk_messages c" "rk_revision c1 = rk_revision c + 1"
    using c1(1) by (auto simp: replay_event_iff)
  ultimately show ?case using Cons.IH [OF c1(2) replay_event_revision [OF c1(1)]] by auto
qed simp

text \<open>A field that no event may bind keeps its value.\<close>

lemma replay_events_field:
  assumes "replay_events ms n c es = Inr c'" and "f \<notin> set transition_fields"
    and "\<And>e payload. e \<in> set es \<Longrightarrow> f \<notin> set (bound_fields True e payload)"
  shows "py_eq (dget f (rk_state c)) (dget f (rk_state c'))"
  using assms(1,3)
proof (induction es arbitrary: n c)
  case (Cons e es)
  then obtain c1 where c1: "replay_event ms n c e = Inr c1" "replay_events ms (n + 1) c1 es = Inr c'"
    by (auto simp: bind_res_Inr_iff)
  then obtain m where v: "validate_transition_contract True m e (projection_of e) (rk_state c) = Inr ()"
    and after: "rk_state c1 = state_after e"
    by (auto simp: replay_event_iff)
  have "f \<notin> set (bound_fields True e (dget ''payload'' m))" using Cons.prems(2) by simp
  then have "py_eq (dget f (rk_state c)) (dget f (projection_of e))"
    using v assms(2) unfolding validate_iff by blast
  moreover have "dget f (rk_state c1) = dget f (projection_of e)"
    using assms(2) by (auto simp: after dget_state_after transition_fields_def)
  ultimately show ?case using Cons.IH [OF c1(2)] Cons.prems(2) py_eq_trans by auto
qed simp

lemma check_messages_append:
  "check_messages n seen (ms @ ms') =
     bind_res (check_messages n seen ms) (\<lambda>_. check_messages (n + int (length ms)) (seen @ ms) ms')"
proof (induction ms arbitrary: n seen)
  case (Cons m ms)
  then show ?case by (auto simp: bind_res_def algebra_simps split: sum.splits)
qed simp

section \<open>The contract sees the projection up to equality\<close>

lemma validate_projection_cong:
  assumes ok: "validate_transition_contract b m e pr p = Inr ()" and eq: "py_eq pr pr'"
  shows "validate_transition_contract b m e pr' p = Inr ()"
proof -
  have get: "py_eq (dget f pr) (dget f pr')" for f using py_eq_get [OF eq] .
  have left: "py_eq (dget f pr') y \<longleftrightarrow> py_eq (dget f pr) y" and right: "py_eq y (dget f pr') \<longleftrightarrow> py_eq y (dget f pr)" for f y
    using py_eq_left [OF get] py_eq_right [OF get] by simp_all
  have ep: "py_eq (expected_principal k pr) (expected_principal k pr')" for k
    using get [of "''active_leader''"] py_eq_is_obj [OF get] py_eq_get by (auto simp: expected_principal_def Let_def)
  have principal: "truthy (expected_principal k pr') = truthy (expected_principal k pr)"
    "py_eq y (expected_principal k pr') \<longleftrightarrow> py_eq y (expected_principal k pr)" for k y
    using py_eq_truthy [OF ep] py_eq_right [OF ep] by simp_all
  show ?thesis using ok unfolding validate_iff left right principal .
qed

section \<open>Replay after a transition\<close>

lemma sub_is_obj: "sub k v = Inr x \<Longrightarrow> is_obj v"
  by (cases v) (simp_all add: sub_def)

lemma state_digest_sealed [simp]: "state_digest (sealed s) = state_digest s"
  by (simp add: state_digest_def sealed_def digest_without_def)

lemma is_obj_sealed [simp]: "is_obj (sealed s) = is_obj s"
  by (simp add: sealed_def)

lemma is_obj_copy_field [simp]: "is_obj (copy_field k p s) = is_obj s"
  by (simp add: copy_field_def)

lemma next_projection_sealed:
  assumes "next_projection sy q s = Inr pr"
  shows "is_obj pr" and "py_eq (dget ''projection_digest'' pr) (JStr (state_digest pr))"
proof -
  have "is_obj s" using assms sub_is_obj by (fastforce simp: next_projection_def bind_res_Inr_iff)
  then obtain x where "pr = sealed x" "is_obj x"
    using assms by (auto simp: next_projection_def Let_def bind_res_Inr_iff next_blockers_def split: if_splits)
  then show "is_obj pr" "py_eq (dget ''projection_digest'' pr) (JStr (state_digest pr))"
    by simp_all (simp add: sealed_def)
qed

lemma prepared_records:
  assumes "prepare sy q s d = Inr (j, r)" and "journal_sound j m e ns i'"
    and "installation_doc d = Inr i"
  obtains pr iid n k where "next_projection sy q s = Inr pr" and "m = make_message sy q iid (dget ''revision'' pr) n"
    and "e = make_event sy q s iid pr k" and "ns = sealed (dset ''last_event_digest'' (dget ''event_digest'' e) pr)"
    and "i' = dset ''active_leader_epoch'' (dget ''active_leader_epoch'' ns) (dset ''installation_status'' (dget ''status'' ns) i)"
    and "r = request_result sy q (dget ''revision'' pr)"
  using assms by (auto simp: prepare_def Let_def bind_res_Inr_iff journal_sound_def make_journal_fields)

lemma made_projection:
  assumes "e = make_event sy q s iid pr k" and "is_obj (tr_payload q)"
  shows "projection_of e = pr" and "dget ''payload'' e = event_payload (tr_payload q) pr"
    and "dget ''new_revision'' e = dget ''revision'' pr"
  using assms by (simp_all add: projection_of_def make_event_def Let_def event_payload_def dget_def)

lemma made_message:
  "dget ''payload'' (make_message sy q iid rv n) = tr_payload q"
  by (simp add: make_message_def Let_def dget_def)

lemma records_agreeD:
  assumes "records_agree m e ns i'"
  shows "py_eq (dget ''message_digest'' m) (JStr (digest_without m ''message_digest''))"
    and "py_eq (dget ''content_digest'' m) (JStr (message_content_digest m))"
    and "py_eq (dget ''event_digest'' e) (JStr (digest_without e ''event_digest''))"
    and "py_eq (dget ''projection_digest'' ns) (JStr (state_digest ns))"
    and "agree m ''event_id'' e ''event_id''" and "agree e ''accepted_message_id'' m ''message_id''"
    and "agree e ''new_revision'' ns ''revision''" and "agree m ''sender_principal_id'' e ''actor_principal_id''"
    and "agree m ''leader_epoch'' e ''leader_epoch''" and "is_obj (dget ''result'' m)"
    and "agree (dget ''result'' m) ''message_id'' m ''message_id''"
    and "agree (dget ''result'' m) ''event_id'' e ''event_id''"
    and "agree (dget ''result'' m) ''revision'' ns ''revision''"
    and "agree (dget ''result'' m) ''status'' ns ''status''"
    and "follows (dget ''prior_revision'' e) (dget ''new_revision'' e)"
    and "agree m ''expected_state_revision'' e ''prior_revision''"
    and "agree ns ''installation_id'' e ''installation_id''"
    and "py_eq (dget ''payload'' e) (event_payload (dget ''payload'' m) (embedded_projection ns e))"
  using assms unfolding records_agree_def Let_def by blast+

lemma validate_bindings:
  assumes "validate_transition_contract b m e pr p = Inr ()"
  shows "agree pr ''last_event_id'' e ''event_id''" and "agree pr ''last_event_digest'' e ''prior_event_digest''"
    and "agree pr ''updated_at'' e ''occurred_at''" and "agree e ''prior_revision'' p ''revision''"
    and "is_obj (dget ''payload'' m)"
  using assms unfolding validate_iff agree_def by blast+

lemma fresh_event_agrees:
  assumes f: "fresh j d m e ns i' p ms es" and pr: "next_projection sy q s = Inr pr"
    and m: "m = make_message sy q iid (dget ''revision'' pr) n" and e: "e = make_event sy q s iid pr k"
    and ns: "ns = sealed (dset ''last_event_digest'' (dget ''event_digest'' e) pr)"
    and v: "validate_transition_contract b m e pr p' = Inr ()"
    and rev: "py_eq (dget ''revision'' p') (JInt r)"
  shows "event_agrees m e pr r"
proof -
  note ra = records_agreeD [of m e ns i'] and vb = validate_bindings [OF v]
  have sound: "records_agree m e ns i'" using f unfolding fresh_def journal_sound_def by blast
  have obj: "is_obj (tr_payload q)" using vb(5) by (simp add: m made_message)
  note mp = made_projection [OF e obj]
  have of_ns: "dget x ns = dget x pr" if "x \<notin> {''projection_digest'', ''last_event_digest''}" for x
    using that by (simp add: ns dget_sealed)
  have prior: "py_eq (dget ''prior_revision'' e) (JInt r)" using vb(4) rev py_eq_trans by (auto simp: agree_def)
  with ra(15) [OF sound] have new: "py_eq (dget ''new_revision'' e) (JInt (r + 1))"
    by (cases "(dget ''prior_revision'' e, dget ''new_revision'' e)" rule: follows.cases) auto
  have "agree (dget ''result'' m) ''revision'' e ''new_revision''"
    using ra(13) [OF sound] mp(3) of_ns by (simp add: agree_def)
  moreover have "agree (dget ''result'' m) ''status'' pr ''status''"
    using ra(14) [OF sound] of_ns by (simp add: agree_def)
  moreover have "agree pr ''installation_id'' e ''installation_id''"
    using ra(17) [OF sound] of_ns by (simp add: agree_def)
  moreover have "agree pr ''revision'' e ''new_revision''" using mp(3) by (simp add: agree_def)
  moreover have "py_eq (dget ''payload'' e) (event_payload (dget ''payload'' m) pr)"
    by (simp add: mp(2) m made_message)
  ultimately show ?thesis
    unfolding event_agrees_def Let_def
    using prior new next_projection_sealed(2) [OF pr] vb(1-3) ra(2,8-12,16) [OF sound] by blast
qed

text \<open>Replay of the event that a transition has just added.\<close>

lemma fresh_replays:
  assumes f: "fresh j d m e ns i' p ms es" and pr: "next_projection sy q s = Inr pr"
    and m: "m = make_message sy q iid (dget ''revision'' pr) n" and e: "e = make_event sy q s iid pr k"
    and ns: "ns = sealed (dset ''last_event_digest'' (dget ''event_digest'' e) pr)"
    and c: "replay_events ms 1 (replay_start id0 t) es = Inr c"
    and p: "py_eq p (if es = [] then sealed (rk_state c) else rk_state c)"
  shows "\<exists>c'. replay_event (ms @ [m]) (1 + int (length es)) c e = Inr c' \<and> rk_state c' = ns \<and>
    rk_messages c' = dget ''message_id'' m # rk_messages c"
proof -
  have sound: "records_agree m e ns i'" "is_obj m" and v: "validate_transition_contract False m e (embedded_projection ns e) p = Inr ()"
    and prior: "py_eq (dget ''prior_event_digest'' e) (expected_prior_digest es False)"
    and seq: "get_eq e ''installation_sequence'' (JInt (int (length es) + 1))"
    using f unfolding fresh_def journal_sound_def by blast+
  have ids: "dget ''message_id'' m = JStr (sy_message_id sy)" "dget ''accepted_message_id'' e = JStr (sy_message_id sy)"
    "dget ''event_id'' e = JStr (sy_event_id sy)" "jget ''message_id'' m = Some (JStr (sy_message_id sy))"
    "jget ''event_id'' e = Some (JStr (sy_event_id sy))"
    by (simp_all add: m e make_message_def make_event_def Let_def) (simp_all add: dget_def)
  have new: "\<not> (\<exists>x\<in>set ms. py_eq (dget ''message_id'' x) (JStr (sy_message_id sy)))"
    "\<not> (\<exists>x\<in>set es. py_eq (dget ''event_id'' x) (JStr (sy_event_id sy)))"
    using f ids(4,5) unfolding fresh_def by auto
  have obj: "is_obj (tr_payload q)" using validate_bindings(5) [OF v] by (simp add: m made_message)
  note mp = made_projection [OF e obj]
  have start: "py_eq (dget ''revision'' (rk_state (replay_start id0 t))) (JInt (rk_revision (replay_start id0 t)))"
    by (simp add: replay_start_def empty_state_def) (simp add: dget_def)
  note inv = replay_events_invariant [OF c start]
  have digest: "rk_digest c = expected_prior_digest es False"
    using c replay_events_last(3) [OF c] by (cases "es = []") (auto simp: expected_prior_digest_def replay_start_def)
  have seen: "rk_ids c = rev (map (dget ''event_id'') es)"
    "rk_messages c = rev (map (dget ''accepted_message_id'') es)"
    "\<forall>x\<in>set es. \<exists>y\<in>set ms. py_eq (dget ''message_id'' y) (dget ''accepted_message_id'' x)"
    using inv by (simp_all add: replay_start_def)
  have unseen: "\<not> list_ex (py_eq (dget ''accepted_message_id'' e)) (rk_messages c)"
  proof
    assume "list_ex (py_eq (dget ''accepted_message_id'' e)) (rk_messages c)"
    then obtain x where x: "x \<in> set es" "dget ''accepted_message_id'' x = JStr (sy_message_id sy)"
      unfolding seen(2) ids(2) list_ex_iff by auto
    from bspec [OF seen(3) x(1)] new(1) show False unfolding x(2) by blast
  qed
  have unseen_event: "in_keys (dget ''event_id'' e) (rk_ids c) = Inr False"
    using new(2) unfolding seen(1) ids(3) in_keys_def list_ex_iff by (auto intro: py_eq_sym)
  have "py_eq (event_payload (tr_payload q) pr) (event_payload (tr_payload q) (embedded_projection ns e))"
    using records_agreeD(18) [OF sound(1)] by (simp add: mp(2) m made_message)
  from py_eq_get [OF this, of "''state_projection''"] have emb: "py_eq (embedded_projection ns e) pr"
    using obj by (auto simp: event_payload_def intro: py_eq_sym)
  have v1: "validate_transition_contract False m e pr p = Inr ()"
    using validate_projection_cong [OF v emb] .
  have same: "same_authority p (rk_state c)"
  proof -
    have "same_authority (if es = [] then sealed (rk_state c) else rk_state c) (rk_state c)"
      by (simp add: same_authority_def dget_sealed)
    with py_eq_same_authority [OF p] show ?thesis unfolding same_authority_def by (blast intro: py_eq_trans)
  qed
  have rev: "py_eq (dget ''revision'' p) (JInt (rk_revision c))"
  proof -
    have "py_eq (dget ''revision'' p) (dget ''revision'' (rk_state c))" using same by (simp add: same_authority_def)
    moreover have "py_eq (dget ''revision'' (rk_state c)) (JInt (rk_revision c))" using inv by blast
    ultimately show ?thesis by (rule py_eq_trans)
  qed
  have agrees: "event_agrees m e pr (rk_revision c)"
    using fresh_event_agrees [OF f pr m e ns v1 rev] .
  have v2: "validate_transition_contract True m e pr (rk_state c) = Inr ()"
    using validate_prior_cong [OF validate_legacy [OF v1] same event_agrees_prior [OF agrees]] .
  have found: "message_for (ms @ [m]) (dget ''accepted_message_id'' e) = Inr (Some m)"
    using message_for_append_new [of "dget ''accepted_message_id'' e" ms m] new(1) by (simp add: ids)
  have "truthy m" using ids(4) by (cases m) (auto simp: split: list.splits)
  moreover have "get_eq e ''event_digest'' (JStr (digest_without e ''event_digest''))"
    using records_agreeD(3) [OF sound(1)] by (auto simp: get_eq_def dget_def split: option.splits)
  moreover have "agree m ''event_id'' e ''event_id''" using records_agreeD(5) [OF sound(1)] .
  ultimately show ?thesis
    using found unseen unseen_event prior digest v2 agrees next_projection_sealed(1) [OF pr] seq
    by (simp add: replay_event_iff mp(1) state_after_def ns ids add.commute)
qed

lemma sub_str: "is_str (dget k v) \<Longrightarrow> sub k v = Inr (dget k v)"
  by (cases v) (auto simp: sub_def dget_def split: option.splits)

lemma dget_str_get_eq: "py_eq (dget k v) (JStr x) \<Longrightarrow> get_eq v k (JStr x)"
  by (auto simp: get_eq_def dget_def split: option.splits)

lemma fresh_messages:
  assumes f: "fresh j d m e ns i' p ms es" and "jget ''message_id'' m = Some (JStr x)" and "check_messages 1 [] ms = Inr ()"
  shows "check_messages 1 [] (ms @ [m]) = Inr ()"
proof -
  have "records_agree m e ns i'" using f unfolding fresh_def journal_sound_def by blast
  from dget_str_get_eq [OF records_agreeD(1) [OF this]]
  have "get_eq m ''message_digest'' (JStr (digest_without m ''message_digest''))" .
  moreover have "\<not> list_ex (py_eq (JStr x)) (map (dget ''message_id'') ms)"
    using f assms(2) by (auto simp: fresh_def list_ex_iff)
  moreover have "get_eq m ''installation_sequence'' (JInt (int (length ms) + 1))" using f by (simp add: fresh_def)
  ultimately show ?thesis
    using assms(2,3) by (simp add: check_messages_append in_keys_def dget_jget add.commute)
qed

lemma committed_files:
  assumes "d' = fold (\<lambda>w. w) (plan m e ns i' False False False (py_eq i i')) d" and "installation_doc d = Inr i"
    and "is_obj ns" and "is_obj i'"
  shows "id_journal d' = Missing" and "state_file d' = Inr ns"
    and "installation_doc d' = Inr (if py_eq i i' then i else i')"
  using assms
  by (auto simp: plan_def plan_tail_def write_defs state_file_def read_json_def installation_doc_def
      require_initialized_def exists_doc_def bind_res_Inr_iff)

lemma dget_copy_field: "k \<noteq> l \<Longrightarrow> dget k (copy_field l p s) = dget k s"
  by (simp add: copy_field_def)

lemma next_projection_status: "next_projection sy q s = Inr pr \<Longrightarrow> dget ''status'' pr = JStr (tr_target q)"
proof -
  assume "next_projection sy q s = Inr pr"
  then obtain r ep s0 where s0: "is_obj s0" and
    pr: "bind_res (py (next_blockers q (copy_field ''registry_revision'' (tr_payload q)
       (copy_field ''active_leader_epoch'' (tr_payload q) (copy_field ''selected_leader'' (tr_payload q)
       (copy_field ''active_leader'' (tr_payload q) (dset ''active_leader_epoch'' ep
         (dset ''last_event_id'' (JStr (sy_event_id sy)) (dset ''updated_at'' (JStr (sy_updated_at sy))
         (dset ''status'' (JStr (tr_target q)) (dset ''revision'' (JInt r) s0))))))))))) (\<lambda>s3. Inr (sealed s3)) = Inr pr"
    using sub_is_obj by (fastforce simp: next_projection_def Let_def bind_res_Inr_iff)
  from pr s0 show ?thesis
    by (auto simp: next_blockers_def bind_res_Inr_iff dget_sealed dget_copy_field split: if_splits)
qed

text \<open>The state, message and event of a request that was prepared and checked.\<close>

lemma prepared_result:
  assumes "records_agree m e ns i'" and "next_projection sy q s = Inr pr"
    and "m = make_message sy q iid (dget ''revision'' pr) n" and "e = make_event sy q s iid pr k"
    and "ns = sealed (dset ''last_event_digest'' (dget ''event_digest'' e) pr)"
  shows "dget ''status'' ns = JStr (tr_target q)" and "dget ''revision'' ns = JInt (tr_expected_revision q + 1)"
    and "dget ''revision'' pr = dget ''revision'' ns"
proof -
  have of_ns: "dget x ns = dget x pr" if "x \<notin> {''projection_digest'', ''last_event_digest''}" for x
    using that by (simp add: assms(5) dget_sealed)
  then show "dget ''revision'' pr = dget ''revision'' ns" by simp
  show "dget ''status'' ns = JStr (tr_target q)" using next_projection_status [OF assms(2)] of_ns by simp
  have "dget ''new_revision'' e = dget ''revision'' pr"
    by (simp add: assms(4) make_event_def Let_def dget_def)
  moreover have "dget ''expected_state_revision'' m = JInt (tr_expected_revision q)"
    by (simp add: assms(3) make_message_def Let_def) (simp add: dget_def)
  ultimately show "dget ''revision'' ns = JInt (tr_expected_revision q + 1)"
    using records_agreeD(15,16) [OF assms(1)] of_ns
    by (cases "(dget ''prior_revision'' e, dget ''new_revision'' e)" rule: follows.cases) (auto simp: agree_def)
qed

lemma replay_facts:
  assumes "replay_installation t d = Inr c" and "installation_doc d = Inr i" and "is_str (dget ''installation_id'' i)"
  obtains ms es k p where "messages_of d = Inr ms" and "check_messages 1 [] ms = Inr ()" and "events_of d = Inr es"
    and "replay_events ms 1 (replay_start (dget ''installation_id'' i) t) es = Inr k"
    and "list_all (\<lambda>m. list_ex (py_eq (dget ''message_id'' m)) (rk_messages k)) ms" and "state_file d = Inr p"
    and "py_eq p c" and "c = (if es = [] then sealed (rk_state k) else rk_state k)"
  using assms sub_str [OF assms(3)] unfolding replay_installation_iff by auto

text \<open>With an event, the clock does not matter.\<close>

lemma replay_any_time:
  assumes "replay_installation t d = Inr c" and "installation_doc d = Inr i" and "is_str (dget ''installation_id'' i)"
    and "messages_of d = Inr ms" and "ms \<noteq> []"
  shows "replay_installation t' d = Inr c"
  using assms(1-3)
proof (rule replay_facts)
  fix ms1 es k p assume rep: "messages_of d = Inr ms1" "check_messages 1 [] ms1 = Inr ()" "events_of d = Inr es"
    "replay_events ms1 1 (replay_start (dget ''installation_id'' i) t) es = Inr k"
    "list_all (\<lambda>m. list_ex (py_eq (dget ''message_id'' m)) (rk_messages k)) ms1" "state_file d = Inr p"
    "py_eq p c" "c = (if es = [] then sealed (rk_state k) else rk_state k)"
  have "es \<noteq> []"
  proof
    assume "es = []"
    with rep(4) have "rk_messages k = []" by (auto simp: replay_start_def)
    with rep(1,5) assms(4,5) show False by (cases ms) auto
  qed
  with replay_events_start [OF rep(4)] assms(1,2) rep sub_str [OF assms(3)] show ?thesis
    unfolding replay_installation_iff by auto
qed

lemma committed_replays:
  assumes rep: "check_messages 1 [] ms = Inr ()" "replay_events ms 1 (replay_start (dget ''installation_id'' i) t0) es = Inr k"
      "list_all (\<lambda>m. list_ex (py_eq (dget ''message_id'' m)) (rk_messages k)) ms"
      "py_eq p (if es = [] then sealed (rk_state k) else rk_state k)"
    and i: "installation_doc d = Inr i" "is_str (dget ''installation_id'' i)"
    and f: "fresh j d m e ns i' p ms es" and d': "d' = fold (\<lambda>w. w) (plan m e ns i' False False False (py_eq i i')) d"
    and read: "messages_of d' = Inr (ms @ [m])" "events_of d' = Inr (es @ [e])"
    and rec: "next_projection sy q s = Inr pr" "m = make_message sy q iid (dget ''revision'' pr) n1"
      "e = make_event sy q s iid pr n2" "ns = sealed (dset ''last_event_digest'' (dget ''event_digest'' e) pr)"
    and i': "dget ''installation_id'' i' = dget ''installation_id'' i"
  shows "replay_installation t1 d' = Inr ns"
proof -
  obtain k' where k': "replay_event (ms @ [m]) (1 + int (length es)) k e = Inr k'" "rk_state k' = ns"
    "rk_messages k' = dget ''message_id'' m # rk_messages k"
    using fresh_replays [OF f rec rep(2,4)] by auto
  have "replay_events (ms @ [m]) 1 (replay_start (dget ''installation_id'' i) t0) (es @ [e]) = Inr k'"
    using replay_events_more [OF rep(2), of "[m]"] k'(1) by (simp add: replay_events_append)
  from replay_events_start [OF this]
  have all: "replay_events (ms @ [m]) 1 (replay_start (dget ''installation_id'' i) t1) (es @ [e]) = Inr k'"
    by simp
  have msgs: "check_messages 1 [] (ms @ [m]) = Inr ()"
    using fresh_messages [OF f _ rep(1)] by (simp add: rec(2) make_message_fields)
  have objs: "is_obj ns" "is_obj i'" "py_eq (dget ''projection_digest'' ns) (JStr (state_digest ns))"
    using f records_agreeD(4) unfolding fresh_def journal_sound_def by blast+
  note after = committed_files [OF d' i(1) objs(1,2)]
  let ?i = "if py_eq i i' then i else i'"
  have "dget ''installation_id'' ?i = dget ''installation_id'' i" by (simp add: i')
  then have "sub ''installation_id'' ?i = Inr (dget ''installation_id'' i)" using sub_str i(2) by metis
  moreover have "list_all (\<lambda>m. list_ex (py_eq (dget ''message_id'' m)) (rk_messages k')) (ms @ [m])"
    using rep(3) by (auto simp: k'(3) list_all_iff)
  moreover have "require_initialized d' = Inr ()" using after(3) by (auto simp: installation_doc_def bind_res_Inr_iff)
  ultimately show ?thesis
    unfolding replay_installation_iff
    using after read all msgs k'(2) dget_str_get_eq [OF objs(3)]
    by (auto simp: exists_doc_def intro!: exI [of _ "ms @ [m]"])
qed

text \<open>Replay after a transition.\<close>

lemma replay_after_transition:
  assumes replay: "replay_installation t0 d = Inr c" and i: "installation_doc d = Inr i" "is_str (dget ''installation_id'' i)"
    and run: "transition_unlocked sy q (d, n) = (Inr r, d', n')"
    and readable: "messages_of d' = Inr ms'" "events_of d' = Inr es'"
  shows "\<exists>s. replay_installation t1 d' = Inr s \<and>
      (d' = d \<and> s = c \<or> dget ''status'' s = JStr (tr_target q) \<and> dget ''revision'' s = JInt (tr_expected_revision q + 1) \<and>
         r = request_result sy q (dget ''revision'' s))"
proof -
  have idle: "id_journal d = Missing" using replay by (auto simp: replay_installation_iff exists_doc_def)
  from run idle show ?thesis
  proof (cases rule: transition_cases)
    case (known m ms)
    then have "ms \<noteq> []" by auto
    from replay_any_time [OF replay i known(1) this] known(4) show ?thesis by blast
  next
    case (new s j)
    let ?d = "d\<lparr>id_journal := Doc j\<rparr>"
    obtain m e ns i' p ms es where f: "fresh j ?d m e ns i' p ms es"
      and d': "d' = fold (\<lambda>w. w) (plan m e ns i' False False False (py_eq i i')) ?d"
      and led: "ms' = ms @ [m]" "es' = es @ [e]"
      using prepared_commit [OF replay i new(1,2,4) readable] by metis
    have sound: "journal_sound j m e ns i'" "records_agree m e ns i'" and files: "messages_of ?d = Inr ms" "events_of ?d = Inr es" "state_file ?d = Inr p"
      using f unfolding fresh_def journal_sound_def by blast+
    have files: "messages_of d = Inr ms" "events_of d = Inr es" "state_file d = Inr p"
      using files file_cong [of ?d d] by simp_all
    have idoc: "installation_doc ?d = Inr i" using i(1) installation_doc_cong [of ?d d] by simp
    obtain pr iid n1 n2 where rec: "next_projection sy q s = Inr pr" "m = make_message sy q iid (dget ''revision'' pr) n1"
      "e = make_event sy q s iid pr n2" "ns = sealed (dset ''last_event_digest'' (dget ''event_digest'' e) pr)"
      "i' = dset ''active_leader_epoch'' (dget ''active_leader_epoch'' ns) (dset ''installation_status'' (dget ''status'' ns) i)"
      "r = request_result sy q (dget ''revision'' pr)"
      using prepared_records [OF new(2) sound(1) i(1)] .
    obtain k where rep: "check_messages 1 [] ms = Inr ()" "replay_events ms 1 (replay_start (dget ''installation_id'' i) t0) es = Inr k"
      "list_all (\<lambda>m. list_ex (py_eq (dget ''message_id'' m)) (rk_messages k)) ms"
      "py_eq p (if es = [] then sealed (rk_state k) else rk_state k)"
      by (rule replay_facts [OF replay i]) (use files in auto)
    have "replay_installation t1 d' = Inr ns"
      using committed_replays [OF rep idoc i(2) f d' readable [unfolded led] rec(1-4)] by (simp add: rec(5))
    with prepared_result [OF sound(2) rec(1-4)] rec(6) show ?thesis by simp
  qed
qed

text \<open>
  C16. An installation that replays still replays after every transition that returns and leaves
  readable ledgers: the events alone rebuild the persisted state. Either nothing has changed, for a
  request that was accepted before, or the rebuilt state is one revision further, in the status the
  request asked for, and the result says so.
\<close>

theorem transition_replays:
  assumes "replay_installation t0 d = Inr c" and "installation_doc d = Inr i" "is_str (dget ''installation_id'' i)"
    and "transition_unlocked sy q (d, n) = (Inr r, d', n')"
    and "messages_of d' = Inr ms'" "events_of d' = Inr es'"
  shows "\<exists>s. replay_installation t1 d' = Inr s \<and>
      (d' = d \<and> s = c \<or> dget ''status'' s = JStr (tr_target q) \<and> dget ''revision'' s = JInt (tr_expected_revision q + 1) \<and>
         r = request_result sy q (dget ''revision'' s))"
  by (rule replay_after_transition [OF assms])

end
