(* ===== verification/Control_Requests.thy ===== *)
theory Control_Requests
  imports Control_Replay
begin

text \<open>
  Requests to an installation: a request is applied once however often it is sent, a key is not
  reused for another request, a request that is refused leaves a failure record and nothing else, and
  what happens to an installation whose state is of the older form.
\<close>

section \<open>Repeated requests\<close>

lemma known_result_made: "known_result (make_message sy q iid rv n) = request_result sy q rv"
  by (simp add: known_result_def py_or_def request_result_def dget_def make_message_fields)

lemma found_after:
  assumes replay: "replay_installation t0 d = Inr c" and i: "installation_doc d = Inr i" "is_str (dget ''installation_id'' i)"
    and run: "transition_unlocked sy q (d, n) = (Inr r, d', n')"
    and readable: "messages_of d' = Inr ms'" "events_of d' = Inr es'"
  obtains m where "find_message (tr_key q) d' = Inr (Some m)" and "get_eq m ''content_digest'' (JStr (request_digest q))"
    and "known_result m = r"
proof -
  have idle: "id_journal d = Missing" using replay by (auto simp: replay_installation_iff exists_doc_def)
  from run idle show ?thesis
  proof (cases rule: transition_cases)
    case (known m ms)
    then show ?thesis using that by simp
  next
    case (new s j)
    let ?d = "d\<lparr>id_journal := Doc j\<rparr>"
    obtain m e ns i' p ms es where f: "fresh j ?d m e ns i' p ms es" and led: "ms' = ms @ [m]"
      using prepared_commit [OF replay i new(1,2,4) readable] by metis
    have sound: "journal_sound j m e ns i'" and "messages_of ?d = Inr ms"
      using f unfolding fresh_def by blast+
    then have ms: "messages_of d = Inr ms" using file_cong(1) [of ?d d] by simp
    obtain pr iid n1 where m: "m = make_message sy q iid (dget ''revision'' pr) n1" "r = request_result sy q (dget ''revision'' pr)"
      using prepared_records [OF new(2) sound i(1)] by metis
    have "List.find (\<lambda>m. get_eq m ''idempotency_key'' (JStr (tr_key q))) ms = None"
      using new(6) ms by (simp add: find_message_def)
    then have "find_message (tr_key q) d' = Inr (Some m)"
      using readable(1) led by (simp add: find_message_def find_append m(1) get_eq_def make_message_fields)
    then show ?thesis using that [of m] by (simp add: m known_result_made get_eq_def make_message_fields)
  qed
qed

lemma replayed_ready:
  assumes "replay_installation t d = Inr c"
  shows "id_journal d = Missing" and "require_initialized d = Inr ()"
  using assms by (auto simp: replay_installation_iff exists_doc_def)

section \<open>Refused requests\<close>

lemma replayed_files:
  assumes "replay_installation t d = Inr c"
  obtains i iid p where "installation_doc d = Inr i" and "sub ''installation_id'' i = Inr iid" and "state_file d = Inr p"
  using assms by (auto simp: replay_installation_iff)

definition with_failure :: "json \<Rightarrow> installation_disk \<Rightarrow> installation_disk" where
  "with_failure v d = d\<lparr>id_failures := append_line v (id_failures d)\<rparr>"

lemma failure_record_code:
  "dget ''error_code'' (failure_record sy (ControlPlaneError code msg eff) x iid s) = JStr code"
  by (simp add: failure_record_def Let_def) (simp add: dget_def)

lemma record_failure_run:
  assumes "replay_installation t d = Inr c"
  shows "\<exists>v. record_failure sy (ControlPlaneError code msg eff) x (d, Suc k) =
      (Inl (ControlPlaneError code msg eff), with_failure v d, k) \<and> dget ''error_code'' v = JStr code"
  using assms
proof (rule replayed_files)
  fix i iid p assume "installation_doc d = Inr i" "sub ''installation_id'' i = Inr iid" "state_file d = Inr p"
  then show ?thesis
    by (auto simp: record_failure_def with_failure_def failure_record_code)
qed

lemma replay_with_failure: "replay_installation t (with_failure v d) = replay_installation t d"
  by (simp add: replay_installation_def with_failure_def require_initialized_def messages_of_def events_of_def
      installation_doc_def state_file_def)

section \<open>Later states of an installation\<close>

text \<open>
  The files after any further requests: each returned and left ledgers that can be read, or failed
  and left nothing but its failure record.
\<close>

inductive later :: "installation_disk \<Rightarrow> installation_disk \<Rightarrow> bool" for d where
  later_now: "later d d"
| later_accepted: "later d d1 \<Longrightarrow> transition_unlocked sy q (d1, n) = (Inr r, d2, n') \<Longrightarrow>
    messages_of d2 = Inr ms \<Longrightarrow> events_of d2 = Inr es \<Longrightarrow> later d d2"
| later_failed: "later d d1 \<Longrightarrow> transition_unlocked sy q (d1, n) = (Inl e, with_failure v d1, n') \<Longrightarrow>
    later d (with_failure v d1)"

lemma files_with_failure [simp]:
  "installation_doc (with_failure v d) = installation_doc d"
  "find_message k (with_failure v d) = find_message k d"
  by (simp_all add: with_failure_def installation_doc_def require_initialized_def find_message_def messages_of_def)

text \<open>What a request leaves of the installation's identity and of the messages before it.\<close>

lemma transition_keeps:
  assumes replay: "replay_installation t0 d = Inr c" and i: "installation_doc d = Inr i" "is_str (dget ''installation_id'' i)"
    and run: "transition_unlocked sy q (d, n) = (Inr r, d', n')"
    and readable: "messages_of d' = Inr ms'" "events_of d' = Inr es'"
  shows "\<exists>i'. installation_doc d' = Inr i' \<and> is_str (dget ''installation_id'' i')"
    and "find_message k d = Inr (Some x) \<Longrightarrow> find_message k d' = Inr (Some x)"
proof -
  have idle: "id_journal d = Missing" using replayed_ready [OF replay] by simp
  have "(\<exists>i'. installation_doc d' = Inr i' \<and> is_str (dget ''installation_id'' i')) \<and>
      (find_message k d = Inr (Some x) \<longrightarrow> find_message k d' = Inr (Some x))"
    using run idle
  proof (cases rule: transition_cases)
    case (known m ms)
    with i show ?thesis by simp
  next
    case (new s j)
    let ?d = "d\<lparr>id_journal := Doc j\<rparr>"
    obtain m e ns i' p ms es where f: "fresh j ?d m e ns i' p ms es"
      and d': "d' = fold (\<lambda>w. w) (plan m e ns i' False False False (py_eq i i')) ?d" and led: "ms' = ms @ [m]"
      using prepared_commit [OF replay i new(1,2,4) readable] by metis
    have sound: "journal_sound j m e ns i'" "is_obj ns" "is_obj i'" and "messages_of ?d = Inr ms"
      using f unfolding fresh_def journal_sound_def by blast+
    then have ms: "messages_of d = Inr ms" using file_cong(1) [of ?d d] by simp
    have idoc: "installation_doc ?d = Inr i" using i(1) installation_doc_cong [of ?d d] by simp
    have "dget ''installation_id'' i' = dget ''installation_id'' i"
      by (rule prepared_records [OF new(2) sound(1) i(1)]) simp
    moreover have "installation_doc d' = Inr (if py_eq i i' then i else i')"
      using committed_files [OF d' idoc sound(2,3)] by blast
    moreover have "find_message k d' = Inr (Some x)" if "find_message k d = Inr (Some x)"
      using that ms readable(1) led by (auto simp: find_message_def find_append)
    ultimately show ?thesis using i(2) by auto
  qed
  then show "\<exists>i'. installation_doc d' = Inr i' \<and> is_str (dget ''installation_id'' i')"
    and "find_message k d = Inr (Some x) \<Longrightarrow> find_message k d' = Inr (Some x)" by blast+
qed

lemma later_keeps:
  assumes "later d d'" and "replay_installation t0 d = Inr c" and "installation_doc d = Inr i"
    and "is_str (dget ''installation_id'' i)" and "find_message k d = Inr (Some x)"
  shows "(\<exists>c. replay_installation t0 d' = Inr c) \<and> find_message k d' = Inr (Some x) \<and>
    (\<exists>i. installation_doc d' = Inr i \<and> is_str (dget ''installation_id'' i))"
  using assms
proof (induction rule: later.induct)
  case (later_accepted d1 sy q n r d2 n' ms es)
  then obtain c1 i1 where 1: "replay_installation t0 d1 = Inr c1" "installation_doc d1 = Inr i1"
    "is_str (dget ''installation_id'' i1)" and x: "find_message k d1 = Inr (Some x)" by blast
  note run = later_accepted.hyps(2-4)
  show ?case
    using replay_after_transition [OF 1 run, of t0] transition_keeps(1) [OF 1 run]
      transition_keeps(2) [OF 1 run x] by blast
qed (simp_all add: replay_with_failure)

text \<open>
  C18. A request is applied once, and its key is bound to it. Take an installation that replays and
  has a text as its identifier, and a request that returns and leaves ledgers that can be read (a
  payload with a line separator does not, and then nothing below holds). At any later time, after any
  further requests that returned and left readable ledgers or that failed and left only a failure
  record, take any request under the same key, with any fresh identifiers: if its content has the same
  digest it returns the same result and writes nothing; otherwise it fails with a conflict, and all it
  leaves is a failure record with that code.
\<close>

theorem key_bound_to_request:
  assumes "replay_installation t0 d = Inr c" and "installation_doc d = Inr i" and "is_str (dget ''installation_id'' i)"
    and "transition_unlocked sy q (d, n) = (Inr r, d', n')" and "messages_of d' = Inr ms" and "events_of d' = Inr es"
    and "later d' d''" and "tr_key q' = tr_key q"
  shows "if request_digest q' = request_digest q
    then transition_unlocked sy' q' (d'', Suc k) = (Inr r, d'', Suc k)
    else \<exists>v. transition_unlocked sy' q' (d'', Suc k) = (Inl key_conflict, with_failure v d'', k) \<and>
      dget ''error_code'' v = JStr ''VALP-E-IDEMPOTENCY-CONFLICT''"
proof -
  obtain m where m: "find_message (tr_key q') d' = Inr (Some m)" "get_eq m ''content_digest'' (JStr (request_digest q))"
    "known_result m = r"
    using found_after [OF assms(1-6)] assms(8) by metis
  then have same: "get_eq m ''content_digest'' (JStr (request_digest q')) \<longleftrightarrow> request_digest q' = request_digest q"
    by (auto simp: get_eq_def split: option.splits)
  obtain s' i' where "replay_installation t0 d' = Inr s'" "installation_doc d' = Inr i'" "is_str (dget ''installation_id'' i')"
    using replay_after_transition [OF assms(1-6)] transition_keeps(1) [OF assms(1-6)] by blast
  from later_keeps [OF assms(7) this m(1)] obtain s where
    s: "replay_installation t0 d'' = Inr s" and found: "find_message (tr_key q') d'' = Inr (Some m)" by blast
  from replayed_ready [OF s] m(2,3) found same show ?thesis
    by (simp add: transition_idle key_conflict_def record_failure_run [OF s])
qed

text \<open>A commit that fails leaves the journal.\<close>

definition keeps_journal :: "'a op \<Rightarrow> bool" where
  "keeps_journal m \<longleftrightarrow> (\<forall>d n. id_journal (fst (snd (m (d, n)))) = id_journal d)"

lemma keeps_simps:
  "keeps_journal (reading r)" "keeps_journal (fail_op e)" "keeps_journal (done_op x)"
  by (simp_all add: keeps_journal_def reading_def fail_op_def done_op_def)

lemma keeps_writing: "(\<And>d. id_journal (w d) = id_journal d) \<Longrightarrow> keeps_journal (writing w)"
  by (auto simp: keeps_journal_def writing_def split: nat.splits)

lemma keeps_bind: "keeps_journal m \<Longrightarrow> (\<And>x. keeps_journal (f x)) \<Longrightarrow> keeps_journal (bind_op m f)"
  unfolding keeps_journal_def bind_op_def by (auto split: prod.splits sum.splits) (metis fst_conv snd_conv)+

lemma keeps_when: "keeps_journal m \<Longrightarrow> keeps_journal (when_op b m)"
  by (simp add: when_op_def keeps_simps)

lemmas keeps_intros = keeps_simps keeps_writing keeps_bind keeps_when

definition failing_keeps_journal :: "'a op \<Rightarrow> bool" where
  "failing_keeps_journal m \<longleftrightarrow> (\<forall>d n e d' n'. m (d, n) = (Inl e, d', n') \<longrightarrow> id_journal d' = id_journal d)"

lemma failing_keeps_writing: "failing_keeps_journal (writing w)"
  by (auto simp: failing_keeps_journal_def writing_def split: nat.splits)

lemma failing_keeps_bind:
  assumes "keeps_journal m" and "\<And>x. failing_keeps_journal (f x)"
  shows "failing_keeps_journal (bind_op m f)"
  using assms unfolding failing_keeps_journal_def keeps_journal_def bind_op_def
  by (auto split: prod.splits sum.splits) (metis fst_conv snd_conv)+

lemma keeps_append:
  "(\<And>f d. id_journal (put f d) = id_journal d) \<Longrightarrow> keeps_journal (append_jsonl_atomic name get put v)"
  unfolding append_jsonl_atomic_def by (intro keeps_intros) simp_all

lemma commit_failure_keeps_journal: "failing_keeps_journal (commit_journal now j)"
proof -
  have "keeps_journal (if b then fail_op e else writing (\<lambda>d. d\<lparr>id_installation := Doc i\<rparr>))" for b e i
    by (simp add: keeps_intros)
  then show ?thesis
    unfolding commit_journal_def
    by (auto simp: split_beta intro!: failing_keeps_bind failing_keeps_writing keeps_intros keeps_append)
qed

lemma record_failure_writes:
  "record_failure sy e x (d, n) = (r, d', n') \<Longrightarrow> d' = d \<or> (\<exists>v. d' = with_failure v d)"
  by (auto simp: record_failure_def bind_op_def reading_def writing_def fail_op_def with_failure_def
      split: sum.splits nat.splits)

lemma new_transition_failure:
  assumes "new_transition sy q (d, n) = (Inl e, d', n')" and "id_journal d' = Missing"
  shows "d' = d \<or> (\<exists>v. d' = with_failure v d)"
proof (cases "current_state d")
  case (Inl x)
  with assms(1) show ?thesis by (simp add: new_transition_def)
next
  case (Inr s)
  show ?thesis
  proof (cases "admit q s")
    case (Inl x)
    with assms(1) \<open>current_state d = Inr s\<close> record_failure_writes [of sy x JNull d n] show ?thesis
      by (auto simp: new_transition_def split: if_splits)
  next
    case (Inr u)
    show ?thesis
    proof (cases "prepare sy q s d")
      case (Inl x)
      with assms(1) \<open>current_state d = Inr s\<close> Inr show ?thesis by (simp add: new_transition_def)
    next
      case p: (Inr jr)
      obtain j r where "jr = (j, r)" by (cases jr)
      with assms(1) \<open>current_state d = Inr s\<close> Inr p
      have run: "bind_op (writing (\<lambda>d. d\<lparr>id_journal := Doc j\<rparr>))
          (\<lambda>_. bind_op (commit_journal (sy_updated_at sy) j) (\<lambda>_. done_op r)) (d, n) = (Inl e, d', n')"
        by (simp add: new_transition_def)
      show ?thesis
      proof (cases n)
        case (Suc n1)
        with run have "commit_journal (sy_updated_at sy) j (d\<lparr>id_journal := Doc j\<rparr>, n1) = (Inl e, d', n')"
          by (auto simp: bind_op_def done_op_def writing_def split: prod.splits sum.splits)
        with commit_failure_keeps_journal assms(2) show ?thesis by (fastforce simp: failing_keeps_journal_def)
      qed (use run in simp)
    qed
  qed
qed

text \<open>
  A request that fails and leaves no pending journal has changed nothing, or only added a failure
  record; the installation replays to the same state.
\<close>

theorem refused_request_recorded:
  assumes "replay_installation t d = Inr c" and "transition_unlocked sy q (d, n) = (Inl e, d', n')"
    and "id_journal d' = Missing"
  shows "replay_installation t d' = Inr c \<and> (d' = d \<or> (\<exists>v. d' = with_failure v d))"
proof -
  note ready = replayed_ready [OF assms(1)]
  have "d' = d \<or> (\<exists>v. d' = with_failure v d)"
    using assms(2) new_transition_failure [of sy q d n e d' n'] record_failure_writes [of sy key_conflict _ d n] assms(3) ready
    by (auto simp: transition_idle split: sum.splits option.splits if_splits)
  with assms(1) replay_with_failure show ?thesis by metis
qed

section \<open>States of the older form\<close>

text \<open>The commit fails where the check of its journal fails, before it writes.\<close>

lemma failed_check:
  assumes "\<And>x. check_journal now j d \<noteq> Inr x"
  shows "\<exists>e. commit_journal now j (d, n) = (Inl e, d, n)"
proof (cases "check_journal now j d")
  case (Inl e)
  then show ?thesis by (simp add: commit_journal_def)
next
  case (Inr x)
  with assms show ?thesis by blast
qed

text \<open>Another leader in the projection than in the state, where the event does not bind the leader.\<close>

lemma leader_not_declared:
  assumes "\<not> py_eq (dget ''active_leader'' p) (dget ''active_leader'' pr)"
    and "''active_leader'' \<notin> set (row TRANSITION_PAYLOAD_STATE_FIELDS (event_kind_of e))"
  shows "validate_transition_contract False m e pr p \<noteq> Inr ()"
proof -
  have "''active_leader'' \<notin> set transition_fields" by (simp add: transition_fields_def)
  moreover have "''active_leader'' \<notin> set (bound_fields False e (dget ''payload'' m))"
    using assms(2) by (simp add: bound_fields_def legacy_restart_def)
  ultimately show ?thesis using assms(1) unfolding validate_iff by blast
qed

lemma next_projection_leader:
  assumes "next_projection sy q s = Inr pr" and "''active_leader'' \<notin> set (keys (tr_payload q))"
  shows "dget ''active_leader'' pr = dget ''active_leader'' s"
proof -
  have "is_obj s" using assms(1) sub_is_obj by (fastforce simp: next_projection_def bind_res_Inr_iff)
  with assms show ?thesis
    by (auto simp: next_projection_def Let_def bind_res_Inr_iff next_blockers_def dget_sealed dget_copy_field
        copy_field_def [of "''active_leader''"] split: if_splits)
qed

lemma older_leader_hidden:
  assumes "is_obj (dget ''active_leader'' p)" and "''session_id'' \<in> set (keys (dget ''active_leader'' p))" and "is_obj p"
  shows "\<not> py_eq (dget ''active_leader'' p) (dget ''active_leader'' (authority_view p))"
proof -
  have "dget ''active_leader'' (authority_view p) = ddel ''session_id'' (dget ''active_leader'' p)"
    using assms by (simp add: authority_view_def Let_def)
  moreover have "''session_id'' \<notin> set (keys (ddel ''session_id'' (dget ''active_leader'' p)))"
    by (cases "dget ''active_leader'' p") (auto simp: keys_def AList.delete_eq)
  ultimately show ?thesis using assms(2) py_eq_keys [of "dget ''active_leader'' p"] by auto
qed

lemma older_state_refused:
  assumes p: "state_file d = Inr p" "is_obj (dget ''active_leader'' p)" "''session_id'' \<in> set (keys (dget ''active_leader'' p))"
    and "id_state d' = id_state d" and j: "prepare sy q (authority_view p) d = Inr (j, r)"
    and "''active_leader'' \<notin> set (row TRANSITION_PAYLOAD_STATE_FIELDS (tr_event_kind q))"
    and "''active_leader'' \<notin> set (keys (tr_payload q))"
  shows "check_journal now j d' \<noteq> Inr x"
proof
  assume "check_journal now j d' = Inr x"
  obtain m e ns i' p' mt et where "x = (m, e, ns, i', p', mt, et)" by (cases x)
  with \<open>check_journal now j d' = Inr x\<close> obtain es prior where c: "journal_sound j m e ns i'" "state_file d' = Inr p'"
    "prior_state_of now p' ns e es et = Inr prior"
    "validate_transition_contract False m e (embedded_projection ns e) prior = Inr ()"
    by (auto simp: check_journal_iff)
  have "p' = p" using c(2) p(1) file_cong(3) [OF assms(4)] by simp
  obtain i where "installation_doc d = Inr i" using j by (auto simp: prepare_def Let_def bind_res_Inr_iff)
  from prepared_records [OF j c(1) this] obtain pr iid k where rec: "next_projection sy q (authority_view p) = Inr pr"
    "e = make_event sy q (authority_view p) iid pr k" "ns = sealed (dset ''last_event_digest'' (dget ''event_digest'' e) pr)"
    by metis
  have "agree p ''revision'' e ''prior_revision''"
    by (simp add: agree_def rec(2) dget_def [of "''prior_revision''"] make_event_fields authority_view_fields)
  then have "prior = p" using c(3) \<open>p' = p\<close> by (simp add: prior_state_of_def)
  have obj: "is_obj p" using p(1) by (auto simp: state_file_def read_json_def split: doc.splits if_splits)
  have "dget ''active_leader'' (embedded_projection ns e) = dget ''active_leader'' (authority_view p)"
    using next_projection_leader [OF rec(1) assms(7)] by (simp add: embedded_fields rec(3) dget_sealed)
  moreover have "event_kind_of e = tr_event_kind q"
    by (simp add: event_kind_of_def rec(2) make_event_def Let_def py_or_def dget_def)
  ultimately show False
    using leader_not_declared [of p "embedded_projection ns e" e m] older_leader_hidden [OF p(2,3) obj] assms(6) c(4) \<open>prior = p\<close>
    by simp
qed

lemma pending_failure:
  assumes "is_obj j" and "\<And>now k. \<exists>e. commit_journal now j (d\<lparr>id_journal := Doc j\<rparr>, k) = (Inl e, d\<lparr>id_journal := Doc j\<rparr>, k)"
    and "require_initialized (d\<lparr>id_journal := Doc j\<rparr>) = Inr ()"
  shows "\<exists>e. transition_unlocked sy q (d\<lparr>id_journal := Doc j\<rparr>, k) = (Inl e, d\<lparr>id_journal := Doc j\<rparr>, k)"
proof -
  obtain e where "commit_journal (sy_updated_at sy) j (d\<lparr>id_journal := Doc j\<rparr>, k) = (Inl e, d\<lparr>id_journal := Doc j\<rparr>, k)"
    using assms(2) by blast
  then have "recover_transition (sy_updated_at sy) (d\<lparr>id_journal := Doc j\<rparr>, k) = (Inl e, d\<lparr>id_journal := Doc j\<rparr>, k)"
    using assms(1) by (simp add: recover_transition_def exists_doc_def read_json_def)
  then show ?thesis using assms(3) by (simp add: transition_unlocked_def) (simp add: bind_op_def)
qed

text \<open>
  C30. A state of the older form, whose leader still has a session, is read without it, but the
  contract compares with the state as it is. So a request that passes every check on entry, for an
  event that does not replace the leader, writes its journal and then fails; and from then on every
  request fails, whatever it is, and changes nothing.
\<close>

theorem older_state_blocks_requests:
  assumes "id_journal d = Missing" and "state_file d = Inr p" and "current_state d = Inr s"
    and "is_obj (dget ''active_leader'' p)" and "''session_id'' \<in> set (keys (dget ''active_leader'' p))"
    and "find_message (tr_key q) d = Inr None" and "admit q s = Inr ()" and "prepare sy q s d = Inr (j, r)"
    and "''active_leader'' \<notin> set (row TRANSITION_PAYLOAD_STATE_FIELDS (tr_event_kind q))"
    and "''active_leader'' \<notin> set (keys (tr_payload q))"
  shows "(\<exists>e. transition_unlocked sy q (d, Suc n) = (Inl e, d\<lparr>id_journal := Doc j\<rparr>, n)) \<and>
    (\<forall>sy' q' k. \<exists>e. transition_unlocked sy' q' (d\<lparr>id_journal := Doc j\<rparr>, k) = (Inl e, d\<lparr>id_journal := Doc j\<rparr>, k))"
proof -
  let ?d = "d\<lparr>id_journal := Doc j\<rparr>"
  have s: "s = authority_view p" "require_initialized d = Inr ()"
    using assms(2,3) by (auto simp: current_state_def bind_res_Inr_iff split: if_splits)
  have refused: "check_journal now j ?d \<noteq> Inr x" for now x
    using older_state_refused [OF assms(2,4,5) _ assms(8) [unfolded s(1)] assms(9,10), of ?d] by simp
  have "is_obj j" using assms(8) by (auto simp: prepare_def Let_def bind_res_Inr_iff make_journal_fields)
  have "\<exists>e. commit_journal now j (?d, k) = (Inl e, ?d, k)" for now k
    using failed_check [of now j ?d k] refused by blast
  moreover have "require_initialized ?d = Inr ()" using s(2) by (simp add: require_initialized_def)
  ultimately have later: "\<exists>e. transition_unlocked sy' q' (?d, k) = (Inl e, ?d, k)" for sy' q' k
    by (rule pending_failure [OF \<open>is_obj j\<close>])
  obtain e where "commit_journal (sy_updated_at sy) j (?d, n) = (Inl e, ?d, n)"
    using failed_check [of "sy_updated_at sy" j ?d n] refused by blast
  then have "transition_unlocked sy q (d, Suc n) = (Inl e, ?d, n)"
    using s(2) assms(1,3,6-8) by (simp add: transition_idle new_transition_def) (simp add: bind_op_def writing_def)
  with later show ?thesis by blast
qed

section \<open>Line separators\<close>

lemma separates_prefix: "separates ys \<Longrightarrow> separates (ys @ zs)"
proof (induction ys rule: separates.induct)
  case (1 c d cs)
  have tail: "(case cs @ zs of [] \<Rightarrow> False | e # _ \<Rightarrow> P e)" if "case cs of [] \<Rightarrow> False | e # _ \<Rightarrow> P e" for P
    using that by (cases cs) simp_all
  have "separates (d # cs) \<Longrightarrow> separates (d # cs @ zs)" using 1(1) by simp
  with 1(2) tail [of "\<lambda>e. e \<in> {CHR 0xA8, CHR 0xA9}"] show ?case unfolding append_Cons separates.simps by argo
qed simp_all

lemma separates_suffix: "separates ys \<Longrightarrow> separates (xs @ ys)"
proof (induction xs)
  case (Cons x xs)
  then have "separates (xs @ ys)" by simp
  then show ?case by (cases "xs @ ys") auto
qed simp

lemma commas_infix: "x \<in> set xs \<Longrightarrow> \<exists>a b. commas xs = a @ x @ b"
proof (induction xs rule: commas.induct)
  case (3 x' y ys)
  show ?case
  proof (cases "x = x'")
    case True
    then show ?thesis by (intro exI [of _ "[]"] exI [of _ "CHR '','' # commas (y # ys)"]) simp
  next
    case False
    with 3 obtain a b where "commas (y # ys) = a @ x @ b" by auto
    then show ?thesis by (intro exI [of _ "x' @ CHR '','' # a"] exI [of _ b]) simp
  qed
qed (auto intro: exI [of _ "[]"])

text \<open>A separator in an entry is one in the text of the object.\<close>

lemma separates_entry:
  assumes "(k, v) \<in> set kvs" and "separates (dumps v)"
  shows "separates (dumps (JObj kvs))"
proof -
  have "quote k @ CHR '':'' # dumps v \<in> set (map (\<lambda>(k, t). quote k @ CHR '':'' # t) (sort_key fst (map (map_prod id dumps) kvs)))"
    using assms(1) by force
  then obtain a b where "commas (map (\<lambda>(k, t). quote k @ CHR '':'' # t) (sort_key fst (map (map_prod id dumps) kvs))) =
      a @ (quote k @ CHR '':'' # dumps v) @ b"
    using commas_infix by blast
  then have "dumps (JObj kvs) = (CHR ''{'' # a @ quote k @ [CHR '':'']) @ dumps v @ (b @ ''}'')" by simp
  then show ?thesis using separates_suffix [OF separates_prefix [OF assms(2)]] by metis
qed

lemma separates_jget: "jget k v = Some x \<Longrightarrow> separates (dumps x) \<Longrightarrow> separates (dumps v)"
  by (cases v) (auto simp del: dumps.simps dest: map_of_SomeD intro: separates_entry)

lemma made_message_separates: "separates (dumps (tr_payload q)) \<Longrightarrow> separates (dumps (make_message sy q iid rv n))"
  by (rule separates_jget [of "''payload''"]) (simp_all add: make_message_def Let_def)

lemma unreadable_messages:
  assumes "lf_lines (id_messages d) = ls @ [Malformed]"
  shows "\<exists>e. messages_of d = Inl e"
proof -
  have "\<exists>e. read_lines name n (ls @ [Malformed]) = Inl e" for name n
    by (cases "read_lines name n ls") (simp_all add: read_lines_append bind_res_def)
  then show ?thesis by (simp add: messages_of_def read_jsonl_def assms)
qed

text \<open>A request that succeeds has added its message, readable or not, and has left no journal.\<close>

lemma accepted_message_added:
  assumes "id_journal d = Missing" and "find_message (tr_key q) d = Inr None"
    and run: "transition_unlocked sy q (d, n) = (Inr r, d', n')"
  obtains iid rv k where "lf_lines (id_messages d') = lf_lines (id_messages d) @ [written_line (make_message sy q iid rv k)]"
    and "id_journal d' = Missing"
  using run assms(1)
proof (cases rule: transition_cases)
  case (known m ms)
  with assms(2) show ?thesis by simp
next
  case (new s j)
  let ?d = "d\<lparr>id_journal := Doc j\<rparr>"
  obtain m e ns i' p mt et i where c: "check_journal (sy_updated_at sy) j ?d = Inr (m, e, ns, i', p, mt, et)"
    and torn: "mt \<or> \<not> lf_torn (id_messages ?d)" "et \<or> \<not> lf_torn (id_events ?d)"
    and i: "installation_doc ?d = Inr i" "py_eq i i' \<or> agree i ''installation_id'' i' ''installation_id''"
    using new(4) by (rule commit_success)
  obtain pr iid ms where m: "messages_of d = Inr ms" "m = make_message sy q iid (dget ''revision'' pr) (int (length ms) + 1)"
    using new(2) c by (auto simp: prepare_def Let_def bind_res_Inr_iff check_journal_iff journal_sound_def make_journal_fields)
  have "messages_of ?d = messages_of d" using file_cong(1) [of ?d d] by simp
  then have "mt = False"
    using c m by (auto simp: check_journal_iff expected_sequence_def get_eq_def make_message_fields split: if_splits)
  then have "commit_journal (sy_updated_at sy) j (?d, n - 1) =
      run_writes (plan m e ns i' False et (py_eq p ns) (py_eq i i')) (?d, n - 1)"
    using commit_plan [OF c torn i] by simp
  then have "d' = fold (\<lambda>w. w) (plan m e ns i' False et (py_eq p ns) (py_eq i i')) ?d"
    using new(4) by (simp add: run_writes_result split: if_splits)
  then have "lf_lines (id_messages d') = lf_lines (id_messages d) @ [written_line m]" "id_journal d' = Missing"
    by (auto simp: plan_def plan_tail_def write_defs)
  with m(2) that show ?thesis by blast
qed

text \<open>
  C33. A payload with a line separator locks the installation: the request succeeds, but the line it
  adds cannot be read back, because lines are split at separators that the text of a document may hold
  unescaped. From then on replay fails and every request fails, and none changes anything.
\<close>

theorem separator_locks_installation:
  assumes "replay_installation t0 d = Inr c" and "find_message (tr_key q) d = Inr None"
    and "transition_unlocked sy q (d, n) = (Inr r, d', n')" and "separates (dumps (tr_payload q))"
  shows "(\<exists>e. replay_installation t1 d' = Inl e) \<and> (\<forall>sy' q' k. \<exists>e. transition_unlocked sy' q' (d', k) = (Inl e, d', k))"
proof -
  obtain iid rv k0 where added: "lf_lines (id_messages d') = lf_lines (id_messages d) @ [written_line (make_message sy q iid rv k0)]"
    and idle: "id_journal d' = Missing"
    by (rule accepted_message_added [OF replayed_ready(1) [OF assms(1)] assms(2,3)])
  have "written_line (make_message sy q iid rv k0) = Malformed"
    using made_message_separates [OF assms(4)] by (simp add: written_line_def)
  with added unreadable_messages obtain e where e: "messages_of d' = Inl e" by metis
  have "\<exists>e'. replay_installation t1 d' = Inl e'"
    using e by (cases "replay_installation t1 d'") (auto simp: replay_installation_iff)
  moreover have "\<exists>e'. transition_unlocked sy' q' (d', k) = (Inl e', d', k)" for sy' q' k
    using e by (cases "require_initialized d'") (simp_all add: transition_idle [OF idle] find_message_def)
  ultimately show ?thesis by blast
qed

end
