(* ===== verification/Control_Accept.thy ===== *)
theory Control_Accept
  imports Control_Requests
begin

text \<open>
  Requests that are accepted: on an installation that replays, a request that passes the checks on
  entry and whose records meet the transition contract is committed.
\<close>

section \<open>The projection inside the event\<close>

lemma dset_same: "k \<in> set (keys v) \<Longrightarrow> dset k (dget k v) v = v"
proof -
  have "AList.update k (case map_of kvs k of None \<Rightarrow> JNull | Some x \<Rightarrow> x) kvs = kvs" if "k \<in> fst ` set kvs"
    for kvs :: "(string \<times> json) list"
    using that by (induction kvs) auto
  then show "k \<in> set (keys v) \<Longrightarrow> dset k (dget k v) v = v"
    by (cases v) (auto simp: keys_def dget_def)
qed

lemma dset_swap:
  assumes "k \<in> set (keys v)" and "k \<noteq> l"
  shows "dset l y (dset k x v) = dset k x (dset l y v)"
proof -
  have "AList.update l y (AList.update k x kvs) = AList.update k x (AList.update l y kvs)" if "k \<in> fst ` set kvs"
    for kvs :: "(string \<times> json) list"
    using that assms(2) by (induction kvs) auto
  with assms(1) show ?thesis by (cases v) (auto simp: keys_def)
qed

text \<open>Taking the digest of the event out of the new state gives back what the event holds.\<close>

lemma embedded_restores:
  assumes "''last_event_digest'' \<in> set (keys x)" and "is_obj x" and "dget ''last_event_digest'' x = a"
    and "ns = sealed (dset ''last_event_digest'' b (sealed x))" and "dget ''prior_event_digest'' e = a"
  shows "embedded_projection ns e = sealed x"
proof -
  let ?l = "''last_event_digest''" and ?d = "''projection_digest''"
  define D where "D = JStr (state_digest (dset ?l b (sealed x)))"
  have "ns = dset ?d D (dset ?l b (dset ?d (JStr (state_digest x)) x))" by (simp add: assms(4) D_def sealed_def)
  also have "\<dots> = dset ?l b (dset ?d D x)"
    using dset_swap [of ?l "dset ?d (JStr (state_digest x)) x" ?d] assms(1,2) by simp
  finally have "dset ?l a ns = dset ?l (dget ?l (dset ?d D x)) (dset ?d D x)"
    using assms(2,3) by simp
  also have "\<dots> = dset ?d D x" using dset_same [of ?l "dset ?d D x"] assms(1,2) by simp
  finally have "dset ?l a ns = dset ?d D x" .
  then show ?thesis
    by (simp add: embedded_projection_def assms(5) sealed_def state_digest_def digest_without_def)
qed

lemma keys_copy_field: "set (keys s) \<subseteq> set (keys (copy_field k p s))"
  by (auto simp: copy_field_def)

lemma next_projection_form:
  assumes "next_projection sy q s = Inr pr"
  obtains x v where "pr = sealed x" and "is_obj x" and "set (keys s) \<subseteq> set (keys x)" and "plus_one (dget ''revision'' s) = Inr v"
    and "dget ''revision'' x = JInt v" and "dget ''updated_at'' x = JStr (sy_updated_at sy)"
    and "dget ''status'' x = JStr (tr_target q)"
    and "\<forall>k\<in>{''last_event_digest'', ''installation_id''}. dget k x = dget k s"
proof -
  obtain rv v ep where s: "sub ''revision'' s = Inr rv" "plus_one rv = Inr v" "sub ''active_leader_epoch'' s = Inr ep"
    using assms by (auto simp: next_projection_def bind_res_Inr_iff)
  define y where "y = copy_field ''registry_revision'' (tr_payload q) (copy_field ''active_leader_epoch'' (tr_payload q)
    (copy_field ''selected_leader'' (tr_payload q) (copy_field ''active_leader'' (tr_payload q)
    (dset ''active_leader_epoch'' ep (dset ''last_event_id'' (JStr (sy_event_id sy))
    (dset ''updated_at'' (JStr (sy_updated_at sy)) (dset ''status'' (JStr (tr_target q))
    (dset ''revision'' (JInt v) s))))))))"
  have obj: "is_obj s" using sub_is_obj [OF s(1)] .
  have y: "is_obj y" "dget ''revision'' y = JInt v" "dget ''updated_at'' y = JStr (sy_updated_at sy)"
    "dget ''status'' y = JStr (tr_target q)"
    and keep: "\<And>k. k \<in> {''last_event_digest'', ''installation_id''} \<Longrightarrow> dget k y = dget k s"
    using obj by (auto simp: y_def dget_copy_field)
  have keys_y: "set (keys s) \<subseteq> set (keys y)"
    unfolding y_def by (intro subset_trans [OF _ keys_copy_field]) auto
  have "dget ''revision'' s = rv" using s(1) by (auto simp: sub_def dget_def split: option.splits)
  obtain x where x: "next_blockers q y = Inr x" "pr = sealed x"
    using assms s by (auto simp: next_projection_def Let_def y_def bind_res_Inr_iff)
  have "is_obj x" "set (keys y) \<subseteq> set (keys x)" and same: "\<And>k. k \<noteq> ''active_blockers'' \<Longrightarrow> dget k x = dget k y"
    using x(1) y(1) by (auto simp: next_blockers_def bind_res_Inr_iff split: if_splits)
  then show ?thesis
    using x(2) y keys_y s(2) \<open>dget ''revision'' s = rv\<close> keep same by (intro that [of x v]) auto
qed

section \<open>The records agree\<close>

lemma message_values:
  "dget ''message_id'' (make_message sy q iid rv n) = JStr (sy_message_id sy)"
  "dget ''installation_id'' (make_message sy q iid rv n) = iid"
  "dget ''sender_principal_id'' (make_message sy q iid rv n) = JStr (tr_principal_id q)"
  "dget ''sender_kind'' (make_message sy q iid rv n) = JStr (tr_principal_kind q)"
  "dget ''leader_epoch'' (make_message sy q iid rv n) = JInt (tr_epoch q)"
  "dget ''expected_state_revision'' (make_message sy q iid rv n) = JInt (tr_expected_revision q)"
  "dget ''kind'' (make_message sy q iid rv n) = JStr (tr_message_kind q)"
  "dget ''payload'' (make_message sy q iid rv n) = tr_payload q"
  "dget ''content_digest'' (make_message sy q iid rv n) = JStr (request_digest q)"
  "dget ''event_id'' (make_message sy q iid rv n) = JStr (sy_event_id sy)"
  "dget ''result'' (make_message sy q iid rv n) = request_result sy q rv"
  "dget ''result_revision'' (make_message sy q iid rv n) = rv"
  "is_obj (make_message sy q iid rv n)"
  by (simp_all add: make_message_def Let_def) (simp_all add: dget_def)

lemma event_values:
  "dget ''event_id'' (make_event sy q s iid pr n) = JStr (sy_event_id sy)"
  "dget ''installation_id'' (make_event sy q s iid pr n) = iid"
  "dget ''leader_epoch'' (make_event sy q s iid pr n) = JInt (tr_epoch q)"
  "dget ''event_kind'' (make_event sy q s iid pr n) = JStr (tr_event_kind q)"
  "dget ''accepted_message_id'' (make_event sy q s iid pr n) = JStr (sy_message_id sy)"
  "dget ''prior_revision'' (make_event sy q s iid pr n) = dget ''revision'' s"
  "dget ''new_revision'' (make_event sy q s iid pr n) = dget ''revision'' pr"
  "dget ''occurred_at'' (make_event sy q s iid pr n) = dget ''updated_at'' pr"
  "dget ''actor_principal_id'' (make_event sy q s iid pr n) = JStr (tr_principal_id q)"
  "dget ''payload'' (make_event sy q s iid pr n) = event_payload (tr_payload q) pr"
  "dget ''prior_event_digest'' (make_event sy q s iid pr n) = dget ''last_event_digest'' s"
  "is_obj (make_event sy q s iid pr n)"
  by (simp_all add: make_event_def Let_def) (simp_all add: dget_def)

lemma made_digests:
  "dget ''message_digest'' (make_message sy q iid rv n) = JStr (digest_without (make_message sy q iid rv n) ''message_digest'')"
  "dget ''event_digest'' (make_event sy q s iid pr n) = JStr (digest_without (make_event sy q s iid pr n) ''event_digest'')"
  "dget ''journal_digest'' (make_journal m e ns i) = JStr (digest_without (make_journal m e ns i) ''journal_digest'')"
  unfolding make_message_def make_event_def make_journal_def Let_def
  by (simp_all only: dget_dset digest_without_def ddel_dset is_obj.simps simp_thms if_True)

lemma message_content_made: "message_content_digest (make_message sy q iid rv n) = request_digest q"
  by (simp add: message_content_digest_def message_values request_digest_def)

lemma result_values:
  "is_obj (request_result sy q rv)" "dget ''message_id'' (request_result sy q rv) = JStr (sy_message_id sy)"
  "dget ''event_id'' (request_result sy q rv) = JStr (sy_event_id sy)" "dget ''revision'' (request_result sy q rv) = rv"
  "dget ''status'' (request_result sy q rv) = JStr (tr_target q)"
  by (simp_all add: request_result_def) (simp_all add: dget_def)

lemma sealed_digest: "is_obj s \<Longrightarrow> dget ''projection_digest'' (sealed s) = JStr (state_digest (sealed s))"
  unfolding state_digest_sealed by (simp add: sealed_def)

lemma made_records_agree:
  assumes pr: "next_projection sy q s = Inr pr" and "dget ''revision'' s = JInt (tr_expected_revision q)"
    and led: "''last_event_digest'' \<in> set (keys s)"
    and i: "is_obj i" "py_eq (dget ''installation_id'' i) iid" and iid: "dget ''installation_id'' s = iid"
    and m: "m = make_message sy q iid (dget ''revision'' pr) n" and e: "e = make_event sy q s iid pr k"
    and ns: "ns = sealed (dset ''last_event_digest'' (dget ''event_digest'' e) pr)"
    and i': "i' = dset ''active_leader_epoch'' (dget ''active_leader_epoch'' ns) (dset ''installation_status'' (dget ''status'' ns) i)"
  shows "records_agree m e ns i'" and "embedded_projection ns e = pr" and "is_obj ns" and "is_obj i'"
proof -
  obtain x v where x: "pr = sealed x" "is_obj x" "set (keys s) \<subseteq> set (keys x)" "plus_one (dget ''revision'' s) = Inr v"
    "dget ''revision'' x = JInt v" "dget ''updated_at'' x = JStr (sy_updated_at sy)" "dget ''status'' x = JStr (tr_target q)"
    and keep: "\<forall>k\<in>{''last_event_digest'', ''installation_id''}. dget k x = dget k s"
    using next_projection_form [OF pr] .
  have "v = tr_expected_revision q + 1" using x(4) assms(2) by simp
  have of_ns: "dget f ns = dget f x" if "f \<notin> {''projection_digest'', ''last_event_digest''}" for f
    using that by (simp add: ns x(1) dget_sealed)
  show emb: "embedded_projection ns e = pr"
    unfolding x(1) using led x(2,3) keep by (intro embedded_restores [OF _ _ refl]) (auto simp: ns x(1) e event_values)
  show obj: "is_obj ns" "is_obj i'" using x(1,2) i(1) by (simp_all add: ns i')
  have pd: "dget ''projection_digest'' ns = JStr (state_digest ns)"
    using sealed_digest x(1,2) by (simp add: ns)
  have fields: "dget ''revision'' ns = JInt v" "dget ''revision'' pr = JInt v" "dget ''status'' ns = JStr (tr_target q)"
    "dget ''updated_at'' ns = JStr (sy_updated_at sy)" "dget ''updated_at'' pr = JStr (sy_updated_at sy)"
    "dget ''installation_id'' ns = iid"
    using x(5-7) keep iid of_ns by (simp_all add: x(1) dget_sealed)
  have vals: "dget ''installation_id'' i' = dget ''installation_id'' i" "dget ''installation_status'' i' = dget ''status'' ns"
    "dget ''active_leader_epoch'' i' = dget ''active_leader_epoch'' ns"
    using i(1) by (simp_all add: i')
  show "records_agree m e ns i'"
    unfolding records_agree_def Let_def agree_def emb pd vals fields
    using i(2) assms(2) \<open>v = tr_expected_revision q + 1\<close>
    by (simp add: m e message_values event_values result_values message_content_made made_digests fields)
qed

section \<open>Acceptance\<close>

text \<open>What the state file of an installation that replays holds.\<close>

lemma replayed_state:
  assumes replay: "replay_installation t d = Inr c" and i: "installation_doc d = Inr i" "is_str (dget ''installation_id'' i)"
    and p: "state_file d = Inr p" and es: "events_of d = Inr es"
  shows "dget ''installation_id'' p = dget ''installation_id'' i" and "''last_event_digest'' \<in> set (keys p)"
    and "py_eq (dget ''last_event_digest'' p) (expected_prior_digest es False)"
proof -
  obtain ms k where k: "replay_events ms 1 (replay_start (dget ''installation_id'' i) t) es = Inr k" "py_eq p c"
    "c = (if es = [] then sealed (rk_state k) else rk_state k)"
    by (rule replay_facts [OF replay i]) (use p es in auto)
  note get = py_eq_get [OF k(2)]
  have unbound: "''installation_id'' \<notin> set (bound_fields True e payload)" for e payload
    using bound_fields_protected by (auto simp: protected_fields_def)
  have "py_eq (dget ''installation_id'' (rk_state (replay_start (dget ''installation_id'' i) t))) (dget ''installation_id'' (rk_state k))"
    by (rule replay_events_field [OF k(1) _ unbound]) (simp add: transition_fields_def)
  moreover have "dget ''installation_id'' (rk_state (replay_start (dget ''installation_id'' i) t)) = dget ''installation_id'' i"
    by (simp add: replay_start_def empty_state_def) (simp add: dget_def)
  moreover obtain x where x: "dget ''installation_id'' i = JStr x" using i(2) by (cases "dget ''installation_id'' i") auto
  ultimately have "dget ''installation_id'' (rk_state k) = JStr x" by simp
  with get [of "''installation_id''"] show "dget ''installation_id'' p = dget ''installation_id'' i"
    by (simp add: k(3) dget_sealed x split: if_splits)
  have "''last_event_digest'' \<in> set (keys c) \<and> dget ''last_event_digest'' c = expected_prior_digest es False"
  proof (cases "es = []")
    case True
    with k show ?thesis
      by (auto simp: replay_start_def sealed_def empty_state_def expected_prior_digest_def keys_def dget_def)
  next
    case False
    note last = replay_events_last [OF k(1) False]
    show ?thesis
      using last(1) False by (simp add: k(3) last(2) state_after_def sealed_def expected_prior_digest_def)
  qed
  with py_eq_keys [OF k(2)] get [of "''last_event_digest''"]
  show "''last_event_digest'' \<in> set (keys p)" "py_eq (dget ''last_event_digest'' p) (expected_prior_digest es False)"
    by simp_all
qed

lemma made_journal_checks:
  assumes files: "messages_of d = Inr ms" "events_of d = Inr es" "state_file d = Inr p"
    and fresh: "\<forall>x\<in>set ms. dget ''message_id'' x \<noteq> JStr (sy_message_id sy)"
      "\<forall>x\<in>set es. dget ''event_id'' x \<noteq> JStr (sy_event_id sy)"
    and m: "m = make_message sy q iid rv (int (length ms) + 1)" and e: "e = make_event sy q p iid pr (int (length es) + 1)"
    and agree: "records_agree m e ns i'" "embedded_projection ns e = pr" "is_obj ns" "is_obj i'"
    and chain: "py_eq (dget ''last_event_digest'' p) (expected_prior_digest es False)"
    and v: "validate_transition_contract False m e pr p = Inr ()"
  shows "check_journal now (make_journal m e ns i') d = Inr (m, e, ns, i', p, False, False)"
proof -
  have "journal_sound (make_journal m e ns i') m e ns i'"
    unfolding journal_sound_def
    using agree(1,3,4) made_digests(3) [of m e ns i']
    by (simp add: make_journal_fields m e message_values(13) event_values(12))
      (simp add: make_journal_def Let_def dget_def)
  moreover have "key_of ''message_id'' m ms = Inr (if ms = [] then JNull else JStr (sy_message_id sy))"
    "key_of ''event_id'' e es = Inr (if es = [] then JNull else JStr (sy_event_id sy))"
    by (simp_all add: key_of_def sub_def m e make_message_fields make_event_fields)
  moreover have "ledger_tail ''message'' ''message_id'' ms (if ms = [] then JNull else JStr (sy_message_id sy)) m = Inr False"
    "ledger_tail ''event'' ''event_id'' es (if es = [] then JNull else JStr (sy_event_id sy)) e = Inr False"
    using fresh by (auto simp: ledger_tail_iff)
  moreover have "prior_state_of now p ns e es False = Inr p"
    by (simp add: prior_state_of_def agree_def e event_values)
  ultimately show ?thesis
    unfolding check_journal_iff using files chain v agree(2)
    by (simp add: get_eq_def m e make_message_fields make_event_fields expected_sequence_def event_values)
qed

text \<open>The journal that such a request prepares, and its check.\<close>

lemma contract_journal:
  assumes replay: "replay_installation t0 d = Inr c" and i: "installation_doc d = Inr i" "is_str (dget ''installation_id'' i)"
    and files: "messages_of d = Inr ms" "events_of d = Inr es" "state_file d = Inr p"
    and state: "dget ''revision'' p = JInt (tr_expected_revision q)"
    and fresh: "\<forall>x\<in>set ms. dget ''message_id'' x \<noteq> JStr (sy_message_id sy)"
      "\<forall>x\<in>set es. dget ''event_id'' x \<noteq> JStr (sy_event_id sy)"
    and entry: "next_projection sy q p = Inr pr"
    and m: "m = make_message sy q (dget ''installation_id'' i) (dget ''revision'' pr) (int (length ms) + 1)"
    and e: "e = make_event sy q p (dget ''installation_id'' i) pr (int (length es) + 1)"
    and contract: "validate_transition_contract False m e pr p = Inr ()"
  obtains ns i' j where "prepare sy q p d = Inr (j, request_result sy q (dget ''revision'' pr))"
    and "\<And>now. check_journal now j (d\<lparr>id_journal := Doc j\<rparr>) = Inr (m, e, ns, i', p, False, False)"
    and "agree i ''installation_id'' i' ''installation_id''"
proof -
  note st = replayed_state [OF replay i files(3,2)]
  define ns where "ns = sealed (dset ''last_event_digest'' (dget ''event_digest'' e) pr)"
  define i' where "i' = dset ''active_leader_epoch'' (dget ''active_leader_epoch'' ns) (dset ''installation_status'' (dget ''status'' ns) i)"
  define j where "j = make_journal m e ns i'"
  let ?d = "d\<lparr>id_journal := Doc j\<rparr>"
  have iobj: "is_obj i" using sub_str [OF i(2)] sub_is_obj by blast
  have "sub ''installation_id'' p = Inr (dget ''installation_id'' i)"
    using sub_str [of "''installation_id''" p] st(1) i(2) by simp
  then have prep: "prepare sy q p d = Inr (j, request_result sy q (dget ''revision'' pr))"
    by (simp add: prepare_def entry files i(1) Let_def flip: m e ns_def i'_def j_def)
  have agrees: "records_agree m e ns i'" "embedded_projection ns e = pr" "is_obj ns" "is_obj i'"
    using made_records_agree [OF entry state st(2) iobj _ _ m e ns_def i'_def] st(1) by simp_all
  have files': "messages_of ?d = Inr ms" "events_of ?d = Inr es" "state_file ?d = Inr p"
    using files file_cong [of ?d d] by simp_all
  have "check_journal now j ?d = Inr (m, e, ns, i', p, False, False)" for now
    using made_journal_checks [OF files' fresh m e agrees st(3) contract] unfolding j_def [symmetric] .
  then show ?thesis using that prep by (simp add: agree_def i'_def)
qed

definition extended :: "json \<Rightarrow> ledger_file \<Rightarrow> ledger_file" where
  "extended v f = f\<lparr>lf_lines := lf_lines f @ [written_line v]\<rparr>"

lemma contract_request_runs:
  assumes replay: "replay_installation t0 d = Inr c" and i: "installation_doc d = Inr i" "is_str (dget ''installation_id'' i)"
    and files: "messages_of d = Inr ms" "events_of d = Inr es" "state_file d = Inr p"
    and state: "authority_view p = p" "dget ''revision'' p = JInt (tr_expected_revision q)"
    and whole: "\<not> lf_torn (id_messages d)" "\<not> lf_torn (id_events d)"
    and fresh: "\<forall>x\<in>set ms. dget ''message_id'' x \<noteq> JStr (sy_message_id sy)"
      "\<forall>x\<in>set es. dget ''event_id'' x \<noteq> JStr (sy_event_id sy)" "find_message (tr_key q) d = Inr None"
    and entry: "admit q p = Inr ()" "next_projection sy q p = Inr pr"
    and m: "m = make_message sy q (dget ''installation_id'' i) (dget ''revision'' pr) (int (length ms) + 1)"
    and e: "e = make_event sy q p (dget ''installation_id'' i) pr (int (length es) + 1)"
    and contract: "validate_transition_contract False m e pr p = Inr ()" and "6 \<le> n"
  shows "\<exists>d' n'. transition_unlocked sy q (d, n) = (Inr (request_result sy q (dget ''revision'' pr)), d', n') \<and>
    id_journal d' = Missing \<and> id_messages d' = extended m (id_messages d) \<and> id_events d' = extended e (id_events d)"
proof -
  note ready = replayed_ready [OF replay]
  obtain ns i' j where prep: "prepare sy q p d = Inr (j, request_result sy q (dget ''revision'' pr))"
    and check: "\<And>now. check_journal now j (d\<lparr>id_journal := Doc j\<rparr>) = Inr (m, e, ns, i', p, False, False)"
    and same_id: "agree i ''installation_id'' i' ''installation_id''"
    by (rule contract_journal [OF replay i files state(2) fresh(1,2) entry(2) m e contract]) blast
  let ?d = "d\<lparr>id_journal := Doc j\<rparr>"
  have idoc: "installation_doc ?d = Inr i" using i(1) installation_doc_cong [of ?d d] by simp
  define ws where "ws = plan m e ns i' False False (py_eq p ns) (py_eq i i')"
  have "length ws \<le> 5" by (simp add: ws_def plan_def plan_tail_def)
  have commit: "commit_journal now j (?d, n - 1) = (Inr (), fold (\<lambda>w. w) ws ?d, n - 1 - length ws)" for now
    using commit_plan [OF check _ _ idoc, folded ws_def] whole same_id \<open>length ws \<le> 5\<close> \<open>6 \<le> n\<close>
    by (simp add: run_writes_result)
  have "current_state d = Inr p"
    using replay files(3) state(1) ready(2)
    by (auto simp: replay_installation_iff current_state_def get_eq_def dget_def split: option.splits)
  with ready fresh(3) entry(1) prep
  have run: "transition_unlocked sy q (d, n) = bind_op (writing (\<lambda>d. d\<lparr>id_journal := Doc j\<rparr>))
      (\<lambda>_. bind_op (commit_journal (sy_updated_at sy) j)
        (\<lambda>_. done_op (request_result sy q (dget ''revision'' pr)))) (d, n)"
    by (simp add: transition_idle new_transition_def)
  obtain n1 where n: "n = Suc n1" using \<open>6 \<le> n\<close> by (cases n) auto
  have "transition_unlocked sy q (d, n) =
      (Inr (request_result sy q (dget ''revision'' pr)), fold (\<lambda>w. w) ws ?d, n - 1 - length ws)"
    unfolding run using commit by (simp add: n) (simp add: bind_op_def writing_def done_op_def)
  moreover have "id_journal (fold (\<lambda>w. w) ws ?d) = Missing" "id_messages (fold (\<lambda>w. w) ws ?d) = extended m (id_messages d)"
    "id_events (fold (\<lambda>w. w) ws ?d) = extended e (id_events d)"
    by (auto simp: ws_def plan_def plan_tail_def write_defs extended_def)
  ultimately show ?thesis by blast
qed

text \<open>
  C19. What is admitted and meets its contract is committed: on an installation that replays and is
  not of the older form, with ledgers that end in whole lines, take a request with a new key and new
  identifiers. If it passes the checks on entry and its records meet the transition contract, then
  with six writes it returns its result, has added its message and its event to the ledgers, and
  leaves no journal behind.
\<close>

theorem contract_request_commits:
  assumes "replay_installation t0 d = Inr c" and "installation_doc d = Inr i" and "is_str (dget ''installation_id'' i)"
    and "messages_of d = Inr ms" and "events_of d = Inr es" and "state_file d = Inr p"
    and "authority_view p = p" and "dget ''revision'' p = JInt (tr_expected_revision q)"
    and "\<not> lf_torn (id_messages d)" and "\<not> lf_torn (id_events d)"
    and "\<forall>x\<in>set ms. dget ''message_id'' x \<noteq> JStr (sy_message_id sy)"
    and "\<forall>x\<in>set es. dget ''event_id'' x \<noteq> JStr (sy_event_id sy)" and "find_message (tr_key q) d = Inr None"
    and "admit q p = Inr ()" and "next_projection sy q p = Inr pr"
    and "m = make_message sy q (dget ''installation_id'' i) (dget ''revision'' pr) (int (length ms) + 1)"
    and "e = make_event sy q p (dget ''installation_id'' i) pr (int (length es) + 1)"
    and "validate_transition_contract False m e pr p = Inr ()" and "6 \<le> n"
  shows "\<exists>d' n'. transition_unlocked sy q (d, n) = (Inr (request_result sy q (dget ''revision'' pr)), d', n') \<and>
    id_journal d' = Missing \<and> id_messages d' = extended m (id_messages d) \<and> id_events d' = extended e (id_events d)"
  by (rule contract_request_runs [OF assms])

end
