(* ===== verification/Control_Lifecycle.thy ===== *)
theory Control_Lifecycle
  imports Control_Replay
begin

text \<open>
  What a ledger that replays says of the installation: its kinds of events are a path through the
  lifecycle, and a leader is there only if an event made one.
\<close>

section \<open>The lifecycle\<close>

text \<open>The statuses alone, moved by kinds of events; a restart from a blocked installation is the one exception.\<close>

fun lifecycle :: "string \<Rightarrow> string list \<Rightarrow> string option" where
  "lifecycle status [] = Some status"
| "lifecycle status (kind # kinds) =
     (case map_of TRANSITION_TARGETS kind of
        None \<Rightarrow> None
      | Some target \<Rightarrow>
          if target \<in> set (row LEGAL_TRANSITIONS status) \<or>
             kind = ''leader_restart_requested'' \<and> status = ''blocked''
          then lifecycle target kinds else None)"

lemma lifecycle_append:
  "lifecycle s (ks @ ks') = (case lifecycle s ks of None \<Rightarrow> None | Some t \<Rightarrow> lifecycle t ks')"
  by (induction s ks rule: lifecycle.induct) (auto split: option.splits)

lemma validated_move:
  assumes "validate_transition_contract True m e pr p = Inr ()" and "dget ''status'' p = JStr s"
  shows "\<exists>t. lifecycle s [event_kind_of e] = Some t \<and> dget ''status'' pr = JStr t"
proof -
  obtain t where "map_of TRANSITION_TARGETS (event_kind_of e) = Some t" "py_eq (dget ''status'' pr) (JStr t)"
    "legal_move True e (dget ''status'' p) t"
    using assms(1) unfolding validate_iff by blast
  with assms(2) show ?thesis by (auto simp: legal_move_def legacy_restart_def)
qed

lemma replay_events_lifecycle:
  assumes "replay_events ms n c es = Inr c'" and "dget ''status'' (rk_state c) = JStr s"
  shows "\<exists>t. lifecycle s (map event_kind_of es) = Some t \<and> dget ''status'' (rk_state c') = JStr t"
  using assms
proof (induction es arbitrary: n c s)
  case (Cons e es)
  then obtain c1 where c1: "replay_event ms n c e = Inr c1" "replay_events ms (n + 1) c1 es = Inr c'"
    by (auto simp: bind_res_Inr_iff)
  then obtain m where "validate_transition_contract True m e (projection_of e) (rk_state c) = Inr ()"
    and after: "rk_state c1 = state_after e"
    by (auto simp: replay_event_iff)
  from validated_move [OF this(1) Cons.prems(2)] obtain u where
    u: "lifecycle s [event_kind_of e] = Some u" "dget ''status'' (rk_state c1) = JStr u"
    by (auto simp: after dget_state_after)
  from Cons.IH [OF c1(2) u(2)] obtain t where
    t: "lifecycle u (map event_kind_of es) = Some t" "dget ''status'' (rk_state c') = JStr t"
    by blast
  have "lifecycle s ([event_kind_of e] @ map event_kind_of es) = Some t"
    unfolding lifecycle_append u(1) using t(1) by simp
  with t(2) show ?case by auto
qed auto

lemma replay_start_status: "dget ''status'' (rk_state (replay_start i t)) = JStr ''uninitialized''"
  by (simp add: replay_start_def empty_state_def) (simp add: dget_def)



text \<open>
  C22. Replay implements the lifecycle: when the ledgers replay, the kinds of their events lead from
  an uninitialized installation, by legal moves only, to the status that replay returns, and its
  revision is the number of events.
\<close>

theorem replay_refines_lifecycle:
  assumes "replay_installation now d = Inr s" and "events_of d = Inr es"
  shows "\<exists>status. lifecycle ''uninitialized'' (map event_kind_of es) = Some status \<and>
    dget ''status'' s = JStr status \<and> py_eq (dget ''revision'' s) (JInt (int (length es)))"
proof -
  obtain ms iid c where c: "replay_events ms 1 (replay_start iid now) es = Inr c"
    "s = (if es = [] then sealed (rk_state c) else rk_state c)"
    using assms by (auto simp: replay_installation_iff)
  have start: "py_eq (dget ''revision'' (rk_state (replay_start iid now))) (JInt (rk_revision (replay_start iid now)))"
    by (simp add: replay_start_def empty_state_def) (simp add: dget_def)
  have "py_eq (dget ''revision'' s) (JInt (int (length es)))"
    using replay_events_invariant [OF c(1) start] by (auto simp: c(2) dget_sealed replay_start_def)
  with replay_events_lifecycle [OF c(1) replay_start_status] show ?thesis
    by (auto simp: c(2) dget_sealed)
qed

section \<open>Leaders\<close>

definition leader_events :: "string list" where
  "leader_events = [''leader_activated'', ''leader_rotation_completed'']"

lemma leader_fields_bound:
  assumes "event_kind_of e \<notin> set leader_events" and "f \<in> {''active_leader'', ''active_leader_epoch''}"
  shows "f \<notin> set (bound_fields b e payload)"
  using assms
  by (auto simp: bound_fields_def leader_events_def row_def TRANSITION_PAYLOAD_STATE_FIELDS_def
      split: if_splits option.splits)

lemma replay_events_leader:
  assumes "replay_events ms n c es = Inr c'" and "\<forall>e\<in>set es. event_kind_of e \<notin> set leader_events"
    and "f \<in> {''active_leader'', ''active_leader_epoch''}"
  shows "py_eq (dget f (rk_state c)) (dget f (rk_state c'))"
  using assms leader_fields_bound
  by (intro replay_events_field [OF assms(1)]) (auto simp: transition_fields_def)

text \<open>
  No leader without an activation: when the ledgers replay and none of their events activates a
  leader or completes a rotation, the installation has no leader and is in epoch zero, whatever
  payloads were accepted.
\<close>

theorem leader_needs_activation:
  assumes "replay_installation now d = Inr s" and "events_of d = Inr es"
    and "\<forall>e\<in>set es. event_kind_of e \<notin> set leader_events"
  shows "dget ''active_leader'' s = JNull \<and> py_eq (dget ''active_leader_epoch'' s) (JInt 0)"
proof -
  obtain ms iid c where c: "replay_events ms 1 (replay_start iid now) es = Inr c"
    "s = (if es = [] then sealed (rk_state c) else rk_state c)"
    using assms(1,2) by (auto simp: replay_installation_iff)
  have "dget f s = dget f (rk_state c)" if "f \<in> {''active_leader'', ''active_leader_epoch''}" for f
    using that by (auto simp: c(2) dget_sealed)
  moreover have "dget ''active_leader'' (rk_state (replay_start iid now)) = JNull"
    "dget ''active_leader_epoch'' (rk_state (replay_start iid now)) = JInt 0"
    by (simp_all add: replay_start_def empty_state_def) (simp_all add: dget_def)
  ultimately show ?thesis
    using replay_events_leader [OF c(1) assms(3), of "''active_leader''"]
      replay_events_leader [OF c(1) assms(3), of "''active_leader_epoch''"]
    by (auto intro: py_eq_sym)
qed

end
