(* ===== verification/Control_Witnesses.thy ===== *)
theory Control_Witnesses
  imports Control_Accept Control_Lifecycle Store_Examples
begin

text \<open>
  A new installation and its first request, on which the properties of the control plane apply.
\<close>

section \<open>The installation and the request\<close>

definition new_installation :: json where
  "new_installation = JObj
     [(''installation_id'', JStr ''valp-1''), (''installation_status'', JStr ''uninitialized''),
      (''active_leader_epoch'', JInt 0)]"

definition new_state :: json where
  "new_state = sealed (empty_state (JStr ''valp-1'') ''t0'')"

definition new_disk :: installation_disk where
  "new_disk = \<lparr>id_installation = Doc new_installation, id_state = Doc new_state,
     id_messages = \<lparr>lf_lines = [], lf_torn = False\<rparr>, id_events = \<lparr>lf_lines = [], lf_torn = False\<rparr>,
     id_failures = \<lparr>lf_lines = [], lf_torn = False\<rparr>, id_journal = Missing\<rparr>"

definition init_inputs :: system_inputs where
  "init_inputs = \<lparr>sy_message_id = ''m1'', sy_event_id = ''e1'', sy_failure_id = ''f1'',
     sy_updated_at = ''t1'', sy_sent_at = ''t1'', sy_failed_at = ''t1''\<rparr>"

definition init_with :: "string \<Rightarrow> transition_request" where
  "init_with reason = \<lparr>tr_event_kind = ''installation_initialized'', tr_message_kind = ''command.installation.init'',
     tr_principal_id = ''bootstrap-controller'', tr_principal_kind = ''bootstrap-controller'', tr_epoch = 0,
     tr_expected_revision = 0, tr_payload = JObj [(''reason'', JStr reason)], tr_target = ''bootstrapping'',
     tr_key = ''init'', tr_task = None\<rparr>"

definition init_request :: transition_request where
  "init_request = init_with ''bootstrap''"

lemma new_state_obj: "is_obj new_state" "is_obj new_installation"
  by (simp_all add: new_state_def empty_state_def new_installation_def)

lemma new_files:
  "require_initialized new_disk = Inr ()" "installation_doc new_disk = Inr new_installation"
  "state_file new_disk = Inr new_state" "messages_of new_disk = Inr []" "events_of new_disk = Inr []"
  "id_journal new_disk = Missing"
  using new_state_obj
  by (simp_all add: new_disk_def require_initialized_def exists_doc_def installation_doc_def read_json_def state_file_def
      messages_of_def events_of_def read_jsonl_def)

lemma new_state_fields: "k \<noteq> ''projection_digest'' \<Longrightarrow> dget k new_state = dget k (empty_state (JStr ''valp-1'') ''t0'')"
  by (simp add: new_state_def dget_sealed)

lemma new_state_obj2: "is_obj (empty_state i t)"
  by (simp add: empty_state_def)

lemma new_digest: "dget ''projection_digest'' new_state = JStr (state_digest new_state)"
  unfolding new_state_def by (rule sealed_digest [OF new_state_obj2])

lemma new_replay: "replay_installation ''t0'' new_disk = Inr new_state"
  unfolding replay_installation_iff
  using dget_str_get_eq [of "''projection_digest''" new_state "state_digest new_state"] new_digest
  by (auto simp: new_files sub_def new_installation_def replay_start_def exists_doc_def new_state_def)

lemma new_values:
  "dget ''revision'' new_state = JInt 0" "dget ''status'' new_state = JStr ''uninitialized''"
  "dget ''active_leader_epoch'' new_state = JInt 0" "dget ''active_leader'' new_state = JNull"
  "dget ''active_blockers'' new_state = JArr []" "dget ''last_event_digest'' new_state = JNull"
  "dget ''installation_id'' new_installation = JStr ''valp-1''"
  by (simp_all add: new_state_fields empty_state_def new_installation_def) (simp_all add: dget_def)

lemma new_revision: "jget ''revision'' new_state = Some (JInt 0)"
  by (simp add: new_state_def sealed_def empty_state_def)

lemma new_subs:
  "sub ''revision'' new_state = Inr (JInt 0)" "sub ''status'' new_state = Inr (JStr ''uninitialized'')"
  "sub ''active_leader_epoch'' new_state = Inr (JInt 0)"
  by (simp_all add: sub_def new_state_def sealed_def empty_state_def)

lemma new_view: "authority_view new_state = new_state"
  by (simp add: authority_view_def new_values)

definition first_projection :: json where
  "first_projection = sealed (dset ''active_leader_epoch'' (JInt 0) (dset ''last_event_id'' (JStr ''e1'')
     (dset ''updated_at'' (JStr ''t1'') (dset ''status'' (JStr ''bootstrapping'') (dset ''revision'' (JInt 1) new_state)))))"

lemma first_projection_next: "next_projection init_inputs (init_with reason) new_state = Inr first_projection"
  by (simp add: next_projection_def new_subs init_inputs_def init_with_def Let_def copy_field_def keys_def
      next_blockers_def clearing_targets_def first_projection_def)

lemma init_admitted: "admit (init_with reason) new_state = Inr ()"
  by (simp add: admit_def new_subs init_with_def validate_epoch_def BOOTSTRAP_CORE_KINDS_def INSTALLATION_STATUS_def
      legal_from_def row_def LEGAL_TRANSITIONS_def)

lemma first_values:
  "dget ''revision'' first_projection = JInt 1" "dget ''status'' first_projection = JStr ''bootstrapping''"
  "dget ''updated_at'' first_projection = JStr ''t1''" "dget ''last_event_id'' first_projection = JStr ''e1''"
  "dget ''active_blockers'' first_projection = JArr []" "dget ''last_event_digest'' first_projection = JNull"
  by (simp_all add: first_projection_def dget_sealed new_values new_state_obj)

lemma first_same: "f \<notin> set transition_fields \<Longrightarrow> py_eq (dget f new_state) (dget f first_projection)"
  by (simp add: first_projection_def dget_sealed new_values new_state_obj transition_fields_def)

lemma init_contract:
  "validate_transition_contract False (make_message init_inputs (init_with reason) iid rv n)
     (make_event init_inputs (init_with reason) new_state iid first_projection k) first_projection new_state = Inr ()"
  unfolding validate_iff
  apply (rule exI [of _ "''command.installation.init''"], rule exI [of _ "''bootstrap-controller''"])
  apply (rule exI [of _ "''bootstrapping''"], rule exI [of _ 1], rule exI [of _ "JArr []"])
  using first_same
  by (auto simp: event_kind_of_def event_values message_values py_or_def init_with_def init_inputs_def new_values first_values
      new_revision TRANSITION_CONTRACTS_def TRANSITION_TARGETS_def expected_principal_def PRINCIPALS_def legal_move_def row_def
      LEGAL_TRANSITIONS_def legacy_restart_def bound_fields_def TRANSITION_PAYLOAD_STATE_FIELDS_def protected_fields_def
      keys_def expected_blockers_def clearing_targets_def)

section \<open>The request runs\<close>

definition init_message :: json where
  "init_message = make_message init_inputs init_request (JStr ''valp-1'') (JInt 1) 1"

definition init_event :: json where
  "init_event = make_event init_inputs init_request new_state (JStr ''valp-1'') first_projection 1"

definition init_result :: json where
  "init_result = request_result init_inputs init_request (JInt 1)"

definition init_disk :: installation_disk where
  "init_disk = fst (snd (transition_unlocked init_inputs init_request (new_disk, 6)))"

lemma init_new_key: "find_message (tr_key (init_with reason)) new_disk = Inr None"
  by (simp add: find_message_def new_files)

lemma new_whole: "\<not> lf_torn (id_messages new_disk)" "\<not> lf_torn (id_events new_disk)"
  by (simp_all add: new_disk_def)

lemma new_fresh:
  "\<forall>x\<in>set []. dget ''message_id'' x \<noteq> JStr (sy_message_id init_inputs)"
  "\<forall>x\<in>set []. dget ''event_id'' x \<noteq> JStr (sy_event_id init_inputs)"
  by simp_all

lemma new_id: "is_str (dget ''installation_id'' new_installation)"
  by (simp add: new_values)

lemma init_expected: "dget ''revision'' new_state = JInt (tr_expected_revision (init_with reason))"
  by (simp add: new_values init_with_def)

lemma init_runs_ex:
  "\<exists>d' n'. transition_unlocked init_inputs init_request (new_disk, 6) = (Inr init_result, d', n') \<and> id_journal d' = Missing \<and>
     id_messages d' = extended init_message (id_messages new_disk) \<and> id_events d' = extended init_event (id_events new_disk)"
  using contract_request_runs [OF new_replay new_files(2) new_id new_files(4,5,3) new_view init_expected new_whole new_fresh
      init_new_key init_admitted first_projection_next refl refl init_contract, of 6 "''bootstrap''"]
  by (simp add: new_values first_values init_message_def init_event_def init_result_def init_request_def)

lemma init_runs:
  obtains n' where "transition_unlocked init_inputs init_request (new_disk, 6) = (Inr init_result, init_disk, n')"
    and "id_messages init_disk = extended init_message (id_messages new_disk)"
    and "id_events init_disk = extended init_event (id_events new_disk)"
  using init_runs_ex by (auto simp: init_disk_def)

section \<open>The ledgers can be read\<close>

lemma separates_wide: "separates s \<Longrightarrow> CHR 0xC2 \<in> set s \<or> CHR 0xE2 \<in> set s"
proof (induction s rule: separates.induct)
  case (1 c d cs)
  then have "c = CHR 0xC2 \<or> c = CHR 0xE2 \<or> separates (d # cs)" unfolding separates.simps by blast
  with 1 show ?case by (metis list.set_intros)
qed simp_all

lemma ascii_not_separates: "ascii s \<Longrightarrow> \<not> separates s"
proof
  assume "ascii s" "separates s"
  with separates_wide have "(of_char (CHR 0xC2) :: nat) < 128 \<or> (of_char (CHR 0xE2) :: nat) < 128"
    unfolding ascii_def list_all_iff by blast
  then show False by simp
qed

lemma ascii_digest_value: "ascii (digest_value v)"
  by (simp add: digest_value_def ascii_digest)

lemma plain_dset: "plain v \<Longrightarrow> ascii k \<Longrightarrow> plain x \<Longrightarrow> plain (dset k x v)"
proof (cases v)
  case (JObj kvs)
  have "set (AList.update k x kvs) \<subseteq> insert (k, x) (set kvs)" by (induction kvs) auto
  then show "plain v \<Longrightarrow> ascii k \<Longrightarrow> plain x \<Longrightarrow> plain (dset k x v)"
    unfolding JObj dset.simps plain.simps by fastforce
qed simp_all

lemma plain_sealed: "plain s \<Longrightarrow> plain (sealed s)"
  unfolding sealed_def state_digest_def digest_without_def by (intro plain_dset) (simp_all add: ascii_digest_value)

lemma plain_new_state: "plain new_state"
  unfolding new_state_def by (intro plain_sealed) (simp add: empty_state_def)

lemma plain_first: "plain first_projection"
  unfolding first_projection_def by (intro plain_sealed plain_dset) (simp_all add: plain_new_state)

lemma plain_init_message: "plain init_message"
  unfolding init_message_def make_message_def Let_def
  by (intro plain_dset)
     (simp_all add: init_inputs_def init_request_def init_with_def request_result_def digest_without_def request_digest_def
       content_digest_def ascii_digest_value)

lemma plain_init_event: "plain init_event"
  unfolding init_event_def make_event_def Let_def
  by (intro plain_dset)
     (simp_all add: init_inputs_def init_request_def init_with_def digest_without_def ascii_digest_value event_payload_def plain_first
       new_values first_values)

lemma plain_line: "plain v \<Longrightarrow> written_line v = Line v"
  by (simp add: written_line_def ascii_not_separates plain_dumps)

lemma init_readable: "messages_of init_disk = Inr [init_message]" "events_of init_disk = Inr [init_event]"
proof -
  have "is_obj init_message" "is_obj init_event"
    by (simp_all add: init_message_def init_event_def message_values event_values)
  moreover have "id_messages init_disk = extended init_message (id_messages new_disk)"
    "id_events init_disk = extended init_event (id_events new_disk)"
    by (rule init_runs; simp)+
  ultimately show "messages_of init_disk = Inr [init_message]" "events_of init_disk = Inr [init_event]"
    by (simp_all add: messages_of_def events_of_def read_jsonl_def extended_def new_disk_def plain_line plain_init_message
        plain_init_event)
qed

section \<open>Witnesses\<close>

text \<open>The request runs, in six writes.\<close>

theorem contract_request_commits_witness:
  "\<exists>d' n'. transition_unlocked init_inputs init_request (new_disk, 6) = (Inr init_result, d', n') \<and> id_journal d' = Missing"
  using contract_request_commits [OF new_replay new_files(2) new_id new_files(4,5,3) new_view init_expected new_whole new_fresh
      init_new_key init_admitted first_projection_next refl refl init_contract, of 6 "''bootstrap''"]
  by (auto simp: first_values init_result_def init_request_def)

text \<open>Cut after two writes, with one recovery that is cut after one write.\<close>

theorem transition_survives_crashes_witness:
  "\<exists>d'' n''. recover_transition ''t3''
      (recoveries [(''t2'', 1)] (fst (snd (transition_unlocked init_inputs init_request (new_disk, 2)))), 5) = (Inr (), d'', n'') \<and>
    (d'' = init_disk \<or> d'' = new_disk)"
proof -
  obtain n' where run: "transition_unlocked init_inputs init_request (new_disk, 6) = (Inr init_result, init_disk, n')"
    by (rule init_runs)
  obtain res dk k' where cut: "transition_unlocked init_inputs init_request (new_disk, 2) = (res, dk, k')"
    by (metis prod_cases3)
  from transition_survives_crashes [OF new_replay new_files(2) new_id run init_readable cut, of "''t3''" "[(''t2'', 1)]"] cut
  show ?thesis by auto
qed

theorem transition_replays_witness:
  "\<exists>s. replay_installation ''t9'' init_disk = Inr s \<and> (init_disk = new_disk \<or> dget ''status'' s = JStr ''bootstrapping'')"
proof -
  obtain n' where run: "transition_unlocked init_inputs init_request (new_disk, 6) = (Inr init_result, init_disk, n')"
    by (rule init_runs)
  from transition_replays [OF new_replay new_files(2) new_id run init_readable, of "''t9''"] show ?thesis
    by (auto simp: init_request_def init_with_def)
qed

text \<open>The same request again, and another one under its key.\<close>

theorem key_bound_to_request_witness:
  "transition_unlocked (init_inputs\<lparr>sy_event_id := ''e2''\<rparr>) init_request (init_disk, Suc 0) = (Inr init_result, init_disk, Suc 0)"
proof -
  obtain n' where run: "transition_unlocked init_inputs init_request (new_disk, 6) = (Inr init_result, init_disk, n')"
    by (rule init_runs)
  from key_bound_to_request [OF new_replay new_files(2) new_id run init_readable later_now refl, of "init_inputs\<lparr>sy_event_id := ''e2''\<rparr>" 0]
  show ?thesis by simp
qed

text \<open>A request for a revision that the installation has not reached.\<close>

definition early_request :: transition_request where
  "early_request = init_request\<lparr>tr_expected_revision := 5\<rparr>"

lemma early_refused: "\<exists>c m x. admit early_request new_state = Inl (ControlPlaneError c m x)"
  by (simp add: admit_def new_subs early_request_def init_request_def init_with_def)

lemma early_fails:
  obtains e v where "transition_unlocked init_inputs early_request (new_disk, Suc 0) = (Inl e, with_failure v new_disk, 0)"
proof -
  obtain c m x where e: "admit early_request new_state = Inl (ControlPlaneError c m x)" using early_refused by blast
  have key: "find_message (tr_key early_request) new_disk = Inr None" by (simp add: find_message_def new_files)
  have "current_state new_disk = Inr new_state"
    by (simp add: current_state_def new_files new_digest new_view)
  with e key have "transition_unlocked init_inputs early_request (new_disk, Suc 0) =
      record_failure init_inputs (ControlPlaneError c m x) JNull (new_disk, Suc 0)"
    by (simp add: transition_idle new_files new_transition_def is_control_error_def)
  with record_failure_run [OF new_replay, of init_inputs c m x JNull 0] that show ?thesis by auto
qed

theorem refused_request_recorded_witness:
  "replay_installation ''t0'' (fst (snd (transition_unlocked init_inputs early_request (new_disk, Suc 0)))) = Inr new_state"
proof -
  obtain e v where run: "transition_unlocked init_inputs early_request (new_disk, Suc 0) = (Inl e, with_failure v new_disk, 0)"
    by (rule early_fails)
  have "id_journal (with_failure v new_disk) = Missing" by (simp add: with_failure_def new_files)
  from refused_request_recorded [OF new_replay run this] run show ?thesis by simp
qed

text \<open>The ledgers after the request.\<close>

lemma init_replays: "\<exists>s. replay_installation ''t9'' init_disk = Inr s"
proof -
  obtain n' where run: "transition_unlocked init_inputs init_request (new_disk, 6) = (Inr init_result, init_disk, n')"
    by (rule init_runs)
  from replay_after_transition [OF new_replay new_files(2) new_id run init_readable, of "''t9''"] show ?thesis by blast
qed

lemma init_kind: "event_kind_of init_event = ''installation_initialized''"
  by (simp add: event_kind_of_def init_event_def event_values init_request_def init_with_def py_or_def)

theorem replay_refines_lifecycle_witness:
  "\<exists>s. replay_installation ''t9'' init_disk = Inr s \<and> dget ''status'' s = JStr ''bootstrapping''"
proof -
  obtain s where s: "replay_installation ''t9'' init_disk = Inr s" using init_replays by blast
  from replay_refines_lifecycle [OF s init_readable(2)] show ?thesis
    using s by (auto simp: init_kind TRANSITION_TARGETS_def row_def LEGAL_TRANSITIONS_def)
qed

theorem leader_needs_activation_witness:
  "\<exists>s. replay_installation ''t9'' init_disk = Inr s \<and> dget ''active_leader'' s = JNull"
proof -
  obtain s where s: "replay_installation ''t9'' init_disk = Inr s" using init_replays by blast
  from leader_needs_activation [OF s init_readable(2)] show ?thesis
    using s by (auto simp: init_kind leader_events_def)
qed

section \<open>A reason with a line separator\<close>

definition separator_request :: transition_request where
  "separator_request = init_with [CHR 0xE2, CHR 0x80, CHR 0xA8]"

lemma separator_request_separates: "separates (dumps (tr_payload separator_request))"
proof -
  have "separates (dumps (JStr [CHR 0xE2, CHR 0x80, CHR 0xA8]))"
    by (simp add: quote_def esc_char_def esc_table_def dquote_def backslash_def)
  then show ?thesis
    unfolding separator_request_def init_with_def by (simp add: separates_entry del: dumps.simps)
qed

theorem separator_locks_installation_witness:
  "\<exists>r d' n'. transition_unlocked init_inputs separator_request (new_disk, 6) = (Inr r, d', n') \<and>
     (\<exists>e. replay_installation ''t9'' d' = Inl e) \<and> (\<exists>e. transition_unlocked init_inputs init_request (d', 6) = (Inl e, d', 6))"
proof -
  obtain r d' n' where run: "transition_unlocked init_inputs separator_request (new_disk, 6) = (Inr r, d', n')"
    using contract_request_runs [OF new_replay new_files(2) new_id new_files(4,5,3) new_view init_expected new_whole new_fresh
        init_new_key init_admitted first_projection_next refl refl init_contract, of 6 "[CHR 0xE2, CHR 0x80, CHR 0xA8]"]
    by (auto simp: separator_request_def)
  have "find_message (tr_key separator_request) new_disk = Inr None" by (simp add: separator_request_def init_new_key)
  from separator_locks_installation [OF new_replay this run separator_request_separates, of "''t9''"] run show ?thesis
    by blast
qed

section \<open>An installation of the older form\<close>

definition older_state :: json where
  "older_state = sealed (JObj
     [(''schema_version'', JStr ''valp-executable-state.v1''), (''installation_id'', JStr ''valp-1''),
      (''revision'', JInt 7), (''status'', JStr ''active''), (''selected_leader'', JNull),
      (''active_leader'', JObj [(''principal_id'', JStr ''leader-1''), (''session_id'', JStr ''s1'')]),
      (''active_leader_epoch'', JInt 1), (''registry_revision'', JInt 0), (''active_blockers'', JArr []),
      (''last_event_id'', JStr ''e7''), (''last_event_digest'', JNull), (''updated_at'', JStr ''t7''),
      (''projection_digest'', JStr '''')])"

definition older_disk :: installation_disk where
  "older_disk = new_disk\<lparr>id_state := Doc older_state\<rparr>"

definition reconcile_request :: transition_request where
  "reconcile_request = \<lparr>tr_event_kind = ''capability_reconciliation_started'',
     tr_message_kind = ''command.capabilities.reconcile'', tr_principal_id = ''leader-1'',
     tr_principal_kind = ''installation-leader'', tr_epoch = 1, tr_expected_revision = 7, tr_payload = JObj [],
     tr_target = ''reconciling_capabilities'', tr_key = ''reconcile'', tr_task = None\<rparr>"

lemma older_files:
  "state_file older_disk = Inr older_state" "id_journal older_disk = Missing" "messages_of older_disk = Inr []"
  "events_of older_disk = Inr []" "installation_doc older_disk = Inr new_installation" "require_initialized older_disk = Inr ()"
  using new_state_obj(2)
  by (simp_all add: older_disk_def new_disk_def state_file_def read_json_def messages_of_def events_of_def read_jsonl_def
      installation_doc_def require_initialized_def exists_doc_def) (simp add: older_state_def)

lemma older_leader: "dget ''active_leader'' older_state = JObj [(''principal_id'', JStr ''leader-1''), (''session_id'', JStr ''s1'')]"
  by (simp add: older_state_def dget_sealed) (simp add: dget_def)

lemma older_current: "current_state older_disk = Inr (authority_view older_state)"
proof -
  have "dget ''projection_digest'' older_state = JStr (state_digest older_state)"
    unfolding older_state_def by (rule sealed_digest) simp
  then show ?thesis by (simp add: current_state_def older_files)
qed

lemma older_subs:
  "sub ''revision'' (authority_view older_state) = Inr (JInt 7)" "sub ''status'' (authority_view older_state) = Inr (JStr ''active'')"
  "sub ''active_leader_epoch'' (authority_view older_state) = Inr (JInt 1)"
  "sub ''installation_id'' (authority_view older_state) = Inr (JStr ''valp-1'')"
  by (simp_all add: sub_def authority_view_def older_leader keys_def) (simp_all add: older_state_def sealed_def)

lemma reconcile_admitted: "admit reconcile_request (authority_view older_state) = Inr ()"
  by (simp add: admit_def older_subs reconcile_request_def validate_epoch_def INSTALLATION_STATUS_def legal_from_def row_def
      LEGAL_TRANSITIONS_def)

lemma reconcile_prepared: "\<exists>j r. prepare init_inputs reconcile_request (authority_view older_state) older_disk = Inr (j, r)"
  by (simp add: prepare_def next_projection_def older_subs older_files Let_def next_blockers_def reconcile_request_def
      clearing_targets_def)

theorem older_state_blocks_requests_witness:
  "\<exists>d'. (\<exists>e. transition_unlocked init_inputs reconcile_request (older_disk, Suc 5) = (Inl e, d', 5)) \<and>
     (\<exists>e. transition_unlocked init_inputs init_request (d', 6) = (Inl e, d', 6))"
proof -
  obtain j r where j: "prepare init_inputs reconcile_request (authority_view older_state) older_disk = Inr (j, r)"
    using reconcile_prepared by blast
  have key: "find_message (tr_key reconcile_request) older_disk = Inr None" by (simp add: find_message_def older_files)
  have leader: "is_obj (dget ''active_leader'' older_state)" "''session_id'' \<in> set (keys (dget ''active_leader'' older_state))"
    by (simp_all add: older_leader keys_def)
  have "''active_leader'' \<notin> set (row TRANSITION_PAYLOAD_STATE_FIELDS (tr_event_kind reconcile_request))"
    "''active_leader'' \<notin> set (keys (tr_payload reconcile_request))"
    by (simp_all add: reconcile_request_def row_def TRANSITION_PAYLOAD_STATE_FIELDS_def keys_def)
  from older_state_blocks_requests [OF older_files(2,1) older_current leader key reconcile_admitted j this, of 5]
  show ?thesis by blast
qed

end
