(* ===== verification/Kernel_Runtime.thy ===== *)
theory Kernel_Runtime
  imports Kernel_Journal Control_Transition
begin

text \<open>
  \<^verbatim>\<open>src/valp_cli/kernel_runtime.py\<close>: the bridge from adopted dispatch receipts to the Kernel. It builds
  the genesis state of a task from its declared work items, starts the attempts of a frontier, starts
  a suspension, records completions and accepts the wake, each as an event that is reduced and
  appended to the task's Kernel store.

  \<open>runtime\<close> holds the files the bridge reads and writes and what the operating system does: the n-th
  call into the store, and the n-th replacement of the binding file, runs in \<open>rt_env n\<close>. Documents are
  read as a whole: \<open>Missing\<close> is a file that cannot be read, \<open>Garbled\<close> one that is not JSON. Arguments
  annotated \<^verbatim>\<open>dict[str, Any]\<close> are JSON objects.
\<close>

section \<open>Files, failures and calls\<close>

datatype runtime_failure =
  KernelRuntimeError string | AttributeError string | RuntimeError string | Raised py_error

type_synonym 'a kres = "runtime_failure + 'a"

record runtime =
  rt_kernel :: disk
  rt_binding :: doc
  rt_installation :: doc
  rt_state :: doc
  rt_graph :: doc
  rt_policy :: "string \<Rightarrow> doc"
  rt_env :: "nat \<Rightarrow> env"
  rt_calls :: nat

type_synonym 'a rt = "runtime \<Rightarrow> 'a kres \<times> runtime"

definition give :: "'a kres \<Rightarrow> 'a rt" where
  "give x = (\<lambda>r. (x, r))"

definition asking :: "(runtime \<Rightarrow> 'a kres) \<Rightarrow> 'a rt" where
  "asking f = (\<lambda>r. (f r, r))"

definition bind_rt :: "'a rt \<Rightarrow> ('a \<Rightarrow> 'b rt) \<Rightarrow> 'b rt" where
  "bind_rt m f = (\<lambda>r. case m r of (Inl e, r') \<Rightarrow> (Inl e, r') | (Inr x, r') \<Rightarrow> f x r')"

text \<open>
  A call into the store under \<^verbatim>\<open>except KernelStoreError as error\<close>, which raises a
  \<^verbatim>\<open>KernelRuntimeError\<close> with the code; any other exception goes through.
\<close>

definition store_call ::
  "string \<Rightarrow> (env \<Rightarrow> disk \<Rightarrow> (failure + 'a) \<times> disk) \<Rightarrow> 'a rt" where
  "store_call what f = (\<lambda>r.
     case f (rt_env r (rt_calls r)) (rt_kernel r) of
       (res, d) \<Rightarrow>
         ((case res of
             Inr x \<Rightarrow> Inr x
           | Inl (StoreError code out) \<Rightarrow> Inl (KernelRuntimeError (what @ code))
           | Inl (Uncaught e) \<Rightarrow> Inl (Raised e)
           | Inl (Escaping m) \<Rightarrow> Inl (RuntimeError m)),
          r\<lparr>rt_kernel := d, rt_calls := Suc (rt_calls r)\<rparr>))"

text \<open>\<^verbatim>\<open>write_json(workflow-binding.json, value)\<close>: a temporary file that is renamed.\<close>

definition write_binding :: "json \<Rightarrow> unit rt" where
  "write_binding v = (\<lambda>r.
     (let r' = r\<lparr>rt_calls := Suc (rt_calls r)\<rparr> in
      case encode_utf8 (dumps v) of
        Inl e \<Rightarrow> (Inl (Raised e), r')
      | Inr _ \<Rightarrow>
          (case env_replace (rt_env r (rt_calls r)) of
             Replaced \<Rightarrow> (Inr (), r'\<lparr>rt_binding := Doc v\<rparr>)
           | Replaced_unsynced \<Rightarrow> (Inl (Raised (OSError ''fsync'')), r'\<lparr>rt_binding := Doc v\<rparr>)
           | _ \<Rightarrow> (Inl (Raised (OSError ''write'')), r'))))"

text \<open>\<^verbatim>\<open>json.loads(path.read_text())\<close> without a handler, and \<^verbatim>\<open>.get\<close> or \<^verbatim>\<open>.update\<close> on what it gives.\<close>

fun loads_doc :: "doc \<Rightarrow> json kres" where
  "loads_doc Missing = Inl (Raised (OSError ''no such file''))"
| "loads_doc Garbled = Inl (Raised (ValueError ''JSONDecodeError''))"
| "loads_doc (Doc v) = Inr v"

definition need_dict :: "json \<Rightarrow> unit kres" where
  "need_dict v = (if is_obj v then Inr () else Inl (AttributeError ''object has no attribute''))"

text \<open>\<^verbatim>\<open>value[key]\<close>.\<close>

definition index :: "string \<Rightarrow> json \<Rightarrow> json kres" where
  "index k v = (case jget k v of None \<Rightarrow> Inl (Raised (KeyError k)) | Some x \<Rightarrow> Inr x)"

primrec each :: "('a \<Rightarrow> 'b kres) \<Rightarrow> 'a list \<Rightarrow> 'b list kres" where
  "each f [] = Inr []"
| "each f (x # xs) = bind_res (f x) (\<lambda>y. bind_res (each f xs) (\<lambda>ys. Inr (y # ys)))"

fun raising :: "'a res \<Rightarrow> 'a kres" where
  "raising (Inl e) = Inl (Raised e)"
| "raising (Inr x) = Inr x"

definition refuse :: "bool \<Rightarrow> string \<Rightarrow> unit kres" where
  "refuse b msg = (if b then Inl (KernelRuntimeError msg) else Inr ())"

text \<open>
  \<^verbatim>\<open>int(value)\<close>. A text is stripped, may have a sign, and has ASCII digits with single underscores
  between them; digits of other scripts are taken as no digits.
\<close>

definition strip_ascii :: "string \<Rightarrow> string" where
  "strip_ascii s = rev (dropWhile ascii_space (rev (dropWhile ascii_space s)))"

definition digits_int :: "string \<Rightarrow> int option" where
  "digits_int s =
     (let parts = split_on (CHR ''_'') s in
      if list_all (\<lambda>p. p \<noteq> [] \<and> list_all is_digit p) parts then Some (int (str_nat (concat parts)))
      else None)"

definition int_text :: "string \<Rightarrow> int option" where
  "int_text s =
     (case strip_ascii s of
        [] \<Rightarrow> None
      | c # cs \<Rightarrow>
          if c = CHR ''-'' then map_option uminus (digits_int cs)
          else if c = CHR ''+'' then digits_int cs else digits_int (c # cs))"

fun py_int :: "json \<Rightarrow> int res" where
  "py_int (JInt i) = Inr i"
| "py_int (JBool b) = Inr (if b then 1 else 0)"
| "py_int (JStr s) = (case int_text s of Some i \<Rightarrow> Inr i | None \<Rightarrow> Inl (ValueError ''invalid literal for int()''))"
| "py_int _ = Inl (TypeError ''int() argument'')"

section \<open>Identities, events and appends\<close>

definition identity_of :: "identity_kind \<Rightarrow> json \<Rightarrow> identity kres" where
  "identity_of k v =
     (let t = py_str (py_or v (JStr [])) in
      if t = [] then Inl (KernelRuntimeError (''missing Kernel '' @ identity_kind_value k @ '' identity''))
      else Inr (Identity k t))"

definition event_identity :: "string \<Rightarrow> event_kind \<Rightarrow> json \<Rightarrow> identity" where
  "event_identity task_id k payload =
     Identity IK_EVENT (digest (JObj [(''task_id'', JStr task_id), (''kind'', JStr (event_kind_value k)),
       (''payload'', payload)]))"

text \<open>\<^verbatim>\<open>Event(event_id, installation_id, leader_epoch, task_id, kind, expected_revision)\<close>, the rest at its defaults.\<close>

definition bare_event :: "identity \<Rightarrow> identity \<Rightarrow> int \<Rightarrow> identity \<Rightarrow> event_kind \<Rightarrow> int \<Rightarrow> event" where
  "bare_event eid inst epoch task k rv =
     \<lparr>ev_id = eid, ev_installation = inst, ev_leader_epoch = epoch, ev_task = task, ev_kind = Closed k,
      ev_expected_revision = rv, ev_item = None, ev_attempt = None, ev_dispatch = None,
      ev_generation = None, ev_suspension = None, ev_epoch = None, ev_policy = None,
      ev_policy_digest = None, ev_required = [], ev_wake = None, ev_wake_reason = None,
      ev_principal = None, ev_authority = None, ev_control_reason = None, ev_scope = None,
      ev_interrupt = None, ev_redirect = None, ev_version = None, ev_next_version = None,
      ev_superseded = []\<rparr>"

definition append_event :: "state \<Rightarrow> event \<Rightarrow> evidence list \<Rightarrow> state rt" where
  "append_event s e ev =
     (case reduce s e ev of
        NoOp n \<Rightarrow> give (Inr (no_state n))
      | Rejected x \<Rightarrow> give (Inl (KernelRuntimeError (''Kernel runtime event rejected: '' @ rj_error_code x)))
      | Accepted a \<Rightarrow>
          bind_rt (store_call ''Kernel runtime journal append failed: ''
                     (\<lambda>v. append_entry v (recorded (e, ev, a)))) (\<lambda>rec.
            give (Inr (rp_state (rc_replay rec)))))"

definition recovered_state :: "state rt" where
  "recovered_state =
     bind_rt (store_call ''Kernel runtime recovery failed: '' recover) (\<lambda>rec.
       give (Inr (rp_state (rc_replay rec))))"

text \<open>The two files of the installation, one of them or both unreadable under one message.\<close>

definition reference_identity :: "runtime \<Rightarrow> (identity \<times> int) kres" where
  "reference_identity r =
     (case (rt_installation r, rt_state r) of
        (Doc installation, Doc state) \<Rightarrow>
          bind_res (need_dict installation) (\<lambda>_.
          bind_res (need_dict state) (\<lambda>_.
            let installation_id = py_str (py_or (dget ''installation_id'' installation) (JStr []));
                epoch = dget ''active_leader_epoch'' state
            in if installation_id = [] \<or> \<not> py_eq (dget ''installation_id'' state) (JStr installation_id) \<or>
                  \<not> is_int_from 1 (Some epoch) \<or>
                  \<not> py_eq (dget ''active_leader_epoch'' installation) epoch
               then Inl (KernelRuntimeError ''Kernel runtime installation identity is inconsistent'')
               else bind_res (identity_of IK_INSTALLATION (JStr installation_id)) (\<lambda>i.
                 Inr (i, case epoch of JInt n \<Rightarrow> n | _ \<Rightarrow> 0))))
      | _ \<Rightarrow> Inl (KernelRuntimeError ''Kernel runtime installation identity is unavailable''))"

definition matching_submission :: "json list \<Rightarrow> json \<Rightarrow> json kres" where
  "matching_submission receipts w =
     (let matches = filter (\<lambda>rc. py_eq (dget ''schema_version'' rc) (JStr ''valp-dispatch-receipt.v3'') \<and>
            py_eq (dget ''event'' rc) (JStr ''dispatch_submitted'') \<and>
            py_eq (dget ''work_item_id'' rc) (dget ''work_item_id'' w) \<and>
            py_eq (dget ''dispatch_id'' rc) (dget ''dispatch_id'' w) \<and>
            py_eq (dget ''dispatch_generation'' rc) (dget ''dispatch_generation'' w)) receipts
      in case matches of
           [m] \<Rightarrow> Inr m
         | _ \<Rightarrow> Inl (KernelRuntimeError ''Kernel suspension requires one exact v3 submission per work item''))"

definition receipt_evidence :: "json \<Rightarrow> evidence kres" where
  "receipt_evidence rc =
     bind_res (index ''receipt_id'' rc) (\<lambda>i.
     bind_res (identity_of IK_EVIDENCE i) (\<lambda>eid.
     bind_res (index ''receipt_digest'' rc) (\<lambda>d.
       Inr \<lparr>evd_id = eid, evd_digest = py_str d\<rparr>)))"

section \<open>The declared work items\<close>

text \<open>The document of the graph (an empty one when there is no file), the items it declares and its edges.\<close>

definition declared_graph :: "string \<Rightarrow> json list \<Rightarrow> doc \<Rightarrow> (json list \<times> json list) kres" where
  "declared_graph task_id required f =
     bind_res (case f of Missing \<Rightarrow> Inr (JObj [])
                       | Garbled \<Rightarrow> Inl (KernelRuntimeError ''Kernel runtime Work Item graph is malformed'')
                       | Doc v \<Rightarrow> Inr v) (\<lambda>document.
     bind_res (need_dict document) (\<lambda>_.
       case dget ''work_items'' document of
         JArr items \<Rightarrow>
           if \<not> py_eq (dget ''schema_version'' document) (JStr ''valp-submission-dependencies.v2'') \<or>
              \<not> py_eq (dget ''task_id'' document) (JStr task_id)
           then Inr (required, [])
           else bind_res (raising (py_list (py_or (dget ''dependencies'' document) (JArr [])))) (\<lambda>edges.
             Inr (filter is_obj items, filter is_obj edges))
       | _ \<Rightarrow> Inr (required, [])))"

definition item_key :: "string \<Rightarrow> json \<Rightarrow> string" where
  "item_key k v = py_str (py_or (dget k v) (JStr []))"

text \<open>The dictionary of submissions by item; a later entry replaces an earlier one.\<close>

definition submissions_by_item :: "json list \<Rightarrow> json list \<Rightarrow> (string \<times> json) list kres" where
  "submissions_by_item required submissions =
     each (\<lambda>(w, submission). bind_res (index ''work_item_id'' w) (\<lambda>i. Inr (py_str i, submission)))
       (zip required submissions)"

definition find_submission :: "(string \<times> json) list \<Rightarrow> string \<Rightarrow> json option" where
  "find_submission subs k = map_of (rev subs) k"

text \<open>The edges, each with both ends declared, as pairs of keys.\<close>

definition declared_edges :: "string list \<Rightarrow> json list \<Rightarrow> (string \<times> string) list kres" where
  "declared_edges ids edges =
     each (\<lambda>edge.
       let source = item_key ''prerequisite_work_item_id'' edge;
           target = item_key ''dependent_work_item_id'' edge
       in bind_res (refuse (source \<notin> set ids \<or> target \<notin> set ids)
            ''Kernel runtime dependency references an unknown Work Item'') (\<lambda>_. Inr (source, target))) edges"

definition dependencies_of :: "(string \<times> string) list \<Rightarrow> string \<Rightarrow> dependency list" where
  "dependencies_of edges k =
     map (\<lambda>(source, target). \<lparr>dep_item = Identity IK_WORK_ITEM source, dep_requirement = RQ_REQUIRED\<rparr>)
       (filter (\<lambda>(source, target). target = k) edges)"

definition submitted_attempt :: "identity \<Rightarrow> identity \<Rightarrow> json \<Rightarrow> attempt kres" where
  "submitted_attempt task w submission =
     bind_res (index ''attempt_id'' submission) (\<lambda>a.
     bind_res (identity_of IK_ATTEMPT a) (\<lambda>aid.
     bind_res (index ''dispatch_id'' submission) (\<lambda>d.
     bind_res (identity_of IK_DISPATCH d) (\<lambda>did.
     bind_res (index ''dispatch_generation'' submission) (\<lambda>g.
     bind_res (raising (py_int g)) (\<lambda>n.
       Inr \<lparr>at_task = task, at_item = w, at_id = aid, at_dispatch = did, at_generation = n,
            at_status = AS_RUNNING\<rparr>))))))"

definition declared_item ::
  "identity \<Rightarrow> (string \<times> json) list \<Rightarrow> (string \<times> string) list \<Rightarrow> json \<Rightarrow> work_item kres" where
  "declared_item task subs edges w =
     bind_res (index ''work_item_id'' w) (\<lambda>i.
       let k = py_str i; wid = Identity IK_WORK_ITEM k;
           base = \<lparr>wi_task = task, wi_id = wid, wi_requirement = RQ_REQUIRED, wi_status = WS_PENDING,
                   wi_deps = dependencies_of edges k, wi_attempt = None\<rparr>
       in case find_submission subs k of
            None \<Rightarrow> Inr base
          | Some submission \<Rightarrow>
              bind_res (submitted_attempt task wid submission) (\<lambda>a.
                Inr (base\<lparr>wi_status := WS_RUNNING, wi_attempt := Some a\<rparr>)))"

definition declared_work_items ::
  "doc \<Rightarrow> string \<Rightarrow> json list \<Rightarrow> json list \<Rightarrow> identity \<Rightarrow> work_item list kres" where
  "declared_work_items graph task_id required submissions task =
     bind_res (declared_graph task_id required graph) (\<lambda>(declared, records).
     bind_res (refuse (declared = []) ''Kernel runtime requires a non-empty declared Work Item graph'') (\<lambda>_.
     bind_res (submissions_by_item required submissions) (\<lambda>subs.
     bind_res (each (\<lambda>w. identity_of IK_WORK_ITEM (dget ''work_item_id'' w)) declared) (\<lambda>_.
       let ids = map (item_key ''work_item_id'') declared in
       bind_res (refuse (\<not> distinct ids \<or> \<not> fst ` set subs \<subseteq> set ids)
         ''Kernel runtime Work Item graph has missing or duplicate identities'') (\<lambda>_.
       bind_res (declared_edges ids records) (\<lambda>edges.
         each (declared_item task subs edges) declared))))))"

section \<open>The attempts of a frontier\<close>

definition frontier_kinds :: "event_kind list" where
  "frontier_kinds = [EK_WORK_ITEM_ELIGIBLE, EK_ATTEMPT_CREATED, EK_ATTEMPT_SUBMITTED, EK_ATTEMPT_RUNNING]"

definition frontier_event ::
  "state \<Rightarrow> string \<Rightarrow> identity \<Rightarrow> identity \<times> identity \<times> int \<Rightarrow> json \<Rightarrow> event_kind \<Rightarrow> event" where
  "frontier_event s task_id wid att receipt_id k =
     (let (aid, did, g) = att;
          payload = JObj [(''work_item_id'', JStr (id_value wid)), (''attempt_id'', JStr (id_value aid)),
            (''dispatch_id'', JStr (id_value did)), (''dispatch_generation'', JInt g),
            (''receipt_id'', receipt_id)];
          e = (bare_event (event_identity task_id k payload) (st_installation s) (st_leader_epoch s)
                 (st_task s) k (st_revision s))\<lparr>ev_item := Some wid\<rparr>
      in if k = EK_WORK_ITEM_ELIGIBLE then e
         else e\<lparr>ev_attempt := Some aid, ev_dispatch := Some did, ev_generation := Some g\<rparr>)"

fun frontier_steps ::
  "string \<Rightarrow> identity \<Rightarrow> identity \<times> identity \<times> int \<Rightarrow> json \<Rightarrow> event_kind list \<Rightarrow> state \<Rightarrow> state rt" where
  "frontier_steps task_id wid att submission [] s = give (Inr s)"
| "frontier_steps task_id wid att submission (k # ks) s =
     bind_rt (give (index ''receipt_id'' submission)) (\<lambda>rid.
     bind_rt (give (if k = EK_ATTEMPT_RUNNING then bind_res (receipt_evidence submission) (\<lambda>x. Inr [x])
                    else Inr [])) (\<lambda>ev.
     bind_rt (append_event s (frontier_event s task_id wid att rid k) ev) (\<lambda>s'.
       frontier_steps task_id wid att submission ks s')))"

definition start_attempt :: "string \<Rightarrow> json \<Rightarrow> json \<Rightarrow> state \<Rightarrow> state rt" where
  "start_attempt task_id w submission s =
     bind_rt (give (bind_res (index ''work_item_id'' w) (identity_of IK_WORK_ITEM))) (\<lambda>wid.
     bind_rt (give (submitted_attempt (st_task s) wid submission)) (\<lambda>a.
       case List.find (\<lambda>c. wi_id c = wid) (st_items s) of
         None \<Rightarrow> give (Inl (KernelRuntimeError ''Kernel frontier references an undeclared Work Item''))
       | Some c \<Rightarrow>
           (case wi_attempt c of
              Some b \<Rightarrow>
                if wi_status c = WS_RUNNING
                then (if (at_id b, at_dispatch b, at_generation b) \<noteq> (at_id a, at_dispatch a, at_generation a)
                      then give (Inl (KernelRuntimeError ''Kernel frontier running Attempt conflicts with submission''))
                      else give (Inr s))
                else frontier_steps task_id wid (at_id a, at_dispatch a, at_generation a) submission frontier_kinds s
            | None \<Rightarrow>
                frontier_steps task_id wid (at_id a, at_dispatch a, at_generation a) submission frontier_kinds s)))"

fun start_frontier_attempts :: "string \<Rightarrow> (json \<times> json) list \<Rightarrow> state \<Rightarrow> state rt" where
  "start_frontier_attempts task_id [] s = give (Inr s)"
| "start_frontier_attempts task_id ((w, submission) # xs) s =
     bind_rt (start_attempt task_id w submission s) (start_frontier_attempts task_id xs)"

section \<open>Starting a suspension\<close>

definition is_file :: "node \<Rightarrow> bool" where
  "is_file n \<longleftrightarrow> (case n of Absent \<Rightarrow> False | Regular _ \<Rightarrow> True | Special x \<Rightarrow> x \<noteq> None | Unreadable \<Rightarrow> True)"

definition genesis_state :: "identity \<Rightarrow> int \<Rightarrow> identity \<Rightarrow> work_item list \<Rightarrow> state" where
  "genesis_state inst epoch task items =
     \<lparr>st_protocol_version = PROTOCOL_VERSION, st_installation = inst, st_leader_epoch = epoch,
      st_task = task, st_revision = 0, st_status = Closed TS_PUBLISHED, st_accepted = [],
      st_items = items, st_suspension = None, st_control = None\<rparr>"

definition spine_kinds :: "event_kind list" where
  "spine_kinds = [EK_ROUTING_VALIDATION_STARTED, EK_ROUTING_VALIDATION_PASSED, EK_DISPATCH_ACCEPTED]"

fun spine_steps :: "string \<Rightarrow> identity \<Rightarrow> int \<Rightarrow> identity \<Rightarrow> nat \<Rightarrow> event_kind list \<Rightarrow> state \<Rightarrow> state rt" where
  "spine_steps task_id inst epoch task n [] s = give (Inr s)"
| "spine_steps task_id inst epoch task n (k # ks) s =
     bind_rt (append_event s (bare_event (event_identity task_id k (JObj [(''spine_index'', JInt (int n))]))
                inst epoch task k (st_revision s)) [])
       (spine_steps task_id inst epoch task (Suc n) ks)"

text \<open>The state the suspension starts from: a new history, or the recovered one.\<close>

definition open_history ::
  "string \<Rightarrow> json list \<Rightarrow> json list \<Rightarrow> identity \<Rightarrow> int \<Rightarrow> identity \<Rightarrow> state rt" where
  "open_history task_id required submissions inst epoch task = (\<lambda>r.
     if \<not> is_file (dk_genesis (rt_kernel r))
     then bind_rt (asking (\<lambda>r. declared_work_items (rt_graph r) task_id required submissions task)) (\<lambda>items.
          bind_rt (store_call ''Kernel runtime initialization failed: ''
                     (\<lambda>v. initialize v (genesis_state inst epoch task items))) (\<lambda>_.
            spine_steps task_id inst epoch task 0 spine_kinds (genesis_state inst epoch task items))) r
     else bind_rt recovered_state (\<lambda>s.
            if st_installation s \<noteq> inst \<or> st_leader_epoch s \<noteq> epoch \<or> st_task s \<noteq> task
            then give (Inl (KernelRuntimeError
                   ''Kernel runtime history identity conflicts with active installation''))
            else give (Inr s)) r)"

definition suspension_is :: "suspension_status \<Rightarrow> state \<Rightarrow> bool" where
  "suspension_is x s \<longleftrightarrow> (case st_suspension s of None \<Rightarrow> False | Some u \<Rightarrow> su_status u = x)"

definition policy_document :: "string \<Rightarrow> runtime \<Rightarrow> json kres" where
  "policy_document ref r =
     (case rt_policy r ref of
        Doc v \<Rightarrow> Inr v
      | _ \<Rightarrow> Inl (KernelRuntimeError ''Kernel suspension wait policy is unavailable''))"

definition suspension_event ::
  "string \<Rightarrow> json \<Rightarrow> json list \<Rightarrow> identity \<Rightarrow> int \<Rightarrow> identity \<Rightarrow> string \<Rightarrow> state \<Rightarrow> event kres" where
  "suspension_event task_id suspension required inst epoch task policy_digest s =
     (let kernel_epoch = (case st_suspension s of None \<Rightarrow> 0 | Some u \<Rightarrow> su_epoch u + 1) in
      bind_res (index ''suspension_id'' suspension) (\<lambda>sid.
      bind_res (identity_of IK_SUSPENSION sid) (\<lambda>suspension_id.
      bind_res (index ''wait_policy_id'' suspension) (\<lambda>pid.
      bind_res (identity_of IK_WAIT_POLICY pid) (\<lambda>wait_policy_id.
      bind_res (each (\<lambda>w. bind_res (index ''work_item_id'' w) (identity_of IK_WORK_ITEM)) required) (\<lambda>frontier.
      bind_res (index ''suspension_epoch'' suspension) (\<lambda>workflow_epoch.
        Inr ((bare_event (event_identity task_id EK_SUSPENSION_STARTED
                (JObj [(''suspension_id'', sid), (''kernel_epoch'', JInt kernel_epoch),
                       (''workflow_epoch'', workflow_epoch), (''wait_policy_digest'', JStr policy_digest),
                       (''frontier'', JArr (map (JStr \<circ> id_value) frontier))]))
               inst epoch task EK_SUSPENSION_STARTED (st_revision s))\<lparr>
             ev_suspension := Some suspension_id, ev_epoch := Some kernel_epoch,
             ev_policy := Some wait_policy_id, ev_policy_digest := Some policy_digest,
             ev_required := frontier\<rparr>))))))))"

definition binding_json :: "string \<Rightarrow> json \<Rightarrow> identity \<Rightarrow> int \<Rightarrow> state \<Rightarrow> json kres" where
  "binding_json task_id suspension inst epoch s =
     bind_res (index ''suspension_id'' suspension) (\<lambda>sid.
     bind_res (index ''suspension_epoch'' suspension) (\<lambda>ep.
       case st_suspension s of
         None \<Rightarrow> Inl (AttributeError ''suspension_epoch'')
       | Some u \<Rightarrow>
           Inr (JObj [(''schema_version'', JStr ''valp-kernel-workflow-binding.v1''),
             (''task_id'', JStr task_id), (''installation_id'', JStr (id_value inst)),
             (''leader_epoch'', JInt epoch), (''workflow_suspension_id'', sid),
             (''workflow_suspension_epoch'', ep), (''kernel_suspension_epoch'', JInt (su_epoch u)),
             (''wait_policy_id'', JStr (id_value (su_policy u))),
             (''wait_policy_digest'', JStr (su_policy_digest u)),
             (''required_work_item_ids'', JArr (map (JStr \<circ> id_value) (su_required u))),
             (''workflow_suspension'', suspension), (''status'', JStr (suspension_status_value (su_status u))),
             (''kernel_revision'', JInt (st_revision s))])))"

text \<open>A suspension that already waits: its binding is the answer when it is for the same request.\<close>

definition waiting_binding :: "json \<Rightarrow> runtime \<Rightarrow> json kres" where
  "waiting_binding suspension r =
     bind_res (loads_doc (rt_binding r)) (\<lambda>binding.
     bind_res (need_dict binding) (\<lambda>_.
     bind_res (refuse (\<not> py_eq (dget ''workflow_suspension_id'' binding) (dget ''suspension_id'' suspension))
       ''Kernel runtime already has a different active suspension'') (\<lambda>_. Inr binding)))"

definition begin_waiting ::
  "string \<Rightarrow> json \<Rightarrow> json list \<Rightarrow> json list \<Rightarrow> identity \<Rightarrow> int \<Rightarrow> identity \<Rightarrow> state \<Rightarrow> json rt" where
  "begin_waiting task_id suspension required submissions inst epoch task s =
     (let policy_ref = py_str (py_or (dget ''wait_policy_ref'' suspension) (JStr ''wait-policy.json'')) in
      bind_rt (asking (policy_document policy_ref)) (\<lambda>policy.
      bind_rt (give (suspension_event task_id suspension required inst epoch task (digest policy) s)) (\<lambda>e.
      bind_rt (give (identity_of IK_EVIDENCE (JStr (''wait-policy:'' @ policy_ref)))) (\<lambda>pe.
      bind_rt (give (each receipt_evidence submissions)) (\<lambda>evs.
      bind_rt (append_event s e (\<lparr>evd_id = pe, evd_digest = digest policy\<rparr> # evs)) (\<lambda>s'.
      bind_rt (give (binding_json task_id suspension inst epoch s')) (\<lambda>binding.
      bind_rt (write_binding binding) (\<lambda>_. give (Inr binding)))))))))"

text \<open>What follows when the history is open, and the whole operation.\<close>

definition suspend_from ::
  "string \<Rightarrow> json \<Rightarrow> json list \<Rightarrow> json list \<Rightarrow> identity \<Rightarrow> int \<Rightarrow> identity \<Rightarrow> state \<Rightarrow> json rt" where
  "suspend_from task_id suspension required submissions inst epoch task s =
     bind_rt (if suspension_is SS_WAITING s then give (Inr s)
              else start_frontier_attempts task_id (zip required submissions) s) (\<lambda>s.
       if suspension_is SS_WAITING s then asking (waiting_binding suspension)
       else begin_waiting task_id suspension required submissions inst epoch task s)"

definition start_kernel_suspension :: "string \<Rightarrow> json \<Rightarrow> json list \<Rightarrow> json rt" where
  "start_kernel_suspension task_id suspension receipts =
     bind_rt (give (bind_res (raising (py_list (py_or (dget ''required_work_items'' suspension) (JArr []))))
                      (\<lambda>xs. Inr (filter is_obj xs)))) (\<lambda>required.
     bind_rt (give (refuse (required = []) ''Kernel suspension requires a non-empty Work Item frontier'')) (\<lambda>_.
     bind_rt (asking reference_identity) (\<lambda>(inst, epoch).
     bind_rt (give (identity_of IK_TASK (JStr task_id))) (\<lambda>task.
     bind_rt (give (each (matching_submission receipts) required)) (\<lambda>submissions.
     bind_rt (open_history task_id required submissions inst epoch task)
       (suspend_from task_id suspension required submissions inst epoch task))))))"

section \<open>Completions and the wake\<close>

definition completion_event :: "string \<Rightarrow> json \<Rightarrow> identity \<Rightarrow> state \<Rightarrow> event kres" where
  "completion_event task_id receipt wid s =
     bind_res (index ''receipt_id'' receipt) (\<lambda>rid.
     bind_res (index ''receipt_digest'' receipt) (\<lambda>rd.
     bind_res (index ''attempt_id'' receipt) (\<lambda>a.
     bind_res (identity_of IK_ATTEMPT a) (\<lambda>aid.
     bind_res (index ''dispatch_id'' receipt) (\<lambda>d.
     bind_res (identity_of IK_DISPATCH d) (\<lambda>did.
     bind_res (index ''dispatch_generation'' receipt) (\<lambda>g.
     bind_res (raising (py_int g)) (\<lambda>n.
       Inr ((bare_event (event_identity task_id EK_ATTEMPT_COMPLETED
               (JObj [(''receipt_id'', rid), (''receipt_digest'', rd)]))
             (st_installation s) (st_leader_epoch s) (st_task s) EK_ATTEMPT_COMPLETED (st_revision s))\<lparr>
            ev_item := Some wid, ev_attempt := Some aid, ev_dispatch := Some did,
            ev_generation := Some n\<rparr>)))))))))"

text \<open>What follows the recovery of the state.\<close>

definition complete_from :: "string \<Rightarrow> json \<Rightarrow> state \<Rightarrow> json rt" where
  "complete_from task_id receipt s =
     bind_rt (give (bind_res (index ''work_item_id'' receipt) (identity_of IK_WORK_ITEM))) (\<lambda>wid.
       case map_option (\<lambda>c. (c, wi_attempt c)) (List.find (\<lambda>c. wi_id c = wid) (st_items s)) of
         Some (c, Some a) \<Rightarrow>
           if wi_status c = WS_COMPLETED
           then bind_rt (give (index ''attempt_id'' receipt)) (\<lambda>i.
                bind_rt (give (refuse (\<not> py_eq (JStr (id_value (at_id a))) i)
                  ''Kernel completion exact retry Attempt conflicts'')) (\<lambda>_.
                  give (Inr (state_json s))))
           else bind_rt (give (completion_event task_id receipt wid s)) (\<lambda>e.
                bind_rt (give (receipt_evidence receipt)) (\<lambda>x.
                bind_rt (append_event s e [x]) (\<lambda>s'. give (Inr (state_json s')))))
       | _ \<Rightarrow> give (Inl (KernelRuntimeError ''Kernel completion Work Item is not in the active frontier'')))"

definition record_kernel_completion :: "string \<Rightarrow> json \<Rightarrow> json rt" where
  "record_kernel_completion task_id receipt =
     bind_rt (give (refuse
       (\<not> py_eq (dget ''schema_version'' receipt) (JStr ''valp-dispatch-receipt.v3'') \<or>
        \<not> py_eq (dget ''event'' receipt) (JStr ''dispatch_completed'') \<or>
        \<not> py_eq (dget ''task_id'' receipt) (JStr task_id))
       ''Kernel completion requires one canonical v3 terminal receipt'')) (\<lambda>_.
     bind_rt recovered_state (complete_from task_id receipt))"

definition wake_event :: "string \<Rightarrow> string \<Rightarrow> suspension \<Rightarrow> state \<Rightarrow> event kres" where
  "wake_event task_id wake_id u s =
     bind_res (identity_of IK_WAKE (JStr wake_id)) (\<lambda>wake.
       Inr ((bare_event (event_identity task_id EK_WAKE_ACCEPTED
               (JObj [(''suspension_id'', JStr (id_value (su_id u))), (''suspension_epoch'', JInt (su_epoch u)),
                      (''wake_id'', JStr wake_id)]))
             (st_installation s) (st_leader_epoch s) (st_task s) EK_WAKE_ACCEPTED (st_revision s))\<lparr>
            ev_suspension := Some (su_id u), ev_epoch := Some (su_epoch u), ev_policy := Some (su_policy u),
            ev_policy_digest := Some (su_policy_digest u), ev_required := su_required u,
            ev_wake := Some wake, ev_wake_reason := Some (Closed WR_DEPENDENCY_READY)\<rparr>))"

text \<open>\<^verbatim>\<open>binding.update({...})\<close> and the optional projection.\<close>

definition woken_binding :: "string \<Rightarrow> json option \<Rightarrow> state \<Rightarrow> json \<Rightarrow> json kres" where
  "woken_binding wake_id projection s binding =
     (case st_suspension s of
        None \<Rightarrow> Inl (AttributeError ''status'')
      | Some u \<Rightarrow>
          bind_res (need_dict binding) (\<lambda>_.
            let b = dset ''kernel_revision'' (JInt (st_revision s))
                      (dset ''wake_reason'' (JStr (wake_reason_value WR_DEPENDENCY_READY))
                        (dset ''accepted_wake_id'' (JStr wake_id)
                          (dset ''status'' (JStr (suspension_status_value (su_status u))) binding)))
            in Inr (case projection of None \<Rightarrow> b | Some p \<Rightarrow> dset ''workflow_wake_projection'' p b)))"

definition wake_from :: "string \<Rightarrow> string \<Rightarrow> json option \<Rightarrow> state \<Rightarrow> json rt" where
  "wake_from task_id wake_id projection s =
     (case st_suspension s of
        None \<Rightarrow> give (Inl (KernelRuntimeError ''Kernel wake has no active suspension''))
      | Some u \<Rightarrow>
          if su_status u = SS_RESUMED
          then (case su_wake u of
                  None \<Rightarrow> give (Inl (AttributeError ''value''))
                | Some w \<Rightarrow>
                    bind_rt (give (refuse (id_value w \<noteq> wake_id) ''Kernel wake exact retry conflicts'')) (\<lambda>_.
                      give (Inr (state_json s))))
          else bind_rt (give (wake_event task_id wake_id u s)) (\<lambda>e.
               bind_rt (append_event s e []) (\<lambda>s'.
               bind_rt (asking (\<lambda>r. bind_res (loads_doc (rt_binding r)) (woken_binding wake_id projection s')))
                 (\<lambda>binding.
               bind_rt (write_binding binding) (\<lambda>_. give (Inr (state_json s')))))))"

definition accept_kernel_wake :: "string \<Rightarrow> string \<Rightarrow> json option \<Rightarrow> json rt" where
  "accept_kernel_wake task_id wake_id projection =
     bind_rt recovered_state (wake_from task_id wake_id projection)"

end
