(* ===== verification/Kernel_Bridge.thy ===== *)
theory Kernel_Bridge
  imports Kernel_Runtime Kernel_Named Kernel_Status Kernel_Control
begin

text \<open>
  What the bridge of \<open>Kernel_Runtime\<close> guarantees of the Kernel store it works on. Its operations are
  sequences of calls into the store, any of which may fail; \<open>serves\<close> says that whatever happens on the
  way, the store afterwards holds a state that a run of the reducer reaches from the one before.
\<close>

section \<open>Programs over a journal\<close>

text \<open>The store of the bridge recovers to this state.\<close>

definition holds :: "runtime \<Rightarrow> state \<Rightarrow> bool" where
  "holds r s \<longleftrightarrow> (\<exists>rec. load_recovery (rt_kernel r) = Inr rec \<and> rp_state (rc_replay rec) = s \<and> state_named s)"

definition serves ::
  "(runtime \<Rightarrow> 's \<Rightarrow> bool) \<Rightarrow> ('s \<Rightarrow> 's \<Rightarrow> bool) \<Rightarrow> 's \<Rightarrow> 'a rt \<Rightarrow> ('a \<Rightarrow> 's \<Rightarrow> bool) \<Rightarrow> bool" where
  "serves at evolves s m Q \<longleftrightarrow>
     (\<forall>r res r'. at r s \<longrightarrow> m r = (res, r') \<longrightarrow>
        (\<exists>t. at r' t \<and> evolves s t \<and> (\<forall>x. res = Inr x \<longrightarrow> Q x t)))"

text \<open>
  The contract a journal gives to the programs that use it: what it holds evolves along a preorder.
  The rules for sequences follow from that alone.
\<close>

locale journal_service =
  fixes at :: "runtime \<Rightarrow> 's \<Rightarrow> bool" and evolves :: "'s \<Rightarrow> 's \<Rightarrow> bool"
  assumes evolves_refl: "evolves s s"
    and evolves_trans: "evolves s t \<Longrightarrow> evolves t u \<Longrightarrow> evolves s u"
begin

lemma servesD:
  assumes "serves at evolves s m Q" and "at r s" and "m r = (res, r')"
  shows "\<exists>t. at r' t \<and> evolves s t \<and> (\<forall>x. res = Inr x \<longrightarrow> Q x t)"
  using assms(1) [unfolded serves_def, rule_format, OF assms(2,3)] .

lemma servesI:
  assumes "\<And>r res r'. at r s \<Longrightarrow> m r = (res, r') \<Longrightarrow>
    \<exists>t. at r' t \<and> evolves s t \<and> (\<forall>x. res = Inr x \<longrightarrow> Q x t)"
  shows "serves at evolves s m Q"
  using assms by (simp add: serves_def)

lemma serves_give: "(\<And>x. y = Inr x \<Longrightarrow> Q x s) \<Longrightarrow> serves at evolves s (give y) Q"
  using evolves_refl by (auto simp: serves_def give_def)

lemma serves_asking: "(\<And>r x. f r = Inr x \<Longrightarrow> Q x s) \<Longrightarrow> serves at evolves s (asking f) Q"
  using evolves_refl by (auto simp: serves_def asking_def)

lemma serves_bind:
  assumes "serves at evolves s m P" and "\<And>x t. evolves s t \<Longrightarrow> P x t \<Longrightarrow> serves at evolves t (f x) Q"
  shows "serves at evolves s (bind_rt m f) Q"
proof (rule servesI)
  fix r res r' assume r: "at r s" and m: "bind_rt m f r = (res, r')"
  obtain y r1 where y: "m r = (y, r1)" by (cases "m r")
  obtain t where t: "at r1 t" "evolves s t" "\<forall>x. y = Inr x \<longrightarrow> P x t"
    using servesD [OF assms(1) r y] by blast
  show "\<exists>u. at r' u \<and> evolves s u \<and> (\<forall>x. res = Inr x \<longrightarrow> Q x u)"
  proof (cases y)
    case (Inl e)
    then show ?thesis using m y t by (auto simp: bind_rt_def)
  next
    case (Inr x)
    then have "f x r1 = (res, r')" using m y by (simp add: bind_rt_def)
    from servesD [OF assms(2) t(1) this] t(2,3) Inr
    obtain u where "at r' u" "evolves t u" "\<forall>x. res = Inr x \<longrightarrow> Q x u" by blast
    then show ?thesis using evolves_trans t(2) by blast
  qed
qed

lemma serves_bind_give:
  "(\<And>x. y = Inr x \<Longrightarrow> serves at evolves s (f x) Q) \<Longrightarrow> serves at evolves s (bind_rt (give y) f) Q"
  using evolves_refl by (cases y) (auto simp: serves_def bind_rt_def give_def)

lemma serves_bind_asking:
  assumes "\<And>r x. g r = Inr x \<Longrightarrow> serves at evolves s (f x) Q"
  shows "serves at evolves s (bind_rt (asking g) f) Q"
proof (rule servesI)
  fix r res r' assume r: "at r s" and m: "bind_rt (asking g) f r = (res, r')"
  show "\<exists>t. at r' t \<and> evolves s t \<and> (\<forall>x. res = Inr x \<longrightarrow> Q x t)"
  proof (cases "g r")
    case (Inl e)
    then show ?thesis using r m evolves_refl by (auto simp: bind_rt_def asking_def)
  next
    case (Inr x)
    then have "f x r = (res, r')" using m by (simp add: bind_rt_def asking_def)
    from servesD [OF assms [OF Inr] r this] show ?thesis .
  qed
qed

lemma serves_weaken:
  assumes "serves at evolves s m P" and "\<And>x t. evolves s t \<Longrightarrow> P x t \<Longrightarrow> Q x t"
  shows "serves at evolves s m Q"
proof (rule servesI)
  fix r res r' assume "at r s" and "m r = (res, r')"
  from servesD [OF assms(1) this] obtain t where "at r' t" "evolves s t" "\<forall>x. res = Inr x \<longrightarrow> P x t"
    by (elim exE conjE)
  with assms(2) show "\<exists>t. at r' t \<and> evolves s t \<and> (\<forall>x. res = Inr x \<longrightarrow> Q x t)"
    by (intro exI [of _ t]) simp
qed

end

section \<open>Single calls\<close>

lemma holds_calls [simp]: "holds (r\<lparr>rt_calls := n\<rparr>) s = holds r s" "holds (r\<lparr>rt_binding := b\<rparr>) s = holds r s"
  by (simp_all add: holds_def)

lemma holds_unique: "holds r s \<Longrightarrow> holds r t \<Longrightarrow> t = s"
  by (auto simp: holds_def)

lemma holds_inv:
  assumes "holds r s"
  obtains g tr where "genesis_ok g" and "run g tr s"
proof -
  obtain rec g xs where "load_recovery (rt_kernel r) = Inr rec" "rp_state (rc_replay rec) = s"
    "recover_unlocked (rt_kernel r) g xs = Inr rec"
    using assms by (auto simp: holds_def load_recovery_iff)
  then obtain full where "replay (GenesisRoot g) xs None = Inr full" "rp_state full = s"
    using recover_unlocked_state by metis
  then show ?thesis using that replay_loop_sound by (fastforce simp: replay_genesis_iff)
qed

lemma holds_valid: "holds r s \<Longrightarrow> kernel_inv s"
  by (elim holds_inv) (blast intro: run_inv genesis_inv)

lemma entry_event_id:
  "json_eq (replay_entry_json p) (replay_entry_json x) \<Longrightarrow> ev_id (re_event p) = ev_id (re_event x)"
  by (simp add: replay_entry_json_def event_json_def json_eq_fields)

lemma reduce_NoOp_state: "reduce s e ev = NoOp n \<Longrightarrow> no_state n = s"
  by (auto simp: reduce_def reject_def finish_def Let_def split: open_enum.splits if_splits option.splits)

text \<open>An append of the reducer's own result: the store holds the old state or the next one.\<close>

lemma append_recorded:
  assumes "holds r s" and "reduce s e ev = Accepted a" and "event_named e"
    and "list_all (\<lambda>x. named (evd_id x)) ev"
    and "append_entry v (recorded (e, ev, a)) (rt_kernel r) = (res, d')"
  shows "holds (r\<lparr>rt_kernel := d'\<rparr>) (ac_state a) \<and> (\<forall>x. res = Inr x \<longrightarrow> rp_state (rc_replay x) = ac_state a)
    \<or> holds (r\<lparr>rt_kernel := d'\<rparr>) s \<and> (\<exists>f. res = Inl f)"
proof -
  let ?x = "recorded (e, ev, a)"
  obtain old g xs where load: "load_genesis (rt_kernel r) = Inr g" "load_entries (rt_kernel r) = Inr xs"
    and old: "recover_unlocked (rt_kernel r) g xs = Inr old" "rp_state (rc_replay old) = s" "state_named s"
    using assms(1) by (auto simp: holds_def load_recovery_iff)
  obtain full where full: "replay (GenesisRoot g) xs None = Inr full" "rp_state full = s"
    using recover_unlocked_state [OF old(1)] old(2) by auto
  have step: "reduce (rp_state full) e ev = Accepted a" using assms(2) full(2) by simp
  obtain nxt where nxt: "replay (GenesisRoot g) (xs @ [?x]) None = Inr nxt" "rp_state nxt = ac_state a"
    using replay_one_more [OF full(1) step] by blast
  note nm = recorded_named [OF assms(2) old(3) assms(3,4)] reduce_named(1) [OF assms(2) old(3) assms(3)]
  from load old(1) assms(5) show ?thesis
  proof (cases rule: append_result)
    case (refused c)
    then show ?thesis using assms(1) by (simp add: holds_def)
  next
    case (known p)
    then have "ev_id (re_event p) = ev_id e" using entry_event_id [of p ?x] by (simp add: recorded_def)
    then show ?thesis using accepted_event_is_new [OF full(1) step] known(1) by (auto simp: find_None_iff)
  next
    case (committed new p)
    then have "rp_state new = ac_state a" using nxt by simp
    moreover obtain y rec where "load_genesis d' = Inr g" "load_entries d' = Inr (xs @ [y])"
      "recover_unlocked d' g (xs @ [y]) = Inr rec" "rp_state (rc_replay rec) = rp_state new"
      using committed_loads [OF old(1) load committed(1,2) nm(1) committed(3)] by blast
    ultimately have "holds (r\<lparr>rt_kernel := d'\<rparr>) (ac_state a)"
      using nm(2) by (auto simp: holds_def load_recovery_iff)
    then show ?thesis using committed(4) \<open>rp_state new = ac_state a\<close> by auto
  qed
qed

section \<open>Names\<close>

lemma each_iff: "each f xs = Inr ys \<longleftrightarrow> list_all2 (\<lambda>x y. f x = Inr y) xs ys"
  by (induction xs arbitrary: ys) (auto simp: bind_res_Inr_iff list_all2_Cons1)

lemma each_all:
  assumes "each f xs = Inr ys" and "\<And>x y. x \<in> set xs \<Longrightarrow> f x = Inr y \<Longrightarrow> P y"
  shows "list_all P ys"
proof -
  have "list_all2 (\<lambda>x y. f x = Inr y) xs ys" using assms(1) by (simp add: each_iff)
  then show ?thesis using assms(2) by (induction rule: list_all2_induct) auto
qed

lemma identity_of_Inr:
  "identity_of k v = Inr i \<longleftrightarrow> py_str (py_or v (JStr [])) \<noteq> [] \<and> i = Identity k (py_str (py_or v (JStr [])))"
  by (auto simp: identity_of_def Let_def)

lemma named_Identity [simp]: "named (Identity k v) \<longleftrightarrow> v \<noteq> []"
  by (simp add: named_def Identity_def)

lemma identity_of_named: "identity_of k v = Inr i \<Longrightarrow> named i"
  by (auto simp: identity_of_Inr)

lemma digest_nonempty [simp]: "digest v \<noteq> []"
  by (simp add: digest_def)

lemma event_identity_named [simp]: "named (event_identity task_id k payload)"
  by (simp add: event_identity_def)

lemma bare_event_named: "named inst \<Longrightarrow> named task \<Longrightarrow> named i \<Longrightarrow> event_named (bare_event i inst epoch task k n)"
  by (simp add: event_named_def bare_event_def)

lemma receipt_evidence_named: "receipt_evidence rc = Inr x \<Longrightarrow> named (evd_id x)"
  by (auto simp: receipt_evidence_def bind_res_Inr_iff intro: identity_of_named)

lemma submitted_attempt_named:
  "submitted_attempt task w submission = Inr a \<Longrightarrow> named task \<Longrightarrow> named w \<Longrightarrow> attempt_named a"
  by (auto simp: submitted_attempt_def bind_res_Inr_iff attempt_named_def intro: identity_of_named)

lemma frontier_event_named:
  "state_named s \<Longrightarrow> named wid \<Longrightarrow> named (fst att) \<Longrightarrow> named (fst (snd att)) \<Longrightarrow>
     event_named (frontier_event s task_id wid att rid k)"
  by (cases att) (simp add: frontier_event_def Let_def event_named_def bare_event_def state_named_def)

lemma declared_item_named:
  assumes "declared_item task subs edges w = Inr c" and "named task"
    and "identity_of IK_WORK_ITEM (dget ''work_item_id'' w) = Inr i"
    and "\<forall>x\<in>set edges. fst x \<noteq> []"
  shows "item_named c"
proof -
  obtain j where j: "jget ''work_item_id'' w = Some j"
    using assms(1) by (auto simp: declared_item_def index_def bind_res_Inr_iff split: option.splits)
  have "py_str j \<noteq> []"
  proof -
    have "py_str (py_or j (JStr [])) \<noteq> []" using assms(3) j by (simp add: identity_of_Inr dget_def)
    then show ?thesis by (cases "truthy j") (simp_all add: py_or_def)
  qed
  moreover have "list_all (\<lambda>d. named (dep_item d)) (dependencies_of edges k)" for k
    using assms(4) by (auto simp: dependencies_of_def list_all_iff)
  ultimately show ?thesis
    using assms(1,2) j
    by (auto simp: declared_item_def index_def Let_def item_named_def bind_res_Inr_iff split: option.splits
        elim!: submitted_attempt_named)
qed

lemma declared_edges_named:
  assumes "declared_edges ids edges = Inr es" and "\<forall>k\<in>set ids. k \<noteq> []"
  shows "\<forall>x\<in>set es. fst x \<noteq> []"
proof -
  have "list_all (\<lambda>x. fst x \<noteq> []) es"
    using assms(1) unfolding declared_edges_def
    by (rule each_all) (use assms(2) in \<open>auto simp: Let_def refuse_def split: if_splits\<close>)
  then show ?thesis by (simp add: list_all_iff)
qed

lemma declared_work_items_named:
  assumes "declared_work_items graph task_id required submissions task = Inr items" and "named task"
  shows "list_all item_named items"
proof -
  obtain declared records subs ks edges where
    ids: "each (\<lambda>w. identity_of IK_WORK_ITEM (dget ''work_item_id'' w)) declared = Inr ks"
    and edges: "declared_edges (map (item_key ''work_item_id'') declared) records = Inr edges"
    and items: "each (declared_item task subs edges) declared = Inr items"
    using assms(1) by (auto simp: declared_work_items_def bind_res_Inr_iff Let_def)
  have nm: "\<exists>i. identity_of IK_WORK_ITEM (dget ''work_item_id'' w) = Inr i" if "w \<in> set declared" for w
    using ids that by (auto simp: each_iff list_all2_conv_all_nth in_set_conv_nth)
  then have "\<forall>k\<in>set (map (item_key ''work_item_id'') declared). k \<noteq> []"
    by (fastforce simp: item_key_def identity_of_Inr)
  then have es: "\<forall>x\<in>set edges. fst x \<noteq> []" using declared_edges_named [OF edges] by blast
  show ?thesis
  proof (rule each_all [OF items])
    fix w c assume "w \<in> set declared" and c: "declared_item task subs edges w = Inr c"
    then obtain i where "identity_of IK_WORK_ITEM (dget ''work_item_id'' w) = Inr i" using nm by blast
    from declared_item_named [OF c assms(2) this es] show "item_named c" .
  qed
qed

section \<open>The steps of the operations\<close>

lemma frontier_event_kind: "ev_kind (frontier_event s task_id wid att rid k) = Closed k"
  by (cases att) (simp add: frontier_event_def Let_def bare_event_def)

lemma genesis_is_file: "holds r s \<Longrightarrow> is_file (dk_genesis (rt_kernel r))"
  by (cases "dk_genesis (rt_kernel r)")
     (auto simp: holds_def load_recovery_iff load_genesis_def read_canonical_def is_file_def)

lemma suspension_event_parts:
  assumes "suspension_event task_id suspension required inst epoch task pd s = Inr e"
    and "named inst" and "named task"
  shows "event_named e" and "ev_kind e = Closed EK_SUSPENSION_STARTED"
proof -
  have fr: "list_all named xs"
    if "each (\<lambda>w. bind_res (index ''work_item_id'' w) (identity_of IK_WORK_ITEM)) required = Inr xs" for xs
    using that by (rule each_all) (auto simp: bind_res_Inr_iff intro: identity_of_named)
  show "event_named e"
    using assms by (auto simp: suspension_event_def Let_def bind_res_Inr_iff bare_event_def event_named_def
        dest: identity_of_named fr)
  show "ev_kind e = Closed EK_SUSPENSION_STARTED"
    using assms(1) by (auto simp: suspension_event_def Let_def bind_res_Inr_iff bare_event_def)
qed

text \<open>
  Programs over the Kernel store, for a preorder that the events of a frontier respect.
\<close>

locale bridge_log = journal_service holds evolves for evolves :: "state \<Rightarrow> state \<Rightarrow> bool" +
  assumes frontier_evolves:
    "reduce s e ev = Accepted a \<Longrightarrow> ev_kind e = Closed k \<Longrightarrow> k \<in> set frontier_kinds \<Longrightarrow> evolves s (ac_state a)"
begin

lemma serves_recovered: "serves holds evolves s recovered_state (\<lambda>t u. t = s \<and> u = s)"
proof (rule servesI)
  fix r res r' assume r: "holds r s" and m: "recovered_state r = (res, r')"
  obtain rr d where rec: "recover (rt_env r (rt_calls r)) (rt_kernel r) = (rr, d)"
    by (cases "recover (rt_env r (rt_calls r)) (rt_kernel r)")
  have d: "d = rt_kernel r" using recover_answer(1) [OF rec] .
  have ok: "load_recovery (rt_kernel r) = Inr x" if "rr = Inr x" for x
    using recover_answer(2) [OF rec that] .
  have "holds r' s" using m r rec d
    by (auto simp: recovered_state_def store_call_def bind_rt_def give_def holds_def split: sum.splits failure.splits)
  moreover have "t = s" if "res = Inr t" for t
  proof -
    have "\<exists>x. rr = Inr x \<and> t = rp_state (rc_replay x)"
      using m rec that
      by (auto simp: recovered_state_def store_call_def bind_rt_def give_def split: sum.splits failure.splits)
    with ok r show ?thesis by (auto simp: holds_def)
  qed
  ultimately show "\<exists>t. holds r' t \<and> evolves s t \<and> (\<forall>x. res = Inr x \<longrightarrow> x = s \<and> t = s)"
    using evolves_refl by blast
qed

lemma serves_write: "serves holds evolves s (write_binding v) (\<lambda>_ t. t = s)"
proof (rule servesI)
  fix r res r' assume "holds r s" and "write_binding v r = (res, r')"
  then have "holds r' s"
    by (auto simp: write_binding_def Let_def split: sum.splits replacement.splits)
  then show "\<exists>t. holds r' t \<and> evolves s t \<and> (\<forall>x. res = Inr x \<longrightarrow> t = s)"
    using evolves_refl by blast
qed

lemma serves_append:
  assumes named: "state_named s \<Longrightarrow> event_named e" and evidence: "list_all (\<lambda>x. named (evd_id x)) ev"
    and next_ok: "\<And>a. reduce s e ev = Accepted a \<Longrightarrow> evolves s (ac_state a)"
  shows "serves holds evolves s (append_event s e ev)
    (\<lambda>t u. t = u \<and> (u = s \<and> (\<exists>n. reduce s e ev = NoOp n) \<or> (\<exists>a. reduce s e ev = Accepted a \<and> u = ac_state a)))"
proof (rule servesI)
  fix r res r' assume r: "holds r s" and m: "append_event s e ev r = (res, r')"
  show "\<exists>u. holds r' u \<and> evolves s u \<and> (\<forall>t. res = Inr t \<longrightarrow>
    t = u \<and> (u = s \<and> (\<exists>n. reduce s e ev = NoOp n) \<or> (\<exists>a. reduce s e ev = Accepted a \<and> u = ac_state a)))"
  proof (cases "reduce s e ev")
    case (NoOp n)
    then show ?thesis using r m reduce_NoOp_state [OF NoOp] evolves_refl
      by (auto simp: append_event_def give_def)
  next
    case (Rejected x)
    then show ?thesis using r m evolves_refl by (auto simp: append_event_def give_def)
  next
    case (Accepted a)
    let ?v = "rt_env r (rt_calls r)"
    obtain rr d where rr: "append_entry ?v (recorded (e, ev, a)) (rt_kernel r) = (rr, d)"
      by (cases "append_entry ?v (recorded (e, ev, a)) (rt_kernel r)")
    have r': "r' = r\<lparr>rt_kernel := d, rt_calls := Suc (rt_calls r)\<rparr>"
      and res: "\<And>t. res = Inr t \<Longrightarrow> \<exists>x. rr = Inr x \<and> t = rp_state (rc_replay x)"
      using m rr Accepted
      by (auto simp: append_event_def store_call_def bind_rt_def give_def split: sum.splits failure.splits)
    have "holds r' u = holds (r\<lparr>rt_kernel := d\<rparr>) u" for u by (simp add: r' holds_def)
    moreover have "event_named e" using named r by (auto simp: holds_def)
    ultimately show ?thesis using append_recorded [OF r Accepted _ evidence rr]
      res Accepted next_ok [OF Accepted] evolves_refl by (metis sum.distinct(1))
  qed
qed

lemma serves_frontier_steps:
  assumes "named wid" and "named (fst att)" and "named (fst (snd att))" and "set ks \<subseteq> set frontier_kinds"
  shows "serves holds evolves s (frontier_steps task_id wid att submission ks s) (\<lambda>t u. t = u)"
  using assms(4)
proof (induction ks arbitrary: s)
  case Nil
  then show ?case by (auto intro: serves_give)
next
  case (Cons k ks)
  have step: "serves holds evolves s (append_event s (frontier_event s task_id wid att rid k) ev) (\<lambda>t u. t = u)"
    if "list_all (\<lambda>x. named (evd_id x)) ev" for rid ev
    using that Cons.prems frontier_evolves [OF _ frontier_event_kind]
    by (intro serves_weaken [OF serves_append]) (auto intro: frontier_event_named [OF _ assms(1-3)])
  have ev: "list_all (\<lambda>x. named (evd_id x)) ev"
    if "(if k = EK_ATTEMPT_RUNNING then bind_res (receipt_evidence submission) (\<lambda>x. Inr [x]) else Inr []) = Inr ev" for ev
    using that receipt_evidence_named by (auto simp: bind_res_Inr_iff split: if_splits)
  show ?case
    unfolding frontier_steps.simps
    by (intro serves_bind_give serves_bind [OF step]) (use Cons in \<open>auto intro: ev\<close>)
qed

lemma serves_start_attempt: "serves holds evolves s (start_attempt task_id w submission s) (\<lambda>t u. t = u)"
proof -
  have steps: "serves holds evolves s (frontier_steps task_id wid (at_id a, at_dispatch a, at_generation a) submission
      frontier_kinds s) (\<lambda>t u. t = u)"
    if "named wid" and "submitted_attempt (st_task s) wid submission = Inr a" for wid a
    using that by (intro serves_frontier_steps)
      (auto simp: submitted_attempt_def bind_res_Inr_iff intro: identity_of_named)
  show ?thesis
    unfolding start_attempt_def
    by (intro serves_bind_give)
       (auto simp: bind_res_Inr_iff intro!: serves_give steps dest: identity_of_named split: option.splits)
qed

lemma serves_frontier: "serves holds evolves s (start_frontier_attempts task_id xs s) (\<lambda>t u. t = u)"
proof (induction task_id xs s rule: start_frontier_attempts.induct)
  case (1 task_id s)
  then show ?case by (auto intro: serves_give)
next
  case (2 task_id w submission xs s)
  then show ?case by (auto intro!: serves_bind [OF serves_start_attempt])
qed

lemma serves_open:
  "serves holds evolves s (open_history task_id required submissions inst epoch task) (\<lambda>t u. t = s \<and> u = s)"
proof (rule servesI)
  fix r res r' assume r: "holds r s" and m: "open_history task_id required submissions inst epoch task r = (res, r')"
  let ?m = "bind_rt recovered_state (\<lambda>s.
            if st_installation s \<noteq> inst \<or> st_leader_epoch s \<noteq> epoch \<or> st_task s \<noteq> task
            then give (Inl (KernelRuntimeError
                   ''Kernel runtime history identity conflicts with active installation''))
            else give (Inr s))"
  have "serves holds evolves s ?m (\<lambda>t u. t = s \<and> u = s)"
    by (rule serves_bind [OF serves_recovered]) (auto intro: serves_give)
  moreover have "?m r = (res, r')" using m genesis_is_file [OF r] by (simp add: open_history_def)
  ultimately show "\<exists>t. holds r' t \<and> evolves s t \<and> (\<forall>x. res = Inr x \<longrightarrow> x = s \<and> t = s)"
    using servesD [OF _ r, of ?m] by simp
qed

text \<open>Beginning to wait: the reducer takes the suspension, or has taken it in the same state before.\<close>

lemma serves_begin_waiting:
  assumes "named inst" and "named task"
    and next_ok: "\<And>e ev a. reduce s e ev = Accepted a \<Longrightarrow> ev_kind e = Closed EK_SUSPENSION_STARTED \<Longrightarrow> evolves s (ac_state a)"
  shows "serves holds evolves s (begin_waiting task_id suspension required submissions inst epoch task s)
    (\<lambda>j u. \<exists>e ev. ev_kind e = Closed EK_SUSPENSION_STARTED \<and> binding_json task_id suspension inst epoch u = Inr j \<and>
       (u = s \<and> (\<exists>n. reduce s e ev = NoOp n) \<or> (\<exists>a. reduce s e ev = Accepted a \<and> u = ac_state a)))"
proof -
  note ok = suspension_event_parts [OF _ assms(1,2)]
  have "list_all (\<lambda>x. named (evd_id x)) evs" if "each receipt_evidence submissions = Inr evs" for evs
    using that by (rule each_all) (rule receipt_evidence_named)
  then show ?thesis
    unfolding begin_waiting_def Let_def
    by (intro serves_bind_asking serves_bind_give
        serves_bind [OF serves_append] serves_bind [OF serves_write] serves_give)
      (auto dest: identity_of_named ok intro: next_ok)
qed

end

section \<open>Two readings\<close>

text \<open>Every state the bridge leaves behind is reached by a run of the reducer.\<close>

definition leads :: "state \<Rightarrow> state \<Rightarrow> bool" where
  "leads s t \<longleftrightarrow> (\<exists>tr. run s tr t)"

lemma leads_step: "reduce s e ev = Accepted a \<Longrightarrow> leads s (ac_state a)"
  unfolding leads_def by (blast intro: run_Cons run_Nil)

interpretation kernel: bridge_log leads
proof
  show "leads s s" for s by (auto simp: leads_def intro: run_Nil)
  show "leads s u" if "leads s t" "leads t u" for s t u
    using that run_append by (fastforce simp: leads_def)
  show "leads s (ac_state a)" if "reduce s e ev = Accepted a" for s e ev a using that by (rule leads_step)
qed

abbreviation kernel_serves :: "state \<Rightarrow> 'a rt \<Rightarrow> ('a \<Rightarrow> state \<Rightarrow> bool) \<Rightarrow> bool" where
  "kernel_serves \<equiv> serves holds leads"

text \<open>The events of a frontier leave the status of the task and its suspension as they are.\<close>

definition still :: "state \<Rightarrow> state \<Rightarrow> bool" where
  "still s u \<longleftrightarrow> st_status u = st_status s \<and> st_suspension u = st_suspension s"

lemma still_refl [simp]: "still s s"
  by (simp add: still_def)

lemma still_trans: "still s t \<Longrightarrow> still t u \<Longrightarrow> still s u"
  by (simp add: still_def)

lemma reduce_frontier_still:
  assumes "reduce s e ev = Accepted a" and "ev_kind e = Closed k" and "k \<in> set frontier_kinds"
  shows "still s (ac_state a)"
proof -
  obtain status sp where d: "dispatch s status k e = Some sp" and st: "st_status s = Closed status"
    and t: "\<And>target. sp_target sp = Some target \<Longrightarrow> st_status (ac_state a) = Closed target \<and>
      st_suspension (ac_state a) = (if target \<noteq> status then None else sp_suspension sp)"
    using assms(1,2) by (elim reduce_Accepted_state) (auto intro: that)
  have "sp_target sp = Some status \<and> sp_suspension sp = st_suspension s"
    using d assms(3) do_attempt_progress_frame
    by (auto simp: frontier_kinds_def dispatch_def attempt_transitions_def do_item_frame)
  then show ?thesis using t st by (simp add: still_def)
qed

interpretation quiet: bridge_log still
  by unfold_locales (auto intro: still_trans reduce_frontier_still)

end
