(* ===== verification/Kernel_Calls.thy ===== *)
theory Kernel_Calls
  imports Kernel_Bridge Kernel_Items
begin

text \<open>
  The three operations of the bridge as a whole: starting a suspension, recording a completion,
  accepting the wake.
\<close>

section \<open>Starting a suspension\<close>

text \<open>A suspension waits, or the reducer has just answered a request to start one.\<close>

definition suspended :: "(state \<Rightarrow> state \<Rightarrow> bool) \<Rightarrow> state \<Rightarrow> state \<Rightarrow> bool" where
  "suspended evolves s u \<longleftrightarrow> suspension_is SS_WAITING u \<or>
     (\<exists>t e ev. evolves s t \<and> ev_kind e = Closed EK_SUSPENSION_STARTED \<and> st_suspension u \<noteq> None \<and>
        (u = t \<and> (\<exists>n. reduce t e ev = NoOp n) \<or> (\<exists>a. reduce t e ev = Accepted a \<and> u = ac_state a)))"

lemma reference_identity_named: "reference_identity r = Inr (inst, epoch) \<Longrightarrow> named inst"
  by (auto simp: reference_identity_def Let_def bind_res_Inr_iff split: doc.splits if_splits
      intro: identity_of_named)

lemma binding_suspension: "binding_json task_id suspension inst epoch u = Inr j \<Longrightarrow> st_suspension u \<noteq> None"
  by (auto simp: binding_json_def bind_res_Inr_iff split: option.splits)

context bridge_log
begin

lemma serves_suspend_from:
  assumes next_ok: "\<And>t e ev a. evolves s t \<Longrightarrow> reduce t e ev = Accepted a \<Longrightarrow> ev_kind e = Closed EK_SUSPENSION_STARTED \<Longrightarrow>
    evolves t (ac_state a)"
    and "named inst" and "named task"
  shows "serves holds evolves s (suspend_from task_id suspension required submissions inst epoch task s)
    (\<lambda>j. suspended evolves s)"
proof -
  have wait: "serves holds evolves t (begin_waiting task_id suspension required submissions inst epoch task t)
      (\<lambda>j. suspended evolves s)" if t: "evolves s t" for t
  proof (rule serves_weaken [OF serves_begin_waiting [OF assms(2,3)]])
    show "evolves t (ac_state a)" if "reduce t e ev = Accepted a" "ev_kind e = Closed EK_SUSPENSION_STARTED" for e ev a
      using next_ok t that by blast
  next
    fix j u assume "\<exists>e ev. ev_kind e = Closed EK_SUSPENSION_STARTED \<and>
      binding_json task_id suspension inst epoch u = Inr j \<and>
      (u = t \<and> (\<exists>n. reduce t e ev = NoOp n) \<or> (\<exists>a. reduce t e ev = Accepted a \<and> u = ac_state a))"
    then show "suspended evolves s u"
      unfolding suspended_def using t binding_suspension by blast
  qed
  have mid: "serves holds evolves s
      (if suspension_is SS_WAITING s then give (Inr s) else start_frontier_attempts task_id xs s) (\<lambda>y u. y = u)"
    for xs using serves_frontier by (auto intro: serves_give)
  show ?thesis
    unfolding suspend_from_def
  proof (rule serves_bind [OF mid], hypsubst)
    fix t assume t: "evolves s t"
    have "suspended evolves s t" if "suspension_is SS_WAITING t" using that by (simp add: suspended_def)
    then show "serves holds evolves t
       (if suspension_is SS_WAITING t then asking (waiting_binding suspension)
        else begin_waiting task_id suspension required submissions inst epoch task t) (\<lambda>j. suspended evolves s)"
      using wait [OF t] by (auto intro: serves_asking)
  qed
qed

lemma serves_start:
  assumes next_ok: "\<And>t e ev a. evolves s t \<Longrightarrow> reduce t e ev = Accepted a \<Longrightarrow> ev_kind e = Closed EK_SUSPENSION_STARTED \<Longrightarrow>
    evolves t (ac_state a)"
  shows "serves holds evolves s (start_kernel_suspension task_id suspension receipts) (\<lambda>j. suspended evolves s)"
proof -
  have rest: "serves holds evolves s
     (bind_rt (open_history task_id required submissions inst epoch task)
       (suspend_from task_id suspension required submissions inst epoch task)) (\<lambda>j. suspended evolves s)"
    if "named inst" "named task" for required submissions inst epoch task
    using serves_suspend_from [OF next_ok that] by (auto intro: serves_bind [OF serves_open])
  show ?thesis
    unfolding start_kernel_suspension_def
    by (intro serves_bind_give serves_bind_asking)
       (auto intro!: serves_bind_give rest dest: reference_identity_named identity_of_named)
qed

end

text \<open>
  C26. An interrupted start cannot be repeated. Starting a suspension first writes the genesis state and
  then three events that take the task to executing; when it is cut in between, a later start finds
  the genesis file and does not continue these events. Such a call never returns, whatever the
  arguments and whatever the operating system does, and it leaves the status of the task and the
  missing suspension as they are, so that this holds of every later call too.
\<close>

theorem interrupted_start_cannot_be_repeated:
  assumes "load_recovery (rt_kernel r) = Inr old" and "state_named (rp_state (rc_replay old))"
    and "st_status (rp_state (rc_replay old)) \<noteq> Closed TS_EXECUTING"
    and "st_suspension (rp_state (rc_replay old)) = None"
    and "start_kernel_suspension task_id suspension receipts r = (res, r')"
  shows "(\<exists>e. res = Inl e) \<and>
    (\<exists>new. load_recovery (rt_kernel r') = Inr new \<and> state_named (rp_state (rc_replay new)) \<and>
       st_status (rp_state (rc_replay new)) = st_status (rp_state (rc_replay old)) \<and>
       st_suspension (rp_state (rc_replay new)) = None)"
proof -
  let ?s = "rp_state (rc_replay old)"
  have s: "holds r ?s" using assms(1,2) by (simp add: holds_def)
  have never: "\<not> (reduce t e ev = Accepted a \<and> ev_kind e = Closed EK_SUSPENSION_STARTED)" if "still ?s t" for t e ev a
  proof
    assume a: "reduce t e ev = Accepted a \<and> ev_kind e = Closed EK_SUSPENSION_STARTED"
    then obtain status sp where "st_status t = Closed status" "do_suspension_started t status e = Some sp"
      by (auto elim!: reduce_Accepted_state)
    then have "st_status t = Closed TS_EXECUTING" by (auto elim: do_suspension_started_SomeD)
    then show False using that assms(3) by (simp add: still_def)
  qed
  have "serves holds still ?s (start_kernel_suspension task_id suspension receipts) (\<lambda>j. suspended still ?s)"
    using never by (intro quiet.serves_start) blast
  from quiet.servesD [OF this s assms(5)] obtain u where u: "holds r' u" "still ?s u"
    "\<forall>j. res = Inr j \<longrightarrow> suspended still ?s u" by blast
  have "\<not> suspended still ?s u"
    using never u(2) assms(4) by (auto simp: suspended_def suspension_is_def still_def)
  then have "\<exists>e. res = Inl e" using u(3) by (cases res) auto
  then show ?thesis using u(1,2) assms(4) by (auto simp: holds_def still_def)
qed

section \<open>Answers without an event\<close>

text \<open>
  The events of the bridge carry the revision of the state they are made in. The reducer answers one
  of them with a no_op only when its input digest collides with that of an older entry of the journal.
\<close>

lemma run_accepted_inputs:
  assumes "run s tr t" and "x \<in> set (st_accepted t)" and "x \<notin> set (st_accepted s)"
  shows "\<exists>(e, ev, a)\<in>set tr. ae_event x = ev_id e \<and> ae_input_digest x = input_digest s e ev \<and>
    ev_expected_revision e < st_revision t \<and> event_is_valid e"
  using assms
proof (induction rule: run.induct)
  case (run_Cons s e ev a tr t)
  have rv: "ev_expected_revision e = st_revision s"
    using run_Cons.hyps(1) by (auto elim!: reduce_Accepted_takes simp: takes_def)
  have grow: "st_revision s < st_revision t"
  proof -
    have "st_revision (ac_state a) \<le> st_revision t"
      using run_Cons.hyps(2) by (induction rule: run.induct) (simp_all add: reduce_frame)
    then show ?thesis using reduce_frame(5) [OF run_Cons.hyps(1)] by simp
  qed
  have same: "input_digest (ac_state a) e' ev' = input_digest s e' ev'" for e' ev'
    using reduce_frame(1) [OF run_Cons.hyps(1)] by (simp add: input_digest_def input_value_def)
  show ?case
  proof (cases "x \<in> set (st_accepted (ac_state a))")
    case True
    then show ?thesis
      using run_Cons.prems(2) reduce_frame(6) [OF run_Cons.hyps(1)] reduce_Accepted_valid [OF run_Cons.hyps(1)] rv grow
      by auto
  next
    case False
    then show ?thesis using run_Cons.IH [OF run_Cons.prems(1)] same by auto
  qed
qed simp

definition journal_collision :: "recovery \<Rightarrow> event \<Rightarrow> evidence list \<Rightarrow> bool" where
  "journal_collision rec e ev \<longleftrightarrow>
     (\<exists>y\<in>set (rc_entries rec). sha_collision (input_value (rp_state (rc_replay rec)) (re_event y) (re_evidence y))
        (input_value (rp_state (rc_replay rec)) e ev))"

lemma noop_collides:
  assumes "load_recovery d = Inr rec" and "rp_state (rc_replay rec) = s" and "reduce s e ev = NoOp n"
    and "ev_expected_revision e = st_revision s"
  shows "journal_collision rec e ev"
proof -
  obtain x where x: "x \<in> set (st_accepted s)" "ae_input_digest x = input_digest s e ev"
    and valid: "event_is_valid e"
    using assms(3) by (auto simp: reduce_def reject_def finish_def inputs_ok_def Let_def
        split: open_enum.splits if_splits option.splits dest: find_SomeD)
  obtain g xs where "recover_unlocked d g xs = Inr rec" using assms(1) by (auto simp: load_recovery_iff)
  then obtain full where full: "replay (GenesisRoot g) xs None = Inr full" "rp_state full = s"
    and xs: "rc_entries rec = xs" using recover_unlocked_state assms(2) by metis
  obtain tr where g: "genesis_ok g" and tr: "run g tr s" "list_all2 describes xs tr"
    using full replay_loop_sound by (fastforce simp: replay_genesis_iff)
  have "x \<notin> set (st_accepted g)" using g by (simp add: genesis_ok_def)
  from run_accepted_inputs [OF tr(1) x(1) this] obtain e' ev' a where
    y: "(e', ev', a) \<in> set tr" "ae_input_digest x = input_digest g e' ev'"
      "ev_expected_revision e' < st_revision s" "event_is_valid e'" by auto
  have "digest (input_value s e' ev') = digest (input_value s e ev)"
    using y(2) x(2) run_protocol_version [OF tr(1)] by (simp add: input_digest_def input_value_def)
  moreover have "\<not> json_eq (input_value s e' ev') (input_value s e ev)"
    using input_value_inj [OF _ y(4) valid, of s ev' s ev] y(3) assms(4) by auto
  ultimately have "sha_collision (input_value s e' ev') (input_value s e ev)" using digest_eqD by blast
  moreover obtain p where "p \<in> set xs" "describes p (e', ev', a)"
    using tr(2) y(1) by (metis in_set_conv_nth list_all2_conv_all_nth)
  ultimately show ?thesis using xs assms(2) by (auto simp: describes_def journal_collision_def)
qed

section \<open>The wake\<close>

lemma wake_event_parts:
  assumes "wake_event task_id wake_id u s = Inr e"
  shows "ev_kind e = Closed EK_WAKE_ACCEPTED" "ev_expected_revision e = st_revision s"
    "ev_wake e = Some (Identity IK_WAKE wake_id)"
    "state_named s \<Longrightarrow> st_suspension s = Some u \<Longrightarrow> event_named e"
  using assms
  by (auto simp: wake_event_def bind_res_Inr_iff bare_event_def identity_of_Inr py_or_def event_named_def
      state_named_def suspension_named_def split: if_splits)

definition woken_by :: "string \<Rightarrow> state \<Rightarrow> bool" where
  "woken_by wake_id u \<longleftrightarrow>
     (\<exists>w. st_suspension u = Some w \<and> su_status w = SS_RESUMED \<and> su_wake w = Some (Identity IK_WAKE wake_id))"

lemma reduce_wake:
  assumes "reduce s e ev = Accepted a" and "ev_kind e = Closed EK_WAKE_ACCEPTED"
    and "ev_wake e = Some (Identity IK_WAKE wake_id)"
  shows "woken_by wake_id (ac_state a)"
proof -
  obtain status sp target where
    st: "st_suspension (ac_state a) = (if target \<noteq> status then None else sp_suspension sp)" "sp_target sp = Some target"
    and d: "do_wake_accepted s status e = Some sp"
    using assms(1,2) by (elim reduce_Accepted_state) (auto intro: that)
  from d show ?thesis
    by (rule do_wake_accepted_SomeD) (use st assms(3) in \<open>simp add: woken_by_def\<close>)
qed

lemma serves_wake:
  assumes "kernel_inv s"
  shows "kernel_serves s (accept_kernel_wake task_id wake_id projection)
    (\<lambda>j u. j = state_json u \<and> (woken_by wake_id u \<or>
       (\<exists>w e n. st_suspension s = Some w \<and> wake_event task_id wake_id w s = Inr e \<and> reduce s e [] = NoOp n)))"
    (is "kernel_serves s _ (\<lambda>j u. j = state_json u \<and> (woken_by wake_id u \<or> ?noop))")
proof -
  have again: "Identity IK_WAKE (id_value w) = w"
    if "st_suspension s = Some u" "su_status u = SS_RESUMED" "su_wake u = Some w" for u w
    using assms that by (auto simp: kernel_inv_def state_is_valid_def suspension_is_valid_def opt_has_kind_def
        has_identity_kind_def Identity_def)
  have step: "kernel_serves s (append_event s e []) (\<lambda>t u. t = u \<and> (woken_by wake_id u \<or> ?noop))"
    if "st_suspension s = Some w" "wake_event task_id wake_id w s = Inr e" for w e
    using wake_event_parts [OF that(2)] that
    by (intro kernel.serves_weaken [OF kernel.serves_append]) (auto intro: leads_step reduce_wake)
  have "kernel_serves s (wake_from task_id wake_id projection s)
      (\<lambda>j u. j = state_json u \<and> (woken_by wake_id u \<or> ?noop))"
  proof (cases "st_suspension s")
    case None
    then show ?thesis by (auto simp: wake_from_def intro: kernel.serves_give)
  next
    case (Some u)
    show ?thesis
    proof (cases "su_status u = SS_RESUMED")
      case True
      then show ?thesis using Some again [OF Some True]
        by (auto simp: wake_from_def woken_by_def refuse_def intro!: kernel.serves_give kernel.serves_bind_give
            split: option.splits if_splits)
    next
      case False
      then show ?thesis
        using Some
        by (auto simp: wake_from_def intro!: kernel.serves_bind_give kernel.serves_bind [OF step]
            kernel.serves_bind_asking kernel.serves_bind [OF kernel.serves_write] kernel.serves_give)
    qed
  qed
  then show ?thesis
    unfolding accept_kernel_wake_def by (auto intro: kernel.serves_bind [OF kernel.serves_recovered])
qed

lemma holds_ready: "holds r s \<Longrightarrow> resumed_ready s"
proof (elim holds_inv)
  fix g tr assume g: "genesis_ok g" "run g tr s"
  have "st_suspension g = None" using g(1) by (auto simp: genesis_ok_def state_is_valid_def)
  then have "resumed_ready g" by (simp add: resumed_ready_def)
  then show "resumed_ready s" using run_invariant [of g tr s resumed_ready, OF g(2)] resumed_ready_step by blast
qed

text \<open>
  C10. A wake that is answered is recorded, and it is not early. Take a store that recovers and any
  behaviour of the operating system. After a call the store recovers again; if the call returned, it
  returned the recovered state, in which the suspension has been resumed by exactly this wake and
  every work item it required is completed. (The one exception is a collision of SHA-256 between the
  inputs of this event and of an older entry of the journal.)
\<close>

theorem wake_answered_when_ready:
  assumes "load_recovery (rt_kernel r) = Inr old" and "state_named (rp_state (rc_replay old))"
    and "accept_kernel_wake task_id wake_id projection r = (res, r')"
  shows "\<exists>new. load_recovery (rt_kernel r') = Inr new \<and>
    (\<forall>j. res = Inr j \<longrightarrow>
       j = state_json (rp_state (rc_replay new)) \<and>
       ((\<exists>w. st_suspension (rp_state (rc_replay new)) = Some w \<and> su_status w = SS_RESUMED \<and>
           su_wake w = Some (Identity IK_WAKE wake_id) \<and>
           (\<forall>i\<in>set (su_required w). has_item_status (rp_state (rc_replay new)) i WS_COMPLETED)) \<or>
        (\<exists>w e. st_suspension (rp_state (rc_replay old)) = Some w \<and>
           wake_event task_id wake_id w (rp_state (rc_replay old)) = Inr e \<and> journal_collision old e [])))"
proof -
  let ?s = "rp_state (rc_replay old)"
  have s: "holds r ?s" using assms(1,2) by (simp add: holds_def)
  from kernel.servesD [OF serves_wake [OF holds_valid [OF s]] s assms(3)] obtain u where
    u: "holds r' u" "\<forall>j. res = Inr j \<longrightarrow> j = state_json u \<and> (woken_by wake_id u \<or>
       (\<exists>w e n. st_suspension ?s = Some w \<and> wake_event task_id wake_id w ?s = Inr e \<and> reduce ?s e [] = NoOp n))"
    by blast
  have ready: "resumed_ready u" using holds_ready [OF u(1)] .
  obtain new where new: "load_recovery (rt_kernel r') = Inr new" "rp_state (rc_replay new) = u"
    using u(1) by (auto simp: holds_def)
  have "journal_collision old e []"
    if "wake_event task_id wake_id w ?s = Inr e" "reduce ?s e [] = NoOp n" for w e n
    using noop_collides [OF assms(1) refl that(2) wake_event_parts(2) [OF that(1)]] .
  then have "\<forall>j. res = Inr j \<longrightarrow> j = state_json u \<and> (woken_by wake_id u \<or>
       (\<exists>w e. st_suspension ?s = Some w \<and> wake_event task_id wake_id w ?s = Inr e \<and> journal_collision old e []))"
    using u(2) by blast
  then show ?thesis
    using ready new by (intro exI [of _ new]) (auto simp: woken_by_def resumed_ready_def)
qed

section \<open>Completions\<close>

lemma find_index_update: "find_index p xs = Some i \<Longrightarrow> p y \<Longrightarrow> List.find p (xs[i := y]) = Some y"
proof (induction xs arbitrary: i)
  case (Cons x xs)
  then show ?case by (cases "p x") auto
qed simp

definition completed_by :: "identity \<Rightarrow> identity \<Rightarrow> state \<Rightarrow> bool" where
  "completed_by wid aid u \<longleftrightarrow>
     (\<exists>c b. List.find (\<lambda>c. wi_id c = wid) (st_items u) = Some c \<and> wi_status c = WS_COMPLETED \<and>
        wi_attempt c = Some b \<and> at_id b = aid)"

definition others_same :: "identity \<Rightarrow> state \<Rightarrow> state \<Rightarrow> bool" where
  "others_same wid s u \<longleftrightarrow>
     (\<forall>k. k \<noteq> wid \<longrightarrow> List.find (\<lambda>c. wi_id c = k) (st_items u) = List.find (\<lambda>c. wi_id c = k) (st_items s))"

lemma reduce_completed:
  assumes "reduce s e ev = Accepted a" and "ev_kind e = Closed EK_ATTEMPT_COMPLETED"
    and "ev_item e = Some wid" and "ev_attempt e = Some aid"
  shows "completed_by wid aid (ac_state a)" and "others_same wid s (ac_state a)"
proof -
  obtain status sp where sp: "do_attempt_progress s status EK_ATTEMPT_COMPLETED e = Some sp"
    and items: "st_items (ac_state a) = sp_items sp"
    using assms(1,2) by (elim reduce_Accepted_state) (auto simp: dispatch_def attempt_transitions_def intro: that)
  from sp obtain i b where i: "item_index s e = Some i" and b: "wi_attempt (st_items s ! i) = Some b"
    "attempt_tuple b = event_tuple e"
    and new: "sp_items sp = (st_items s)[i := (st_items s ! i)\<lparr>wi_status := WS_COMPLETED,
       wi_attempt := Some (b\<lparr>at_status := AS_COMPLETED\<rparr>)\<rparr>]"
    by (auto simp: do_attempt_progress_def attempt_transitions_def Let_def split: option.splits if_splits)
  have at: "i < length (st_items s)" "wi_id (st_items s ! i) = wid" using item_indexD [OF i] assms(3) by auto
  have "find_index (\<lambda>w. wi_id w = wid) (st_items s) = Some i" using i assms(3) by (simp add: item_index_def)
  moreover have "at_id b = aid" using b(2) assms(4) by (simp add: attempt_tuple_def event_tuple_def)
  ultimately show "completed_by wid aid (ac_state a)"
    unfolding completed_by_def items new by (subst find_index_update) (simp_all add: at)
  show "others_same wid s (ac_state a)"
    unfolding others_same_def items new using at by (auto intro!: find_update_other [where f = wi_id])
qed

lemma completion_event_parts:
  assumes "completion_event task_id receipt wid s = Inr e"
  shows "ev_kind e = Closed EK_ATTEMPT_COMPLETED" "ev_expected_revision e = st_revision s"
    "ev_item e = Some wid" "ev_attempt e = Some (Identity IK_ATTEMPT (py_str (dget ''attempt_id'' receipt)))"
    "state_named s \<Longrightarrow> named wid \<Longrightarrow> event_named e"
  using assms
  by (auto simp: completion_event_def bind_res_Inr_iff bare_event_def identity_of_Inr py_or_def event_named_def
      state_named_def index_def dget_def split: if_splits option.splits)

text \<open>What a completion that returned has done.\<close>

definition completes :: "string \<Rightarrow> json \<Rightarrow> state \<Rightarrow> identity \<Rightarrow> state \<Rightarrow> bool" where
  "completes task_id receipt s wid u \<longleftrightarrow>
     identity_of IK_WORK_ITEM (dget ''work_item_id'' receipt) = Inr wid \<and>
     (completed_by wid (Identity IK_ATTEMPT (py_str (dget ''attempt_id'' receipt))) u \<and> others_same wid s u \<or>
      (\<exists>e x n. completion_event task_id receipt wid s = Inr e \<and> receipt_evidence receipt = Inr x \<and>
         reduce s e [x] = NoOp n))"

lemma found_attempt_kind:
  assumes "kernel_inv s" and "List.find (\<lambda>c. wi_id c = wid) (st_items s) = Some c" and "wi_attempt c = Some b"
  shows "Identity IK_ATTEMPT (id_value (at_id b)) = at_id b"
  using assms find_SomeD [OF assms(2)]
  by (auto simp: kernel_inv_def state_is_valid_def work_item_is_valid_def attempt_is_valid_def
      has_identity_kind_def Identity_def list_all_iff)

lemma serves_completion:
  assumes "kernel_inv s"
  shows "kernel_serves s (record_kernel_completion task_id receipt)
    (\<lambda>j u. j = state_json u \<and> (\<exists>wid. completes task_id receipt s wid u))"
proof -
  have wid: "identity_of IK_WORK_ITEM (dget ''work_item_id'' receipt) = Inr wid \<and> named wid"
    if "bind_res (index ''work_item_id'' receipt) (identity_of IK_WORK_ITEM) = Inr wid" for wid
    using that by (auto simp: bind_res_Inr_iff index_def dget_def split: option.splits intro: identity_of_named)
  have step: "kernel_serves s (append_event s e [x]) (\<lambda>t u. t = u \<and> completes task_id receipt s wid u)"
    if "identity_of IK_WORK_ITEM (dget ''work_item_id'' receipt) = Inr wid" "named wid"
      "completion_event task_id receipt wid s = Inr e" "receipt_evidence receipt = Inr x" for wid e x
    using completion_event_parts [OF that(3)] that receipt_evidence_named
    by (intro kernel.serves_weaken [OF kernel.serves_append])
       (auto simp: completes_def intro: leads_step reduce_completed)
  have again: "\<exists>wid. completes task_id receipt s wid s"
    if "identity_of IK_WORK_ITEM (dget ''work_item_id'' receipt) = Inr wid"
      "List.find (\<lambda>c. wi_id c = wid) (st_items s) = Some c" "wi_attempt c = Some b" "wi_status c = WS_COMPLETED"
      "index ''attempt_id'' receipt = Inr (JStr (id_value (at_id b)))" for wid c b
    using that found_attempt_kind [OF assms that(2,3)]
    by (auto simp: completes_def completed_by_def others_same_def index_def dget_def split: option.splits
        intro!: exI [of _ wid])
  have "kernel_serves s (complete_from task_id receipt s)
      (\<lambda>j u. j = state_json u \<and> (\<exists>wid. completes task_id receipt s wid u))"
    unfolding complete_from_def
    by (intro kernel.serves_bind_give)
       (auto simp: refuse_def dest!: wid intro!: kernel.serves_bind_give kernel.serves_give kernel.serves_bind [OF step]
        intro: again split: option.splits if_splits)
  then show ?thesis
    unfolding record_kernel_completion_def
    by (auto intro!: kernel.serves_bind_give kernel.serves_bind [OF kernel.serves_recovered])
qed

text \<open>A completion that is recorded already is answered again, without a write.\<close>

lemma recovered_calm:
  assumes "holds r s" and "calm (rt_env r (rt_calls r))"
  shows "recovered_state r = (Inr s, r\<lparr>rt_calls := Suc (rt_calls r)\<rparr>)"
proof -
  obtain rec where rec: "load_recovery (rt_kernel r) = Inr rec" "rp_state (rc_replay rec) = s"
    using assms(1) by (auto simp: holds_def)
  from recover_calm [OF assms(2) rec(1)]
  have "recover (rt_env r (rt_calls r)) (rt_kernel r) = (Inr rec, rt_kernel r)" .
  then show ?thesis using rec by (simp add: recovered_state_def store_call_def bind_rt_def give_def)
qed

lemma completion_bound:
  assumes "record_kernel_completion task_id receipt r = (Inr j, r')"
  shows "\<exists>i. jget ''attempt_id'' receipt = Some i"
proof (rule ccontr)
  assume "\<not> ?thesis"
  then have "index ''attempt_id'' receipt = Inl (Raised (KeyError ''attempt_id''))" by (simp add: index_def)
  then have "complete_from task_id receipt s q \<noteq> (Inr j, r')" for s q
    by (auto simp: complete_from_def completion_event_def bind_rt_def give_def bind_res_def
        split: option.splits sum.splits)
  then show False
    using assms by (auto simp: record_kernel_completion_def bind_rt_def split: prod.splits sum.splits)
qed

text \<open>The same receipt again, undisturbed, when its work item is completed under its attempt.\<close>

lemma completion_again:
  assumes "holds r s" and "calm (rt_env r (rt_calls r))"
    and "completed_by wid (Identity IK_ATTEMPT (py_str i)) s"
    and "jget ''attempt_id'' receipt = Some i" and "jget ''work_item_id'' receipt = Some w"
    and "identity_of IK_WORK_ITEM w = Inr wid"
    and "record_kernel_completion task_id receipt r0 = (Inr j, r1)"
  shows "record_kernel_completion task_id receipt r =
    (if is_str i then Inr (state_json s)
     else Inl (KernelRuntimeError ''Kernel completion exact retry Attempt conflicts''),
     r\<lparr>rt_calls := Suc (rt_calls r)\<rparr>)"
proof -
  have "refuse (\<not> py_eq (dget ''schema_version'' receipt) (JStr ''valp-dispatch-receipt.v3'') \<or>
        \<not> py_eq (dget ''event'' receipt) (JStr ''dispatch_completed'') \<or>
        \<not> py_eq (dget ''task_id'' receipt) (JStr task_id))
       ''Kernel completion requires one canonical v3 terminal receipt'' = Inr ()"
    using assms(7) by (auto simp: record_kernel_completion_def bind_rt_def give_def refuse_def split: if_splits)
  moreover have "py_eq (JStr (id_value (Identity IK_ATTEMPT (py_str i)))) i \<longleftrightarrow> is_str i"
    by (cases i) (simp_all add: Identity_def)
  then have "complete_from task_id receipt s r' =
      (if is_str i then Inr (state_json s)
       else Inl (KernelRuntimeError ''Kernel completion exact retry Attempt conflicts''), r')" for r'
    using assms(3-6)
    by (auto simp: complete_from_def completed_by_def bind_rt_def give_def index_def refuse_def)
  ultimately show ?thesis
    unfolding record_kernel_completion_def
    by (simp add: bind_rt_def give_def recovered_calm [OF assms(1,2), unfolded bind_rt_def])
qed

text \<open>
  C6. A recorded completion is final, and its receipt can be sent again when its attempt is a text.
  Take a store that recovers and any behaviour of the operating system. A call that returns gives the
  state the store then recovers to; in it the work item of the receipt is completed under the attempt
  of the receipt and every other item is as before (or the input digest of the event collides with an
  older entry). When the same receipt is then sent again in an environment without faults, no file
  changes, and the answer depends on the type of its \<^verbatim>\<open>attempt_id\<close>: a text gives the same answer, anything
  else, such as a number, which the first call turned into a text, is refused as a conflict.
\<close>

theorem completion_recorded_and_repeatable:
  assumes "load_recovery (rt_kernel r) = Inr old" and "state_named (rp_state (rc_replay old))"
    and "record_kernel_completion task_id receipt r = (Inr j, r')"
  shows "\<exists>new wid. load_recovery (rt_kernel r') = Inr new \<and> j = state_json (rp_state (rc_replay new)) \<and>
    identity_of IK_WORK_ITEM (dget ''work_item_id'' receipt) = Inr wid \<and>
    (completed_by wid (Identity IK_ATTEMPT (py_str (dget ''attempt_id'' receipt))) (rp_state (rc_replay new)) \<and>
     others_same wid (rp_state (rc_replay old)) (rp_state (rc_replay new)) \<and>
     (calm (rt_env r' (rt_calls r')) \<longrightarrow>
        record_kernel_completion task_id receipt r' =
          (if is_str (dget ''attempt_id'' receipt) then Inr j
           else Inl (KernelRuntimeError ''Kernel completion exact retry Attempt conflicts''),
           r'\<lparr>rt_calls := Suc (rt_calls r')\<rparr>)) \<or>
     (\<exists>e x. completion_event task_id receipt wid (rp_state (rc_replay old)) = Inr e \<and>
        receipt_evidence receipt = Inr x \<and> journal_collision old e [x]))"
proof -
  let ?s = "rp_state (rc_replay old)"
  have s: "holds r ?s" using assms(1,2) by (simp add: holds_def)
  from kernel.servesD [OF serves_completion [OF holds_valid [OF s]] s assms(3)] obtain u wid where
    u: "holds r' u" "j = state_json u" "completes task_id receipt ?s wid u" by blast
  obtain new where new: "load_recovery (rt_kernel r') = Inr new" "rp_state (rc_replay new) = u"
    using u(1) by (auto simp: holds_def)
  have wid: "identity_of IK_WORK_ITEM (dget ''work_item_id'' receipt) = Inr wid"
    using u(3) by (simp add: completes_def)
  then obtain w where w: "jget ''work_item_id'' receipt = Some w" "identity_of IK_WORK_ITEM w = Inr wid"
    by (cases "jget ''work_item_id'' receipt") (simp_all add: dget_def identity_of_def py_or_def)
  obtain i where i: "jget ''attempt_id'' receipt = Some i" "dget ''attempt_id'' receipt = i"
    using completion_bound [OF assms(3)] by (auto simp: dget_def)
  note again = completion_again [OF u(1) _ _ i(1) w assms(3), folded i(2) u(2)]
  moreover have "journal_collision old e [x]"
    if "completion_event task_id receipt wid ?s = Inr e" "reduce ?s e [x] = NoOp n" for e x n
    using noop_collides [OF assms(1) refl that(2) completion_event_parts(2) [OF that(1)]] .
  ultimately show ?thesis
    using u(2,3) new wid unfolding completes_def by blast
qed

end
