(* ===== verification/Kernel_Sessions.thy ===== *)
theory Kernel_Sessions
  imports Kernel_Calls
begin

text \<open>
  Sequences of calls of the bridge, from an empty task directory on. Between two calls the other files
  and the behaviour of the operating system may be anything.
\<close>

section \<open>Stores that may be empty\<close>

fun store_at :: "runtime \<Rightarrow> state option \<Rightarrow> bool" where
  "store_at r None = blank_store (rt_kernel r)"
| "store_at r (Some s) = holds r s"

fun grows :: "state option \<Rightarrow> state option \<Rightarrow> bool" where
  "grows None x = True"
| "grows (Some s) None = False"
| "grows (Some s) (Some t) = leads s t"

lemma grows_Some_iff: "grows (Some s) x \<longleftrightarrow> (\<exists>t. x = Some t \<and> leads s t)"
  by (cases x) simp_all

interpretation session: journal_service store_at grows
proof
  show "grows x x" for x by (cases x) (simp_all add: kernel.evolves_refl)
  show "grows x z" if "grows x y" "grows y z" for x y z
    using that by (cases x; metis grows.simps(1) grows_Some_iff kernel.evolves_trans)
qed

abbreviation session_serves :: "state option \<Rightarrow> 'a rt \<Rightarrow> ('a \<Rightarrow> state option \<Rightarrow> bool) \<Rightarrow> bool" where
  "session_serves \<equiv> serves store_at grows"

lemma session_serves_Some:
  assumes "kernel_serves s m Q"
  shows "session_serves (Some s) m (\<lambda>y x. \<exists>t. x = Some t \<and> Q y t)"
proof (rule session.servesI)
  fix r res r' assume r: "store_at r (Some s)" and m: "m r = (res, r')"
  then have "holds r s" by simp
  from kernel.servesD [OF assms this m] obtain t where "holds r' t" "leads s t" "\<forall>y. res = Inr y \<longrightarrow> Q y t"
    by blast
  then show "\<exists>x. store_at r' x \<and> grows (Some s) x \<and> (\<forall>y. res = Inr y \<longrightarrow> (\<exists>t. x = Some t \<and> Q y t))"
    by (intro exI [of _ "Some t"]) simp
qed

lemma session_kept: "kernel_serves s m Q \<Longrightarrow> session_serves (Some s) m (\<lambda>_ _. True)"
  by (rule session.serves_weaken [OF session_serves_Some]) simp_all

lemma session_recovered_None: "session_serves None recovered_state Q"
proof (rule session.servesI)
  fix r res r' assume r: "store_at r None" and m: "recovered_state r = (res, r')"
  obtain rr d where rec: "recover (rt_env r (rt_calls r)) (rt_kernel r) = (rr, d)"
    by (cases "recover (rt_env r (rt_calls r)) (rt_kernel r)")
  have "load_recovery (rt_kernel r) = Inl (Uncaught (ValueError ''Kernel GenesisRoot is missing''))"
    using r by (simp add: load_recovery_def load_genesis_def blank_store_def)
  then have "d = rt_kernel r \<and> (\<exists>e. rr = Inl e)"
    using recover_answer [OF rec] by (cases rr) auto
  then show "\<exists>x. store_at r' x \<and> grows None x \<and> (\<forall>y. res = Inr y \<longrightarrow> Q y x)"
    using m rec r
    by (intro exI [of _ None])
       (auto simp: recovered_state_def store_call_def bind_rt_def split: failure.splits)
qed

section \<open>A new history\<close>

lemma session_initialize:
  assumes "state_named g"
  shows "session_serves None (store_call what (\<lambda>v. initialize v g)) (\<lambda>_ x. x = Some g)"
proof (rule session.servesI)
  fix r res r' assume r: "store_at r None" and m: "store_call what (\<lambda>v. initialize v g) r = (res, r')"
  obtain rr d where i: "initialize (rt_env r (rt_calls r)) g (rt_kernel r) = (rr, d)"
    by (cases "initialize (rt_env r (rt_calls r)) g (rt_kernel r)")
  have r': "r' = r\<lparr>rt_kernel := d, rt_calls := Suc (rt_calls r)\<rparr>"
    and res: "\<And>y. res = Inr y \<Longrightarrow> \<exists>z. rr = Inr z"
    using m i by (auto simp: store_call_def split: sum.splits failure.splits)
  from initialize_outcome [OF _ i assms] r
  consider "d = rt_kernel r" "\<exists>e. rr = Inl e" | "holds r' g" using assms r' by (auto simp: holds_def)
  then show "\<exists>x. store_at r' x \<and> grows None x \<and> (\<forall>y. res = Inr y \<longrightarrow> x = Some g)"
  proof cases
    case 1
    then show ?thesis using r r' res by (intro exI [of _ None]) auto
  next
    case 2
    then show ?thesis by (intro exI [of _ "Some g"]) simp
  qed
qed

lemma serves_spine:
  assumes "named inst" and "named task"
  shows "kernel_serves s (spine_steps task_id inst epoch task n ks s) (\<lambda>t u. t = u)"
proof (induction ks arbitrary: s n)
  case Nil
  then show ?case by (auto intro: kernel.serves_give)
next
  case (Cons k ks)
  have "kernel_serves s (append_event s (bare_event (event_identity task_id k (JObj [(''spine_index'', JInt (int n))]))
      inst epoch task k (st_revision s)) []) (\<lambda>t u. t = u)"
    by (rule kernel.serves_weaken [OF kernel.serves_append])
       (auto intro: leads_step bare_event_named assms)
  then show ?case using Cons by (auto intro: kernel.serves_bind)
qed

lemma session_open_None:
  assumes "named inst" and "named task"
  shows "session_serves None (open_history task_id required submissions inst epoch task) (\<lambda>t x. x = Some t)"
proof (rule session.servesI)
  fix r res r' assume r: "store_at r None" and m: "open_history task_id required submissions inst epoch task r = (res, r')"
  let ?m = "bind_rt (asking (\<lambda>r. declared_work_items (rt_graph r) task_id required submissions task)) (\<lambda>items.
          bind_rt (store_call ''Kernel runtime initialization failed: ''
                     (\<lambda>v. initialize v (genesis_state inst epoch task items))) (\<lambda>_.
            spine_steps task_id inst epoch task 0 spine_kinds (genesis_state inst epoch task items)))"
  have "state_named (genesis_state inst epoch task items)" if "list_all item_named items" for items
    using that assms by (simp add: state_named_def genesis_state_def)
  then have "session_serves None ?m (\<lambda>t x. x = Some t)"
    using session_serves_Some [OF serves_spine [OF assms]]
    by (auto intro!: session.serves_bind_asking session.serves_bind [OF session_initialize]
        dest: declared_work_items_named [OF _ assms(2)])
  moreover have "?m r = (res, r')"
    using m r by (simp add: open_history_def is_file_def blank_store_def)
  ultimately show "\<exists>x. store_at r' x \<and> grows None x \<and> (\<forall>t. res = Inr t \<longrightarrow> x = Some t)"
    using session.servesD [OF _ r, of ?m] by simp
qed

section \<open>Sequences of calls\<close>

datatype call = Start string json "json list" | Complete string json | Wake string string "json option"

fun perform :: "call \<Rightarrow> json rt" where
  "perform (Start task_id suspension receipts) = start_kernel_suspension task_id suspension receipts"
| "perform (Complete task_id receipt) = record_kernel_completion task_id receipt"
| "perform (Wake task_id wake_id projection) = accept_kernel_wake task_id wake_id projection"

inductive reached :: "runtime \<Rightarrow> bool" where
  fresh: "blank_store (rt_kernel r) \<Longrightarrow> reached r"
| called: "reached r \<Longrightarrow> perform c r = (res, r') \<Longrightarrow> reached r'"
| elsewhere: "reached r \<Longrightarrow> rt_kernel r' = rt_kernel r \<Longrightarrow> reached r'"

lemma session_start_None: "session_serves None (start_kernel_suspension task_id suspension receipts) (\<lambda>_ _. True)"
proof -
  have "session_serves x (suspend_from task_id suspension required submissions inst epoch task t) (\<lambda>_ _. True)"
    if "named inst" "named task" "x = Some t" for required submissions inst epoch task t x
    using session_kept [OF kernel.serves_suspend_from [OF _ that(1,2)]] leads_step that(3) by simp
  then have rest: "session_serves None (bind_rt (open_history task_id required submissions inst epoch task)
       (suspend_from task_id suspension required submissions inst epoch task)) (\<lambda>_ _. True)"
    if "named inst" "named task" for required submissions inst epoch task
    using that by (intro session.serves_bind [OF session_open_None [OF that]])
  show ?thesis
    unfolding start_kernel_suspension_def
    by (intro session.serves_bind_give session.serves_bind_asking)
       (auto intro!: session.serves_bind_give rest dest: reference_identity_named identity_of_named)
qed

lemma session_perform: "session_serves x (perform c) (\<lambda>_ _. True)"
proof (cases x)
  case None
  have "session_serves None (record_kernel_completion task_id receipt) (\<lambda>_ _. True)" for task_id receipt
    unfolding record_kernel_completion_def
    by (intro session.serves_bind_give session.serves_bind [OF session_recovered_None [where Q = "\<lambda>_ _. False"]]) simp
  moreover have "session_serves None (accept_kernel_wake task_id wake_id projection) (\<lambda>_ _. True)"
    for task_id wake_id projection
    unfolding accept_kernel_wake_def
    by (intro session.serves_bind [OF session_recovered_None [where Q = "\<lambda>_ _. False"]]) simp
  ultimately show ?thesis using None session_start_None by (cases c) simp_all
next
  case (Some s)
  show ?thesis
  proof (cases "kernel_inv s")
    case True
    then show ?thesis
      using Some session_kept [OF kernel.serves_start [of s]] leads_step
        session_kept [OF serves_completion] session_kept [OF serves_wake]
      by (cases c) simp_all
  next
    case False
    then have "\<not> holds r s" for r using holds_valid by blast
    then show ?thesis using Some by (simp add: serves_def)
  qed
qed

lemma reached_store: "reached r \<Longrightarrow> \<exists>x. store_at r x"
proof (induction rule: reached.induct)
  case (fresh r)
  then show ?case by (intro exI [of _ None]) simp
next
  case (called r c res r')
  then obtain x where x: "store_at r x" by blast
  from session.servesD [OF session_perform x called.hyps(2)] show ?case by blast
next
  case (elsewhere r r')
  then obtain x where "store_at r x" by blast
  then show ?case using elsewhere.hyps(2) by (intro exI [of _ x], cases x) (simp_all add: holds_def)
qed

text \<open>
  C4. The bridge never loses its history. Start from an empty Kernel store and make any sequence of
  calls (start a suspension, record a completion, accept a wake) with any arguments, any contents of
  the other files and any fault of the operating system in any call. Afterwards the store is still
  empty, or it recovers: to a state that a run of the reducer reaches from a genesis state, valid, and
  with every work item completed that a resumed suspension required.
\<close>

theorem bridge_store_recovers:
  assumes "reached r"
  shows "blank_store (rt_kernel r) \<or>
    (\<exists>rec g tr. load_recovery (rt_kernel r) = Inr rec \<and> genesis_ok g \<and> run g tr (rp_state (rc_replay rec)) \<and>
       state_is_valid (rp_state (rc_replay rec)) \<and> state_named (rp_state (rc_replay rec)) \<and>
       (\<forall>u. st_suspension (rp_state (rc_replay rec)) = Some u \<and> su_status u = SS_RESUMED \<longrightarrow>
          (\<forall>i\<in>set (su_required u). has_item_status (rp_state (rc_replay rec)) i WS_COMPLETED)))"
proof -
  obtain x where x: "store_at r x" using reached_store [OF assms] by blast
  show ?thesis
  proof (cases x)
    case None
    then show ?thesis using x by simp
  next
    case (Some s)
    then have s: "holds r s" using x by simp
    obtain g tr where g: "genesis_ok g" "run g tr s" using holds_inv [OF s] .
    have "state_is_valid s" using holds_valid [OF s] by (simp add: kernel_inv_def)
    then show ?thesis
      using s g holds_ready [OF s] by (auto simp: holds_def resumed_ready_def)
  qed
qed

end
