(* ===== verification/Bridge_Witnesses.thy ===== *)
theory Bridge_Witnesses
  imports Kernel_Sessions Store_Examples
begin

text \<open>
  The properties of the bridge on the store of the demonstration task: before its first event, while
  its first attempt runs, and after the wake.
\<close>

definition woken_script :: "(event \<times> evidence list) list" where
  "woken_script = take 10 demo_script"

definition woken_view :: "state \<Rightarrow> bool" where
  "woken_view u \<longleftrightarrow> state_named u \<and>
     map_option (\<lambda>w. (su_status w, su_wake w)) (st_suspension u) = Some (SS_RESUMED, Some (Identity IK_WAKE ''k'')) \<and>
     map_option (\<lambda>c. (wi_status c, map_option at_id (wi_attempt c))) (List.find (\<lambda>c. wi_id c = item_A) (st_items u)) =
       Some (WS_COMPLETED, Some (Identity IK_ATTEMPT ''a''))"

lemma woken_light:
  "case light_script (forget demo_genesis) woken_script of None \<Rightarrow> False | Some (v, obs) \<Rightarrow> woken_view v"
  by code_simp

definition bridge_at :: "disk \<Rightarrow> runtime" where
  "bridge_at d = \<lparr>rt_kernel = d, rt_binding = Missing, rt_installation = Missing, rt_state = Missing,
     rt_graph = Missing, rt_policy = (\<lambda>_. Missing), rt_env = (\<lambda>_. calm_env), rt_calls = 0\<rparr>"

lemma woken_store:
  obtains tr t where "holds (bridge_at (script_disk tr)) t" and "woken_view t"
proof -
  obtain v obs where v: "light_script (forget demo_genesis) woken_script = Some (v, obs)" "woken_view v"
    using woken_light by (auto split: option.splits)
  from light_script_run [OF demo_inv v(1)] obtain tr t where
    tr: "run demo_genesis tr t" "forget t = v" "list_all entry_fine tr" by blast
  have view: "woken_view t"
    using v(2) tr(2) state_named_forget [of t] by (auto simp: woken_view_def forget_def)
  moreover obtain rec where "load_recovery (script_disk tr) = Inr rec" "rp_state (rc_replay rec) = t"
    using script_store_recovers [OF tr(1,3)] by blast
  ultimately have "holds (bridge_at (script_disk tr)) t"
    by (auto simp: holds_def bridge_at_def woken_view_def)
  then show ?thesis using view by (rule that)
qed

definition demo_receipt :: json where
  "demo_receipt = JObj [(''schema_version'', JStr ''valp-dispatch-receipt.v3''),
     (''event'', JStr ''dispatch_completed''), (''task_id'', JStr ''t''), (''work_item_id'', JStr ''A''),
     (''dispatch_id'', JStr ''d''), (''dispatch_generation'', JInt 0), (''attempt_id'', JStr ''a''),
     (''receipt_id'', JStr ''r''), (''receipt_digest'', JStr ''x'')]"

theorem wake_answered_when_ready_witness:
  "\<exists>r j r' new w. accept_kernel_wake ''t'' ''k'' None r = (Inr j, r') \<and> load_recovery (rt_kernel r') = Inr new \<and>
     (st_suspension (rp_state (rc_replay new)) = Some w \<and> su_status w = SS_RESUMED \<or>
      (\<exists>old e. journal_collision old e []))"
proof -
  obtain tr t where t: "holds (bridge_at (script_disk tr)) t" "woken_view t" by (rule woken_store)
  let ?r = "bridge_at (script_disk tr)"
  have calm: "calm (rt_env ?r (rt_calls ?r))" by (simp add: bridge_at_def)
  obtain w where w: "st_suspension t = Some w" "su_status w = SS_RESUMED" "su_wake w = Some (Identity IK_WAKE ''k'')"
    using t(2) by (auto simp: woken_view_def)
  have res: "accept_kernel_wake ''t'' ''k'' None ?r = (Inr (state_json t), ?r\<lparr>rt_calls := Suc (rt_calls ?r)\<rparr>)"
    using w by (simp add: accept_kernel_wake_def bind_rt_def recovered_calm [OF t(1) calm] wake_from_def
        give_def refuse_def Identity_def)
  obtain old where old: "load_recovery (rt_kernel ?r) = Inr old" "rp_state (rc_replay old) = t" "state_named t"
    using t(1) by (auto simp: holds_def)
  from wake_answered_when_ready [OF old(1) _ res] old(2,3) res show ?thesis by blast
qed

section \<open>A first completion\<close>

text \<open>
  The bridge names an event by a digest. The event of the script under that name has the same effect:
  the name goes only into the history, the result and the audit facts.
\<close>

abbreviation renamed :: "event \<Rightarrow> string \<Rightarrow> event" where
  "renamed e d \<equiv> e\<lparr>ev_id := Identity IK_EVENT d\<rparr>"

lemma takes_renamed:
  assumes "takes s e ev status EK_ATTEMPT_COMPLETED sp target"
    and "\<forall>x\<in>set (st_accepted s). ae_event x \<noteq> Identity IK_EVENT d"
  shows "takes s (renamed e d) ev status EK_ATTEMPT_COMPLETED sp target"
proof -
  have parts: "item_index s (renamed e d) = item_index s e" "event_tuple (renamed e d) = event_tuple e"
    "control_fields_absent (renamed e d) = control_fields_absent e"
    by (simp_all add: item_index_def event_tuple_def control_fields_absent_def)
  have "dispatch s status EK_ATTEMPT_COMPLETED (renamed e d) = dispatch s status EK_ATTEMPT_COMPLETED e"
    by (simp add: dispatch_def do_attempt_progress_def attempt_transitions_def Let_def parts split: option.split)
  moreover have "attempt_event_is_stale s EK_ATTEMPT_COMPLETED (renamed e d) =
      attempt_event_is_stale s EK_ATTEMPT_COMPLETED e"
    by (simp add: attempt_event_is_stale_def parts split: option.split)
  moreover have "inputs_ok s EK_ATTEMPT_COMPLETED e ev \<Longrightarrow> inputs_ok s EK_ATTEMPT_COMPLETED (renamed e d) ev"
    by (auto simp: inputs_ok_def event_is_valid_def authority_is_valid_def has_identity_kind_def Identity_def)
  ultimately show ?thesis using assms unfolding takes_def by simp
qed

lemma entry_fine_renamed:
  assumes "reduce s e ev = Accepted a" and "ev_kind e = Closed EK_ATTEMPT_COMPLETED" and "entry_fine (e, ev, a)"
    and "is_digest d" and "reduce s (renamed e d) ev = Accepted b" and "kernel_inv s"
  shows "entry_fine (renamed e d, ev, b)"
proof -
  from assms(1) obtain status k sp target where t: "takes s e ev status k sp target"
    and f: "finish s status k e (input_digest s e ev) sp = Accepted a" by (rule reduce_Accepted_takes)
  from assms(5) obtain status' k' sp' target' where t': "takes s (renamed e d) ev status' k' sp' target'"
    and f': "finish s status' k' (renamed e d) (input_digest s (renamed e d) ev) sp' = Accepted b"
    by (rule reduce_Accepted_takes)
  have k: "k = EK_ATTEMPT_COMPLETED" using t assms(2) by (simp add: takes_def)
  have "\<forall>x\<in>set (st_accepted s). ae_event x \<noteq> Identity IK_EVENT d" using t' by (simp add: takes_def)
  from takes_renamed [OF t [unfolded k] this] t' have same: "status' = status" "sp' = sp" "target' = target"
    using k assms(2) t by (auto simp: takes_def)
  note fa = finish_takes [OF t f] and fb = finish_takes [OF t' f', unfolded same]
  have "ascii d" using assms(4) by (rule ascii_digest)
  moreover have "d \<noteq> []" using assms(4) by (auto simp: is_digest_def)
  moreover have "is_digest (ac_result_digest b)" "is_digest (ac_input_digest b)"
    unfolding fb by (simp_all add: accepted_result_digest_def input_digest_def)
  ultimately show ?thesis
    using assms(3) unfolding entry_fine_def recorded_def
    by (simp add: entry_named_def replay_entry_json_def accepted_json_def fa fb ascii_digest state_json_def
        state_named_def event_named_def event_json_def accepted_event_json_def ball_Un named_def
        result_identity_def identity_json_def Identity_def accepted_result_digest_def input_digest_def)
qed

abbreviation scripted :: event where
  "scripted \<equiv> demo_attempt 8 EK_ATTEMPT_COMPLETED"

definition receipt_proof :: evidence where
  "receipt_proof = \<lparr>evd_id = Identity IK_EVIDENCE ''r'', evd_digest = no_digest\<rparr>"

definition running_view :: "state \<Rightarrow> bool" where
  "running_view u \<longleftrightarrow> state_named u \<and> st_installation u = st_installation demo_genesis \<and>
     st_leader_epoch u = 0 \<and> st_task u = st_task demo_genesis \<and> st_revision u = 8 \<and>
     map_option (\<lambda>c. (wi_status c, map_option at_id (wi_attempt c))) (List.find (\<lambda>c. wi_id c = item_A) (st_items u)) =
       Some (WS_RUNNING, Some (Identity IK_ATTEMPT ''a'')) \<and>
     list_all (\<lambda>x. length (id_value (ae_event x)) < 71) (st_accepted u) \<and>
     light_script u [(scripted, [receipt_proof])] \<noteq> None"

lemma running_light:
  "case light_script (forget demo_genesis) (take 8 demo_script) of None \<Rightarrow> False | Some (v, obs) \<Rightarrow> running_view v"
  by code_simp

lemma running_store:
  obtains tr s a where "holds (bridge_at (script_disk tr)) s" and "running_view (forget s)"
    and "reduce s scripted [receipt_proof] = Accepted a" and "entry_fine (scripted, [receipt_proof], a)"
proof -
  obtain v obs where v: "light_script (forget demo_genesis) (take 8 demo_script) = Some (v, obs)" "running_view v"
    using running_light by (auto split: option.splits)
  from light_script_run [OF demo_inv v(1)] obtain tr s where
    tr: "run demo_genesis tr s" "kernel_inv s" "forget s = v" "list_all entry_fine tr" by blast
  obtain w where "light_script (forget s) [(scripted, [receipt_proof])] = Some w"
    using v(2) tr(3) by (auto simp: running_view_def simp del: light_script.simps)
  then obtain u obs' where "light_script (forget s) [(scripted, [receipt_proof])] = Some (u, obs')" by (cases w) auto
  from light_script_run [OF tr(2) this] obtain tr' t where
    t: "run s tr' t" "map (\<lambda>y. (fst y, fst (snd y))) tr' = [(scripted, [receipt_proof])]" "list_all entry_fine tr'"
    by (elim exE conjE) (rule that)
  from run_inputs_Cons [OF t(1,2)] t(3) obtain a where
    a: "reduce s scripted [receipt_proof] = Accepted a" "entry_fine (scripted, [receipt_proof], a)" by (metis list.pred_inject(2))
  obtain rec where "load_recovery (script_disk tr) = Inr rec" "rp_state (rc_replay rec) = s"
    using script_store_recovers [OF tr(1,4)] by blast
  then have "holds (bridge_at (script_disk tr)) s"
    using v(2) tr(3) state_named_forget [of s] by (auto simp: holds_def bridge_at_def running_view_def)
  then show ?thesis using v(2) tr(3) a by (intro that) auto
qed

definition first_receipt :: json where
  "first_receipt = dset ''receipt_digest'' (JStr no_digest) demo_receipt"

lemma first_receipt_parts:
  "index ''work_item_id'' first_receipt = Inr (JStr ''A'')" "index ''attempt_id'' first_receipt = Inr (JStr ''a'')"
  "dget ''attempt_id'' first_receipt = JStr ''a''"
  "dget ''schema_version'' first_receipt = JStr ''valp-dispatch-receipt.v3''"
  "dget ''event'' first_receipt = JStr ''dispatch_completed''" "dget ''task_id'' first_receipt = JStr ''t''"
  "index ''receipt_id'' first_receipt = Inr (JStr ''r'')" "index ''receipt_digest'' first_receipt = Inr (JStr no_digest)"
  "index ''dispatch_id'' first_receipt = Inr (JStr ''d'')" "index ''dispatch_generation'' first_receipt = Inr (JInt 0)"
  "receipt_evidence first_receipt = Inr receipt_proof"
  "identity_of IK_WORK_ITEM (JStr ''A'') = Inr item_A" "identity_of IK_ATTEMPT (JStr ''a'') = Inr (Identity IK_ATTEMPT ''a'')"
  "identity_of IK_DISPATCH (JStr ''d'') = Inr (Identity IK_DISPATCH ''d'')"
  by code_simp+

lemma first_completion_event:
  assumes "running_view (forget s)"
  shows "\<exists>d. is_digest d \<and> completion_event ''t'' first_receipt item_A s = Inr (renamed scripted d)"
proof -
  have "st_installation s = Identity IK_INSTALLATION ''i''" "st_leader_epoch s = 0" "st_revision s = 8"
    "st_task s = Identity IK_TASK ''t''"
    using assms by (auto simp: running_view_def demo_genesis_def simp del: light_script.simps)
  then show ?thesis
    by (intro exI [of _ "digest (JObj [(''task_id'', JStr ''t''),
        (''kind'', JStr (event_kind_value EK_ATTEMPT_COMPLETED)),
        (''payload'', JObj [(''receipt_id'', JStr ''r''), (''receipt_digest'', JStr no_digest)])])"])
       (simp add: completion_event_def first_receipt_parts event_identity_def bare_event_def
        demo_attempt_def demo_event_def plain_event_def demo_genesis_def)
qed

lemma first_completion_accepted:
  assumes "holds r s" and "running_view (forget s)" and "is_digest d"
    and "reduce s scripted [receipt_proof] = Accepted a" and "entry_fine (scripted, [receipt_proof], a)"
  shows "\<exists>b. reduce s (renamed scripted d) [receipt_proof] = Accepted b \<and>
    entry_fine (renamed scripted d, [receipt_proof], b)"
proof -
  from assms(4) obtain status k sp target where t: "takes s scripted [receipt_proof] status k sp target"
    by (rule reduce_Accepted_takes)
  have kind: "ev_kind scripted = Closed EK_ATTEMPT_COMPLETED"
    by (simp add: demo_attempt_def demo_event_def plain_event_def)
  have "length d = 71" using assms(3) by (simp add: is_digest_def)
  then have "\<forall>x\<in>set (st_accepted s). ae_event x \<noteq> Identity IK_EVENT d"
    using assms(2) by (fastforce simp: running_view_def list_all_iff Identity_def)
  moreover have "k = EK_ATTEMPT_COMPLETED" using t kind by (simp add: takes_def)
  ultimately obtain b where "reduce s (renamed scripted d) [receipt_proof] = Accepted b"
    using takes_accepts takes_renamed t by blast
  then show ?thesis
    using entry_fine_renamed [OF assms(4) kind assms(5,3)] holds_valid [OF assms(1)] by blast
qed

theorem completion_recorded_and_repeatable_witness:
  "\<exists>r old j r' new. load_recovery (rt_kernel r) = Inr old \<and>
     \<not> completed_by item_A (Identity IK_ATTEMPT ''a'') (rp_state (rc_replay old)) \<and>
     record_kernel_completion ''t'' first_receipt r = (Inr j, r') \<and> load_recovery (rt_kernel r') = Inr new \<and>
     (completed_by item_A (Identity IK_ATTEMPT ''a'') (rp_state (rc_replay new)) \<and>
      record_kernel_completion ''t'' first_receipt r' = (Inr j, r'\<lparr>rt_calls := Suc (rt_calls r')\<rparr>) \<or>
      (\<exists>e x. journal_collision old e [x]))"
proof -
  obtain tr s a where s: "holds (bridge_at (script_disk tr)) s" "running_view (forget s)"
    and a: "reduce s scripted [receipt_proof] = Accepted a" "entry_fine (scripted, [receipt_proof], a)"
    by (rule running_store)
  let ?r = "bridge_at (script_disk tr)"
  obtain old where old: "load_recovery (rt_kernel ?r) = Inr old" "rp_state (rc_replay old) = s" "state_named s"
    using s(1) by (auto simp: holds_def)
  obtain d where d: "is_digest d" "completion_event ''t'' first_receipt item_A s = Inr (renamed scripted d)"
    using first_completion_event [OF s(2)] by blast
  obtain b where b: "reduce s (renamed scripted d) [receipt_proof] = Accepted b"
    "entry_fine (renamed scripted d, [receipt_proof], b)"
    using first_completion_accepted [OF s d(1) a] by blast
  let ?x = "recorded (renamed scripted d, [receipt_proof], b)"
  have "entry_named ?x" "utf8_valid (canonical_json (replay_entry_json ?x))"
    using b(2) plain_utf8 by (simp_all add: entry_fine_def)
  from append_takes_next_step [OF old(1) _ this calm_calm_env] b(1) old(2) obtain q d' where
    app: "append_entry calm_env ?x (rt_kernel ?r) = (Inr q, d')" by auto
  obtain c at where c: "List.find (\<lambda>c. wi_id c = item_A) (st_items s) = Some c" "wi_status c = WS_RUNNING"
    "wi_attempt c = Some at" using s(2) by (auto simp: running_view_def)
  have calm: "calm (rt_env q n)" if "rt_env q = rt_env ?r" for q :: runtime and n
    using that by (simp add: bridge_at_def)
  have "rt_env ?r = (\<lambda>_. calm_env)" "rt_kernel ?r = script_disk tr" by (simp_all add: bridge_at_def)
  then obtain j r' where res: "record_kernel_completion ''t'' first_receipt ?r = (Inr j, r')" "rt_env r' = rt_env ?r"
    using app b(1) c d(2)
    by (simp add: record_kernel_completion_def bind_rt_def recovered_calm [OF s(1) calm [OF refl], unfolded bind_rt_def]
        complete_from_def give_def refuse_def first_receipt_parts append_event_def store_call_def)
  have "\<not> completed_by item_A (Identity IK_ATTEMPT ''a'') (rp_state (rc_replay old))"
    using c old(2) by (simp add: completed_by_def)
  moreover have "identity_of IK_WORK_ITEM (dget ''work_item_id'' first_receipt) = Inr item_A"
    "is_str (dget ''attempt_id'' first_receipt)" "py_str (dget ''attempt_id'' first_receipt) = ''a''"
    by code_simp+
  ultimately show ?thesis
    using completion_recorded_and_repeatable [OF old(1) _ res(1)] old(1-3) res(1) calm [OF res(2)]
    by (simp only: sum.inject if_True simp_thms ex_simps) metis
qed

section \<open>Starting\<close>

definition demo_suspension :: json where
  "demo_suspension = JObj [(''suspension_id'', JStr ''s''), (''suspension_epoch'', JInt 0),
     (''wait_policy_id'', JStr ''p''), (''required_work_items'', JArr [JObj [(''work_item_id'', JStr ''A''),
       (''dispatch_id'', JStr ''d''), (''dispatch_generation'', JInt 0)]])]"

definition demo_submission :: json where
  "demo_submission = dset ''event'' (JStr ''dispatch_submitted'') demo_receipt"

text \<open>A task directory with the files a start needs.\<close>

definition ready_bridge :: "disk \<Rightarrow> runtime" where
  "ready_bridge d = (bridge_at d)\<lparr>
     rt_installation := Doc (JObj [(''installation_id'', JStr ''i''), (''active_leader_epoch'', JInt 1)]),
     rt_state := Doc (JObj [(''installation_id'', JStr ''i''), (''active_leader_epoch'', JInt 1)]),
     rt_policy := (\<lambda>_. Doc (JObj []))\<rparr>"

abbreviation demo_start :: "json rt" where
  "demo_start \<equiv> start_kernel_suspension ''t'' demo_suspension [demo_submission]"

theorem interrupted_start_cannot_be_repeated_witness:
  "\<exists>e r'. demo_start (ready_bridge (script_disk [])) = (Inl e, r') \<and>
     (\<exists>new. load_recovery (rt_kernel r') = Inr new \<and> st_suspension (rp_state (rc_replay new)) = None)"
proof -
  let ?r = "ready_bridge (script_disk [])"
  obtain old where old: "load_recovery (script_disk []) = Inr old" "rp_state (rc_replay old) = demo_genesis"
    using script_store_recovers [OF run_Nil] by auto
  obtain res r' where res: "demo_start ?r = (res, r')" by (cases "demo_start ?r")
  have "load_recovery (rt_kernel ?r) = Inr old" using old(1) by (simp add: ready_bridge_def bridge_at_def)
  from interrupted_start_cannot_be_repeated [OF this _ _ _ res] old(2) demo_genesis_named(1) res
  show ?thesis by (auto simp: demo_genesis_def)
qed

definition blank_disk :: disk where
  "blank_disk = \<lparr>dk_genesis = Absent, dk_journal = Absent, dk_checkpoint = Absent, dk_effects = Absent\<rparr>"

theorem bridge_store_recovers_witness:
  "\<exists>res r'. demo_start (ready_bridge blank_disk) = (res, r') \<and>
     (blank_store (rt_kernel r') \<or> (\<exists>rec. load_recovery (rt_kernel r') = Inr rec))"
proof -
  obtain res r' where res: "demo_start (ready_bridge blank_disk) = (res, r')"
    by (cases "demo_start (ready_bridge blank_disk)")
  have "reached (ready_bridge blank_disk)"
    by (rule fresh) (simp add: ready_bridge_def bridge_at_def blank_disk_def blank_store_def)
  from called [OF this, of "Start ''t'' demo_suspension [demo_submission]" res r'] res have "reached r'" by simp
  from bridge_store_recovers [OF this]
  have "blank_store (rt_kernel r') \<or> (\<exists>rec. load_recovery (rt_kernel r') = Inr rec)"
    by (elim disjE exE conjE) simp_all
  with res show ?thesis by (intro exI [of _ res] exI [of _ r'] conjI)
qed

end
