(* ===== verification/Ascii_Json.thy ===== *)
theory Ascii_Json
  imports Py_Values
begin

text \<open>
  \<^verbatim>\<open>json.dumps\<close> as it is without \<^verbatim>\<open>ensure_ascii=False\<close>: the text is ASCII. One form has spaces after the
  separators and one, for digests, has none.
\<close>

text \<open>
  \<^verbatim>\<open>json.dumps(value, sort_keys=True)\<close>: separators with a space, and every character outside printable
  ASCII as an escape of its UTF-16 units.
\<close>

definition hex4_str :: "int \<Rightarrow> string" where
  "hex4_str n = [backslash, CHR ''u'', hex_char (n div 4096), hex_char (n div 256), hex_char (n div 16), hex_char n]"

definition escape_point :: "int \<Rightarrow> string" where
  "escape_point n =
     (if n < 65536 then hex4_str n
      else hex4_str (55296 + (n - 65536) div 1024) @ hex4_str (56320 + (n - 65536) mod 1024))"

definition byte :: "char \<Rightarrow> int" where
  "byte c = of_char c"

definition code_point :: "string \<Rightarrow> int" where
  "code_point g =
     (case map byte g of
        [a, b] \<Rightarrow> (a mod 32) * 64 + b mod 64
      | [a, b, c] \<Rightarrow> (a mod 16) * 4096 + (b mod 64) * 64 + c mod 64
      | [a, b, c, d] \<Rightarrow> (a mod 8) * 262144 + (b mod 64) * 4096 + (c mod 64) * 64 + d mod 64
      | _ \<Rightarrow> byte (hd g))"

definition ascii_escape :: "string \<Rightarrow> string" where
  "ascii_escape g =
     (case g of
        [c] \<Rightarrow> if byte c = 127 then escape_point 127 else esc_char c
      | _ \<Rightarrow> escape_point (code_point g))"

definition ascii_quote_str :: "string \<Rightarrow> string" where
  "ascii_quote_str s = dquote # concat (map ascii_escape (utf8_chars s)) @ [dquote]"

primrec ascii_dumps :: "json \<Rightarrow> string" where
  "ascii_dumps JNull = ''null''"
| "ascii_dumps (JBool b) = (if b then ''true'' else ''false'')"
| "ascii_dumps (JInt i) = int_str i"
| "ascii_dumps (JStr s) = ascii_quote_str s"
| "ascii_dumps (JArr xs) = ''['' @ comma_spaces (map ascii_dumps xs) @ '']''"
| "ascii_dumps (JObj kvs) =
     ''{'' @ comma_spaces (map (\<lambda>(k, t). ascii_quote_str k @ '': '' @ t)
        (sort_key fst (map (map_prod id ascii_dumps) kvs))) @ ''}''"

text \<open>\<^verbatim>\<open>json.dumps(value, sort_keys=True, separators=(",", ":"))\<close>.\<close>

primrec ascii_compact :: "json \<Rightarrow> string" where
  "ascii_compact JNull = ''null''"
| "ascii_compact (JBool b) = (if b then ''true'' else ''false'')"
| "ascii_compact (JInt i) = int_str i"
| "ascii_compact (JStr s) = ascii_quote_str s"
| "ascii_compact (JArr xs) = ''['' @ commas (map ascii_compact xs) @ '']''"
| "ascii_compact (JObj kvs) =
     ''{'' @ commas (map (\<lambda>(k, t). ascii_quote_str k @ '':'' @ t)
        (sort_key fst (map (map_prod id ascii_compact) kvs))) @ ''}''"

end
