(* ===== verification/Submission.thy ===== *)
theory Submission
  imports Ascii_Json
begin

text \<open>
  \<^verbatim>\<open>src/valp_cli/submission.py\<close>: the order in which work items may be submitted. It builds the document of
  dependencies from the roles of a task, checks a ledger of dispatch receipts, and decides from the
  receipts whether a prerequisite was completed before its dependent was submitted.

  Receipts and documents are JSON objects. Membership of a value in a set raises for lists and
  objects, and iteration raises for numbers; these raises are kept. The files of the task directory
  are an argument: \<open>present ref\<close> says that \<open>ref\<close> resolves inside the directory to a file that is not
  empty.
\<close>

section \<open>Constants and text\<close>

definition INVALID_EVIDENCE_STATUSES :: "string list" where
  "INVALID_EVIDENCE_STATUSES = [''invalid'', ''superseded'', ''rejected'', ''blocked'']"

definition ORDERING_SOURCE :: string where
  "ORDERING_SOURCE = ''dispatch-receipts.jsonl#line-order''"

definition ROLE_ORDER :: "string list" where
  "ROLE_ORDER = [''coordinator'', ''implementer'', ''researcher'', ''prototype'', ''reviewer'', ''other'']"

definition TERMINAL_RECEIPT_EVENTS :: "string list" where
  "TERMINAL_RECEIPT_EVENTS =
     [''dispatch_completed'', ''dispatch_blocked'', ''manual_result_attested'', ''manual_blocked'']"

definition NON_RUNTIME_PROOF_TERMS :: "string list" where
  "NON_RUNTIME_PROOF_TERMS =
     [''dry_run'', ''dry-run'', ''simulation'', ''simulated'', ''subagent'', ''sub-agent'', ''manual_attestation'']"

definition deterministic_schemas :: "string list" where
  "deterministic_schemas = [''valp-dispatch-receipt.v2'', ''valp-dispatch-receipt.v3'']"

text \<open>
  \<^verbatim>\<open>text.lower()\<close>, as far as it yields ASCII: the Kelvin sign becomes the letter k and the capital I with
  a dot becomes the letter i and a combining dot. The other letters outside ASCII keep their case here;
  neither case of theirs is ASCII, and every test on the result compares it with ASCII text.
\<close>

definition lower_char :: "char \<Rightarrow> char" where
  "lower_char c = (let n = (of_char c :: nat) in if 65 \<le> n \<and> n \<le> 90 then char_of (n + 32) else c)"

fun lower :: "string \<Rightarrow> string" where
  "lower [] = []"
| "lower (c # cs) =
     (if c = CHR 0xE2 \<and> take 2 cs = [CHR 0x84, CHR 0xAA] then CHR ''k'' # lower (drop 2 cs)
      else if c = CHR 0xC4 \<and> take 1 cs = [CHR 0xB0] then [CHR ''i'', CHR 0xCC, CHR 0x87] @ lower (drop 1 cs)
      else lower_char c # lower cs)"

definition ends_with :: "string \<Rightarrow> string \<Rightarrow> bool" where
  "ends_with suffix s \<longleftrightarrow> length suffix \<le> length s \<and> drop (length s - length suffix) s = suffix"

fun contains :: "string \<Rightarrow> string \<Rightarrow> bool" where
  "contains sub [] = (sub = [])"
| "contains sub (c # cs) = (take (length sub) (c # cs) = sub \<or> contains sub cs)"

text \<open>\<^verbatim>\<open>{str(ref) for ref in value or []}\<close>.\<close>

definition str_set :: "json \<Rightarrow> string list res" where
  "str_set v = bind_res (py_list (py_or v (JArr []))) (\<lambda>xs. Inr (map py_str xs))"

definition get_str :: "string \<Rightarrow> json \<Rightarrow> string" where
  "get_str k v = py_str (py_or (dget k v) (JStr []))"

section \<open>Proof of submission\<close>

definition identity_key :: "string \<Rightarrow> bool" where
  "identity_key raw \<longleftrightarrow>
     (let k = lower raw in k = ''id'' \<or> k = ''ref'' \<or> ends_with ''_id'' k \<or> ends_with ''_ref'' k)"

definition meaningful :: "json \<Rightarrow> bool" where
  "meaningful v \<longleftrightarrow> (case v of JStr s \<Rightarrow> \<not> only_space s | _ \<Rightarrow> False)"

fun proof_contains_concrete_signal :: "json \<Rightarrow> bool" where
  "proof_contains_concrete_signal (JObj kvs) =
     (\<exists>(k, v)\<in>set kvs.
        identity_key k \<and> meaningful v \<or>
        (case v of
           JObj _ \<Rightarrow> proof_contains_concrete_signal v
         | JArr xs \<Rightarrow> (\<exists>x\<in>set xs. is_obj x \<and> proof_contains_concrete_signal x)
         | _ \<Rightarrow> False))"
| "proof_contains_concrete_signal _ = False"

text \<open>The kinds of a set of bindings: every value of \<^verbatim>\<open>proof_kind\<close> must be hashable.\<close>

definition binding_kinds :: "json \<Rightarrow> json list res" where
  "binding_kinds v =
     bind_res (py_list (py_or v (JArr []))) (\<lambda>xs.
       let kinds = map (dget ''proof_kind'') (filter is_obj xs) in
       if list_all hashable kinds then Inr kinds else Inl (TypeError ''unhashable type''))"

definition has_concrete_runtime_submission_proof :: "json \<Rightarrow> bool res" where
  "has_concrete_runtime_submission_proof receipt =
     (if \<not> py_eq (dget ''event'' receipt) (JStr ''dispatch_submitted'') then Inr False
      else if py_eq (dget ''schema_version'' receipt) (JStr ''valp-dispatch-receipt.v3'')
      then bind_res (binding_kinds (dget ''proof_bindings'' receipt)) (\<lambda>kinds.
             Inr (JStr ''process_bound'' \<in> set kinds \<and> JStr ''content_bound'' \<in> set kinds \<and>
                  JStr ''transport_only'' \<notin> set kinds))
      else
        let prf = dget ''proof'' receipt in
        if \<not> is_obj prf \<or> \<not> truthy prf then Inr False
        else Inr (\<not> list_ex (\<lambda>term. contains term (lower (ascii_dumps prf))) NON_RUNTIME_PROOF_TERMS \<and>
                  proof_contains_concrete_signal prf))"

section \<open>The receipt ledger\<close>

definition line_error :: "nat \<Rightarrow> string \<Rightarrow> string" where
  "line_error n msg = ''line '' @ nat_str n @ '' '' @ msg"

text \<open>The tests of one receipt after its identity, and the sequence number the next one must exceed.\<close>

definition receipt_errors :: "string \<Rightarrow> nat \<Rightarrow> int \<Rightarrow> json \<Rightarrow> (string list \<times> int) res" where
  "receipt_errors task_id n previous r =
     (let sequence = dget ''event_sequence'' r; epoch = dget ''suspension_epoch'' r;
          retry = dget ''retry_generation'' r; rv = dget ''ledger_revision'' r;
          e1 = (if task_id \<noteq> [] \<and> \<not> py_eq (dget ''task_id'' r) (JStr task_id)
                then [line_error n ''belongs to a different task''] else []);
          (e2, following) =
            (if \<not> is_int_from 1 (Some sequence) then ([line_error n ''has an invalid event_sequence''], previous)
             else if \<not> is_int_from (previous + 1) (Some sequence)
             then ([line_error n ''event_sequence is not strictly increasing''], previous)
             else ([], case sequence of JInt i \<Rightarrow> i | _ \<Rightarrow> previous));
          e3 = (if py_eq (dget ''schema_version'' r) (JStr ''valp-dispatch-receipt.v3'') \<and>
                   (\<not> is_int rv \<or> \<not> py_eq rv sequence)
                then [line_error n ''has an invalid v3 ledger_revision''] else []);
          e4 = (if \<not> is_int_from 1 (Some (dget ''dispatch_generation'' r))
                then [line_error n ''has an invalid dispatch_generation''] else []);
          e5 = (if retry \<noteq> JNull \<and> \<not> is_int_from 1 (Some retry)
                then [line_error n ''has an invalid retry_generation''] else []);
          e6 = (if epoch \<noteq> JNull \<and> \<not> is_int_from 1 (Some epoch)
                then [line_error n ''has an invalid suspension_epoch''] else [])
      in bind_res (str_member (jget ''event'' r) TERMINAL_RECEIPT_EVENTS) (\<lambda>terminal.
           let e7 = (if terminal \<and> \<not> is_int epoch
                     then [line_error n ''terminal receipt is missing a valid suspension_epoch''] else [])
           in Inr (e1 @ e2 @ e3 @ e4 @ e5 @ e6 @ e7, following)))"

fun ledger_errors_loop :: "string \<Rightarrow> nat \<Rightarrow> (string \<times> json) list \<Rightarrow> int \<Rightarrow> json list \<Rightarrow> string list res" where
  "ledger_errors_loop task_id n seen previous [] = Inr []"
| "ledger_errors_loop task_id n seen previous (r # rs) =
     bind_res (str_member (jget ''schema_version'' r) deterministic_schemas) (\<lambda>deterministic.
       if \<not> deterministic then ledger_errors_loop task_id (Suc n) seen previous rs
       else if is_nonempty_str (jget ''receipt_id'' r) \<and> map_of seen (get_str ''receipt_id'' r) \<noteq> None
       then bind_res (ledger_errors_loop task_id (Suc n) seen previous rs) (\<lambda>es.
              Inr ((if py_eq r (the (map_of seen (get_str ''receipt_id'' r))) then []
                    else [line_error n (''has a conflicting duplicate receipt_id '' @ get_str ''receipt_id'' r)]) @ es))
       else bind_res (receipt_errors task_id n previous r) (\<lambda>(es, following).
            bind_res (ledger_errors_loop task_id (Suc n)
                (if is_nonempty_str (jget ''receipt_id'' r) then (get_str ''receipt_id'' r, r) # seen else seen)
                following rs) (\<lambda>es'.
              Inr ((if is_nonempty_str (jget ''receipt_id'' r) then []
                    else [line_error n ''has an invalid receipt_id'']) @ es @ es'))))"

text \<open>The versions of the deterministic receipts, in the order of the ledger.\<close>

fun deterministic_versions :: "json list \<Rightarrow> string list res" where
  "deterministic_versions [] = Inr []"
| "deterministic_versions (r # rs) =
     bind_res (str_member (jget ''schema_version'' r) deterministic_schemas) (\<lambda>b.
     bind_res (deterministic_versions rs) (\<lambda>vs.
       Inr ((if b then [py_str (dget ''schema_version'' r)] else []) @ vs)))"

definition deterministic_receipt_ledger_errors :: "json list \<Rightarrow> string \<Rightarrow> string list res" where
  "deterministic_receipt_ledger_errors receipts task_id =
     bind_res (deterministic_versions receipts) (\<lambda>vs.
     bind_res (ledger_errors_loop task_id 1 [] 0 receipts) (\<lambda>es.
       Inr ((if length (remdups vs) > 1 then [''deterministic receipt ledger mixes v2 and v3 schemas''] else []) @ es)))"

section \<open>The dependencies of a task\<close>

type_synonym assignments = "(string \<times> string) list"

definition agent_ref :: "string \<Rightarrow> string \<Rightarrow> string" where
  "agent_ref agent file = ''agents/'' @ agent @ ''/'' @ file"

definition role_expected_refs :: "string \<Rightarrow> string \<Rightarrow> string list" where
  "role_expected_refs agent role =
     (case map_of [(''coordinator'', [agent_ref agent ''self-review.md'']),
                   (''implementer'', [agent_ref agent ''evidence.md'', ''evidence/verification.md'']),
                   (''researcher'', [agent_ref agent ''evidence.md'']),
                   (''prototype'', [agent_ref agent ''prototype.md'']),
                   (''reviewer'', [agent_ref agent ''review.md''])] role of
        Some refs \<Rightarrow> refs
      | None \<Rightarrow> [agent_ref agent ''evidence.md''])"

definition roles_for_agent :: "assignments \<Rightarrow> string \<Rightarrow> string list" where
  "roles_for_agent ra agent =
     (let roles = filter (\<lambda>r. map_of ra r = Some agent) ROLE_ORDER in if roles = [] then [''other''] else roles)"

definition work_item_key :: "string \<Rightarrow> string \<Rightarrow> string" where
  "work_item_key agent role = role @ '':'' @ agent"

definition work_item_identity :: "string \<Rightarrow> string \<Rightarrow> string \<Rightarrow> json" where
  "work_item_identity task_id agent role =
     JObj [(''work_item_id'', JStr (work_item_key agent role)), (''agent'', JStr agent), (''role'', JStr role),
           (''dispatch_id'', JStr (task_id @ '':'' @ role @ '':1'')), (''dispatch_generation'', JInt 1),
           (''expected_refs'', JArr (map JStr (role_expected_refs agent role)))]"

definition dependency_work_items :: "string \<Rightarrow> assignments \<Rightarrow> json list" where
  "dependency_work_items task_id ra =
     concat (map (\<lambda>role. case map_of ra role of
                      None \<Rightarrow> []
                    | Some agent \<Rightarrow> [work_item_identity task_id agent role]) ROLE_ORDER)"

record edge =
  eg_prerequisite_role :: string
  eg_prerequisite_agent :: string
  eg_dependent_role :: string
  eg_dependent_agent :: string

definition edge_entries :: "edge \<Rightarrow> (string \<times> json) list" where
  "edge_entries e =
     [(''prerequisite_role'', JStr (eg_prerequisite_role e)),
      (''prerequisite_agent'', JStr (eg_prerequisite_agent e)),
      (''dependent_role'', JStr (eg_dependent_role e)),
      (''dependent_agent'', JStr (eg_dependent_agent e)),
      (''prerequisite_refs'',
         JArr (map JStr (role_expected_refs (eg_prerequisite_agent e) (eg_prerequisite_role e))))]"

text \<open>\<^verbatim>\<open>role_assignments.get(role)\<close> where an empty agent counts as none.\<close>

definition assigned :: "assignments \<Rightarrow> string \<Rightarrow> string option" where
  "assigned ra role = (case map_of ra role of Some agent \<Rightarrow> if agent = [] then None else Some agent | None \<Rightarrow> None)"

definition producers :: "assignments \<Rightarrow> (string \<times> string) list" where
  "producers ra =
     concat (map (\<lambda>role. case assigned ra role of None \<Rightarrow> [] | Some agent \<Rightarrow> [(role, agent)])
       [''implementer'', ''researcher'', ''prototype''])"

definition dependency_edges :: "assignments \<Rightarrow> edge list" where
  "dependency_edges ra =
     (let coordinator = assigned ra ''coordinator'' in
      (case coordinator of
         None \<Rightarrow> []
       | Some c \<Rightarrow> map (\<lambda>(role, agent). \<lparr>eg_prerequisite_role = ''coordinator'', eg_prerequisite_agent = c,
                       eg_dependent_role = role, eg_dependent_agent = agent\<rparr>) (producers ra)) @
      (case assigned ra ''reviewer'' of
         None \<Rightarrow> []
       | Some reviewer \<Rightarrow>
           map (\<lambda>(role, agent). \<lparr>eg_prerequisite_role = role, eg_prerequisite_agent = agent,
                  eg_dependent_role = ''reviewer'', eg_dependent_agent = reviewer\<rparr>)
             (if producers ra \<noteq> [] then producers ra
              else case coordinator of None \<Rightarrow> [] | Some c \<Rightarrow> [(''coordinator'', c)])))"

definition edge_id :: "edge \<Rightarrow> string" where
  "edge_id e = eg_prerequisite_role e @ ''-before-'' @ eg_dependent_role e"

definition dependent_refs_json :: "edge \<Rightarrow> json" where
  "dependent_refs_json e = JArr (map JStr (role_expected_refs (eg_dependent_agent e) (eg_dependent_role e)))"

text \<open>\<^verbatim>\<open>work_item_by_role[role]\<close>: a later item of the same role would replace an earlier one.\<close>

definition item_of_role :: "json list \<Rightarrow> string \<Rightarrow> json res" where
  "item_of_role items role =
     (case map_of (rev (map (\<lambda>w. (py_str (dget ''role'' w), w)) items)) role of
        Some w \<Rightarrow> Inr w
      | None \<Rightarrow> Inl (KeyError role))"

definition dependency_entry :: "json list \<Rightarrow> edge \<Rightarrow> json res" where
  "dependency_entry items e =
     bind_res (item_of_role items (eg_prerequisite_role e)) (\<lambda>p.
     bind_res (item_of_role items (eg_dependent_role e)) (\<lambda>d.
       Inr (JObj ((''id'', JStr (edge_id e)) # edge_entries e @
         [(''prerequisite_work_item_id'', dget ''work_item_id'' p),
          (''prerequisite_dispatch_generation'', dget ''dispatch_generation'' p),
          (''dependent_work_item_id'', dget ''work_item_id'' d),
          (''dependent_dispatch_generation'', dget ''dispatch_generation'' d),
          (''dependent_refs'', dependent_refs_json e)]))))"

primrec all_res :: "('a \<Rightarrow> 'b res) \<Rightarrow> 'a list \<Rightarrow> 'b list res" where
  "all_res f [] = Inr []"
| "all_res f (x # xs) = bind_res (f x) (\<lambda>y. bind_res (all_res f xs) (\<lambda>ys. Inr (y # ys)))"

definition build_submission_dependencies :: "string \<Rightarrow> assignments \<Rightarrow> json res" where
  "build_submission_dependencies task_id ra =
     (let items = dependency_work_items task_id ra in
      bind_res (all_res (dependency_entry items) (dependency_edges ra)) (\<lambda>deps.
        Inr (JObj [(''schema_version'', JStr ''valp-submission-dependencies.v2''), (''task_id'', JStr task_id),
                   (''ordering_source'', JStr ORDERING_SOURCE), (''work_items'', JArr items),
                   (''dependencies'', JArr deps)])))"

definition build_legacy_submission_dependencies :: "string \<Rightarrow> assignments \<Rightarrow> json" where
  "build_legacy_submission_dependencies task_id ra =
     JObj [(''schema_version'', JStr ''valp-submission-dependencies.v1''), (''task_id'', JStr task_id),
           (''ordering_source'', JStr ORDERING_SOURCE),
           (''dependencies'', JArr (map (\<lambda>e. JObj ((''id'', JStr (edge_id e)) # edge_entries e @
              [(''dependent_refs'', dependent_refs_json e)])) (dependency_edges ra)))]"

definition validate_submission_dependencies :: "json \<Rightarrow> string \<Rightarrow> assignments \<Rightarrow> string list res" where
  "validate_submission_dependencies document task_id ra =
     (if \<not> truthy document then Inr [''missing submission-dependencies.json'']
      else
        bind_res (if py_eq (dget ''schema_version'' document) (JStr ''valp-submission-dependencies.v1'')
                  then Inr (build_legacy_submission_dependencies task_id ra)
                  else build_submission_dependencies task_id ra) (\<lambda>expected.
          let e1 = (if set (keys document) \<noteq> set (keys expected)
                    then [''submission dependency artifact has unexpected or missing top-level fields''] else []);
              e2 = concat (map (\<lambda>k. if py_eq (dget k document) (dget k expected) then []
                       else [''submission dependency '' @ k @ '' does not match the routed task''])
                     [''schema_version'', ''task_id'', ''ordering_source'']);
              e3 = (if py_eq (dget ''schema_version'' expected) (JStr ''valp-submission-dependencies.v2'')
                    then (case dget ''work_items'' document of
                            JArr xs \<Rightarrow> if py_eq (JArr xs) (dget ''work_items'' expected) then []
                              else [''submission dependency work items do not match current role assignments and required refs'']
                          | _ \<Rightarrow> [''submission dependency work item list is missing or invalid''])
                    else [])
          in case dget ''dependencies'' document of
               JArr deps \<Rightarrow>
                 let ids = map (\<lambda>d. py_str (dget ''id'' d)) (filter is_obj deps) in
                 Inr (e1 @ e2 @ e3 @
                   (if distinct ids then [] else [''submission dependency ids must be unique'']) @
                   (if py_eq (JArr deps) (dget ''dependencies'' expected) then []
                    else [''submission dependencies do not match current role assignments and required refs'']))
             | _ \<Rightarrow> Inr (e1 @ e2 @ e3 @ [''submission dependency list is missing or invalid''])))"

section \<open>Evidence\<close>

text \<open>\<^verbatim>\<open>".." not in PurePosixPath(ref).parts\<close> with the other tests; a relative path is not absolute.\<close>

definition safe_task_ref :: "string \<Rightarrow> bool" where
  "safe_task_ref ref \<longleftrightarrow>
     ref \<noteq> [] \<and> hd ref \<noteq> CHR ''/'' \<and> backslash \<notin> set ref \<and> CHR 10 \<notin> set ref \<and> CHR 13 \<notin> set ref \<and>
     ''..'' \<notin> set (path_parts ref)"

definition evidence_status_value :: "json \<Rightarrow> string \<Rightarrow> string" where
  "evidence_status_value evidence_status ref =
     (let records = py_or (py_or (dget ''evidence'' evidence_status) (dget ''items'' evidence_status)) (JObj []) in
      if \<not> is_obj records then ''valid''
      else
        let rcd = py_or (dget ref records) (JObj []);
            status = (if is_obj rcd then dget ''status'' rcd else rcd)
        in lower (py_str (py_or status (JStr ''valid''))))"

definition valid_evidence_ref :: "(string \<Rightarrow> bool) \<Rightarrow> json \<Rightarrow> string \<Rightarrow> bool" where
  "valid_evidence_ref present evidence_status ref \<longleftrightarrow>
     safe_task_ref ref \<and> present ref \<and>
     evidence_status_value evidence_status ref \<notin> set INVALID_EVIDENCE_STATUSES"

section \<open>Receipts that match\<close>

definition known :: "json option \<Rightarrow> bool" where
  "known identity \<longleftrightarrow> (case identity of None \<Rightarrow> False | Some i \<Rightarrow> truthy i)"

definition starts_with :: "string \<Rightarrow> string \<Rightarrow> bool" where
  "starts_with prefix s \<longleftrightarrow> take (length prefix) s = prefix"

text \<open>The six fields an identity fixes.\<close>

definition same_dispatch :: "string \<Rightarrow> json \<Rightarrow> json \<Rightarrow> bool" where
  "same_dispatch task_id identity receipt \<longleftrightarrow>
     py_eq (dget ''task_id'' receipt) (JStr task_id) \<and>
     list_all (\<lambda>k. py_eq (dget k receipt) (dget k identity))
       [''agent'', ''role'', ''work_item_id'', ''dispatch_id'', ''dispatch_generation'']"

definition receipt_matches ::
  "json \<Rightarrow> string \<Rightarrow> string list \<Rightarrow> string \<Rightarrow> json option \<Rightarrow> bool \<Rightarrow> bool res" where
  "receipt_matches receipt event required_refs task_id identity strict =
     (if \<not> py_eq (dget ''event'' receipt) (JStr event) then Inr False
      else bind_res (str_set (dget ''expected_refs'' receipt)) (\<lambda>receipt_refs.
        if \<not> set required_refs \<subseteq> set receipt_refs then Inr False
        else if \<not> strict
        then Inr (if known identity \<and> starts_with ''manual_'' (get_str ''event'' receipt)
                  then py_eq (dget ''agent'' receipt) (dget ''agent'' (the identity)) \<and>
                       py_eq (dget ''role'' receipt) (dget ''role'' (the identity))
                  else True)
        else bind_res (str_member (jget ''schema_version'' receipt) deterministic_schemas) (\<lambda>b.
          Inr (b \<and> known identity \<and> same_dispatch task_id (the identity) receipt))))"

definition dependency_work_item :: "json \<Rightarrow> string \<Rightarrow> json option res" where
  "dependency_work_item document work_item_id =
     bind_res (py_list (py_or (dget ''work_items'' document) (JArr []))) (\<lambda>xs.
       Inr (List.find (\<lambda>x. is_obj x \<and> py_eq (dget ''work_item_id'' x) (JStr work_item_id)) xs))"

text \<open>A loop that keeps the last receipt that passes a test; the empty object stands for none.\<close>

fun last_passing :: "(json \<Rightarrow> bool res) \<Rightarrow> json \<Rightarrow> json list \<Rightarrow> json res" where
  "last_passing test latest [] = Inr latest"
| "last_passing test latest (r # rs) =
     bind_res (test r) (\<lambda>b. last_passing test (if b then r else latest) rs)"

definition latest_terminal_receipt ::
  "json list \<Rightarrow> string \<Rightarrow> string list \<Rightarrow> string \<Rightarrow> json option \<Rightarrow> bool \<Rightarrow> json res" where
  "latest_terminal_receipt receipts agent required_refs task_id identity strict =
     last_passing (\<lambda>r.
       if \<not> py_eq (dget ''agent'' r) (JStr agent) then Inr False
       else bind_res (str_member (jget ''event'' r) TERMINAL_RECEIPT_EVENTS) (\<lambda>b.
         if \<not> b then Inr False
         else receipt_matches r (get_str ''event'' r) required_refs task_id identity strict)) (JObj []) receipts"

section \<open>Corrected evidence\<close>

definition correction_fixed :: "json \<Rightarrow> string \<Rightarrow> bool" where
  "correction_fixed cycle task_id \<longleftrightarrow>
     py_eq (dget ''schema_version'' cycle) (JStr ''valp-correction-cycle.v1'') \<and>
     py_eq (dget ''task_id'' cycle) (JStr task_id) \<and> py_eq (dget ''status'' cycle) (JStr ''fixed'') \<and>
     py_eq (dget ''final_outcome'' cycle) (JStr ''fixed'')"

text \<open>The refs of a round under three keys, read only as far as the comprehension reads them.\<close>

definition binding_round :: "string list \<Rightarrow> json \<Rightarrow> bool res" where
  "binding_round required_refs x =
     (if \<not> is_obj x \<or> \<not> py_eq (dget ''status'' x) (JStr ''fixed'') \<or>
         \<not> py_eq (dget ''trigger'' x) (JStr ''evidence_superseded'')
      then Inr False
      else bind_res (str_set (dget ''rejected_refs'' x)) (\<lambda>rejected.
        if \<not> set required_refs \<subseteq> set rejected then Inr False
        else bind_res (str_set (dget ''receipt_refs'' x)) (\<lambda>refs.
          Inr (''dispatch-receipts.jsonl'' \<in> set refs))))"

primrec filter_res :: "('a \<Rightarrow> bool res) \<Rightarrow> 'a list \<Rightarrow> 'a list res" where
  "filter_res p [] = Inr []"
| "filter_res p (x # xs) =
     bind_res (p x) (\<lambda>b. bind_res (filter_res p xs) (\<lambda>ys. Inr (if b then x # ys else ys)))"

text \<open>\<^verbatim>\<open>any(refs.issubset(...) for round in rounds)\<close>, which stops at the first.\<close>

fun covered_by_round :: "string list \<Rightarrow> json list \<Rightarrow> bool res" where
  "covered_by_round refs [] = Inr False"
| "covered_by_round refs (x # xs) =
     bind_res (str_set (dget ''evidence_refs'' x)) (\<lambda>es.
       if set refs \<subseteq> set es then Inr True else covered_by_round refs xs)"

definition replacement_candidate :: "string \<Rightarrow> string \<Rightarrow> json \<Rightarrow> int \<Rightarrow> json \<Rightarrow> int option res" where
  "replacement_candidate agent task_id identity requested r =
     (if \<not> py_eq (dget ''schema_version'' r) (JStr ''valp-dispatch-receipt.v2'') \<or>
         \<not> py_eq (dget ''task_id'' r) (JStr task_id) \<or> \<not> py_eq (dget ''agent'' r) (JStr agent) \<or>
         \<not> list_all (\<lambda>k. py_eq (dget k r) (dget k identity)) [''agent'', ''role'', ''work_item_id'']
      then Inr None
      else bind_res (str_member (jget ''event'' r) TERMINAL_RECEIPT_EVENTS) (\<lambda>b.
        case dget ''dispatch_generation'' r of
          JInt g \<Rightarrow>
            Inr (if b \<and> requested < g \<and> is_nonempty_str (jget ''dispatch_id'' r) \<and>
                    \<not> py_eq (dget ''dispatch_id'' r) (dget ''dispatch_id'' identity)
                 then Some g else None)
        | _ \<Rightarrow> Inr None))"

fun replacements ::
  "(json \<Rightarrow> int option res) \<Rightarrow> (json \<Rightarrow> bool res) \<Rightarrow> nat \<Rightarrow> json list \<Rightarrow> (int \<times> nat \<times> json) list res" where
  "replacements candidate fit i [] = Inr []"
| "replacements candidate fit i (r # rs) =
     bind_res (candidate r) (\<lambda>g.
     bind_res (case g of None \<Rightarrow> Inr False | Some _ \<Rightarrow> fit r) (\<lambda>ok.
     bind_res (replacements candidate fit (Suc i) rs) (\<lambda>xs.
       Inr (if ok then (the g, i, r) # xs else xs))))"

text \<open>The last replacement of each generation, and of those for the event the one with the greatest generation.\<close>

fun latest_by_generation :: "(int \<times> nat \<times> json) list \<Rightarrow> (int \<times> nat \<times> json) list" where
  "latest_by_generation [] = []"
| "latest_by_generation ((g, x) # xs) =
     (if g \<in> fst ` set xs then latest_by_generation xs else (g, x) # latest_by_generation xs)"

fun greatest :: "int \<times> nat \<times> json \<Rightarrow> (int \<times> nat \<times> json) list \<Rightarrow> json" where
  "greatest best [] = snd (snd best)"
| "greatest best (x # xs) =
     greatest (if fst best < fst x \<or> fst best = fst x \<and> fst (snd best) < fst (snd x) then x else best) xs"

definition latest_fixed_correction_receipt ::
  "json list \<Rightarrow> string \<Rightarrow> string \<Rightarrow> string list \<Rightarrow> (string \<Rightarrow> bool) \<Rightarrow> json \<Rightarrow> json \<Rightarrow> string \<Rightarrow> json \<Rightarrow> json res" where
  "latest_fixed_correction_receipt receipts agent event required_refs present evidence_status cycle task_id identity =
     (if \<not> correction_fixed cycle task_id then Inr (JObj [])
      else if required_refs = [] \<or>
              \<not> list_all (\<lambda>ref. evidence_status_value evidence_status ref = ''superseded'') required_refs
      then Inr (JObj [])
      else bind_res (str_set (dget ''final_evidence_refs'' cycle)) (\<lambda>final_refs.
           bind_res (py_list (py_or (dget ''rounds'' cycle) (JArr []))) (\<lambda>xs.
           bind_res (filter_res (binding_round required_refs) xs) (\<lambda>rounds.
             if rounds = [] then Inr (JObj [])
             else case dget ''dispatch_generation'' identity of
               JInt requested \<Rightarrow>
                 bind_res (replacements (replacement_candidate agent task_id identity requested)
                   (\<lambda>r. bind_res (str_set (dget ''expected_refs'' r)) (\<lambda>refs.
                      if refs = [] \<or> \<not> set refs \<subseteq> set final_refs then Inr False
                      else bind_res (covered_by_round refs rounds) (\<lambda>b.
                        Inr (b \<and> list_all (valid_evidence_ref present evidence_status) refs)))) 0 receipts) (\<lambda>found.
                 let candidates = filter (\<lambda>(g, i, r). py_eq (dget ''event'' r) (JStr event)) (latest_by_generation found)
                 in Inr (case candidates of [] \<Rightarrow> JObj [] | x # xs \<Rightarrow> greatest x xs))
             | _ \<Rightarrow> Inr (JObj [])))))"

definition latest_qualifying_prerequisite_receipt ::
  "json list \<Rightarrow> string \<Rightarrow> string list \<Rightarrow> string \<Rightarrow> (string \<Rightarrow> bool) \<Rightarrow> json \<Rightarrow> json \<Rightarrow> string \<Rightarrow> json option \<Rightarrow>
     bool \<Rightarrow> json res" where
  "latest_qualifying_prerequisite_receipt receipts agent required_refs event present evidence_status cycle task_id
     identity strict =
     bind_res (latest_terminal_receipt receipts agent required_refs task_id identity strict) (\<lambda>latest.
     bind_res (receipt_matches latest event required_refs task_id identity strict) (\<lambda>b.
       if b \<and> list_all (valid_evidence_ref present evidence_status) required_refs then Inr latest
       else if \<not> strict \<or> \<not> known identity then Inr (JObj [])
       else latest_fixed_correction_receipt receipts agent event required_refs present evidence_status cycle task_id
              (the identity)))"

section \<open>Order\<close>

definition strict_document :: "json \<Rightarrow> bool \<Rightarrow> bool" where
  "strict_document document manual_mode \<longleftrightarrow>
     py_eq (dget ''schema_version'' document) (JStr ''valp-submission-dependencies.v2'') \<and> \<not> manual_mode"

definition prerequisite_event :: "bool \<Rightarrow> string" where
  "prerequisite_event manual_mode = (if manual_mode then ''manual_result_attested'' else ''dispatch_completed'')"

definition dependent_event :: "bool \<Rightarrow> string" where
  "dependent_event manual_mode = (if manual_mode then ''manual_delivery_attested'' else ''dispatch_submitted'')"

text \<open>The prerequisite of a dependency, among the given receipts.\<close>

definition prerequisite_receipt ::
  "json \<Rightarrow> json \<Rightarrow> json list \<Rightarrow> string list \<Rightarrow> (string \<Rightarrow> bool) \<Rightarrow> json \<Rightarrow> json \<Rightarrow> bool \<Rightarrow> json option \<Rightarrow> json res" where
  "prerequisite_receipt document dependency receipts refs present evidence_status cycle manual_mode identity =
     latest_qualifying_prerequisite_receipt receipts (get_str ''prerequisite_agent'' dependency) refs
       (prerequisite_event manual_mode) present evidence_status cycle (get_str ''task_id'' document) identity
       (strict_document document manual_mode)"

fun unmet_dependencies_loop ::
  "json \<Rightarrow> (string \<times> string) list \<Rightarrow> json list \<Rightarrow> (string \<Rightarrow> bool) \<Rightarrow> json \<Rightarrow> bool \<Rightarrow> json \<Rightarrow> json list \<Rightarrow> string list res" where
  "unmet_dependencies_loop document phases receipts present evidence_status manual_mode cycle [] = Inr []"
| "unmet_dependencies_loop document phases receipts present evidence_status manual_mode cycle (d # ds) =
     (let rest = unmet_dependencies_loop document phases receipts present evidence_status manual_mode cycle ds in
      if \<not> is_obj d then bind_res rest (\<lambda>es. Inr (''invalid dependency entry'' # es))
      else if (get_str ''dependent_agent'' d, get_str ''dependent_role'' d) \<notin> set phases then rest
      else bind_res (str_set (dget ''prerequisite_refs'' d)) (\<lambda>refs.
           bind_res (dependency_work_item document (get_str ''prerequisite_work_item_id'' d)) (\<lambda>identity.
           bind_res (prerequisite_receipt document d receipts refs present evidence_status cycle manual_mode identity)
             (\<lambda>latest.
           bind_res rest (\<lambda>es.
             Inr (if truthy latest then es
                  else (py_str (py_or (dget ''id'' d) (JStr ''unknown'')) @ '' completion receipt'') # es))))))"

definition unmet_dependencies_for_phases ::
  "json \<Rightarrow> (string \<times> string) list \<Rightarrow> json list \<Rightarrow> (string \<Rightarrow> bool) \<Rightarrow> json \<Rightarrow> bool \<Rightarrow> json \<Rightarrow> string list res" where
  "unmet_dependencies_for_phases document phases receipts present evidence_status manual_mode cycle =
     bind_res (py_list (py_or (dget ''dependencies'' document) (JArr [])))
       (unmet_dependencies_loop document phases receipts present evidence_status manual_mode cycle)"

text \<open>\<^verbatim>\<open>f"{dependency.get('id', 'unknown')}"\<close>.\<close>

definition dependency_name :: "json \<Rightarrow> string" where
  "dependency_name d = (case jget ''id'' d of None \<Rightarrow> ''unknown'' | Some v \<Rightarrow> py_str v)"

text \<open>The receipts of one dependency: those before the current one, and the rest with the current one first.\<close>

fun order_errors_loop ::
  "json \<Rightarrow> json \<Rightarrow> string list \<Rightarrow> string list \<Rightarrow> (string \<Rightarrow> bool) \<Rightarrow> json \<Rightarrow> bool \<Rightarrow> json \<Rightarrow> json option \<Rightarrow> json option \<Rightarrow>
     json list \<Rightarrow> json list \<Rightarrow> string list res" where
  "order_errors_loop document d prefs drefs present evidence_status manual_mode cycle pid did before [] = Inr []"
| "order_errors_loop document d prefs drefs present evidence_status manual_mode cycle pid did before (r # rs) =
     (let strict = strict_document document manual_mode;
          line = nat_str (Suc (length before));
          rest = order_errors_loop document d prefs drefs present evidence_status manual_mode cycle pid did (before @ [r]) rs
      in bind_res (if strict then str_member (jget ''schema_version'' r) deterministic_schemas else Inr True) (\<lambda>counts.
         if \<not> counts \<or> \<not> py_eq (dget ''agent'' r) (dget ''dependent_agent'' d) then rest
         else bind_res (receipt_matches r (dependent_event manual_mode) drefs [] None False) (\<lambda>b.
           if \<not> b then rest
           else bind_res (receipt_matches r (dependent_event manual_mode) drefs (get_str ''task_id'' document) did strict) (\<lambda>same.
             if \<not> same
             then bind_res rest (\<lambda>es.
                    Inr ((dependency_name d @ '' dependent receipt identity mismatch at line '' @ line) # es))
             else bind_res (prerequisite_receipt document d before prefs present evidence_status cycle manual_mode pid) (\<lambda>latest.
                  bind_res rest (\<lambda>es.
                    Inr (if truthy latest then es
                         else (dependency_name d @ '' was not satisfied before receipt line '' @ line) # es)))))))"

fun dependency_order_loop ::
  "json \<Rightarrow> json list \<Rightarrow> (string \<Rightarrow> bool) \<Rightarrow> json \<Rightarrow> bool \<Rightarrow> json \<Rightarrow> json list \<Rightarrow> string list res" where
  "dependency_order_loop document receipts present evidence_status manual_mode cycle [] = Inr []"
| "dependency_order_loop document receipts present evidence_status manual_mode cycle (d # ds) =
     (let rest = dependency_order_loop document receipts present evidence_status manual_mode cycle ds in
      if \<not> is_obj d then bind_res rest (\<lambda>es. Inr (''invalid dependency entry'' # es))
      else bind_res (str_set (dget ''prerequisite_refs'' d)) (\<lambda>prefs.
           bind_res (str_set (dget ''dependent_refs'' d)) (\<lambda>drefs.
           bind_res (dependency_work_item document (get_str ''prerequisite_work_item_id'' d)) (\<lambda>pid.
           bind_res (dependency_work_item document (get_str ''dependent_work_item_id'' d)) (\<lambda>did.
           bind_res (order_errors_loop document d prefs drefs present evidence_status manual_mode cycle pid did [] receipts)
             (\<lambda>es.
           bind_res rest (\<lambda>es'. Inr (es @ es'))))))))"

definition dependency_order_errors ::
  "json \<Rightarrow> json list \<Rightarrow> (string \<Rightarrow> bool) \<Rightarrow> json \<Rightarrow> bool \<Rightarrow> json \<Rightarrow> string list res" where
  "dependency_order_errors document receipts present evidence_status manual_mode cycle =
     bind_res (py_list (py_or (dget ''dependencies'' document) (JArr [])))
       (dependency_order_loop document receipts present evidence_status manual_mode cycle)"

end
