(* ===== verification/Submission_Ledger.thy ===== *)
theory Submission_Ledger
  imports Submission
begin

text \<open>
  What \<open>deterministic_receipt_ledger_errors\<close> decides: a declarative specification of a ledger, the bounds
  it gives for the numbers in it, and where the check raises.
\<close>

section \<open>Specification\<close>

definition deterministic :: "json \<Rightarrow> bool" where
  "deterministic r \<longleftrightarrow> dget ''schema_version'' r \<in> JStr ` set deterministic_schemas"

definition receipt_key :: "json \<Rightarrow> string" where
  "receipt_key r = get_str ''receipt_id'' r"

definition sequence_of :: "json \<Rightarrow> int" where
  "sequence_of r = (case dget ''event_sequence'' r of JInt i \<Rightarrow> i | _ \<Rightarrow> 0)"

text \<open>The first receipt of each identity, apart from identities already seen.\<close>

fun firsts :: "string set \<Rightarrow> json list \<Rightarrow> json list" where
  "firsts K [] = []"
| "firsts K (r # rs) = (if receipt_key r \<in> K then firsts K rs else r # firsts (insert (receipt_key r) K) rs)"

definition receipt_fine :: "string \<Rightarrow> json \<Rightarrow> bool" where
  "receipt_fine task_id r \<longleftrightarrow>
     (task_id \<noteq> [] \<longrightarrow> dget ''task_id'' r = JStr task_id) \<and>
     is_int_from 1 (Some (dget ''event_sequence'' r)) \<and>
     (dget ''schema_version'' r = JStr ''valp-dispatch-receipt.v3'' \<longrightarrow>
        dget ''ledger_revision'' r = dget ''event_sequence'' r) \<and>
     is_int_from 1 (Some (dget ''dispatch_generation'' r)) \<and>
     (dget ''retry_generation'' r = JNull \<or> is_int_from 1 (Some (dget ''retry_generation'' r))) \<and>
     (dget ''suspension_epoch'' r = JNull \<or> is_int_from 1 (Some (dget ''suspension_epoch'' r))) \<and>
     hashable (dget ''event'' r) \<and>
     (dget ''event'' r \<in> JStr ` set TERMINAL_RECEIPT_EVENTS \<longrightarrow> is_int (dget ''suspension_epoch'' r))"

definition receipts_spec :: "string \<Rightarrow> json list \<Rightarrow> bool" where
  "receipts_spec task_id receipts \<longleftrightarrow>
     (let ds = filter deterministic receipts in
      (\<forall>r\<in>set receipts. hashable (dget ''schema_version'' r)) \<and>
      (\<forall>r\<in>set ds. \<forall>s\<in>set ds. dget ''schema_version'' r = dget ''schema_version'' s) \<and>
      (\<forall>r\<in>set ds. is_nonempty_str (jget ''receipt_id'' r)) \<and>
      (\<forall>r\<in>set ds. \<forall>s\<in>set (firsts {} ds). receipt_key r = receipt_key s \<longrightarrow> py_eq r s) \<and>
      (\<forall>s\<in>set (firsts {} ds). receipt_fine task_id s) \<and>
      sorted_wrt (<) (map sequence_of (firsts {} ds)))"

section \<open>One receipt\<close>

lemma str_member_iff:
  "str_member (jget k r) xs = Inr b \<longleftrightarrow> hashable (dget k r) \<and> b = (dget k r \<in> JStr ` set xs)"
  by (cases "jget k r"; cases "the (jget k r)") (auto simp: dget_def)

lemma str_member_Inl: "str_member (jget k r) xs = Inl e \<Longrightarrow> \<not> hashable (dget k r) \<and> (\<exists>m. e = TypeError m)"
  by (cases "jget k r"; cases "the (jget k r)") (auto simp: dget_def)

lemma is_int_from_iff: "is_int_from m (Some v) \<longleftrightarrow> (\<exists>i. v = JInt i \<and> m \<le> i)"
  by (cases v) auto

lemma py_eq_JInt_left: "is_int v \<and> py_eq v (JInt i) \<longleftrightarrow> v = JInt i"
  by (cases v) auto

lemma receipt_errors_ok:
  assumes "0 \<le> previous"
  shows "receipt_errors task_id n previous r = Inr ([], following) \<longleftrightarrow>
    receipt_fine task_id r \<and> previous < sequence_of r \<and> following = sequence_of r"
proof (cases "is_int_from 1 (Some (dget ''event_sequence'' r))")
  case False
  then show ?thesis
    by (auto simp: receipt_errors_def receipt_fine_def Let_def bind_res_Inr_iff)
next
  case True
  then obtain i where i: "dget ''event_sequence'' r = JInt i" "1 \<le> i" by (auto simp: is_int_from_iff)
  have rv: "(is_int (dget ''ledger_revision'' r) \<and> py_eq (dget ''ledger_revision'' r) (JInt i)) \<longleftrightarrow>
      dget ''ledger_revision'' r = JInt i" by (rule py_eq_JInt_left)
  show ?thesis
    using assms i rv
    by (auto simp: receipt_errors_def receipt_fine_def sequence_of_def Let_def bind_res_Inr_iff str_member_iff)
qed

lemma receipt_errors_total:
  "hashable (dget ''event'' r) \<Longrightarrow> \<exists>es f. receipt_errors task_id n previous r = Inr (es, f)"
  by (cases "str_member (jget ''event'' r) TERMINAL_RECEIPT_EVENTS")
     (auto simp: receipt_errors_def Let_def dest: str_member_Inl split: prod.splits)

section \<open>The loop\<close>

lemma firsts_keys: "s \<in> set (firsts K rs) \<Longrightarrow> receipt_key s \<notin> K"
  by (induction rs arbitrary: K) (auto split: if_splits)

lemma firsts_subset: "set (firsts K rs) \<subseteq> set rs"
  by (induction rs arbitrary: K) auto

lemma key_nonempty: "is_nonempty_str (jget ''receipt_id'' r) \<Longrightarrow> jget ''receipt_id'' r = Some (JStr (receipt_key r))"
  by (cases "jget ''receipt_id'' r"; cases "the (jget ''receipt_id'' r)")
     (auto simp: receipt_key_def get_str_def dget_def py_or_def)

definition loop_spec :: "string \<Rightarrow> (string \<times> json) list \<Rightarrow> int \<Rightarrow> json list \<Rightarrow> bool" where
  "loop_spec task_id seen previous receipts \<longleftrightarrow>
     (let ds = filter deterministic receipts; new = firsts (fst ` set seen) ds in
      (\<forall>r\<in>set receipts. hashable (dget ''schema_version'' r)) \<and>
      (\<forall>r\<in>set ds. is_nonempty_str (jget ''receipt_id'' r)) \<and>
      (\<forall>r\<in>set ds. \<forall>s. map_of seen (receipt_key r) = Some s \<longrightarrow> py_eq r s) \<and>
      (\<forall>r\<in>set ds. \<forall>s\<in>set new. receipt_key r = receipt_key s \<longrightarrow> py_eq r s) \<and>
      (\<forall>s\<in>set new. receipt_fine task_id s) \<and>
      sorted_wrt (<) (previous # map sequence_of new))"

lemma loop_spec_Nil [simp]: "loop_spec task_id seen previous []"
  by (simp add: loop_spec_def)

lemma loop_spec_other:
  "\<not> deterministic r \<Longrightarrow> loop_spec task_id seen previous (r # rs) \<longleftrightarrow>
     hashable (dget ''schema_version'' r) \<and> loop_spec task_id seen previous rs"
  by (auto simp: loop_spec_def Let_def)

lemma deterministic_hashable: "deterministic r \<Longrightarrow> hashable (dget ''schema_version'' r)"
  by (auto simp: deterministic_def)

lemma loop_spec_seen:
  assumes "deterministic r" and "map_of seen (receipt_key r) = Some s"
  shows "loop_spec task_id seen previous (r # rs) \<longleftrightarrow>
    is_nonempty_str (jget ''receipt_id'' r) \<and> py_eq r s \<and> loop_spec task_id seen previous rs"
proof -
  let ?new = "firsts (fst ` set seen) (filter deterministic rs)"
  have k: "receipt_key r \<in> fst ` set seen" using assms(2) by (force dest: map_of_SomeD)
  have "receipt_key r \<noteq> receipt_key x" if "x \<in> set ?new" for x
    using firsts_keys [OF that] k by force
  then have other: "(\<forall>x\<in>set ?new. receipt_key r = receipt_key x \<longrightarrow> py_eq r x) \<longleftrightarrow> True" by simp
  show ?thesis
    using assms(1) k deterministic_hashable [OF assms(1)]
    by (simp add: loop_spec_def Let_def other assms(2) conj_ac)
qed

lemma ball_map_of_Cons:
  assumes "map_of seen k = None"
  shows "(\<forall>r\<in>A. \<forall>s. map_of ((k, x) # seen) (f r) = Some s \<longrightarrow> P r s) \<longleftrightarrow>
    (\<forall>r\<in>A. f r = k \<longrightarrow> P r x) \<and> (\<forall>r\<in>A. \<forall>s. map_of seen (f r) = Some s \<longrightarrow> P r s)"
  using assms by auto

lemma loop_spec_new:
  assumes "deterministic r" and "map_of seen (receipt_key r) = None" and "is_nonempty_str (jget ''receipt_id'' r)"
  shows "loop_spec task_id seen previous (r # rs) \<longleftrightarrow>
    receipt_fine task_id r \<and> previous < sequence_of r \<and>
    loop_spec task_id ((receipt_key r, r) # seen) (sequence_of r) rs"
proof -
  let ?K = "fst ` set seen" and ?ds = "filter deterministic rs"
  let ?new = "firsts (insert (receipt_key r) ?K) ?ds"
  have k: "receipt_key r \<notin> ?K" using assms(2) by (simp add: map_of_eq_None_iff)
  have "receipt_key r \<noteq> receipt_key x" if "x \<in> set ?new" for x using firsts_keys [OF that] by auto
  then have other: "(\<forall>s\<in>set ?new. receipt_key r = receipt_key s \<longrightarrow> py_eq r s) \<longleftrightarrow> True" by simp
  have order: "sorted_wrt (<) (previous # sequence_of r # map sequence_of ?new) \<longleftrightarrow>
      previous < sequence_of r \<and> sorted_wrt (<) (sequence_of r # map sequence_of ?new)" by auto
  have pairs: "(\<forall>x\<in>set ?ds. \<forall>s\<in>set (r # ?new). receipt_key x = receipt_key s \<longrightarrow> py_eq x s) \<longleftrightarrow>
      (\<forall>x\<in>set ?ds. receipt_key x = receipt_key r \<longrightarrow> py_eq x r) \<and>
      (\<forall>x\<in>set ?ds. \<forall>s\<in>set ?new. receipt_key x = receipt_key s \<longrightarrow> py_eq x s)" by auto
  have left: "loop_spec task_id seen previous (r # rs) \<longleftrightarrow>
      (\<forall>x\<in>set rs. hashable (dget ''schema_version'' x)) \<and>
      (\<forall>x\<in>set ?ds. is_nonempty_str (jget ''receipt_id'' x)) \<and>
      (\<forall>x\<in>set ?ds. \<forall>s. map_of seen (receipt_key x) = Some s \<longrightarrow> py_eq x s) \<and>
      (\<forall>x\<in>set ?ds. \<forall>s\<in>set (r # ?new). receipt_key x = receipt_key s \<longrightarrow> py_eq x s) \<and>
      (\<forall>s\<in>set (r # ?new). receipt_fine task_id s) \<and>
      sorted_wrt (<) (previous # sequence_of r # map sequence_of ?new)"
    using assms k deterministic_hashable [OF assms(1)]
    by (simp add: loop_spec_def Let_def other)
  show ?thesis
    unfolding left pairs order
    by (simp add: loop_spec_def Let_def ball_map_of_Cons [OF assms(2)] conj_ac del: map_of.simps)
qed

theorem ledger_errors_loop_ok:
  "0 \<le> previous \<Longrightarrow>
     ledger_errors_loop task_id n seen previous receipts = Inr [] \<longleftrightarrow> loop_spec task_id seen previous receipts"
proof (induction receipts arbitrary: n seen previous)
  case Nil
  then show ?case by simp
next
  case (Cons r rs)
  show ?case
  proof (cases "deterministic r")
    case False
    then show ?thesis
      using Cons by (auto simp: loop_spec_other bind_res_Inr_iff str_member_iff deterministic_def)
  next
    case True
    then have det: "str_member (jget ''schema_version'' r) deterministic_schemas = Inr True"
      by (auto simp: str_member_iff deterministic_def)
    show ?thesis
    proof (cases "is_nonempty_str (jget ''receipt_id'' r)")
      case False
      have "\<not> loop_spec task_id seen previous (r # rs)" using True False by (auto simp: loop_spec_def Let_def)
      then show ?thesis using det False by (auto simp: bind_res_Inr_iff)
    next
      case named: True
      show ?thesis
      proof (cases "map_of seen (receipt_key r)")
        case (Some s)
        then show ?thesis
          using Cons det named True by (auto simp: loop_spec_seen bind_res_Inr_iff receipt_key_def)
      next
        case None
        have next_ok: "0 \<le> sequence_of r" if "receipt_fine task_id r"
          using that by (auto simp: receipt_fine_def sequence_of_def is_int_from_iff)
        have "ledger_errors_loop task_id n seen previous (r # rs) = Inr [] \<longleftrightarrow>
          (\<exists>f. receipt_errors task_id n previous r = Inr ([], f) \<and>
             ledger_errors_loop task_id (Suc n) ((receipt_key r, r) # seen) f rs = Inr [])"
          using None det named by (auto simp: bind_res_Inr_iff receipt_key_def)
        then show ?thesis
          using Cons next_ok
          by (auto simp: receipt_errors_ok [OF Cons.prems] loop_spec_new [OF True None named])
      qed
    qed
  qed
qed

section \<open>The check\<close>

lemma versions_iff:
  "deterministic_versions rs = Inr vs \<longleftrightarrow>
     (\<forall>r\<in>set rs. hashable (dget ''schema_version'' r)) \<and>
     vs = map (\<lambda>r. py_str (dget ''schema_version'' r)) (filter deterministic rs)"
proof (induction rs arbitrary: vs)
  case (Cons r rs)
  then show ?case by (auto simp: bind_res_Inr_iff str_member_iff deterministic_def)
qed auto

lemma one_element: "length (remdups xs) \<le> 1 \<longleftrightarrow> (\<forall>x\<in>set xs. \<forall>y\<in>set xs. x = y)"
proof -
  have "length (remdups xs) = card (set xs)" by (simp add: length_remdups_card_conv)
  also have "\<dots> \<le> 1 \<longleftrightarrow> (\<forall>x\<in>set xs. \<forall>y\<in>set xs. x = y)" by (simp add: card_le_Suc0_iff_eq)
  finally show ?thesis .
qed

lemma receipts_spec_loop:
  "receipts_spec task_id receipts \<longleftrightarrow>
     (\<forall>r\<in>set (filter deterministic receipts). \<forall>s\<in>set (filter deterministic receipts).
        dget ''schema_version'' r = dget ''schema_version'' s) \<and> loop_spec task_id [] 0 receipts"
proof -
  have "0 < sequence_of s" if "receipt_fine task_id s" for s
    using that by (auto simp: receipt_fine_def sequence_of_def is_int_from_iff)
  then show ?thesis by (auto simp: receipts_spec_def loop_spec_def Let_def)
qed

lemma same_versions:
  "length (remdups (map (\<lambda>r. py_str (dget ''schema_version'' r)) (filter deterministic rs))) \<le> 1 \<longleftrightarrow>
     (\<forall>r\<in>set (filter deterministic rs). \<forall>s\<in>set (filter deterministic rs).
        dget ''schema_version'' r = dget ''schema_version'' s)"
proof -
  have "py_str (dget ''schema_version'' r) = py_str (dget ''schema_version'' s) \<longleftrightarrow>
      dget ''schema_version'' r = dget ''schema_version'' s" if "deterministic r" "deterministic s" for r s
    using that by (auto simp: deterministic_def)
  then show ?thesis unfolding one_element by (simp cong: ball_cong)
qed

lemma ledger_errors_ok_iff:
  "deterministic_receipt_ledger_errors receipts task_id = Inr [] \<longleftrightarrow> receipts_spec task_id receipts"
proof -
  let ?vs = "map (\<lambda>r. py_str (dget ''schema_version'' r)) (filter deterministic receipts)"
  have "deterministic_receipt_ledger_errors receipts task_id = Inr [] \<longleftrightarrow>
      (\<forall>r\<in>set receipts. hashable (dget ''schema_version'' r)) \<and> length (remdups ?vs) \<le> 1 \<and>
      ledger_errors_loop task_id 1 [] 0 receipts = Inr []"
    by (simp add: deterministic_receipt_ledger_errors_def bind_res_Inr_iff versions_iff not_less conj_ac)
  also have "\<dots> \<longleftrightarrow> receipts_spec task_id receipts"
    unfolding same_versions ledger_errors_loop_ok [OF order_refl] receipts_spec_loop
    by (auto simp: loop_spec_def Let_def)
  finally show ?thesis .
qed

text \<open>An order of integers from one on is at least as high as its positions.\<close>

lemma increasing_above:
  "sorted_wrt (<) (m # xs) \<Longrightarrow> i < length xs \<Longrightarrow> m + int i + 1 \<le> xs ! i"
proof (induction xs arbitrary: m i)
  case (Cons x xs)
  then have x: "m < x" "sorted_wrt (<) (x # xs)" by auto
  show ?case
  proof (cases i)
    case 0
    then show ?thesis using x by simp
  next
    case (Suc j)
    then have "x + int j + 1 \<le> xs ! j" using Cons.IH [OF x(2)] Cons.prems by simp
    then show ?thesis using x Suc by simp
  qed
qed simp

lemma loop_total:
  assumes "\<forall>r\<in>set rs. hashable (dget ''schema_version'' r) \<and> hashable (dget ''event'' r)"
  shows "\<exists>es. ledger_errors_loop task_id n seen previous rs = Inr es"
  using assms
proof (induction rs arbitrary: n seen previous)
  case (Cons r rs)
  obtain b where b: "str_member (jget ''schema_version'' r) deterministic_schemas = Inr b"
    using Cons.prems by (auto simp: str_member_iff)
  obtain es f where e: "receipt_errors task_id n previous r = Inr (es, f)"
    using receipt_errors_total Cons.prems by fastforce
  have rest: "\<exists>es. ledger_errors_loop task_id k old p rs = Inr es" for k old p
    using Cons by simp
  obtain e1 where e1: "ledger_errors_loop task_id (Suc n) seen previous rs = Inr e1" using rest by blast
  obtain e2 where e2: "ledger_errors_loop task_id (Suc n) ((get_str ''receipt_id'' r, r) # seen) f rs = Inr e2"
    using rest by blast
  obtain e3 where e3: "ledger_errors_loop task_id (Suc n) seen f rs = Inr e3" using rest by blast
  show ?case using b e e1 e2 e3 by simp
qed simp

lemma versions_error:
  "\<exists>r\<in>set rs. \<not> hashable (dget ''schema_version'' r) \<Longrightarrow> \<exists>m. deterministic_versions rs = Inl (TypeError m)"
proof (induction rs)
  case (Cons r rs)
  show ?case
  proof (cases "str_member (jget ''schema_version'' r) deterministic_schemas")
    case (Inl e)
    then show ?thesis using str_member_Inl [OF Inl] by auto
  next
    case (Inr b)
    then have "\<exists>r\<in>set rs. \<not> hashable (dget ''schema_version'' r)" using Cons.prems by (auto simp: str_member_iff)
    then show ?thesis using Cons.IH Inr by auto
  qed
qed simp

section \<open>What the check promises\<close>

text \<open>
  C25. Equivalence with a specification. The check reports nothing exactly when the receipts meet the
  specification, which knows no loop and no state: the versions can be hashed, the receipts that
  count are of one version and named, copies of a receipt agree with the first of its name, and the
  first receipts are well formed with numbers that grow along the ledger.
\<close>

theorem ledger_check_decides_spec:
  "deterministic_receipt_ledger_errors receipts task_id = Inr [] \<longleftrightarrow> receipts_spec task_id receipts"
  by (rule ledger_errors_ok_iff)

text \<open>
  C39. Bounds of the numbers of a ledger. In a ledger without errors, the number of the k-th receipt
  (copies apart, counted from zero) is an integer of at least k + 1 and above the number of every
  receipt before it; a receipt of version 3 has that number as its revision.
\<close>

theorem ledger_sequence_bounds:
  assumes "deterministic_receipt_ledger_errors receipts task_id = Inr []"
    and "k < length (firsts {} (filter deterministic receipts))"
  shows "\<exists>i. dget ''event_sequence'' (firsts {} (filter deterministic receipts) ! k) = JInt i \<and> int k + 1 \<le> i \<and>
    (\<forall>j<k. sequence_of (firsts {} (filter deterministic receipts) ! j) < i) \<and>
    (dget ''schema_version'' (firsts {} (filter deterministic receipts) ! k) = JStr ''valp-dispatch-receipt.v3'' \<longrightarrow>
       dget ''ledger_revision'' (firsts {} (filter deterministic receipts) ! k) = JInt i)"
proof -
  let ?new = "firsts {} (filter deterministic receipts)"
  have fine: "receipt_fine task_id (?new ! k)"
    and order: "sorted_wrt (<) (map sequence_of ?new)" "sorted_wrt (<) (0 # map sequence_of ?new)"
    using assms unfolding ledger_errors_ok_iff receipts_spec_loop by (auto simp: loop_spec_def Let_def)
  obtain i where i: "dget ''event_sequence'' (?new ! k) = JInt i"
    using fine by (auto simp: receipt_fine_def is_int_from_iff)
  have at: "sequence_of (?new ! k) = i" using i by (simp add: sequence_of_def)
  have "int k + 1 \<le> i" using increasing_above [OF order(2), of k] assms(2) at by simp
  moreover have "sequence_of (?new ! j) < i" if "j < k" for j
    using sorted_wrt_nth_less [OF order(1) that] assms(2) that at by simp
  ultimately show ?thesis using fine i by (auto simp: receipt_fine_def)
qed

text \<open>
  C28. Where the check returns. It returns a list of messages when the versions and the events of the
  receipts can be hashed, and raises a type error, whatever else the ledger holds, when some version
  is a list or an object.
\<close>

theorem ledger_check_typed:
  "((\<forall>r\<in>set receipts. hashable (dget ''schema_version'' r) \<and> hashable (dget ''event'' r)) \<longrightarrow>
      (\<exists>es. deterministic_receipt_ledger_errors receipts task_id = Inr es)) \<and>
   ((\<exists>r\<in>set receipts. \<not> hashable (dget ''schema_version'' r)) \<longrightarrow>
      (\<exists>m. deterministic_receipt_ledger_errors receipts task_id = Inl (TypeError m)))"
proof (intro conjI impI)
  assume ok: "\<forall>r\<in>set receipts. hashable (dget ''schema_version'' r) \<and> hashable (dget ''event'' r)"
  then obtain vs where vs: "deterministic_versions receipts = Inr vs" by (auto simp: versions_iff)
  obtain es where "ledger_errors_loop task_id 1 [] 0 receipts = Inr es" using loop_total [OF ok] by blast
  with vs show "\<exists>es. deterministic_receipt_ledger_errors receipts task_id = Inr es"
    by (simp add: deterministic_receipt_ledger_errors_def)
next
  assume "\<exists>r\<in>set receipts. \<not> hashable (dget ''schema_version'' r)"
  then show "\<exists>m. deterministic_receipt_ledger_errors receipts task_id = Inl (TypeError m)"
    using versions_error by (fastforce simp: deterministic_receipt_ledger_errors_def)
qed

end
