(* ===== verification/Json_Objects.thy ===== *)
theory Json_Objects
  imports Py_Values
begin

text \<open>
  Python's equality of objects and lists by their parts: objects without repeated keys are equal when
  they have the same keys with equal values.
\<close>

section \<open>Equality of objects\<close>

lemma distinct_map_of_rev: "distinct (map fst xs) \<Longrightarrow> map_of (rev xs) = map_of xs"
  by (simp add: map_of_inject_set flip: rev_map)

lemma same_entries:
  assumes "distinct (map fst xs)" and "distinct (map fst ys)" and "map_of xs = map_of ys"
  shows "set xs = set (ys :: (string \<times> 'a) list)"
  using assms map_of_eq_Some_iff [of xs] map_of_eq_Some_iff [of ys] by (auto simp: set_eq_iff)

lemma sort_entries:
  assumes "distinct (map fst xs)" and "distinct (map fst ys)" and "map_of xs = map_of (ys :: (string \<times> 'a) list)"
  shows "sort_key fst xs = sort_key fst ys"
proof (rule sort_key_inj_key_eq)
  show "mset xs = mset (sort_key fst ys)"
    using same_entries [OF assms] assms(1,2) by (simp add: set_eq_iff_mset_eq_distinct distinct_map)
  show "inj_on fst (set xs)" using assms(1) by (simp add: distinct_map)
qed simp

lemma py_eq_obj:
  assumes "distinct (map fst xs)" and "distinct (map fst ys)"
    and "set (map fst xs) = set (map fst ys)"
    and "\<forall>k\<in>set (map fst xs). py_eq (dget k (JObj xs)) (dget k (JObj ys))"
  shows "py_eq (JObj xs) (JObj ys)"
proof -
  let ?f = "map (map_prod id (norm \<circ> unbool)) :: (string \<times> json) list \<Rightarrow> _"
  have form: "norm (unbool (JObj zs)) = JObj (sort_key fst (?f zs))" for zs
    by (simp add: case_prod_unfold map_prod_def comp_def)
  have "map_of (?f xs) k = map_of (?f ys) k" for k
  proof -
    have at: "map_of (?f zs) k = map_option (norm \<circ> unbool) (map_of zs k)" for zs
      by (induction zs) auto
    show ?thesis
    proof (cases "k \<in> set (map fst xs)")
      case True
      moreover have "k \<in> set (map fst ys)" using True assms(3) by simp
      ultimately obtain x y where "map_of xs k = Some x" "map_of ys k = Some y"
        by (metis list.set_map map_of_eq_None_iff not_Some_eq)
      moreover have "py_eq (dget k (JObj xs)) (dget k (JObj ys))" using assms(4) True by blast
      ultimately show ?thesis by (simp add: at dget_def py_eq_def json_eq_def)
    next
      case False
      then have "map_of xs k = None" "map_of ys k = None" using assms(3) by (auto simp: map_of_eq_None_iff)
      then show ?thesis by (simp add: at)
    qed
  qed
  then have "map_of (?f xs) = map_of (?f ys)" by blast
  moreover have "map fst (?f zs) = map fst zs" for zs by simp
  ultimately show ?thesis
    unfolding py_eq_def json_eq_def form using sort_entries [of "?f xs" "?f ys"] assms(1,2) by simp
qed

lemma py_eq_JArr: "py_eq v (JArr ys) \<longleftrightarrow> (\<exists>xs. v = JArr xs \<and> list_all2 py_eq xs ys)"
proof (cases v)
  case (JArr xs)
  have "map (norm \<circ> unbool) xs = map (norm \<circ> unbool) ys \<longleftrightarrow> list_all2 py_eq xs ys"
    by (auto simp: list_all2_conv_all_nth list_eq_iff_nth_eq py_eq_def json_eq_def)
  then show ?thesis using JArr by (simp add: py_eq_def json_eq_def)
qed (auto simp: py_eq_def json_eq_def)

text \<open>Equality of an object with one of known fields.\<close>

lemma py_eq_fields:
  assumes "is_obj v" and "distinct (keys v)" and "is_obj w" and "distinct (keys w)"
  shows "py_eq v w \<longleftrightarrow> set (keys v) = set (keys w) \<and> (\<forall>k\<in>set (keys w). py_eq (dget k v) (dget k w))"
proof -
  obtain xs ys where v: "v = JObj xs" "w = JObj ys" using assms(1,3) by (cases v; cases w) auto
  show ?thesis
    using py_eq_obj [of xs ys] py_eq_keys [of v w] py_eq_get [of v w] assms v by (auto simp: keys_def)
qed

end
