(* ===== verification/Submission_Documents.thy ===== *)
theory Submission_Documents
  imports Submission Json_Objects
begin

text \<open>
  The document of dependencies: it is built for every assignment of roles, and the check of a stored
  document accepts exactly what would be built, in the current or in the legacy version, up to the
  order of entries.
\<close>

section \<open>Items and edges\<close>

lemma item_roles:
  "map (\<lambda>w. (py_str (dget ''role'' w), w))
     (concat (map (\<lambda>role. case map_of ra role of None \<Rightarrow> [] | Some agent \<Rightarrow> [work_item_identity task_id agent role]) roles)) =
   concat (map (\<lambda>role. case map_of ra role of None \<Rightarrow> [] | Some agent \<Rightarrow> [(role, work_item_identity task_id agent role)]) roles)"
  by (induction roles) (auto simp: work_item_identity_def dget_def split: option.splits)

lemma find_role:
  "distinct roles \<Longrightarrow>
   distinct (map fst (concat (map (\<lambda>role. case map_of ra role of None \<Rightarrow> [] | Some agent \<Rightarrow> [(role, f agent role)]) roles))) \<and>
   map_of (concat (map (\<lambda>role. case map_of ra role of None \<Rightarrow> [] | Some agent \<Rightarrow> [(role, f agent role)]) roles)) role =
     (if role \<in> set roles then map_option (\<lambda>agent. f agent role) (map_of ra role) else None)"
  by (induction roles) (auto split: option.splits)

lemma ROLE_ORDER_distinct: "distinct ROLE_ORDER"
  by (simp add: ROLE_ORDER_def)

lemma item_of_role_built:
  assumes "role \<in> set ROLE_ORDER" and "map_of ra role = Some agent"
  shows "item_of_role (dependency_work_items task_id ra) role = Inr (work_item_identity task_id agent role)"
  using find_role [OF ROLE_ORDER_distinct, of "work_item_identity task_id" ra role] assms
  by (simp add: item_of_role_def dependency_work_items_def item_roles distinct_map_of_rev)

lemma assigned_Some: "assigned ra role = Some agent \<longleftrightarrow> map_of ra role = Some agent \<and> agent \<noteq> []"
  by (auto simp: assigned_def split: option.splits if_splits)

lemma in_singleton:
  "(role, agent) \<in> set (case assigned ra r of None \<Rightarrow> [] | Some a \<Rightarrow> [(r, a)]) \<longleftrightarrow> role = r \<and> assigned ra r = Some agent"
  by (cases "assigned ra r") auto

lemma producers_iff:
  "(role, agent) \<in> set (producers ra) \<longleftrightarrow>
     role \<in> set [''implementer'', ''researcher'', ''prototype''] \<and> assigned ra role = Some agent"
proof -
  have "(role, agent) \<in> set (producers ra) \<longleftrightarrow>
      (\<exists>r\<in>set [''implementer'', ''researcher'', ''prototype'']. role = r \<and> assigned ra r = Some agent)"
    by (simp only: producers_def set_concat set_map UN_iff image_iff bex_simps in_singleton)
  then show ?thesis by metis
qed

text \<open>The ends of an edge are assigned, and the first comes before the second in the order of roles.\<close>

definition role_rank :: "string \<Rightarrow> nat" where
  "role_rank role = length (takeWhile (\<lambda>r. r \<noteq> role) ROLE_ORDER)"

lemma role_ranks:
  "role_rank ''coordinator'' = 0" "role_rank ''implementer'' = 1" "role_rank ''researcher'' = 2"
  "role_rank ''prototype'' = 3" "role_rank ''reviewer'' = 4" "role_rank ''other'' = 5"
  by (simp_all add: role_rank_def ROLE_ORDER_def)

lemma edge_ends:
  assumes "e \<in> set (dependency_edges ra)"
  shows "assigned ra (eg_prerequisite_role e) = Some (eg_prerequisite_agent e)"
    and "assigned ra (eg_dependent_role e) = Some (eg_dependent_agent e)"
    and "eg_prerequisite_role e \<in> set ROLE_ORDER" and "eg_dependent_role e \<in> set ROLE_ORDER"
    and "role_rank (eg_prerequisite_role e) < role_rank (eg_dependent_role e)"
  using assms
  by (auto simp: dependency_edges_def Let_def producers_iff ROLE_ORDER_def role_ranks
      split: option.splits if_splits)

definition built_dependency :: "edge \<Rightarrow> json" where
  "built_dependency e =
     JObj ((''id'', JStr (edge_id e)) # edge_entries e @
       [(''prerequisite_work_item_id'', JStr (work_item_key (eg_prerequisite_agent e) (eg_prerequisite_role e))),
        (''prerequisite_dispatch_generation'', JInt 1),
        (''dependent_work_item_id'', JStr (work_item_key (eg_dependent_agent e) (eg_dependent_role e))),
        (''dependent_dispatch_generation'', JInt 1),
        (''dependent_refs'', dependent_refs_json e)])"

lemma dependency_entry_built:
  assumes "e \<in> set (dependency_edges ra)"
  shows "dependency_entry (dependency_work_items task_id ra) e = Inr (built_dependency e)"
  using edge_ends [OF assms]
  by (simp add: dependency_entry_def assigned_Some item_of_role_built built_dependency_def
      work_item_identity_def dget_def)

lemma all_res_map: "\<forall>x\<in>set xs. f x = Inr (g x) \<Longrightarrow> all_res f xs = Inr (map g xs)"
  by (induction xs) auto

definition built_document :: "string \<Rightarrow> assignments \<Rightarrow> json" where
  "built_document task_id ra =
     JObj [(''schema_version'', JStr ''valp-submission-dependencies.v2''), (''task_id'', JStr task_id),
           (''ordering_source'', JStr ORDERING_SOURCE), (''work_items'', JArr (dependency_work_items task_id ra)),
           (''dependencies'', JArr (map built_dependency (dependency_edges ra)))]"

lemma build_is_built: "build_submission_dependencies task_id ra = Inr (built_document task_id ra)"
  using all_res_map [of "dependency_edges ra" "dependency_entry (dependency_work_items task_id ra)" built_dependency]
  by (simp add: build_submission_dependencies_def built_document_def dependency_entry_built)

lemma edge_ids_distinct: "distinct (map edge_id (dependency_edges ra))"
  by (cases "assigned ra ''implementer''"; cases "assigned ra ''researcher''"; cases "assigned ra ''prototype''";
      cases "assigned ra ''coordinator''"; cases "assigned ra ''reviewer''")
     (simp_all add: dependency_edges_def producers_def edge_id_def Let_def)

section \<open>The check of a stored document\<close>

lemma list_all2_ids:
  assumes "list_all2 py_eq xs (map f es)" and "\<forall>e. is_obj (f e) \<and> dget ''id'' (f e) = JStr (g e)"
  shows "map (\<lambda>d. py_str (dget ''id'' d)) (filter is_obj xs) = map g es"
  using assms(1)
proof (induction xs "map f es" arbitrary: es rule: list_all2_induct)
  case (Cons x xs y ys)
  then obtain e es' where e: "es = e # es'" "y = f e" "ys = map f es'" by (cases es) auto
  have "is_obj x" using py_eq_is_obj [OF Cons(1)] assms(2) e by simp
  moreover have "dget ''id'' x = JStr (g e)" using py_eq_get [OF Cons(1), of "''id''"] assms(2) e by simp
  ultimately show ?case using Cons e by simp
qed simp

lemma built_ids: "is_obj (built_dependency e) \<and> dget ''id'' (built_dependency e) = JStr (edge_id e)"
  by (simp add: built_dependency_def dget_def)

definition legacy_dependency :: "edge \<Rightarrow> json" where
  "legacy_dependency e =
     JObj ((''id'', JStr (edge_id e)) # edge_entries e @ [(''dependent_refs'', dependent_refs_json e)])"

lemma legacy_ids:
  "map (\<lambda>d. py_str (dget ''id'' d)) (filter is_obj xs) = map edge_id es"
  if "list_all2 py_eq xs (map legacy_dependency es)" for xs
  using that by (rule list_all2_ids) (simp add: legacy_dependency_def dget_def)

text \<open>The fields of the two versions.\<close>

lemma built_fields:
  "keys (built_document task_id ra) =
     [''schema_version'', ''task_id'', ''ordering_source'', ''work_items'', ''dependencies'']"
  "dget ''schema_version'' (built_document task_id ra) = JStr ''valp-submission-dependencies.v2''"
  "dget ''task_id'' (built_document task_id ra) = JStr task_id"
  "dget ''ordering_source'' (built_document task_id ra) = JStr ORDERING_SOURCE"
  "dget ''work_items'' (built_document task_id ra) = JArr (dependency_work_items task_id ra)"
  "dget ''dependencies'' (built_document task_id ra) = JArr (map built_dependency (dependency_edges ra))"
  by (simp_all add: built_document_def keys_def dget_def)

lemma legacy_fields:
  "keys (build_legacy_submission_dependencies task_id ra) =
     [''schema_version'', ''task_id'', ''ordering_source'', ''dependencies'']"
  "dget ''schema_version'' (build_legacy_submission_dependencies task_id ra) = JStr ''valp-submission-dependencies.v1''"
  "dget ''task_id'' (build_legacy_submission_dependencies task_id ra) = JStr task_id"
  "dget ''ordering_source'' (build_legacy_submission_dependencies task_id ra) = JStr ORDERING_SOURCE"
  "dget ''dependencies'' (build_legacy_submission_dependencies task_id ra) =
     JArr (map legacy_dependency (dependency_edges ra))"
  by (simp_all add: build_legacy_submission_dependencies_def legacy_dependency_def keys_def dget_def)

lemma array_check:
  "(case v of JArr xs \<Rightarrow> if py_eq (JArr xs) (JArr ys) then [] else [e] | _ \<Rightarrow> [e']) = [] \<longleftrightarrow> py_eq v (JArr ys)"
  by (cases v) (auto simp: py_eq_JArr)

lemma final_check:
  "(case v of
      JArr deps \<Rightarrow> Inr (a @ b @ c @ (if distinct (ids deps) then [] else [e1]) @ (if py_eq (JArr deps) (JArr ys) then [] else [e2]))
    | _ \<Rightarrow> Inr (a @ b @ c @ [e3])) = Inr [] \<longleftrightarrow> a = [] \<and> b = [] \<and> c = [] \<and> py_eq v (JArr ys)"
  if "\<forall>deps. list_all2 py_eq deps ys \<longrightarrow> distinct (ids deps)"
  using that by (cases v) (auto simp: py_eq_JArr)

lemma obj_truthy: "is_obj v \<Longrightarrow> k \<in> set (keys v) \<Longrightarrow> truthy v"
  by (cases v) (auto simp: keys_def)

lemma validate_built:
  assumes "is_obj document" and "distinct (keys document)"
    and "dget ''schema_version'' document \<noteq> JStr ''valp-submission-dependencies.v1''"
  shows "validate_submission_dependencies document task_id ra = Inr [] \<longleftrightarrow>
    py_eq document (built_document task_id ra)"
proof -
  let ?b = "built_document task_id ra"
  have eq: "py_eq document ?b \<longleftrightarrow> set (keys document) = set (keys ?b) \<and>
      (\<forall>k\<in>set (keys ?b). py_eq (dget k document) (dget k ?b))"
    by (rule py_eq_fields) (use assms in \<open>simp_all add: built_fields(1), simp add: built_document_def\<close>)
  have ids: "\<forall>deps. list_all2 py_eq deps (map built_dependency (dependency_edges ra)) \<longrightarrow>
      distinct (map (\<lambda>d. py_str (dget ''id'' d)) (filter is_obj deps))"
    using list_all2_ids [of _ built_dependency _ edge_id] built_ids edge_ids_distinct by auto
  show ?thesis
  proof (cases "truthy document")
    case False
    then have "set (keys document) \<noteq> set (keys ?b)"
      using obj_truthy [OF assms(1), of "''task_id''"] by (auto simp: built_fields(1))
    then show ?thesis using False by (simp add: eq validate_submission_dependencies_def)
  next
    case True
    then have "validate_submission_dependencies document task_id ra = Inr [] \<longleftrightarrow>
        set (keys document) = set (keys ?b) \<and>
        (\<forall>k\<in>set [''schema_version'', ''task_id'', ''ordering_source'']. py_eq (dget k document) (dget k ?b)) \<and>
        py_eq (dget ''work_items'' document) (JArr (dependency_work_items task_id ra)) \<and>
        py_eq (dget ''dependencies'' document) (JArr (map built_dependency (dependency_edges ra)))"
      unfolding validate_submission_dependencies_def Let_def build_is_built
      by (simp only: assms(3) py_eq_str_iff if_False if_True not_True_eq_False bind_res_simps)
         (unfold built_fields(2,5,6) final_check [OF ids], simp add: array_check)
    then show ?thesis unfolding eq by (simp add: built_fields conj_ac)
  qed
qed

lemma validate_old_form:
  assumes "is_obj document" and "distinct (keys document)"
    and "dget ''schema_version'' document = JStr ''valp-submission-dependencies.v1''"
  shows "validate_submission_dependencies document task_id ra = Inr [] \<longleftrightarrow>
    py_eq document (build_legacy_submission_dependencies task_id ra)"
proof -
  let ?b = "build_legacy_submission_dependencies task_id ra"
  have eq: "py_eq document ?b \<longleftrightarrow> set (keys document) = set (keys ?b) \<and>
      (\<forall>k\<in>set (keys ?b). py_eq (dget k document) (dget k ?b))"
    by (rule py_eq_fields) (use assms in \<open>simp_all add: legacy_fields(1), simp add: build_legacy_submission_dependencies_def\<close>)
  have ids: "\<forall>deps. list_all2 py_eq deps (map legacy_dependency (dependency_edges ra)) \<longrightarrow>
      distinct (map (\<lambda>d. py_str (dget ''id'' d)) (filter is_obj deps))"
    using legacy_ids edge_ids_distinct by auto
  have "''schema_version'' \<in> set (keys document)"
    using assms(3) by (cases document) (force simp: dget_def keys_def split: option.splits dest: map_of_SomeD)+
  then have "truthy document" using obj_truthy [OF assms(1)] by blast
  then have "validate_submission_dependencies document task_id ra = Inr [] \<longleftrightarrow>
      set (keys document) = set (keys ?b) \<and>
      (\<forall>k\<in>set [''schema_version'', ''task_id'', ''ordering_source'']. py_eq (dget k document) (dget k ?b)) \<and>
      py_eq (dget ''dependencies'' document) (JArr (map legacy_dependency (dependency_edges ra)))"
    unfolding validate_submission_dependencies_def Let_def
    by (simp only: assms(3) py_eq_str_iff simp_thms if_True not_True_eq_False if_False bind_res_simps)
       (unfold legacy_fields(2,5) final_check [OF ids], simp)
  then show ?thesis unfolding eq by (simp add: legacy_fields conj_ac)
qed

text \<open>
  C14. Building and checking agree. Building the document of dependencies returns one for every task
  and every assignment of roles, and a stored document passes the check exactly when it equals that
  document, up to the order of entries and with booleans as integers, or the legacy document of the
  same task and roles.
\<close>

theorem validate_accepts_only_built:
  assumes "is_obj document" and "distinct (keys document)"
  shows "\<exists>expected. build_submission_dependencies task_id ra = Inr expected \<and>
    (validate_submission_dependencies document task_id ra = Inr [] \<longleftrightarrow>
       py_eq document expected \<or> py_eq document (build_legacy_submission_dependencies task_id ra))"
proof (cases "dget ''schema_version'' document = JStr ''valp-submission-dependencies.v1''")
  case True
  then have "\<not> py_eq document (built_document task_id ra)"
    using py_eq_get [of document "built_document task_id ra" "''schema_version''"] by (auto simp: built_fields)
  then show ?thesis using validate_old_form [OF assms True] by (simp add: build_is_built)
next
  case False
  then have "\<not> py_eq document (build_legacy_submission_dependencies task_id ra)"
    using py_eq_get [of document "build_legacy_submission_dependencies task_id ra" "''schema_version''"]
    by (auto simp: legacy_fields)
  then show ?thesis using validate_built [OF assms False] by (simp add: build_is_built)
qed

end
