(* ===== verification/Submission_Graph.thy ===== *)
theory Submission_Graph
  imports Submission_Documents Kernel_Bridge
begin

text \<open>
  The document of dependencies as the Kernel runtime reads it: the work items it declares and their
  dependencies, each on an item declared before.
\<close>

section \<open>Work items of an assignment\<close>

definition role_pairs :: "assignments \<Rightarrow> (string \<times> string) list" where
  "role_pairs ra =
     concat (map (\<lambda>role. case map_of ra role of None \<Rightarrow> [] | Some agent \<Rightarrow> [(role, agent)]) ROLE_ORDER)"

definition pair_key :: "string \<times> string \<Rightarrow> string" where
  "pair_key p = work_item_key (snd p) (fst p)"

lemma items_pairs: "dependency_work_items task_id ra = map (\<lambda>(role, agent). work_item_identity task_id agent role) (role_pairs ra)"
  unfolding dependency_work_items_def role_pairs_def
  by (simp add: map_concat comp_def case_prod_unfold, rule arg_cong [of _ _ concat]) (auto split: option.splits)

lemma role_pairs_iff: "(role, agent) \<in> set (role_pairs ra) \<longleftrightarrow> role \<in> set ROLE_ORDER \<and> map_of ra role = Some agent"
proof -
  have "(role, agent) \<in> set (case map_of ra r of None \<Rightarrow> [] | Some a \<Rightarrow> [(r, a)]) \<longleftrightarrow> role = r \<and> map_of ra r = Some agent" for r
    by (cases "map_of ra r") auto
  then have "(role, agent) \<in> set (role_pairs ra) \<longleftrightarrow> (\<exists>r\<in>set ROLE_ORDER. role = r \<and> map_of ra r = Some agent)"
    by (simp only: role_pairs_def set_concat set_map UN_iff image_iff bex_simps)
  then show ?thesis by metis
qed

lemma ranks: "map role_rank ROLE_ORDER = [0..<6]"
  by (simp add: ROLE_ORDER_def role_ranks upt_rec)

lemma role_pairs_sorted: "sorted_wrt (\<lambda>p q. role_rank (fst p) < role_rank (fst q)) (role_pairs ra)"
proof -
  have "sorted_wrt (\<lambda>p q. role_rank (fst p) < role_rank (fst q))
      (concat (map (\<lambda>role. case map_of ra role of None \<Rightarrow> [] | Some agent \<Rightarrow> [(role, agent)]) roles))"
    if "sorted_wrt (<) (map role_rank roles)" for roles
    using that by (induction roles) (auto simp: sorted_wrt_append split: option.splits)
  then show ?thesis unfolding role_pairs_def by (simp add: ranks)
qed

lemma role_of_key: "role \<in> set ROLE_ORDER \<Longrightarrow> takeWhile (\<lambda>c. c \<noteq> CHR '':'') (work_item_key agent role) = role"
  by (auto simp: ROLE_ORDER_def work_item_key_def)

lemma pair_keys_distinct: "distinct (map pair_key (role_pairs ra))"
proof -
  have "distinct (map fst (role_pairs ra))"
    using role_pairs_sorted [of ra] unfolding distinct_conv_nth sorted_wrt_iff_nth_less
    by (metis length_map less_irrefl linorder_neqE_nat nth_map)
  moreover have "map (takeWhile (\<lambda>c. c \<noteq> CHR '':'')) (map pair_key (role_pairs ra)) = map fst (role_pairs ra)"
    by (auto simp: pair_key_def role_pairs_iff role_of_key)
  ultimately show ?thesis using distinct_map by metis
qed

section \<open>Reading the document\<close>

lemma item_key_built: "item_key ''work_item_id'' (work_item_identity task_id agent role) = work_item_key agent role"
  by (simp add: item_key_def work_item_identity_def dget_def work_item_key_def py_or_def)

lemma edge_keys_built:
  "item_key ''prerequisite_work_item_id'' (built_dependency e) = work_item_key (eg_prerequisite_agent e) (eg_prerequisite_role e)"
  "item_key ''dependent_work_item_id'' (built_dependency e) = work_item_key (eg_dependent_agent e) (eg_dependent_role e)"
  by (simp_all add: item_key_def built_dependency_def edge_entries_def dget_def work_item_key_def py_or_def)

definition edge_pairs :: "assignments \<Rightarrow> (string \<times> string) list" where
  "edge_pairs ra = map (\<lambda>e. (work_item_key (eg_prerequisite_agent e) (eg_prerequisite_role e),
     work_item_key (eg_dependent_agent e) (eg_dependent_role e))) (dependency_edges ra)"

lemma declared_graph_built:
  "declared_graph task_id required (Doc (built_document task_id ra)) =
     Inr (dependency_work_items task_id ra, map built_dependency (dependency_edges ra))"
proof -
  have "filter is_obj (dependency_work_items task_id ra) = dependency_work_items task_id ra"
    by (rule filter_True) (auto simp: items_pairs work_item_identity_def)
  moreover have "filter is_obj (map built_dependency es) = map built_dependency es" for es
    by (rule filter_True) (auto simp: built_dependency_def)
  moreover have "is_obj (built_document task_id ra)" by (simp add: built_document_def)
  ultimately show ?thesis by (simp add: declared_graph_def need_dict_def built_fields py_or_def)
qed

lemma edge_key_member:
  assumes "e \<in> set (dependency_edges ra)"
  shows "work_item_key (eg_prerequisite_agent e) (eg_prerequisite_role e) \<in> set (map pair_key (role_pairs ra))"
    and "work_item_key (eg_dependent_agent e) (eg_dependent_role e) \<in> set (map pair_key (role_pairs ra))"
proof -
  have "(eg_prerequisite_role e, eg_prerequisite_agent e) \<in> set (role_pairs ra)"
    "(eg_dependent_role e, eg_dependent_agent e) \<in> set (role_pairs ra)"
    using edge_ends [OF assms] by (simp_all add: role_pairs_iff assigned_Some)
  then show "work_item_key (eg_prerequisite_agent e) (eg_prerequisite_role e) \<in> set (map pair_key (role_pairs ra))"
    and "work_item_key (eg_dependent_agent e) (eg_dependent_role e) \<in> set (map pair_key (role_pairs ra))"
    by (force simp: pair_key_def)+
qed

lemma each_map: "\<forall>x\<in>set xs. f x = Inr (g x) \<Longrightarrow> each f xs = Inr (map g xs)"
  by (induction xs) auto

lemma declared_edges_built:
  "declared_edges (map pair_key (role_pairs ra)) (map built_dependency (dependency_edges ra)) = Inr (edge_pairs ra)"
proof -
  have "each f (map built_dependency es) = each (f \<circ> built_dependency) es" for f :: "json \<Rightarrow> (string \<times> string) kres" and es
    by (induction es) auto
  then show ?thesis
    unfolding declared_edges_def edge_pairs_def
    using edge_key_member by (auto simp: Let_def edge_keys_built refuse_def intro!: each_map)
qed

section \<open>The declared items\<close>

definition pair_id :: "string \<times> string \<Rightarrow> identity" where
  "pair_id p = Identity IK_WORK_ITEM (pair_key p)"

lemma each_list_all2:
  "\<forall>x\<in>set xs. \<exists>y. f x = Inr y \<and> P x y \<Longrightarrow> \<exists>ys. each f xs = Inr ys \<and> list_all2 P xs ys"
proof (induction xs)
  case (Cons x xs)
  then obtain y ys where "f x = Inr y" "P x y" "each f xs = Inr ys" "list_all2 P xs ys" by auto
  then show ?case by simp
qed simp

lemma declared_item_built:
  assumes "\<forall>(k, s)\<in>set subs. \<exists>a. submitted_attempt task (Identity IK_WORK_ITEM k) s = Inr a"
  shows "\<exists>c. declared_item task subs edges (work_item_identity task_id agent role) = Inr c \<and>
    wi_id c = pair_id (role, agent) \<and> wi_deps c = dependencies_of edges (pair_key (role, agent))"
proof -
  let ?k = "work_item_key agent role"
  have i: "index ''work_item_id'' (work_item_identity task_id agent role) = Inr (JStr ?k)"
    by (simp add: index_def work_item_identity_def)
  show ?thesis
  proof (cases "find_submission subs ?k")
    case None
    then show ?thesis by (simp add: declared_item_def i Let_def pair_id_def pair_key_def)
  next
    case (Some s)
    then have "(?k, s) \<in> set subs" unfolding find_submission_def by (metis map_of_SomeD set_rev)
    then obtain a where "submitted_attempt task (Identity IK_WORK_ITEM ?k) s = Inr a" using assms by blast
    then show ?thesis using Some by (simp add: declared_item_def i Let_def pair_id_def pair_key_def)
  qed
qed

text \<open>The dependencies of a declared item are the prerequisites of the edges into its role.\<close>

lemma key_of_edge:
  assumes "e \<in> set (dependency_edges ra)" and "p \<in> set (role_pairs ra)"
  shows "work_item_key (eg_dependent_agent e) (eg_dependent_role e) = pair_key p \<longleftrightarrow> eg_dependent_role e = fst p"
proof -
  have p: "fst p \<in> set ROLE_ORDER" "map_of ra (fst p) = Some (snd p)"
    using assms(2) role_pairs_iff [of "fst p" "snd p" ra] by simp_all
  show ?thesis
  proof
    assume "work_item_key (eg_dependent_agent e) (eg_dependent_role e) = pair_key p"
    then show "eg_dependent_role e = fst p"
      using role_of_key edge_ends(4) [OF assms(1)] p(1) unfolding pair_key_def by metis
  next
    assume "eg_dependent_role e = fst p"
    then show "work_item_key (eg_dependent_agent e) (eg_dependent_role e) = pair_key p"
      using edge_ends(2) [OF assms(1)] p(2) by (simp add: pair_key_def assigned_Some)
  qed
qed

definition prerequisite_id :: "edge \<Rightarrow> identity" where
  "prerequisite_id e = Identity IK_WORK_ITEM (work_item_key (eg_prerequisite_agent e) (eg_prerequisite_role e))"

lemma dependencies_built:
  assumes "p \<in> set (role_pairs ra)"
  shows "dependencies_of (edge_pairs ra) (pair_key p) =
    map (\<lambda>e. \<lparr>dep_item = prerequisite_id e, dep_requirement = RQ_REQUIRED\<rparr>)
      (filter (\<lambda>e. eg_dependent_role e = fst p) (dependency_edges ra))"
proof -
  have "filter (\<lambda>e. work_item_key (eg_dependent_agent e) (eg_dependent_role e) = pair_key p) (dependency_edges ra) =
      filter (\<lambda>e. eg_dependent_role e = fst p) (dependency_edges ra)"
    using key_of_edge [OF _ assms] by (intro filter_cong) auto
  then show ?thesis
    by (simp add: dependencies_of_def edge_pairs_def filter_map comp_def prerequisite_id_def)
qed

lemma prerequisite_earlier:
  assumes "e \<in> set (dependency_edges ra)" and "i < length (role_pairs ra)" and "eg_dependent_role e = fst (role_pairs ra ! i)"
  shows "\<exists>j<i. prerequisite_id e = pair_id (role_pairs ra ! j)"
proof -
  have "(eg_prerequisite_role e, eg_prerequisite_agent e) \<in> set (role_pairs ra)"
    using edge_ends [OF assms(1)] by (simp add: role_pairs_iff assigned_Some)
  then obtain j where j: "j < length (role_pairs ra)" "role_pairs ra ! j = (eg_prerequisite_role e, eg_prerequisite_agent e)"
    by (auto simp: in_set_conv_nth)
  have less: "role_rank (fst (role_pairs ra ! j)) < role_rank (fst (role_pairs ra ! i))"
    using edge_ends(5) [OF assms(1)] assms(3) j(2) by simp
  have "\<not> i \<le> j"
  proof
    assume "i \<le> j"
    then have "role_rank (fst (role_pairs ra ! i)) \<le> role_rank (fst (role_pairs ra ! j))"
      using sorted_wrt_nth_less [OF role_pairs_sorted, of i j ra] j(1) by (cases "i = j") auto
    then show False using less by simp
  qed
  then show ?thesis using j by (auto simp: prerequisite_id_def pair_id_def pair_key_def intro!: exI [of _ j])
qed

lemma declared_items_built:
  assumes "role_pairs ra \<noteq> []" and "submissions_by_item required submissions = Inr subs"
    and "fst ` set subs \<subseteq> set (map pair_key (role_pairs ra))"
    and "\<forall>(k, s)\<in>set subs. \<exists>a. submitted_attempt task (Identity IK_WORK_ITEM k) s = Inr a"
  shows "\<exists>items. declared_work_items (Doc (built_document task_id ra)) task_id required submissions task = Inr items \<and>
    list_all2 (\<lambda>p c. wi_id c = pair_id p \<and> wi_deps c = dependencies_of (edge_pairs ra) (pair_key p)) (role_pairs ra) items"
proof -
  let ?w = "\<lambda>(role, agent). work_item_identity task_id agent role"
  have ids: "map (item_key ''work_item_id'') (dependency_work_items task_id ra) = map pair_key (role_pairs ra)"
    by (auto simp: items_pairs item_key_built pair_key_def)
  have ids_set: "item_key ''work_item_id'' ` set (dependency_work_items task_id ra) = pair_key ` set (role_pairs ra)"
    using arg_cong [OF ids, of set] by simp
  have "\<forall>w\<in>set (dependency_work_items task_id ra). identity_of IK_WORK_ITEM (dget ''work_item_id'' w) =
      Inr (Identity IK_WORK_ITEM (item_key ''work_item_id'' w))"
    by (auto simp: items_pairs identity_of_def item_key_built work_item_identity_def dget_def Let_def work_item_key_def
        py_or_def item_key_def)
  note ks = each_map [OF this]
  have each_w: "each f (map ?w ps) = each (f \<circ> ?w) ps" for f :: "json \<Rightarrow> work_item kres" and ps
    by (induction ps) auto
  have "\<exists>items. each (declared_item task subs (edge_pairs ra) \<circ> ?w) (role_pairs ra) = Inr items \<and>
      list_all2 (\<lambda>p c. wi_id c = pair_id p \<and> wi_deps c = dependencies_of (edge_pairs ra) (pair_key p)) (role_pairs ra) items"
    using declared_item_built [OF assms(4)] by (intro each_list_all2) auto
  then show ?thesis
    using assms(1-3) ks pair_keys_distinct
    by (simp add: declared_work_items_def declared_graph_built refuse_def ids ids_set declared_edges_built Let_def)
       (simp add: items_pairs each_w)
qed

text \<open>The chain of prerequisites of an identity, by the role that begins its key.\<close>

definition id_rank :: "identity \<Rightarrow> nat" where
  "id_rank x = role_rank (takeWhile (\<lambda>c. c \<noteq> CHR '':'') (id_value x))"

lemma prerequisite_rank:
  assumes "e \<in> set (dependency_edges ra)" and "p \<in> set (role_pairs ra)" and "eg_dependent_role e = fst p"
  shows "id_rank (prerequisite_id e) < id_rank (pair_id p)"
proof -
  have "fst p \<in> set ROLE_ORDER" using assms(2) role_pairs_iff [of "fst p" "snd p" ra] by simp
  then show ?thesis
    using edge_ends(3,5) [OF assms(1)] assms(3) by (simp add: id_rank_def prerequisite_id_def pair_id_def pair_key_def Identity_def role_of_key)
qed

text \<open>
  C40. From the built document to the genesis of the Kernel. For an assignment with some known role, and
  submissions for its work items that name their attempts, the Kernel runtime accepts the built
  document and declares one item per role in the order of roles. The dependencies of an item are the
  prerequisites of the edges into its role, each of them is an item declared before it, and waiting
  for prerequisites is well founded, so it ends.
\<close>

theorem built_graph_terminates:
  assumes "build_submission_dependencies task_id ra = Inr document" and "role_pairs ra \<noteq> []"
    and "submissions_by_item required submissions = Inr subs"
    and "fst ` set subs \<subseteq> set (map pair_key (role_pairs ra))"
    and "\<forall>(k, s)\<in>set subs. \<exists>a. submitted_attempt task (Identity IK_WORK_ITEM k) s = Inr a"
  shows "\<exists>items. declared_work_items (Doc document) task_id required submissions task = Inr items \<and>
    map wi_id items = map pair_id (role_pairs ra) \<and>
    (\<forall>i<length items. map dep_item (wi_deps (items ! i)) =
        map prerequisite_id (filter (\<lambda>e. eg_dependent_role e = fst (role_pairs ra ! i)) (dependency_edges ra)) \<and>
      (\<forall>d\<in>set (wi_deps (items ! i)). \<exists>j<i. dep_item d = wi_id (items ! j))) \<and>
    wf {(x, y). \<exists>c\<in>set items. y = wi_id c \<and> x \<in> dep_item ` set (wi_deps c)}"
proof -
  have doc: "document = built_document task_id ra" using assms(1) by (simp add: build_is_built)
  obtain items where items: "declared_work_items (Doc document) task_id required submissions task = Inr items"
    and all: "list_all2 (\<lambda>p c. wi_id c = pair_id p \<and> wi_deps c = dependencies_of (edge_pairs ra) (pair_key p))
      (role_pairs ra) items"
    using declared_items_built [OF assms(2-5)] doc by blast
  have len: "length items = length (role_pairs ra)" using all by (simp add: list_all2_lengthD)
  have at: "wi_id (items ! i) = pair_id (role_pairs ra ! i)"
    "wi_deps (items ! i) = map (\<lambda>e. \<lparr>dep_item = prerequisite_id e, dep_requirement = RQ_REQUIRED\<rparr>)
      (filter (\<lambda>e. eg_dependent_role e = fst (role_pairs ra ! i)) (dependency_edges ra))"
    if "i < length items" for i
    using list_all2_nthD [OF all, of i] that len by (simp_all add: dependencies_built)
  have ids: "map wi_id items = map pair_id (role_pairs ra)" using at(1) len by (simp add: list_eq_iff_nth_eq)
  have deps: "(\<exists>e\<in>set (dependency_edges ra). eg_dependent_role e = fst (role_pairs ra ! i) \<and> x = prerequisite_id e)"
    if "i < length items" "x \<in> dep_item ` set (wi_deps (items ! i))" for i x
    using that by (auto simp: at(2))
  have "\<exists>j<i. dep_item d = wi_id (items ! j)" if i: "i < length items" and d: "d \<in> set (wi_deps (items ! i))" for i d
  proof -
    obtain e where "e \<in> set (dependency_edges ra)" "eg_dependent_role e = fst (role_pairs ra ! i)"
      and e: "dep_item d = prerequisite_id e" using deps [OF i, of "dep_item d"] d by blast
    then obtain j where "j < i" "prerequisite_id e = pair_id (role_pairs ra ! j)"
      using prerequisite_earlier [of e ra i] i len by auto
    then show ?thesis using at(1) [of j] i e by (intro exI [of _ j]) simp
  qed
  moreover have "{(x, y). \<exists>c\<in>set items. y = wi_id c \<and> x \<in> dep_item ` set (wi_deps c)} \<subseteq> measure id_rank"
  proof clarsimp
    fix c d assume "c \<in> set items" and d: "d \<in> set (wi_deps c)"
    then obtain i where i: "i < length items" "c = items ! i" by (auto simp: in_set_conv_nth)
    obtain e where "e \<in> set (dependency_edges ra)" "eg_dependent_role e = fst (role_pairs ra ! i)"
      and e: "dep_item d = prerequisite_id e" using deps [OF i(1), of "dep_item d"] d i(2) by blast
    then show "id_rank (dep_item d) < id_rank (wi_id c)"
      using prerequisite_rank [of e ra "role_pairs ra ! i"] at(1) [OF i(1)] i len by simp
  qed
  ultimately show ?thesis using items ids at(2) wf_subset [OF wf_measure] by (auto simp: comp_def)
qed

end
