(* ===== verification/Submission_Order.thy ===== *)
theory Submission_Order
  imports Submission
begin

text \<open>
  What \<open>dependency_order_errors\<close> guarantees: a ledger without order errors has, before every submission
  of a dependent item, the receipt that completed its prerequisite, or the receipt of a later dispatch
  that a fixed correction put in its place.
\<close>

section \<open>Specification\<close>

text \<open>The receipt completed the prerequisite with valid evidence, under the identity of the work item.\<close>

definition completed_with ::
  "string \<Rightarrow> bool \<Rightarrow> json option \<Rightarrow> string list \<Rightarrow> (string \<Rightarrow> bool) \<Rightarrow> json \<Rightarrow> json \<Rightarrow> bool" where
  "completed_with task_id strict identity refs present evidence_status p \<longleftrightarrow>
     (\<exists>receipt_refs. str_set (dget ''expected_refs'' p) = Inr receipt_refs \<and> set refs \<subseteq> set receipt_refs) \<and>
     (\<forall>ref\<in>set refs. valid_evidence_ref present evidence_status ref) \<and>
     (strict \<longrightarrow> dget ''schema_version'' p \<in> JStr ` set deterministic_schemas \<and>
        (\<exists>w. identity = Some w \<and> same_dispatch task_id w p))"

text \<open>The receipt stands for superseded evidence: a later generation of the same item, with valid evidence.\<close>

definition replaces ::
  "string \<Rightarrow> json option \<Rightarrow> string list \<Rightarrow> (string \<Rightarrow> bool) \<Rightarrow> json \<Rightarrow> json \<Rightarrow> json \<Rightarrow> bool" where
  "replaces task_id identity refs present evidence_status cycle p \<longleftrightarrow>
     correction_fixed cycle task_id \<and>
     (\<forall>ref\<in>set refs. evidence_status_value evidence_status ref = ''superseded'') \<and>
     dget ''schema_version'' p = JStr ''valp-dispatch-receipt.v2'' \<and> dget ''task_id'' p = JStr task_id \<and>
     (\<exists>w g requested. identity = Some w \<and> dget ''dispatch_generation'' w = JInt requested \<and>
        dget ''dispatch_generation'' p = JInt g \<and> requested < g \<and>
        py_eq (dget ''work_item_id'' p) (dget ''work_item_id'' w) \<and> py_eq (dget ''role'' p) (dget ''role'' w)) \<and>
     (\<exists>new. str_set (dget ''expected_refs'' p) = Inr new \<and> new \<noteq> [] \<and>
        (\<forall>ref\<in>set new. valid_evidence_ref present evidence_status ref))"

section \<open>The latest receipt\<close>

lemma last_passing_in:
  "last_passing test latest rs = Inr x \<Longrightarrow> x = latest \<or> x \<in> set rs \<and> test x = Inr True"
  by (induction rs arbitrary: latest) (fastforce simp: bind_res_Inr_iff split: if_splits)+

lemma latest_terminal_in:
  assumes "latest_terminal_receipt receipts agent refs task_id identity strict = Inr p"
  shows "p = JObj [] \<or> p \<in> set receipts \<and> dget ''agent'' p = JStr agent"
  using last_passing_in [OF assms [unfolded latest_terminal_receipt_def]] by (auto split: if_splits)

lemma str_member_True: "str_member (jget k r) xs = Inr True \<Longrightarrow> dget k r \<in> JStr ` set xs"
  by (cases "jget k r"; cases "the (jget k r)") (auto simp: dget_def)

lemma receipt_matches_True:
  assumes "receipt_matches p event refs task_id identity strict = Inr True"
  shows "dget ''event'' p = JStr event"
    and "\<exists>receipt_refs. str_set (dget ''expected_refs'' p) = Inr receipt_refs \<and> set refs \<subseteq> set receipt_refs"
    and "strict \<Longrightarrow> dget ''schema_version'' p \<in> JStr ` set deterministic_schemas \<and>
      (\<exists>w. identity = Some w \<and> same_dispatch task_id w p)"
  using assms
  by (auto simp: receipt_matches_def bind_res_Inr_iff known_def dest: str_member_True split: if_splits option.splits)

section \<open>Replacements\<close>

lemma replacements_in:
  "replacements candidate fit n rs = Inr found \<Longrightarrow> (g, i, r) \<in> set found \<Longrightarrow>
     r \<in> set rs \<and> candidate r = Inr (Some g) \<and> fit r = Inr True"
  by (induction rs arbitrary: n found)
     (fastforce simp: bind_res_Inr_iff split: if_splits option.splits)+

lemma latest_by_generation_subset: "set (latest_by_generation xs) \<subseteq> set xs"
  by (induction xs rule: latest_by_generation.induct) auto

lemma greatest_in: "greatest best xs \<in> (snd \<circ> snd) ` set (best # xs)"
proof (induction xs arbitrary: best)
  case (Cons x xs)
  let ?b = "if fst best < fst x \<or> fst best = fst x \<and> fst (snd best) < fst (snd x) then x else best"
  have "greatest best (x # xs) \<in> (snd \<circ> snd) ` set (?b # xs)" using Cons.IH [of ?b] by (simp only: greatest.simps)
  moreover have "set (?b # xs) \<subseteq> set (best # x # xs)" by auto
  ultimately show ?case by (rule subsetD [OF image_mono, rotated])
qed simp

lemma candidate_Some:
  assumes "replacement_candidate agent task_id identity requested r = Inr (Some g)"
  shows "dget ''schema_version'' r = JStr ''valp-dispatch-receipt.v2'' \<and> dget ''task_id'' r = JStr task_id \<and>
    dget ''agent'' r = JStr agent \<and> dget ''dispatch_generation'' r = JInt g \<and> requested < g \<and>
    py_eq (dget ''work_item_id'' r) (dget ''work_item_id'' identity) \<and> py_eq (dget ''role'' r) (dget ''role'' identity)"
  using assms by (cases "dget ''dispatch_generation'' r") (auto simp: replacement_candidate_def bind_res_Inr_iff split: if_splits)

lemma correction_replaces:
  assumes "latest_fixed_correction_receipt receipts agent event refs present evidence_status cycle task_id w = Inr p"
    and "truthy p"
  shows "p \<in> set receipts \<and> dget ''event'' p = JStr event \<and> dget ''agent'' p = JStr agent \<and>
    replaces task_id (Some w) refs present evidence_status cycle p"
proof -
  obtain final rounds requested found where fixed: "correction_fixed cycle task_id"
    and old: "\<forall>ref\<in>set refs. evidence_status_value evidence_status ref = ''superseded''"
    and requested: "dget ''dispatch_generation'' w = JInt requested"
    and found: "replacements (replacement_candidate agent task_id w requested)
      (\<lambda>r. bind_res (str_set (dget ''expected_refs'' r)) (\<lambda>refs.
         if refs = [] \<or> \<not> set refs \<subseteq> set final then Inr False
         else bind_res (covered_by_round refs rounds) (\<lambda>b.
           Inr (b \<and> list_all (valid_evidence_ref present evidence_status) refs)))) 0 receipts = Inr found"
    and p: "p = (case filter (\<lambda>(g, i, r). py_eq (dget ''event'' r) (JStr event)) (latest_by_generation found) of
      [] \<Rightarrow> JObj [] | x # xs \<Rightarrow> greatest x xs)"
    using assms
    by (auto simp: latest_fixed_correction_receipt_def bind_res_Inr_iff Let_def list_all_iff
        split: if_splits json.splits)
  obtain x xs where xs: "filter (\<lambda>(g, i, r). py_eq (dget ''event'' r) (JStr event)) (latest_by_generation found) = x # xs"
    using p assms(2) by (auto split: list.splits)
  then have "p \<in> (snd \<circ> snd) ` set (filter (\<lambda>(g, i, r). py_eq (dget ''event'' r) (JStr event)) (latest_by_generation found))"
    using greatest_in [of x xs] p by simp
  then obtain g i where m: "(g, i, p) \<in> set found" "dget ''event'' p = JStr event"
    using latest_by_generation_subset [of found] by auto
  note r = replacements_in [OF found m(1)]
  have "\<exists>new. str_set (dget ''expected_refs'' p) = Inr new \<and> new \<noteq> [] \<and>
      (\<forall>ref\<in>set new. valid_evidence_ref present evidence_status ref)"
    using r by (auto simp: bind_res_Inr_iff list_all_iff split: if_splits)
  then show ?thesis
    using r m(2) fixed old requested candidate_Some [of agent task_id w requested p g]
    unfolding replaces_def by auto
qed

lemma prerequisite_found:
  assumes "latest_qualifying_prerequisite_receipt receipts agent refs event present evidence_status cycle task_id
      identity strict = Inr p" and "truthy p"
  shows "p \<in> set receipts \<and> dget ''event'' p = JStr event \<and> dget ''agent'' p = JStr agent \<and>
    (completed_with task_id strict identity refs present evidence_status p \<or>
     strict \<and> replaces task_id identity refs present evidence_status cycle p)"
proof -
  obtain latest b where latest: "latest_terminal_receipt receipts agent refs task_id identity strict = Inr latest"
    and b: "receipt_matches latest event refs task_id identity strict = Inr b"
    and rest: "(if b \<and> list_all (valid_evidence_ref present evidence_status) refs then Inr latest
       else if \<not> strict \<or> \<not> known identity then Inr (JObj [])
       else latest_fixed_correction_receipt receipts agent event refs present evidence_status cycle task_id
              (the identity)) = Inr p"
    using assms(1) by (auto simp: latest_qualifying_prerequisite_receipt_def bind_res_Inr_iff)
  show ?thesis
  proof (cases "b \<and> list_all (valid_evidence_ref present evidence_status) refs")
    case True
    then have "p = latest" "receipt_matches p event refs task_id identity strict = Inr True" using rest b by auto
    moreover have "p \<noteq> JObj []" using assms(2) by auto
    ultimately show ?thesis
      using latest_terminal_in [OF latest] receipt_matches_True [of p event refs task_id identity strict] True
      by (auto simp: completed_with_def list_all_iff)
  next
    case False
    then have strict: "strict" "known identity"
      and c: "latest_fixed_correction_receipt receipts agent event refs present evidence_status cycle task_id
        (the identity) = Inr p"
      using rest assms(2) by (auto split: if_splits)
    then obtain w where "identity = Some w" by (auto simp: known_def split: option.splits)
    then show ?thesis using correction_replaces [OF c assms(2)] strict by simp
  qed
qed

section \<open>The loops\<close>

text \<open>A receipt of the ledger is a submission of the dependent, as the check reads it.\<close>

definition submits :: "json \<Rightarrow> json \<Rightarrow> bool \<Rightarrow> json \<Rightarrow> bool" where
  "submits document d manual_mode r \<longleftrightarrow>
     (strict_document document manual_mode \<longrightarrow> dget ''schema_version'' r \<in> JStr ` set deterministic_schemas) \<and>
     py_eq (dget ''agent'' r) (dget ''dependent_agent'' d) \<and>
     dget ''event'' r = JStr (dependent_event manual_mode) \<and>
     (\<exists>refs drefs. str_set (dget ''expected_refs'' r) = Inr refs \<and> str_set (dget ''dependent_refs'' d) = Inr drefs \<and>
        set drefs \<subseteq> set refs)"

lemma submits_matches:
  assumes "submits document d manual_mode r" and "str_set (dget ''dependent_refs'' d) = Inr drefs"
  shows "receipt_matches r (dependent_event manual_mode) drefs [] None False = Inr True"
    and "(if strict_document document manual_mode then str_member (jget ''schema_version'' r) deterministic_schemas
          else Inr True) = Inr True"
proof -
  show "receipt_matches r (dependent_event manual_mode) drefs [] None False = Inr True"
    using assms by (auto simp: submits_def receipt_matches_def known_def)
  show "(if strict_document document manual_mode then str_member (jget ''schema_version'' r) deterministic_schemas
      else Inr True) = Inr True"
    using assms(1) by (cases "jget ''schema_version'' r") (auto simp: submits_def dget_def)
qed

lemma order_loop_ok:
  assumes "order_errors_loop document d prefs drefs present evidence_status manual_mode cycle pid did before rs = Inr []"
    and "i < length rs" and "submits document d manual_mode (rs ! i)" and "str_set (dget ''dependent_refs'' d) = Inr drefs"
  shows "receipt_matches (rs ! i) (dependent_event manual_mode) drefs (get_str ''task_id'' document) did
      (strict_document document manual_mode) = Inr True \<and>
    (\<exists>p. prerequisite_receipt document d (before @ take i rs) prefs present evidence_status cycle manual_mode pid = Inr p \<and>
       truthy p)"
  using assms
proof (induction rs arbitrary: before i)
  case (Cons r rs)
  show ?case
  proof (cases i)
    case 0
    then show ?thesis
      using Cons.prems submits_matches [of document d manual_mode r drefs]
      by (auto simp: Let_def bind_res_Inr_iff submits_def split: if_splits)
  next
    case (Suc j)
    have "order_errors_loop document d prefs drefs present evidence_status manual_mode cycle pid did (before @ [r]) rs = Inr []"
      using Cons.prems(1) by (auto simp: Let_def bind_res_Inr_iff split: if_splits)
    from Cons.IH [OF this, of j] show ?thesis using Cons.prems Suc by simp
  qed
qed simp

lemma dependency_loop_ok:
  assumes "dependency_order_loop document receipts present evidence_status manual_mode cycle ds = Inr []" and "d \<in> set ds"
  shows "\<exists>prefs drefs pid did. str_set (dget ''prerequisite_refs'' d) = Inr prefs \<and>
    str_set (dget ''dependent_refs'' d) = Inr drefs \<and>
    dependency_work_item document (get_str ''prerequisite_work_item_id'' d) = Inr pid \<and>
    dependency_work_item document (get_str ''dependent_work_item_id'' d) = Inr did \<and>
    order_errors_loop document d prefs drefs present evidence_status manual_mode cycle pid did [] receipts = Inr []"
  using assms by (induction ds) (fastforce simp: Let_def bind_res_Inr_iff split: if_splits)+


end
