(* ===== verification/Submission_Witnesses.thy ===== *)
theory Submission_Witnesses
  imports Submission_Ledger Submission_Graph Submission_Order
begin

text \<open>
  A task with a coordinator and an implementer: its document of dependencies, a ledger in which the
  implementer is submitted after the coordinator completed, and the theorems about submissions at
  these values.
\<close>

definition demo_roles :: assignments where
  "demo_roles = [(''coordinator'', ''ann''), (''implementer'', ''bob'')]"

definition demo_dispatch :: "int \<Rightarrow> string \<Rightarrow> string \<Rightarrow> string \<Rightarrow> string \<Rightarrow> json" where
  "demo_dispatch n receipt_id event agent role =
     JObj [(''schema_version'', JStr ''valp-dispatch-receipt.v2''), (''receipt_id'', JStr receipt_id),
           (''task_id'', JStr ''t''), (''event_sequence'', JInt n), (''dispatch_generation'', JInt 1),
           (''suspension_epoch'', JInt 1), (''event'', JStr event), (''agent'', JStr agent), (''role'', JStr role),
           (''work_item_id'', JStr (work_item_key agent role)), (''dispatch_id'', JStr (''t:'' @ role @ '':1'')),
           (''expected_refs'', JArr (map JStr (role_expected_refs agent role)))]"

definition demo_ledger :: "json list" where
  "demo_ledger =
     [demo_dispatch 1 ''r1'' ''dispatch_completed'' ''ann'' ''coordinator'',
      demo_dispatch 2 ''r2'' ''dispatch_submitted'' ''bob'' ''implementer'']"

definition demo_edge :: edge where
  "demo_edge = \<lparr>eg_prerequisite_role = ''coordinator'', eg_prerequisite_agent = ''ann'',
     eg_dependent_role = ''implementer'', eg_dependent_agent = ''bob''\<rparr>"

lemma demo_ledger_clean: "deterministic_receipt_ledger_errors demo_ledger ''t'' = Inr []"
  by code_simp

lemma demo_edges: "dependency_edges demo_roles = [demo_edge]"
  by code_simp

lemma demo_order:
  "dependency_order_errors (built_document ''t'' demo_roles) demo_ledger (\<lambda>_. True) (JObj []) False (JObj []) = Inr []"
  by code_simp

lemma demo_firsts: "firsts {} (filter deterministic demo_ledger) = demo_ledger"
  by (simp add: demo_ledger_def demo_dispatch_def deterministic_def deterministic_schemas_def dget_def receipt_key_def
      get_str_def py_or_def)

text \<open>The bounds at the second receipt of the ledger.\<close>

theorem ledger_sequence_bounds_witness:
  "\<exists>i. dget ''event_sequence'' (demo_ledger ! 1) = JInt i \<and> 2 \<le> i \<and> sequence_of (demo_ledger ! 0) < i"
  using ledger_sequence_bounds [OF demo_ledger_clean, of 1] unfolding demo_firsts
  by (auto simp: demo_ledger_def)

text \<open>The check returns on the ledger, and raises with a version that is a list added to it.\<close>

theorem ledger_check_typed_witness:
  "(\<exists>es. deterministic_receipt_ledger_errors demo_ledger ''t'' = Inr es) \<and>
   (\<exists>m. deterministic_receipt_ledger_errors (JObj [(''schema_version'', JArr [])] # demo_ledger) ''t'' = Inl (TypeError m))"
  using ledger_check_typed [of demo_ledger "''t''"]
    ledger_check_typed [of "JObj [(''schema_version'', JArr [])] # demo_ledger" "''t''"]
  by (simp add: demo_ledger_def demo_dispatch_def dget_def)

text \<open>The built document passes its check.\<close>

theorem validate_accepts_only_built_witness:
  "validate_submission_dependencies (built_document ''t'' demo_roles) ''t'' demo_roles = Inr []"
proof -
  have "is_obj (built_document ''t'' demo_roles)" "distinct (keys (built_document ''t'' demo_roles))"
    by (simp_all add: built_fields) (simp add: built_document_def)
  from validate_accepts_only_built [OF this, of "''t''" demo_roles]
  show ?thesis by (simp add: build_is_built)
qed

text \<open>The Kernel runtime declares the two items, the second waiting for the first.\<close>

lemma demo_pairs: "role_pairs demo_roles = demo_roles"
  by code_simp

theorem built_graph_terminates_witness:
  "\<exists>items. declared_work_items (Doc (built_document ''t'' demo_roles)) ''t'' [] [] (Identity IK_TASK ''t'') = Inr items \<and>
     map wi_id items = [Identity IK_WORK_ITEM ''coordinator:ann'', Identity IK_WORK_ITEM ''implementer:bob''] \<and>
     (\<forall>i<length items. \<forall>d\<in>set (wi_deps (items ! i)). \<exists>j<i. dep_item d = wi_id (items ! j))"
proof -
  have "submissions_by_item [] [] = Inr []" by (simp add: submissions_by_item_def)
  from built_graph_terminates [OF build_is_built _ this, of demo_roles "Identity IK_TASK ''t''" "''t''"]
  obtain items where "declared_work_items (Doc (built_document ''t'' demo_roles)) ''t'' [] [] (Identity IK_TASK ''t'') = Inr items"
    and ids: "map wi_id items = map pair_id demo_roles"
    and "\<forall>i<length items. \<forall>d\<in>set (wi_deps (items ! i)). \<exists>j<i. dep_item d = wi_id (items ! j)"
    unfolding demo_pairs by (auto simp: demo_roles_def)
  moreover have "map pair_id demo_roles = [Identity IK_WORK_ITEM ''coordinator:ann'', Identity IK_WORK_ITEM ''implementer:bob'']"
    by (simp add: demo_roles_def pair_id_def pair_key_def work_item_key_def)
  ultimately show ?thesis by auto
qed

text \<open>The submission of the implementer follows the completion of the coordinator.\<close>

lemma demo_submits: "submits (built_document ''t'' demo_roles) (built_dependency demo_edge) False (demo_ledger ! 1)"
  by (simp add: submits_def demo_ledger_def demo_dispatch_def strict_document_def built_fields dget_def
      deterministic_schemas_def built_dependency_def edge_entries_def demo_edge_def dependent_refs_json_def
      dependent_event_def str_set_def py_or_def role_expected_refs_def)


end
