(* ===== verification/Task_Control.thy ===== *)
theory Task_Control
  imports Control_Transition Ascii_Json
begin

text \<open>
  \<^verbatim>\<open>src/valp_cli/task_control.py\<close>: the tasks of an installation. A task has a ledger of events, each with
  the state it leads to, and a file with the current state. \<open>replay_task\<close> rebuilds the state from the
  ledger and compares it with the file; \<open>transition_task\<close> appends an event and replaces the file.

  The installation is read only, as \<open>Control_Transition\<close> models it. As there, an operation has a number of
  writes that still happen, and the next one is a crash; identifiers and times are arguments. The lock
  serialises the second half of a transition, which is an operation of its own here, so that other
  transitions can come between the halves.
\<close>

section \<open>Tables\<close>

definition TASK_STATUSES :: "string list" where
  "TASK_STATUSES =
     [''new'', ''published'', ''scanning_capabilities'', ''scanning_context'', ''loading_local_overlay'',
      ''selecting_runtime_adapter'', ''classifying_task'', ''selecting_profile'', ''decomposing_tasks'',
      ''recommending_skills'', ''building_provider_matrix'', ''scoring_routes'', ''routing_capabilities'',
      ''routing_squad'', ''dispatching'', ''suspended'', ''planned'', ''locked'', ''executing'', ''verifying'',
      ''reviewing'', ''resolving_agent_recommendations'', ''fixing'', ''approval_required'', ''recording'',
      ''done'', ''blocked'', ''failed'', ''cancelled'']"

definition TASK_TRANSITIONS :: "(string \<times> string list) list" where
  "TASK_TRANSITIONS =
     [(''new'', [''published'', ''blocked'']),
      (''published'', [''scanning_capabilities'', ''blocked'']),
      (''scanning_capabilities'', [''scanning_context'', ''blocked'']),
      (''scanning_context'', [''loading_local_overlay'', ''blocked'']),
      (''loading_local_overlay'', [''selecting_runtime_adapter'', ''blocked'']),
      (''selecting_runtime_adapter'', [''classifying_task'', ''blocked'']),
      (''classifying_task'', [''selecting_profile'', ''blocked'']),
      (''selecting_profile'', [''decomposing_tasks'', ''blocked'']),
      (''decomposing_tasks'', [''recommending_skills'', ''building_provider_matrix'', ''blocked'']),
      (''recommending_skills'', [''building_provider_matrix'', ''blocked'']),
      (''building_provider_matrix'', [''preflighting_runtime'', ''scoring_routes'', ''blocked'']),
      (''preflighting_runtime'', [''scoring_routes'', ''blocked'']),
      (''scoring_routes'', [''routing_capabilities'', ''blocked'']),
      (''routing_capabilities'', [''routing_squad'', ''dispatching'', ''planned'', ''blocked'']),
      (''routing_squad'', [''dispatching'', ''planned'', ''blocked'']),
      (''dispatching'', [''suspended'', ''executing'', ''verifying'', ''blocked'', ''cancelled'']),
      (''suspended'', [''executing'', ''verifying'', ''blocked'', ''cancelled'']),
      (''planned'', [''locked'', ''dispatching'', ''blocked'']),
      (''locked'', [''executing'', ''blocked'', ''cancelled'']),
      (''executing'', [''verifying'', ''blocked'', ''cancelled'']),
      (''verifying'', [''reviewing'', ''fixing'', ''approval_required'', ''recording'', ''blocked'']),
      (''reviewing'', [''resolving_agent_recommendations'', ''fixing'', ''approval_required'', ''recording'', ''blocked'']),
      (''resolving_agent_recommendations'', [''fixing'', ''approval_required'', ''recording'', ''blocked'']),
      (''fixing'', [''dispatching'', ''executing'', ''verifying'', ''blocked'', ''cancelled'']),
      (''approval_required'', [''recording'', ''blocked'', ''cancelled'']),
      (''recording'', [''done'', ''blocked'']),
      (''done'', [''blocked'']),
      (''blocked'', [''published'', ''scanning_capabilities'', ''dispatching'', ''fixing'', ''executing'', ''verifying'',
        ''cancelled'']),
      (''failed'', [''published'', ''blocked'', ''cancelled'']),
      (''cancelled'', [])]"

definition DONE_GATES :: "string list" where
  "DONE_GATES =
     [''receipts'', ''expected_evidence'', ''verification'', ''review'', ''approvals'', ''final_synthesis'', ''audit'']"

definition task_allowed_changes :: "string list" where
  "task_allowed_changes =
     [''revision'', ''status'', ''gates'', ''active_blockers'', ''updated_at'', ''last_event_id'', ''last_event_digest'',
      ''projection_digest'']"

section \<open>Files and failures\<close>

record task_disk =
  td_state :: doc
  td_events :: ledger_file

text \<open>The failures of the control plane, and Python's \<^verbatim>\<open>AttributeError\<close>.\<close>

datatype task_failure = Control control_failure | NoAttribute string

type_synonym 'a tres = "task_failure + 'a"

fun ctl :: "'a cres \<Rightarrow> 'a tres" where
  "ctl (Inl e) = Inl (Control e)"
| "ctl (Inr x) = Inr x"

definition refuse_task :: "bool \<Rightarrow> control_failure \<Rightarrow> unit tres" where
  "refuse_task b e = ctl (refuse_if b e)"

definition blocked_task :: "bool \<Rightarrow> string \<Rightarrow> unit tres" where
  "blocked_task b msg = refuse_task b (inconsistent_blocked msg)"

text \<open>\<^verbatim>\<open>value.get(...)\<close> needs a dictionary.\<close>

definition need_object :: "json \<Rightarrow> unit tres" where
  "need_object v = (if is_obj v then Inr () else Inl (NoAttribute ''object has no attribute''))"

definition safe_task_id :: "string \<Rightarrow> bool" where
  "safe_task_id t \<longleftrightarrow> t \<noteq> [] \<and> CHR ''/'' \<notin> set t \<and> backslash \<notin> set t \<and> t \<notin> {''.'', ''..''}"

definition task_dir :: "string \<Rightarrow> unit tres" where
  "task_dir task_id =
     refuse_task (\<not> safe_task_id task_id)
       (ControlPlaneError ''VALP-E-MESSAGE-SCHEMA'' ''Task id must be a single safe path segment'' unchanged)"

definition task_digest :: "json \<Rightarrow> string" where
  "task_digest s = state_digest s"

text \<open>The digest of an event, over ASCII text.\<close>

definition task_event_digest :: "json \<Rightarrow> string" where
  "task_event_digest e = ''sha256:'' @ sha256_hex (ascii_compact (ddel ''event_digest'' e) @ [CHR 10])"

text \<open>\<^verbatim>\<open>json.loads\<close> of every line, before any is looked at.\<close>

fun load_events :: "line list \<Rightarrow> json list tres" where
  "load_events [] = Inr []"
| "load_events (Malformed # ls) = Inl (Control (PyFault (ValueError ''JSONDecodeError'')))"
| "load_events (Line v # ls) = bind_res (load_events ls) (\<lambda>vs. Inr (v # vs))"

section \<open>Replay\<close>

record task_cursor =
  tk_ids :: "json list"
  tk_digest :: json
  tk_revision :: int
  tk_state :: "json option"

definition task_start :: task_cursor where
  "task_start = \<lparr>tk_ids = [], tk_digest = JNull, tk_revision = 0, tk_state = None\<rparr>"

text \<open>\<^verbatim>\<open>(event.get("payload") or {}).get("state_projection")\<close>.\<close>

definition event_projection :: "json \<Rightarrow> json tres" where
  "event_projection e =
     (let payload = py_or (dget ''payload'' e) (JObj []) in
      bind_res (need_object payload) (\<lambda>_. Inr (dget ''state_projection'' payload)))"

definition task_changed_fields :: "json \<Rightarrow> json \<Rightarrow> string list" where
  "task_changed_fields v w = filter (\<lambda>k. \<not> py_eq (dget k v) (dget k w)) (keys v @ keys w)"

text \<open>\<^verbatim>\<open>any((gates or {}).get(gate) is not True for gate in DONE_GATES)\<close>.\<close>

definition gates_open :: "json \<Rightarrow> bool tres" where
  "gates_open gates =
     (let g = py_or gates (JObj []) in
      bind_res (need_object g) (\<lambda>_. Inr (list_ex (\<lambda>gate. dget gate g \<noteq> JBool True) DONE_GATES)))"

definition next_task_blockers :: "json \<Rightarrow> string \<Rightarrow> json tres" where
  "next_task_blockers blockers target =
     (if target = ''blocked''
      then bind_res (ctl (py (py_list (py_or blockers (JArr [JStr target]))))) (\<lambda>xs. Inr (JArr xs))
      else Inr (JArr []))"

text \<open>The event of a transition against the state before it.\<close>

definition check_task_transition :: "json \<Rightarrow> json \<Rightarrow> json \<Rightarrow> json \<Rightarrow> unit tres" where
  "check_task_transition current e projection previous_digest =
     (let target = dget ''status'' projection; bad = ''Task transition semantics are inconsistent'' in
      bind_res (blocked_task (\<not> py_eq (dget ''event_kind'' e) (JStr (''task_'' @ py_str target))) bad) (\<lambda>_.
      bind_res (ctl (py (str_member (Some target) TASK_STATUSES))) (\<lambda>known.
      bind_res (blocked_task (\<not> known) bad) (\<lambda>_.
      bind_res (blocked_task
        (py_str target \<notin> set (row TASK_TRANSITIONS (py_str (dget ''status'' current))) \<or>
         \<not> py_eq (dget ''last_event_id'' projection) (dget ''event_id'' e) \<or>
         \<not> py_eq (dget ''last_event_digest'' projection) previous_digest) bad) (\<lambda>_.
      bind_res (blocked_task (\<not> set (task_changed_fields current projection) \<subseteq> set task_allowed_changes)
        ''Task transition changes undeclared fields'') (\<lambda>_.
      bind_res (next_task_blockers (dget ''active_blockers'' current) (py_str target)) (\<lambda>blockers.
      bind_res (blocked_task (\<not> py_eq (dget ''active_blockers'' projection) blockers)
        ''Task blocker projection is inconsistent'') (\<lambda>_.
      bind_res (if py_str target = ''done'' then gates_open (dget ''gates'' projection) else Inr False) (\<lambda>open_gates.
        blocked_task open_gates ''Task Done gates are incomplete'')))))))))"

definition check_task_genesis :: "json \<Rightarrow> unit tres" where
  "check_task_genesis projection =
     blocked_task
       (\<not> py_eq (dget ''status'' projection) (JStr ''new'') \<or> dget ''last_event_id'' projection \<noteq> JNull \<or>
        dget ''last_event_digest'' projection \<noteq> JNull) ''Task genesis projection is malformed''"

text \<open>\<^verbatim>\<open>current = dict(projection)\<close> with the identity and digest of its event.\<close>

definition task_after :: "json \<Rightarrow> json \<Rightarrow> json" where
  "task_after e projection =
     sealed (dset ''last_event_digest'' (dget ''event_digest'' e) (dset ''last_event_id'' (dget ''event_id'' e) projection))"

definition replay_task_event :: "string \<Rightarrow> json \<Rightarrow> task_cursor \<Rightarrow> json \<Rightarrow> task_cursor tres" where
  "replay_task_event task_id installation_id c e =
     (let identity = ''Task event identity mismatch'' in
      bind_res (need_object e) (\<lambda>_.
      bind_res (blocked_task
        (\<not> py_eq (dget ''task_id'' e) (JStr task_id) \<or> \<not> py_eq (dget ''installation_id'' e) installation_id) identity) (\<lambda>_.
      bind_res (ctl (py (in_keys (dget ''event_id'' e) (tk_ids c)))) (\<lambda>repeated.
      bind_res (blocked_task
        (repeated \<or> (tk_state c = None) \<noteq> py_eq (dget ''event_kind'' e) (JStr ''task_initialized'')) identity) (\<lambda>_.
      bind_res (blocked_task (\<not> py_eq (dget ''prior_event_digest'' e) (tk_digest c)) ''Task event chain mismatch'') (\<lambda>_.
      bind_res (blocked_task
        (\<not> py_eq (dget ''prior_revision'' e) (JInt (tk_revision c)) \<or>
         \<not> py_eq (dget ''new_revision'' e) (JInt (if tk_state c = None then 0 else tk_revision c + 1)))
        ''Task event revision chain mismatch'') (\<lambda>_.
      bind_res (blocked_task (\<not> py_eq (dget ''event_digest'' e) (JStr (task_event_digest e))) ''Task event digest mismatch'') (\<lambda>_.
      bind_res (event_projection e) (\<lambda>projection.
      bind_res (blocked_task (\<not> is_obj projection) ''Task event has no projection'') (\<lambda>_.
      bind_res (blocked_task
        (\<not> py_eq (dget ''task_id'' projection) (JStr task_id) \<or>
         \<not> py_eq (dget ''installation_id'' projection) installation_id \<or>
         \<not> py_eq (dget ''revision'' projection) (dget ''new_revision'' e) \<or>
         \<not> py_eq (dget ''projection_digest'' projection) (JStr (task_digest projection)))
        ''Task event projection identity mismatch'') (\<lambda>_.
      bind_res (case tk_state c of
                  None \<Rightarrow> check_task_genesis projection
                | Some current \<Rightarrow> check_task_transition current e projection (tk_digest c)) (\<lambda>_.
        Inr \<lparr>tk_ids = dget ''event_id'' e # tk_ids c, tk_digest = dget ''event_digest'' e,
             tk_revision = (if tk_state c = None then 0 else tk_revision c + 1),
             tk_state = Some (task_after e projection)\<rparr>))))))))))))"

fun replay_task_events :: "string \<Rightarrow> json \<Rightarrow> task_cursor \<Rightarrow> json list \<Rightarrow> task_cursor tres" where
  "replay_task_events task_id installation_id c [] = Inr c"
| "replay_task_events task_id installation_id c (e # es) =
     bind_res (replay_task_event task_id installation_id c e) (\<lambda>c'.
       replay_task_events task_id installation_id c' es)"

definition replay_task :: "string \<Rightarrow> json option \<Rightarrow> installation_disk \<Rightarrow> task_disk \<Rightarrow> json tres" where
  "replay_task task_id persisted i d =
     bind_res (task_dir task_id) (\<lambda>_.
     bind_res (ctl (installation_doc i)) (\<lambda>inst.
     bind_res (load_events (lf_lines (td_events d))) (\<lambda>events.
     bind_res (replay_task_events task_id (dget ''installation_id'' inst) task_start events) (\<lambda>c.
       case tk_state c of
         None \<Rightarrow> Inl (Control (inconsistent_blocked ''Task has no initialization event''))
       | Some current \<Rightarrow>
           bind_res (case persisted of
                       Some s \<Rightarrow> if truthy s then Inr s else ctl (read_json ''task-state.json'' (td_state d))
                     | None \<Rightarrow> ctl (read_json ''task-state.json'' (td_state d))) (\<lambda>saved.
           bind_res (blocked_task (\<not> py_eq saved current) ''Task projection differs from event replay'') (\<lambda>_.
             Inr current))))))"

definition task_state :: "string \<Rightarrow> installation_disk \<Rightarrow> task_disk \<Rightarrow> json tres" where
  "task_state task_id i d =
     bind_res (task_dir task_id) (\<lambda>_.
     bind_res (ctl (read_json ''task-state.json'' (td_state d))) (\<lambda>s.
     bind_res (blocked_task (\<not> py_eq (dget ''projection_digest'' s) (JStr (task_digest s)))
       ''Task projection digest mismatch'') (\<lambda>_.
     bind_res (replay_task task_id (Some s) i d) (\<lambda>_. Inr s))))"

section \<open>Operations\<close>

type_synonym 'a task_op = "task_disk \<times> nat \<Rightarrow> 'a tres \<times> task_disk \<times> nat"

definition bind_task :: "'a task_op \<Rightarrow> ('a \<Rightarrow> 'b task_op) \<Rightarrow> 'b task_op" where
  "bind_task m f = (\<lambda>s. case m s of (Inl e, s') \<Rightarrow> (Inl e, s') | (Inr x, s') \<Rightarrow> f x s')"

definition reading_task :: "(task_disk \<Rightarrow> 'a tres) \<Rightarrow> 'a task_op" where
  "reading_task r = (\<lambda>s. (r (fst s), s))"

definition writing_task :: "(task_disk \<Rightarrow> task_disk) \<Rightarrow> unit task_op" where
  "writing_task w = (\<lambda>(d, n). case n of 0 \<Rightarrow> (Inl (Control Crash), d, 0) | Suc m \<Rightarrow> (Inr (), w d, m))"

text \<open>\<^verbatim>\<open>append_jsonl(events)\<close> and then \<^verbatim>\<open>write_json(state)\<close>.\<close>

definition record_event :: "json \<Rightarrow> json \<Rightarrow> unit task_op" where
  "record_event e s =
     bind_task (writing_task (\<lambda>d. d\<lparr>td_events := append_line e (td_events d)\<rparr>)) (\<lambda>_.
       writing_task (\<lambda>d. d\<lparr>td_state := Doc s\<rparr>))"

definition initial_task_state :: "string \<Rightarrow> json \<Rightarrow> string \<Rightarrow> json" where
  "initial_task_state now installation_id task_id =
     sealed (JObj
       [(''schema_version'', JStr ''valp-task-state.v1''), (''installation_id'', installation_id),
        (''task_id'', JStr task_id), (''revision'', JInt 0), (''status'', JStr ''new''),
        (''active_blockers'', JArr []), (''gates'', JObj []), (''last_event_id'', JNull),
        (''last_event_digest'', JNull), (''protocol_version'', JStr ''0.3.0''), (''updated_at'', JStr now),
        (''projection_digest'', JStr [])])"

definition sealed_event :: "json \<Rightarrow> json" where
  "sealed_event e = dset ''event_digest'' (JStr (task_event_digest e)) e"

definition initial_event :: "string \<Rightarrow> json \<Rightarrow> string \<Rightarrow> json \<Rightarrow> json" where
  "initial_event event_id installation_id task_id s =
     sealed_event (JObj
       [(''schema_version'', JStr ''valp-task-event.v1''), (''event_id'', JStr event_id), (''task_id'', JStr task_id),
        (''installation_id'', installation_id), (''event_kind'', JStr ''task_initialized''),
        (''prior_revision'', JInt 0), (''new_revision'', JInt 0), (''payload'', JObj [(''state_projection'', s)]),
        (''event_digest'', JStr [])])"

definition init_task :: "string \<Rightarrow> string \<Rightarrow> string \<Rightarrow> installation_disk \<Rightarrow> json task_op" where
  "init_task now event_id task_id i =
     bind_task (reading_task (\<lambda>_. ctl (installation_doc i))) (\<lambda>inst.
     bind_task (reading_task (\<lambda>_. task_dir task_id)) (\<lambda>_.
     bind_task (reading_task (\<lambda>d. Inr (td_state d))) (\<lambda>f.
       if exists_doc f then reading_task (\<lambda>_. ctl (read_json ''task-state.json'' f))
       else
         bind_task (reading_task (\<lambda>_. ctl (sub ''installation_id'' inst))) (\<lambda>iid.
         let s = initial_task_state now iid task_id; e = initial_event event_id iid task_id s; s' = task_after e s in
         bind_task (record_event e s') (\<lambda>_. reading_task (\<lambda>_. Inr s'))))))"

record task_request =
  tq_task :: string
  tq_target :: string
  tq_expected :: "int option"
  tq_gates :: json
  tq_actor :: string

text \<open>The event of a transition; the projection inside it has the digest of the event before.\<close>

definition transition_event :: "task_request \<Rightarrow> json \<Rightarrow> json \<Rightarrow> json \<Rightarrow> json" where
  "transition_event q current epoch projection =
     sealed_event (JObj
       [(''schema_version'', JStr ''valp-task-event.v1''), (''event_id'', dget ''last_event_id'' projection),
        (''task_id'', JStr (tq_task q)), (''installation_id'', dget ''installation_id'' current),
        (''leader_epoch'', epoch), (''event_kind'', JStr (''task_'' @ tq_target q)),
        (''actor_principal_id'', JStr (tq_actor q)), (''prior_revision'', dget ''revision'' current),
        (''new_revision'', dget ''revision'' projection), (''payload'', JObj [(''state_projection'', projection)]),
        (''prior_event_digest'', dget ''last_event_digest'' current)])"

text \<open>
  \<^verbatim>\<open>dict(current.get("gates") or {})\<close> with \<^verbatim>\<open>update\<close>. Anything but an object is refused with a type
  error, also a list of pairs, from which \<^verbatim>\<open>dict\<close> would build one.
\<close>

definition next_gates :: "json \<Rightarrow> json \<Rightarrow> json tres" where
  "next_gates gates added =
     (case py_or gates (JObj []) of
        JObj kvs \<Rightarrow> Inr (case added of JObj new \<Rightarrow> foldl (\<lambda>g (k, v). dset k v g) (JObj kvs) new | _ \<Rightarrow> JObj kvs)
      | _ \<Rightarrow> Inl (Control (PyFault (TypeError ''cannot convert to a dictionary''))))"

definition next_task_state :: "string \<Rightarrow> string \<Rightarrow> task_request \<Rightarrow> json \<Rightarrow> json \<Rightarrow> json \<Rightarrow> int \<Rightarrow> json" where
  "next_task_state now event_id q current gates blockers revision =
     sealed (dset ''last_event_id'' (JStr event_id) (dset ''updated_at'' (JStr now)
       (dset ''active_blockers'' blockers (dset ''gates'' gates (dset ''status'' (JStr (tq_target q))
       (dset ''revision'' (JInt revision) current))))))"

definition legal_task_move :: "json \<Rightarrow> string \<Rightarrow> bool tres" where
  "legal_task_move status target =
     (if target \<notin> set TASK_STATUSES then Inr False
      else case status of
        JStr s \<Rightarrow> Inr (target \<in> set (row TASK_TRANSITIONS s))
      | _ \<Rightarrow> if hashable status then Inr False else Inl (Control (PyFault (TypeError ''unhashable type''))))"

definition tsub :: "string \<Rightarrow> json \<Rightarrow> json tres" where
  "tsub k v = ctl (sub k v)"

text \<open>The first half of \<^verbatim>\<open>transition_task\<close>: the state it starts from, the event and the next state.\<close>

definition prepare_task ::
  "string \<Rightarrow> string \<Rightarrow> task_request \<Rightarrow> installation_disk \<Rightarrow> task_disk \<Rightarrow> (json \<times> json \<times> json) tres" where
  "prepare_task now event_id q i d =
     bind_res (ctl (current_state i)) (\<lambda>inst.
     bind_res (tsub ''status'' inst) (\<lambda>status.
     bind_res (ctl (py (str_member (Some status) [''active'', ''degraded'']))) (\<lambda>running.
     bind_res (refuse_task (\<not> running)
       (ControlPlaneError ''VALP-E-STATE-CONFLICT'' ''Task transitions require an active installation'' unchanged)) (\<lambda>_.
     bind_res (task_dir (tq_task q)) (\<lambda>_.
     bind_res (ctl (read_json ''task-state.json'' (td_state d))) (\<lambda>persisted.
     bind_res (refuse_task (\<not> py_eq (dget ''protocol_version'' persisted) (JStr ''0.3.0''))
       (ControlPlaneError ''VALP-E-MIGRATION-UNSUPPORTED''
         ''Legacy task state is read-only until an explicit task projection migration exists'' unchanged)) (\<lambda>_.
     bind_res (task_state (tq_task q) i d) (\<lambda>current.
     bind_res (if tq_target q \<in> set TASK_STATUSES then tsub ''status'' current else Inr JNull) (\<lambda>from.
     bind_res (legal_task_move from (tq_target q)) (\<lambda>legal.
     bind_res (if legal then Inr from else tsub ''status'' current) (\<lambda>shown.
     bind_res (refuse_task (\<not> legal)
       (ControlPlaneError ''VALP-E-STATE-TRANSITION''
         (''Illegal task transition '' @ py_str shown @ '' -> '' @ tq_target q) unchanged)) (\<lambda>_.
     bind_res (case tq_expected q of
                 None \<Rightarrow> Inr ()
               | Some r \<Rightarrow> bind_res (tsub ''revision'' current) (\<lambda>n.
                   refuse_task (\<not> py_eq (JInt r) n)
                     (ControlPlaneError ''VALP-E-STATE-CONFLICT''
                       (''Expected task revision '' @ int_str r @ '', current is '' @ py_str n) unchanged))) (\<lambda>_.
     bind_res (next_gates (dget ''gates'' current) (tq_gates q)) (\<lambda>gates.
     bind_res (refuse_task (tq_target q = ''done'' \<and> list_ex (\<lambda>g. dget g gates \<noteq> JBool True) DONE_GATES)
       (ControlPlaneError ''VALP-E-EVIDENCE-MISSING''
         (''Done gates unresolved: '' @ comma_spaces (filter (\<lambda>g. dget g gates \<noteq> JBool True) DONE_GATES)) unchanged)) (\<lambda>_.
     bind_res (tsub ''revision'' current) (\<lambda>n.
     bind_res (ctl (py (plus_one n))) (\<lambda>revision.
     bind_res (next_task_blockers (dget ''active_blockers'' current) (tq_target q)) (\<lambda>blockers.
     bind_res (tsub ''installation_id'' current) (\<lambda>_.
     bind_res (tsub ''active_leader_epoch'' inst) (\<lambda>epoch.
       let projection = next_task_state now event_id q current gates blockers revision;
           e = transition_event q current epoch projection
       in Inr (current, e, sealed (dset ''last_event_digest'' (dget ''event_digest'' e) projection))))))))))))))))))))))"

text \<open>The second half, under the lock.\<close>

definition commit_task :: "string \<Rightarrow> installation_disk \<Rightarrow> json \<times> json \<times> json \<Rightarrow> json task_op" where
  "commit_task task_id i prepared =
     (case prepared of (current, e, next_state) \<Rightarrow>
        bind_task (reading_task (task_state task_id i)) (\<lambda>again.
        bind_task (reading_task (\<lambda>_. bind_res (tsub ''revision'' again) (\<lambda>n.
          bind_res (tsub ''revision'' current) (\<lambda>m.
          refuse_task (\<not> py_eq n m)
            (ControlPlaneError ''VALP-E-STATE-CONFLICT'' ''Task changed while transition was prepared'' unchanged))))) (\<lambda>_.
        bind_task (record_event e next_state) (\<lambda>_. reading_task (\<lambda>_. Inr next_state)))))"

definition transition_task :: "string \<Rightarrow> string \<Rightarrow> task_request \<Rightarrow> installation_disk \<Rightarrow> json task_op" where
  "transition_task now event_id q i =
     bind_task (reading_task (prepare_task now event_id q i)) (commit_task (tq_task q) i)"

end
