(* ===== verification/Task_Replay.thy ===== *)
theory Task_Replay
  imports Task_Control Control_Replay
begin

text \<open>
  Replay of a task's ledger: what it accepts, that it follows the table of transitions, and that
  initialisation and transitions keep it successful.
\<close>

section \<open>What replay accepts\<close>

lemma blocked_task_ok [simp]: "blocked_task b msg = Inr u \<longleftrightarrow> \<not> b"
  by (cases u) (simp add: blocked_task_def refuse_task_def refuse_if_def)

lemma refuse_task_ok [simp]: "refuse_task b e = Inr u \<longleftrightarrow> \<not> b"
  by (cases u) (simp add: refuse_task_def refuse_if_def)

lemma need_object_ok [simp]: "need_object v = Inr u \<longleftrightarrow> is_obj v"
  by (cases u) (simp add: need_object_def)

lemma ctl_ok [simp]: "ctl r = Inr x \<longleftrightarrow> r = Inr x"
  by (cases r) auto

lemma py_ok [simp]: "py r = Inr x \<longleftrightarrow> r = Inr x"
  by (cases r) auto

lemma tsub_ok: "tsub k v = Inr x \<Longrightarrow> dget k v = x"
  by (auto simp: tsub_def sub_def dget_def split: option.splits)

definition legal_task :: "string \<Rightarrow> string \<Rightarrow> bool" where
  "legal_task a b \<longleftrightarrow> b \<in> set TASK_STATUSES \<and> b \<in> set (row TASK_TRANSITIONS a)"

definition gates_true :: "json \<Rightarrow> bool" where
  "gates_true g \<longleftrightarrow> (\<forall>gate\<in>set DONE_GATES. dget gate g = JBool True)"

lemma gates_true_object: "gates_true g \<Longrightarrow> is_obj g"
  by (cases g) (auto simp: gates_true_def DONE_GATES_def dget_def)

lemma gates_open_ok: "gates_open g = Inr False \<longleftrightarrow> gates_true g"
proof
  assume "gates_open g = Inr False"
  then have "is_obj (py_or g (JObj []))" "\<forall>gate\<in>set DONE_GATES. dget gate (py_or g (JObj [])) = JBool True"
    by (auto simp: gates_open_def Let_def bind_res_Inr_iff list_ex_iff)
  moreover have "truthy g"
  proof (rule ccontr)
    assume "\<not> truthy g"
    then show False using calculation(2) by (simp add: py_or_def DONE_GATES_def dget_def) blast
  qed
  ultimately show "gates_true g" by (simp add: py_or_def gates_true_def)
next
  assume g: "gates_true g"
  then have "truthy g" by (cases g) (auto simp: gates_true_def DONE_GATES_def dget_def)
  then show "gates_open g = Inr False"
    using g gates_true_object [OF g] by (auto simp: gates_open_def Let_def py_or_def need_object_def list_ex_iff gates_true_def)
qed

lemma str_member_str: "str_member (Some v) xs = Inr True \<longleftrightarrow> (\<exists>s. v = JStr s \<and> s \<in> set xs)"
  by (cases v) auto

lemma check_task_transition_ok:
  "check_task_transition current e projection previous = Inr u \<longleftrightarrow>
     (\<exists>target blockers. dget ''status'' projection = JStr target \<and> dget ''event_kind'' e = JStr (''task_'' @ target) \<and>
        legal_task (py_str (dget ''status'' current)) target \<and>
        py_eq (dget ''last_event_id'' projection) (dget ''event_id'' e) \<and>
        py_eq (dget ''last_event_digest'' projection) previous \<and>
        set (task_changed_fields current projection) \<subseteq> set task_allowed_changes \<and>
        next_task_blockers (dget ''active_blockers'' current) target = Inr blockers \<and>
        py_eq (dget ''active_blockers'' projection) blockers \<and>
        (target = ''done'' \<longrightarrow> gates_true (dget ''gates'' projection)))"
proof (cases "\<exists>s. dget ''status'' projection = JStr s \<and> s \<in> set TASK_STATUSES")
  case False
  then have "str_member (Some (dget ''status'' projection)) TASK_STATUSES \<noteq> Inr True" by (simp add: str_member_str)
  then show ?thesis
    using False by (auto simp: check_task_transition_def Let_def bind_res_Inr_iff legal_task_def)
next
  case True
  then obtain s where s: "dget ''status'' projection = JStr s" "s \<in> set TASK_STATUSES" by blast
  then have "str_member (Some (dget ''status'' projection)) TASK_STATUSES = Inr True" by simp
  then show ?thesis
    using s gates_open_ok [of "dget ''gates'' projection"]
    by (cases "s = ''done''"; cases "gates_open (dget ''gates'' projection)")
       (auto simp: check_task_transition_def Let_def bind_res_Inr_iff legal_task_def)
qed

text \<open>The projection of an event that replays.\<close>

definition projected :: "json \<Rightarrow> json" where
  "projected e = dget ''state_projection'' (dget ''payload'' e)"

lemma event_projection_ok: "event_projection e = Inr p \<Longrightarrow> is_obj p \<Longrightarrow> p = projected e"
  by (auto simp: event_projection_def Let_def bind_res_Inr_iff py_or_def projected_def dget_def split: if_splits)

lemma event_projection_intro: "is_obj (projected e) \<Longrightarrow> event_projection e = Inr (projected e)"
proof -
  assume a: "is_obj (projected e)"
  then have "truthy (dget ''payload'' e)" "is_obj (dget ''payload'' e)"
    by (cases "dget ''payload'' e"; auto simp: projected_def dget_def [of "''state_projection''"] split: if_splits)+
  then show ?thesis by (simp add: event_projection_def Let_def py_or_def need_object_def projected_def)
qed

definition next_revision :: "task_cursor \<Rightarrow> int" where
  "next_revision c = (if tk_state c = None then 0 else tk_revision c + 1)"

lemma replay_task_event_ok:
  "replay_task_event t iid c e = Inr c' \<longleftrightarrow>
     is_obj e \<and> dget ''task_id'' e = JStr t \<and> py_eq (dget ''installation_id'' e) iid \<and>
     in_keys (dget ''event_id'' e) (tk_ids c) = Inr False \<and>
     (tk_state c = None) = (dget ''event_kind'' e = JStr ''task_initialized'') \<and>
     py_eq (dget ''prior_event_digest'' e) (tk_digest c) \<and>
     py_eq (dget ''prior_revision'' e) (JInt (tk_revision c)) \<and>
     py_eq (dget ''new_revision'' e) (JInt (next_revision c)) \<and>
     dget ''event_digest'' e = JStr (task_event_digest e) \<and>
     is_obj (projected e) \<and> dget ''task_id'' (projected e) = JStr t \<and>
     py_eq (dget ''installation_id'' (projected e)) iid \<and>
     py_eq (dget ''revision'' (projected e)) (dget ''new_revision'' e) \<and>
     dget ''projection_digest'' (projected e) = JStr (task_digest (projected e)) \<and>
     (case tk_state c of
        None \<Rightarrow> check_task_genesis (projected e)
      | Some current \<Rightarrow> check_task_transition current e (projected e) (tk_digest c)) = Inr () \<and>
     c' = \<lparr>tk_ids = dget ''event_id'' e # tk_ids c, tk_digest = dget ''event_digest'' e,
           tk_revision = next_revision c, tk_state = Some (task_after e (projected e))\<rparr>"
    (is "?l \<longleftrightarrow> ?r")
proof
  assume ?l
  then show ?r
    by (auto simp: replay_task_event_def Let_def bind_res_Inr_iff next_revision_def split: option.splits if_splits
        dest!: event_projection_ok)
next
  assume r: ?r
  then have "event_projection e = Inr (projected e)" by (simp add: event_projection_intro)
  with r show ?l
    by (cases "tk_state c")
       (simp_all add: replay_task_event_def Let_def need_object_def blocked_task_def refuse_task_def refuse_if_def next_revision_def)
qed

section \<open>The path of a ledger\<close>

lemma dget_task_after:
  "is_obj p \<Longrightarrow> k \<notin> {''last_event_id'', ''last_event_digest'', ''projection_digest''} \<Longrightarrow>
     dget k (task_after e p) = dget k p"
  by (simp add: task_after_def dget_sealed)

lemma is_obj_task_after [simp]: "is_obj (task_after e p) = is_obj p"
  by (simp add: task_after_def)

lemma replay_task_events_append:
  "replay_task_events t iid c (es @ es') =
     bind_res (replay_task_events t iid c es) (\<lambda>c'. replay_task_events t iid c' es')"
  by (induction es arbitrary: c) (auto simp: bind_res_def split: sum.splits)

definition event_status :: "json \<Rightarrow> json" where
  "event_status e = dget ''status'' (projected e)"

text \<open>What is known of the cursor after some events.\<close>

definition task_trace :: "string \<Rightarrow> json \<Rightarrow> json list \<Rightarrow> string list \<Rightarrow> task_cursor \<Rightarrow> bool" where
  "task_trace t iid es path c \<longleftrightarrow>
     es \<noteq> [] \<and> map event_status es = map JStr path \<and> hd path = ''new'' \<and> successively legal_task path \<and>
     (\<forall>e\<in>set es. event_status e = JStr ''done'' \<longrightarrow> gates_true (dget ''gates'' (projected e))) \<and>
     is_obj (projected (last es)) \<and> tk_state c = Some (task_after (last es) (projected (last es))) \<and>
     tk_digest c = dget ''event_digest'' (last es) \<and> tk_ids c = rev (map (dget ''event_id'') es) \<and>
     tk_revision c = int (length es) - 1 \<and>
     py_eq (dget ''revision'' (projected (last es))) (JInt (tk_revision c)) \<and>
     dget ''task_id'' (projected (last es)) = JStr t \<and> py_eq (dget ''installation_id'' (projected (last es))) iid"

lemma task_trace_first:
  assumes "replay_task_event t iid task_start e = Inr c"
  shows "task_trace t iid [e] [''new''] c"
proof -
  have "check_task_genesis (projected e) = Inr ()"
    and n: "py_eq (dget ''revision'' (projected e)) (dget ''new_revision'' e)" "py_eq (dget ''new_revision'' e) (JInt 0)"
    using assms by (auto simp: replay_task_event_ok task_start_def next_revision_def)
  then have "event_status e = JStr ''new''" by (simp add: check_task_genesis_def event_status_def)
  then show ?thesis
    using assms py_eq_trans [OF n] by (simp add: task_trace_def replay_task_event_ok task_start_def next_revision_def)
qed

lemma task_trace_step:
  assumes trace: "task_trace t iid es path c" and e: "replay_task_event t iid c e = Inr c'"
  shows "\<exists>b. task_trace t iid (es @ [e]) (path @ [b]) c'"
proof -
  have st: "tk_state c = Some (task_after (last es) (projected (last es)))" and ne: "es \<noteq> []"
    using trace by (simp_all add: task_trace_def)
  then have n: "next_revision c = tk_revision c + 1" by (simp add: next_revision_def)
  have m: "map event_status es = map JStr path" using trace by (simp add: task_trace_def)
  then have path: "path \<noteq> []" using ne by auto
  have last: "event_status (last es) = JStr (last path)"
    using arg_cong [OF m, of last] ne path by (simp add: last_map)
  obtain b where b: "event_status e = JStr b"
    "legal_task (py_str (dget ''status'' (task_after (last es) (projected (last es))))) b"
    "b = ''done'' \<longrightarrow> gates_true (dget ''gates'' (projected e))"
    using e st by (auto simp: replay_task_event_ok check_task_transition_ok event_status_def)
  have "dget ''status'' (task_after (last es) (projected (last es))) = JStr (last path)"
    using last trace by (simp add: dget_task_after event_status_def task_trace_def)
  then have "legal_task (last path) b" using b(2) by simp
  moreover have "py_eq (dget ''revision'' (projected e)) (JInt (tk_revision c + 1))"
  proof (rule py_eq_trans)
    show "py_eq (dget ''revision'' (projected e)) (dget ''new_revision'' e)" using e by (simp add: replay_task_event_ok)
    show "py_eq (dget ''new_revision'' e) (JInt (tk_revision c + 1))" using e n by (simp add: replay_task_event_ok)
  qed
  ultimately have "task_trace t iid (es @ [e]) (path @ [b]) c'"
    using trace e b(1,3) path n by (auto simp: task_trace_def replay_task_event_ok successively_append_iff)
  then show ?thesis by blast
qed

lemma task_trace_replay:
  "replay_task_events t iid task_start es = Inr c \<Longrightarrow> es \<noteq> [] \<Longrightarrow> \<exists>path. task_trace t iid es path c"
proof (induction es arbitrary: c rule: rev_induct)
  case (snoc e es)
  then obtain c1 where c1: "replay_task_events t iid task_start es = Inr c1" "replay_task_event t iid c1 e = Inr c"
    by (auto simp: replay_task_events_append bind_res_Inr_iff)
  show ?case
  proof (cases "es = []")
    case True
    then have "replay_task_event t iid task_start e = Inr c" using c1 by simp
    then show ?thesis using task_trace_first True by fastforce
  next
    case False
    then show ?thesis using snoc.IH [OF c1(1)] task_trace_step [OF _ c1(2)] by blast
  qed
qed simp

lemma never_failed: "legal_task a b \<Longrightarrow> b \<noteq> ''failed'' \<and> b \<noteq> ''preflighting_runtime''"
proof -
  assume l: "legal_task a b"
  have "\<forall>x\<in>set TASK_TRANSITIONS. ''failed'' \<notin> set (snd x)" by (simp add: TASK_TRANSITIONS_def)
  moreover have "''preflighting_runtime'' \<notin> set TASK_STATUSES" by (simp add: TASK_STATUSES_def)
  ultimately show ?thesis
    using l map_of_SomeD [of TASK_TRANSITIONS a] by (cases "map_of TASK_TRANSITIONS a") (auto simp: legal_task_def row_def)
qed

lemma path_never_failed:
  "successively legal_task (a # path) \<Longrightarrow> a \<noteq> ''failed'' \<Longrightarrow> a \<noteq> ''preflighting_runtime'' \<Longrightarrow>
     ''failed'' \<notin> set (a # path) \<and> ''preflighting_runtime'' \<notin> set (a # path)"
proof (induction path arbitrary: a)
  case (Cons b path)
  then show ?case using never_failed [of a b] by auto
qed simp

lemma replay_task_trace:
  assumes "replay_task t persisted i d = Inr s"
  shows "\<exists>inst es path c. installation_doc i = Inr inst \<and> load_events (lf_lines (td_events d)) = Inr es \<and>
    replay_task_events t (dget ''installation_id'' inst) task_start es = Inr c \<and>
    task_trace t (dget ''installation_id'' inst) es path c \<and> tk_state c = Some s"
proof -
  obtain inst es c where inst: "installation_doc i = Inr inst" and es: "load_events (lf_lines (td_events d)) = Inr es"
    and c: "replay_task_events t (dget ''installation_id'' inst) task_start es = Inr c" and s: "tk_state c = Some s"
    using assms by (auto simp: replay_task_def bind_res_Inr_iff split: option.splits)
  have "es \<noteq> []" using c s by (auto simp: task_start_def)
  then show ?thesis using inst es c s task_trace_replay [OF c] by blast
qed

text \<open>
  C12. Refinement of the table of transitions. Whatever the ledger of a task holds, when it replays then
  the states of its events are a path from \<open>new\<close> by legal moves to the status that replay returns,
  the revision is the length of the path, every event that is done has all gates open, and the
  statuses \<open>failed\<close> and \<open>preflighting_runtime\<close>, which the table names, are never reached.
\<close>

theorem task_replay_follows_table:
  assumes "replay_task t persisted i d = Inr s"
  shows "\<exists>es path. load_events (lf_lines (td_events d)) = Inr es \<and> map event_status es = map JStr path \<and>
    path \<noteq> [] \<and> hd path = ''new'' \<and> successively legal_task path \<and> dget ''status'' s = JStr (last path) \<and>
    py_eq (dget ''revision'' s) (JInt (int (length path) - 1)) \<and>
    (\<forall>e\<in>set es. event_status e = JStr ''done'' \<longrightarrow> gates_true (dget ''gates'' (projected e))) \<and>
    ''failed'' \<notin> set path \<and> ''preflighting_runtime'' \<notin> set path"
proof -
  obtain inst es path c where es: "load_events (lf_lines (td_events d)) = Inr es"
    and tr: "task_trace t (dget ''installation_id'' inst) es path c" and s: "tk_state c = Some s"
    using replay_task_trace [OF assms] by blast
  have m: "map event_status es = map JStr path" and ne: "es \<noteq> []" using tr by (simp_all add: task_trace_def)
  then obtain a rest where path: "path = a # rest" by (cases path) auto
  have last: "event_status (last es) = JStr (last path)"
    using arg_cong [OF m, of last] ne path by (simp add: last_map)
  have len: "length es = length path" using arg_cong [OF m, of length] by simp
  have "s = task_after (last es) (projected (last es))" "is_obj (projected (last es))"
    using tr s by (simp_all add: task_trace_def)
  then have "dget ''status'' s = JStr (last path)" "dget ''revision'' s = dget ''revision'' (projected (last es))"
    using last by (simp_all add: dget_task_after event_status_def)
  moreover have "''failed'' \<notin> set path \<and> ''preflighting_runtime'' \<notin> set path"
    using path_never_failed [of a rest] tr path by (auto simp: task_trace_def)
  moreover have "py_eq (dget ''revision'' (projected (last es))) (JInt (int (length path) - 1))" "hd path = ''new''"
    "successively legal_task path"
    "\<forall>e\<in>set es. event_status e = JStr ''done'' \<longrightarrow> gates_true (dget ''gates'' (projected e))"
    using tr len by (auto simp: task_trace_def)
  ultimately show ?thesis using es m path by (intro exI [of _ es] exI [of _ path]) simp
qed

end
