(* ===== verification/Task_Calls.thy ===== *)
theory Task_Calls
  imports Task_Replay
begin

text \<open>
  The operations on tasks: initialisation and transitions keep the ledger and the state file in step,
  concurrent transitions do not overwrite each other, and what a crash between the two writes does.
\<close>

section \<open>Ledgers and documents\<close>

lemma dset_present: "jget k v = Some x \<Longrightarrow> dset k x v = v"
proof (cases v)
  case (JObj kvs)
  assume "jget k v = Some x"
  then have "map_of kvs k = Some x" using JObj by simp
  then have "AList.update k x kvs = kvs" by (induction kvs) (auto split: if_splits)
  then show ?thesis using JObj by simp
qed auto

lemma load_events_snoc:
  "load_events (ls @ [l]) = Inr es' \<longleftrightarrow> (\<exists>es v. load_events ls = Inr es \<and> l = Line v \<and> es' = es @ [v])"
proof (induction ls arbitrary: es' rule: load_events.induct)
  case 1
  then show ?case by (cases l) auto
next
  case (3 v ls)
  then show ?case by (auto simp: bind_res_Inr_iff)
qed simp

text \<open>A readable ledger that was appended to has the old events and the new one.\<close>

lemma load_appended:
  assumes "load_events (lf_lines (append_line e f)) = Inr es'"
  shows "\<exists>es. load_events (lf_lines f) = Inr es \<and> es' = es @ [e]"
  using assms by (auto simp: append_line_def load_events_snoc written_line_def split: if_splits)

lemma digest_sealed_event [simp]: "task_event_digest (sealed_event e) = task_event_digest e"
  by (simp add: task_event_digest_def sealed_event_def)

lemma sealed_event_digest: "is_obj e \<Longrightarrow> dget ''event_digest'' (sealed_event e) = JStr (task_event_digest (sealed_event e))"
  unfolding digest_sealed_event by (simp add: sealed_event_def)

lemma sealed_projection_digest: "is_obj s \<Longrightarrow> dget ''projection_digest'' (sealed s) = JStr (task_digest (sealed s))"
  by (simp add: task_digest_def sealed_def state_digest_def digest_without_def)

section \<open>Tasks whose file and ledger agree\<close>

definition task_holds :: "string \<Rightarrow> json \<Rightarrow> task_disk \<Rightarrow> json \<Rightarrow> bool" where
  "task_holds t iid d s \<longleftrightarrow>
     safe_task_id t \<and> td_state d = Doc s \<and>
     (\<exists>es c. load_events (lf_lines (td_events d)) = Inr es \<and> replay_task_events t iid task_start es = Inr c \<and>
        tk_state c = Some s)"

lemma task_holds_trace:
  assumes "task_holds t iid d s"
  shows "\<exists>es c path. load_events (lf_lines (td_events d)) = Inr es \<and> replay_task_events t iid task_start es = Inr c \<and>
    tk_state c = Some s \<and> task_trace t iid es path c"
proof -
  obtain es c where es: "load_events (lf_lines (td_events d)) = Inr es"
    and c: "replay_task_events t iid task_start es = Inr c" "tk_state c = Some s"
    using assms by (auto simp: task_holds_def)
  have "es \<noteq> []" using c by (auto simp: task_start_def)
  then show ?thesis using es c task_trace_replay [OF c(1)] by blast
qed

lemma task_holds_state:
  assumes "task_holds t iid d s" and "installation_doc i = Inr inst" and "dget ''installation_id'' inst = iid"
  shows "task_state t i d = Inr s" and "replay_task t None i d = Inr s"
proof -
  obtain es c path where es: "load_events (lf_lines (td_events d)) = Inr es"
    and c: "replay_task_events t iid task_start es = Inr c" "tk_state c = Some s" and tr: "task_trace t iid es path c"
    using task_holds_trace [OF assms(1)] by blast
  have s: "s = task_after (last es) (projected (last es))" "is_obj (projected (last es))"
    using tr c(2) by (simp_all add: task_trace_def)
  have o: "is_obj s" using s by simp
  have dg: "dget ''projection_digest'' s = JStr (task_digest s)"
    unfolding s(1) task_after_def by (rule sealed_projection_digest) (simp add: s(2))
  have tt: "truthy s" using o dg by (cases s) (auto simp: dget_def)
  have dir: "task_dir t = Inr ()" and f: "read_json ''task-state.json'' (td_state d) = Inr s"
    using assms(1) o by (simp_all add: task_holds_def task_dir_def read_json_def)
  have rp: "replay_task t p i d = Inr s" if "p = None \<or> p = Some s" for p
    using that dir f es c assms(2,3) tt by (auto simp: replay_task_def blocked_task_def refuse_task_def refuse_if_def)
  show "task_state t i d = Inr s"
    using dir f dg rp [of "Some s"] by (simp add: task_state_def blocked_task_def refuse_task_def refuse_if_def)
  show "replay_task t None i d = Inr s" by (rule rp) simp
qed

section \<open>Initialisation\<close>

lemma bind_task_done:
  "bind_task m f s = (Inr y, s'') \<longleftrightarrow> (\<exists>x s'. m s = (Inr x, s') \<and> f x s' = (Inr y, s''))"
  by (auto simp: bind_task_def split: prod.splits sum.splits)

lemma reading_task_done: "reading_task r s = (Inr x, s') \<longleftrightarrow> r (fst s) = Inr x \<and> s' = s"
  by (auto simp: reading_task_def)

definition blank_task :: "task_disk \<Rightarrow> bool" where
  "blank_task d \<longleftrightarrow> td_state d = Missing \<and> lf_lines (td_events d) = [] \<and> \<not> lf_torn (td_events d)"

lemma record_event_done:
  "record_event e s (d, n) = (Inr u, d', n') \<longleftrightarrow>
     2 \<le> n \<and> n' = n - 2 \<and> d' = d\<lparr>td_events := append_line e (td_events d), td_state := Doc s\<rparr>"
  by (cases n; cases "n - 1") (auto simp: record_event_def bind_task_def writing_task_def split: nat.splits)

lemma initial_event_replays:
  "replay_task_event t iid task_start (initial_event eid iid t (initial_task_state now iid t)) =
    Inr \<lparr>tk_ids = [JStr eid], tk_digest = dget ''event_digest'' (initial_event eid iid t (initial_task_state now iid t)),
      tk_revision = 0, tk_state = Some (task_after (initial_event eid iid t (initial_task_state now iid t)) (initial_task_state now iid t))\<rparr>"
proof -
  let ?s = "initial_task_state now iid t" and ?e = "initial_event eid iid t (initial_task_state now iid t)"
  have f: "dget ''task_id'' ?s = JStr t" "dget ''installation_id'' ?s = iid" "dget ''revision'' ?s = JInt 0"
    "dget ''status'' ?s = JStr ''new''" "dget ''last_event_id'' ?s = JNull" "dget ''last_event_digest'' ?s = JNull" "is_obj ?s"
    by (simp_all add: initial_task_state_def dget_sealed) (simp_all add: dget_def)
  have dg: "dget ''projection_digest'' ?s = JStr (task_digest ?s)"
    unfolding initial_task_state_def by (rule sealed_projection_digest) simp
  have e: "is_obj ?e" "dget ''task_id'' ?e = JStr t" "dget ''installation_id'' ?e = iid" "dget ''event_id'' ?e = JStr eid"
    "dget ''event_kind'' ?e = JStr ''task_initialized''" "dget ''prior_event_digest'' ?e = JNull"
    "dget ''prior_revision'' ?e = JInt 0" "dget ''new_revision'' ?e = JInt 0" "projected ?e = ?s"
    by (simp_all add: initial_event_def sealed_event_def projected_def) (simp_all add: dget_def)
  have ed: "dget ''event_digest'' ?e = JStr (task_event_digest ?e)"
    unfolding initial_event_def by (rule sealed_event_digest) simp
  show ?thesis
    unfolding replay_task_event_ok using f dg e ed
    by (simp add: task_start_def next_revision_def check_task_genesis_def blocked_task_def refuse_task_def refuse_if_def in_keys_def)
qed

lemma init_task_holds:
  assumes "init_task now eid t i (d, n) = (Inr s, d', n')" and "blank_task d"
    and "installation_doc i = Inr inst" and "load_events (lf_lines (td_events d')) = Inr es'"
  shows "task_holds t (dget ''installation_id'' inst) d' s \<and> dget ''status'' s = JStr ''new'' \<and>
    dget ''active_blockers'' s = JArr []"
proof -
  define iid where "iid = dget ''installation_id'' inst"
  define s0 where "s0 = initial_task_state now iid t"
  define e where "e = initial_event eid iid t s0"
  have "sub ''installation_id'' inst = Inr x \<Longrightarrow> x = iid" for x
    by (auto simp: iid_def sub_def dget_def split: option.splits)
  then have safe: "safe_task_id t" and s: "s = task_after e s0"
    and d': "d' = d\<lparr>td_events := append_line e (td_events d), td_state := Doc s\<rparr>"
    using assms(1-3)
    by (auto simp: init_task_def bind_task_done reading_task_done blank_task_def exists_doc_def Let_def task_dir_def
        record_event_done e_def s0_def)
  have "load_events (lf_lines (td_events d')) = Inr [e]"
    using load_appended [of e "td_events d"] assms(2,4) d' by (auto simp: blank_task_def)
  moreover have "replay_task_events t iid task_start [e] =
      Inr \<lparr>tk_ids = [JStr eid], tk_digest = dget ''event_digest'' e, tk_revision = 0, tk_state = Some s\<rparr>"
    by (simp add: e_def s0_def s initial_event_replays)
  ultimately have "task_holds t iid d' s" using safe d' by (auto simp: task_holds_def)
  moreover have "is_obj s0" "dget ''status'' s0 = JStr ''new''" "dget ''active_blockers'' s0 = JArr []"
    by (simp_all add: s0_def initial_task_state_def dget_sealed) (simp_all add: dget_def)
  ultimately show ?thesis by (simp add: s dget_task_after iid_def)
qed

section \<open>Transitions\<close>

lemma next_task_fields:
  assumes "is_obj current"
  shows "is_obj (next_task_state now eid q current gates blockers r)"
    and "dget ''status'' (next_task_state now eid q current gates blockers r) = JStr (tq_target q)"
    and "dget ''gates'' (next_task_state now eid q current gates blockers r) = gates"
    and "dget ''active_blockers'' (next_task_state now eid q current gates blockers r) = blockers"
    and "dget ''revision'' (next_task_state now eid q current gates blockers r) = JInt r"
    and "jget ''last_event_id'' (next_task_state now eid q current gates blockers r) = Some (JStr eid)"
    and "k \<notin> set [''revision'', ''status'', ''gates'', ''active_blockers'', ''updated_at'', ''last_event_id'', ''projection_digest''] \<Longrightarrow>
      dget k (next_task_state now eid q current gates blockers r) = dget k current"
    and "dget ''projection_digest'' (next_task_state now eid q current gates blockers r) =
      JStr (task_digest (next_task_state now eid q current gates blockers r))"
  using assms by (auto simp: next_task_state_def dget_sealed sealed_projection_digest) (simp add: sealed_def)

text \<open>What the first half has established.\<close>

lemma prepare_task_ok:
  assumes "prepare_task now eid q i d = Inr (current, e, next_state)"
  shows "\<exists>epoch gates blockers r.
    task_state (tq_task q) i d = Inr current \<and> legal_task (py_str (dget ''status'' current)) (tq_target q) \<and>
    (tq_target q = ''done'' \<longrightarrow> gates_true gates) \<and> plus_one (dget ''revision'' current) = Inr r \<and>
    next_task_blockers (dget ''active_blockers'' current) (tq_target q) = Inr blockers \<and>
    e = transition_event q current epoch (next_task_state now eid q current gates blockers r) \<and>
    next_state = sealed (dset ''last_event_digest'' (dget ''event_digest'' e) (next_task_state now eid q current gates blockers r))"
proof -
  obtain cur from_status legal epoch gates blockers r n where a: "task_state (tq_task q) i d = Inr cur"
    and st: "(if tq_target q \<in> set TASK_STATUSES then tsub ''status'' cur else Inr JNull) = Inr from_status"
    and move: "legal_task_move from_status (tq_target q) = Inr legal" and l: "legal"
    and gates: "\<not> (tq_target q = ''done'' \<and> list_ex (\<lambda>g. dget g gates \<noteq> JBool True) DONE_GATES)"
    and n: "tsub ''revision'' cur = Inr n" "plus_one n = Inr r"
    and b: "next_task_blockers (dget ''active_blockers'' cur) (tq_target q) = Inr blockers"
    and out: "(let projection = next_task_state now eid q cur gates blockers r; e = transition_event q cur epoch projection
       in Inr (cur, e, sealed (dset ''last_event_digest'' (dget ''event_digest'' e) projection)) :: (json \<times> json \<times> json) tres) =
      Inr (current, e, next_state)"
    using assms unfolding prepare_task_def bind_res_Inr_iff refuse_task_ok ctl_ok py_ok by blast
  have cur: "cur = current" and e: "e = transition_event q current epoch (next_task_state now eid q current gates blockers r)"
    "next_state = sealed (dset ''last_event_digest'' (dget ''event_digest'' e) (next_task_state now eid q current gates blockers r))"
    using out by (auto simp: Let_def)
  have legal: "legal_task_move from_status (tq_target q) = Inr True" using move l by simp
  have "legal_task (py_str (dget ''status'' current)) (tq_target q)"
    using st legal cur by (auto simp: legal_task_move_def legal_task_def dest!: tsub_ok split: if_splits json.splits)
  moreover have "tq_target q = ''done'' \<longrightarrow> gates_true gates"
    using gates by (auto simp: gates_true_def list_ex_iff)
  moreover have "plus_one (dget ''revision'' current) = Inr r" using tsub_ok [OF n(1)] n(2) cur by simp
  ultimately show ?thesis using a b e cur by blast
qed

lemma transition_event_fields:
  "is_obj (transition_event q current epoch p)" "projected (transition_event q current epoch p) = p"
  "dget ''task_id'' (transition_event q current epoch p) = JStr (tq_task q)"
  "dget ''installation_id'' (transition_event q current epoch p) = dget ''installation_id'' current"
  "dget ''event_id'' (transition_event q current epoch p) = dget ''last_event_id'' p"
  "dget ''event_kind'' (transition_event q current epoch p) = JStr (''task_'' @ tq_target q)"
  "dget ''prior_revision'' (transition_event q current epoch p) = dget ''revision'' current"
  "dget ''new_revision'' (transition_event q current epoch p) = dget ''revision'' p"
  "dget ''prior_event_digest'' (transition_event q current epoch p) = dget ''last_event_digest'' current"
  by (simp_all add: transition_event_def sealed_event_def projected_def) (simp_all add: dget_def)

lemma transition_event_digest:
  "dget ''event_digest'' (transition_event q current epoch p) = JStr (task_event_digest (transition_event q current epoch p))"
  unfolding transition_event_def by (rule sealed_event_digest) simp

lemma unchanged_fields:
  assumes "is_obj current"
  shows "set (task_changed_fields current (next_task_state now eid q current gates blockers r)) \<subseteq> set task_allowed_changes"
proof
  fix k assume "k \<in> set (task_changed_fields current (next_task_state now eid q current gates blockers r))"
  then have "\<not> py_eq (dget k current) (dget k (next_task_state now eid q current gates blockers r))"
    by (auto simp: task_changed_fields_def)
  then have "k \<in> set [''revision'', ''status'', ''gates'', ''active_blockers'', ''updated_at'', ''last_event_id'', ''projection_digest'']"
    using next_task_fields(7) [OF assms, of k now eid q gates blockers r] py_eq_refl by metis
  then show "k \<in> set task_allowed_changes" by (auto simp: task_allowed_changes_def)
qed

lemma status_not_initialized: "legal_task a b \<Longrightarrow> b \<noteq> ''initialized''"
  by (auto simp: legal_task_def TASK_STATUSES_def)

text \<open>The event of a transition replays on the ledger it was prepared for, and gives the next state.\<close>

lemma transition_event_replays:
  assumes tr: "task_trace t iid es path c" and s: "tk_state c = Some s" and t: "tq_task q = t"
    and new: "\<forall>e\<in>set es. dget ''event_id'' e \<noteq> JStr eid"
    and legal: "legal_task (py_str (dget ''status'' s)) (tq_target q)"
    and gates: "tq_target q = ''done'' \<longrightarrow> gates_true gates" and r: "plus_one (dget ''revision'' s) = Inr r"
    and b: "next_task_blockers (dget ''active_blockers'' s) (tq_target q) = Inr blockers"
  shows "\<exists>c'. replay_task_event t iid c (transition_event q s epoch (next_task_state now eid q s gates blockers r)) = Inr c' \<and>
    tk_state c' = Some (sealed (dset ''last_event_digest''
      (dget ''event_digest'' (transition_event q s epoch (next_task_state now eid q s gates blockers r)))
      (next_task_state now eid q s gates blockers r)))"
proof -
  define p where "p = next_task_state now eid q s gates blockers r"
  define e where "e = transition_event q s epoch p"
  have after: "s = task_after (last es) (projected (last es))" and obj: "is_obj (projected (last es))" and ne: "es \<noteq> []"
    using tr s by (simp_all add: task_trace_def)
  have o: "is_obj s" using after obj by simp
  note pf = next_task_fields [OF o, where now = now and eid = eid and q = q and gates = gates and blockers = blockers and r = r,
    folded p_def]
  note ef = transition_event_fields [of q s epoch p, folded e_def]
  have "dget ''revision'' s = dget ''revision'' (projected (last es))" using obj by (simp add: after dget_task_after)
  moreover have "py_eq (dget ''revision'' (projected (last es))) (JInt (tk_revision c))" using tr by (auto simp: task_trace_def)
  moreover have "dget ''last_event_digest'' s = tk_digest c"
    using tr obj by (simp add: after task_after_def dget_sealed task_trace_def)
  moreover have "py_eq (dget ''installation_id'' s) iid" "dget ''task_id'' s = JStr t"
    using tr obj by (simp_all add: after dget_task_after task_trace_def)
  ultimately have s_fields: "dget ''last_event_digest'' s = tk_digest c" "py_eq (dget ''installation_id'' s) iid"
    "dget ''task_id'' s = JStr t" "py_eq (dget ''revision'' s) (JInt (tk_revision c))" by simp_all
  have rev: "r = tk_revision c + 1" using py_eq_plus_one [OF s_fields(4)] r by simp
  have eid: "dget ''last_event_id'' p = JStr eid" using pf(6) by (simp add: dget_def)
  have fresh: "in_keys (dget ''event_id'' e) (tk_ids c) = Inr False"
    using new tr by (auto simp: in_keys_def ef eid task_trace_def list_ex_iff)
  have frame: "dget ''task_id'' p = JStr t" "dget ''installation_id'' p = dget ''installation_id'' s"
    "dget ''last_event_digest'' p = dget ''last_event_digest'' s"
    using pf(7) s_fields by simp_all
  have check: "check_task_transition s e p (tk_digest c) = Inr ()"
    unfolding check_task_transition_ok
    using pf ef legal b eid frame s_fields gates unchanged_fields [OF o, of now eid q gates blockers r, folded p_def] by auto
  have same: "task_after e p = sealed (dset ''last_event_digest'' (dget ''event_digest'' e) p)"
    using dset_present [OF pf(6)] by (simp add: task_after_def ef eid)
  have "replay_task_event t iid c e = Inr \<lparr>tk_ids = dget ''event_id'' e # tk_ids c, tk_digest = dget ''event_digest'' e,
      tk_revision = next_revision c, tk_state = Some (task_after e p)\<rparr>"
    unfolding replay_task_event_ok
    using pf ef s s_fields fresh frame check t rev transition_event_digest [of q s epoch p, folded e_def]
      status_not_initialized [OF legal]
    by (simp add: next_revision_def)
  then show ?thesis using same unfolding e_def p_def by auto
qed

lemma transition_task_holds:
  assumes hold: "task_holds t iid d s" and call: "transition_task now eid q i (d, n) = (Inr s', d', n')"
    and t: "tq_task q = t" and inst: "installation_doc i = Inr inst" "dget ''installation_id'' inst = iid"
    and old: "load_events (lf_lines (td_events d)) = Inr es" and new: "\<forall>e\<in>set es. dget ''event_id'' e \<noteq> JStr eid"
    and readable: "load_events (lf_lines (td_events d')) = Inr es'"
  shows "task_holds t iid d' s' \<and> dget ''status'' s' = JStr (tq_target q) \<and>
    legal_task (py_str (dget ''status'' s)) (tq_target q)"
proof -
  obtain current e ns where prep: "prepare_task now eid q i d = Inr (current, e, ns)"
    and commit: "commit_task t i (current, e, ns) (d, n) = (Inr s', d', n')"
    using call t by (auto simp: transition_task_def bind_task_done reading_task_done)
  have cs: "current = s" using prepare_task_ok [OF prep] task_holds_state(1) [OF hold inst] t by auto
  have s': "s' = ns" and d': "d' = d\<lparr>td_events := append_line e (td_events d), td_state := Doc ns\<rparr>"
    using commit by (auto simp: commit_task_def bind_task_done reading_task_done record_event_done)
  obtain epoch gates blockers r where legal: "legal_task (py_str (dget ''status'' s)) (tq_target q)"
    and p: "tq_target q = ''done'' \<longrightarrow> gates_true gates" "plus_one (dget ''revision'' s) = Inr r"
      "next_task_blockers (dget ''active_blockers'' s) (tq_target q) = Inr blockers"
    and e: "e = transition_event q s epoch (next_task_state now eid q s gates blockers r)"
      "ns = sealed (dset ''last_event_digest'' (dget ''event_digest'' e) (next_task_state now eid q s gates blockers r))"
    using prepare_task_ok [OF prep] unfolding cs by blast
  obtain c path where c: "replay_task_events t iid task_start es = Inr c" "tk_state c = Some s" "task_trace t iid es path c"
    using task_holds_trace [OF hold] old by auto
  have "load_events (lf_lines (td_events d')) = Inr (es @ [e])"
    using load_appended [of e "td_events d"] readable old d' by auto
  moreover obtain c' where "replay_task_event t iid c e = Inr c'" "tk_state c' = Some ns"
    using transition_event_replays [OF c(3,2) t new legal p, of epoch now] e by auto
  ultimately have "task_holds t iid d' s'"
    using hold c(1) s' d' by (auto simp: task_holds_def replay_task_events_append)
  moreover have "is_obj s"
    using c by (auto simp: task_trace_def)
  ultimately show ?thesis using legal next_task_fields(2) by (simp add: s' e(2) dget_sealed)
qed

section \<open>Histories\<close>

text \<open>
  A task from its initialisation through transitions that return. The installation may change between
  the calls but keeps its identity, identifiers of events are new, and the ledger stays readable.
\<close>

inductive task_run :: "string \<Rightarrow> json \<Rightarrow> string list \<Rightarrow> task_disk \<Rightarrow> json \<Rightarrow> bool" where
  task_started: "blank_task d \<Longrightarrow> installation_doc i = Inr inst \<Longrightarrow> dget ''installation_id'' inst = iid \<Longrightarrow>
    init_task now eid t i (d, n) = (Inr s, d', n') \<Longrightarrow> load_events (lf_lines (td_events d')) = Inr es \<Longrightarrow>
    task_run t iid [''new''] d' s"
| task_moved: "task_run t iid path d s \<Longrightarrow> installation_doc i = Inr inst \<Longrightarrow> dget ''installation_id'' inst = iid \<Longrightarrow>
    transition_task now eid q i (d, n) = (Inr s', d', n') \<Longrightarrow> tq_task q = t \<Longrightarrow>
    load_events (lf_lines (td_events d)) = Inr es \<Longrightarrow> \<forall>e\<in>set es. dget ''event_id'' e \<noteq> JStr eid \<Longrightarrow>
    load_events (lf_lines (td_events d')) = Inr es' \<Longrightarrow> task_run t iid (path @ [tq_target q]) d' s'"

lemma task_run_holds:
  "task_run t iid path d s \<Longrightarrow>
     task_holds t iid d s \<and> path \<noteq> [] \<and> dget ''status'' s = JStr (last path) \<and> successively legal_task path"
proof (induction rule: task_run.induct)
  case (task_started d i inst iid now eid t n s d' n' es)
  then show ?case using init_task_holds [OF task_started(4,1,2,5)] by simp
next
  case (task_moved t iid path d s i inst now eid q n s' d' n' es es')
  have "task_holds t iid d' s' \<and> dget ''status'' s' = JStr (tq_target q) \<and> legal_task (last path) (tq_target q)"
    using transition_task_holds [OF _ task_moved(4,5,2,3,6,7,8), of s] task_moved.IH by simp
  then show ?case using task_moved.IH by (simp add: successively_append_iff)
qed


section \<open>Interruptions\<close>

lemma task_state_file: "task_state t i d = Inr s \<Longrightarrow> td_state d = Doc s"
  by (auto simp: task_state_def bind_res_Inr_iff read_json_def split: doc.splits if_splits)

lemma jget_truthy: "jget k v = Some x \<Longrightarrow> truthy v"
  by (cases v) auto

lemma task_state_revision:
  assumes "task_state t i d = Inr s"
  shows "\<exists>es. load_events (lf_lines (td_events d)) = Inr es \<and> py_eq (dget ''revision'' s) (JInt (int (length es) - 1))"
proof -
  obtain cur where rp: "replay_task t (Some s) i d = Inr cur" and tt: "truthy s"
    using assms jget_truthy by (fastforce simp: task_state_def bind_res_Inr_iff dget_def split: option.splits)
  have eq: "py_eq s cur" using rp tt by (auto simp: replay_task_def bind_res_Inr_iff split: option.splits)
  obtain inst es path c where es: "load_events (lf_lines (td_events d)) = Inr es"
    and tr: "task_trace t (dget ''installation_id'' inst) es path c" and c: "tk_state c = Some cur"
    using replay_task_trace [OF rp] by blast
  have "cur = task_after (last es) (projected (last es))" "is_obj (projected (last es))"
    "py_eq (dget ''revision'' (projected (last es))) (JInt (int (length es) - 1))"
    using tr c by (auto simp: task_trace_def)
  then have "py_eq (dget ''revision'' cur) (JInt (int (length es) - 1))" by (simp add: dget_task_after)
  then show ?thesis using es py_eq_trans [OF py_eq_get [OF eq]] by blast
qed

lemma task_state_fails: "task_state t i d = Inl e \<Longrightarrow> tq_task q = t \<Longrightarrow> \<exists>x. transition_task now eid q i (d, n) = (Inl x, d, n)"
proof (cases "prepare_task now eid q i d")
  case (Inr p)
  assume "task_state t i d = Inl e" "tq_task q = t"
  then show ?thesis using Inr prepare_task_ok [of now eid q i d "fst p" "fst (snd p)" "snd (snd p)"] by auto
qed (auto simp: transition_task_def bind_task_def reading_task_def)

lemma record_event_interrupted:
  "record_event e s (d, Suc 0) = (Inl (Control Crash), d\<lparr>td_events := append_line e (td_events d)\<rparr>, 0)"
  by (simp add: record_event_def bind_task_def writing_task_def)

text \<open>
  C37. A crash between the two writes of a transition. When the event has been appended and the state has
  not been replaced, the call does not return, and from then on reading the task and every transition
  of it fail without a write, whatever the installation and the request.
\<close>

theorem interrupted_task_is_locked:
  assumes "transition_task now eid q i (d, 1) = (r, d', n')" and "d' \<noteq> d"
  shows "r = Inl (Control Crash) \<and> (\<exists>e. task_state (tq_task q) i' d' = Inl e) \<and>
    (\<forall>now' eid' q' m. tq_task q' = tq_task q \<longrightarrow> (\<exists>e. transition_task now' eid' q' i' (d', m) = (Inl e, d', m)))"
proof -
  obtain current e ns where prep: "prepare_task now eid q i d = Inr (current, e, ns)"
    using assms by (cases "prepare_task now eid q i d") (auto simp: transition_task_def bind_task_def reading_task_def)
  have r: "r = Inl (Control Crash)" and d': "d' = d\<lparr>td_events := append_line e (td_events d)\<rparr>"
    using assms prep
    by (auto simp: transition_task_def commit_task_def bind_task_def reading_task_def record_event_interrupted
        split: sum.splits prod.splits)
  obtain s where s: "task_state (tq_task q) i d = Inr s" using prepare_task_ok [OF prep] by blast
  obtain es where es: "load_events (lf_lines (td_events d)) = Inr es" "py_eq (dget ''revision'' s) (JInt (int (length es) - 1))"
    using task_state_revision [OF s] by blast
  have locked: "task_state (tq_task q) i' d' \<noteq> Inr s'" for s'
  proof
    assume a: "task_state (tq_task q) i' d' = Inr s'"
    then have "s' = s" using task_state_file [OF a] task_state_file [OF s] d' by simp
    moreover obtain es' where es': "load_events (lf_lines (td_events d')) = Inr es'"
      "py_eq (dget ''revision'' s') (JInt (int (length es') - 1))" using task_state_revision [OF a] by blast
    moreover have "length es' = length es + 1" using load_appended [of e "td_events d"] es' es d' by auto
    ultimately have "py_eq (dget ''revision'' s) (JInt (int (length es)))" by simp
    from py_eq_trans [OF py_eq_sym [OF es(2)] this] show False by simp
  qed
  then obtain x where x: "task_state (tq_task q) i' d' = Inl x" by (cases "task_state (tq_task q) i' d'") auto
  then show ?thesis using r task_state_fails [OF x] by auto
qed

text \<open>
  C13. Concurrent transitions. Of two transitions of a task that were prepared on the same state, once one
  has been committed the other fails without a write.
\<close>

theorem concurrent_transition_refused:
  assumes "prepare_task now1 eid1 q1 i1 d = Inr p1" and "prepare_task now2 eid2 q2 i2 d = Inr p2"
    and "tq_task q1 = t" and "tq_task q2 = t" and "commit_task t i1 p1 (d, n) = (Inr s1, d1, n1)"
  shows "\<exists>e. commit_task t i2 p2 (d1, m) = (Inl e, d1, m)"
proof -
  obtain c1 e1 ns1 c2 e2 ns2 where p: "p1 = (c1, e1, ns1)" "p2 = (c2, e2, ns2)" by (cases p1; cases p2) auto
  obtain epoch gates blockers r where s1: "task_state t i1 d = Inr c1" and r: "plus_one (dget ''revision'' c1) = Inr r"
    and ns: "ns1 = sealed (dset ''last_event_digest'' (dget ''event_digest'' e1) (next_task_state now1 eid1 q1 c1 gates blockers r))"
    using prepare_task_ok [of now1 eid1 q1 i1 d c1 e1 ns1] assms(1,3) p by auto
  have s2: "task_state t i2 d = Inr c2" using prepare_task_ok [of now2 eid2 q2 i2 d c2 e2 ns2] assms(2,4) p by auto
  have same: "c2 = c1" using task_state_file [OF s1] task_state_file [OF s2] by simp
  have o: "is_obj c1" using s1 by (auto simp: task_state_def bind_res_Inr_iff read_json_def split: doc.splits if_splits)
  have f: "td_state d1 = Doc ns1"
    using assms(5) p by (auto simp: commit_task_def bind_task_done reading_task_done record_event_done)
  have rev: "dget ''revision'' ns1 = JInt r" using next_task_fields(5) [OF o] by (simp add: ns dget_sealed)
  have "\<not> py_eq (JInt r) (dget ''revision'' c1)"
    using r by (cases "dget ''revision'' c1") (auto simp: py_eq_def json_eq_def split: if_splits)
  then have differ: "\<not> py_eq (dget ''revision'' x) (dget ''revision'' c2)" if "task_state t i2 d1 = Inr x" for x
    using task_state_file [OF that] f rev same by simp
  show ?thesis
  proof (cases "task_state t i2 d1")
    case (Inl x)
    then show ?thesis by (simp add: commit_task_def p bind_task_def reading_task_def)
  next
    case (Inr x)
    have "\<exists>e. bind_res (tsub ''revision'' x) (\<lambda>n. bind_res (tsub ''revision'' c2) (\<lambda>m.
        refuse_task (\<not> py_eq n m) (ControlPlaneError ''VALP-E-STATE-CONFLICT''
          ''Task changed while transition was prepared'' unchanged))) = Inl e" (is "\<exists>e. ?c = Inl e")
    proof (cases ?c)
      case (Inr u)
      then show ?thesis using differ [OF \<open>task_state t i2 d1 = Inr x\<close>] by (auto simp: bind_res_Inr_iff dest!: tsub_ok)
    qed blast
    then show ?thesis using Inr by (auto simp: commit_task_def p bind_task_def reading_task_def)
  qed
qed

end
