(* ===== verification/Task_Witnesses.thy ===== *)
theory Task_Witnesses
  imports Task_Calls Control_Witnesses
begin

text \<open>
  A task of an active installation that is initialised and published, and the theorems about tasks at
  these values. Digests stay symbolic.
\<close>

section \<open>The installation and the task\<close>

definition active_state :: json where
  "active_state = sealed (dset ''status'' (JStr ''active'') (empty_state (JStr ''valp-1'') ''t0''))"

definition active_disk :: installation_disk where
  "active_disk = new_disk\<lparr>id_state := Doc active_state\<rparr>"

definition no_task :: task_disk where
  "no_task = \<lparr>td_state = Missing, td_events = \<lparr>lf_lines = [], lf_torn = False\<rparr>\<rparr>"

definition task_s0 :: json where
  "task_s0 = initial_task_state ''t1'' (JStr ''valp-1'') ''task''"

definition task_e1 :: json where
  "task_e1 = initial_event ''e1'' (JStr ''valp-1'') ''task'' task_s0"

definition task_s1 :: json where
  "task_s1 = task_after task_e1 task_s0"

definition new_task :: task_disk where
  "new_task = \<lparr>td_state = Doc task_s1, td_events = \<lparr>lf_lines = [Line task_e1], lf_torn = False\<rparr>\<rparr>"

definition publish :: task_request where
  "publish = \<lparr>tq_task = ''task'', tq_target = ''published'', tq_expected = Some 0, tq_gates = JNull, tq_actor = ''ann''\<rparr>"

definition task_p :: json where
  "task_p = next_task_state ''t2'' ''e2'' publish task_s1 (JObj []) (JArr []) 1"

definition task_e2 :: json where
  "task_e2 = transition_event publish task_s1 (JInt 0) task_p"

definition task_s2 :: json where
  "task_s2 = sealed (dset ''last_event_digest'' (dget ''event_digest'' task_e2) task_p)"

definition published_task :: task_disk where
  "published_task = \<lparr>td_state = Doc task_s2, td_events = \<lparr>lf_lines = [Line task_e1, Line task_e2], lf_torn = False\<rparr>\<rparr>"

lemma active_files:
  "installation_doc active_disk = Inr new_installation" "current_state active_disk = Inr active_state"
  "sub ''status'' active_state = Inr (JStr ''active'')" "sub ''active_leader_epoch'' active_state = Inr (JInt 0)"
proof -
  have o: "is_obj active_state" by (simp add: active_state_def empty_state_def)
  have dg: "dget ''projection_digest'' active_state = JStr (state_digest active_state)"
    unfolding active_state_def by (rule sealed_digest) (simp add: empty_state_def)
  have "dget ''active_leader'' active_state = JNull"
    by (simp add: active_state_def dget_sealed) (simp add: dget_def empty_state_def)
  then have v: "authority_view active_state = active_state" by (simp add: authority_view_def)
  have i: "require_initialized active_disk = Inr ()"
    by (simp add: require_initialized_def active_disk_def new_disk_def exists_doc_def refuse_if_def)
  show "installation_doc active_disk = Inr new_installation"
    using i new_state_obj by (simp add: installation_doc_def active_disk_def new_disk_def read_json_def)
  show "current_state active_disk = Inr active_state"
    using i o dg v by (simp add: current_state_def state_file_def active_disk_def read_json_def)
  show "sub ''status'' active_state = Inr (JStr ''active'')" "sub ''active_leader_epoch'' active_state = Inr (JInt 0)"
    by (simp_all add: sub_def active_state_def sealed_def empty_state_def)
qed

lemma sub_dget: "dget k v \<noteq> JNull \<Longrightarrow> sub k v = Inr (dget k v)"
  by (auto simp: sub_def dget_def split: option.splits)

section \<open>The calls run\<close>

lemma task_s0_values:
  "is_obj task_s0" "dget ''status'' task_s0 = JStr ''new''" "dget ''revision'' task_s0 = JInt 0"
  "dget ''gates'' task_s0 = JObj []" "dget ''active_blockers'' task_s0 = JArr []"
  "dget ''protocol_version'' task_s0 = JStr ''0.3.0''" "dget ''installation_id'' task_s0 = JStr ''valp-1''"
  by (simp_all add: task_s0_def initial_task_state_def dget_sealed) (simp_all add: dget_def)

lemma task_s1_values:
  "is_obj task_s1" "dget ''status'' task_s1 = JStr ''new''" "dget ''revision'' task_s1 = JInt 0"
  "dget ''gates'' task_s1 = JObj []" "dget ''active_blockers'' task_s1 = JArr []"
  "dget ''protocol_version'' task_s1 = JStr ''0.3.0''" "dget ''installation_id'' task_s1 = JStr ''valp-1''"
  using task_s0_values by (simp_all add: task_s1_def dget_task_after)

lemma ascii_task_digest: "ascii (task_event_digest e)"
proof -
  have "(of_char c :: nat) < 128" if "c \<in> set (sha256_hex m)" for c m
  proof -
    have "c \<in> set hex_digits" using that set_sha256_hex by blast
    then show ?thesis by (auto simp: hex_digits_def)
  qed
  then have "ascii (sha256_hex m)" for m by (simp add: ascii_def list_all_iff)
  then show ?thesis by (simp add: task_event_digest_def)
qed

lemma plain_sealed_event: "plain e \<Longrightarrow> plain (sealed_event e)"
  unfolding sealed_event_def by (intro plain_dset) (simp_all add: ascii_task_digest)

lemma plain_dget: "plain v \<Longrightarrow> plain (dget k v)"
  by (cases v) (auto simp: dget_def split: option.splits dest!: map_of_SomeD)

lemma plain_task_s0: "plain task_s0"
  unfolding task_s0_def initial_task_state_def by (intro plain_sealed) simp

lemma plain_task_e1: "plain task_e1"
  unfolding task_e1_def initial_event_def by (intro plain_sealed_event) (simp add: plain_task_s0)

lemma task_init_runs: "init_task ''t1'' ''e1'' ''task'' active_disk (no_task, 2) = (Inr task_s1, new_task, 0)"
proof -
  have "sub ''installation_id'' new_installation = Inr (JStr ''valp-1'')" by (simp add: sub_def new_installation_def)
  moreover have "task_dir ''task'' = Inr ()" by (simp add: task_dir_def safe_task_id_def backslash_def)
  ultimately show ?thesis
    by (simp add: init_task_def bind_task_def reading_task_def active_files no_task_def exists_doc_def record_event_def
        writing_task_def append_line_def new_task_def plain_line plain_task_e1 Let_def
        flip: task_s0_def task_e1_def task_s1_def)
qed

lemma new_task_run: "task_run ''task'' (JStr ''valp-1'') [''new''] new_task task_s1"
proof (rule task_started [OF _ active_files(1) _ task_init_runs])
  show "blank_task no_task" by (simp add: blank_task_def no_task_def)
  show "dget ''installation_id'' new_installation = JStr ''valp-1''" by (rule new_values)
  show "load_events (lf_lines (td_events new_task)) = Inr [task_e1]" by (simp add: new_task_def)
qed

lemma new_task_state: "task_state ''task'' active_disk new_task = Inr task_s1"
  using task_run_holds [OF new_task_run] task_holds_state(1) [OF _ active_files(1)] new_values by blast

lemma publish_prepared: "prepare_task ''t2'' ''e2'' publish active_disk new_task = Inr (task_s1, task_e2, task_s2)"
proof -
  have s: "sub ''status'' task_s1 = Inr (JStr ''new'')" "sub ''revision'' task_s1 = Inr (JInt 0)"
    "sub ''installation_id'' task_s1 = Inr (JStr ''valp-1'')"
    using sub_dget [of _ task_s1] task_s1_values by auto
  have dir: "task_dir ''task'' = Inr ()" by (simp add: task_dir_def safe_task_id_def backslash_def)
  have f: "read_json ''task-state.json'' (td_state new_task) = Inr task_s1"
    by (simp add: read_json_def new_task_def task_s1_values)
  have l: "legal_task_move (JStr ''new'') ''published'' = Inr True"
    by (simp add: legal_task_move_def TASK_STATUSES_def row_def TASK_TRANSITIONS_def)
  have m: "''published'' \<in> set TASK_STATUSES" by (simp add: TASK_STATUSES_def)
  show ?thesis
    using s dir f l m new_task_state
    by (simp add: prepare_task_def tsub_def active_files refuse_task_def refuse_if_def task_s1_values publish_def
        next_gates_def py_or_def next_task_blockers_def Let_def)
       (simp add: task_s2_def task_e2_def task_p_def publish_def)
qed

lemma publish_committed:
  "commit_task ''task'' active_disk (task_s1, task_e2, task_s2) (new_task, 2) = (Inr task_s2, published_task, 0)"
proof -
  have s: "sub ''revision'' task_s1 = Inr (JInt 0)" using sub_dget [of _ task_s1] task_s1_values by auto
  have p1: "plain task_s1"
    unfolding task_s1_def task_after_def
    by (intro plain_sealed plain_dset plain_dget plain_task_s0 plain_task_e1) simp_all
  have "plain task_p" unfolding task_p_def next_task_state_def
    by (intro plain_sealed plain_dset) (simp_all add: p1 publish_def)
  then have "plain task_e2"
    unfolding task_e2_def transition_event_def
    by (intro plain_sealed_event) (simp add: publish_def task_s1_values plain_dget p1)
  then show ?thesis
    using s new_task_state
    by (simp add: commit_task_def bind_task_def reading_task_def tsub_def refuse_task_def refuse_if_def record_event_def
        writing_task_def append_line_def new_task_def published_task_def plain_line)
qed

lemma publish_runs: "transition_task ''t2'' ''e2'' publish active_disk (new_task, 2) = (Inr task_s2, published_task, 0)"
  by (simp add: transition_task_def bind_task_def reading_task_def publish_prepared publish_committed)
     (simp add: publish_def publish_committed)

lemma published_run: "task_run ''task'' (JStr ''valp-1'') [''new'', ''published''] published_task task_s2"
proof -
  have "dget ''event_id'' task_e1 \<noteq> JStr ''e2''"
    by (simp add: task_e1_def initial_event_def sealed_event_def) (simp add: dget_def)
  then have "task_run ''task'' (JStr ''valp-1'') ([''new''] @ [tq_target publish]) published_task task_s2"
    by (intro task_moved [OF new_task_run active_files(1) new_values(7) publish_runs, of "[task_e1]" "[task_e1, task_e2]"])
       (simp_all add: publish_def new_task_def published_task_def)
  then show ?thesis by (simp add: publish_def)
qed

section \<open>Witnesses\<close>


text \<open>Its ledger is a path from new to published.\<close>

theorem task_replay_follows_table_witness:
  "\<exists>es path. load_events (lf_lines (td_events published_task)) = Inr es \<and> map event_status es = map JStr path \<and>
     hd path = ''new'' \<and> successively legal_task path \<and> dget ''status'' task_s2 = JStr (last path)"
proof -
  have "replay_task ''task'' None active_disk published_task = Inr task_s2"
    using task_run_holds [OF published_run] task_holds_state(2) [OF _ active_files(1) new_values(7)] by blast
  from task_replay_follows_table [OF this] show ?thesis by blast
qed

text \<open>The publication cut after its first write.\<close>

theorem interrupted_task_is_locked_witness:
  "\<exists>d'. fst (snd (transition_task ''t2'' ''e2'' publish active_disk (new_task, 1))) = d' \<and>
     (\<exists>e. task_state ''task'' active_disk d' = Inl e)"
proof -
  let ?d = "new_task\<lparr>td_events := append_line task_e2 (td_events new_task)\<rparr>"
  have s: "sub ''revision'' task_s1 = Inr (JInt 0)" using sub_dget [of _ task_s1] task_s1_values by auto
  have cut: "transition_task ''t2'' ''e2'' publish active_disk (new_task, 1) = (Inl (Control Crash), ?d, 0)"
    using s new_task_state
    by (simp add: transition_task_def bind_task_def reading_task_def publish_prepared commit_task_def tsub_def refuse_task_def
        refuse_if_def record_event_interrupted)
       (simp add: publish_def new_task_state record_event_interrupted)
  have "?d \<noteq> new_task" by (simp add: new_task_def append_line_def)
  moreover have "tq_task publish = ''task''" by (simp add: publish_def)
  ultimately have "\<exists>e. task_state ''task'' active_disk ?d = Inl e"
    using interrupted_task_is_locked [OF cut, of active_disk] by simp
  then show ?thesis unfolding cut by simp
qed

text \<open>The publication prepared twice: the second is refused.\<close>

theorem concurrent_transition_refused_witness:
  "\<exists>e. commit_task ''task'' active_disk (task_s1, task_e2, task_s2) (published_task, 2) = (Inl e, published_task, 2)"
  using concurrent_transition_refused [OF publish_prepared publish_prepared _ _ publish_committed, of 2]
  by (simp add: publish_def)

end
