(* ===== verification/Contracts.thy ===== *)
theory Contracts
  imports Json_Objects
begin

text \<open>
  \<^verbatim>\<open>src/valp_cli/control_contract.py\<close> and \<^verbatim>\<open>src/valp_cli/delegation.py\<close>: the documents that bind a worker of
  a task, each with a builder and a check that compares a stored document with what would be built.
\<close>

section \<open>Text\<close>

text \<open>\<^verbatim>\<open>json.dumps(value, indent=2, ensure_ascii=False)\<close>, with the entries of an object in their order.\<close>

definition new_line :: "nat \<Rightarrow> string" where
  "new_line level = CHR 10 # replicate (2 * level) (CHR '' '')"

fun comma_lines :: "nat \<Rightarrow> string list \<Rightarrow> string" where
  "comma_lines level [] = []"
| "comma_lines level [x] = x"
| "comma_lines level (x # y # ys) = x @ '','' @ new_line level @ comma_lines level (y # ys)"

primrec indent_dumps :: "json \<Rightarrow> nat \<Rightarrow> string" where
  "indent_dumps JNull level = ''null''"
| "indent_dumps (JBool b) level = (if b then ''true'' else ''false'')"
| "indent_dumps (JInt i) level = int_str i"
| "indent_dumps (JStr s) level = quote s"
| "indent_dumps (JArr xs) level =
     (if xs = [] then ''[]''
      else ''['' @ new_line (Suc level) @ comma_lines (Suc level) (map (\<lambda>f. f (Suc level)) (map indent_dumps xs)) @
           new_line level @ '']'')"
| "indent_dumps (JObj kvs) level =
     (if kvs = [] then ''{}''
      else ''{'' @ new_line (Suc level) @
           comma_lines (Suc level) (map (\<lambda>(k, f). quote k @ '': '' @ f (Suc level)) (map (map_prod id indent_dumps) kvs)) @
           new_line level @ ''}'')"

section \<open>The control contract\<close>

definition PRIORITY_CLASS :: string where
  "PRIORITY_CLASS = ''highest_runtime_control''"

definition LOAD_BEFORE :: json where
  "LOAD_BEFORE = JArr (map JStr [''planning'', ''skills'', ''tool_execution'', ''immediate_response''])"

definition control_contract_file_bytes :: "json \<Rightarrow> string" where
  "control_contract_file_bytes contract = indent_dumps contract 0 @ [CHR 10]"

definition control_contract_digest :: "json \<Rightarrow> string option \<Rightarrow> string" where
  "control_contract_digest contract file_bytes =
     ''sha256:'' @ sha256_hex (case file_bytes of Some b \<Rightarrow> b | None \<Rightarrow> control_contract_file_bytes contract)"

text \<open>The parts of a contract that depend on nothing.\<close>

definition contract_clauses :: "(string \<times> json) list" where
  "contract_clauses =
     [(''authority'', JObj
        [(''higher_than_contract'', JArr (map JStr [''system'', ''developer'', ''explicit_user'', ''approval_gates''])),
         (''lower_than_contract'', JArr (map JStr [''task_scope'', ''project_instructions'', ''skills'',
            ''tool_provider_defaults'', ''worker_output'', ''immediate_response'']))]),
      (''load_before'', LOAD_BEFORE),
      (''failure_policy'', JObj
        [(''missing_or_invalid'', JStr ''block''), (''conflicting_duplicate'', JStr ''fail_closed''),
         (''unsupported_continuation'', JStr ''downgrade_mode'')]),
      (''channel'', JObj
        [(''kind'', JStr ''runtime_control''), (''user_input_allowed'', JBool False),
         (''raw_worker_output_allowed'', JBool False)]),
      (''delivery'', JObj
        [(''safe_point_required'', JBool True), (''busy_leader'', JStr ''queue_and_coalesce''),
         (''interrupt_inflight_action'', JBool False)]),
      (''idempotency'', JObj
        [(''identical_receipt'', JStr ''no_op''), (''conflicting_receipt'', JStr ''fail_closed''),
         (''race_precedence'', JStr ''first_accepted_by_revision_cas'')]),
      (''continuation'', JObj
        [(''acknowledgement_chain'', JArr (map JStr [''resume_pending'', ''resume_received'', ''digest_verified'',
            ''resume_accepted'', ''continuation_started'', ''resume_consumed''])),
         (''transport_only_event'', JStr ''leader_resume_sent''), (''full_mode_requires'', JStr ''resume_consumed''),
         (''manual_submission_mode'', JStr ''manual'')]),
      (''worker_ack'', JObj [(''required'', JBool True), (''status'', JStr ''honored'')])]"

definition contract_terms :: "(string \<times> json) list" where
  "contract_terms = (''priority_class'', JStr PRIORITY_CLASS) # contract_clauses"

definition contract_of :: "string \<Rightarrow> string \<Rightarrow> json" where
  "contract_of task_id created_at =
     JObj ((''schema_version'', JStr ''valp-worker-control-contract.v1'') # (''task_id'', JStr task_id) #
       (''priority_class'', JStr PRIORITY_CLASS) # (''created_at'', JStr created_at) # contract_clauses)"

definition build_control_contract :: "string \<Rightarrow> string \<Rightarrow> json res" where
  "build_control_contract task_id created_at =
     (if only_space task_id \<or> only_space created_at then Inl (ValueError ''task_id and created_at are required'')
      else Inr (contract_of task_id created_at))"

definition join_semicolons :: "string list \<Rightarrow> string" where
  "join_semicolons xs = (case xs of [] \<Rightarrow> [] | [x] \<Rightarrow> x | x # y # _ \<Rightarrow> x @ ''; '' @ y)"

definition exact_keys :: "json \<Rightarrow> string list \<Rightarrow> string \<Rightarrow> string list" where
  "exact_keys v expected label =
     (if \<not> is_obj v then [label @ '' must be an object'']
      else if set (keys v) = set expected then []
      else
        let missing = sort (filter (\<lambda>k. k \<notin> set (keys v)) expected);
            extra = sort (filter (\<lambda>k. k \<notin> set expected) (keys v))
        in [label @ '' fields are invalid: '' @ join_semicolons
             ((if missing = [] then [] else [''missing '' @ comma_spaces missing]) @
              (if extra = [] then [] else [''unexpected '' @ comma_spaces extra]))])"

definition nonblank :: "json \<Rightarrow> bool" where
  "nonblank v \<longleftrightarrow> (case v of JStr s \<Rightarrow> \<not> only_space s | _ \<Rightarrow> False)"

text \<open>The fixed terms are compared in the order of a set; here it is the order of the contract.\<close>

definition validate_control_contract :: "json \<Rightarrow> string option \<Rightarrow> string list res" where
  "validate_control_contract contract task_id =
     bind_res (build_control_contract
         (case task_id of
            Some t \<Rightarrow> if t \<noteq> [] then t else py_str (py_or (dget ''task_id'' contract) (JStr ''_''))
          | None \<Rightarrow> py_str (py_or (dget ''task_id'' contract) (JStr ''_'')))
         (py_str (py_or (dget ''created_at'' contract) (JStr ''_'')))) (\<lambda>expected.
       let errors = exact_keys contract (keys expected) ''control contract'' in
       if errors \<noteq> [] then Inr errors
       else Inr (
         (if py_eq (dget ''schema_version'' contract) (JStr ''valp-worker-control-contract.v1'') then []
          else [''control contract schema_version is invalid'']) @
         (case task_id of
            None \<Rightarrow> []
          | Some t \<Rightarrow> if py_eq (dget ''task_id'' contract) (JStr t) then [] else [''control contract task_id does not match'']) @
         (if nonblank (dget ''task_id'' contract) then [] else [''control contract task_id must be non-empty'']) @
         (if nonblank (dget ''created_at'' contract) then [] else [''control contract created_at must be non-empty'']) @
         concat (map (\<lambda>(k, x). if py_eq (dget k contract) (dget k expected) then []
             else [''control contract '' @ k @ '' is invalid'']) contract_terms)))"

section \<open>Control slices\<close>

text \<open>\<^verbatim>\<open>list(dict.fromkeys(...))\<close>: the first of equal items stays.\<close>

definition first_only :: "string list \<Rightarrow> string list" where
  "first_only xs = rev (remdups (rev xs))"

definition build_control_slice :: "string \<Rightarrow> string \<Rightarrow> string list \<Rightarrow> string \<Rightarrow> json res" where
  "build_control_slice task_id agent work_item_ids contract_digest =
     (let unique_work_items = first_only (filter (\<lambda>w. \<not> only_space w) work_item_ids) in
      if only_space task_id \<or> only_space agent \<or> unique_work_items = []
      then Inl (ValueError ''task_id, agent, and work_item_ids are required'')
      else Inr (JObj
        [(''schema_version'', JStr ''valp-control-slice.v1''), (''task_id'', JStr task_id), (''agent'', JStr agent),
         (''work_item_ids'', JArr (map JStr unique_work_items)), (''control_contract_ref'', JStr ''control-contract.json''),
         (''control_contract_digest'', JStr contract_digest), (''priority_class'', JStr PRIORITY_CLASS),
         (''load_before'', LOAD_BEFORE), (''missing_or_invalid'', JStr ''block'')]))"

definition validate_control_slice :: "json \<Rightarrow> string \<Rightarrow> string \<Rightarrow> string list \<Rightarrow> string \<Rightarrow> string list" where
  "validate_control_slice control_slice task_id agent work_item_ids contract_digest =
     (case build_control_slice task_id agent work_item_ids contract_digest of
        Inl e \<Rightarrow> [''task_id, agent, and work_item_ids are required'']
      | Inr expected \<Rightarrow>
          let errors = exact_keys control_slice (keys expected) ''control slice'' in
          if errors \<noteq> [] then errors
          else concat (map (\<lambda>k. if py_eq (dget k control_slice) (dget k expected) then []
                 else [''control slice '' @ k @ '' does not match'']) (keys expected)))"

section \<open>The delegation policy\<close>

definition PROTECTED_SURFACES :: "string list" where
  "PROTECTED_SURFACES = [''skills'', ''plugins'', ''memory'', ''mcp_config'', ''agent_config'']"

definition build_delegation_policy :: "string \<Rightarrow> bool \<Rightarrow> json" where
  "build_delegation_policy task_id manual_mode =
     JObj [(''schema_version'', JStr ''valp-delegation-policy.v1''), (''task_id'', JStr task_id),
           (''reference_enforcement'', JStr ''dispatch_and_audit''),
           (''runtime_enforcement'', JStr (if manual_mode then ''manual_attestation'' else ''adapter_required'')),
           (''live_self_modification'', JObj
              [(''mode'', JStr ''forbidden''), (''protected_surfaces'', JArr (map JStr PROTECTED_SURFACES)),
               (''repository_changes'', JStr ''allowed_when_task_scoped_and_not_live_loaded''),
               (''violation_effect'', JStr ''invalidate_evidence_and_block'')]),
           (''violations'', JArr [])]"

definition validate_delegation_policy :: "json \<Rightarrow> string \<Rightarrow> bool \<Rightarrow> string list" where
  "validate_delegation_policy document task_id manual_mode =
     (if \<not> truthy document then [''missing delegation-policy.json'']
      else
        let expected = build_delegation_policy task_id manual_mode in
        (if set (keys document) = set (keys expected) then []
         else [''delegation policy has unexpected or missing top-level fields'']) @
        concat (map (\<lambda>k. if py_eq (dget k document) (dget k expected) then []
            else [''delegation policy '' @ k @ '' is missing or weakened''])
          [''schema_version'', ''task_id'', ''reference_enforcement'', ''runtime_enforcement'']) @
        (if py_eq (dget ''live_self_modification'' document) (dget ''live_self_modification'' expected) then []
         else [''delegation policy does not protect the exact required live surfaces'']) @
        (case dget ''violations'' document of JArr _ \<Rightarrow> [] | _ \<Rightarrow> [''delegation policy violations must be an array'']))"

section \<open>The checks accept what is built\<close>

lemma exact_keys_ok: "exact_keys v expected label = [] \<longleftrightarrow> is_obj v \<and> set (keys v) = set expected"
  by (simp add: exact_keys_def Let_def)

lemma if_nil [simp]: "(if P then [] else [x]) = [] \<longleftrightarrow> P"
  by simp

lemma terms_ok:
  "concat (map (\<lambda>(k, x). if P k then [] else [f k]) terms) = [] \<longleftrightarrow> (\<forall>k\<in>set (map fst terms). P k)"
  by (induction terms) (auto split: if_splits)

lemma contract_keys:
  "set (keys (contract_of t c)) = set ([''schema_version'', ''task_id'', ''created_at''] @ map fst contract_terms)"
  "distinct (keys (contract_of t c))" "is_obj (contract_of t c)"
  by (auto simp: contract_of_def keys_def contract_terms_def contract_clauses_def)

lemma contract_values:
  "dget ''schema_version'' (contract_of t c) = JStr ''valp-worker-control-contract.v1''"
  "dget ''task_id'' (contract_of t c) = JStr t" "dget ''created_at'' (contract_of t c) = JStr c"
  by (simp_all add: contract_of_def dget_def)

lemma contract_terms_fixed: "k \<in> set (map fst contract_terms) \<Longrightarrow> dget k (contract_of t c) = dget k (contract_of t' c')"
  by (auto simp: contract_terms_def contract_clauses_def contract_of_def dget_def)

lemma contract_eq:
  assumes "is_obj v" and "distinct (keys v)"
  shows "py_eq v (contract_of t c) \<longleftrightarrow> set (keys v) = set (keys (contract_of t c)) \<and>
    dget ''schema_version'' v = JStr ''valp-worker-control-contract.v1'' \<and> dget ''task_id'' v = JStr t \<and>
    dget ''created_at'' v = JStr c \<and> (\<forall>k\<in>set (map fst contract_terms). py_eq (dget k v) (dget k (contract_of t c)))"
  using py_eq_fields [OF assms contract_keys(3,2), of t c] by (auto simp: contract_keys(1) contract_values)

lemma nonblank_str: "nonblank v \<longleftrightarrow> (\<exists>s. v = JStr s \<and> \<not> only_space s)"
  by (cases v) (auto simp: nonblank_def)

lemma validate_contract_iff:
  assumes "is_obj v" and "distinct (keys v)"
  shows "validate_control_contract v (Some t) = Inr [] \<longleftrightarrow>
    (\<exists>created b. build_control_contract t created = Inr b \<and> py_eq v b)" (is "?l \<longleftrightarrow> ?r")
proof
  assume ?l
  then obtain t' c' expected where e: "build_control_contract t' c' = Inr expected"
    and rest: "(let errors = exact_keys v (keys expected) ''control contract'' in
       if errors \<noteq> [] then Inr errors
       else Inr (
         (if py_eq (dget ''schema_version'' v) (JStr ''valp-worker-control-contract.v1'') then []
          else [''control contract schema_version is invalid'']) @
         (case Some t of
            None \<Rightarrow> []
          | Some t \<Rightarrow> if py_eq (dget ''task_id'' v) (JStr t) then [] else [''control contract task_id does not match'']) @
         (if nonblank (dget ''task_id'' v) then [] else [''control contract task_id must be non-empty'']) @
         (if nonblank (dget ''created_at'' v) then [] else [''control contract created_at must be non-empty'']) @
         concat (map (\<lambda>(k, x). if py_eq (dget k v) (dget k expected) then []
             else [''control contract '' @ k @ '' is invalid'']) contract_terms)) :: string list res) = Inr []"
    unfolding validate_control_contract_def bind_res_Inr_iff by blast
  have ex: "expected = contract_of t' c'" using e by (simp add: build_control_contract_def split: if_splits)
  have fields: "set (keys v) = set (keys (contract_of t' c'))"
    using rest by (simp add: Let_def ex exact_keys_ok split: if_splits)
  then have ok: "exact_keys v (keys (contract_of t' c')) ''control contract'' = []" using assms(1) by (simp add: exact_keys_ok)
  have all: "dget ''schema_version'' v = JStr ''valp-worker-control-contract.v1'' \<and> dget ''task_id'' v = JStr t \<and>
      nonblank (dget ''task_id'' v) \<and> nonblank (dget ''created_at'' v) \<and>
      (\<forall>k\<in>set (map fst contract_terms). py_eq (dget k v) (dget k (contract_of t' c')))"
    using rest
    unfolding Let_def ex ok option.case by (simp only: append_is_Nil_conv if_nil terms_ok sum.inject simp_thms if_False py_eq_str_iff) metis
  then have vals: "dget ''schema_version'' v = JStr ''valp-worker-control-contract.v1''" "dget ''task_id'' v = JStr t"
      "nonblank (dget ''task_id'' v)" "nonblank (dget ''created_at'' v)"
    and terms: "\<forall>k\<in>set (map fst contract_terms). py_eq (dget k v) (dget k (contract_of t' c'))"
    by blast+
  obtain c where c: "dget ''created_at'' v = JStr c" "\<not> only_space c" and t: "\<not> only_space t"
    using vals by (auto simp: nonblank_str)
  have "py_eq v (contract_of t c)"
    using fields vals c terms contract_terms_fixed [of _ t' c' t c] by (auto simp: contract_eq [OF assms] contract_keys(1))
  then show ?r using t c by (auto simp: build_control_contract_def)
next
  assume ?r
  then obtain c where b: "\<not> only_space t" "\<not> only_space c" "py_eq v (contract_of t c)"
    by (auto simp: build_control_contract_def split: if_splits)
  have ne: "t \<noteq> []" "c \<noteq> []" using b by auto
  have f: "set (keys v) = set (keys (contract_of t c))" "dget ''schema_version'' v = JStr ''valp-worker-control-contract.v1''"
    "dget ''task_id'' v = JStr t" "dget ''created_at'' v = JStr c"
    "\<forall>k\<in>set (map fst contract_terms). py_eq (dget k v) (dget k (contract_of t c))"
    using b(3) unfolding contract_eq [OF assms] by simp_all
  then show ?l
    using b ne assms(1)
    by (simp add: validate_control_contract_def build_control_contract_def py_or_def Let_def exact_keys_ok terms_ok nonblank_str
        del: concat_eq_Nil_conv set_map)
qed

lemma validate_slice_iff:
  assumes "is_obj v" and "distinct (keys v)"
  shows "validate_control_slice v t a ws dg = [] \<longleftrightarrow> (\<exists>b. build_control_slice t a ws dg = Inr b \<and> py_eq v b)"
proof (cases "build_control_slice t a ws dg")
  case (Inr b)
  then have "is_obj b" "distinct (keys b)" by (auto simp: build_control_slice_def Let_def keys_def split: if_splits)
  then show ?thesis
    using Inr py_eq_fields [OF assms, of b] assms(1)
    by (auto simp: validate_control_slice_def Let_def exact_keys_ok)
qed (simp add: validate_control_slice_def)

lemma validate_blank:
  assumes "dget ''created_at'' v = JStr s" and "s \<noteq> []" and "only_space s"
  shows "\<exists>m. validate_control_contract v x = Inl (ValueError m)"
  using assms by (simp add: validate_control_contract_def build_control_contract_def py_or_def)

definition policy_with :: "string \<Rightarrow> bool \<Rightarrow> json list \<Rightarrow> json" where
  "policy_with t m xs = dset ''violations'' (JArr xs) (build_delegation_policy t m)"

lemma policy_fields:
  "keys (policy_with t m xs) = keys (build_delegation_policy t m)" "is_obj (policy_with t m xs)"
  "dget ''violations'' (policy_with t m xs) = JArr xs"
  "k \<noteq> ''violations'' \<Longrightarrow> dget k (policy_with t m xs) = dget k (build_delegation_policy t m)"
  by (simp_all add: policy_with_def build_delegation_policy_def keys_def) (simp_all add: dget_def)

lemma policy_keys:
  "keys (build_delegation_policy t m) = [''schema_version'', ''task_id'', ''reference_enforcement'', ''runtime_enforcement'',
     ''live_self_modification'', ''violations'']"
  by (simp add: build_delegation_policy_def keys_def)

lemma validate_policy_iff:
  assumes "is_obj v" and "distinct (keys v)"
  shows "validate_delegation_policy v t m = [] \<longleftrightarrow> (\<exists>xs. py_eq v (policy_with t m xs))"
proof -
  let ?b = "build_delegation_policy t m"
  have eq: "py_eq v (policy_with t m xs) \<longleftrightarrow> set (keys v) = set (keys ?b) \<and>
      (\<forall>k\<in>set (keys (policy_with t m xs)). py_eq (dget k v) (dget k (policy_with t m xs)))" for xs
    using py_eq_fields [OF assms policy_fields(2), of t m xs] by (simp add: policy_fields(1) policy_keys)
  have arr: "(case w of JArr _ \<Rightarrow> [] | _ \<Rightarrow> [e]) = [] \<longleftrightarrow> (\<exists>xs. py_eq w (JArr xs))" for w and e :: string
  proof (cases w)
    case (JArr xs)
    then have "\<exists>ys. py_eq w (JArr ys)" by (intro exI [of _ xs]) simp
    then show ?thesis using JArr by simp
  qed (auto simp: py_eq_JArr)
  have tr: "truthy v" if "set (keys v) = set (keys ?b)"
  proof -
    have "''task_id'' \<in> set (keys v)" unfolding that policy_keys by simp
    then show ?thesis unfolding keys_def by (cases v) auto
  qed
  have "validate_delegation_policy v t m = [] \<longleftrightarrow> truthy v \<and> set (keys v) = set (keys ?b) \<and>
      (\<forall>k\<in>set [''schema_version'', ''task_id'', ''reference_enforcement'', ''runtime_enforcement'', ''live_self_modification''].
        py_eq (dget k v) (dget k ?b)) \<and> (\<exists>xs. py_eq (dget ''violations'' v) (JArr xs))"
    by (auto simp: validate_delegation_policy_def Let_def arr)
  then show ?thesis using tr unfolding eq by (simp add: policy_fields policy_keys) metis
qed

text \<open>
  C23. Round trip of the documents for workers. The check of a control contract accepts exactly the
  contracts that are built for the task at some time, the check of a control slice exactly the slice
  that is built for the same task, agent, work items and digest, and the check of a delegation policy
  exactly the built policy with any list of violations. A contract whose time is white space is not
  reported but makes the check raise.
\<close>

theorem contract_checks_accept_only_built:
  assumes "is_obj v" and "distinct (keys v)"
  shows "(validate_control_contract v (Some t) = Inr [] \<longleftrightarrow>
      (\<exists>created b. build_control_contract t created = Inr b \<and> py_eq v b)) \<and>
    (validate_control_slice v t a ws dg = [] \<longleftrightarrow> (\<exists>b. build_control_slice t a ws dg = Inr b \<and> py_eq v b)) \<and>
    (validate_delegation_policy v t m = [] \<longleftrightarrow>
      (\<exists>xs. py_eq v (dset ''violations'' (JArr xs) (build_delegation_policy t m)))) \<and>
    (\<forall>s. dget ''created_at'' v = JStr s \<and> s \<noteq> [] \<and> only_space s \<longrightarrow>
      (\<exists>msg. validate_control_contract v (Some t) = Inl (ValueError msg)))"
  using validate_contract_iff [OF assms] validate_slice_iff [OF assms] validate_policy_iff [OF assms] validate_blank
  unfolding policy_with_def by blast

text \<open>A contract at a time, and its check.\<close>

theorem contract_checks_accept_only_built_witness:
  "validate_control_contract (contract_of ''t'' ''now'') (Some ''t'') = Inr [] \<and>
   validate_control_slice (contract_of ''t'' ''now'') ''t'' ''ann'' [''w''] ''d'' \<noteq> []"
proof -
  have "build_control_contract ''t'' ''now'' = Inr (contract_of ''t'' ''now'')" by code_simp
  moreover have "\<not> py_eq (contract_of ''t'' ''now'') b" if "build_control_slice ''t'' ''ann'' [''w''] ''d'' = Inr b" for b
  proof -
    have "dget ''schema_version'' b = JStr ''valp-control-slice.v1''"
      using that by (auto simp: build_control_slice_def Let_def dget_def split: if_splits)
    then show ?thesis using py_eq_get [of "contract_of ''t'' ''now''" b "''schema_version''"] by (auto simp: contract_values)
  qed
  ultimately show ?thesis
    using contract_checks_accept_only_built [OF contract_keys(3,2), of "''t''" "''now''" "''t''" "''ann''" "[''w'']" "''d''"]
      py_eq_refl by blast
qed

end
