(* ===== verification/Sha256_Test.thy ===== *)
theory Sha256_Test
  imports Sha256
begin

text \<open>
  The test vector for \<^verbatim>\<open>"abc"\<close> published with FIPS 180-4, evaluated in the kernel. It ties
  \<^const>\<open>sha256_hex\<close> to the digest that \<^verbatim>\<open>hashlib.sha256\<close> computes.
\<close>

lemma sha256_abc:
  "sha256_hex ''abc'' = ''ba7816bf8f01cfea414140de5dae2223b00361a396177a9cb410ff61f20015ad''"
  by code_simp

end
