(* ===== verification/Spec2Isabelle.thy ===== *)
theory Spec2Isabelle
  imports Kernel_Witnesses Receipt_Witnesses Adapter_Witnesses Store_Witnesses Control_Witnesses Bridge_Witnesses
    Submission_Witnesses Task_Witnesses Contracts Sha256_Test
begin

text \<open>
  Verification of the protocol core of VALP, the Visible Agent Loop Protocol.

  \<^bold>\<open>The program.\<close> VALP coordinates coding agents. Its core is a deterministic Kernel
  (\<^verbatim>\<open>src/valp_cli/protocol_kernel.py\<close>): an immutable task state, a reducer that answers every event
  with an accepted, no_op or rejected result, and replay of a journal of accepted events, from
  genesis or from an authenticated checkpoint. The Kernel store (\<^verbatim>\<open>kernel_store.py\<close>) keeps the
  genesis, the journal, the checkpoint and a ledger of adapter effects in files, under a lock, and
  recovers the state by replay. Receipts (\<^verbatim>\<open>protocol_receipts.py\<close>) are a second, hash-chained ledger
  with a pure append and a migration of older formats, kept in a file by the receipt store
  (\<^verbatim>\<open>receipt_store.py\<close>), which also provides the lock and the atomic replacement. The adapter ABI
  (\<^verbatim>\<open>adapter_abi.py\<close>) says what adapters declare and observe and when their proof is enough. The
  installation (\<^verbatim>\<open>InstallationCore\<close> in \<^verbatim>\<open>control_plane.py\<close>) holds the leader and the status of the
  machine's VALP installation; its transitions are written ahead to a journal, recorded as a message
  and an event in two ledgers, and checked against a table of contracts. The Kernel runtime
  (\<^verbatim>\<open>kernel_runtime.py\<close>) is the bridge between them: it turns the receipts of a task and the identity of
  the installation into Kernel events and appends these to the task's store. The submission module
  (\<^verbatim>\<open>submission.py\<close>) derives from the roles of a task which work item waits for which, and checks
  against the receipts that none was submitted too early; the Kernel runtime reads its document. The
  tasks of an installation (\<^verbatim>\<open>task_control.py\<close>) have a status of their own, with a ledger of events and
  a file; \<^verbatim>\<open>control_contract.py\<close> and \<^verbatim>\<open>delegation.py\<close> build and check the documents that bind workers.

  \<^bold>\<open>Foundations.\<close> \<open>Prelude\<close>: results with Python's exceptions as values, and shared lemmas.
  \<open>Sha256\<close>: SHA-256 on words of 32 bits, checked on the standard test vectors in \<open>Sha256_Test\<close>.
  \<open>Json\<close>: \<^verbatim>\<open>json.dumps\<close> with sorted keys and compact separators; equal texts mean equal values up to
  the order of keys. \<open>Json_Parse\<close>: \<^verbatim>\<open>json.loads\<close> with rejection of duplicate keys, on UTF-8 bytes;
  printing and parsing is the identity up to the order of keys. \<open>Json_Fields\<close>: reading typed fields.
  \<open>Jsonl\<close>: canonical JSON lines, with the interface \<open>jsonl\<close> of a codec and its round trip.

  \<^bold>\<open>Kernel.\<close> \<open>Kernel_Types\<close> and \<open>Kernel_Canonical\<close>: the data and its canonical projections.
  \<open>Kernel_Valid\<close>: validity, authority, staleness, eligibility, cancellation. \<open>Kernel_Reduce\<close>: the
  reducer, one definition per arm. \<open>Append_Log\<close>: the interface of a log that only grows; \<open>Kernel_Run\<close>
  and \<open>Receipt_Ledger\<close> interpret it. \<open>Kernel_Invariant\<close>, \<open>Kernel_Run\<close>, \<open>Kernel_Status\<close>,
  \<open>Kernel_Items\<close>, \<open>Kernel_Control\<close>, \<open>Kernel_Progress\<close>: runs of the reducer, the invariant of reachable
  states, idempotence, the task, item and attempt graphs, obligations, suspension, interrupts,
  authority, and that an unfinished task can always get to done, whatever its work items are.
  \<open>Kernel_Replay\<close>: replay succeeds exactly on journals of runs. \<open>Kernel_Light\<close>: the same steps without
  hashing, a simulation used to evaluate examples.

  \<^bold>\<open>Stores.\<close> \<open>Store\<close>: files, the lock, atomic replacement and classified errors; an operation takes an
  environment that says how far the lock, the reading of each file before and after the replacement,
  the replacement, the removal of its temporary file and the release get, so that a statement for all
  environments covers these faults; closing the lock's descriptor is taken to succeed. \<open>Kernel_Decode\<close>: the decoders of \<^verbatim>\<open>kernel_store.py\<close>, with
  round trips. \<open>Kernel_Store\<close>, \<open>Kernel_Effects\<close>: the store's operations. \<open>Kernel_Journal\<close>,
  \<open>Kernel_Checkpoint\<close>, \<open>Kernel_Effects\<close>: appends are atomic under every fault, recovery returns exactly
  when the journal replays and the checkpoint, if any, belongs to it, and gives the state of the full
  replay, effects are recorded at most once, reconciliation is a partition. Errors tell what happened,
  but for a fault after the commit (the checkpoint or the effect ledger not readable again, the
  temporary file not removable), which the code reports as rejected, and for the exceptions of
  resolving a proof reference, which it does not classify. \<open>Receipt_Store\<close>: the same for receipts.

  \<^bold>\<open>Bridge.\<close> \<open>Kernel_Runtime\<close>: the operations of \<^verbatim>\<open>kernel_runtime.py\<close> on the files they read and write;
  the n-th call into the store runs in the n-th environment. \<open>Kernel_Named\<close>: identities keep their
  values, and initialisation. \<open>Kernel_Bridge\<close>: the interfaces \<open>journal_service\<close> and \<open>bridge_log\<close> of
  programs over a journal, interpreted for runs of the reducer, for steps that leave the status alone
  and, in \<open>Kernel_Sessions\<close>, for stores that may be empty. \<open>Kernel_Calls\<close>: a wake that is answered is
  recorded and not early, a completion is final and can be repeated when its attempt is a text, and an
  interrupted start cannot.
  \<open>Kernel_Sessions\<close>: after any sequence of calls and faults the store recovers.

  \<^bold>\<open>Submission.\<close> \<open>Submission\<close>: the module, function by function, on JSON values with the raises of
  membership and iteration kept. \<open>Submission_Ledger\<close>: the check of a ledger decides a specification
  without a loop, bounds its numbers, and where it raises. \<open>Submission_Documents\<close>: the check of a stored
  document accepts what is built and nothing else. \<open>Submission_Graph\<close>: the Kernel runtime accepts the
  built document, and its dependencies are well founded. \<open>Submission_Order\<close>: without order errors every
  submission follows the completion of its prerequisite or its replacement.

  \<^bold>\<open>Tasks and contracts.\<close> \<open>Task_Control\<close>: the table of transitions, replay and the operations, the second
  half of a transition being an operation of its own, as it is under the lock. \<open>Task_Replay\<close>: a ledger
  that replays is a path of the table. \<open>Task_Calls\<close>: calls that return keep ledger and file in step,
  concurrent transitions are refused, and a crash between the two writes locks the task. \<open>Contracts\<close>:
  the checks of the documents for workers accept what is built. \<open>Ascii_Json\<close> and \<open>Json_Objects\<close> hold
  the ASCII form of \<^verbatim>\<open>json.dumps\<close> and equality of objects by their entries.

  \<^bold>\<open>Receipts and adapters.\<close> \<open>Receipts\<close>, \<open>Receipt_Ledger\<close>, \<open>Receipt_Migration\<close>: validity of a ledger
  decides its declarative specification, every outcome of an append, migration at most once and only
  with proof. \<open>Adapter_Abi\<close>: the constructors of manifests, requests, observations and policies, and
  what validation and assessment establish: with a policy that requires the kinds of SPEC 21.5.1, the
  contract of that section; the code does not make a policy require them.

  \<^bold>\<open>Installation.\<close> \<open>Py_Values\<close>: Python's operations on JSON values (equality up to the order of keys
  and with booleans as integers, lookup, truth, \<^verbatim>\<open>repr\<close>). \<open>Control_Plane\<close>: the tables, digests and
  \<^verbatim>\<open>validate_transition_contract\<close>. \<open>Control_Transition\<close>: the files, \<^verbatim>\<open>_transition_unlocked\<close>, the commit
  of the journal, recovery and \<^verbatim>\<open>replay\<close>. Every write replaces one file; an operation takes the number
  of writes that still happen, and the next one is a crash, so a statement for all numbers covers
  every point where a process can die. \<open>Control_Commit\<close>: the commit as a sequence of writes, and its
  checks at every point of that sequence. \<open>Control_Recovery\<close>: transitions are atomic under crashes of
  the transition and of its recoveries; a recovery needs at most five writes, one for each of
  message, event, state, installation and journal. \<open>Control_Replay\<close>: replay succeeds after every
  transition. \<open>Control_Requests\<close>: keys are bound to requests while the ledgers can be read, refused requests
  leave only a record, and two ways in which an accepted request locks the installation. \<open>Control_Accept\<close>: what meets its
  contract is committed. \<open>Control_Lifecycle\<close>: a ledger that replays is a path of the lifecycle.

  \<^bold>\<open>Examples.\<close> \<open>Kernel_Examples\<close>, \<open>Store_Examples\<close> and the theories named \<open>Witnesses\<close> apply the
  properties to concrete tasks, ledgers and stores.

  \<^bold>\<open>Conventions.\<close> A string is the list of the bytes of its UTF-8 text; Python's integers are \<open>int\<close>.
  A value that Python's annotations type is typed; where the source tests the type at run time of a
  value that comes from JSON, so does the model. Statements about digests hold up to a collision of
  SHA-256, which is named in the statement. The scanner of JSON has fuel, twice the length of the
  text and one: every step consumes a character or descends one level, and the round trips show that
  it is enough. Numbers with a fraction or exponent are refused when read, as no canonical document
  has them; a field that must be an integer refuses booleans when read.

  \<^bold>\<open>Where the code departs from SPEC.md.\<close> A property whose statement the specification contradicts says
  so in its text: retries of events of withdrawn attempts (\<open>Kernel_Run\<close>), done with required items
  failed (\<open>Kernel_Progress\<close>), policies with too few kinds (\<open>Adapter_Abi\<close>), statuses of tasks that
  cannot be reached (\<open>Task_Replay\<close>).

  \<^bold>\<open>Not modelled.\<close> The command line, the workflow and audit of task directories and the concrete
  adapters, which are text templates, processes, clocks and directory listings around the core above;
  of the control plane, the operations that gather the payloads of transitions and the lock around
  them; the retry loops around the host's lock and rename calls, which appear only by their outcome.
\<close>

end
